(* ===== verification/Prelude.thy ===== *)
theory Prelude
  imports "HOL-Library.Word" "HOL-Library.Signed_Division" "HOL-Library.AList"
begin

text \<open>
  Shared vocabulary of the development: the machine integers of the C++ sources, the string
  operations of the C and C++ standard libraries the sources use (\<open>c_str\<close>, \<open>find\<close>,
  \<open>rfind\<close>, \<open>substr\<close>, \<open>to_string\<close>, \<open>strnlen\<close>, \<open>lexicographical_compare\<close>), the
  unordered map as an association list in iteration order, and the collections of rewrite rules
  the component theories fill.
\<close>

section \<open>Machine integers\<close>

type_synonym u8 = "8 word"
type_synonym u16 = "16 word"
type_synonym u32 = "32 word"
type_synonym u64 = "64 word"
type_synonym i8 = "8 word"
type_synonym i32 = "32 word"
type_synonym i64 = "64 word"

text \<open>
  The signed types of the sources are words read with \<^const>\<open>sint\<close>; the signed comparisons are
  \<open>sint a < sint b\<close>.
\<close>

lemma sint_minus_small:
  fixes a b :: i64
  assumes "\<bar>sint a - sint b\<bar> < 2 ^ 63"
  shows "sint (a - b) = sint a - sint b"
  using assms by (simp add: sint_word_ariths signed_take_bit_int_eq_self)

lemma sint_plus_small:
  fixes a b :: i64
  assumes "- (2 ^ 63) \<le> sint a + sint b" "sint a + sint b < 2 ^ 63"
  shows "sint (a + b) = sint a + sint b"
  using assms by (simp add: sint_word_ariths signed_take_bit_int_eq_self)

named_theorems json_simps \<open>rewriting of JSON bodies under the documented behaviour of yyjson\<close>
named_theorems packet_simps \<open>rewriting of packets and identities\<close>
named_theorems string_simps \<open>rewriting of the string helpers\<close>
named_theorems plugin_defs \<open>the definitions of the plugin handlers\<close>
named_theorems session_simps \<open>rewriting of sessions and the session table\<close>

section \<open>Strings\<close>

text \<open>A \<open>const char*\<close> read from a \<open>std::string\<close> ends at the first NUL byte.\<close>

definition c_str :: "string \<Rightarrow> string" where
  "c_str s = takeWhile (\<lambda>c. c \<noteq> CHR 0x00) s"

definition nul_free :: "string \<Rightarrow> bool" where
  "nul_free s \<longleftrightarrow> CHR 0x00 \<notin> set s"

lemma c_str_nul_free [simp]: "nul_free s \<Longrightarrow> c_str s = s"
  by (auto simp: c_str_def nul_free_def takeWhile_eq_all_conv)

lemma nul_free_c_str [simp, intro]: "nul_free (c_str s)"
  by (auto simp: c_str_def nul_free_def dest: set_takeWhileD)

lemma c_str_idem [simp]: "c_str (c_str s) = c_str s"
  by simp

lemma nul_free_Nil [simp]: "nul_free []"
  and nul_free_Cons [simp]: "nul_free (c # s) \<longleftrightarrow> c \<noteq> CHR 0x00 \<and> nul_free s"
  and nul_free_append [simp]: "nul_free (s @ t) \<longleftrightarrow> nul_free s \<and> nul_free t"
  by (auto simp: nul_free_def)

lemma c_str_Nil [simp]: "c_str [] = []"
  by (simp add: c_str_def)

lemma c_str_append_NUL: "nul_free s \<Longrightarrow> c_str (s @ CHR 0x00 # t) = s"
  by (induction s) (auto simp: c_str_def)

text \<open>\<open>find\<close> and \<open>rfind\<close> (and \<open>find_last_of\<close>): the index of the first or last hit.\<close>

fun find_if :: "('a \<Rightarrow> bool) \<Rightarrow> 'a list \<Rightarrow> nat option" where
  "find_if P [] = None"
| "find_if P (x # xs) = (if P x then Some 0 else map_option Suc (find_if P xs))"

fun rfind_if :: "('a \<Rightarrow> bool) \<Rightarrow> 'a list \<Rightarrow> nat option" where
  "rfind_if P [] = None"
| "rfind_if P (x # xs) =
     (case rfind_if P xs of Some i \<Rightarrow> Some (Suc i) | None \<Rightarrow> if P x then Some 0 else None)"

lemma find_if_None: "find_if P xs = None \<longleftrightarrow> (\<forall>x \<in> set xs. \<not> P x)"
  by (induction xs) auto

lemma find_if_Some:
  "find_if P xs = Some i \<Longrightarrow> i < length xs \<and> P (xs ! i) \<and> (\<forall>x \<in> set (take i xs). \<not> P x)"
  by (induction xs arbitrary: i) (auto split: if_splits)

lemma rfind_if_None: "rfind_if P xs = None \<longleftrightarrow> (\<forall>x \<in> set xs. \<not> P x)"
  by (induction xs) (auto split: option.splits)

lemma rfind_if_Some:
  "rfind_if P xs = Some i \<Longrightarrow>
     i < length xs \<and> P (xs ! i) \<and> (\<forall>x \<in> set (drop (Suc i) xs). \<not> P x)"
  by (induction xs arbitrary: i) (auto simp: rfind_if_None split: option.splits if_splits)

lemma find_if_append:
  "find_if P (xs @ ys) =
     (case find_if P xs of Some i \<Rightarrow> Some i | None \<Rightarrow> map_option (\<lambda>i. length xs + i) (find_if P ys))"
  by (induction xs) (auto split: option.splits simp: option.map_comp comp_def map_option_case)

lemma rfind_if_append:
  "rfind_if P (xs @ ys) =
     (case rfind_if P ys of Some i \<Rightarrow> Some (length xs + i) | None \<Rightarrow> rfind_if P xs)"
  by (induction xs) (auto split: option.splits)

text \<open>\<open>std::string::find(needle)\<close>.\<close>

fun find_sub :: "string \<Rightarrow> string \<Rightarrow> nat option" where
  "find_sub needle [] = (if needle = [] then Some 0 else None)"
| "find_sub needle (c # s) =
     (if take (length needle) (c # s) = needle then Some 0
      else map_option Suc (find_sub needle s))"

lemma find_sub_Some:
  "find_sub n s = Some i \<Longrightarrow> take (length n) (drop i s) = n"
  by (induction n s arbitrary: i rule: find_sub.induct) (auto split: if_splits)

definition ends_with :: "string \<Rightarrow> string \<Rightarrow> bool" where
  "ends_with s suf \<longleftrightarrow> length suf \<le> length s \<and> drop (length s - length suf) s = suf"

lemma ends_with_append [simp]: "ends_with (s @ t) t"
  by (simp add: ends_with_def)

text \<open>\<open>std::to_string\<close> of an unsigned and a signed number.\<close>

definition digit_char :: "nat \<Rightarrow> char" where
  "digit_char d = char_of (48 + d)"

fun nat_str :: "nat \<Rightarrow> string" where
  "nat_str n = (if n < 10 then [digit_char n] else nat_str (n div 10) @ [digit_char (n mod 10)])"

declare nat_str.simps [simp del]

definition int_str :: "int \<Rightarrow> string" where
  "int_str i = (if i < 0 then CHR ''-'' # nat_str (nat (- i)) else nat_str (nat i))"

definition is_digit :: "char \<Rightarrow> bool" where
  "is_digit c \<longleftrightarrow> 48 \<le> (of_char c :: nat) \<and> (of_char c :: nat) \<le> 57"

definition digit_val :: "char \<Rightarrow> nat" where
  "digit_val c = of_char c - 48"

lemma of_digit_char: "d < 10 \<Longrightarrow> (of_char (digit_char d) :: nat) = 48 + d"
  by (simp add: digit_char_def of_char_of)

lemma is_digit_digit_char [simp]: "d < 10 \<Longrightarrow> is_digit (digit_char d)"
  by (simp add: is_digit_def of_digit_char)

lemma digit_val_digit_char [simp]: "d < 10 \<Longrightarrow> digit_val (digit_char d) = d"
  by (simp add: digit_val_def of_digit_char)

lemma nat_str_digits: "\<forall>c \<in> set (nat_str n). is_digit c"
proof (induction n rule: nat_str.induct)
  case (1 n)
  then show ?case by (subst nat_str.simps) auto
qed

lemma nat_str_nonempty [simp]: "nat_str n \<noteq> []"
  by (subst nat_str.simps) simp

definition digits_val :: "string \<Rightarrow> nat" where
  "digits_val s = foldl (\<lambda>n c. n * 10 + digit_val c) 0 s"

lemma digits_val_nat_str [simp]: "digits_val (nat_str n) = n"
proof (induction n rule: nat_str.induct)
  case (1 n)
  show ?case
  proof (cases "n < 10")
    case True
    then show ?thesis by (subst nat_str.simps) (simp add: digits_val_def)
  next
    case False
    then have "digits_val (nat_str (n div 10)) = n div 10" using 1 by simp
    then show ?thesis using False by (subst nat_str.simps) (simp add: digits_val_def)
  qed
qed

lemma nat_str_inject [simp]: "nat_str m = nat_str n \<longleftrightarrow> m = n"
  by (metis digits_val_nat_str)

lemma is_digit_not_special:
  "is_digit c \<Longrightarrow> c \<noteq> CHR 0x00 \<and> c \<noteq> CHR 0x0A \<and> c \<noteq> CHR ''-'' \<and> c \<noteq> CHR ''/''"
  by (auto simp: is_digit_def)

lemma nul_free_nat_str [simp]: "nul_free (nat_str n)"
  using nat_str_digits [of n] is_digit_not_special by (auto simp: nul_free_def)

lemma int_str_inject: "int_str i = int_str j \<Longrightarrow> i = j"
proof -
  assume eq: "int_str i = int_str j"
  have nm: "nat_str k \<noteq> CHR ''-'' # t" for k t
    using nat_str_digits [of k] is_digit_not_special by force
  show ?thesis
    using eq nm [of "nat i"] nm [of "nat j"] by (auto simp: int_str_def dest: sym split: if_splits)
qed

text \<open>\<open>std::lexicographical_compare\<close> with \<open><\<close> on the elements.\<close>

fun lex_less :: "('a::linorder) list \<Rightarrow> 'a list \<Rightarrow> bool" where
  "lex_less xs [] = False"
| "lex_less [] (y # ys) = True"
| "lex_less (x # xs) (y # ys) = (if x < y then True else if y < x then False else lex_less xs ys)"

lemma lex_less_irrefl [simp]: "\<not> lex_less xs xs"
  by (induction xs) auto

lemma lex_less_asym: "lex_less xs ys \<Longrightarrow> \<not> lex_less ys xs"
  by (induction xs ys rule: lex_less.induct) (auto split: if_splits)

lemma lex_less_total: "lex_less xs ys \<or> xs = ys \<or> lex_less ys xs"
  by (induction xs ys rule: lex_less.induct) (auto simp: neq_Nil_conv, case_tac xs, auto)

section \<open>Unordered maps\<close>

text \<open>
  A \<open>std::unordered_map\<close> is an association list with distinct keys, in the order an iteration
  visits it. C++ leaves that order open, and the properties do not depend on it: \<open>m[k] = v\<close> is
  \<^const>\<open>AList.update\<close>, \<open>erase(k)\<close> is \<^const>\<open>AList.delete\<close>, \<open>find\<close> is \<^const>\<open>map_of\<close>.
\<close>

type_synonym ('k, 'v) umap = "('k \<times> 'v) list"

definition um_contains :: "'k \<Rightarrow> ('k, 'v) umap \<Rightarrow> bool" where
  "um_contains k m \<longleftrightarrow> map_of m k \<noteq> None"

definition um_wf :: "('k, 'v) umap \<Rightarrow> bool" where
  "um_wf m \<longleftrightarrow> distinct (map fst m)"

lemma um_contains_iff: "um_contains k m \<longleftrightarrow> k \<in> fst ` set m"
  by (metis um_contains_def map_of_eq_None_iff)

lemma map_of_update [simp]: "map_of (AList.update k v m) k' = (if k' = k then Some v else map_of m k')"
  by (simp add: update_conv')

lemma map_of_delete [simp]: "map_of (AList.delete k m) k' = (if k' = k then None else map_of m k')"
  by (simp add: delete_conv')

lemma um_wf_update [simp, intro]: "um_wf m \<Longrightarrow> um_wf (AList.update k v m)"
  by (simp add: um_wf_def distinct_update)

lemma um_wf_delete [simp, intro]: "um_wf m \<Longrightarrow> um_wf (AList.delete k m)"
  by (simp add: um_wf_def distinct_delete)

lemma um_wf_Nil [simp]: "um_wf []"
  by (simp add: um_wf_def)

lemma length_update:
  "length (AList.update k v m) = (if um_contains k m then length m else Suc (length m))"
  unfolding um_contains_iff by (induction m) auto

lemma delete_eq_filter: "AList.delete k m = filter (\<lambda>p. fst p \<noteq> k) m"
  by (induction m) auto

lemma length_delete_le: "length (AList.delete k m) \<le> length m"
  by (simp add: delete_eq_filter length_filter_le)

lemma length_delete_less: "um_contains k m \<Longrightarrow> length (AList.delete k m) < length m"
  unfolding um_contains_iff delete_eq_filter by (force intro: length_filter_less)

text \<open>The loop that looks for the entry with the least stamp, the first one on a tie.\<close>

fun oldest_from :: "('k \<times> 'v) \<Rightarrow> ('v \<Rightarrow> 't::linorder) \<Rightarrow> ('k, 'v) umap \<Rightarrow> 'k \<times> 'v" where
  "oldest_from o1 t [] = o1"
| "oldest_from o1 t (e # es) = oldest_from (if t (snd e) < t (snd o1) then e else o1) t es"

lemma oldest_from_mem: "oldest_from o1 t es = o1 \<or> oldest_from o1 t es \<in> set es"
  by (induction o1 t es rule: oldest_from.induct) auto

lemma oldest_from_le:
  "t (snd (oldest_from o1 t es)) \<le> t (snd o1) \<and>
   (\<forall>e \<in> set es. t (snd (oldest_from o1 t es)) \<le> t (snd e))"
proof (induction o1 t es rule: oldest_from.induct)
  case (2 o1 t e es)
  then show ?case by (cases "t (snd e) < t (snd o1)") (auto intro: order_trans)
qed simp

end
