(* ===== verification/Json_Value.thy ===== *)
theory Json_Value
  imports Prelude
begin

text \<open>
  JSON values as yyjson exposes them to \<open>json_body.cpp\<close>, and the yyjson functions that file calls.
  yyjson is a submodule and not part of the repository: its functions are the fields of a record
  that every definition using them takes as an argument, and \<open>yyjson_ok\<close> states the documented
  behaviour the proofs use. \<open>Json_Reference\<close> shows that it can hold.
\<close>

text \<open>
  A number is an unsigned 64-bit, a signed 64-bit or a real value (kept as its IEEE bits, no code
  of the repository looks inside one). An object is the list of its members in order.
\<close>

datatype jval =
    JNull
  | JBool bool
  | JUint u64
  | JSint i64
  | JReal u64
  | JStr string
  | JArr "jval list"
  | JObj "(string \<times> jval) list"

fun is_jobj :: "jval \<Rightarrow> bool" where
  "is_jobj (JObj _) = True" | "is_jobj _ = False"

fun is_jarr :: "jval \<Rightarrow> bool" where
  "is_jarr (JArr _) = True" | "is_jarr _ = False"

fun is_jstr :: "jval \<Rightarrow> bool" where
  "is_jstr (JStr _) = True" | "is_jstr _ = False"

fun is_jbool :: "jval \<Rightarrow> bool" where
  "is_jbool (JBool _) = True" | "is_jbool _ = False"

fun is_jint :: "jval \<Rightarrow> bool" where
  "is_jint (JUint _) = True" | "is_jint (JSint _) = True" | "is_jint _ = False"

fun is_jnum :: "jval \<Rightarrow> bool" where
  "is_jnum (JReal _) = True" | "is_jnum v = is_jint v"

lemma is_jobjE: "is_jobj v \<Longrightarrow> (\<And>kvs. v = JObj kvs \<Longrightarrow> P) \<Longrightarrow> P"
  by (cases v) auto

text \<open>The functions of yyjson that the repository calls.\<close>

record yyjson =
  yy_read :: "string \<Rightarrow> jval option"
  yy_write :: "bool \<Rightarrow> jval \<Rightarrow> string option"
  yy_copy :: "jval \<Rightarrow> jval option"
  yy_obj_get :: "jval \<Rightarrow> string \<Rightarrow> jval option"
  yy_obj_remove_str :: "jval \<Rightarrow> string \<Rightarrow> jval"
  yy_obj_add :: "jval \<Rightarrow> string \<Rightarrow> jval \<Rightarrow> jval"
  yy_get_int :: "jval \<Rightarrow> i32"
  yy_get_sint :: "jval \<Rightarrow> i64"

text \<open>
  A value every conforming reader and writer handles: ASCII strings without NUL, no reals.
  Writing a non-negative signed number and reading it back gives an unsigned one.
\<close>

definition ascii_char :: "char \<Rightarrow> bool" where
  "ascii_char c \<longleftrightarrow> 0 < (of_char c :: nat) \<and> (of_char c :: nat) < 128"

definition ascii :: "string \<Rightarrow> bool" where
  "ascii s \<longleftrightarrow> list_all ascii_char s"

primrec j_plain :: "jval \<Rightarrow> bool" where
  "j_plain JNull = True"
| "j_plain (JBool b) = True"
| "j_plain (JUint w) = True"
| "j_plain (JSint w) = True"
| "j_plain (JReal w) = False"
| "j_plain (JStr s) = ascii s"
| "j_plain (JArr xs) = list_all id (map j_plain xs)"
| "j_plain (JObj kvs) = list_all (\<lambda>p. ascii (fst p) \<and> snd p) (map (map_prod id j_plain) kvs)"

primrec j_norm :: "jval \<Rightarrow> jval" where
  "j_norm JNull = JNull"
| "j_norm (JBool b) = JBool b"
| "j_norm (JUint w) = JUint w"
| "j_norm (JSint w) = (if 0 \<le> sint w then JUint w else JSint w)"
| "j_norm (JReal w) = JReal w"
| "j_norm (JStr s) = JStr s"
| "j_norm (JArr xs) = JArr (map j_norm xs)"
| "j_norm (JObj kvs) = JObj (map (map_prod id j_norm) kvs)"

lemma ascii_simps [simp]:
  "ascii []" "ascii (c # s) \<longleftrightarrow> ascii_char c \<and> ascii s" "ascii (s @ t) \<longleftrightarrow> ascii s \<and> ascii t"
  by (auto simp: ascii_def)

lemma ascii_nul_free: "ascii s \<Longrightarrow> nul_free s"
  by (induction s) (auto simp: ascii_char_def)

lemma ascii_digit [simp]: "is_digit c \<Longrightarrow> ascii_char c"
  by (auto simp: is_digit_def ascii_char_def)

lemma map_of_map_prod: "map_of (map (map_prod id f) kvs) k = map_option f (map_of kvs k)"
  by (induction kvs) (auto simp: map_prod_def split: prod.splits)

lemma is_j_norm [simp]:
  "is_jobj (j_norm v) = is_jobj v" "is_jarr (j_norm v) = is_jarr v"
  "is_jstr (j_norm v) = is_jstr v" "is_jbool (j_norm v) = is_jbool v"
  "is_jint (j_norm v) = is_jint v" "is_jnum (j_norm v) = is_jnum v"
  by (cases v; simp)+

lemma j_norm_idem [simp]: "j_norm (j_norm v) = j_norm v"
proof (induction v)
  case (JObj kvs)
  then show ?case by (fastforce simp: map_prod_def split: prod.splits)
qed simp_all

section \<open>The text of a value\<close>

text \<open>
  The minified JSON text of a plain value, after RFC 8259. The specification of the reader uses
  it, and so does the property of the command list that \<open>run_command_plugin.cpp\<close> prints by hand.
\<close>

definition hex_char :: "nat \<Rightarrow> char" where
  "hex_char d = (if d < 10 then char_of (48 + d) else char_of (87 + d))"

definition esc_char :: "char \<Rightarrow> string" where
  "esc_char c =
     (if c = CHR 0x22 then [CHR 0x5C, CHR 0x22]
      else if c = CHR 0x5C then [CHR 0x5C, CHR 0x5C]
      else if (of_char c :: nat) < 32
        then [CHR 0x5C, CHR ''u'', CHR ''0'', CHR ''0'',
              hex_char (of_char c div 16), hex_char (of_char c mod 16)]
      else [c])"

definition quoted :: "string \<Rightarrow> string" where
  "quoted s = CHR 0x22 # concat (map esc_char s) @ [CHR 0x22]"

fun joined :: "string list \<Rightarrow> string" where
  "joined [] = []"
| "joined [s] = s"
| "joined (s # t # ss) = s @ CHR '','' # joined (t # ss)"

definition member_text :: "string \<times> string \<Rightarrow> string" where
  "member_text p = quoted (fst p) @ CHR '':'' # snd p"

primrec json_text :: "jval \<Rightarrow> string" where
  "json_text JNull = ''null''"
| "json_text (JBool b) = (if b then ''true'' else ''false'')"
| "json_text (JUint w) = nat_str (unat w)"
| "json_text (JSint w) = int_str (sint w)"
| "json_text (JReal w) = ''0.0''"
| "json_text (JStr s) = quoted s"
| "json_text (JArr xs) = ''['' @ joined (map json_text xs) @ '']''"
| "json_text (JObj kvs) = ''{'' @ joined (map member_text (map (map_prod id json_text) kvs)) @ ''}''"

section \<open>Documented behaviour of yyjson\<close>

definition yy_tree_ok :: "yyjson \<Rightarrow> bool" where
  "yy_tree_ok Y \<longleftrightarrow>
     (\<forall>kvs k. yy_obj_get Y (JObj kvs) k = map_of kvs k) \<and>
     (\<forall>kvs k. yy_obj_remove_str Y (JObj kvs) k = JObj (AList.delete k kvs)) \<and>
     (\<forall>kvs k v. yy_obj_add Y (JObj kvs) k v = JObj (kvs @ [(k, v)])) \<and>
     (\<forall>v. yy_copy Y v = Some v) \<and>
     (\<forall>w. yy_get_int Y (JUint w) = ucast w \<and> yy_get_int Y (JSint w) = ucast w \<and>
          yy_get_int Y (JReal w) = 0) \<and>
     (\<forall>w. yy_get_sint Y (JUint w) = w \<and> yy_get_sint Y (JSint w) = w \<and> yy_get_sint Y (JReal w) = 0)"

definition yy_text_ok :: "yyjson \<Rightarrow> bool" where
  "yy_text_ok Y \<longleftrightarrow>
     (\<forall>p v. j_plain v \<longrightarrow>
        (\<exists>s. yy_write Y p v = Some s \<and> s \<noteq> [] \<and> nul_free s \<and> (p \<or> CHR 0x0A \<notin> set s) \<and>
             yy_read Y s = Some (j_norm v))) \<and>
     (\<forall>v. j_plain v \<longrightarrow> yy_read Y (json_text v) = Some (j_norm v)) \<and>
     (\<forall>s. yy_read Y (s @ [CHR 0x0A]) = yy_read Y s)"

definition yyjson_ok :: "yyjson \<Rightarrow> bool" where
  "yyjson_ok Y \<longleftrightarrow> yy_tree_ok Y \<and> yy_text_ok Y"

lemma yy_tree_okD:
  assumes "yyjson_ok Y"
  shows yy_obj_get_JObj [json_simps]: "yy_obj_get Y (JObj kvs) k = map_of kvs k"
    and yy_obj_remove_JObj [json_simps]: "yy_obj_remove_str Y (JObj kvs) k = JObj (AList.delete k kvs)"
    and yy_obj_add_JObj [json_simps]: "yy_obj_add Y (JObj kvs) k v = JObj (kvs @ [(k, v)])"
    and yy_copy_Some [json_simps]: "yy_copy Y v = Some v"
    and yy_get_int_JUint [json_simps]: "yy_get_int Y (JUint w) = ucast w"
    and yy_get_int_JSint [json_simps]: "yy_get_int Y (JSint w) = ucast w"
    and yy_get_int_JReal [json_simps]: "yy_get_int Y (JReal w) = 0"
    and yy_get_sint_JUint [json_simps]: "yy_get_sint Y (JUint w) = w"
    and yy_get_sint_JSint [json_simps]: "yy_get_sint Y (JSint w) = w"
    and yy_get_sint_JReal [json_simps]: "yy_get_sint Y (JReal w) = 0"
  using assms unfolding yyjson_ok_def yy_tree_ok_def by (elim conjE; simp only:)+

lemma yy_read_text: "yyjson_ok Y \<Longrightarrow> j_plain v \<Longrightarrow> yy_read Y (json_text v) = Some (j_norm v)"
  unfolding yyjson_ok_def yy_text_ok_def by blast

lemma yy_read_newline [json_simps]: "yyjson_ok Y \<Longrightarrow> yy_read Y (s @ [CHR 0x0A]) = yy_read Y s"
  unfolding yyjson_ok_def yy_text_ok_def by blast

lemma yy_writeE:
  assumes "yyjson_ok Y" "j_plain v"
  obtains s where "yy_write Y p v = Some s" "s \<noteq> []" "nul_free s" "\<not> p \<Longrightarrow> CHR 0x0A \<notin> set s"
    "yy_read Y s = Some (j_norm v)"
  using assms unfolding yyjson_ok_def yy_text_ok_def by blast

lemma yy_get_int_norm: "yyjson_ok Y \<Longrightarrow> is_jnum v \<Longrightarrow> yy_get_int Y (j_norm v) = yy_get_int Y v"
  by (cases v) (auto simp: json_simps)

lemma yy_get_sint_norm: "yyjson_ok Y \<Longrightarrow> is_jnum v \<Longrightarrow> yy_get_sint Y (j_norm v) = yy_get_sint Y v"
  by (cases v) (auto simp: json_simps)

end
