(* ===== verification/Interfaces.thy ===== *)
theory Interfaces
  imports Prelude
begin

text \<open>
  The contracts components share, as locales. Each is interpreted, in the theory of the component
  that provides it, on the model of the code: a store of keyed fields (JSON bodies, settings), a
  container with a capacity (the caches and queues of the plugins), a transfer in chunks
  (the loops of the storage and payload code), a reference count, and a codec of fixed size.
\<close>

section \<open>A store of keyed fields\<close>

text \<open>
  \<open>e\<close> is the third-party environment a store's operations run in, \<open>ok e\<close> its documented
  behaviour and \<open>good b\<close> the store's own invariant.
\<close>

locale field_store =
  fixes ok :: "'e \<Rightarrow> bool"
    and good :: "'b \<Rightarrow> bool"
    and key_ok :: "'k \<Rightarrow> bool"
    and get :: "'e \<Rightarrow> 'b \<Rightarrow> 'k \<Rightarrow> 'v option"
    and put :: "'e \<Rightarrow> 'b \<Rightarrow> 'k \<Rightarrow> 'v \<Rightarrow> 'b"
  assumes good_put: "ok e \<Longrightarrow> good b \<Longrightarrow> good (put e b k v)"
    and get_put: "ok e \<Longrightarrow> good b \<Longrightarrow> key_ok k \<Longrightarrow>
          get e (put e b k v) k' = (if k' = k then Some v else get e b k')"
begin

lemma get_put_same: "ok e \<Longrightarrow> good b \<Longrightarrow> key_ok k \<Longrightarrow> get e (put e b k v) k = Some v"
  by (simp add: get_put)

lemma get_put_other:
  "ok e \<Longrightarrow> good b \<Longrightarrow> key_ok k \<Longrightarrow> k' \<noteq> k \<Longrightarrow> get e (put e b k v) k' = get e b k'"
  by (simp add: get_put)

lemma put_overwrites:
  "ok e \<Longrightarrow> good b \<Longrightarrow> key_ok k \<Longrightarrow>
     get e (put e (put e b k v) k w) k' = get e (put e b k w) k'"
  by (simp add: get_put good_put)

lemma puts_commute:
  "ok e \<Longrightarrow> good b \<Longrightarrow> key_ok k \<Longrightarrow> key_ok l \<Longrightarrow> k \<noteq> l \<Longrightarrow>
     get e (put e (put e b k v) l w) k' = get e (put e (put e b l w) k v) k'"
  by (simp add: get_put good_put)

lemma good_puts: "ok e \<Longrightarrow> good b \<Longrightarrow> good (foldl (\<lambda>b (k, v). put e b k v) b kvs)"
  by (induction kvs arbitrary: b) (auto simp: good_put)

text \<open>After a chain of writes the last write of a key wins.\<close>

lemma get_puts:
  "ok e \<Longrightarrow> good b \<Longrightarrow> list_all (\<lambda>p. key_ok (fst p)) kvs \<Longrightarrow>
     get e (foldl (\<lambda>b (k, v). put e b k v) b kvs) k =
       (case map_of (rev kvs) k of Some v \<Rightarrow> Some v | None \<Rightarrow> get e b k)"
proof (induction kvs arbitrary: b)
  case (Cons kv kvs)
  then show ?case
    by (cases kv) (auto simp: get_put good_put map_add_def split: option.splits)
qed simp

end

section \<open>The store of paired devices\<close>

text \<open>
  \<open>save\<close> enters a device under its own key, \<open>remove\<close> forgets a key, and \<open>load\<close> sees the last of
  them. \<open>good\<close> says which devices the provider can store, \<open>key_ok\<close> which keys it can address.
\<close>

datatype ('i, 'c, 'k) store_op = Save 'i 'c | Remove 'k

locale paired_store =
  fixes ok :: "'e \<Rightarrow> bool"
    and key_ok :: "'e \<Rightarrow> 'k \<Rightarrow> bool"
    and good :: "'e \<Rightarrow> 'i \<Rightarrow> 'c \<Rightarrow> bool"
    and key :: "'i \<Rightarrow> 'k"
    and load :: "'e \<Rightarrow> 'k \<Rightarrow> 's \<Rightarrow> 'r option"
    and save :: "'e \<Rightarrow> 'i \<Rightarrow> 'c \<Rightarrow> 's \<Rightarrow> 's"
    and remove :: "'e \<Rightarrow> 'k \<Rightarrow> 's \<Rightarrow> 's"
    and stored :: "'i \<Rightarrow> 'c \<Rightarrow> 'r"
  assumes good_key: "good e i c \<Longrightarrow> key_ok e (key i)"
    and load_save: "ok e \<Longrightarrow> good e i c \<Longrightarrow> key_ok e k \<Longrightarrow>
          load e k (save e i c s) = (if k = key i then Some (stored i c) else load e k s)"
    and load_remove: "ok e \<Longrightarrow> key_ok e k \<Longrightarrow> key_ok e l \<Longrightarrow>
          load e k (remove e l s) = (if k = l then None else load e k s)"
begin

primrec apply_op :: "'e \<Rightarrow> ('i, 'c, 'k) store_op \<Rightarrow> 's \<Rightarrow> 's" where
  "apply_op e (Save i c) s = save e i c s"
| "apply_op e (Remove k) s = remove e k s"

primrec op_ok :: "'e \<Rightarrow> ('i, 'c, 'k) store_op \<Rightarrow> bool" where
  "op_ok e (Save i c) = good e i c"
| "op_ok e (Remove k) = key_ok e k"

primrec op_key :: "('i, 'c, 'k) store_op \<Rightarrow> 'k" where
  "op_key (Save i c) = key i"
| "op_key (Remove k) = k"

lemma load_apply:
  "ok e \<Longrightarrow> op_ok e a \<Longrightarrow> key_ok e k \<Longrightarrow>
     load e k (apply_op e a s) =
       (if k = op_key a then (case a of Save i c \<Rightarrow> Some (stored i c) | Remove _ \<Rightarrow> None) else load e k s)"
  by (cases a) (auto simp: load_save load_remove)

text \<open>Operations on other keys do not matter, however many.\<close>

lemma load_others:
  "ok e \<Longrightarrow> list_all (op_ok e) as \<Longrightarrow> key_ok e k \<Longrightarrow> k \<notin> op_key ` set as \<Longrightarrow>
     load e k (fold (apply_op e) as s) = load e k s"
  by (induction as arbitrary: s) (auto simp: load_apply)

text \<open>The last operation on a key decides what a load of it finds.\<close>

lemma load_last_op:
  assumes "ok e" "op_ok e a" "list_all (op_ok e) bs" "op_key a \<notin> op_key ` set bs" "key_ok e (op_key a)"
  shows "load e (op_key a) (fold (apply_op e) (as @ a # bs) s) =
     (case a of Save i c \<Rightarrow> Some (stored i c) | Remove _ \<Rightarrow> None)"
  using assms by (simp add: load_others load_apply split: store_op.split)

end

section \<open>A container with a capacity\<close>

text \<open>
  \<open>put x c\<close> stores \<open>x\<close> and evicts what the code evicts; \<open>cap\<close> is the number of entries the
  code promises never to exceed.
\<close>

locale bounded_store =
  fixes wf :: "'c \<Rightarrow> bool"
    and count :: "'c \<Rightarrow> nat"
    and cap :: nat
    and put :: "'x \<Rightarrow> 'c \<Rightarrow> 'c"
    and stored :: "'x \<Rightarrow> 'c \<Rightarrow> bool"
  assumes wf_put: "wf c \<Longrightarrow> wf (put x c)"
    and count_put: "wf c \<Longrightarrow> count c \<le> cap \<Longrightarrow> count (put x c) \<le> cap"
    and stored_put: "wf c \<Longrightarrow> count c \<le> cap \<Longrightarrow> stored x (put x c)"
begin

lemma wf_puts: "wf c \<Longrightarrow> wf (fold put xs c)"
  by (induction xs arbitrary: c) (auto simp: wf_put)

lemma count_puts: "wf c \<Longrightarrow> count c \<le> cap \<Longrightarrow> count (fold put xs c) \<le> cap"
  by (induction xs arbitrary: c) (auto simp: wf_put count_put)

lemma stored_last: "wf c \<Longrightarrow> count c \<le> cap \<Longrightarrow> stored x (fold put (xs @ [x]) c)"
  by (simp add: stored_put wf_puts count_puts)

end

section \<open>A transfer in chunks\<close>

text \<open>
  The loops that move \<open>remaining\<close> bytes take \<open>step remaining\<close> of them per iteration. The
  contract is that an iteration moves something and never more than is left.
\<close>

locale chunked =
  fixes step :: "nat \<Rightarrow> nat"
  assumes step_pos: "0 < r \<Longrightarrow> 0 < step r"
    and step_le: "0 < r \<Longrightarrow> step r \<le> r"
begin

lemma step_decreases: "0 < r \<Longrightarrow> r - step r < r"
  using step_pos [of r] by simp

lemma remaining_after: "0 < r \<Longrightarrow> step r + (r - step r) = r"
  using step_le [of r] by simp

text \<open>Reading a list through the chunk sizes gives the list back.\<close>

lemma take_step_append: "xs \<noteq> [] \<Longrightarrow> take (step (length xs)) xs @ drop (step (length xs)) xs = xs"
  by simp

lemma length_take_step: "xs \<noteq> [] \<Longrightarrow> length (take (step (length xs)) xs) = step (length xs)"
  using step_le [of "length xs"] by simp

end

section \<open>A reference count\<close>

text \<open>
  \<open>acquire b s\<close> takes a reference, where \<open>b\<close> says whether the service opens;
  \<open>release s\<close> gives it back. The service is open exactly while references are held.
\<close>

locale ref_counted =
  fixes refs :: "'s \<Rightarrow> nat"
    and is_open :: "'s \<Rightarrow> bool"
    and acquire :: "bool \<Rightarrow> 's \<Rightarrow> 's"
    and release :: "'s \<Rightarrow> 's"
    and sane :: "'s \<Rightarrow> bool"
  assumes sane_open: "sane s \<Longrightarrow> is_open s \<longleftrightarrow> 0 < refs s"
    and sane_acquire: "sane s \<Longrightarrow> sane (acquire b s)"
    and sane_release: "sane s \<Longrightarrow> 0 < refs s \<Longrightarrow> sane (release s)"
    and refs_acquire: "sane s \<Longrightarrow> b \<or> 0 < refs s \<Longrightarrow> refs (acquire b s) = Suc (refs s)"
    and refs_release: "sane s \<Longrightarrow> 0 < refs s \<Longrightarrow> refs (release s) = refs s - 1"
begin

lemma acquire_opens: "sane s \<Longrightarrow> b \<or> 0 < refs s \<Longrightarrow> is_open (acquire b s)"
  by (simp add: sane_open sane_acquire refs_acquire)

lemma acquire_release:
  "sane s \<Longrightarrow> b \<or> 0 < refs s \<Longrightarrow> refs (release (acquire b s)) = refs s \<and> sane (release (acquire b s))"
  by (simp add: refs_release sane_acquire refs_acquire sane_release)

lemma last_release_closes: "sane s \<Longrightarrow> refs s = 1 \<Longrightarrow> \<not> is_open (release s)"
  by (simp add: sane_open sane_release refs_release)

end

section \<open>A codec of fixed size\<close>

locale fixed_codec =
  fixes enc :: "'a \<Rightarrow> 'byte list"
    and dec :: "'byte list \<Rightarrow> 'b"
    and width :: nat
    and view :: "'a \<Rightarrow> 'b"
  assumes enc_width: "length (enc x) = width"
    and dec_enc: "dec (enc x) = view x"
begin

lemma dec_take: "dec (take width (enc x @ rest)) = view x"
  by (simp add: enc_width dec_enc)

lemma not_short: "\<not> length (enc x @ rest) < width"
  by (simp add: enc_width)

end

end
