(* ===== verification/Json_Body.thy ===== *)
theory Json_Body
  imports Json_Value Interfaces
begin

text \<open>
  \<open>sysmodule/src/net/json_body.cpp\<close>: the JSON object wrapper every packet body and every settings
  or pairing file goes through. A body is the value its root points to; the ownership of the
  underlying document is the subject of \<open>Json_Ownership\<close>. Keys are passed as \<open>const char*\<close>, values
  of type \<open>std::string\<close> through \<open>c_str()\<close>, so a NUL byte ends them. The overloads of \<open>value\<close>,
  \<open>set\<close> and the callbacks' \<open>std::function\<close> become one definition per type, with the state the
  callback captures as an extra argument.
\<close>

type_synonym json_body = jval

section \<open>Helpers\<close>

definition field :: "yyjson \<Rightarrow> json_body \<Rightarrow> string \<Rightarrow> jval option" where
  "field Y obj key = (if \<not> is_jobj obj then None else yy_obj_get Y obj key)"

definition upsert :: "yyjson \<Rightarrow> json_body \<Rightarrow> string \<Rightarrow> jval \<Rightarrow> json_body" where
  "upsert Y obj key val = (let obj = yy_obj_remove_str Y obj key in yy_obj_add Y obj (c_str key) val)"

definition jb_empty :: json_body where
  "jb_empty = JObj []"

section \<open>Parsing\<close>

definition jb_parse :: "yyjson \<Rightarrow> string \<Rightarrow> json_body" where
  "jb_parse Y json =
     (if c_str json = [] then jb_empty
      else case yy_read Y (c_str json) of
             None \<Rightarrow> jb_empty
           | Some root \<Rightarrow> if \<not> is_jobj root then jb_empty else root)"

section \<open>Type checks\<close>

definition jb_has :: "yyjson \<Rightarrow> json_body \<Rightarrow> string \<Rightarrow> bool" where
  "jb_has Y b key = (field Y b key \<noteq> None)"

definition jb_is_str :: "yyjson \<Rightarrow> json_body \<Rightarrow> string \<Rightarrow> bool" where
  "jb_is_str Y b key = (case field Y b key of None \<Rightarrow> False | Some v \<Rightarrow> is_jstr v)"

definition jb_is_num :: "yyjson \<Rightarrow> json_body \<Rightarrow> string \<Rightarrow> bool" where
  "jb_is_num Y b key = (case field Y b key of None \<Rightarrow> False | Some v \<Rightarrow> is_jnum v)"

definition jb_is_bool :: "yyjson \<Rightarrow> json_body \<Rightarrow> string \<Rightarrow> bool" where
  "jb_is_bool Y b key = (case field Y b key of None \<Rightarrow> False | Some v \<Rightarrow> is_jbool v)"

definition jb_is_array :: "yyjson \<Rightarrow> json_body \<Rightarrow> string \<Rightarrow> bool" where
  "jb_is_array Y b key = (case field Y b key of None \<Rightarrow> False | Some v \<Rightarrow> is_jarr v)"

definition jb_is_obj :: "yyjson \<Rightarrow> json_body \<Rightarrow> string \<Rightarrow> bool" where
  "jb_is_obj Y b key = (case field Y b key of None \<Rightarrow> False | Some v \<Rightarrow> is_jobj v)"

section \<open>Reading with a default\<close>

definition jb_value_bool :: "yyjson \<Rightarrow> json_body \<Rightarrow> string \<Rightarrow> bool \<Rightarrow> bool" where
  "jb_value_bool Y b key d = (case field Y b key of Some (JBool x) \<Rightarrow> x | _ \<Rightarrow> d)"

definition jb_value_int :: "yyjson \<Rightarrow> json_body \<Rightarrow> string \<Rightarrow> i32 \<Rightarrow> i32" where
  "jb_value_int Y b key d =
     (case field Y b key of None \<Rightarrow> d | Some v \<Rightarrow> if is_jnum v then yy_get_int Y v else d)"

definition jb_value_i64 :: "yyjson \<Rightarrow> json_body \<Rightarrow> string \<Rightarrow> i64 \<Rightarrow> i64" where
  "jb_value_i64 Y b key d =
     (case field Y b key of None \<Rightarrow> d | Some v \<Rightarrow> if is_jnum v then yy_get_sint Y v else d)"

definition jb_value_str :: "yyjson \<Rightarrow> json_body \<Rightarrow> string \<Rightarrow> string \<Rightarrow> string" where
  "jb_value_str Y b key d = (case field Y b key of Some (JStr s) \<Rightarrow> c_str s | _ \<Rightarrow> d)"

section \<open>Reading without a default\<close>

definition jb_get_bool :: "yyjson \<Rightarrow> json_body \<Rightarrow> string \<Rightarrow> bool" where
  "jb_get_bool Y b key = (case field Y b key of Some (JBool x) \<Rightarrow> x | _ \<Rightarrow> False)"

definition jb_get_int :: "yyjson \<Rightarrow> json_body \<Rightarrow> string \<Rightarrow> i32" where
  "jb_get_int Y b key =
     (case field Y b key of None \<Rightarrow> 0 | Some v \<Rightarrow> if is_jnum v then yy_get_int Y v else 0)"

definition jb_get_i64 :: "yyjson \<Rightarrow> json_body \<Rightarrow> string \<Rightarrow> i64" where
  "jb_get_i64 Y b key =
     (case field Y b key of None \<Rightarrow> 0 | Some v \<Rightarrow> if is_jnum v then yy_get_sint Y v else 0)"

definition jb_get_str :: "yyjson \<Rightarrow> json_body \<Rightarrow> string \<Rightarrow> string" where
  "jb_get_str Y b key = (case field Y b key of Some (JStr s) \<Rightarrow> c_str s | _ \<Rightarrow> [])"

fun str_items :: "jval list \<Rightarrow> string list" where
  "str_items [] = []"
| "str_items (item # items) =
     (case item of JStr s \<Rightarrow> c_str s # str_items items | _ \<Rightarrow> str_items items)"

definition jb_get_str_array :: "yyjson \<Rightarrow> json_body \<Rightarrow> string \<Rightarrow> string list" where
  "jb_get_str_array Y b key = (case field Y b key of Some (JArr items) \<Rightarrow> str_items items | _ \<Rightarrow> [])"

definition jb_get_obj :: "yyjson \<Rightarrow> json_body \<Rightarrow> string \<Rightarrow> json_body" where
  "jb_get_obj Y b key =
     (case field Y b key of
        None \<Rightarrow> jb_empty
      | Some v \<Rightarrow>
          if \<not> is_jobj v then jb_empty
          else case yy_copy Y v of Some copied \<Rightarrow> copied | None \<Rightarrow> jb_empty)"

section \<open>Iteration\<close>

definition jb_each_str :: "yyjson \<Rightarrow> json_body \<Rightarrow> string \<Rightarrow> (string \<Rightarrow> 's \<Rightarrow> 's) \<Rightarrow> 's \<Rightarrow> 's" where
  "jb_each_str Y b key fn s =
     (case field Y b key of
        Some (JArr items) \<Rightarrow> fold (\<lambda>item s. case item of JStr t \<Rightarrow> fn (c_str t) s | _ \<Rightarrow> s) items s
      | _ \<Rightarrow> s)"

definition jb_each_obj :: "yyjson \<Rightarrow> json_body \<Rightarrow> string \<Rightarrow> (json_body \<Rightarrow> 's \<Rightarrow> 's) \<Rightarrow> 's \<Rightarrow> 's" where
  "jb_each_obj Y b key fn s =
     (case field Y b key of
        Some (JArr items) \<Rightarrow> fold (\<lambda>item s. if is_jobj item then fn item s else s) items s
      | _ \<Rightarrow> s)"

definition jb_each_bool :: "yyjson \<Rightarrow> json_body \<Rightarrow> string \<Rightarrow> (string \<Rightarrow> bool \<Rightarrow> 's \<Rightarrow> 's) \<Rightarrow> 's \<Rightarrow> 's" where
  "jb_each_bool Y b key fn s =
     (case field Y b key of
        Some (JObj kvs) \<Rightarrow>
          fold (\<lambda>(k, v) s. case v of JBool x \<Rightarrow> fn (c_str k) x s | _ \<Rightarrow> s) kvs s
      | _ \<Rightarrow> s)"

definition jb_each_int :: "yyjson \<Rightarrow> json_body \<Rightarrow> string \<Rightarrow> (string \<Rightarrow> i32 \<Rightarrow> 's \<Rightarrow> 's) \<Rightarrow> 's \<Rightarrow> 's" where
  "jb_each_int Y b key fn s =
     (case field Y b key of
        Some (JObj kvs) \<Rightarrow>
          fold (\<lambda>(k, v) s. if is_jint v then fn (c_str k) (yy_get_int Y v) s else s) kvs s
      | _ \<Rightarrow> s)"

definition jb_each_kv :: "json_body \<Rightarrow> (string \<Rightarrow> json_body \<Rightarrow> 's \<Rightarrow> 's) \<Rightarrow> 's \<Rightarrow> 's" where
  "jb_each_kv b fn s =
     (case b of JObj kvs \<Rightarrow> fold (\<lambda>(k, v) s. fn (c_str k) v s) kvs s | _ \<Rightarrow> s)"

section \<open>Setters\<close>

definition set_bool :: "yyjson \<Rightarrow> string \<Rightarrow> bool \<Rightarrow> json_body \<Rightarrow> json_body" where
  "set_bool Y key v b = upsert Y b key (JBool v)"

definition set_int :: "yyjson \<Rightarrow> string \<Rightarrow> i32 \<Rightarrow> json_body \<Rightarrow> json_body" where
  "set_int Y key v b = upsert Y b key (JSint (scast v))"

definition set_i64 :: "yyjson \<Rightarrow> string \<Rightarrow> i64 \<Rightarrow> json_body \<Rightarrow> json_body" where
  "set_i64 Y key v b = upsert Y b key (JSint v)"

definition set_double :: "yyjson \<Rightarrow> string \<Rightarrow> u64 \<Rightarrow> json_body \<Rightarrow> json_body" where
  "set_double Y key v b = upsert Y b key (JReal v)"

definition set_str :: "yyjson \<Rightarrow> string \<Rightarrow> string \<Rightarrow> json_body \<Rightarrow> json_body" where
  "set_str Y key v b = upsert Y b key (JStr (c_str v))"

definition copy_field :: "yyjson \<Rightarrow> string \<Rightarrow> json_body \<Rightarrow> json_body \<Rightarrow> json_body" where
  "copy_field Y key src b =
     (case field Y src key of
        None \<Rightarrow> b
      | Some v \<Rightarrow> (case yy_copy Y v of Some copied \<Rightarrow> upsert Y b key copied | None \<Rightarrow> b))"

definition set_body :: "yyjson \<Rightarrow> string \<Rightarrow> json_body \<Rightarrow> json_body \<Rightarrow> json_body" where
  "set_body Y key child b =
     (case yy_copy Y child of Some copied \<Rightarrow> upsert Y b key copied | None \<Rightarrow> b)"

definition set_str_array :: "yyjson \<Rightarrow> string \<Rightarrow> string list \<Rightarrow> json_body \<Rightarrow> json_body" where
  "set_str_array Y key v b = upsert Y b key (JArr (map (\<lambda>s. JStr (c_str s)) v))"

definition set_array_with_object ::
    "yyjson \<Rightarrow> string \<Rightarrow> (json_body \<Rightarrow> json_body) \<Rightarrow> json_body \<Rightarrow> json_body" where
  "set_array_with_object Y key fn b = upsert Y b key (JArr [fn (JObj [])])"

section \<open>Serialization\<close>

definition jb_dump :: "yyjson \<Rightarrow> json_body \<Rightarrow> string" where
  "jb_dump Y b = (case yy_write Y False b of None \<Rightarrow> ''{}'' | Some s \<Rightarrow> s)"

definition jb_dump_indent :: "yyjson \<Rightarrow> i32 \<Rightarrow> json_body \<Rightarrow> string" where
  "jb_dump_indent Y indent b = (case yy_write Y (0 < sint indent) b of None \<Rightarrow> ''{}'' | Some s \<Rightarrow> s)"

section \<open>Laws of the accessors\<close>

lemma field_JObj [json_simps]: "yyjson_ok Y \<Longrightarrow> field Y (JObj kvs) k = map_of kvs k"
  by (simp add: field_def json_simps)

lemma field_not_obj: "\<not> is_jobj b \<Longrightarrow> field Y b k = None"
  by (simp add: field_def)

lemma upsert_JObj [json_simps]:
  "yyjson_ok Y \<Longrightarrow> upsert Y (JObj kvs) k v = JObj (AList.delete k kvs @ [(c_str k, v)])"
  by (simp add: upsert_def Let_def json_simps)

lemma upsert_obj: "yyjson_ok Y \<Longrightarrow> is_jobj b \<Longrightarrow> is_jobj (upsert Y b k v)"
  by (auto elim!: is_jobjE simp: json_simps)

lemma field_upsert:
  "yyjson_ok Y \<Longrightarrow> is_jobj b \<Longrightarrow> nul_free k \<Longrightarrow>
     field Y (upsert Y b k v) k' = (if k' = k then Some v else field Y b k')"
  by (auto elim!: is_jobjE simp: json_simps map_add_def split: option.splits)

lemma field_empty [simp]: "yyjson_ok Y \<Longrightarrow> field Y jb_empty k = None"
  by (simp add: jb_empty_def json_simps)

lemma is_jobj_empty [simp]: "is_jobj jb_empty"
  by (simp add: jb_empty_def)

text \<open>A body is a keyed store, for keys without NUL (those of the sources are literals).\<close>

interpretation body: field_store yyjson_ok is_jobj nul_free field upsert
  by unfold_locales (auto simp: upsert_obj field_upsert)

lemma set_obj:
  assumes "yyjson_ok Y" "is_jobj b"
  shows "is_jobj (set_bool Y k x b)" "is_jobj (set_int Y k i b)" "is_jobj (set_i64 Y k j b)"
    "is_jobj (set_str Y k s b)" "is_jobj (set_body Y k c b)" "is_jobj (set_str_array Y k ss b)"
    "is_jobj (set_array_with_object Y k f b)" "is_jobj (copy_field Y k c b)"
  using assms by (auto simp: set_bool_def set_int_def set_i64_def set_str_def set_body_def
      set_str_array_def set_array_with_object_def copy_field_def upsert_obj split: option.splits)

declare set_obj [json_simps]

lemma field_set:
  assumes "yyjson_ok Y" "is_jobj b" "nul_free k"
  shows "field Y (set_bool Y k x b) k' = (if k' = k then Some (JBool x) else field Y b k')"
    "field Y (set_int Y k i b) k' = (if k' = k then Some (JSint (scast i)) else field Y b k')"
    "field Y (set_i64 Y k j b) k' = (if k' = k then Some (JSint j) else field Y b k')"
    "field Y (set_str Y k s b) k' = (if k' = k then Some (JStr (c_str s)) else field Y b k')"
    "field Y (set_body Y k c b) k' = (if k' = k then Some c else field Y b k')"
    "field Y (set_str_array Y k ss b) k' =
       (if k' = k then Some (JArr (map (\<lambda>s. JStr (c_str s)) ss)) else field Y b k')"
    "field Y (set_array_with_object Y k f b) k' =
       (if k' = k then Some (JArr [f (JObj [])]) else field Y b k')"
  using assms by (simp_all add: set_bool_def set_int_def set_i64_def set_str_def set_body_def
      set_str_array_def set_array_with_object_def body.get_put json_simps)

declare field_set [json_simps]

lemma field_copy_field [json_simps]:
  assumes "yyjson_ok Y" "is_jobj b" "nul_free k"
  shows "field Y (copy_field Y k src b) k' =
    (if k' = k \<and> field Y src k \<noteq> None then field Y src k else field Y b k')"
  using assms by (auto simp: copy_field_def body.get_put json_simps split: option.splits)

lemmas jb_type_defs = jb_has_def jb_is_str_def jb_is_num_def jb_is_bool_def jb_is_array_def jb_is_obj_def
lemmas jb_read_defs = jb_value_bool_def jb_value_int_def jb_value_i64_def jb_value_str_def
  jb_get_bool_def jb_get_int_def jb_get_i64_def jb_get_str_def jb_get_str_array_def jb_get_obj_def
lemmas jb_defs = jb_type_defs jb_read_defs

text \<open>The integer accessors of a number that was set: \<open>int\<close> survives, \<open>int64_t\<close> is cut to 32 bits.\<close>

lemma ucast_scast_32_64 [simp]: "(ucast (scast (i :: i32) :: i64) :: i32) = i"
  by (rule bit_word_eqI) (simp add: bit_simps)

lemma value_int_set_int:
  "yyjson_ok Y \<Longrightarrow> is_jobj b \<Longrightarrow> nul_free k \<Longrightarrow> jb_value_int Y (set_int Y k i b) k d = i"
  by (simp add: jb_defs json_simps)

lemma value_i64_set_int:
  "yyjson_ok Y \<Longrightarrow> is_jobj b \<Longrightarrow> nul_free k \<Longrightarrow> sint (jb_value_i64 Y (set_int Y k i b) k d) = sint i"
  by (simp add: jb_defs json_simps sint_up_scast is_up)

section \<open>Reading back a dumped body\<close>

lemma field_norm:
  "yyjson_ok Y \<Longrightarrow> field Y (j_norm b) k = map_option j_norm (field Y b k)"
  by (cases b) (simp_all add: field_def json_simps map_of_map_prod)

lemma str_items_norm [simp]: "str_items (map j_norm xs) = str_items xs"
proof (induction xs)
  case (Cons x xs)
  then show ?case by (cases x) auto
qed simp

text \<open>No reader can tell a body from the one that went through the text.\<close>

lemma jb_norm [json_simps]:
  assumes "yyjson_ok Y"
  shows "jb_has Y (j_norm b) k = jb_has Y b k"
    "jb_is_str Y (j_norm b) k = jb_is_str Y b k"
    "jb_is_num Y (j_norm b) k = jb_is_num Y b k"
    "jb_is_bool Y (j_norm b) k = jb_is_bool Y b k"
    "jb_is_array Y (j_norm b) k = jb_is_array Y b k"
    "jb_is_obj Y (j_norm b) k = jb_is_obj Y b k"
    "jb_value_bool Y (j_norm b) k d1 = jb_value_bool Y b k d1"
    "jb_value_int Y (j_norm b) k d2 = jb_value_int Y b k d2"
    "jb_value_i64 Y (j_norm b) k d3 = jb_value_i64 Y b k d3"
    "jb_value_str Y (j_norm b) k d4 = jb_value_str Y b k d4"
    "jb_get_bool Y (j_norm b) k = jb_get_bool Y b k"
    "jb_get_int Y (j_norm b) k = jb_get_int Y b k"
    "jb_get_i64 Y (j_norm b) k = jb_get_i64 Y b k"
    "jb_get_str Y (j_norm b) k = jb_get_str Y b k"
    "jb_get_str_array Y (j_norm b) k = jb_get_str_array Y b k"
    "jb_get_obj Y (j_norm b) k = j_norm (jb_get_obj Y b k)"
proof -
  note n = field_norm [OF assms] yy_get_int_norm [OF assms] yy_get_sint_norm [OF assms]
    yy_copy_Some [OF assms]
  show "jb_has Y (j_norm b) k = jb_has Y b k"
    "jb_is_str Y (j_norm b) k = jb_is_str Y b k"
    "jb_is_num Y (j_norm b) k = jb_is_num Y b k"
    "jb_is_bool Y (j_norm b) k = jb_is_bool Y b k"
    "jb_is_array Y (j_norm b) k = jb_is_array Y b k"
    "jb_is_obj Y (j_norm b) k = jb_is_obj Y b k"
    "jb_value_int Y (j_norm b) k d2 = jb_value_int Y b k d2"
    "jb_value_i64 Y (j_norm b) k d3 = jb_value_i64 Y b k d3"
    "jb_get_int Y (j_norm b) k = jb_get_int Y b k"
    "jb_get_i64 Y (j_norm b) k = jb_get_i64 Y b k"
    "jb_get_obj Y (j_norm b) k = j_norm (jb_get_obj Y b k)"
    by (auto simp: jb_defs n jb_empty_def split: option.splits)
  show "jb_value_bool Y (j_norm b) k d1 = jb_value_bool Y b k d1"
    "jb_value_str Y (j_norm b) k d4 = jb_value_str Y b k d4"
    "jb_get_bool Y (j_norm b) k = jb_get_bool Y b k"
    "jb_get_str Y (j_norm b) k = jb_get_str Y b k"
    "jb_get_str_array Y (j_norm b) k = jb_get_str_array Y b k"
    by (cases "field Y b k"; simp add: jb_defs n; simp split: jval.split)+
qed

lemma jb_parse_dump:
  assumes "yyjson_ok Y" "j_plain b" "is_jobj b"
  shows "jb_parse Y (jb_dump Y b) = j_norm b"
    and "jb_parse Y (jb_dump_indent Y i b) = j_norm b"
proof -
  obtain s where "yy_write Y False b = Some s" "s \<noteq> []" "nul_free s" "yy_read Y s = Some (j_norm b)"
    using yy_writeE [OF assms(1,2), of False] by metis
  then show "jb_parse Y (jb_dump Y b) = j_norm b"
    using assms(3) by (simp add: jb_parse_def jb_dump_def)
next
  obtain s where "yy_write Y (0 < sint i) b = Some s" "s \<noteq> []" "nul_free s" "yy_read Y s = Some (j_norm b)"
    using yy_writeE [OF assms(1,2), of "0 < sint i"] by metis
  then show "jb_parse Y (jb_dump_indent Y i b) = j_norm b"
    using assms(3) by (simp add: jb_parse_def jb_dump_indent_def)
qed

lemma jb_dump_line:
  assumes "yyjson_ok Y" "j_plain b"
  shows "CHR 0x0A \<notin> set (jb_dump Y b) \<and> nul_free (jb_dump Y b)"
proof -
  obtain s where "yy_write Y False b = Some s" "nul_free s" "CHR 0x0A \<notin> set s"
    using yy_writeE [OF assms, of False] by metis
  then show ?thesis by (simp add: jb_dump_def)
qed

end
