(* ===== verification/Json_Reference.thy ===== *)
theory Json_Reference
  imports Json_Value
begin

text \<open>
  A JSON reader and tree library that meets \<open>yyjson_ok\<close>: the concrete instance the witnesses use
  for the yyjson parameter, so that the documented behaviour assumed of yyjson is known to be
  satisfiable. It stands for no code of the repository.
\<close>

section \<open>Reading\<close>

definition hex_val :: "char \<Rightarrow> nat" where
  "hex_val c = (if is_digit c then digit_val c else of_char c - 87)"

fun parse_str :: "string \<Rightarrow> (string \<times> string) option" where
  "parse_str [] = None"
| "parse_str (c # s) =
     (if c = CHR 0x22 then Some ([], s)
      else if c = CHR 0x5C then
        (case s of [] \<Rightarrow> None
         | e # t \<Rightarrow>
             if e = CHR 0x22 \<or> e = CHR 0x5C then map_option (apfst (Cons e)) (parse_str t)
             else if e = CHR ''u'' then
               (case t of h1 # h2 # h3 # h4 # u \<Rightarrow>
                   map_option (apfst (Cons (char_of (hex_val h3 * 16 + hex_val h4)))) (parse_str u)
                | _ \<Rightarrow> None)
             else None)
      else map_option (apfst (Cons c)) (parse_str s))"

definition parse_num :: "string \<Rightarrow> (nat \<times> string) option" where
  "parse_num s =
     (if takeWhile is_digit s = [] then None
      else Some (digits_val (takeWhile is_digit s), dropWhile is_digit s))"

fun parse_lit :: "string \<Rightarrow> jval \<Rightarrow> string \<Rightarrow> (jval \<times> string) option" where
  "parse_lit l v s = (if take (length l) s = l then Some (v, drop (length l) s) else None)"

fun parse_val :: "nat \<Rightarrow> string \<Rightarrow> (jval \<times> string) option"
  and parse_elems :: "nat \<Rightarrow> string \<Rightarrow> (jval list \<times> string) option"
  and parse_members :: "nat \<Rightarrow> string \<Rightarrow> ((string \<times> jval) list \<times> string) option"
where
  "parse_val 0 s = None"
| "parse_val (Suc n) [] = None"
| "parse_val (Suc n) (c # s) =
     (if c = CHR 0x22 then map_option (apfst JStr) (parse_str s)
      else if c = CHR ''['' then
        (if take 1 s = '']'' then Some (JArr [], tl s) else map_option (apfst JArr) (parse_elems n s))
      else if c = CHR ''{'' then
        (if take 1 s = ''}'' then Some (JObj [], tl s) else map_option (apfst JObj) (parse_members n s))
      else if c = CHR ''n'' then parse_lit ''null'' JNull (c # s)
      else if c = CHR ''t'' then parse_lit ''true'' (JBool True) (c # s)
      else if c = CHR ''f'' then parse_lit ''false'' (JBool False) (c # s)
      else if c = CHR ''-'' then map_option (apfst (\<lambda>k. JSint (word_of_int (- int k)))) (parse_num s)
      else map_option (apfst (\<lambda>k. JUint (word_of_nat k))) (parse_num (c # s)))"
| "parse_elems 0 s = None"
| "parse_elems (Suc n) s =
     (case parse_val n s of
        Some (v, c # r) \<Rightarrow>
          if c = CHR '','' then map_option (apfst (Cons v)) (parse_elems n r)
          else if c = CHR '']'' then Some ([v], r) else None
      | _ \<Rightarrow> None)"
| "parse_members 0 s = None"
| "parse_members (Suc n) s =
     (if take 1 s = [CHR 0x22] then
        (case parse_str (tl s) of
           Some (k, c # r) \<Rightarrow>
             if c = CHR '':'' then
               (case parse_val n r of
                  Some (v, d # t) \<Rightarrow>
                    if d = CHR '','' then map_option (apfst (Cons (k, v))) (parse_members n t)
                    else if d = CHR ''}'' then Some ([(k, v)], t) else None
                | _ \<Rightarrow> None)
             else None
         | _ \<Rightarrow> None)
      else None)"

definition strip_newlines :: "string \<Rightarrow> string" where
  "strip_newlines s = rev (dropWhile (\<lambda>c. c = CHR 0x0A) (rev s))"

definition ref_read :: "string \<Rightarrow> jval option" where
  "ref_read s =
     (let s = strip_newlines s
      in case parse_val (Suc (length s)) s of Some (v, []) \<Rightarrow> Some v | _ \<Rightarrow> None)"

lemma strip_newlines_snoc: "strip_newlines (s @ [CHR 0x0A]) = strip_newlines s"
  by (simp add: strip_newlines_def)

lemma strip_newlines_id: "CHR 0x0A \<notin> set s \<Longrightarrow> strip_newlines s = s"
proof -
  assume "CHR 0x0A \<notin> set s"
  then have "dropWhile (\<lambda>c. c = CHR 0x0A) (rev s) = rev s"
    by (cases "rev s") (auto simp: dropWhile_eq_self_iff dest!: arg_cong [where f = set])
  then show ?thesis by (simp add: strip_newlines_def)
qed

definition ref_write :: "bool \<Rightarrow> jval \<Rightarrow> string option" where
  "ref_write pretty v = (if j_plain v then Some (json_text v) else None)"

section \<open>Reading back what was written\<close>

lemma hex_val_hex_char: "d < 16 \<Longrightarrow> hex_val (hex_char d) = d"
  by (auto simp: hex_val_def hex_char_def is_digit_def digit_val_def of_char_of)

lemma parse_str_esc:
  "ascii_char c \<Longrightarrow> parse_str (esc_char c @ t) = map_option (apfst (Cons c)) (parse_str t)"
  by (auto simp: esc_char_def ascii_char_def hex_val_hex_char)

lemma parse_str_quoted:
  "ascii s \<Longrightarrow> parse_str (concat (map esc_char s) @ CHR 0x22 # r) = Some (s, r)"
  by (induction s) (simp_all add: parse_str_esc)

definition stops :: "string \<Rightarrow> bool" where
  "stops r \<longleftrightarrow> r = [] \<or> hd r \<in> {CHR '','', CHR '']'', CHR ''}''}"

lemma stops_simps [simp]:
  "stops []" "stops (CHR '','' # r)" "stops (CHR '']'' # r)" "stops (CHR ''}'' # r)"
  by (simp_all add: stops_def)

lemma parse_num_nat_str: "stops r \<Longrightarrow> parse_num (nat_str n @ r) = Some (n, r)"
proof -
  assume r: "stops r"
  have t: "takeWhile is_digit r = []" "dropWhile is_digit r = r"
    using r by (cases r; auto simp: stops_def is_digit_def)+
  have "takeWhile is_digit (nat_str n @ r) = nat_str n"
    using nat_str_digits [of n] t by (simp add: takeWhile_append)
  moreover have "dropWhile is_digit (nat_str n @ r) = r"
    using nat_str_digits [of n] t by (simp add: dropWhile_append)
  ultimately show ?thesis by (simp add: parse_num_def)
qed

lemma nat_str_Cons:
  obtains c s where "nat_str n = c # s" "is_digit c"
  using nat_str_nonempty [of n] nat_str_digits [of n] by (cases "nat_str n") auto

lemma is_digit_not_start:
  "is_digit c \<Longrightarrow> c \<noteq> CHR 0x22 \<and> c \<noteq> CHR ''['' \<and> c \<noteq> CHR ''{'' \<and> c \<noteq> CHR ''n'' \<and> c \<noteq> CHR ''t'' \<and>
     c \<noteq> CHR ''f'' \<and> c \<noteq> CHR ''-''"
  by (auto simp: is_digit_def)

lemma parse_val_nat_str:
  "stops r \<Longrightarrow> parse_val (Suc n) (nat_str k @ r) = Some (JUint (word_of_nat k), r)"
proof -
  assume r: "stops r"
  obtain c s where s: "nat_str k = c # s" "is_digit c" by (rule nat_str_Cons)
  show ?thesis
    using parse_num_nat_str [OF r, of k] is_digit_not_start [OF s(2)] by (simp add: s(1))
qed

lemma json_text_first:
  "j_plain v \<Longrightarrow> \<exists>c s. json_text v = c # s \<and> c \<noteq> CHR '']'' \<and> c \<noteq> CHR ''}''"
proof (cases v)
  case (JUint w)
  then show ?thesis by (rule_tac nat_str_Cons [of "unat w"]) (auto simp: is_digit_def)
next
  case (JSint w)
  then show ?thesis
    by (rule_tac nat_str_Cons [of "nat (sint w)"]) (auto simp: int_str_def is_digit_def)
qed (auto simp: quoted_def)

lemma length_json_text: "j_plain v \<Longrightarrow> 0 < length (json_text v)"
  using json_text_first by fastforce

lemma parse_elems_joined:
  assumes "xs \<noteq> []" "\<forall>x \<in> set xs. j_plain x"
    and IH: "\<And>x n r. x \<in> set xs \<Longrightarrow> length (json_text x) \<le> n \<Longrightarrow> stops r \<Longrightarrow>
           parse_val n (json_text x @ r) = Some (j_norm x, r)"
    and "length (joined (map json_text xs)) < n"
  shows "parse_elems n (joined (map json_text xs) @ CHR '']'' # r) = Some (map j_norm xs, r)"
  using assms
proof (induction xs arbitrary: n)
  case (Cons x xs)
  obtain m where n: "n = Suc m" using Cons.prems(4) by (cases n) auto
  have x: "parse_val m (json_text x @ t) = Some (j_norm x, t)"
    if "stops t" for t
    using Cons.prems(3) [of x m t] Cons.prems(4) that n by (cases xs) auto
  show ?case
  proof (cases xs)
    case Nil
    then show ?thesis by (simp add: n x)
  next
    case (Cons y ys)
    have "parse_elems m (joined (map json_text xs) @ CHR '']'' # r) = Some (map j_norm xs, r)"
      using Cons.prems Cons n length_json_text [of x] by (intro Cons.IH) auto
    then show ?thesis using Cons by (simp add: n x)
  qed
qed simp

lemma parse_members_joined:
  assumes "kvs \<noteq> []" "\<forall>p \<in> set kvs. ascii (fst p) \<and> j_plain (snd p)"
    and IH: "\<And>p n r. p \<in> set kvs \<Longrightarrow> length (json_text (snd p)) \<le> n \<Longrightarrow> stops r \<Longrightarrow>
           parse_val n (json_text (snd p) @ r) = Some (j_norm (snd p), r)"
    and "length (joined (map (\<lambda>p. member_text (fst p, json_text (snd p))) kvs)) < n"
  shows "parse_members n (joined (map (\<lambda>p. member_text (fst p, json_text (snd p))) kvs) @ CHR ''}'' # r)
         = Some (map (map_prod id j_norm) kvs, r)"
  using assms
proof (induction kvs arbitrary: n)
  case (Cons p kvs)
  obtain k x where p: "p = (k, x)" by (cases p)
  obtain m where n: "n = Suc m" using Cons.prems(4) by (cases n) auto
  have x: "parse_val m (json_text x @ t) = Some (j_norm x, t)"
    if "stops t" for t
    using Cons.prems(3) [of p m t] Cons.prems(4) that
    by (cases kvs) (auto simp: n p member_text_def)
  have k: "parse_str (concat (map esc_char k) @ CHR 0x22 # t) = Some (k, t)" for t
    using Cons.prems(2) by (simp add: p parse_str_quoted)
  show ?case
  proof (cases kvs)
    case Nil
    then show ?thesis by (simp add: n p x k member_text_def quoted_def)
  next
    case (Cons q qs)
    have "parse_members m (joined (map (\<lambda>p. member_text (fst p, json_text (snd p))) kvs) @ CHR ''}'' # r)
        = Some (map (map_prod id j_norm) kvs, r)"
      using Cons.prems Cons n by (intro Cons.IH) (auto simp: member_text_def)
    then show ?thesis using Cons by (simp add: n p x k member_text_def quoted_def id_def)
  qed
qed simp

lemma parse_val_text:
  "j_plain v \<Longrightarrow> length (json_text v) \<le> n \<Longrightarrow> stops r \<Longrightarrow>
     parse_val n (json_text v @ r) = Some (j_norm v, r)"
proof (induction v arbitrary: n r)
  case JNull
  then show ?case by (cases n) auto
next
  case (JBool b)
  then show ?case by (cases n; cases b) auto
next
  case (JUint w)
  then show ?case
    using parse_val_nat_str [of r "n - 1" "unat w"] by (cases n) auto
next
  case (JSint w)
  show ?case
  proof (cases "sint w < 0")
    case True
    with JSint parse_num_nat_str [of r "nat (- sint w)"] show ?thesis
      by (cases n) (auto simp: int_str_def)
  next
    case False
    then have "word_of_nat (nat (sint w)) = w"
      by (simp flip: word_of_int_nat)
    with False JSint parse_val_nat_str [of r "n - 1" "nat (sint w)"] show ?thesis
      by (cases n) (auto simp: int_str_def)
  qed
next
  case (JReal w)
  then show ?case by simp
next
  case (JStr s)
  then show ?case by (cases n) (auto simp: quoted_def parse_str_quoted)
next
  case (JArr xs)
  show ?case
  proof (cases xs)
    case Nil
    then show ?thesis using JArr.prems by (cases n) auto
  next
    case (Cons y ys)
    obtain m where n: "n = Suc m" using JArr.prems(2) by (cases n) auto
    have "parse_elems m (joined (map json_text xs) @ CHR '']'' # r) = Some (map j_norm xs, r)"
      using JArr Cons n by (intro parse_elems_joined) (auto simp: list_all_iff)
    moreover obtain c s where "json_text y = c # s" "c \<noteq> CHR '']''"
      using JArr.prems(1) Cons json_text_first [of y] by auto
    moreover have "take 1 (joined (map json_text xs) @ CHR '']'' # r) \<noteq> '']''"
      using calculation(2,3) Cons by (cases ys) auto
    ultimately show ?thesis using Cons by (simp add: n)
  qed
next
  case (JObj kvs)
  define L where "L = joined (map (\<lambda>p. member_text (fst p, json_text (snd p))) kvs)"
  have obj_text: "json_text (JObj kvs) = CHR ''{'' # L @ ''}''"
    by (simp add: L_def comp_def map_prod_def split_def)
  obtain m where n: "n = Suc m" using JObj.prems(2) by (cases n) auto
  show ?case
  proof (cases kvs)
    case Nil
    then show ?thesis using JObj.prems by (cases n) auto
  next
    case (Cons p ps)
    have len: "length L < m"
      using JObj.prems(2) by (simp only: obj_text n) simp
    have "parse_members m (L @ CHR ''}'' # r) = Some (map (map_prod id j_norm) kvs, r)"
      unfolding L_def
    proof (rule parse_members_joined)
      fix q k t
      assume "q \<in> set kvs" "length (json_text (snd q)) \<le> k" "stops t"
      moreover have "snd q \<in> Basic_BNFs.snds q" by (cases q) simp
      ultimately show "parse_val k (json_text (snd q) @ t) = Some (j_norm (snd q), t)"
        using JObj.IH [of q "snd q"] JObj.prems(1) by (auto simp: list_all_iff)
    qed (use JObj.prems(1) Cons len in \<open>auto simp: list_all_iff L_def\<close>)
    moreover have "take 1 (L @ CHR ''}'' # r) \<noteq> ''}''"
      using Cons by (cases ps) (auto simp: L_def member_text_def quoted_def)
    ultimately have "parse_val n (CHR ''{'' # L @ CHR ''}'' # r) =
        Some (JObj (map (map_prod id j_norm) kvs), r)"
      by (simp add: n)
    then show ?thesis
      by (simp only: obj_text append_Cons append_assoc append_Nil j_norm.simps)
  qed
qed

section \<open>The instance\<close>

definition yy_ref :: yyjson where
  "yy_ref = \<lparr>
     yy_read = ref_read,
     yy_write = ref_write,
     yy_copy = Some,
     yy_obj_get = (\<lambda>v k. case v of JObj kvs \<Rightarrow> map_of kvs k | _ \<Rightarrow> None),
     yy_obj_remove_str = (\<lambda>v k. case v of JObj kvs \<Rightarrow> JObj (AList.delete k kvs) | _ \<Rightarrow> v),
     yy_obj_add = (\<lambda>v k x. case v of JObj kvs \<Rightarrow> JObj (kvs @ [(k, x)]) | _ \<Rightarrow> v),
     yy_get_int = (\<lambda>v. case v of JUint w \<Rightarrow> ucast w | JSint w \<Rightarrow> ucast w | _ \<Rightarrow> 0),
     yy_get_sint = (\<lambda>v. case v of JUint w \<Rightarrow> w | JSint w \<Rightarrow> w | _ \<Rightarrow> 0)\<rparr>"

text \<open>The text is ASCII without a NUL and a newline: a packet is one line.\<close>

definition line_char :: "char \<Rightarrow> bool" where
  "line_char c \<longleftrightarrow> ascii_char c \<and> c \<noteq> CHR 0x0A"

lemma line_char_marks [simp]:
  "line_char CHR ''[''" "line_char CHR '']''" "line_char CHR ''{''" "line_char CHR ''}''"
  "line_char CHR '',''" "line_char CHR '':''" "line_char CHR ''-''" "line_char CHR 0x22"
  by (simp_all add: line_char_def ascii_char_def)

lemma line_char_digit: "is_digit c \<Longrightarrow> line_char c"
  using is_digit_not_special by (simp add: line_char_def)

lemma line_hex_char: "d < 16 \<Longrightarrow> line_char (hex_char d)"
proof -
  assume "d < 16"
  then have "(of_char (hex_char d) :: nat) \<in> {48..102}"
    by (simp add: hex_char_def of_char_of)
  then show ?thesis by (auto simp: line_char_def ascii_char_def)
qed

lemma line_esc_char: "ascii_char c \<Longrightarrow> list_all line_char (esc_char c)"
  using line_hex_char [of "of_char c div 16"] line_hex_char [of "of_char c mod 16"]
  by (auto simp: esc_char_def ascii_char_def line_char_def)

lemma line_char_not_nul: "line_char c \<Longrightarrow> c \<noteq> CHR 0x00"
  by (auto simp: line_char_def ascii_char_def)

lemma line_quoted: "ascii s \<Longrightarrow> list_all line_char (quoted s)"
proof -
  assume "ascii s"
  then have "list_all line_char (concat (map esc_char s))"
    using line_esc_char by (induction s) auto
  then show ?thesis by (simp add: quoted_def)
qed

lemma line_nat_str: "list_all line_char (nat_str n)"
  using nat_str_digits [of n] line_char_digit by (auto simp: list_all_iff)

lemma line_joined: "\<forall>s \<in> set ss. list_all line_char s \<Longrightarrow> list_all line_char (joined ss)"
  by (induction ss rule: joined.induct) auto

lemma line_json_text: "j_plain v \<Longrightarrow> list_all line_char (json_text v)"
proof (induction v)
  case (JArr xs)
  have "list_all line_char (joined (map json_text xs))"
    using JArr by (intro line_joined) (auto simp: list_all_iff)
  then show ?case by simp
next
  case (JObj kvs)
  have "\<forall>s \<in> set (map member_text (map (map_prod id json_text) kvs)). list_all line_char s"
  proof clarsimp
    fix k x assume kx: "(k, x) \<in> set kvs"
    then have "ascii k" "j_plain x" using JObj.prems by (auto simp: list_all_iff)
    then show "list_all line_char (member_text (k, json_text x))"
      using JObj.IH [OF kx, of x] line_quoted [of k]
      by (simp add: member_text_def)
  qed
  then show ?case using line_joined by (simp only: json_text.simps list_all_append) simp
qed (auto simp: line_nat_str int_str_def line_quoted, simp_all add: line_char_def ascii_char_def)

lemma ref_read_text: "j_plain v \<Longrightarrow> ref_read (json_text v) = Some (j_norm v)"
proof -
  assume v: "j_plain v"
  have "strip_newlines (json_text v) = json_text v"
    using line_json_text [OF v] by (intro strip_newlines_id) (auto simp: list_all_iff line_char_def)
  then show ?thesis
    using parse_val_text [OF v, of "Suc (length (json_text v))" "[]"] by (simp add: ref_read_def)
qed

lemma ref_read_newline: "ref_read (s @ [CHR 0x0A]) = ref_read s"
  by (simp add: ref_read_def strip_newlines_snoc)

lemma yyjson_ok_ref [simp]: "yyjson_ok yy_ref"
proof -
  have "yy_tree_ok yy_ref" by (simp add: yy_tree_ok_def yy_ref_def)
  moreover have "nul_free (json_text v) \<and> CHR 0x0A \<notin> set (json_text v)" if "j_plain v" for v
    using line_json_text [OF that] line_char_not_nul unfolding nul_free_def list_all_iff line_char_def by blast
  then have "yy_text_ok yy_ref"
    using json_text_first
    by (fastforce simp: yy_text_ok_def yy_ref_def ref_write_def ref_read_text ref_read_newline)
  ultimately show ?thesis by (simp add: yyjson_ok_def)
qed

end
