(* ===== verification/Json_Ownership.thy ===== *)
theory Json_Ownership
  imports Json_Body Json_Reference "HOL-Library.Multiset" "HOL-Library.Monad_Syntax"
begin

text \<open>
  Who owns the yyjson documents behind the \<open>JsonBody\<close> objects of \<open>sysmodule/src/net/json_body.cpp\<close>:
  construction, copies, moves, assignments, destruction, \<open>parse\<close>, \<open>get_obj\<close> and the views the
  iterations hand out. Freeing a document twice, or reading one that has been freed, is a fault.
\<close>

section \<open>Objects\<close>

text \<open>
  Where \<open>root_\<close> points: nowhere, to the root of the document, or to a value inside a document that
  another body owns and that does not change while the view is used.
\<close>

datatype jb_root = NoRoot | DocRoot | ViewOf jval

record jb_object =
  ob_doc :: "nat option"
  ob_root :: jb_root
  ob_owns :: bool

text \<open>
  The documents allocated so far with the value of their root, none for a freed one; the variables of
  the program, none for one whose destructor ran.
\<close>

record jb_heap =
  hp_docs :: "jval option list"
  hp_objs :: "jb_object option list"

definition doc_new :: "jval \<Rightarrow> jb_heap \<Rightarrow> nat \<times> jb_heap" where
  "doc_new v h = (length (hp_docs h), h\<lparr>hp_docs := hp_docs h @ [Some v]\<rparr>)"

definition doc_value :: "nat \<Rightarrow> jb_heap \<Rightarrow> jval option" where
  "doc_value d h = (if d < length (hp_docs h) then hp_docs h ! d else None)"

definition doc_free :: "nat \<Rightarrow> jb_heap \<Rightarrow> jb_heap option" where
  "doc_free d h = (case doc_value d h of None \<Rightarrow> None | Some _ \<Rightarrow> Some (h\<lparr>hp_docs := (hp_docs h)[d := None]\<rparr>))"

text \<open>The value the root points to; the outer \<^const>\<open>None\<close> is the fault.\<close>

definition root_value :: "jb_object \<Rightarrow> jb_heap \<Rightarrow> jval option option" where
  "root_value x h =
     (case ob_root x of
        NoRoot \<Rightarrow> Some None
      | DocRoot \<Rightarrow> (case ob_doc x of None \<Rightarrow> None | Some d \<Rightarrow> map_option Some (doc_value d h))
      | ViewOf v \<Rightarrow> (case ob_doc x of None \<Rightarrow> None | Some d \<Rightarrow> map_option (\<lambda>_. Some v) (doc_value d h)))"

section \<open>Operations\<close>

definition moved_from :: jb_object where
  "moved_from = \<lparr>ob_doc = None, ob_root = NoRoot, ob_owns = False\<rparr>"

definition owner_of :: "nat \<Rightarrow> jb_object" where
  "owner_of d = \<lparr>ob_doc = Some d, ob_root = DocRoot, ob_owns = True\<rparr>"

definition construct :: "jb_heap \<Rightarrow> jb_object \<times> jb_heap" where
  "construct h = (case doc_new jb_empty h of (d, h) \<Rightarrow> (owner_of d, h))"

text \<open>A copy that cannot be made leaves the new body empty.\<close>

definition copy_construct :: "yyjson \<Rightarrow> jb_object \<Rightarrow> jb_heap \<Rightarrow> (jb_object \<times> jb_heap) option" where
  "copy_construct Y x h =
     do { r \<leftarrow> root_value x h;
          let v = (case r of None \<Rightarrow> jb_empty
                           | Some v \<Rightarrow> (case yy_copy Y v of None \<Rightarrow> jb_empty | Some copied \<Rightarrow> copied));
          Some (case doc_new v h of (d, h) \<Rightarrow> (owner_of d, h)) }"

text \<open>The new object and what is left in the old one.\<close>

definition move_construct :: "jb_object \<Rightarrow> jb_object \<times> jb_object" where
  "move_construct x = (x, moved_from)"

definition destroy :: "jb_object \<Rightarrow> jb_heap \<Rightarrow> jb_heap option" where
  "destroy x h = (if ob_owns x then (case ob_doc x of None \<Rightarrow> Some h | Some d \<Rightarrow> doc_free d h) else Some h)"

text \<open>\<open>x = std::move(o)\<close> on two objects: both afterwards.\<close>

definition move_assign :: "jb_object \<Rightarrow> jb_object \<Rightarrow> jb_heap \<Rightarrow> (jb_object \<times> jb_object \<times> jb_heap) option" where
  "move_assign x y h = do { h \<leftarrow> destroy x h; Some (y, moved_from, h) }"

text \<open>\<open>x = o\<close> on two objects: a copy, moved in, whose shell is destroyed.\<close>

definition copy_assign :: "yyjson \<Rightarrow> jb_object \<Rightarrow> jb_object \<Rightarrow> jb_heap \<Rightarrow> (jb_object \<times> jb_heap) option" where
  "copy_assign Y x y h =
     do { (tmp, h) \<leftarrow> copy_construct Y y h;
          (x, tmp, h) \<leftarrow> move_assign x tmp h;
          h \<leftarrow> destroy tmp h;
          Some (x, h) }"

definition view_of :: "jb_object \<Rightarrow> jval \<Rightarrow> jb_object" where
  "view_of x v = \<lparr>ob_doc = ob_doc x, ob_root = ViewOf v, ob_owns = False\<rparr>"

text \<open>\<open>parse\<close> replaces the document of the empty body once the text turned out to be an object.\<close>

definition parse_body :: "yyjson \<Rightarrow> string \<Rightarrow> jb_heap \<Rightarrow> (jb_object \<times> jb_heap) option" where
  "parse_body Y json h =
     (case construct h of (out, h) \<Rightarrow>
        if c_str json = [] then Some (out, h)
        else case yy_read Y (c_str json) of
               None \<Rightarrow> Some (out, h)
             | Some root \<Rightarrow>
                 (case doc_new root h of (mdoc, h) \<Rightarrow>
                    if \<not> is_jobj root then do { h \<leftarrow> doc_free mdoc h; Some (out, h) }
                    else do { h \<leftarrow> destroy out h; Some (owner_of mdoc, h) }))"

definition get_obj_body :: "yyjson \<Rightarrow> string \<Rightarrow> jb_object \<Rightarrow> jb_heap \<Rightarrow> (jb_object \<times> jb_heap) option" where
  "get_obj_body Y key x h =
     do { r \<leftarrow> root_value x h;
          Some (case doc_new (case r of None \<Rightarrow> jb_empty | Some b \<Rightarrow> jb_get_obj Y b key) h of (d, h) \<Rightarrow> (owner_of d, h)) }"

section \<open>Programs\<close>

text \<open>
  What a program does with its bodies, each named by its number. A statement that names a body whose
  destructor ran is not a program and does nothing here. A move or copy onto itself changes nothing, as
  the operators check.
\<close>

datatype jb_stmt =
    Construct
  | CopyConstruct nat
  | MoveConstruct nat
  | CopyAssign nat nat
  | MoveAssign nat nat
  | Parse string
  | GetObj nat string
  | Destroy nat

definition body_at :: "jb_heap \<Rightarrow> nat \<Rightarrow> jb_object option" where
  "body_at h i = (if i < length (hp_objs h) then hp_objs h ! i else None)"

definition add_body :: "jb_object \<times> jb_heap \<Rightarrow> jb_heap" where
  "add_body p = (case p of (x, h) \<Rightarrow> h\<lparr>hp_objs := hp_objs h @ [Some x]\<rparr>)"

definition put_body :: "nat \<Rightarrow> jb_object option \<Rightarrow> jb_heap \<Rightarrow> jb_heap" where
  "put_body i x h = h\<lparr>hp_objs := (hp_objs h)[i := x]\<rparr>"

fun jb_step :: "yyjson \<Rightarrow> jb_stmt \<Rightarrow> jb_heap \<Rightarrow> jb_heap option" where
  "jb_step Y Construct h = Some (add_body (construct h))"
| "jb_step Y (CopyConstruct i) h =
     (case body_at h i of None \<Rightarrow> Some h | Some x \<Rightarrow> map_option add_body (copy_construct Y x h))"
| "jb_step Y (MoveConstruct i) h =
     (case body_at h i of
        None \<Rightarrow> Some h
      | Some x \<Rightarrow> (case move_construct x of (y, x) \<Rightarrow> Some (add_body (y, put_body i (Some x) h))))"
| "jb_step Y (CopyAssign i j) h =
     (case (body_at h i, body_at h j) of
        (Some x, Some y) \<Rightarrow>
          if i = j then Some h else do { (x, h) \<leftarrow> copy_assign Y x y h; Some (put_body i (Some x) h) }
      | _ \<Rightarrow> Some h)"
| "jb_step Y (MoveAssign i j) h =
     (case (body_at h i, body_at h j) of
        (Some x, Some y) \<Rightarrow>
          if i = j then Some h
          else do { (x, y, h) \<leftarrow> move_assign x y h; Some (put_body i (Some x) (put_body j (Some y) h)) }
      | _ \<Rightarrow> Some h)"
| "jb_step Y (Parse json) h = map_option add_body (parse_body Y json h)"
| "jb_step Y (GetObj i key) h =
     (case body_at h i of None \<Rightarrow> Some h | Some x \<Rightarrow> map_option add_body (get_obj_body Y key x h))"
| "jb_step Y (Destroy i) h =
     (case body_at h i of None \<Rightarrow> Some h | Some x \<Rightarrow> do { h \<leftarrow> destroy x h; Some (put_body i None h) })"

fun jb_run :: "yyjson \<Rightarrow> jb_stmt list \<Rightarrow> jb_heap \<Rightarrow> jb_heap option" where
  "jb_run Y [] h = Some h"
| "jb_run Y (st # sts) h = do { h \<leftarrow> jb_step Y st h; jb_run Y sts h }"

definition empty_heap :: jb_heap where
  "empty_heap = \<lparr>hp_docs = [], hp_objs = []\<rparr>"

section \<open>Every document has one owner\<close>

definition owned :: "jb_object option \<Rightarrow> nat multiset" where
  "owned x = (case x of Some y \<Rightarrow> if ob_owns y then (case ob_doc y of Some d \<Rightarrow> {#d#} | None \<Rightarrow> {#}) else {#} | None \<Rightarrow> {#})"

definition owners :: "jb_heap \<Rightarrow> nat multiset" where
  "owners h = sum_list (map owned (hp_objs h))"

definition live_docs :: "jb_heap \<Rightarrow> nat multiset" where
  "live_docs h = mset (filter (\<lambda>d. hp_docs h ! d \<noteq> None) [0..<length (hp_docs h)])"

text \<open>A body is moved from, or owns its document and points to its root.\<close>

definition whole_body :: "jb_object \<Rightarrow> bool" where
  "whole_body x \<longleftrightarrow> x = moved_from \<or> (\<exists>d. x = owner_of d)"

definition owned_once :: "jb_heap \<Rightarrow> bool" where
  "owned_once h \<longleftrightarrow> owners h = live_docs h \<and> (\<forall>x \<in> set (hp_objs h). \<forall>y. x = Some y \<longrightarrow> whole_body y)"

lemma owned_simps [simp]: "owned None = {#}" "owned (Some moved_from) = {#}" "owned (Some (owner_of d)) = {#d#}"
  by (simp_all add: owned_def moved_from_def owner_of_def)

lemma whole_simps [simp]: "whole_body moved_from" "whole_body (owner_of d)"
  unfolding whole_body_def by blast+

lemma live_new: "live_docs (h\<lparr>hp_docs := hp_docs h @ [Some v]\<rparr>) = live_docs h + {#length (hp_docs h)#}"
proof -
  have "filter (\<lambda>d. (hp_docs h @ [Some v]) ! d \<noteq> None) [0..<length (hp_docs h)] = filter (\<lambda>d. hp_docs h ! d \<noteq> None) [0..<length (hp_docs h)]"
    by (rule filter_cong) (auto simp: nth_append)
  then show ?thesis by (simp add: live_docs_def)
qed

lemma live_objs [simp]: "live_docs (h\<lparr>hp_objs := xs\<rparr>) = live_docs h" "live_docs (put_body i x h) = live_docs h"
  by (simp_all add: live_docs_def put_body_def)

lemma in_live: "d \<in># live_docs h \<longleftrightarrow> doc_value d h \<noteq> None"
  by (auto simp: live_docs_def doc_value_def)

lemma count_live: "count (live_docs h) d \<le> 1"
proof -
  have "distinct (filter (\<lambda>d. hp_docs h ! d \<noteq> None) [0..<length (hp_docs h)])" by simp
  then show ?thesis unfolding live_docs_def distinct_count_atmost_1 by (simp del: distinct_filter)
qed

lemma doc_free_live:
  assumes "d \<in># live_docs h"
  shows "\<exists>h'. doc_free d h = Some h' \<and> live_docs h' = live_docs h - {#d#} \<and> hp_objs h' = hp_objs h"
proof -
  obtain v where v: "doc_value d h = Some v" using assms by (auto simp: in_live)
  let ?h = "h\<lparr>hp_docs := (hp_docs h)[d := None]\<rparr>"
  have "count (live_docs ?h) k = count (live_docs h - {#d#}) k" for k
  proof (cases "k = d")
    case True
    have "d \<notin># live_docs ?h" by (simp add: in_live doc_value_def)
    then show ?thesis using True count_live [of h d] by (simp add: not_in_iff)
  next
    case False
    then have "k \<in># live_docs ?h \<longleftrightarrow> k \<in># live_docs h" by (simp add: in_live doc_value_def)
    then have "count (live_docs ?h) k = 0 \<longleftrightarrow> count (live_docs h) k = 0" by (simp add: not_in_iff [symmetric])
    then show ?thesis using False count_live [of h k] count_live [of ?h k] by simp linarith
  qed
  then have "live_docs ?h = live_docs h - {#d#}" by (rule multiset_eqI)
  then show ?thesis using v by (simp add: doc_free_def)
qed

lemma body_atD: "body_at h i = Some x \<Longrightarrow> i < length (hp_objs h) \<and> hp_objs h ! i = Some x"
  by (simp add: body_at_def split: if_splits)

lemma owners_add [simp]: "owners (add_body (x, h)) = owners h + owned (Some x)"
  by (simp add: owners_def add_body_def)

lemma sum_list_put:
  fixes f :: "'x \<Rightarrow> 'm :: comm_monoid_add"
  shows "i < length xs \<Longrightarrow> sum_list (map f (xs[i := x])) + f (xs ! i) = sum_list (map f xs) + f x"
proof (induction xs arbitrary: i)
  case (Cons a xs)
  then show ?case by (cases i) (simp_all add: ac_simps)
qed simp

lemma owners_put: "body_at h i = Some y \<Longrightarrow> owners (put_body i x h) + owned (Some y) = owners h + owned x"
  using sum_list_put [of i "hp_objs h" owned x] by (auto simp: owners_def put_body_def dest: body_atD)

lemma owner_live: "owned_once h \<Longrightarrow> body_at h i = Some x \<Longrightarrow> owned (Some x) \<subseteq># live_docs h"
  using owners_put [of h i x None] by (simp add: owned_once_def) (metis mset_subset_eq_add_right)

lemma whole_at: "owned_once h \<Longrightarrow> body_at h i = Some x \<Longrightarrow> whole_body x"
  using body_atD [of h i x] nth_mem by (fastforce simp: owned_once_def)

section \<open>No fault and no leak\<close>

lemma destroy_live:
  assumes "owned (Some x) \<subseteq># live_docs h" "whole_body x"
  shows "\<exists>h'. destroy x h = Some h' \<and> live_docs h' = live_docs h - owned (Some x) \<and> hp_objs h' = hp_objs h"
proof (cases "x = moved_from")
  case True
  then show ?thesis by (simp add: destroy_def moved_from_def owned_def)
next
  case False
  then obtain d where x: "x = owner_of d" using assms(2) by (auto simp: whole_body_def)
  then have "d \<in># live_docs h" using assms(1) by simp
  from doc_free_live [OF this] show ?thesis unfolding x by (auto simp: destroy_def owner_of_def owned_def)
qed

text \<open>What a new body adds.\<close>

definition made :: "jb_heap \<Rightarrow> (jb_object \<times> jb_heap) option \<Rightarrow> bool" where
  "made h r \<longleftrightarrow> (\<exists>d h'. r = Some (owner_of d, h') \<and> live_docs h' = live_docs h + {#d#} \<and> hp_objs h' = hp_objs h)"

lemma made_new: "made h (Some (case doc_new v h of (d, h) \<Rightarrow> (owner_of d, h)))"
  by (simp add: made_def doc_new_def live_new)

lemma made_construct: "made h (Some (construct h))"
  unfolding construct_def by (rule made_new)

lemma root_readable:
  assumes "owned (Some x) \<subseteq># live_docs h" "whole_body x"
  shows "\<exists>r. root_value x h = Some r"
  using assms by (auto simp: whole_body_def root_value_def moved_from_def owner_of_def owned_def in_live)

lemma made_copy:
  assumes "owned (Some x) \<subseteq># live_docs h" "whole_body x"
  shows "made h (copy_construct Y x h)" "made h (get_obj_body Y key x h)"
proof -
  obtain r where "root_value x h = Some r" using root_readable [OF assms] by blast
  then show "made h (copy_construct Y x h)" "made h (get_obj_body Y key x h)"
    by (simp_all add: copy_construct_def get_obj_body_def Let_def made_new)
qed

lemma made_parse: "made h (parse_body Y json h)"
proof -
  obtain d h1 where c: "construct h = (owner_of d, h1)" "live_docs h1 = live_docs h + {#d#}" "hp_objs h1 = hp_objs h"
    using made_construct [of h] by (auto simp: made_def)
  have done_empty: "made h (Some (owner_of d, h1))" using c by (simp add: made_def)
  show ?thesis
  proof (cases "c_str json = [] \<or> yy_read Y (c_str json) = None")
    case True
    then show ?thesis using done_empty by (auto simp: parse_body_def c(1))
  next
    case False
    then obtain root where root: "c_str json \<noteq> []" "yy_read Y (c_str json) = Some root" by auto
    obtain m h2 where n: "doc_new root h1 = (m, h2)" "live_docs h2 = live_docs h + {#d#} + {#m#}" "hp_objs h2 = hp_objs h"
      using c by (simp add: doc_new_def live_new)
    have "\<exists>h3. doc_free m h2 = Some h3 \<and> live_docs h3 = live_docs h2 - {#m#} \<and> hp_objs h3 = hp_objs h2"
      by (rule doc_free_live) (simp add: n)
    moreover have "\<exists>h3. destroy (owner_of d) h2 = Some h3 \<and> live_docs h3 = live_docs h2 - {#d#} \<and> hp_objs h3 = hp_objs h2"
      using destroy_live [of "owner_of d" h2] n by simp
    ultimately show ?thesis using root n by (auto simp: parse_body_def c(1) made_def)
  qed
qed

lemma owned_once_add: "owned_once h \<Longrightarrow> made h r \<Longrightarrow> \<exists>h'. map_option add_body r = Some h' \<and> owned_once h'"
  by (auto simp: made_def owned_once_def add_body_def owners_def)

lemma set_put: "x \<in> set (hp_objs (put_body i v h)) \<Longrightarrow> x = v \<or> x \<in> set (hp_objs h)"
  by (auto simp: put_body_def dest: subsetD [OF set_update_subset_insert])

lemma owned_once_put:
  assumes "owned_once h" "body_at h i = Some x" "\<And>y. v = Some y \<Longrightarrow> whole_body y"
    "live_docs h' + owned (Some x) = live_docs h + owned v" "hp_objs h' = hp_objs h"
  shows "owned_once (put_body i v h')"
proof -
  have "owners h' = live_docs h" using assms(1,5) by (simp add: owned_once_def owners_def)
  moreover have "body_at h' i = Some x" using assms(2,5) by (auto simp: body_at_def split: if_splits)
  ultimately have "owners (put_body i v h') + owned (Some x) = live_docs h' + owned (Some x)"
    using owners_put [of h' i x v] assms(4) by simp
  moreover have "\<forall>z \<in> set (hp_objs (put_body i v h')). \<forall>y. z = Some y \<longrightarrow> whole_body y"
    using set_put [of _ i v h'] assms(1,3,5) by (fastforce simp: owned_once_def)
  ultimately show ?thesis by (simp add: owned_once_def)
qed

lemma move_construct_owned_once:
  assumes "owned_once h"
  shows "\<exists>h'. jb_step Y (MoveConstruct i) h = Some h' \<and> owned_once h'"
proof (cases "body_at h i")
  case (Some x)
  have w: "whole_body x" by (rule whole_at [OF assms Some])
  let ?h = "add_body (x, put_body i (Some moved_from) h)"
  have "owners ?h = live_docs ?h" using owners_put [OF Some, of "Some moved_from"] assms
    by (simp add: owned_once_def) (simp add: add_body_def)
  moreover have "\<forall>z \<in> set (hp_objs ?h). \<forall>y. z = Some y \<longrightarrow> whole_body y"
    using set_put [of _ i "Some moved_from" h] w assms by (fastforce simp: owned_once_def add_body_def)
  ultimately show ?thesis using Some by (simp add: move_construct_def owned_once_def)
qed (use assms in simp)

lemma destroy_owned_once:
  assumes "owned_once h"
  shows "\<exists>h'. jb_step Y (Destroy i) h = Some h' \<and> owned_once h'"
proof (cases "body_at h i")
  case (Some x)
  note live = owner_live [OF assms Some]
  obtain h1 where h1: "destroy x h = Some h1" "live_docs h1 = live_docs h - owned (Some x)" "hp_objs h1 = hp_objs h"
    using destroy_live [OF live whole_at [OF assms Some]] by blast
  have "owned_once (put_body i None h1)"
    by (rule owned_once_put [OF assms Some _ _ h1(3)]) (use live h1(2) in simp_all)
  then show ?thesis using Some h1(1) by simp
qed (use assms in simp)

lemma copy_assign_owned_once:
  assumes "owned_once h"
  shows "\<exists>h'. jb_step Y (CopyAssign i j) h = Some h' \<and> owned_once h'"
proof (cases "\<exists>x y. body_at h i = Some x \<and> body_at h j = Some y \<and> i \<noteq> j")
  case True
  then obtain x y where xy: "body_at h i = Some x" "body_at h j = Some y" "i \<noteq> j" by blast
  obtain d h1 where c: "copy_construct Y y h = Some (owner_of d, h1)" "live_docs h1 = live_docs h + {#d#}" "hp_objs h1 = hp_objs h"
    using made_copy(1) [OF owner_live [OF assms xy(2)] whole_at [OF assms xy(2)], of Y] by (auto simp: made_def)
  have live: "owned (Some x) \<subseteq># live_docs h1" using owner_live [OF assms xy(1)] c(2)
    by (metis mset_subset_eq_add_left subset_mset.order_trans)
  obtain h2 where h2: "destroy x h1 = Some h2" "live_docs h2 = live_docs h1 - owned (Some x)" "hp_objs h2 = hp_objs h1"
    using destroy_live [OF live whole_at [OF assms xy(1)]] by blast
  have "copy_assign Y x y h = Some (owner_of d, h2)"
    by (simp add: copy_assign_def c(1) move_assign_def h2(1)) (simp add: destroy_def moved_from_def)
  moreover have "owned_once (put_body i (Some (owner_of d)) h2)"
    by (rule owned_once_put [OF assms xy(1)]) (use live h2 c in simp_all)
  ultimately show ?thesis using xy by simp
qed (use assms in \<open>auto split: option.split\<close>)

lemma move_assign_owned_once:
  assumes "owned_once h"
  shows "\<exists>h'. jb_step Y (MoveAssign i j) h = Some h' \<and> owned_once h'"
proof (cases "\<exists>x y. body_at h i = Some x \<and> body_at h j = Some y \<and> i \<noteq> j")
  case True
  then obtain x y where xy: "body_at h i = Some x" "body_at h j = Some y" "i \<noteq> j" by blast
  note live = owner_live [OF assms xy(1)]
  obtain h1 where h1: "destroy x h = Some h1" "live_docs h1 = live_docs h - owned (Some x)" "hp_objs h1 = hp_objs h"
    using destroy_live [OF live whole_at [OF assms xy(1)]] by blast
  let ?h = "put_body i (Some y) (put_body j (Some moved_from) h1)"
  have at: "body_at h1 j = Some y" "body_at (put_body j (Some moved_from) h1) i = Some x"
    using xy h1(3) by (auto simp: body_at_def put_body_def split: if_splits)
  have "owners h1 = owners h" using h1(3) by (simp add: owners_def)
  then have "owners ?h + owned (Some x) + owned (Some y) = live_docs ?h + owned (Some x) + owned (Some y)"
    using owners_put [OF at(1), of "Some moved_from"] owners_put [OF at(2), of "Some y"] assms live h1(2)
    by (simp add: owned_once_def add.assoc add.commute)
  moreover have "\<forall>z \<in> set (hp_objs ?h). \<forall>y. z = Some y \<longrightarrow> whole_body y"
    using set_put [of _ i "Some y"] set_put [of _ j "Some moved_from" h1] whole_at [OF assms xy(2)] assms h1(3)
    by (fastforce simp: owned_once_def)
  ultimately show ?thesis using xy h1(1) by (simp add: move_assign_def owned_once_def)
qed (use assms in \<open>auto split: option.split\<close>)

lemma step_owned_once:
  assumes "owned_once h"
  shows "\<exists>h'. jb_step Y st h = Some h' \<and> owned_once h'"
proof (cases st)
  case Construct
  then show ?thesis using owned_once_add [OF assms made_construct] by simp
next
  case (CopyConstruct i)
  then show ?thesis using owned_once_add [OF assms made_copy(1)] owner_live [OF assms] whole_at [OF assms] assms
    by (cases "body_at h i") auto
next
  case (Parse json)
  then show ?thesis using owned_once_add [OF assms made_parse] by simp
next
  case (GetObj i key)
  then show ?thesis using owned_once_add [OF assms made_copy(2)] owner_live [OF assms] whole_at [OF assms] assms
    by (cases "body_at h i") auto
next
  case (MoveConstruct i)
  then show ?thesis using move_construct_owned_once [OF assms] by simp
next
  case (Destroy i)
  then show ?thesis using destroy_owned_once [OF assms] by simp
next
  case (CopyAssign i j)
  then show ?thesis using copy_assign_owned_once [OF assms] by simp
next
  case (MoveAssign i j)
  then show ?thesis using move_assign_owned_once [OF assms] by simp
qed

lemma run_owned_once: "owned_once h \<Longrightarrow> \<exists>h'. jb_run Y sts h = Some h' \<and> owned_once h'"
proof (induction sts arbitrary: h)
  case (Cons st sts)
  then show ?case using step_owned_once [OF Cons.prems, of Y st] by force
qed simp

text \<open>
  C13: bodies own their documents. Whatever a program does with its JSON bodies, constructing, copying,
  moving, assigning, parsing and destroying them in any order, no document is freed twice or read after
  it was freed, every document that is not freed has exactly one owner, and when the last body is gone
  no document is left.
\<close>

theorem documents_are_owned_once:
  "\<exists>h. jb_run Y sts empty_heap = Some h \<and> owners h = live_docs h \<and> (\<forall>d. count (owners h) d \<le> 1) \<and>
     (set (hp_objs h) \<subseteq> {None} \<longrightarrow> (\<forall>v \<in> set (hp_docs h). v = None))"
proof -
  have "owned_once empty_heap" by (simp add: owned_once_def empty_heap_def owners_def live_docs_def)
  then obtain h where h: "jb_run Y sts empty_heap = Some h" "owned_once h" using run_owned_once by blast
  then have o: "owners h = live_docs h" by (simp add: owned_once_def)
  have "v = None" if gone: "set (hp_objs h) \<subseteq> {None}" and v: "v \<in> set (hp_docs h)" for v
  proof -
    obtain n where n: "n < length (hp_docs h)" "hp_docs h ! n = v" using v by (auto simp: in_set_conv_nth)
    have "owners h = sum_list (map (\<lambda>x. {#}) (hp_objs h))"
      unfolding owners_def by (rule arg_cong [of _ _ sum_list], rule map_cong) (use gone in auto)
    then have "live_docs h = {#}" using o by simp
    then show ?thesis using in_live [of n h] n by (simp add: doc_value_def)
  qed
  then show ?thesis using h o count_live by (intro exI [of _ h]) auto
qed

lemma object_cases [simp]:
  "destroy (owner_of d) h = doc_free d h" "destroy moved_from h = Some h"
  "root_value (owner_of d) h = map_option Some (doc_value d h)" "root_value moved_from h = Some None"
  by (simp_all add: destroy_def root_value_def owner_of_def moved_from_def)

definition demo_bodies :: "jb_stmt list" where
  "demo_bodies =
     [Construct, Parse ''{}'', CopyConstruct 1, CopyAssign 0 1, MoveConstruct 2, MoveAssign 1 0, GetObj 2 ''k'',
      Destroy 0, Destroy 1, Destroy 2, Destroy 3, Destroy 4]"

lemma demo_bodies_run:
  "\<exists>h. jb_run (yy_ref\<lparr>yy_read := (\<lambda>s. Some (JObj []))\<rparr>) demo_bodies empty_heap = Some h \<and>
     hp_objs h = replicate 5 None \<and> length (hp_docs h) = 6"
  by (simp add: demo_bodies_def empty_heap_def construct_def doc_new_def add_body_def parse_body_def body_at_def copy_construct_def
      doc_free_def doc_value_def copy_assign_def move_assign_def move_construct_def put_body_def get_obj_body_def jb_empty_def
      numeral_nat yy_ref_def)

theorem documents_are_owned_once_witness:
  "\<exists>h. jb_run (yy_ref\<lparr>yy_read := (\<lambda>s. Some (JObj []))\<rparr>) demo_bodies empty_heap = Some h \<and>
     length (hp_docs h) = 6 \<and> (\<forall>v \<in> set (hp_docs h). v = None)"
proof -
  obtain h where h: "jb_run (yy_ref\<lparr>yy_read := (\<lambda>s. Some (JObj []))\<rparr>) demo_bodies empty_heap = Some h"
    "hp_objs h = replicate 5 None" "length (hp_docs h) = 6"
    using demo_bodies_run by blast
  then show ?thesis
    using documents_are_owned_once [of "yy_ref\<lparr>yy_read := (\<lambda>s. Some (JObj []))\<rparr>" demo_bodies] by auto
qed

end
