(* ===== verification/Network_Packet.thy ===== *)
theory Network_Packet
  imports Json_Body Json_Reference
begin

text \<open>
  \<open>sysmodule/src/net/network_packet.{h,cpp}\<close> and \<open>kdeconnect_types.h\<close>: packet types, the packet
  and its text, one JSON object per line. The clock is an argument of \<open>serialize\<close>.
\<close>

definition Identity :: string where "Identity = ''kdeconnect.identity''"
definition Pair_type :: string where "Pair_type = ''kdeconnect.pair''"
definition Ping :: string where "Ping = ''kdeconnect.ping''"
definition Battery :: string where "Battery = ''kdeconnect.battery''"
definition BatteryRequest :: string where "BatteryRequest = ''kdeconnect.battery.request''"
definition Notification :: string where "Notification = ''kdeconnect.notification''"
definition NotificationRequest :: string where
  "NotificationRequest = ''kdeconnect.notification.request''"
definition FindMyPhoneRequest :: string where
  "FindMyPhoneRequest = ''kdeconnect.findmyphone.request''"
definition Mpris :: string where "Mpris = ''kdeconnect.mpris''"
definition MprisRequest :: string where "MprisRequest = ''kdeconnect.mpris.request''"
definition SystemVolume :: string where "SystemVolume = ''kdeconnect.systemvolume''"
definition SystemVolumeRequest :: string where
  "SystemVolumeRequest = ''kdeconnect.systemvolume.request''"
definition ShareRequest :: string where "ShareRequest = ''kdeconnect.share.request''"
definition RunCommand :: string where "RunCommand = ''kdeconnect.runcommand''"
definition RunCommandRequest :: string where "RunCommandRequest = ''kdeconnect.runcommand.request''"
definition MousepadRequest :: string where "MousepadRequest = ''kdeconnect.mousepad.request''"
definition MousepadEcho :: string where "MousepadEcho = ''kdeconnect.mousepad.echo''"
definition MousepadKeyboardState :: string where
  "MousepadKeyboardState = ''kdeconnect.mousepad.keyboardstate''"

lemmas packet_type_defs = Identity_def Pair_type_def Ping_def Battery_def BatteryRequest_def
  Notification_def NotificationRequest_def FindMyPhoneRequest_def Mpris_def MprisRequest_def
  SystemVolume_def SystemVolumeRequest_def ShareRequest_def RunCommand_def RunCommandRequest_def
  MousepadRequest_def MousepadEcho_def MousepadKeyboardState_def

definition kProtocolVersion :: i32 where "kProtocolVersion = 8"

record network_packet =
  pkt_type :: string
  pkt_body :: json_body
  payload_size :: i64
  payload_port :: i32
  send_payload :: "u8 list"

definition new_packet :: "string \<Rightarrow> network_packet" where
  "new_packet t =
     \<lparr>pkt_type = t, pkt_body = jb_empty, payload_size = -1, payload_port = -1, send_payload = []\<rparr>"

definition has_payload :: "network_packet \<Rightarrow> bool" where
  "has_payload p \<longleftrightarrow> 0 < sint (payload_port p) \<and> 0 < sint (payload_size p)"

definition serialize_root :: "yyjson \<Rightarrow> i64 \<Rightarrow> network_packet \<Rightarrow> json_body" where
  "serialize_root Y now p =
     (let root = set_body Y ''body'' (pkt_body p)
                   (set_str Y ''type'' (pkt_type p) (set_i64 Y ''id'' now jb_empty))
      in if 0 \<le> sint (payload_port p) \<and> 0 < sint (payload_size p) then
           (let root = set_i64 Y ''payloadSize'' (payload_size p) root;
                ti = set_int Y ''port'' (payload_port p) jb_empty
            in set_body Y ''payloadTransferInfo'' ti root)
         else root)"

definition serialize :: "yyjson \<Rightarrow> i64 \<Rightarrow> network_packet \<Rightarrow> string" where
  "serialize Y now p = jb_dump Y (serialize_root Y now p) @ [CHR 0x0A]"

definition parse_packet :: "yyjson \<Rightarrow> string \<Rightarrow> network_packet option" where
  "parse_packet Y line =
     (let root = jb_parse Y line
      in if \<not> jb_has Y root ''type'' \<or> \<not> jb_has Y root ''body'' then None
         else
           (let pkt = (new_packet (jb_get_str Y root ''type''))\<lparr>pkt_body := jb_get_obj Y root ''body''\<rparr>
            in if jb_is_num Y root ''payloadSize'' then
                 (let pkt = pkt\<lparr>payload_size := jb_get_i64 Y root ''payloadSize''\<rparr>
                  in if jb_is_obj Y root ''payloadTransferInfo'' then
                       (let ti = jb_get_obj Y root ''payloadTransferInfo''
                        in Some (pkt\<lparr>payload_port := jb_value_int Y ti ''port'' (-1)\<rparr>))
                     else Some pkt)
               else Some pkt))"

section \<open>The text of a packet\<close>

definition packet_plain :: "network_packet \<Rightarrow> bool" where
  "packet_plain p \<longleftrightarrow> ascii (pkt_type p) \<and> is_jobj (pkt_body p) \<and> j_plain (pkt_body p)"

lemma new_packet_sel [simp]:
  "pkt_type (new_packet t) = t" "pkt_body (new_packet t) = jb_empty"
  "payload_size (new_packet t) = -1" "payload_port (new_packet t) = -1"
  "send_payload (new_packet t) = []"
  by (simp_all add: new_packet_def)

lemma no_payload_new [simp]: "\<not> has_payload (new_packet t)"
  by (simp add: has_payload_def)

lemma j_plain_delete [simp]: "j_plain (JObj kvs) \<Longrightarrow> j_plain (JObj (AList.delete k kvs))"
  by (auto simp: list_all_iff delete_eq_filter)

lemma j_plain_upsert:
  assumes "yyjson_ok Y" "is_jobj b" "j_plain b" "ascii k" "j_plain v"
  shows "j_plain (upsert Y b k v)"
  using assms j_plain_delete ascii_nul_free
  by (auto elim!: is_jobjE simp: json_simps simp del: j_plain.simps, simp)

lemma j_plain_set:
  assumes "yyjson_ok Y" "is_jobj b" "j_plain b" "ascii k"
  shows "j_plain (set_bool Y k x b)" "j_plain (set_int Y k i b)" "j_plain (set_i64 Y k j b)"
    and "ascii s \<Longrightarrow> j_plain (set_str Y k s b)" and "j_plain c \<Longrightarrow> j_plain (set_body Y k c b)"
    and "list_all ascii ss \<Longrightarrow> j_plain (set_str_array Y k ss b)"
    and "j_plain (f (JObj [])) \<Longrightarrow> j_plain (set_array_with_object Y k f b)"
  using assms ascii_nul_free
  by (auto simp: set_bool_def set_int_def set_i64_def set_str_def set_body_def set_str_array_def
      set_array_with_object_def json_simps list_all_iff intro!: j_plain_upsert)

lemma j_plain_empty [simp]: "j_plain jb_empty"
  by (simp add: jb_empty_def)

lemma jb_parse_line:
  assumes "yyjson_ok Y" "j_plain b" "is_jobj b"
  shows "jb_parse Y (jb_dump Y b @ [CHR 0x0A]) = j_norm b"
proof -
  obtain t where "yy_write Y False b = Some t" "t \<noteq> []" "nul_free t" "yy_read Y t = Some (j_norm b)"
    using yy_writeE [OF assms(1,2), of False] by metis
  then show ?thesis
    using assms(3) by (simp add: jb_parse_def jb_dump_def yy_read_newline [OF assms(1)])
qed

lemma jb_parse_drop_newline:
  "yyjson_ok Y \<Longrightarrow> nul_free t \<Longrightarrow> t \<noteq> [] \<Longrightarrow> jb_parse Y (t @ [CHR 0x0A]) = jb_parse Y t"
  by (simp add: jb_parse_def yy_read_newline)

lemma serialize_root_ok:
  assumes "yyjson_ok Y" "packet_plain p"
  shows "is_jobj (serialize_root Y now p) \<and> j_plain (serialize_root Y now p)"
  using assms unfolding serialize_root_def packet_plain_def
  by (auto simp: Let_def set_obj ascii_char_def intro!: j_plain_set)

lemma field_serialize_root [packet_simps]:
  assumes "yyjson_ok Y"
  shows "field Y (serialize_root Y now p) k =
     (if k = ''payloadTransferInfo'' \<and> 0 \<le> sint (payload_port p) \<and> 0 < sint (payload_size p)
        then Some (set_int Y ''port'' (payload_port p) jb_empty)
      else if k = ''payloadSize'' \<and> 0 \<le> sint (payload_port p) \<and> 0 < sint (payload_size p)
        then Some (JSint (payload_size p))
      else if k = ''body'' then Some (pkt_body p)
      else if k = ''type'' then Some (JStr (c_str (pkt_type p)))
      else if k = ''id'' then Some (JSint now)
      else None)"
  using assms by (simp add: serialize_root_def Let_def field_set set_obj)

text \<open>What a peer running the same code reads from a serialized packet.\<close>

definition received :: "network_packet \<Rightarrow> network_packet" where
  "received p =
     (let attached = 0 \<le> sint (payload_port p) \<and> 0 < sint (payload_size p)
      in \<lparr>pkt_type = pkt_type p, pkt_body = j_norm (pkt_body p),
          payload_size = (if attached then payload_size p else -1),
          payload_port = (if attached then payload_port p else -1), send_payload = []\<rparr>)"

lemma parse_serialize_eq:
  assumes Y: "yyjson_ok Y" and p: "packet_plain p"
  shows "parse_packet Y (serialize Y now p) = Some (received p)"
proof -
  let ?r = "serialize_root Y now p"
  have root: "jb_parse Y (serialize Y now p) = j_norm ?r"
    using serialize_root_ok [OF Y p] by (simp add: serialize_def jb_parse_line [OF Y])
  have t: "c_str (pkt_type p) = pkt_type p"
    using p ascii_nul_free by (auto simp: packet_plain_def)
  have f: "jb_has Y ?r ''type''" "jb_has Y ?r ''body''" "jb_get_str Y ?r ''type'' = pkt_type p"
    "jb_get_obj Y ?r ''body'' = pkt_body p"
    using p Y by (simp_all add: jb_defs field_serialize_root t packet_plain_def json_simps)
  show ?thesis
  proof (cases "0 \<le> sint (payload_port p) \<and> 0 < sint (payload_size p)")
    case True
    then have "jb_is_num Y ?r ''payloadSize''" "jb_get_i64 Y ?r ''payloadSize'' = payload_size p"
      "jb_is_obj Y ?r ''payloadTransferInfo''"
      "jb_get_obj Y ?r ''payloadTransferInfo'' = set_int Y ''port'' (payload_port p) jb_empty"
      using Y by (simp_all add: jb_defs field_serialize_root json_simps)
    then show ?thesis
      using f True value_int_set_int [OF Y, of jb_empty]
      by (simp add: parse_packet_def root Let_def jb_norm [OF Y] received_def)
  next
    case False
    then have "\<not> jb_is_num Y ?r ''payloadSize''"
      using Y by (auto simp: jb_defs field_serialize_root)
    then show ?thesis
      using f False by (auto simp: parse_packet_def root Let_def jb_norm [OF Y] received_def new_packet_def)
  qed
qed

text \<open>The text of a packet is one line: no newline but the last character, and no NUL.\<close>

lemma serialize_line:
  assumes "yyjson_ok Y" "packet_plain p"
  obtains t where "serialize Y now p = t @ [CHR 0x0A]" "CHR 0x0A \<notin> set t" "nul_free t" "t \<noteq> []"
proof -
  obtain t where "yy_write Y False (serialize_root Y now p) = Some t" "t \<noteq> []" "nul_free t" "CHR 0x0A \<notin> set t"
    using yy_writeE [OF assms(1), of "serialize_root Y now p" False] serialize_root_ok [OF assms] by metis
  then show ?thesis by (intro that) (simp_all add: serialize_def jb_dump_def)
qed

lemma parse_packet_None:
  "parse_packet Y line = None \<longleftrightarrow>
     \<not> jb_has Y (jb_parse Y line) ''type'' \<or> \<not> jb_has Y (jb_parse Y line) ''body''"
  by (simp add: parse_packet_def Let_def)

text \<open>
  A received packet claims a payload only when the sender gave a positive size and port, and it
  never carries payload bytes of its own.
\<close>

lemma parse_packet_no_bytes: "parse_packet Y line = Some p \<Longrightarrow> send_payload p = []"
  by (auto simp: parse_packet_def Let_def split: if_splits)

lemma parse_packet_payload:
  "parse_packet Y line = Some p \<Longrightarrow> has_payload p \<Longrightarrow>
     jb_is_num Y (jb_parse Y line) ''payloadSize'' \<and> jb_is_obj Y (jb_parse Y line) ''payloadTransferInfo''"
  by (auto simp: parse_packet_def has_payload_def Let_def split: if_splits)

section \<open>Properties\<close>

text \<open>
  C1: a packet that \<open>serialize\<close> prints is read back by \<open>parse\<close> as the same packet: type, body (up
  to the sign tag JSON text does not keep), and size and port of the payload exactly when the
  sender attached one.
\<close>

theorem parse_serialize:
  assumes "yyjson_ok Y" and "packet_plain p"
  shows "parse_packet Y (serialize Y now p) =
    Some \<lparr>pkt_type = pkt_type p, pkt_body = j_norm (pkt_body p),
          payload_size = (if 0 \<le> sint (payload_port p) \<and> 0 < sint (payload_size p)
                          then payload_size p else -1),
          payload_port = (if 0 \<le> sint (payload_port p) \<and> 0 < sint (payload_size p)
                          then payload_port p else -1),
          send_payload = []\<rparr>"
  using parse_serialize_eq [OF assms] by (simp add: received_def Let_def)

theorem parse_serialize_witness:
  "parse_packet yy_ref
     (serialize yy_ref 1700000000000
        ((new_packet Ping)\<lparr>pkt_body := set_str yy_ref ''message'' ''hello'' jb_empty,
                           payload_size := 5, payload_port := 1739\<rparr>)) =
   Some \<lparr>pkt_type = Ping, pkt_body = JObj [(''message'', JStr ''hello'')],
         payload_size = 5, payload_port = 1739, send_payload = []\<rparr>"
proof -
  let ?p = "(new_packet Ping)\<lparr>pkt_body := set_str yy_ref ''message'' ''hello'' jb_empty,
                              payload_size := 5, payload_port := 1739\<rparr>"
  have b: "set_str yy_ref ''message'' ''hello'' jb_empty = JObj [(''message'', JStr ''hello'')]"
    by (simp add: set_str_def jb_empty_def upsert_JObj)
  have "packet_plain ?p" by (simp add: packet_plain_def b Ping_def ascii_char_def)
  from parse_serialize [OF yyjson_ok_ref this] show ?thesis by (simp add: b)
qed

end
