(* ===== verification/Network_Util.thy ===== *)
theory Network_Util
  imports Network_Packet
begin

text \<open>
  \<open>sysmodule/src/utils/network_util.cpp\<close> and the device record of \<open>net/kdeconnect_types.h\<close>: line
  reading, sending, the TLS handshake loop, identity packets and the listening sockets.

  A call on a socket or on mbedtls is an element of a list of results, one per call, in order. A
  loop that runs out of results has not returned: its value is \<open>Waiting\<close>, which no caller can
  mistake for an answer.
\<close>

section \<open>Devices\<close>

record device_info =
  di_id :: string
  di_name :: string
  di_type :: string
  protocol_version :: i32
  incoming_capabilities :: "string list"
  outgoing_capabilities :: "string list"

datatype pair_state = NotPaired | Requested | RequestedByPeer | Paired

section \<open>Results of socket and TLS calls\<close>

datatype rx = RxByte char | RxWant | RxFail

datatype tx = TxWrote nat | TxWant | TxFail

datatype hs = HsOk | HsWant | HsFail

datatype 'a call = Returned 'a | Waiting

text \<open>The bytes a list of receive results delivers.\<close>

fun rx_bytes :: "rx list \<Rightarrow> string" where
  "rx_bytes [] = []"
| "rx_bytes (RxByte c # es) = c # rx_bytes es"
| "rx_bytes (_ # es) = rx_bytes es"

lemma rx_bytes_map [simp]: "rx_bytes (map RxByte s @ es) = s @ rx_bytes es"
  by (induction s) auto

section \<open>Reading a line\<close>

text \<open>
  \<open>recv\<close> of one byte: every result but a byte, a timeout included, ends the loop.
\<close>

fun read_line_fd_from :: "nat \<Rightarrow> string \<Rightarrow> rx list \<Rightarrow> string option call \<times> rx list" where
  "read_line_fd_from max_bytes out es =
     (if \<not> length out < max_bytes then (Returned None, es)
      else case es of
             [] \<Rightarrow> (Waiting, [])
           | RxByte ch # es \<Rightarrow>
               if ch = CHR 0x0A then (Returned (Some out), es)
               else read_line_fd_from max_bytes (out @ [ch]) es
           | _ # es \<Rightarrow> (Returned None, es))"

definition read_line_fd :: "nat \<Rightarrow> rx list \<Rightarrow> string option call \<times> rx list" where
  "read_line_fd max_bytes es = read_line_fd_from max_bytes [] es"

text \<open>\<open>mbedtls_ssl_read\<close> of one byte: \<open>WANT_READ\<close> and \<open>WANT_WRITE\<close> are retried.\<close>

fun read_line_tls_from :: "nat \<Rightarrow> string \<Rightarrow> rx list \<Rightarrow> string option call \<times> rx list" where
  "read_line_tls_from max_bytes out es =
     (if \<not> length out < max_bytes then (Returned None, es)
      else case es of
             [] \<Rightarrow> (Waiting, [])
           | RxWant # es \<Rightarrow> read_line_tls_from max_bytes out es
           | RxFail # es \<Rightarrow> (Returned None, es)
           | RxByte ch # es \<Rightarrow>
               if ch = CHR 0x0A then (Returned (Some out), es)
               else read_line_tls_from max_bytes (out @ [ch]) es)"

definition read_line_tls :: "nat \<Rightarrow> rx list \<Rightarrow> string option call \<times> rx list" where
  "read_line_tls max_bytes es = read_line_tls_from max_bytes [] es"

declare read_line_fd_from.simps [simp del] read_line_tls_from.simps [simp del]

section \<open>Sending\<close>

text \<open>
  \<open>mbedtls_ssl_write\<close> may take a part of the data. The second component is what it took in all,
  in order.
\<close>

fun send_all_from :: "'b list \<Rightarrow> nat \<Rightarrow> 'b list \<Rightarrow> tx list \<Rightarrow> bool call \<times> 'b list \<times> tx list" where
  "send_all_from data done_n sent es =
     (if \<not> done_n < length data then (Returned True, sent, es)
      else case es of
             [] \<Rightarrow> (Waiting, sent, [])
           | TxWant # es \<Rightarrow> send_all_from data done_n sent es
           | TxFail # es \<Rightarrow> (Returned False, sent, es)
           | TxWrote n # es \<Rightarrow>
               if n = 0 then (Returned False, sent, es)
               else send_all_from data (done_n + n) (sent @ take n (drop done_n data)) es)"

declare send_all_from.simps [simp del]

definition send_all_tls :: "'b list \<Rightarrow> tx list \<Rightarrow> bool call \<times> 'b list \<times> tx list" where
  "send_all_tls data es = send_all_from data 0 [] es"

section \<open>Handshake\<close>

fun perform_tls_handshake :: "hs list \<Rightarrow> bool call \<times> hs list" where
  "perform_tls_handshake [] = (Waiting, [])"
| "perform_tls_handshake (HsOk # es) = (Returned True, es)"
| "perform_tls_handshake (HsWant # es) = perform_tls_handshake es"
| "perform_tls_handshake (HsFail # es) = (Returned False, es)"

section \<open>Identity packets\<close>

definition info_from_identity :: "yyjson \<Rightarrow> network_packet \<Rightarrow> device_info" where
  "info_from_identity Y pkt =
     (let b = pkt_body pkt
      in \<lparr>di_id = jb_value_str Y b ''deviceId'' [],
          di_name = jb_value_str Y b ''deviceName'' ''unknown'',
          di_type = jb_value_str Y b ''deviceType'' ''desktop'',
          protocol_version = jb_value_int Y b ''protocolVersion'' kProtocolVersion,
          incoming_capabilities =
            (if jb_has Y b ''incomingCapabilities'' then jb_get_str_array Y b ''incomingCapabilities'' else []),
          outgoing_capabilities =
            (if jb_has Y b ''outgoingCapabilities'' then jb_get_str_array Y b ''outgoingCapabilities'' else [])\<rparr>)"

definition make_identity_packet ::
    "yyjson \<Rightarrow> device_info \<Rightarrow> string option \<Rightarrow> i32 option \<Rightarrow> i32 option \<Rightarrow> network_packet" where
  "make_identity_packet Y info target_id target_protocol tcp_port =
     (let b = set_str Y ''deviceId'' (di_id info) jb_empty;
          b = set_str Y ''deviceName'' (di_name info) b;
          b = set_str Y ''deviceType'' (di_type info) b;
          b = set_int Y ''protocolVersion'' (protocol_version info) b;
          b = set_str_array Y ''incomingCapabilities'' (incoming_capabilities info) b;
          b = set_str_array Y ''outgoingCapabilities'' (outgoing_capabilities info) b;
          b = (case target_id of Some t \<Rightarrow> set_str Y ''targetDeviceId'' t b | None \<Rightarrow> b);
          b = (case target_protocol of Some v \<Rightarrow> set_int Y ''targetProtocolVersion'' v b | None \<Rightarrow> b);
          b = (case tcp_port of Some p \<Rightarrow> set_int Y ''tcpPort'' p b | None \<Rightarrow> b)
      in (new_packet Identity)\<lparr>pkt_body := b\<rparr>)"

definition uppercase_first8 :: "string \<Rightarrow> string" where
  "uppercase_first8 hex = (if length hex \<le> 8 then hex else take 8 hex)"

section \<open>Listening sockets\<close>

text \<open>
  \<open>bind_ok\<close> and \<open>listen_ok\<close> say what the calls return for a port. The results are the socket
  (-1 for none), the port bound and whether the socket was closed.
\<close>

fun bind_first :: "(nat \<Rightarrow> bool) \<Rightarrow> (nat \<Rightarrow> bool) \<Rightarrow> nat \<Rightarrow> nat \<Rightarrow> nat option" where
  "bind_first bind_ok listen_ok port n =
     (case n of
        0 \<Rightarrow> None
      | Suc n \<Rightarrow> if bind_ok port \<and> listen_ok port then Some port
                else bind_first bind_ok listen_ok (Suc port) n)"

declare bind_first.simps [simp del]

definition create_tcp_server_socket ::
    "int \<Rightarrow> (nat \<Rightarrow> bool) \<Rightarrow> (nat \<Rightarrow> bool) \<Rightarrow> nat \<Rightarrow> nat \<Rightarrow> int \<times> nat option \<times> bool" where
  "create_tcp_server_socket fd bind_ok listen_ok min_port max_port =
     (if fd < 0 then (-1, None, False)
      else case bind_first bind_ok listen_ok min_port (Suc max_port - min_port) of
             Some port \<Rightarrow> (fd, Some port, False)
           | None \<Rightarrow> (-1, None, True))"

definition create_udp_broadcast_socket :: "int \<Rightarrow> (nat \<Rightarrow> bool) \<Rightarrow> nat \<Rightarrow> int \<times> bool" where
  "create_udp_broadcast_socket fd bind_ok port =
     (if fd < 0 then (-1, False) else if \<not> bind_ok port then (-1, True) else (fd, False))"

section \<open>Lemmas on the loops\<close>

lemma read_line_fd_from_bytes:
  "CHR 0x0A \<notin> set l \<Longrightarrow> length out + length l < n \<Longrightarrow>
     read_line_fd_from n out (map RxByte (l @ CHR 0x0A # rest)) = (Returned (Some (out @ l)), map RxByte rest)"
proof (induction l arbitrary: out)
  case Nil
  then show ?case by (simp add: read_line_fd_from.simps)
next
  case (Cons c l)
  then have "c \<noteq> CHR 0x0A" by auto
  with Cons show ?case by (simp add: read_line_fd_from.simps [of n out])
qed

lemma read_line_fd_from_Some:
  "read_line_fd_from n out es = (Returned (Some l), es') \<Longrightarrow>
     \<exists>k. l = out @ k \<and> CHR 0x0A \<notin> set k \<and> length l < n"
proof (induction es arbitrary: out)
  case Nil
  then show ?case by (simp add: read_line_fd_from.simps split: if_splits)
next
  case (Cons e es)
  show ?case
  proof (cases e)
    case (RxByte c)
    with Cons.prems show ?thesis
      by (auto simp: read_line_fd_from.simps [of n out] split: if_splits dest!: Cons.IH)
  qed (use Cons.prems Cons.IH in \<open>auto simp: read_line_fd_from.simps [of n out] split: if_splits\<close>)
qed

lemma read_line_tls_from_Some:
  "read_line_tls_from n out es = (Returned (Some l), es') \<Longrightarrow>
     \<exists>k. l = out @ k \<and> CHR 0x0A \<notin> set k \<and> length l < n"
proof (induction es arbitrary: out)
  case Nil
  then show ?case by (simp add: read_line_tls_from.simps split: if_splits)
next
  case (Cons e es)
  show ?case
  proof (cases e)
    case (RxByte c)
    with Cons.prems show ?thesis
      by (auto simp: read_line_tls_from.simps [of n out] split: if_splits dest!: Cons.IH)
  qed (use Cons.prems Cons.IH in \<open>auto simp: read_line_tls_from.simps [of n out] split: if_splits\<close>)
qed

lemma read_line_tls_from_bytes:
  "rx_bytes es = l @ CHR 0x0A # rest \<Longrightarrow> RxFail \<notin> set es \<Longrightarrow> CHR 0x0A \<notin> set l \<Longrightarrow>
     length out + length l < n \<Longrightarrow>
     \<exists>es'. read_line_tls_from n out es = (Returned (Some (out @ l)), es') \<and> rx_bytes es' = rest \<and>
           set es' \<subseteq> set es"
proof (induction es arbitrary: out l)
  case (Cons e es1)
  consider (want) "e = RxWant" | (nl) "e = RxByte CHR 0x0A" | (byte) c where "e = RxByte c" "c \<noteq> CHR 0x0A"
    using Cons.prems by (cases e) auto
  then show ?case
  proof cases
    case want
    then show ?thesis
      using Cons.prems Cons.IH [of l out] by (auto simp: read_line_tls_from.simps [of n out])
  next
    case nl
    then show ?thesis
      using Cons.prems by (cases l) (auto simp: read_line_tls_from.simps [of n out])
  next
    case byte
    then obtain l1 where l: "l = c # l1" using Cons.prems by (cases l) auto
    show ?thesis
      using Cons.prems Cons.IH [of l1 "out @ [c]"] byte l
      by (auto simp: read_line_tls_from.simps [of n out])
  qed
qed simp

text \<open>A reader that only hears \<open>WANT_READ\<close> never returns, a plain \<open>recv\<close> that times out does.\<close>

lemma read_line_tls_waits: "0 < n \<Longrightarrow> read_line_tls n (replicate k RxWant) = (Waiting, [])"
  unfolding read_line_tls_def
  by (induction k) (auto simp: read_line_tls_from.simps [of n "[]"])

lemma read_line_fd_timeout: "0 < n \<Longrightarrow> read_line_fd n (RxWant # es) = (Returned None, es)"
  by (simp add: read_line_fd_def read_line_fd_from.simps)

lemma handshake_waits: "perform_tls_handshake (replicate k HsWant @ es) = perform_tls_handshake es"
  by (induction k) auto

lemma perform_tls_handshake_True:
  "perform_tls_handshake es = (Returned True, es') \<Longrightarrow> \<exists>k. es = replicate k HsWant @ HsOk # es'"
proof (induction es rule: perform_tls_handshake.induct)
  case (3 es)
  then obtain k where "es = replicate k HsWant @ HsOk # es'" by auto
  then have "HsWant # es = replicate (Suc k) HsWant @ HsOk # es'" by simp
  then show ?case by blast
qed (auto intro: exI [of _ 0])

text \<open>What was sent is a prefix of the data, and all of it when the call reports success.\<close>

lemma send_all_from_sent:
  "send_all_from data k (take k data) es = (r, sent, es') \<Longrightarrow>
     (\<exists>n. sent = take n data) \<and> (r = Returned True \<longrightarrow> sent = data)"
proof (induction data k "take k data" es rule: send_all_from.induct)
  case (1 data k es)
  have step: "take k data @ take n (drop k data) = take (k + n) data" for n
    by (simp add: take_add)
  show ?case
  proof (cases "k < length data")
    case False
    then have "sent = take k data" "take k data = data"
      using "1.prems" by (simp_all add: send_all_from.simps [of data k])
    then show ?thesis by metis
  next
    case True
    show ?thesis
    proof (cases es)
      case Nil
      then show ?thesis using "1.prems" True by (auto simp: send_all_from.simps [of data k])
    next
      case (Cons e es1)
      then show ?thesis
        using "1.prems" True "1.hyps"(1) [OF _ Cons] "1.hyps"(2) [OF _ Cons] step
        by (cases e) (auto simp: send_all_from.simps [of data k] split: if_splits)
    qed
  qed
qed

lemma send_all_tls_sent:
  "send_all_tls data es = (r, sent, es') \<Longrightarrow>
     (\<exists>n. sent = take n data) \<and> (r = Returned True \<longrightarrow> sent = data)"
  using send_all_from_sent [of data 0 es r sent es'] by (simp add: send_all_tls_def)

lemma bind_first_Some:
  "bind_first b l port n = Some p \<Longrightarrow>
     port \<le> p \<and> p < port + n \<and> b p \<and> l p \<and> (\<forall>q. port \<le> q \<and> q < p \<longrightarrow> \<not> (b q \<and> l q))"
proof (induction n arbitrary: port)
  case (Suc n)
  show ?case
  proof (cases "b port \<and> l port")
    case True
    then show ?thesis using Suc.prems by (auto simp: bind_first.simps)
  next
    case False
    then have "bind_first b l (Suc port) n = Some p"
      using Suc.prems by (simp add: bind_first.simps [of b l port] split: if_splits)
    from Suc.IH [OF this] False show ?thesis by (auto simp: Suc_le_eq) (metis le_neq_implies_less)+
  qed
qed (simp add: bind_first.simps)

lemma bind_first_None: "bind_first b l port n = None \<longleftrightarrow> (\<forall>q. port \<le> q \<and> q < port + n \<longrightarrow> \<not> (b q \<and> l q))"
proof (induction n arbitrary: port)
  case (Suc n)
  show ?case
    using Suc.IH [of "Suc port"]
    by (auto simp: bind_first.simps [of b l port] Suc_le_eq split: if_splits)
      (metis le_neq_implies_less)+
qed (auto simp: bind_first.simps)

section \<open>Identities on the wire\<close>

definition info_ascii :: "device_info \<Rightarrow> bool" where
  "info_ascii i \<longleftrightarrow> ascii (di_id i) \<and> ascii (di_name i) \<and> ascii (di_type i) \<and>
     list_all ascii (incoming_capabilities i) \<and> list_all ascii (outgoing_capabilities i)"

lemma str_items_JStr: "list_all ascii ss \<Longrightarrow> str_items (map (\<lambda>s. JStr (c_str s)) ss) = ss"
  by (induction ss) (auto dest: ascii_nul_free)

lemma make_identity_type [simp]: "pkt_type (make_identity_packet Y i t v p) = Identity"
  and make_identity_payload [simp]: "payload_size (make_identity_packet Y i t v p) = -1"
    "payload_port (make_identity_packet Y i t v p) = -1"
  by (simp_all add: make_identity_packet_def Let_def)

lemma field_identity [packet_simps]:
  assumes "yyjson_ok Y"
  shows "field Y (pkt_body (make_identity_packet Y i t v p)) k =
     (if k = ''tcpPort'' \<and> p \<noteq> None then Some (JSint (scast (the p)))
      else if k = ''targetProtocolVersion'' \<and> v \<noteq> None then Some (JSint (scast (the v)))
      else if k = ''targetDeviceId'' \<and> t \<noteq> None then Some (JStr (c_str (the t)))
      else if k = ''outgoingCapabilities''
        then Some (JArr (map (\<lambda>s. JStr (c_str s)) (outgoing_capabilities i)))
      else if k = ''incomingCapabilities''
        then Some (JArr (map (\<lambda>s. JStr (c_str s)) (incoming_capabilities i)))
      else if k = ''protocolVersion'' then Some (JSint (scast (protocol_version i)))
      else if k = ''deviceType'' then Some (JStr (c_str (di_type i)))
      else if k = ''deviceName'' then Some (JStr (c_str (di_name i)))
      else if k = ''deviceId'' then Some (JStr (c_str (di_id i)))
      else None)"
  using assms
  by (simp add: make_identity_packet_def Let_def field_set set_obj split: option.split)

lemma identity_plain:
  assumes "yyjson_ok Y" "info_ascii i" "\<And>x. t = Some x \<Longrightarrow> ascii x"
  shows "packet_plain (make_identity_packet Y i t v p)"
  using assms unfolding packet_plain_def make_identity_packet_def info_ascii_def
  by (auto simp: Let_def Identity_def ascii_char_def set_obj split: option.split intro!: j_plain_set)

lemma info_from_identity_norm:
  "yyjson_ok Y \<Longrightarrow> info_from_identity Y (p\<lparr>pkt_body := j_norm b\<rparr>) = info_from_identity Y (p\<lparr>pkt_body := b\<rparr>)"
  by (simp add: info_from_identity_def Let_def jb_norm)

lemma info_from_make_identity:
  assumes Y: "yyjson_ok Y" and i: "info_ascii i"
  shows "info_from_identity Y (make_identity_packet Y i t v p) = i"
proof -
  have "c_str (di_id i) = di_id i" "c_str (di_name i) = di_name i" "c_str (di_type i) = di_type i"
    using i ascii_nul_free by (auto simp: info_ascii_def)
  moreover have "str_items (map (\<lambda>s. JStr (c_str s)) (incoming_capabilities i)) = incoming_capabilities i"
    "str_items (map (\<lambda>s. JStr (c_str s)) (outgoing_capabilities i)) = outgoing_capabilities i"
    using i by (simp_all add: str_items_JStr info_ascii_def)
  ultimately show ?thesis
    using Y by (simp add: info_from_identity_def Let_def jb_defs field_identity json_simps)
qed

lemma identity_line_over_tls:
  assumes "yyjson_ok Y" and "info_ascii i" and "\<And>x. t = Some x \<Longrightarrow> ascii x"
    and "rx_bytes es = serialize Y now (make_identity_packet Y i t v p) @ rest" and "RxFail \<notin> set es"
    and "length (serialize Y now (make_identity_packet Y i t v p)) \<le> n"
  shows "\<exists>line es' q. read_line_tls n es = (Returned (Some line), es') \<and> rx_bytes es' = rest \<and>
     parse_packet Y line = Some q \<and> pkt_type q = Identity \<and> info_from_identity Y q = i"
proof -
  let ?p = "make_identity_packet Y i t v p"
  have plain: "packet_plain ?p" by (rule identity_plain) (use assms in auto)
  obtain line where l: "serialize Y now ?p = line @ [CHR 0x0A]" "CHR 0x0A \<notin> set line" "nul_free line"
    "line \<noteq> []" by (rule serialize_line [OF assms(1) plain])
  obtain es' where es': "read_line_tls n es = (Returned (Some line), es')" "rx_bytes es' = rest"
    using read_line_tls_from_bytes [of es line rest "[]" n] assms l
    by (auto simp: read_line_tls_def)
  have "parse_packet Y line = parse_packet Y (serialize Y now ?p)"
    using jb_parse_drop_newline [OF assms(1) l(3,4)] by (simp add: parse_packet_def l(1))
  then have q: "parse_packet Y line = Some (received ?p)"
    by (simp add: parse_serialize_eq [OF assms(1) plain])
  have "info_from_identity Y (received ?p) = i"
    using info_from_identity_norm [OF assms(1)] info_from_make_identity [OF assms(1,2), of t v p]
    by (simp add: info_from_identity_def received_def Let_def jb_norm [OF assms(1)])
  moreover have "pkt_type (received ?p) = Identity" by (simp add: received_def Let_def)
  ultimately show ?thesis using es' q by blast
qed

section \<open>Properties\<close>

text \<open>
  C2: the identity a peer reads off the wire is the one this device announced: reading the line of
  a serialized identity packet (with timeouts in between and further data behind it), parsing it
  and \<open>info_from_identity\<close> give the announced \<open>DeviceInfo\<close> back, and the bytes behind the newline
  stay in the socket. The line has to fit the reader's limit.
\<close>

theorem identity_over_tls:
  assumes "yyjson_ok Y" and "info_ascii i" and "\<And>x. t = Some x \<Longrightarrow> ascii x"
    and "rx_bytes es = serialize Y now (make_identity_packet Y i t v p) @ rest" and "RxFail \<notin> set es"
    and "length (serialize Y now (make_identity_packet Y i t v p)) \<le> n"
  shows "\<exists>line es' q. read_line_tls n es = (Returned (Some line), es') \<and> rx_bytes es' = rest \<and>
     parse_packet Y line = Some q \<and> pkt_type q = Identity \<and> info_from_identity Y q = i"
  by (rule identity_line_over_tls [OF assms])

definition sample_info :: device_info where
  "sample_info = \<lparr>di_id = ''a1'', di_name = ''Switch'', di_type = ''tablet'', protocol_version = 8,
     incoming_capabilities = [Ping], outgoing_capabilities = [Ping, Battery]\<rparr>"

lemma sample_info_ascii: "info_ascii sample_info"
  by (simp add: info_ascii_def sample_info_def Ping_def Battery_def ascii_char_def)

theorem identity_over_tls_witness:
  "\<exists>line es' q.
     read_line_tls (length (serialize yy_ref 0 (make_identity_packet yy_ref sample_info (Some ''b2'') (Some 8) None)))
       (RxWant # map RxByte
          (serialize yy_ref 0 (make_identity_packet yy_ref sample_info (Some ''b2'') (Some 8) None)) @
        [RxByte CHR ''x'', RxWant]) = (Returned (Some line), es') \<and>
     rx_bytes es' = ''x'' \<and> parse_packet yy_ref line = Some q \<and> pkt_type q = Identity \<and>
     info_from_identity yy_ref q = sample_info"
  by (rule identity_over_tls [OF yyjson_ok_ref sample_info_ascii, where t = "Some ''b2''"])
    (auto simp: ascii_char_def)

end
