(* ===== verification/Storage.thy ===== *)
theory Storage
  imports Network_Util
begin

text \<open>
  \<open>sysmodule/src/utils/storage.cpp\<close>, the Switch build: paths, reading and writing whole files in
  chunks, and the store of paired devices. The file services of libnx and of its C library are the
  fields of a record over a state \<open>'fs\<close>; \<open>nxfs_ok\<close> is their documented behaviour, relative to a
  view \<open>C\<close> of the state that says what every file holds.
\<close>

section \<open>The file services\<close>

record 'fs nxfs =
  fs_device :: bool
  fs_max_path :: nat
  fs_create :: "string \<Rightarrow> nat \<Rightarrow> 'fs \<Rightarrow> 'fs"
  fs_open :: "string \<Rightarrow> 'fs \<Rightarrow> bool"
  fs_get_size :: "string \<Rightarrow> 'fs \<Rightarrow> int option"
  fs_set_size :: "string \<Rightarrow> nat \<Rightarrow> 'fs \<Rightarrow> 'fs option"
  fs_read :: "string \<Rightarrow> nat \<Rightarrow> nat \<Rightarrow> 'fs \<Rightarrow> string option"
  fs_write :: "string \<Rightarrow> nat \<Rightarrow> string \<Rightarrow> 'fs \<Rightarrow> 'fs option"
  fs_exists :: "string \<Rightarrow> 'fs \<Rightarrow> bool"
  fs_remove :: "string \<Rightarrow> 'fs \<Rightarrow> 'fs"
  fs_mkdir :: "string \<Rightarrow> 'fs \<Rightarrow> 'fs"
  fs_list :: "string \<Rightarrow> 'fs \<Rightarrow> string list option"

section \<open>Paths\<close>

definition path_stem :: "string \<Rightarrow> string" where
  "path_stem path =
     (let name = (case rfind_if (\<lambda>c. c = CHR ''/'') path of None \<Rightarrow> path | Some slash \<Rightarrow> drop (slash + 1) path)
      in case rfind_if (\<lambda>c. c = CHR ''.'') name of None \<Rightarrow> name | Some dot \<Rightarrow> take dot name)"

definition paired_path :: "string \<Rightarrow> string \<Rightarrow> string" where
  "paired_path base device_id = base @ ''/paired/'' @ device_id @ ''.json''"

definition cert_path :: "string \<Rightarrow> string" where
  "cert_path base = base @ ''/cert.pem''"

definition key_path :: "string \<Rightarrow> string" where
  "key_path base = base @ ''/key.pem''"

text \<open>The prefixes of \<open>tmp\<close> the loop creates, in order: those that end before a slash.\<close>

fun mkdir_prefixes :: "string \<Rightarrow> string \<Rightarrow> string list" where
  "mkdir_prefixes done_s [] = []"
| "mkdir_prefixes done_s (c # s) =
     (if c = CHR ''/'' then done_s # mkdir_prefixes (done_s @ [c]) s else mkdir_prefixes (done_s @ [c]) s)"

definition make_directories :: "'fs nxfs \<Rightarrow> string \<Rightarrow> 'fs \<Rightarrow> 'fs" where
  "make_directories F path fs =
     (let tmp = ''sdmc:/'' @ path
      in fold (fs_mkdir F) (map c_str (mkdir_prefixes (take 1 tmp) (drop 1 tmp) @ [tmp])) fs)"

definition storage_init :: "'fs nxfs \<Rightarrow> 'fs \<Rightarrow> string \<times> 'fs" where
  "storage_init F fs =
     (let base_path = ''/config/kdeconnect''
      in (base_path, make_directories F (base_path @ ''/paired'') fs))"

section \<open>Whole files\<close>

definition read_step :: "nat \<Rightarrow> nat" where
  "read_step remaining = min remaining 0x1000"

definition write_step :: "nat \<Rightarrow> nat" where
  "write_step remaining = min remaining 0x400"

text \<open>The transfers of the storage code move something, and never more than what is left.\<close>

interpretation rd: chunked read_step
  by unfold_locales (auto simp: read_step_def)

interpretation wr: chunked write_step
  by unfold_locales (auto simp: write_step_def)

text \<open>
  The service returns at least one byte or the loop gives up, so \<open>remaining\<close> decreases. It may
  return more than was asked only if it breaks its contract; \<open>remaining\<close> is then negative and the
  loop ends, as the subtraction on naturals models.
\<close>

function read_chunks :: "'fs nxfs \<Rightarrow> string \<Rightarrow> 'fs \<Rightarrow> nat \<Rightarrow> nat \<Rightarrow> string \<Rightarrow> string" where
  "read_chunks F path fs offset remaining out =
     (if remaining = 0 then out
      else case fs_read F path offset (read_step remaining) fs of
             None \<Rightarrow> []
           | Some bytes \<Rightarrow>
               if bytes = [] then []
               else read_chunks F path fs (offset + length bytes) (remaining - length bytes) (out @ bytes))"
  by auto

termination
  by (relation "measure (\<lambda>(F, path, fs, offset, remaining, out). remaining)") auto

declare read_chunks.simps [simp del]

definition read_file :: "'fs nxfs \<Rightarrow> string \<Rightarrow> 'fs \<Rightarrow> string" where
  "read_file F path fs =
     (if \<not> fs_device F \<or> fs_max_path F \<le> length path then []
      else
        (let path_buf = c_str path
         in if \<not> fs_open F path_buf fs then []
            else case fs_get_size F path_buf fs of
                   None \<Rightarrow> []
                 | Some sz \<Rightarrow>
                     if sz \<le> 0 then [] else read_chunks F path_buf fs 0 (nat sz) []))"

function write_chunks ::
    "'fs nxfs \<Rightarrow> string \<Rightarrow> nat \<Rightarrow> string \<Rightarrow> 'fs \<Rightarrow> bool \<times> 'fs" where
  "write_chunks F path offset src fs =
     (if src = [] then (True, fs)
      else
        (let to_write = write_step (length src)
         in case fs_write F path offset (take to_write src) fs of
              None \<Rightarrow> (False, fs)
            | Some fs \<Rightarrow> write_chunks F path (offset + to_write) (drop to_write src) fs))"
  by auto

termination
  by (relation "measure (\<lambda>(F, path, offset, src, fs). length src)")
    (auto simp: write_step_def)

declare write_chunks.simps [simp del]

definition parent_dir :: "string \<Rightarrow> string option" where
  "parent_dir path = map_option (\<lambda>slash. take slash path) (rfind_if (\<lambda>c. c = CHR ''/'') path)"

definition write_file :: "'fs nxfs \<Rightarrow> string \<Rightarrow> string \<Rightarrow> 'fs \<Rightarrow> bool \<times> 'fs" where
  "write_file F path data fs =
     (if \<not> fs_device F then (False, fs)
      else
        (let fs = (case parent_dir path of Some d \<Rightarrow> make_directories F d fs | None \<Rightarrow> fs)
         in if fs_max_path F \<le> length path then (False, fs)
            else
              (let path_buf = c_str path;
                   fs = fs_create F path_buf (length data) fs
               in if \<not> fs_open F path_buf fs then (False, fs)
                  else case fs_set_size F path_buf (length data) fs of
                         None \<Rightarrow> (False, fs)
                       | Some fs \<Rightarrow> write_chunks F path_buf 0 data fs)))"

definition file_exists :: "'fs nxfs \<Rightarrow> string \<Rightarrow> 'fs \<Rightarrow> bool" where
  "file_exists F path fs = fs_exists F (c_str path) fs"

section \<open>Paired devices\<close>

record paired_device_info =
  pd_info :: device_info
  certificate_pem :: string

definition load_paired_device ::
    "yyjson \<Rightarrow> 'fs nxfs \<Rightarrow> string \<Rightarrow> string \<Rightarrow> 'fs \<Rightarrow> paired_device_info option" where
  "load_paired_device Y F base device_id fs =
     (let path = paired_path base device_id
      in if \<not> fs_exists F (c_str path) fs then None
         else
           (let content = read_file F path fs
            in if content = [] then None
               else
                 (let data = jb_parse Y content
                  in if \<not> jb_has Y data ''deviceId'' \<or> \<not> jb_has Y data ''certificatePem'' then None
                     else Some
                       \<lparr>pd_info =
                          \<lparr>di_id = jb_value_str Y data ''deviceId'' device_id,
                           di_name = jb_value_str Y data ''deviceName'' ''unknown'',
                           di_type = jb_value_str Y data ''deviceType'' ''desktop'',
                           protocol_version = jb_value_int Y data ''protocolVersion'' kProtocolVersion,
                           incoming_capabilities = [], outgoing_capabilities = []\<rparr>,
                        certificate_pem = jb_value_str Y data ''certificatePem'' []\<rparr>)))"

definition list_paired_device_ids :: "'fs nxfs \<Rightarrow> string \<Rightarrow> 'fs \<Rightarrow> string list" where
  "list_paired_device_ids F base fs =
     (case fs_list F (c_str (base @ ''/paired'')) fs of
        None \<Rightarrow> []
      | Some names \<Rightarrow> map path_stem (filter (\<lambda>name. ends_with name ''.json'') names))"

definition paired_record :: "yyjson \<Rightarrow> device_info \<Rightarrow> string \<Rightarrow> json_body" where
  "paired_record Y info cert_pem =
     set_str Y ''certificatePem'' cert_pem
       (set_int Y ''protocolVersion'' (protocol_version info)
         (set_str Y ''deviceType'' (di_type info)
           (set_str Y ''deviceName'' (di_name info)
             (set_str Y ''deviceId'' (di_id info) jb_empty))))"

definition save_paired_device ::
    "yyjson \<Rightarrow> 'fs nxfs \<Rightarrow> string \<Rightarrow> device_info \<Rightarrow> string \<Rightarrow> 'fs \<Rightarrow> 'fs" where
  "save_paired_device Y F base info cert_pem fs =
     snd (write_file F (paired_path base (di_id info))
            (jb_dump_indent Y 2 (paired_record Y info cert_pem)) fs)"

definition remove_paired_device :: "'fs nxfs \<Rightarrow> string \<Rightarrow> string \<Rightarrow> 'fs \<Rightarrow> 'fs" where
  "remove_paired_device F base device_id fs =
     (let path = paired_path base device_id
      in if fs_exists F (c_str path) fs then fs_remove F (c_str path) fs else fs)"

text \<open>The capability lists come from the plugin registry, an argument here.\<close>

definition load_or_create_local_device :: "string \<Rightarrow> string list \<Rightarrow> string list \<Rightarrow> device_info" where
  "load_or_create_local_device hostname supported outgoing =
     \<lparr>di_id = [], di_name = hostname, di_type = ''tablet'', protocol_version = kProtocolVersion,
      incoming_capabilities = supported @ [Pair_type], outgoing_capabilities = outgoing @ [Pair_type]\<rparr>"

section \<open>Documented behaviour of the file services\<close>

definition overwrite :: "string \<Rightarrow> nat \<Rightarrow> string \<Rightarrow> string" where
  "overwrite s off d = take off s @ d @ drop (off + length d) s"

text \<open>
  A file that can be opened exists; a file that is created has the size asked for; a size is the length; \<open>SetSize\<close> gives the length asked for;
  a write inside the file replaces that range; a read returns between one byte and what was
  asked, from the offset. No call changes any other file.
\<close>

definition nxfs_ok :: "'fs nxfs \<Rightarrow> ('fs \<Rightarrow> string \<Rightarrow> string option) \<Rightarrow> bool" where
  "nxfs_ok F C \<longleftrightarrow>
     (\<forall>p fs. fs_exists F p fs \<longleftrightarrow> C fs p \<noteq> None) \<and>
     (\<forall>p fs. fs_open F p fs \<longrightarrow> C fs p \<noteq> None) \<and>
     (\<forall>p n fs q. q \<noteq> p \<longrightarrow> C (fs_create F p n fs) q = C fs q) \<and>
     (\<forall>p n fs s. C fs p = None \<longrightarrow> C (fs_create F p n fs) p = Some s \<longrightarrow> length s = n) \<and>
     (\<forall>p fs q. C (fs_mkdir F p fs) q = C fs q) \<and>
     (\<forall>p fs q. C (fs_remove F p fs) q = (if q = p then None else C fs q)) \<and>
     (\<forall>p n fs fs'. fs_set_size F p n fs = Some fs' \<longrightarrow>
        (\<exists>s. C fs' p = Some s \<and> length s = n) \<and> (\<forall>q. q \<noteq> p \<longrightarrow> C fs' q = C fs q)) \<and>
     (\<forall>p off d fs fs' s. fs_write F p off d fs = Some fs' \<longrightarrow> C fs p = Some s \<longrightarrow>
        off + length d \<le> length s \<longrightarrow>
        C fs' p = Some (overwrite s off d) \<and> (\<forall>q. q \<noteq> p \<longrightarrow> C fs' q = C fs q)) \<and>
     (\<forall>p fs n. fs_get_size F p fs = Some n \<longrightarrow> (\<exists>s. C fs p = Some s \<and> n = int (length s))) \<and>
     (\<forall>p off n fs b. fs_read F p off n fs = Some b \<longrightarrow>
        (\<exists>s. C fs p = Some s \<and> length b \<le> n \<and> b = take (length b) (drop off s)))"

text \<open>The services do not fail: the card is present and every existing file can be used.\<close>

definition nxfs_up :: "'fs nxfs \<Rightarrow> ('fs \<Rightarrow> string \<Rightarrow> string option) \<Rightarrow> bool" where
  "nxfs_up F C \<longleftrightarrow> fs_device F \<and>
     (\<forall>p fs. C fs p \<noteq> None \<longrightarrow> fs_open F p fs \<and> fs_get_size F p fs \<noteq> None \<and> (\<forall>n. fs_set_size F p n fs \<noteq> None)) \<and>
     (\<forall>p n fs. C (fs_create F p n fs) p \<noteq> None) \<and>
     (\<forall>p off d fs s. C fs p = Some s \<longrightarrow> off + length d \<le> length s \<longrightarrow> fs_write F p off d fs \<noteq> None) \<and>
     (\<forall>p off n fs s. C fs p = Some s \<longrightarrow> 0 < n \<longrightarrow> off < length s \<longrightarrow>
        (\<exists>b. fs_read F p off n fs = Some b \<and> b \<noteq> []))"

lemma nxfs_okD:
  assumes "nxfs_ok F C"
  shows "fs_exists F p fs \<longleftrightarrow> C fs p \<noteq> None"
    and "fs_open F p fs \<Longrightarrow> C fs p \<noteq> None"
    and "q \<noteq> p \<Longrightarrow> C (fs_create F p n fs) q = C fs q"
    and "C (fs_mkdir F p fs) q = C fs q"
    and "C (fs_remove F p fs) q = (if q = p then None else C fs q)"
    and "fs_set_size F p n fs = Some fs' \<Longrightarrow>
          (\<exists>s. C fs' p = Some s \<and> length s = n) \<and> (\<forall>q. q \<noteq> p \<longrightarrow> C fs' q = C fs q)"
    and "fs_write F p off d fs = Some fs' \<Longrightarrow> C fs p = Some s \<Longrightarrow> off + length d \<le> length s \<Longrightarrow>
          C fs' p = Some (overwrite s off d) \<and> (\<forall>q. q \<noteq> p \<longrightarrow> C fs' q = C fs q)"
    and "fs_get_size F p fs = Some k \<Longrightarrow> \<exists>s. C fs p = Some s \<and> k = int (length s)"
    and "fs_read F p off n fs = Some b \<Longrightarrow>
          \<exists>s. C fs p = Some s \<and> length b \<le> n \<and> b = take (length b) (drop off s)"
    and "C fs p = None \<Longrightarrow> C (fs_create F p n fs) p = Some s \<Longrightarrow> length s = n"
proof -
  note a = assms [unfolded nxfs_ok_def]
  note c1 = a [THEN conjunct1, rule_format]
  note c2 = a [THEN conjunct2, THEN conjunct1, rule_format]
  note c3 = a [THEN conjunct2, THEN conjunct2, THEN conjunct1, rule_format]
  note c4 = a [THEN conjunct2, THEN conjunct2, THEN conjunct2, THEN conjunct2, THEN conjunct1, rule_format]
  note c5 = a [THEN conjunct2, THEN conjunct2, THEN conjunct2, THEN conjunct2, THEN conjunct2, THEN conjunct1, rule_format]
  note c6 = a [THEN conjunct2, THEN conjunct2, THEN conjunct2, THEN conjunct2, THEN conjunct2, THEN conjunct2, THEN conjunct1, rule_format]
  note c7 = a [THEN conjunct2, THEN conjunct2, THEN conjunct2, THEN conjunct2, THEN conjunct2, THEN conjunct2, THEN conjunct2, THEN conjunct1, rule_format]
  note c8 = a [THEN conjunct2, THEN conjunct2, THEN conjunct2, THEN conjunct2, THEN conjunct2, THEN conjunct2, THEN conjunct2, THEN conjunct2, THEN conjunct1, rule_format]
  note c9 = a [THEN conjunct2, THEN conjunct2, THEN conjunct2, THEN conjunct2, THEN conjunct2, THEN conjunct2, THEN conjunct2, THEN conjunct2, THEN conjunct2, rule_format]
  note c10 = a [THEN conjunct2, THEN conjunct2, THEN conjunct2, THEN conjunct1, rule_format]
  show "fs_exists F p fs \<longleftrightarrow> C fs p \<noteq> None"
    by (rule c1; assumption?)
  show "fs_open F p fs \<Longrightarrow> C fs p \<noteq> None"
    by (rule c2; assumption?)
  show "q \<noteq> p \<Longrightarrow> C (fs_create F p n fs) q = C fs q"
    by (rule c3; assumption?)
  show "C (fs_mkdir F p fs) q = C fs q"
    by (rule c4; assumption?)
  show "C (fs_remove F p fs) q = (if q = p then None else C fs q)"
    by (rule c5; assumption?)
  show "fs_set_size F p n fs = Some fs' \<Longrightarrow>
          (\<exists>s. C fs' p = Some s \<and> length s = n) \<and> (\<forall>q. q \<noteq> p \<longrightarrow> C fs' q = C fs q)"
    by (rule c6; assumption?)
  show "fs_write F p off d fs = Some fs' \<Longrightarrow> C fs p = Some s \<Longrightarrow> off + length d \<le> length s \<Longrightarrow>
          C fs' p = Some (overwrite s off d) \<and> (\<forall>q. q \<noteq> p \<longrightarrow> C fs' q = C fs q)"
    by (rule c7; assumption?)
  show "fs_get_size F p fs = Some k \<Longrightarrow> \<exists>s. C fs p = Some s \<and> k = int (length s)"
    by (rule c8; assumption?)
  show "fs_read F p off n fs = Some b \<Longrightarrow>
          \<exists>s. C fs p = Some s \<and> length b \<le> n \<and> b = take (length b) (drop off s)"
    by (rule c9; assumption?)
  show "C fs p = None \<Longrightarrow> C (fs_create F p n fs) p = Some s \<Longrightarrow> length s = n"
    by (rule c10; assumption?)
qed

lemma nxfs_upD:
  assumes "nxfs_up F C"
  shows "fs_device F"
    and "C fs p = Some s \<Longrightarrow> fs_open F p fs"
    and "C fs p = Some s \<Longrightarrow> \<exists>k. fs_get_size F p fs = Some k"
    and "C fs p = Some s \<Longrightarrow> \<exists>fs'. fs_set_size F p n fs = Some fs'"
    and "\<exists>s. C (fs_create F p n fs) p = Some s"
    and "C fs p = Some s \<Longrightarrow> off + length d \<le> length s \<Longrightarrow> \<exists>fs'. fs_write F p off d fs = Some fs'"
    and "C fs p = Some s \<Longrightarrow> 0 < n \<Longrightarrow> off < length s \<Longrightarrow> \<exists>b. fs_read F p off n fs = Some b \<and> b \<noteq> []"
  using assms unfolding nxfs_up_def by (elim conjE; (simp | metis not_None_eq))+

section \<open>Whole files: lemmas\<close>

lemma make_directories_same: "nxfs_ok F C \<Longrightarrow> C (make_directories F path fs) q = C fs q"
proof -
  assume F: "nxfs_ok F C"
  have "C (fold (fs_mkdir F) ds fs) q = C fs q" for ds
    by (induction ds arbitrary: fs) (simp_all add: nxfs_okD(4) [OF F])
  then show ?thesis by (simp only: make_directories_def Let_def)
qed

lemma overwrite_after: "length s = off + length d + r \<Longrightarrow> take (off + length d) (overwrite s off d) = take off s @ d"
  by (simp add: overwrite_def)

lemma length_overwrite: "off + length d \<le> length s \<Longrightarrow> length (overwrite s off d) = length s"
  by (simp add: overwrite_def)

lemma write_chunks_Nil [simp]: "write_chunks F p off [] fs = (True, fs)"
  by (simp add: write_chunks.simps)

lemma write_chunks_spec:
  assumes F: "nxfs_ok F C" and w: "write_chunks F p off src fs = (r, fs')"
    and s: "C fs p = Some s" "length s = off + length src"
  shows "(\<forall>q. q \<noteq> p \<longrightarrow> C fs' q = C fs q) \<and> (r \<longrightarrow> C fs' p = Some (take off s @ src))"
  using w s
proof (induction "length src" arbitrary: off src fs s rule: less_induct)
  case (less src off fs s)
  show ?case
  proof (cases "src = []")
    case True
    then show ?thesis using less.prems by auto
  next
    case False
    define k where "k = write_step (length src)"
    have k: "0 < k" "k \<le> length src" using wr.step_pos wr.step_le False by (auto simp: k_def)
    show ?thesis
    proof (cases "fs_write F p off (take k src) fs")
      case None
      then show ?thesis
        using less.prems False by (auto simp: write_chunks.simps [of F p off src fs] k_def Let_def)
    next
      case (Some fs1)
      then have fs1: "C fs1 p = Some (overwrite s off (take k src))" "\<forall>q. q \<noteq> p \<longrightarrow> C fs1 q = C fs q"
        using nxfs_okD(7) [OF F Some less.prems(2)] less.prems(3) k by auto
      have w1: "write_chunks F p (off + k) (drop k src) fs1 = (r, fs')"
        using less.prems(1) False Some by (simp add: write_chunks.simps [of F p off src fs] k_def Let_def)
      have len: "length (overwrite s off (take k src)) = off + k + length (drop k src)"
        using length_overwrite [of off "take k src" s] less.prems(3) k by simp
      have pre: "take (off + k) (overwrite s off (take k src)) = take off s @ take k src"
        using overwrite_after [of s off "take k src" "length src - k"] less.prems(3) k by simp
      from less.hyps [OF _ w1 fs1(1) len] k pre fs1(2) show ?thesis by simp
    qed
  qed
qed

lemma write_chunks_up:
  assumes F: "nxfs_ok F C" "nxfs_up F C" and s: "C fs p = Some s" "length s = off + length src"
  shows "fst (write_chunks F p off src fs)"
  using s
proof (induction "length src" arbitrary: off src fs s rule: less_induct)
  case (less src off fs s)
  show ?case
  proof (cases "src = []")
    case False
    define k where "k = write_step (length src)"
    have k: "0 < k" "k \<le> length src" using wr.step_pos wr.step_le False by (auto simp: k_def)
    obtain fs1 where fs1: "fs_write F p off (take k src) fs = Some fs1"
      using nxfs_upD(6) [OF F(2) less.prems(1), of off "take k src"] less.prems(2) k by auto
    then have c: "C fs1 p = Some (overwrite s off (take k src))"
      using nxfs_okD(7) [OF F(1) fs1 less.prems(1)] less.prems(2) k by auto
    have "length (overwrite s off (take k src)) = off + k + length (drop k src)"
      using length_overwrite [of off "take k src" s] less.prems(2) k by simp
    from less.hyps [OF _ c this] k False fs1 show ?thesis
      by (simp add: write_chunks.simps [of F p off src fs] k_def Let_def)
  qed simp
qed

lemma read_chunks_spec:
  assumes F: "nxfs_ok F C" and s: "C fs p = Some s"
  shows "off + r = length s \<Longrightarrow> out = take off s \<Longrightarrow>
     read_chunks F p fs off r out = [] \<or> read_chunks F p fs off r out = s"
proof (induction r arbitrary: off out rule: less_induct)
  case (less r off out)
  show ?case
  proof (cases "r = 0")
    case True
    then show ?thesis using less.prems by (simp add: read_chunks.simps)
  next
    case False
    show ?thesis
    proof (cases "fs_read F p off (read_step r) fs")
      case None
      then show ?thesis using False by (simp add: read_chunks.simps [of F p fs off r out])
    next
      case (Some b)
      have len: "length b \<le> read_step r" and b: "b = take (length b) (drop off s)"
        using nxfs_okD(9) [OF F Some] s by auto
      have le: "length b \<le> r" using len rd.step_le [of r] False by simp
      have "out @ b = take (off + length b) s"
        using less.prems b by (metis take_add)
      then have "b \<noteq> [] \<Longrightarrow> read_chunks F p fs (off + length b) (r - length b) (out @ b) = [] \<or>
          read_chunks F p fs (off + length b) (r - length b) (out @ b) = s"
        using less.IH [of "r - length b" "off + length b"] le less.prems(1) False by simp
      then show ?thesis using False Some by (simp add: read_chunks.simps [of F p fs off r out])
    qed
  qed
qed

lemma read_chunks_up:
  assumes F: "nxfs_ok F C" "nxfs_up F C" and s: "C fs p = Some s"
  shows "off + r = length s \<Longrightarrow> out = take off s \<Longrightarrow> read_chunks F p fs off r out = s"
proof (induction r arbitrary: off out rule: less_induct)
  case (less r off out)
  show ?case
  proof (cases "r = 0")
    case True
    then show ?thesis using less.prems by (simp add: read_chunks.simps)
  next
    case False
    have "0 < read_step r" using rd.step_pos False by simp
    then obtain b where b1: "fs_read F p off (read_step r) fs = Some b" "b \<noteq> []"
      using nxfs_upD(7) [OF F(2) s, of "read_step r" off] less.prems False by auto
    have len: "length b \<le> read_step r" and b: "b = take (length b) (drop off s)"
      using nxfs_okD(9) [OF F(1) b1(1)] s by auto
    have le: "length b \<le> r" using len rd.step_le [of r] False by simp
    have "out @ b = take (off + length b) s"
      using less.prems b by (metis take_add)
    then have "read_chunks F p fs (off + length b) (r - length b) (out @ b) = s"
      using less.IH [of "r - length b" "off + length b"] le less.prems(1) False b1 by simp
    then show ?thesis using False b1 by (simp add: read_chunks.simps [of F p fs off r out])
  qed
qed

lemma read_file_content:
  assumes "nxfs_ok F C" "nxfs_up F C" "C fs (c_str p) = Some s" "length p < fs_max_path F"
  shows "read_file F p fs = s"
proof -
  obtain k where k: "fs_get_size F (c_str p) fs = Some k" "k = int (length s)"
    using nxfs_upD(3) [OF assms(2,3)] nxfs_okD(8) [OF assms(1)] assms(3) by fastforce
  have op: "fs_open F (c_str p) fs" "fs_device F"
    using nxfs_upD(1,2) [OF assms(2)] assms(3) by auto
  show ?thesis
  proof (cases "s = []")
    case True
    then show ?thesis using k op assms(4) by (simp add: read_file_def)
  next
    case False
    then show ?thesis
      using k op assms(4) read_chunks_up [OF assms(1-3), of 0 "length s" "[]"]
      by (simp add: read_file_def Let_def)
  qed
qed

text \<open>Without the availability assumption a read gives all of the file or nothing.\<close>

lemma read_file_all_or_nothing:
  assumes "nxfs_ok F C"
  shows "read_file F p fs = [] \<or> C fs (c_str p) = Some (read_file F p fs)"
proof (cases "\<not> fs_device F \<or> fs_max_path F \<le> length p \<or> \<not> fs_open F (c_str p) fs \<or>
    fs_get_size F (c_str p) fs = None")
  case True
  then show ?thesis by (auto simp: read_file_def Let_def)
next
  case False
  then obtain k s where k: "fs_get_size F (c_str p) fs = Some k" "C fs (c_str p) = Some s" "k = int (length s)"
    using nxfs_okD(8) [OF assms] by fastforce
  then show ?thesis
    using False read_chunks_spec [OF assms k(2), of 0 "length s" "[]"]
    by (auto simp: read_file_def Let_def)
qed

lemma write_file_spec:
  assumes F: "nxfs_ok F C" and w: "write_file F p data fs = (r, fs')"
  shows "(\<forall>q. q \<noteq> c_str p \<longrightarrow> C fs' q = C fs q) \<and> (r \<longrightarrow> C fs' (c_str p) = Some data)"
proof -
  define fs1 where "fs1 = (case parent_dir p of Some d \<Rightarrow> make_directories F d fs | None \<Rightarrow> fs)"
  have c1: "C fs1 q = C fs q" for q
    by (simp add: fs1_def make_directories_same [OF F] split: option.split)
  define fs2 where "fs2 = fs_create F (c_str p) (length data) fs1"
  have c2: "q \<noteq> c_str p \<Longrightarrow> C fs2 q = C fs q" for q
    by (simp add: fs2_def nxfs_okD(3) [OF F] c1)
  show ?thesis
  proof (cases "fs_device F \<and> length p < fs_max_path F \<and> fs_open F (c_str p) fs2")
    case False
    then have "r = False \<and> (fs' = fs \<or> fs' = fs1 \<or> fs' = fs2)"
      using w by (auto simp: write_file_def Let_def fs1_def fs2_def split: if_splits)
    then show ?thesis using c1 c2 by auto
  next
    case True
    show ?thesis
    proof (cases "fs_set_size F (c_str p) (length data) fs2")
      case None
      then show ?thesis
        using w True c2 by (auto simp: write_file_def Let_def fs1_def fs2_def split: option.splits)
    next
      case (Some fs3)
      obtain s where s: "C fs3 (c_str p) = Some s" "length s = length data"
        and c3: "\<And>q. q \<noteq> c_str p \<Longrightarrow> C fs3 q = C fs q"
        using nxfs_okD(6) [OF F Some] c2 by auto
      have "write_chunks F (c_str p) 0 data fs3 = (r, fs')"
        using w True Some by (simp add: write_file_def Let_def fs1_def fs2_def)
      from write_chunks_spec [OF F this s(1)] s(2) c3 show ?thesis by simp
    qed
  qed
qed

lemma write_file_up:
  assumes "nxfs_ok F C" "nxfs_up F C" "length p < fs_max_path F"
  shows "fst (write_file F p data fs)"
proof -
  define fs1 where "fs1 = (case parent_dir p of Some d \<Rightarrow> make_directories F d fs | None \<Rightarrow> fs)"
  define fs2 where "fs2 = fs_create F (c_str p) (length data) fs1"
  obtain s2 where s2: "C fs2 (c_str p) = Some s2"
    using nxfs_upD(5) [OF assms(2)] unfolding fs2_def by blast
  obtain fs3 where fs3: "fs_set_size F (c_str p) (length data) fs2 = Some fs3"
    using nxfs_upD(4) [OF assms(2) s2] by blast
  then obtain s where s: "C fs3 (c_str p) = Some s" "length s = length data"
    using nxfs_okD(6) [OF assms(1) fs3] by blast
  have "fst (write_chunks F (c_str p) 0 data fs3)"
    using write_chunks_up [OF assms(1,2) s(1)] s(2) by simp
  then show ?thesis
    using fs3 nxfs_upD(1,2) [OF assms(2)] s2 assms(3)
    by (simp add: write_file_def Let_def fs1_def [symmetric] fs2_def [symmetric])
qed

section \<open>Paths: lemmas\<close>

lemma rfind_if_append_last:
  "P c \<Longrightarrow> \<forall>x \<in> set ys. \<not> P x \<Longrightarrow> rfind_if P (xs @ c # ys) = Some (length xs)"
  using rfind_if_None [of P ys] by (simp add: rfind_if_append)

lemma path_stem_json: "CHR ''/'' \<notin> set device_id \<Longrightarrow> path_stem (device_id @ ''.json'') = device_id"
proof -
  assume "CHR ''/'' \<notin> set device_id"
  then have "rfind_if (\<lambda>c. c = CHR ''/'') (device_id @ ''.json'') = None"
    by (auto simp: rfind_if_None)
  moreover have "rfind_if (\<lambda>c. c = CHR ''.'') (device_id @ CHR ''.'' # ''json'') = Some (length device_id)"
    by (rule rfind_if_append_last) auto
  ultimately show ?thesis by (simp add: path_stem_def)
qed

lemma paired_path_inject [simp]: "paired_path base a = paired_path base b \<longleftrightarrow> a = b"
  by (simp add: paired_path_def)

lemma nul_free_paired_path [simp]: "nul_free (paired_path base k) \<longleftrightarrow> nul_free base \<and> nul_free k"
  by (auto simp: paired_path_def)

section \<open>Paired devices: lemmas\<close>

text \<open>The key of a device is addressable when its path is; a device is storable when its text is ASCII.\<close>

definition key_ok :: "'fs nxfs \<Rightarrow> string \<Rightarrow> string \<Rightarrow> bool" where
  "key_ok F base k \<longleftrightarrow> nul_free base \<and> nul_free k \<and> length (paired_path base k) < fs_max_path F"

definition device_ok :: "'fs nxfs \<Rightarrow> string \<Rightarrow> device_info \<Rightarrow> string \<Rightarrow> bool" where
  "device_ok F base i cert \<longleftrightarrow> key_ok F base (di_id i) \<and>
     ascii (di_id i) \<and> ascii (di_name i) \<and> ascii (di_type i) \<and> ascii cert"

definition stored_device :: "device_info \<Rightarrow> string \<Rightarrow> paired_device_info" where
  "stored_device i cert =
     \<lparr>pd_info = i\<lparr>incoming_capabilities := [], outgoing_capabilities := []\<rparr>, certificate_pem = cert\<rparr>"

lemma field_paired_record:
  assumes "yyjson_ok Y"
  shows "field Y (paired_record Y i cert) k =
     (if k = ''certificatePem'' then Some (JStr (c_str cert))
      else if k = ''protocolVersion'' then Some (JSint (scast (protocol_version i)))
      else if k = ''deviceType'' then Some (JStr (c_str (di_type i)))
      else if k = ''deviceName'' then Some (JStr (c_str (di_name i)))
      else if k = ''deviceId'' then Some (JStr (c_str (di_id i)))
      else None)"
  using assms by (simp add: paired_record_def field_set set_obj)

lemma paired_record_ok:
  assumes "yyjson_ok Y" "device_ok F base i cert"
  shows "is_jobj (paired_record Y i cert)" "j_plain (paired_record Y i cert)"
  using assms unfolding paired_record_def device_ok_def
  by (auto simp: set_obj ascii_char_def intro!: j_plain_set)

lemma load_depends:
  assumes "nxfs_ok F C" "nxfs_up F C" "key_ok F base k"
    and "C fs (paired_path base k) = C fs' (paired_path base k)"
  shows "load_paired_device Y F base k fs = load_paired_device Y F base k fs'"
proof (cases "C fs (paired_path base k)")
  case None
  then show ?thesis
    using assms nxfs_okD(1) [OF assms(1)] by (simp add: load_paired_device_def key_ok_def)
next
  case (Some s)
  then have "read_file F (paired_path base k) fs = s" "read_file F (paired_path base k) fs' = s"
    using assms read_file_content [OF assms(1,2)] by (auto simp: key_ok_def)
  then show ?thesis
    using Some assms nxfs_okD(1) [OF assms(1)] by (simp add: load_paired_device_def Let_def key_ok_def)
qed

lemma content_save:
  assumes "nxfs_ok F C" "nxfs_up F C" "device_ok F base i cert"
  shows "C (save_paired_device Y F base i cert fs) q =
    (if q = paired_path base (di_id i) then Some (jb_dump_indent Y 2 (paired_record Y i cert)) else C fs q)"
proof -
  let ?d = "jb_dump_indent Y 2 (paired_record Y i cert)"
  obtain r fs' where w: "write_file F (paired_path base (di_id i)) ?d fs = (r, fs')" by fastforce
  have k: "key_ok F base (di_id i)" using assms(3) by (simp add: device_ok_def)
  then have "r" using write_file_up [OF assms(1,2), of "paired_path base (di_id i)" ?d fs] w
    by (simp add: key_ok_def)
  then show ?thesis
    using write_file_spec [OF assms(1) w] w k by (simp add: save_paired_device_def key_ok_def)
qed

lemma load_saved:
  assumes Y: "yyjson_ok Y" and F: "nxfs_ok F C" "nxfs_up F C" and d: "device_ok F base i cert"
    and c: "C fs (paired_path base (di_id i)) = Some (jb_dump_indent Y 2 (paired_record Y i cert))"
  shows "load_paired_device Y F base (di_id i) fs = Some (stored_device i cert)"
proof -
  let ?r = "paired_record Y i cert"
  have k: "nul_free base" "nul_free (di_id i)" "length (paired_path base (di_id i)) < fs_max_path F"
    using d by (auto simp: device_ok_def key_ok_def)
  have rd: "read_file F (paired_path base (di_id i)) fs = jb_dump_indent Y 2 ?r"
    using read_file_content [OF F] c k by simp
  obtain t where t: "yy_write Y (0 < sint (2 :: i32)) ?r = Some t" "t \<noteq> []"
    using yy_writeE [OF Y paired_record_ok(2) [OF Y d]] by metis
  then have ne: "jb_dump_indent Y 2 ?r \<noteq> []" by (simp add: jb_dump_indent_def)
  have pd: "jb_parse Y (jb_dump_indent Y 2 ?r) = j_norm ?r"
    by (rule jb_parse_dump(2) [OF Y paired_record_ok(2,1) [OF Y d]])
  have s: "c_str (di_id i) = di_id i" "c_str (di_name i) = di_name i" "c_str (di_type i) = di_type i"
    "c_str cert = cert"
    using d ascii_nul_free by (auto simp: device_ok_def)
  note f = field_norm [OF Y] field_paired_record [OF Y]
  have v: "jb_has Y (j_norm ?r) ''deviceId''" "jb_has Y (j_norm ?r) ''certificatePem''"
    "jb_value_str Y (j_norm ?r) ''deviceId'' d1 = di_id i"
    "jb_value_str Y (j_norm ?r) ''deviceName'' d2 = di_name i"
    "jb_value_str Y (j_norm ?r) ''deviceType'' d3 = di_type i"
    "jb_value_str Y (j_norm ?r) ''certificatePem'' d4 = cert"
    "jb_value_int Y (j_norm ?r) ''protocolVersion'' d5 = protocol_version i" for d1 d2 d3 d4 d5
    using Y by (simp_all add: jb_defs f s yy_get_int_JSint yy_get_int_JUint)
  show ?thesis
    using rd ne k c nxfs_okD(1) [OF F(1)]
    by (simp add: load_paired_device_def Let_def pd v stored_device_def)
qed

lemma load_save:
  assumes "yyjson_ok Y" "nxfs_ok F C" "nxfs_up F C" "device_ok F base i cert" "key_ok F base k"
  shows "load_paired_device Y F base k (save_paired_device Y F base i cert fs) =
    (if k = di_id i then Some (stored_device i cert) else load_paired_device Y F base k fs)"
proof (cases "k = di_id i")
  case True
  then show ?thesis
    using load_saved [OF assms(1-4)] content_save [OF assms(2-4)] by simp
next
  case False
  then show ?thesis
    using load_depends [OF assms(2,3,5), of "save_paired_device Y F base i cert fs" fs Y]
      content_save [OF assms(2-4)] by simp
qed

lemma content_remove:
  "nxfs_ok F C \<Longrightarrow> C (remove_paired_device F base l fs) q = (if q = c_str (paired_path base l) then None else C fs q)"
  using nxfs_okD(1,5) [of F C] by (auto simp: remove_paired_device_def Let_def)

lemma load_remove:
  assumes "nxfs_ok F C" "nxfs_up F C" "key_ok F base k" "key_ok F base l"
  shows "load_paired_device Y F base k (remove_paired_device F base l fs) =
    (if k = l then None else load_paired_device Y F base k fs)"
proof (cases "k = l")
  case True
  then have "\<not> fs_exists F (c_str (paired_path base k)) (remove_paired_device F base l fs)"
    using nxfs_okD(1) [OF assms(1)] content_remove [OF assms(1)] by simp
  then show ?thesis using True by (simp add: load_paired_device_def)
next
  case False
  then show ?thesis
    using load_depends [OF assms(1-3), of "remove_paired_device F base l fs" fs Y] assms(3,4)
      content_remove [OF assms(1)] by (simp add: key_ok_def)
qed

text \<open>The Switch's storage provides the store of paired devices.\<close>

type_synonym 'fs store_env = "yyjson \<times> 'fs nxfs \<times> ('fs \<Rightarrow> string \<Rightarrow> string option) \<times> string"

interpretation store: paired_store
  "\<lambda>(Y, F, C, base :: string). yyjson_ok Y \<and> nxfs_ok F C \<and> nxfs_up F C"
  "\<lambda>(Y :: yyjson, F, C :: 'fs \<Rightarrow> string \<Rightarrow> string option, base). key_ok F base"
  "\<lambda>(Y :: yyjson, F, C :: 'fs \<Rightarrow> string \<Rightarrow> string option, base). device_ok F base"
  di_id
  "\<lambda>(Y, F, C :: 'fs \<Rightarrow> string \<Rightarrow> string option, base). load_paired_device Y F base"
  "\<lambda>(Y, F, C :: 'fs \<Rightarrow> string \<Rightarrow> string option, base). save_paired_device Y F base"
  "\<lambda>(Y :: yyjson, F, C :: 'fs \<Rightarrow> string \<Rightarrow> string option, base). remove_paired_device F base"
  stored_device
  by unfold_locales (auto simp: load_save load_remove device_ok_def)

lemma listed_ids:
  assumes "fs_list F (c_str (base @ ''/paired'')) fs = Some names" "CHR ''/'' \<notin> set k"
    and "k @ ''.json'' \<in> set names"
  shows "k \<in> set (list_paired_device_ids F base fs)"
  using assms path_stem_json [OF assms(2)] by (force simp: list_paired_device_ids_def)

section \<open>A card that works\<close>

text \<open>The services on a map of files, to show that the assumptions can hold.\<close>

definition zero_bytes :: "nat \<Rightarrow> string" where
  "zero_bytes n = replicate n CHR 0x00"

definition nx_ref :: "(string \<rightharpoonup> string) nxfs" where
  "nx_ref = \<lparr>fs_device = True, fs_max_path = 0x301,
     fs_create = (\<lambda>p n fs. case fs p of None \<Rightarrow> fs(p \<mapsto> zero_bytes n) | Some _ \<Rightarrow> fs),
     fs_open = (\<lambda>p fs. fs p \<noteq> None),
     fs_get_size = (\<lambda>p fs. map_option (\<lambda>s. int (length s)) (fs p)),
     fs_set_size = (\<lambda>p n fs. map_option (\<lambda>s. fs(p \<mapsto> take n (s @ zero_bytes n))) (fs p)),
     fs_read = (\<lambda>p off n fs. map_option (\<lambda>s. take n (drop off s)) (fs p)),
     fs_write = (\<lambda>p off d fs. map_option (\<lambda>s. fs(p \<mapsto> overwrite s off d)) (fs p)),
     fs_exists = (\<lambda>p fs. fs p \<noteq> None), fs_remove = (\<lambda>p fs. fs(p := None)),
     fs_mkdir = (\<lambda>p fs. fs), fs_list = (\<lambda>p fs. None)\<rparr>"

lemma nxfs_ok_ref [simp]: "nxfs_ok nx_ref (\<lambda>fs. fs)"
  by (auto simp: nxfs_ok_def nx_ref_def zero_bytes_def min_def split: option.splits)

lemma nxfs_up_ref [simp]: "nxfs_up nx_ref (\<lambda>fs. fs)"
  by (auto simp: nxfs_up_def nx_ref_def zero_bytes_def split: option.splits)

lemma fs_max_path_ref [simp]: "fs_max_path nx_ref = 0x301"
  by (simp add: nx_ref_def)

section \<open>Properties\<close>

text \<open>
  What \<open>write_file\<close> stores \<open>read_file\<close> returns, through the 1 KiB and 4 KiB chunk loops and
  whatever the file held before, and no other file changes.
\<close>

theorem write_then_read:
  assumes "nxfs_ok F C" and "nxfs_up F C" and "nul_free path" and "length path < fs_max_path F"
  shows "fst (write_file F path data fs) \<and> read_file F path (snd (write_file F path data fs)) = data \<and>
    (\<forall>other. other \<noteq> path \<longrightarrow> C (snd (write_file F path data fs)) other = C fs other)"
proof -
  obtain r fs' where w: "write_file F path data fs = (r, fs')" by fastforce
  have "r" using write_file_up [OF assms(1,2,4), of data fs] w by simp
  with write_file_spec [OF assms(1) w] read_file_content [OF assms(1,2), of fs' path data] w assms(3,4)
  show ?thesis by simp
qed

theorem write_then_read_witness:
  "fst (write_file nx_ref ''/a/b'' ''hello'' [''/a/b'' \<mapsto> ''longer than that'']) \<and>
   read_file nx_ref ''/a/b'' (snd (write_file nx_ref ''/a/b'' ''hello'' [''/a/b'' \<mapsto> ''longer than that''])) = ''hello'' \<and>
   (snd (write_file nx_ref ''/a/b'' ''hello'' [''/a/b'' \<mapsto> ''longer than that''])) ''/c'' = None"
  using write_then_read [OF nxfs_ok_ref nxfs_up_ref, of "''/a/b''" "''hello''" "[''/a/b'' \<mapsto> ''longer than that'']"]
  by simp

definition run_store_op ::
    "yyjson \<Rightarrow> 'fs nxfs \<Rightarrow> string \<Rightarrow> (device_info, string, string) store_op \<Rightarrow> 'fs \<Rightarrow> 'fs" where
  "run_store_op Y F base a fs =
     (case a of Save i cert \<Rightarrow> save_paired_device Y F base i cert fs
              | Remove k \<Rightarrow> remove_paired_device F base k fs)"

definition store_op_ok :: "'fs nxfs \<Rightarrow> string \<Rightarrow> (device_info, string, string) store_op \<Rightarrow> bool" where
  "store_op_ok F base a = (case a of Save i cert \<Rightarrow> device_ok F base i cert | Remove k \<Rightarrow> key_ok F base k)"

definition store_op_key :: "(device_info, string, string) store_op \<Rightarrow> string" where
  "store_op_key a = (case a of Save i cert \<Rightarrow> di_id i | Remove k \<Rightarrow> k)"

lemma store_apply [simp]:
  "store.apply_op (Y, F, C, base) = run_store_op Y F base"
  "store.op_ok (Y, F, C, base) = store_op_ok F base" "store.op_key = store_op_key"
  by (auto simp: fun_eq_iff run_store_op_def store_op_ok_def store_op_key_def split: store_op.split)

text \<open>
  The pairing a device finds after a restart is the last one it made: after any saves and
  removals, followed by operations on other devices, \<open>load_paired_device\<close> returns the device and
  the certificate saved last under that id (the capability lists are not stored).
\<close>

theorem load_last_saved:
  assumes "yyjson_ok Y" and "nxfs_ok F C" and "nxfs_up F C" and "device_ok F base i cert"
    and "list_all (store_op_ok F base) later" and "di_id i \<notin> store_op_key ` set later"
  shows "load_paired_device Y F base (di_id i)
      (fold (run_store_op Y F base) (earlier @ Save i cert # later) fs) =
    Some \<lparr>pd_info = i\<lparr>incoming_capabilities := [], outgoing_capabilities := []\<rparr>, certificate_pem = cert\<rparr>"
  using store.load_last_op [of "(Y, F, C, base)" "Save i cert" later earlier fs] assms
  by (simp add: stored_device_def device_ok_def store_op_ok_def store_op_key_def)

theorem load_last_saved_witness:
  "load_paired_device yy_ref nx_ref ''/c'' (di_id sample_info)
     (fold (run_store_op yy_ref nx_ref ''/c'')
        ([Remove ''a1''] @ Save sample_info ''PEM'' # [Remove ''b2'', Save (sample_info\<lparr>di_id := ''c3''\<rparr>) ''X'']) Map.empty) =
   Some \<lparr>pd_info = sample_info\<lparr>incoming_capabilities := [], outgoing_capabilities := []\<rparr>, certificate_pem = ''PEM''\<rparr>"
  by (rule load_last_saved [OF yyjson_ok_ref nxfs_ok_ref nxfs_up_ref])
    (simp_all add: device_ok_def key_ok_def store_op_ok_def store_op_key_def sample_info_def
      paired_path_def ascii_char_def)

end
