(* ===== verification/Tls.thy ===== *)
theory Tls
  imports Storage
begin

text \<open>
  \<open>sysmodule/src/net/tls.cpp\<close>: the local certificate and key, the device id kept in the
  certificate's subject, the TLS sessions and the fingerprint text. mbedtls is a record of the
  functions the file calls, with \<open>None\<close> for an error code; \<open>mbedtls_ok\<close> is what their
  documentation promises. A parse appends to the chain the context holds.
\<close>

unbundle bit_operations_syntax

record ('crt, 'key) mbedtls =
  x509_crt_parse :: "string \<Rightarrow> 'crt list option"
  pk_parse_key :: "string \<Rightarrow> 'key option"
  x509_subject :: "'crt \<Rightarrow> string"
  pk_setup_ok :: bool
  ecp_gen_key :: "'key option"
  set_subject_ok :: "string \<Rightarrow> bool"
  set_issuer_ok :: "string \<Rightarrow> bool"
  x509write_crt_pem :: "string \<Rightarrow> 'key \<Rightarrow> string option"
  pk_write_key_pem :: "'key \<Rightarrow> string option"
  pk_write_pubkey_der :: "'key \<Rightarrow> u8 list"
  crt_pubkey_der :: "'crt \<Rightarrow> u8 list"
  pem_write :: "'crt \<Rightarrow> string option"
  md_sha256 :: "u8 list \<Rightarrow> u8 list"

record ('crt, 'key) tls_context =
  ctx_cert :: "'crt list"
  ctx_key :: "'key option"
  cert_pem :: string
  ctx_device_id :: string

definition tls_context_init :: "('crt, 'key) tls_context" where
  "tls_context_init = \<lparr>ctx_cert = [], ctx_key = None, cert_pem = [], ctx_device_id = []\<rparr>"

section \<open>Hexadecimal text\<close>

definition hex_digit :: "bool \<Rightarrow> nat \<Rightarrow> char" where
  "hex_digit upper d =
     (if d < 10 then char_of (48 + d) else if upper then char_of (55 + d) else char_of (87 + d))"

definition hex_byte :: "bool \<Rightarrow> u8 \<Rightarrow> string" where
  "hex_byte upper b = [hex_digit upper (unat (drop_bit 4 b AND 0xF)), hex_digit upper (unat (b AND 0xF))]"

definition generate_device_id :: "u8 list \<Rightarrow> string" where
  "generate_device_id bytes = concat (map (hex_byte False) bytes)"

definition sha256_hex_upper :: "('crt, 'key) mbedtls \<Rightarrow> u8 list \<Rightarrow> string" where
  "sha256_hex_upper M data = concat (map (hex_byte True) (md_sha256 M data))"

section \<open>Socket callbacks\<close>

datatype bio = BioBytes int | BioWantRead | BioCloseNotify | BioInternalError

definition socket_send :: "int \<Rightarrow> bio" where
  "socket_send sent = (if sent < 0 then BioInternalError else BioBytes sent)"

text \<open>\<open>again\<close>: \<open>errno\<close> is \<open>EAGAIN\<close> or \<open>EWOULDBLOCK\<close>.\<close>

definition socket_recv :: "int \<Rightarrow> bool \<Rightarrow> bio" where
  "socket_recv recvd again =
     (if recvd < 0 then (if again then BioWantRead else BioInternalError)
      else if recvd = 0 then BioCloseNotify
      else BioBytes recvd)"

section \<open>Sessions\<close>

datatype authmode = VerifyNone | VerifyOptional

record tls_session =
  ts_fd :: int
  ts_client :: bool
  ts_authmode :: authmode
  ts_min_version :: "nat \<times> nat"

definition create_session :: "bool \<Rightarrow> bool \<Rightarrow> int \<Rightarrow> bool \<Rightarrow> tls_session option" where
  "create_session defaults_ok setup_ok fd is_client =
     (if \<not> defaults_ok then None
      else if \<not> setup_ok then None
      else Some \<lparr>ts_fd = fd, ts_client = is_client,
                 ts_authmode = (if is_client then VerifyNone else VerifyOptional),
                 ts_min_version = (3, 3)\<rparr>)"

definition local_pubkey_bytes :: "('crt, 'key) mbedtls \<Rightarrow> ('crt, 'key) tls_context \<Rightarrow> u8 list" where
  "local_pubkey_bytes M ctx = (case ctx_key ctx of None \<Rightarrow> [] | Some k \<Rightarrow> pk_write_pubkey_der M k)"

text \<open>
  \<open>pem_write_buffer\<close> gives an empty vector when the text does not fit its 4096 bytes. Its
  \<open>data()\<close> is then a null pointer, from which \<open>std::string\<close> throws \<open>std::logic_error\<close>; nothing
  catches it. The outer \<open>None\<close> of \<open>peer_cert_pem\<close> is that exception.
\<close>

definition pem_write_buffer :: "('crt, 'key) mbedtls \<Rightarrow> 'crt \<Rightarrow> string" where
  "pem_write_buffer M c = (case pem_write M c of None \<Rightarrow> [] | Some out \<Rightarrow> out)"

definition peer_cert_pem :: "('crt, 'key) mbedtls \<Rightarrow> 'crt option \<Rightarrow> string option" where
  "peer_cert_pem M peer =
     (case peer of
        None \<Rightarrow> Some []
      | Some c \<Rightarrow> (let pem = pem_write_buffer M c in if pem = [] then None else Some (c_str pem)))"

definition peer_pubkey_bytes :: "('crt, 'key) mbedtls \<Rightarrow> 'crt option \<Rightarrow> u8 list" where
  "peer_pubkey_bytes M peer = (case peer of None \<Rightarrow> [] | Some c \<Rightarrow> crt_pubkey_der M c)"

section \<open>The local identity\<close>

text \<open>The id in a subject: what follows \<open>CN=\<close>, up to a comma.\<close>

definition subject_device_id :: "string \<Rightarrow> string option" where
  "subject_device_id subject =
     (case find_sub ''CN='' subject of
        None \<Rightarrow> None
      | Some pos \<Rightarrow>
          (let d = drop (pos + 3) subject
           in Some (case find_if (\<lambda>c. c = CHR '','') d of None \<Rightarrow> d | Some comma \<Rightarrow> take comma d)))"

text \<open>The subject of the first certificate of the chain; an empty context has an empty subject.\<close>

definition chain_subject :: "('crt, 'key) mbedtls \<Rightarrow> 'crt list \<Rightarrow> string" where
  "chain_subject M cs = (case cs of [] \<Rightarrow> [] | c # _ \<Rightarrow> c_str (x509_subject M c))"

definition load_from_files ::
    "('crt, 'key) mbedtls \<Rightarrow> 'fs nxfs \<Rightarrow> string \<Rightarrow> string \<Rightarrow> 'fs \<Rightarrow> ('crt, 'key) tls_context \<Rightarrow>
     bool \<times> ('crt, 'key) tls_context" where
  "load_from_files M F cpath kpath fs ctx =
     (let pem = read_file F cpath fs;
          key_pem = read_file F kpath fs
      in if pem = [] \<or> key_pem = [] then (False, ctx)
         else case x509_crt_parse M pem of
           None \<Rightarrow> (False, ctx)
         | Some cs \<Rightarrow>
             (let ctx = ctx\<lparr>ctx_cert := ctx_cert ctx @ cs\<rparr>
              in case pk_parse_key M key_pem of
                   None \<Rightarrow> (False, ctx)
                 | Some k \<Rightarrow>
                     (let ctx = ctx\<lparr>ctx_key := Some k\<rparr>
                      in case subject_device_id (chain_subject M (ctx_cert ctx)) of
                           None \<Rightarrow> (False, ctx\<lparr>ctx_cert := [], ctx_key := None\<rparr>)
                         | Some d \<Rightarrow> (True, ctx\<lparr>ctx_device_id := d, cert_pem := pem\<rparr>))))"

definition generate_self_signed ::
    "('crt, 'key) mbedtls \<Rightarrow> u8 list \<Rightarrow> 'fs nxfs \<Rightarrow> string \<Rightarrow> string \<Rightarrow> 'fs \<Rightarrow>
     ('crt, 'key) tls_context \<Rightarrow> bool \<times> ('crt, 'key) tls_context \<times> 'fs" where
  "generate_self_signed M random F cpath kpath fs ctx =
     (let ctx = (if ctx_device_id ctx = [] then ctx\<lparr>ctx_device_id := generate_device_id random\<rparr> else ctx)
      in if \<not> pk_setup_ok M then (False, ctx, fs)
         else case ecp_gen_key M of
           None \<Rightarrow> (False, ctx, fs)
         | Some k \<Rightarrow>
             (let ctx = ctx\<lparr>ctx_key := Some k\<rparr>;
                  subject = ''CN='' @ ctx_device_id ctx
              in if \<not> set_subject_ok M subject then (False, ctx, fs)
                 else if \<not> set_issuer_ok M subject then (False, ctx, fs)
                 else case x509write_crt_pem M subject k of
                   None \<Rightarrow> (False, ctx\<lparr>cert_pem := zero_bytes 4096\<rparr>, fs)
                 | Some pem \<Rightarrow>
                     (let ctx = ctx\<lparr>cert_pem := c_str pem\<rparr>;
                          (ok, fs) = write_file F cpath (cert_pem ctx) fs
                      in if \<not> ok then (False, ctx, fs)
                         else case pk_write_key_pem M k of
                           None \<Rightarrow> (False, ctx, fs)
                         | Some key_buf \<Rightarrow>
                             (let (ok, fs) = write_file F kpath (c_str key_buf) fs
                              in if \<not> ok then (False, ctx, fs)
                                 else case x509_crt_parse M (cert_pem ctx) of
                                   None \<Rightarrow> (False, ctx, fs)
                                 | Some cs \<Rightarrow> (True, ctx\<lparr>ctx_cert := ctx_cert ctx @ cs\<rparr>, fs)))))"

definition load_or_create ::
    "('crt, 'key) mbedtls \<Rightarrow> u8 list \<Rightarrow> 'fs nxfs \<Rightarrow> string \<Rightarrow> string \<Rightarrow> 'fs \<Rightarrow>
     ('crt, 'key) tls_context \<Rightarrow> bool \<times> ('crt, 'key) tls_context \<times> 'fs" where
  "load_or_create M random F cpath kpath fs ctx =
     (case load_from_files M F cpath kpath fs ctx of
        (True, ctx) \<Rightarrow> (True, ctx, fs)
      | (False, ctx) \<Rightarrow> generate_self_signed M random F cpath kpath fs ctx)"

section \<open>Documented behaviour of mbedtls\<close>

text \<open>
  A written certificate parses to one certificate with the subject it was given, a written key to
  the key; PEM texts are not empty and end before the NUL.
\<close>

definition mbedtls_ok :: "('crt, 'key) mbedtls \<Rightarrow> bool" where
  "mbedtls_ok M \<longleftrightarrow>
     (\<forall>s k pem. x509write_crt_pem M s k = Some pem \<longrightarrow>
        c_str pem \<noteq> [] \<and> (\<exists>c. x509_crt_parse M (c_str pem) = Some [c] \<and> x509_subject M c = s)) \<and>
     (\<forall>k pem. pk_write_key_pem M k = Some pem \<longrightarrow>
        c_str pem \<noteq> [] \<and> pk_parse_key M (c_str pem) = Some k) \<and>
     (\<forall>d. length (md_sha256 M d) = 32)"

lemma mbedtls_okD:
  assumes "mbedtls_ok M"
  shows "x509write_crt_pem M s k = Some pem \<Longrightarrow>
      c_str pem \<noteq> [] \<and> (\<exists>c. x509_crt_parse M (c_str pem) = Some [c] \<and> x509_subject M c = s)"
    and "pk_write_key_pem M k = Some pem \<Longrightarrow> c_str pem \<noteq> [] \<and> pk_parse_key M (c_str pem) = Some k"
    and "length (md_sha256 M d) = 32"
  using assms by (auto simp: mbedtls_ok_def)

section \<open>Lemmas\<close>

definition id_char :: "char \<Rightarrow> bool" where
  "id_char c \<longleftrightarrow> is_digit c \<or> 97 \<le> (of_char c :: nat) \<and> (of_char c :: nat) \<le> 102"

definition upper_hex_char :: "char \<Rightarrow> bool" where
  "upper_hex_char c \<longleftrightarrow> is_digit c \<or> 65 \<le> (of_char c :: nat) \<and> (of_char c :: nat) \<le> 70"

lemma nibble_bound: "unat ((x :: u8) AND 0xF) < 16"
proof -
  have "x AND 0xF \<le> 0xF" by (simp add: word_and_le1)
  then show ?thesis by (simp add: word_le_nat_alt)
qed

lemma hex_digit_lower: "d < 16 \<Longrightarrow> id_char (hex_digit False d)"
  by (auto simp: hex_digit_def id_char_def is_digit_def of_char_of)

lemma hex_digit_upper: "d < 16 \<Longrightarrow> upper_hex_char (hex_digit True d)"
  by (auto simp: hex_digit_def upper_hex_char_def is_digit_def of_char_of)

lemma length_hex: "length (concat (map (hex_byte u) bs)) = 2 * length bs"
  by (induction bs) (auto simp: hex_byte_def)

lemma length_device_id [simp]: "length (generate_device_id bs) = 2 * length bs"
  by (simp add: generate_device_id_def length_hex)

lemma device_id_chars: "list_all id_char (generate_device_id bs)"
  by (induction bs) (auto simp: generate_device_id_def hex_byte_def hex_digit_lower nibble_bound)

lemma sha256_hex_chars: "list_all upper_hex_char (sha256_hex_upper M d)"
  by (auto simp: sha256_hex_upper_def hex_byte_def hex_digit_upper nibble_bound list_all_iff)

lemma length_sha256_hex: "mbedtls_ok M \<Longrightarrow> length (sha256_hex_upper M d) = 64"
  by (simp add: sha256_hex_upper_def length_hex mbedtls_okD(3))

lemma id_char_plain: "id_char c \<Longrightarrow> c \<noteq> CHR '','' \<and> c \<noteq> CHR 0x00 \<and> c \<noteq> CHR ''/'' \<and> c \<noteq> CHR 0x0A"
  by (auto simp: id_char_def is_digit_def)

lemma find_sub_prefix: "find_sub n (n @ s) = Some 0"
  by (cases "n @ s") (auto, metis append_eq_conv_conj)

lemma subject_device_id_CN:
  "CHR '','' \<notin> set d \<Longrightarrow> subject_device_id (''CN='' @ d) = Some d"
proof -
  assume "CHR '','' \<notin> set d"
  then have "find_if (\<lambda>c. c = CHR '','') d = None" by (auto simp: find_if_None)
  then show ?thesis
    using find_sub_prefix [of "''CN=''" d] by (simp add: subject_device_id_def Let_def)
qed

lemma nul_free_device_id [simp]: "nul_free (generate_device_id bs)"
  using device_id_chars [of bs] id_char_plain by (auto simp: nul_free_def list_all_iff)

lemma comma_device_id: "CHR '','' \<notin> set (generate_device_id bs)"
  using device_id_chars [of bs] id_char_plain by (auto simp: list_all_iff)

section \<open>Properties\<close>

text \<open>
  A generated device id has the form the protocol asks for: from 16 random bytes, 32 characters,
  all of them lower-case hexadecimal digits.
\<close>

theorem generated_id_valid:
  assumes "length random = 16"
  shows "length (generate_device_id random) = 32 \<and> list_all id_char (generate_device_id random)"
  using assms device_id_chars by simp

theorem generated_id_valid_witness:
  "length (generate_device_id (replicate 16 0xAB)) = 32 \<and> list_all id_char (generate_device_id (replicate 16 0xAB))"
  by (rule generated_id_valid) simp

lemma load_after_files:
  assumes M: "mbedtls_ok M" and d: "CHR '','' \<notin> set d" "nul_free d"
    and w: "x509write_crt_pem M (''CN='' @ d) k = Some pem" "pk_write_key_pem M k = Some kpem"
    and f: "read_file F cpath fs = c_str pem" "read_file F kpath fs = c_str kpem"
  shows "\<exists>c. load_from_files M F cpath kpath fs tls_context_init =
    (True, \<lparr>ctx_cert = [c], ctx_key = Some k, cert_pem = c_str pem, ctx_device_id = d\<rparr>)"
proof -
  obtain c where c: "x509_crt_parse M (c_str pem) = Some [c]" "x509_subject M c = ''CN='' @ d" "c_str pem \<noteq> []"
    using mbedtls_okD(1) [OF M w(1)] by auto
  have k: "c_str kpem \<noteq> []" "pk_parse_key M (c_str kpem) = Some k"
    using mbedtls_okD(2) [OF M w(2)] by auto
  show ?thesis
    using c k f subject_device_id_CN [OF d(1)] d(2)
    by (simp add: load_from_files_def Let_def tls_context_init_def chain_subject_def)
qed

lemma generate_success:
  assumes "generate_self_signed M random F cpath kpath fs tls_context_init = (True, ctx, fs')"
  obtains k pem kpem fs1 c where
    "x509write_crt_pem M (''CN='' @ generate_device_id random) k = Some pem"
    "pk_write_key_pem M k = Some kpem"
    "write_file F cpath (c_str pem) fs = (True, fs1)" "write_file F kpath (c_str kpem) fs1 = (True, fs')"
    "x509_crt_parse M (c_str pem) = Some c" "ctx_cert ctx = c" "ctx_key ctx = Some k"
    "cert_pem ctx = c_str pem" "ctx_device_id ctx = generate_device_id random"
  using assms
  by (auto simp: generate_self_signed_def Let_def tls_context_init_def split: if_splits option.splits prod.splits)

text \<open>
  C3: the device keeps its identity over restarts: once \<open>load_or_create\<close> has generated a
  certificate, a fresh context that loads from the same files has the same device id, certificate
  and key, and generates nothing.
\<close>

theorem identity_survives_restart:
  assumes "mbedtls_ok M" and "nxfs_ok F C" and "nxfs_up F C"
    and "nul_free cpath" and "length cpath < fs_max_path F" and "nul_free kpath"
    and "length kpath < fs_max_path F" and "cpath \<noteq> kpath"
    and "generate_self_signed M random F cpath kpath fs tls_context_init = (True, ctx, fs')"
  shows "load_or_create M random2 F cpath kpath fs' tls_context_init = (True, ctx, fs')"
proof -
  obtain k pem kpem fs1 c where g:
    "x509write_crt_pem M (''CN='' @ generate_device_id random) k = Some pem"
    "pk_write_key_pem M k = Some kpem"
    "write_file F cpath (c_str pem) fs = (True, fs1)" "write_file F kpath (c_str kpem) fs1 = (True, fs')"
    "x509_crt_parse M (c_str pem) = Some c" "ctx_cert ctx = c" "ctx_key ctx = Some k"
    "cert_pem ctx = c_str pem" "ctx_device_id ctx = generate_device_id random"
    by (rule generate_success [OF assms(9)])
  have "C fs1 cpath = Some (c_str pem)" "C fs' cpath = C fs1 cpath" "C fs' kpath = Some (c_str kpem)"
    using write_file_spec [OF assms(2) g(3)] write_file_spec [OF assms(2) g(4)] assms(4,6,8) by auto
  then have r: "read_file F cpath fs' = c_str pem" "read_file F kpath fs' = c_str kpem"
    using read_file_content [OF assms(2,3)] assms(4-7) by auto
  have l: "\<exists>c. load_from_files M F cpath kpath fs' tls_context_init =
    (True, \<lparr>ctx_cert = [c], ctx_key = Some k, cert_pem = c_str pem, ctx_device_id = generate_device_id random\<rparr>)"
    by (rule load_after_files [OF assms(1) comma_device_id nul_free_device_id g(1,2) r])
  obtain c1 where "x509_crt_parse M (c_str pem) = Some [c1]"
    using mbedtls_okD(1) [OF assms(1) g(1)] by auto
  with l g show ?thesis
    by (auto simp: load_or_create_def load_from_files_def Let_def tls_context_init_def
        split: option.splits if_splits)
qed

section \<open>mbedtls on toy certificates\<close>

text \<open>A certificate is its subject and a key a number, to show that the assumptions can hold.\<close>

definition mbed_ref :: "(string, nat) mbedtls" where
  "mbed_ref = \<lparr>x509_crt_parse = (\<lambda>s. case s of c # d \<Rightarrow> if c = CHR ''C'' then Some [d] else None | [] \<Rightarrow> None),
     pk_parse_key = (\<lambda>s. case s of c # d \<Rightarrow> if c = CHR ''K'' then Some (length d) else None | [] \<Rightarrow> None),
     x509_subject = (\<lambda>c. c), pk_setup_ok = True, ecp_gen_key = Some 3, set_subject_ok = (\<lambda>_. True),
     set_issuer_ok = (\<lambda>_. True),
     x509write_crt_pem = (\<lambda>s k. if nul_free s then Some (CHR ''C'' # s) else None),
     pk_write_key_pem = (\<lambda>k. Some (CHR ''K'' # replicate k CHR ''k'')),
     pk_write_pubkey_der = (\<lambda>k. [of_nat k]), crt_pubkey_der = (\<lambda>c. [of_nat (length c)]),
     pem_write = (\<lambda>c. Some (CHR ''C'' # c)),
     md_sha256 = (\<lambda>d. take 32 (d @ replicate 32 0))\<rparr>"

lemma nul_free_replicate [simp]: "c \<noteq> CHR 0x00 \<Longrightarrow> nul_free (replicate n c)"
  by (induction n) auto

lemma mbedtls_ok_ref [simp]: "mbedtls_ok mbed_ref"
  by (auto simp: mbedtls_ok_def mbed_ref_def split: if_splits)

theorem identity_survives_restart_witness:
  "\<exists>ctx fs'. generate_self_signed mbed_ref (replicate 16 0xAB) nx_ref ''/c'' ''/k'' Map.empty tls_context_init =
      (True, ctx, fs') \<and>
     load_or_create mbed_ref (replicate 16 1) nx_ref ''/c'' ''/k'' fs' tls_context_init = (True, ctx, fs')"
proof -
  let ?g = "generate_self_signed mbed_ref (replicate 16 0xAB) nx_ref ''/c'' ''/k'' Map.empty tls_context_init"
  have w: "\<exists>fs'. write_file nx_ref p d fs = (True, fs')" if "length p < 0x301" for p d fs
    using write_file_up [OF nxfs_ok_ref nxfs_up_ref, of p d fs] that
    by (cases "write_file nx_ref p d fs") simp
  obtain fs1 where w1:
    "write_file nx_ref ''/c'' (''CCN='' @ generate_device_id (replicate 16 0xAB)) Map.empty = (True, fs1)"
    using w by fastforce
  obtain fs2 where w2: "write_file nx_ref ''/k'' ''Kkkk'' fs1 = (True, fs2)"
    using w by fastforce
  have "fst ?g"
    using w1 w2
    by (simp add: generate_self_signed_def Let_def tls_context_init_def mbed_ref_def numeral_eq_Suc)
  then obtain ctx fs' where g: "?g = (True, ctx, fs')" by (cases ?g) auto
  then show ?thesis
    using identity_survives_restart [OF mbedtls_ok_ref nxfs_ok_ref nxfs_up_ref _ _ _ _ _ g] by simp
qed

section \<open>A damaged key file\<close>

text \<open>
  C4: when the certificate file parses and the key file does not, \<open>load_from_files\<close> has already added
  the old certificate to the chain and leaves it there. The certificate generated next is appended
  behind it, so the context presents the old certificate with the new key.
\<close>

theorem stale_certificate_first:
  assumes "read_file F cpath fs = pem" and "pem \<noteq> []" and "x509_crt_parse M pem = Some (old # cs)"
    and "read_file F kpath fs \<noteq> []" and "pk_parse_key M (read_file F kpath fs) = None"
    and "load_or_create M random F cpath kpath fs tls_context_init = (True, ctx, fs')"
  shows "\<exists>new. ctx_cert ctx = old # cs @ new \<and> ctx_key ctx = ecp_gen_key M"
proof -
  have "load_from_files M F cpath kpath fs tls_context_init =
      (False, tls_context_init\<lparr>ctx_cert := old # cs\<rparr>)"
    using assms(1-5) by (simp add: load_from_files_def Let_def tls_context_init_def)
  then have "generate_self_signed M random F cpath kpath fs (tls_context_init\<lparr>ctx_cert := old # cs\<rparr>) =
      (True, ctx, fs')"
    using assms(6) by (simp add: load_or_create_def)
  then show ?thesis
    by (auto simp: generate_self_signed_def Let_def tls_context_init_def
        split: if_splits option.splits prod.splits)
qed

theorem stale_certificate_first_witness:
  "\<exists>ctx fs' new. load_or_create mbed_ref (replicate 16 0xAB) nx_ref ''/c'' ''/k''
      [''/c'' \<mapsto> ''CCN=old'', ''/k'' \<mapsto> ''damaged''] tls_context_init = (True, ctx, fs') \<and>
     ctx_cert ctx = ''CN=old'' # [] @ new \<and> ctx_key ctx = Some 3"
proof -
  let ?fs = "[''/c'' \<mapsto> ''CCN=old'', ''/k'' \<mapsto> ''damaged'']"
  let ?g = "load_or_create mbed_ref (replicate 16 0xAB) nx_ref ''/c'' ''/k'' ?fs tls_context_init"
  have w: "\<exists>fs'. write_file nx_ref p d fs = (True, fs')" if "length p < 0x301" for p d fs
    using write_file_up [OF nxfs_ok_ref nxfs_up_ref, of p d fs] that
    by (cases "write_file nx_ref p d fs") simp
  have r: "read_file nx_ref ''/c'' ?fs = ''CCN=old''" "read_file nx_ref ''/k'' ?fs = ''damaged''"
    by (rule read_file_content [OF nxfs_ok_ref nxfs_up_ref]; simp)+
  have p: "x509_crt_parse mbed_ref ''CCN=old'' = Some [''CN=old'']" "pk_parse_key mbed_ref ''damaged'' = None"
    "ecp_gen_key mbed_ref = Some 3"
    by (simp_all add: mbed_ref_def)
  obtain fs1 where w1:
    "write_file nx_ref ''/c'' (''CCN='' @ generate_device_id (replicate 16 0xAB)) ?fs = (True, fs1)"
    using w by fastforce
  obtain fs2 where w2: "write_file nx_ref ''/k'' ''Kkkk'' fs1 = (True, fs2)"
    using w by fastforce
  have "load_from_files mbed_ref nx_ref ''/c'' ''/k'' ?fs tls_context_init =
      (False, tls_context_init\<lparr>ctx_cert := [''CN=old'']\<rparr>)"
    by (simp add: load_from_files_def r p tls_context_init_def)
  then have "fst ?g"
    using w1 w2
    by (simp add: load_or_create_def generate_self_signed_def Let_def tls_context_init_def mbed_ref_def numeral_eq_Suc)
  then obtain ctx fs' where g: "?g = (True, ctx, fs')" by (cases ?g) auto
  then show ?thesis
    using stale_certificate_first [OF r(1) _ p(1) _ _ g] p r by auto
qed

section \<open>Timeouts\<close>

text \<open>
  A receive timeout ends the plain line reader and never the TLS ones: \<open>socket_recv\<close> reports it
  as \<open>WANT_READ\<close>, and after any number of those \<open>read_line_tls\<close> and \<open>perform_tls_handshake\<close> are still
  waiting.
\<close>

theorem timeout_ends_only_plain_reads:
  "socket_recv (-1) True = BioWantRead \<and>
   (0 < n \<longrightarrow> read_line_tls n (replicate k RxWant) = (Waiting, [])) \<and>
   perform_tls_handshake (replicate k HsWant) = (Waiting, []) \<and>
   (0 < n \<longrightarrow> read_line_fd n (RxWant # es) = (Returned None, es))"
  using read_line_tls_waits read_line_fd_timeout handshake_waits [of k "[]"] by (auto simp: socket_recv_def)

theorem timeout_ends_only_plain_reads_witness:
  "socket_recv (-1) True = BioWantRead \<and>
   read_line_tls 524288 (replicate 1000 RxWant) = (Waiting, []) \<and>
   perform_tls_handshake (replicate 1000 HsWant) = (Waiting, []) \<and>
   read_line_fd 524288 (RxWant # [RxByte CHR ''x'']) = (Returned None, [RxByte CHR ''x''])"
  using timeout_ends_only_plain_reads [of 524288 1000 "[RxByte CHR ''x'']"] by simp

end
