(* ===== verification/Session.thy ===== *)
theory Session
  imports Tls
begin

text \<open>
  The state the client keeps per device (\<open>DeviceSession\<close> of \<open>plugins/plugin.h\<close>) and over all
  devices (\<open>KdeConnectClient\<close>), the effects a plugin asks for, and the operations every component
  uses: \<open>device\<close>, \<open>devices\<close>, \<open>send_packet\<close> and the two loops over a session's plugins.

  A \<open>shared_ptr<DeviceSession>\<close> is an index into the heap of sessions, which only grows; the map
  \<open>sessions_\<close> holds indices. A session replaced in the map is still reachable for its own thread.
\<close>

section \<open>Plugins\<close>

text \<open>
  What a plugin handler asks of the rest of the program, in call order: packets to its device,
  notifications (\<open>post_notification app title body id\<close>), a payload upload, writes of settings and
  key presses are collected by the plugin theories; here only those that act on the client.
\<close>

datatype effect =
    Send network_packet
  | Notify string string string string
  | Upload network_packet i64

record 'p plugin_class =
  pc_name :: "'p \<Rightarrow> string"
  supported_packet_types :: "'p \<Rightarrow> string list"
  outgoing_packet_types :: "'p \<Rightarrow> string list"
  on_packet_received :: "'p \<Rightarrow> network_packet \<Rightarrow> bool \<times> 'p \<times> effect list"
  on_connected :: "'p \<Rightarrow> bool \<Rightarrow> 'p \<times> effect list"

section \<open>Sessions and the client\<close>

record 'p session =
  ses_info :: device_info
  ses_pair_state :: pair_state
  pairing_timestamp :: i64
  paired :: bool
  ses_cert_pem :: string
  peer_pubkey :: "u8 list"
  peer_host :: string
  has_tls :: bool
  ses_fd :: int
  send_queue :: "string list"
  disconnected :: bool
  plugins :: "'p list"

record ('p, 'fs) client =
  local_device :: device_info
  cl_base :: string
  cl_pubkey :: "u8 list"
  cl_heap :: "'p session list"
  cl_sessions :: "(string, nat) umap"
  cl_fs :: 'fs
  cl_notes :: "(string \<times> string \<times> string \<times> string) list"
  cl_uploads :: "(string \<times> network_packet \<times> i64) list"

definition ses :: "('p, 'fs) client \<Rightarrow> nat \<Rightarrow> 'p session" where
  "ses c s = cl_heap c ! s"

definition upd_ses :: "nat \<Rightarrow> ('p session \<Rightarrow> 'p session) \<Rightarrow> ('p, 'fs) client \<Rightarrow> ('p, 'fs) client" where
  "upd_ses s f c = c\<lparr>cl_heap := (cl_heap c)[s := f (cl_heap c ! s)]\<rparr>"

definition device :: "('p, 'fs) client \<Rightarrow> string \<Rightarrow> nat option" where
  "device c device_id = map_of (cl_sessions c) device_id"

definition devices :: "('p, 'fs) client \<Rightarrow> (string, nat) umap" where
  "devices c = cl_sessions c"

text \<open>\<open>now\<close> is the clock at the call, in milliseconds since the epoch.\<close>

definition send_packet ::
    "yyjson \<Rightarrow> i64 \<Rightarrow> string \<Rightarrow> network_packet \<Rightarrow> ('p, 'fs) client \<Rightarrow> bool \<times> ('p, 'fs) client" where
  "send_packet Y now device_id pkt c =
     (case device c device_id of
        None \<Rightarrow> (False, c)
      | Some s \<Rightarrow>
          if disconnected (ses c s) then (False, c)
          else (True, upd_ses s (\<lambda>x. x\<lparr>send_queue := send_queue x @ [serialize Y now pkt]\<rparr>) c))"

definition post_notification :: "string \<Rightarrow> string \<Rightarrow> string \<Rightarrow> string \<Rightarrow> ('p, 'fs) client \<Rightarrow> ('p, 'fs) client" where
  "post_notification app title body nid c = c\<lparr>cl_notes := cl_notes c @ [(app, title, body, nid)]\<rparr>"

definition run_effect ::
    "yyjson \<Rightarrow> i64 \<Rightarrow> string \<Rightarrow> effect \<Rightarrow> ('p, 'fs) client \<Rightarrow> ('p, 'fs) client" where
  "run_effect Y now device_id e c =
     (case e of
        Send pkt \<Rightarrow> snd (send_packet Y now device_id pkt c)
      | Notify app title body nid \<Rightarrow> post_notification app title body nid c
      | Upload pkt sz \<Rightarrow> c\<lparr>cl_uploads := cl_uploads c @ [(device_id, pkt, sz)]\<rparr>)"

definition run_effects ::
    "yyjson \<Rightarrow> i64 \<Rightarrow> string \<Rightarrow> effect list \<Rightarrow> ('p, 'fs) client \<Rightarrow> ('p, 'fs) client" where
  "run_effects Y now device_id es c = fold (run_effect Y now device_id) es c"

section \<open>The loops over a session's plugins\<close>

text \<open>
  A plugin object is addressed by its session and its position. Its own state is stored before the
  effects run; no effect reads or writes plugin states.
\<close>

definition set_plugin :: "nat \<Rightarrow> nat \<Rightarrow> 'p \<Rightarrow> ('p, 'fs) client \<Rightarrow> ('p, 'fs) client" where
  "set_plugin s i p = upd_ses s (\<lambda>x. x\<lparr>plugins := (plugins x)[i := p]\<rparr>)"

definition plugin_connected ::
    "'p plugin_class \<Rightarrow> yyjson \<Rightarrow> i64 \<Rightarrow> nat \<Rightarrow> nat \<Rightarrow> ('p, 'fs) client \<Rightarrow> ('p, 'fs) client" where
  "plugin_connected K Y now s i c =
     (let (p, es) = on_connected K (plugins (ses c s) ! i) (paired (ses c s))
      in run_effects Y now (di_id (ses_info (ses c s))) es (set_plugin s i p c))"

definition notify_plugins_connected ::
    "'p plugin_class \<Rightarrow> yyjson \<Rightarrow> i64 \<Rightarrow> nat \<Rightarrow> ('p, 'fs) client \<Rightarrow> ('p, 'fs) client" where
  "notify_plugins_connected K Y now s c =
     fold (plugin_connected K Y now s) [0..<length (plugins (ses c s))] c"

text \<open>
  The dispatch loop: a plugin is offered the packet once for every entry of its type list that
  equals the packet's type, until one call says it is handled.
\<close>

fun offer_packet ::
    "'p plugin_class \<Rightarrow> yyjson \<Rightarrow> i64 \<Rightarrow> nat \<Rightarrow> network_packet \<Rightarrow> nat \<Rightarrow> string list \<Rightarrow>
     ('p, 'fs) client \<Rightarrow> bool \<times> ('p, 'fs) client" where
  "offer_packet K Y now s pkt i [] c = (False, c)"
| "offer_packet K Y now s pkt i (t # ts) c =
     (if t = pkt_type pkt then
        (let (handled, p, es) = on_packet_received K (plugins (ses c s) ! i) pkt;
             c = run_effects Y now (di_id (ses_info (ses c s))) es (set_plugin s i p c)
         in if handled then (True, c) else offer_packet K Y now s pkt i ts c)
      else offer_packet K Y now s pkt i ts c)"

fun dispatch ::
    "'p plugin_class \<Rightarrow> yyjson \<Rightarrow> i64 \<Rightarrow> nat \<Rightarrow> network_packet \<Rightarrow> nat list \<Rightarrow>
     ('p, 'fs) client \<Rightarrow> ('p, 'fs) client" where
  "dispatch K Y now s pkt [] c = c"
| "dispatch K Y now s pkt (i # is) c =
     (case offer_packet K Y now s pkt i (supported_packet_types K (plugins (ses c s) ! i)) c of
        (True, c) \<Rightarrow> c
      | (False, c) \<Rightarrow> dispatch K Y now s pkt is c)"

section \<open>What the operations leave alone\<close>

text \<open>
  \<open>core\<close> of a session is what pairing and connection management own: everything but the outgoing
  queue and the plugin states. \<open>same_core\<close> relates clients that differ in those, in the
  notifications and in the uploads only.
\<close>

definition core :: "'p session \<Rightarrow> device_info \<times> pair_state \<times> i64 \<times> bool \<times> string \<times> u8 list \<times> string \<times> bool \<times> int \<times> bool" where
  "core x = (ses_info x, ses_pair_state x, pairing_timestamp x, paired x, ses_cert_pem x, peer_pubkey x,
     peer_host x, has_tls x, ses_fd x, disconnected x)"

definition same_core :: "('p, 'fs) client \<Rightarrow> ('p, 'fs) client \<Rightarrow> bool" where
  "same_core c c' \<longleftrightarrow>
     map core (cl_heap c') = map core (cl_heap c) \<and> cl_sessions c' = cl_sessions c \<and> cl_fs c' = cl_fs c \<and>
     local_device c' = local_device c \<and> cl_base c' = cl_base c \<and> cl_pubkey c' = cl_pubkey c"

lemma same_core_refl [simp, intro]: "same_core c c"
  by (simp add: same_core_def)

lemma same_core_trans [trans]: "same_core a b \<Longrightarrow> same_core b c \<Longrightarrow> same_core a c"
  by (simp add: same_core_def)

lemma same_core_ses: "same_core c c' \<Longrightarrow> s < length (cl_heap c) \<Longrightarrow> core (ses c' s) = core (ses c s)"
  unfolding same_core_def ses_def by (metis length_map nth_map)

lemma same_core_length: "same_core c c' \<Longrightarrow> length (cl_heap c') = length (cl_heap c)"
  unfolding same_core_def by (metis length_map)

lemma map_list_update_same: "f y = f (xs ! i) \<Longrightarrow> map f (xs[i := y]) = map f xs"
  by (cases "i < length xs") (simp_all add: map_update list_update_same_conv list_update_beyond)

lemma same_core_upd: "core (f (ses c s)) = core (ses c s) \<Longrightarrow> same_core c (upd_ses s f c)"
  by (simp add: same_core_def upd_ses_def ses_def map_list_update_same)

lemma same_core_send: "same_core c (snd (send_packet Y now d p c))"
  by (auto simp: send_packet_def core_def intro!: same_core_upd split: option.split)

lemma same_core_effect: "same_core c (run_effect Y now d e c)"
  by (cases e) (simp_all add: run_effect_def same_core_send, simp_all add: same_core_def post_notification_def)

lemma same_core_effects: "same_core c (run_effects Y now d es c)"
proof -
  have "same_core c (fold (run_effect Y now d) es c)"
    by (induction es arbitrary: c) (auto intro: same_core_trans same_core_effect)
  then show ?thesis by (simp add: run_effects_def)
qed

lemma same_core_set_plugin: "same_core c (set_plugin s i p c)"
  by (simp add: set_plugin_def same_core_upd core_def)

lemma same_core_connected: "same_core c (plugin_connected K Y now s i c)"
  unfolding plugin_connected_def
  by (auto split: prod.split intro: same_core_trans same_core_set_plugin same_core_effects)

lemma same_core_notify: "same_core c (notify_plugins_connected K Y now s c)"
proof -
  have "same_core c (fold (plugin_connected K Y now s) is c)" for "is"
    by (induction "is" arbitrary: c) (auto intro: same_core_trans same_core_connected)
  then show ?thesis by (simp add: notify_plugins_connected_def)
qed

lemma same_core_offer: "same_core c (snd (offer_packet K Y now s p i ts c))"
proof (induction K Y now s p i ts c rule: offer_packet.induct)
  case (2 K Y now s p i t ts c)
  show ?case
  proof (cases "t = pkt_type p")
    case True
    obtain h q es where o: "on_packet_received K (plugins (ses c s) ! i) p = (h, q, es)"
      by (cases "on_packet_received K (plugins (ses c s) ! i) p") auto
    let ?c = "run_effects Y now (di_id (ses_info (ses c s))) es (set_plugin s i q c)"
    have "same_core c ?c" by (rule same_core_trans [OF same_core_set_plugin same_core_effects])
    then show ?thesis using True o "2.IH"(1) [OF True o [symmetric] refl refl]
      by (auto simp: Let_def intro: same_core_trans)
  qed (use "2.IH"(2) in auto)
qed simp

lemma same_core_dispatch: "same_core c (dispatch K Y now s p is c)"
proof (induction "is" arbitrary: c)
  case (Cons i "is")
  obtain h c1 where o: "offer_packet K Y now s p i (supported_packet_types K (plugins (ses c s) ! i)) c = (h, c1)"
    by fastforce
  then have "same_core c c1" using same_core_offer by (metis snd_conv)
  then show ?case using o Cons by (auto split: bool.split intro: same_core_trans)
qed simp

end
