(* ===== verification/Pairing.thy ===== *)
theory Pairing
  imports Session
begin

text \<open>
  The pairing part of \<open>sysmodule/src/net/kdeconnect_client.cpp\<close>: pair packets, the requests of the
  user, the verification key and the dispatch of a received line. An operation takes the parsed
  environment (yyjson, file services, plugins), the clock in milliseconds and the client.
\<close>

unbundle bit_operations_syntax

definition kPairingWindowSeconds :: i64 where "kPairingWindowSeconds = 1800"

text \<open>\<open>duration_cast<seconds>\<close> truncates; the difference of two \<open>long\<close> values wraps (the C++ leaves that open).\<close>

definition seconds_of :: "i64 \<Rightarrow> i64" where
  "seconds_of ms = word_of_int (sint ms sdiv 1000)"

definition llabs :: "i64 \<Rightarrow> i64" where
  "llabs d = (if sint d < 0 then - d else d)"

definition clock_skewed :: "i64 \<Rightarrow> i64 \<Rightarrow> bool" where
  "clock_skewed now timestamp \<longleftrightarrow> timestamp \<noteq> 0 \<and> sint kPairingWindowSeconds < sint (llabs (now - timestamp))"

definition verification_key :: "('crt, 'key) mbedtls \<Rightarrow> u8 list \<Rightarrow> u8 list \<Rightarrow> i64 \<Rightarrow> string" where
  "verification_key M a b timestamp =
     (if a = [] \<or> b = [] then ''<ERROR>''
      else
        (let a_less_than_b = lex_less a b;
             combined = (if a_less_than_b then b @ a else a @ b);
             combined = (if timestamp \<noteq> 0 then combined @ map of_char (int_str (sint timestamp)) else combined)
         in uppercase_first8 (sha256_hex_upper M combined)))"

definition pair_packet :: "yyjson \<Rightarrow> bool \<Rightarrow> i64 option \<Rightarrow> network_packet" where
  "pair_packet Y want timestamp =
     (let b = set_bool Y ''pair'' want jb_empty
      in (new_packet Pair_type)\<lparr>pkt_body :=
            (case timestamp of Some t \<Rightarrow> set_i64 Y ''timestamp'' t b | None \<Rightarrow> b)\<rparr>)"

section \<open>Marking a session\<close>

definition mark_paired :: "nat \<Rightarrow> ('p, 'fs) client \<Rightarrow> ('p, 'fs) client" where
  "mark_paired s = upd_ses s (\<lambda>x. x\<lparr>ses_pair_state := Paired, paired := True\<rparr>)"

definition mark_unpaired :: "nat \<Rightarrow> ('p, 'fs) client \<Rightarrow> ('p, 'fs) client" where
  "mark_unpaired s = upd_ses s (\<lambda>x. x\<lparr>ses_pair_state := NotPaired, paired := False\<rparr>)"

definition save_pairing :: "yyjson \<Rightarrow> 'fs nxfs \<Rightarrow> nat \<Rightarrow> ('p, 'fs) client \<Rightarrow> ('p, 'fs) client" where
  "save_pairing Y F s c =
     c\<lparr>cl_fs := save_paired_device Y F (cl_base c) (ses_info (ses c s)) (ses_cert_pem (ses c s)) (cl_fs c)\<rparr>"

definition remove_pairing :: "'fs nxfs \<Rightarrow> string \<Rightarrow> ('p, 'fs) client \<Rightarrow> ('p, 'fs) client" where
  "remove_pairing F device_id c = c\<lparr>cl_fs := remove_paired_device F (cl_base c) device_id (cl_fs c)\<rparr>"

section \<open>Pair packets\<close>

definition handle_pair_packet ::
    "yyjson \<Rightarrow> 'fs nxfs \<Rightarrow> ('crt, 'key) mbedtls \<Rightarrow> 'p plugin_class \<Rightarrow> i64 \<Rightarrow> nat \<Rightarrow> json_body \<Rightarrow>
     ('p, 'fs) client \<Rightarrow> ('p, 'fs) client" where
  "handle_pair_packet Y F M K clock s body c =
     (let wants_pair = jb_value_bool Y body ''pair'' False;
          name = di_name (ses_info (ses c s));
          did = di_id (ses_info (ses c s))
      in if wants_pair then
           (let timestamp = jb_value_i64 Y body ''timestamp'' 0;
                now = seconds_of clock
            in if clock_skewed now timestamp then
                 post_notification ''kdeconnect'' name
                   ''Pair request rejected due to clock skew. Check the system time.'' (did @ ''_error'') c
               else if ses_pair_state (ses c s) = Requested then
                 (if ses_cert_pem (ses c s) = [] then c
                  else
                    (let c = mark_paired s c;
                         c = save_pairing Y F s c;
                         c = notify_plugins_connected K Y clock s c
                     in post_notification ''kdeconnect'' name ''Pair request accepted'' (did @ ''_accepted'') c))
               else
                 (let c = upd_ses s (\<lambda>x. x\<lparr>ses_pair_state := RequestedByPeer, pairing_timestamp := timestamp\<rparr>) c;
                      key = verification_key M (cl_pubkey c) (peer_pubkey (ses c s)) timestamp
                  in post_notification ''kdeconnect'' name
                       (''Incoming pair request. Open the overlay to accept. Key: '' @ key) (did @ ''_incoming'') c))
         else
           (let previous_pair_state = ses_pair_state (ses c s);
                c = mark_unpaired s c;
                c = remove_pairing F did c
            in if previous_pair_state = Requested then
                 post_notification ''kdeconnect'' name ''Pair request denied'' (did @ ''_denied'') c
               else c))"

definition handle_packet ::
    "yyjson \<Rightarrow> 'fs nxfs \<Rightarrow> ('crt, 'key) mbedtls \<Rightarrow> 'p plugin_class \<Rightarrow> i64 \<Rightarrow> nat \<Rightarrow> string \<Rightarrow>
     ('p, 'fs) client \<Rightarrow> ('p, 'fs) client" where
  "handle_packet Y F M K clock s line c =
     (case parse_packet Y line of
        None \<Rightarrow> c
      | Some packet \<Rightarrow>
          if pkt_type packet = Pair_type then handle_pair_packet Y F M K clock s (pkt_body packet) c
          else if \<not> paired (ses c s) then c
          else dispatch K Y clock s packet [0..<length (plugins (ses c s))] c)"

section \<open>The user's requests\<close>

definition request_pair ::
    "yyjson \<Rightarrow> i64 \<Rightarrow> string \<Rightarrow> ('p, 'fs) client \<Rightarrow> ('p, 'fs) client" where
  "request_pair Y clock device_id c =
     (case device c device_id of
        None \<Rightarrow> c
      | Some s \<Rightarrow>
          if paired (ses c s) then c
          else
            (let ts = seconds_of clock
             in case send_packet Y clock device_id (pair_packet Y True (Some ts)) c of
                  (True, c) \<Rightarrow> upd_ses s (\<lambda>x. x\<lparr>ses_pair_state := Requested, pairing_timestamp := ts\<rparr>) c
                | (False, c) \<Rightarrow> c))"

definition accept_pair ::
    "yyjson \<Rightarrow> 'fs nxfs \<Rightarrow> 'p plugin_class \<Rightarrow> i64 \<Rightarrow> string \<Rightarrow> ('p, 'fs) client \<Rightarrow> ('p, 'fs) client" where
  "accept_pair Y F K clock device_id c =
     (case device c device_id of
        None \<Rightarrow> c
      | Some s \<Rightarrow>
          if ses_cert_pem (ses c s) = [] then c
          else case send_packet Y clock device_id (pair_packet Y True (Some clock)) c of
                 (True, c) \<Rightarrow>
                   (let c = mark_paired s c; c = save_pairing Y F s c
                    in notify_plugins_connected K Y clock s c)
               | (False, c) \<Rightarrow> c)"

definition reject_pair ::
    "yyjson \<Rightarrow> 'fs nxfs \<Rightarrow> i64 \<Rightarrow> string \<Rightarrow> ('p, 'fs) client \<Rightarrow> ('p, 'fs) client" where
  "reject_pair Y F clock device_id c =
     (case device c device_id of
        None \<Rightarrow> c
      | Some s \<Rightarrow>
          (case send_packet Y clock device_id (pair_packet Y False None) c of
             (True, c) \<Rightarrow> remove_pairing F (di_id (ses_info (ses c s))) (mark_unpaired s c)
           | (False, c) \<Rightarrow> c))"

definition unpair ::
    "yyjson \<Rightarrow> 'fs nxfs \<Rightarrow> i64 \<Rightarrow> string \<Rightarrow> ('p, 'fs) client \<Rightarrow> ('p, 'fs) client" where
  "unpair Y F clock device_id c =
     (case device c device_id of
        None \<Rightarrow> remove_pairing F device_id c
      | Some s \<Rightarrow>
          if disconnected (ses c s) then mark_unpaired s (remove_pairing F device_id c)
          else if \<not> paired (ses c s) then c
          else case send_packet Y clock device_id (pair_packet Y False None) c of
                 (True, c) \<Rightarrow> remove_pairing F (di_id (ses_info (ses c s))) (mark_unpaired s c)
               | (False, c) \<Rightarrow> c)"

definition offline_paired_devices ::
    "yyjson \<Rightarrow> 'fs nxfs \<Rightarrow> ('p, 'fs) client \<Rightarrow> paired_device_info list" where
  "offline_paired_devices Y F c =
     List.map_filter
       (\<lambda>k. if um_contains k (devices c) then None else load_paired_device Y F (cl_base c) k (cl_fs c))
       (list_paired_device_ids F (cl_base c) (cl_fs c))"

end
