(* ===== verification/Connection.thy ===== *)
theory Connection
  imports Pairing
begin

text \<open>
  The connections of \<open>sysmodule/src/net/kdeconnect_client.cpp\<close>: which identities are accepted, what
  happens on a new connection until a session is entered, the I/O loop of a session, discovery and
  shutdown. What sockets, select and mbedtls answer is a record of results; a call that has not
  returned when its results end leaves the connection \<open>Stuck\<close>.
\<close>

definition kUdpPort :: nat where "kUdpPort = 1716"
definition kMinTcpPort :: nat where "kMinTcpPort = 1716"
definition kMaxTcpPort :: nat where "kMaxTcpPort = 1764"
definition kMaxPacketSize :: nat where "kMaxPacketSize = 512 * 1024"
definition kMaxUdpPacketSize :: nat where "kMaxUdpPacketSize = 8 * 1024"

section \<open>Identities\<close>

text \<open>The checks of the accept thread on the first packet of a TCP connection.\<close>

definition accept_identity :: "yyjson \<Rightarrow> string \<Rightarrow> string option \<Rightarrow> device_info option" where
  "accept_identity Y own_id line =
     (case (case line of None \<Rightarrow> None | Some l \<Rightarrow> parse_packet Y l) of
        None \<Rightarrow> None
      | Some packet \<Rightarrow>
          (let b = pkt_body packet;
               valid = (pkt_type packet = Identity);
               valid = (if valid \<and> jb_has Y b ''targetDeviceId'' then
                          (let tid = jb_value_str Y b ''targetDeviceId'' []
                           in if tid \<noteq> [] \<and> tid \<noteq> own_id then False else valid)
                        else valid);
               valid = (if valid \<and> jb_has Y b ''targetProtocolVersion'' then
                          (if jb_value_int Y b ''targetProtocolVersion'' kProtocolVersion \<noteq> kProtocolVersion
                           then False else valid)
                        else valid)
           in if valid then Some (info_from_identity Y packet) else None))"

text \<open>
  The checks on a UDP datagram (\<open>data\<close> is what \<open>recvfrom\<close> returned, at most 8 KiB): the peer to
  connect to and its port.
\<close>

definition udp_identity :: "yyjson \<Rightarrow> string \<Rightarrow> string \<Rightarrow> (device_info \<times> i32) option" where
  "udp_identity Y own_id data =
     (if data = [] then None
      else case parse_packet Y data of
        None \<Rightarrow> None
      | Some packet \<Rightarrow>
          if pkt_type packet \<noteq> Identity then None
          else
            (let identity = info_from_identity Y packet
             in if di_id identity \<noteq> [] \<and> di_id identity \<noteq> own_id then
                  (let identity = identity\<lparr>protocol_version :=
                             jb_value_int Y (pkt_body packet) ''protocolVersion'' kProtocolVersion\<rparr>
                   in Some (identity, jb_value_int Y (pkt_body packet) ''tcpPort'' (of_nat kMinTcpPort)))
                else None))"

section \<open>A new connection\<close>

record ('crt, 'p) conn =
  cn_fd :: int
  cn_server_side :: bool
  cn_defaults_ok :: bool
  cn_setup_ok :: bool
  cn_handshake :: "hs list"
  cn_peer :: "'crt option"
  cn_send :: "tx list"
  cn_recv :: "rx list"
  cn_peer_host :: "string option"
  cn_show_on_connect :: bool
  cn_tcp_port :: i32
  cn_plugins :: "'p list"

datatype outcome =
    OwnIdentity | AlreadyConnected | NoTlsSession | HandshakeFailed | NoCertificate
  | CertificateMismatch | SendFailed | ReadFailed | BadPacket | IdentityMismatch
  | Stuck
  | Aborted
  | Connected nat

text \<open>\<open>Aborted\<close> is the uncaught exception of \<^const>\<open>peer_cert_pem\<close>, which ends the process.\<close>

definition connected_to :: "('p, 'fs) client \<Rightarrow> string \<Rightarrow> bool" where
  "connected_to c k = (case device c k of None \<Rightarrow> False | Some s \<Rightarrow> \<not> disconnected (ses c s))"

text \<open>The TLS part: handshake, certificate checks, exchange of identities inside the channel.\<close>

definition pin_check :: "bool \<Rightarrow> paired_device_info option \<Rightarrow> string \<Rightarrow> outcome option" where
  "pin_check server_side stored peer_pem =
     (let paired = (stored \<noteq> None);
          stored_pem = (case stored of Some d \<Rightarrow> certificate_pem d | None \<Rightarrow> [])
      in if peer_pem = [] \<and> server_side then Some NoCertificate
         else if paired \<and> stored_pem \<noteq> [] \<and> peer_pem \<noteq> stored_pem \<and> server_side
           then Some CertificateMismatch
         else None)"

definition secure_identity ::
    "yyjson \<Rightarrow> i64 \<Rightarrow> device_info \<Rightarrow> device_info \<Rightarrow> ('crt, 'p) conn \<Rightarrow> outcome + device_info" where
  "secure_identity Y clock own identity cn =
     (case fst (send_all_tls (serialize Y clock (make_identity_packet Y own None None None)) (cn_send cn)) of
        Waiting \<Rightarrow> Inl Stuck
      | Returned False \<Rightarrow> Inl SendFailed
      | Returned True \<Rightarrow>
          (case fst (read_line_tls kMaxPacketSize (cn_recv cn)) of
             Waiting \<Rightarrow> Inl Stuck
           | Returned None \<Rightarrow> Inl ReadFailed
           | Returned (Some line) \<Rightarrow>
               (case parse_packet Y line of
                  None \<Rightarrow> Inl BadPacket
                | Some packet \<Rightarrow>
                    if pkt_type packet \<noteq> Identity then Inl BadPacket
                    else
                      (let secure_info = info_from_identity Y packet
                       in if di_id secure_info \<noteq> di_id identity \<or>
                             protocol_version secure_info \<noteq> protocol_version identity
                          then Inl IdentityMismatch
                          else Inr secure_info))))"

text \<open>The clean-up of the session that the new one replaces.\<close>

definition close_session :: "nat \<Rightarrow> ('p, 'fs) client \<Rightarrow> ('p, 'fs) client" where
  "close_session s = upd_ses s (\<lambda>x. x\<lparr>disconnected := True, ses_fd := (if 0 \<le> ses_fd x then -1 else ses_fd x),
     has_tls := False\<rparr>)"

definition enter_session :: "'p session \<Rightarrow> ('p, 'fs) client \<Rightarrow> nat \<times> ('p, 'fs) client" where
  "enter_session x c =
     (let s = length (cl_heap c);
          old_session = map_of (cl_sessions c) (di_id (ses_info x));
          c = c\<lparr>cl_heap := cl_heap c @ [x],
                cl_sessions := AList.update (di_id (ses_info x)) s (cl_sessions c)\<rparr>
      in (s, case old_session of Some t \<Rightarrow> close_session t c | None \<Rightarrow> c))"

definition greet ::
    "yyjson \<Rightarrow> 'p plugin_class \<Rightarrow> i64 \<Rightarrow> device_info \<Rightarrow> ('crt, 'p) conn \<Rightarrow> nat \<Rightarrow> ('p, 'fs) client \<Rightarrow>
     ('p, 'fs) client" where
  "greet Y K clock identity cn s c =
     (let c = (if paired (ses c s) \<and> cn_show_on_connect cn
               then post_notification ''kdeconnect'' (di_name (ses_info (ses c s))) ''Connected''
                      (''connect_'' @ di_id (ses_info (ses c s))) c
               else c);
          c = (if \<not> paired (ses c s)
               then snd (send_packet Y clock (di_id identity) (pair_packet Y False None) c)
               else c);
          c = snd (send_packet Y clock (di_id identity)
                (make_identity_packet Y (local_device c) (Some (di_id identity))
                   (Some (protocol_version identity)) (Some (cn_tcp_port cn))) c)
      in notify_plugins_connected K Y clock s c)"

definition new_session ::
    "('crt, 'key) mbedtls \<Rightarrow> ('crt, 'p) conn \<Rightarrow> paired_device_info option \<Rightarrow> string \<Rightarrow> device_info \<Rightarrow> 'p session" where
  "new_session M cn stored peer_pem secure_info =
     \<lparr>ses_info = secure_info, ses_pair_state = (if stored \<noteq> None then Paired else NotPaired),
      pairing_timestamp = 0, paired = (stored \<noteq> None), ses_cert_pem = peer_pem,
      peer_pubkey = peer_pubkey_bytes M (cn_peer cn),
      peer_host = (case cn_peer_host cn of Some h \<Rightarrow> h | None \<Rightarrow> []),
      has_tls = True, ses_fd = cn_fd cn, send_queue = [], disconnected = False, plugins = cn_plugins cn\<rparr>"

definition handle_new_connection ::
    "yyjson \<Rightarrow> 'fs nxfs \<Rightarrow> ('crt, 'key) mbedtls \<Rightarrow> 'p plugin_class \<Rightarrow> i64 \<Rightarrow> device_info \<Rightarrow>
     ('crt, 'p) conn \<Rightarrow> ('p, 'fs) client \<Rightarrow> outcome \<times> ('p, 'fs) client" where
  "handle_new_connection Y F M K clock identity cn c =
     (if di_id identity = [] \<or> di_id identity = di_id (local_device c) then (OwnIdentity, c)
      else if connected_to c (di_id identity) then (AlreadyConnected, c)
      else
        (let stored = load_paired_device Y F (cl_base c) (di_id identity) (cl_fs c)
         in case create_session (cn_defaults_ok cn) (cn_setup_ok cn) (cn_fd cn) (cn_server_side cn) of
              None \<Rightarrow> (NoTlsSession, c)
            | Some tls_session \<Rightarrow>
                (case fst (perform_tls_handshake (cn_handshake cn)) of
                   Waiting \<Rightarrow> (Stuck, c)
                 | Returned False \<Rightarrow> (HandshakeFailed, c)
                 | Returned True \<Rightarrow>
                     (case peer_cert_pem M (cn_peer cn) of
                        None \<Rightarrow> (Aborted, c)
                      | Some peer_pem \<Rightarrow>
                          (case pin_check (cn_server_side cn) stored peer_pem of
                             Some r \<Rightarrow> (r, c)
                           | None \<Rightarrow>
                               (case secure_identity Y clock (local_device c) identity cn of
                                  Inl r \<Rightarrow> (r, c)
                                | Inr secure_info \<Rightarrow>
                                    (let x = new_session M cn stored peer_pem secure_info;
                                         (s, c) = enter_session x c
                                     in (Connected s, greet Y K clock identity cn s c))))))))"

section \<open>The I/O loop of a session\<close>

text \<open>
  One iteration after the other. \<open>Stop\<close> stands for \<open>running_\<close> or \<open>disconnected\<close> being changed from
  outside; a \<open>select\<close> result is ready, timed out, interrupted or an error; the TLS results of the
  sends and of the line read follow it.
\<close>

datatype io_event =
    IoIdle
  | IoInterrupted
  | IoError
  | IoReady "rx list"

datatype drain_result = Drained | DrainFailed | DrainStuck

fun drain_sends :: "string list \<Rightarrow> tx list \<Rightarrow> drain_result \<times> string list \<times> string \<times> tx list" where
  "drain_sends [] es = (Drained, [], [], es)"
| "drain_sends (payload # queue) es =
     (case send_all_tls payload es of
        (Returned True, sent, es) \<Rightarrow>
          (case drain_sends queue es of (r, q, out, es) \<Rightarrow> (r, q, sent @ out, es))
      | (Returned False, sent, es) \<Rightarrow> (DrainFailed, queue, sent, es)
      | (Waiting, sent, es) \<Rightarrow> (DrainStuck, queue, sent, es))"

definition end_session :: "nat \<Rightarrow> ('p, 'fs) client \<Rightarrow> ('p, 'fs) client" where
  "end_session s = close_session s"

datatype io_status = IoContinue | IoEnded | IoBlocked

definition io_iteration ::
    "yyjson \<Rightarrow> 'fs nxfs \<Rightarrow> ('crt, 'key) mbedtls \<Rightarrow> 'p plugin_class \<Rightarrow> i64 \<Rightarrow> nat \<Rightarrow> tx list \<Rightarrow> io_event \<Rightarrow>
     ('p, 'fs) client \<Rightarrow> io_status \<times> string \<times> ('p, 'fs) client" where
  "io_iteration Y F M K clock s sends ev c =
     (if disconnected (ses c s) then (IoEnded, [], end_session s c)
      else
        (let (r, q, out, _) = drain_sends (send_queue (ses c s)) sends;
             c = upd_ses s (\<lambda>x. x\<lparr>send_queue := q\<rparr>) c
         in case r of
              DrainStuck \<Rightarrow> (IoBlocked, out, c)
            | DrainFailed \<Rightarrow> (IoEnded, out, end_session s c)
            | Drained \<Rightarrow>
                if ses_fd (ses c s) < 0 then (IoEnded, out, end_session s c)
                else case ev of
                  IoIdle \<Rightarrow> (IoContinue, out, c)
                | IoInterrupted \<Rightarrow> (IoContinue, out, c)
                | IoError \<Rightarrow> (IoEnded, out, end_session s c)
                | IoReady es \<Rightarrow>
                    (case fst (read_line_tls kMaxPacketSize es) of
                       Waiting \<Rightarrow> (IoBlocked, out, c)
                     | Returned None \<Rightarrow> (IoEnded, out, end_session s c)
                     | Returned (Some line) \<Rightarrow> (IoContinue, out, handle_packet Y F M K clock s line c))))"

end
