(* ===== verification/Pairing_Moves.thy ===== *)
theory Pairing_Moves
  imports Connection
begin

text \<open>
  The client as a state machine: connections, I/O iterations of the sessions and requests of the
  user, in any order and number, one at a time (\<open>session_mutex_\<close> and the per-session I/O thread
  serialise the parts that share state; the threads' interleaving inside an operation is not
  modelled). Invariants of the reachable clients and what pairing guarantees.
\<close>

section \<open>Steps\<close>

datatype ('crt, 'p) action =
    ANewConnection i64 device_info "('crt, 'p) conn"
  | AIo i64 nat "tx list" io_event
  | ARequest i64 string
  | AAccept i64 string
  | AReject i64 string
  | AUnpair i64 string

inductive step ::
    "yyjson \<Rightarrow> 'fs nxfs \<Rightarrow> ('crt, 'key) mbedtls \<Rightarrow> 'p plugin_class \<Rightarrow> ('crt, 'p) action \<Rightarrow>
     ('p, 'fs) client \<Rightarrow> ('p, 'fs) client \<Rightarrow> bool"
  for Y F M K where
  step_connect: "handle_new_connection Y F M K t i cn c = (r, c') \<Longrightarrow> r \<noteq> Aborted \<Longrightarrow>
     step Y F M K (ANewConnection t i cn) c c'"
| step_io: "s < length (cl_heap c) \<Longrightarrow> io_iteration Y F M K t s sends ev c = (st, out, c') \<Longrightarrow>
     step Y F M K (AIo t s sends ev) c c'"
| step_request: "step Y F M K (ARequest t k) c (request_pair Y t k c)"
| step_accept: "step Y F M K (AAccept t k) c (accept_pair Y F K t k c)"
| step_reject: "step Y F M K (AReject t k) c (reject_pair Y F t k c)"
| step_unpair: "step Y F M K (AUnpair t k) c (unpair Y F t k c)"

inductive_cases step_connectE: "step Y F M K (ANewConnection t i cn) c c'"
inductive_cases step_ioE: "step Y F M K (AIo t s sends ev) c c'"
inductive_simps step_request_iff: "step Y F M K (ARequest t k) c c'"
inductive_simps step_accept_iff: "step Y F M K (AAccept t k) c c'"

inductive steps ::
    "yyjson \<Rightarrow> 'fs nxfs \<Rightarrow> ('crt, 'key) mbedtls \<Rightarrow> 'p plugin_class \<Rightarrow> ('crt, 'p) action list \<Rightarrow>
     ('p, 'fs) client \<Rightarrow> ('p, 'fs) client \<Rightarrow> bool"
  for Y F M K where
  steps_Nil: "steps Y F M K [] c c"
| steps_snoc: "steps Y F M K as c c1 \<Longrightarrow> step Y F M K a c1 c2 \<Longrightarrow> steps Y F M K (as @ [a]) c c2"

definition fresh_client :: "('p, 'fs) client \<Rightarrow> bool" where
  "fresh_client c \<longleftrightarrow> cl_heap c = [] \<and> cl_sessions c = []"

section \<open>Building blocks\<close>

text \<open>
  Every operation is a chain of a few updates. \<open>touch\<close> is one of them on session \<open>s\<close>: it keeps the
  identity of the session, and all other sessions, the map and the identity of the client.
\<close>

definition touches :: "nat \<Rightarrow> ('p, 'fs) client \<Rightarrow> ('p, 'fs) client \<Rightarrow> bool" where
  "touches s c c' \<longleftrightarrow>
     length (cl_heap c') = length (cl_heap c) \<and> cl_sessions c' = cl_sessions c \<and>
     local_device c' = local_device c \<and> cl_base c' = cl_base c \<and> cl_pubkey c' = cl_pubkey c \<and>
     (\<forall>t < length (cl_heap c). ses_info (ses c' t) = ses_info (ses c t) \<and>
        ses_cert_pem (ses c' t) = ses_cert_pem (ses c t) \<and>
        (disconnected (ses c t) \<longrightarrow> disconnected (ses c' t)) \<and>
        (t \<noteq> s \<longrightarrow> core (ses c' t) = core (ses c t)))"

lemma touches_refl [simp, intro]: "touches s c c"
  by (simp add: touches_def)

lemma touches_trans [trans]: "touches s a b \<Longrightarrow> touches s b c \<Longrightarrow> touches s a c"
  by (simp add: touches_def)

lemma same_core_touches: "same_core c c' \<Longrightarrow> touches s c c'"
  using same_core_length [of c c'] same_core_ses [of c c']
  by (auto simp: touches_def same_core_def core_def)

lemma ses_upd: "s < length (cl_heap c) \<Longrightarrow> ses (upd_ses s f c) t = (if t = s then f (ses c s) else ses c t)"
  by (simp add: ses_def upd_ses_def)

lemma upd_ses_sel [simp]:
  "length (cl_heap (upd_ses s f c)) = length (cl_heap c)" "cl_sessions (upd_ses s f c) = cl_sessions c"
  "cl_fs (upd_ses s f c) = cl_fs c" "local_device (upd_ses s f c) = local_device c"
  "cl_base (upd_ses s f c) = cl_base c" "cl_pubkey (upd_ses s f c) = cl_pubkey c"
  by (simp_all add: upd_ses_def)

lemma touches_upd:
  assumes "s < length (cl_heap c)" "ses_info (f (ses c s)) = ses_info (ses c s)"
    "ses_cert_pem (f (ses c s)) = ses_cert_pem (ses c s)"
    "disconnected (ses c s) \<longrightarrow> disconnected (f (ses c s))"
  shows "touches s c (upd_ses s f c)"
  using assms by (auto simp: touches_def ses_upd)

lemma ses_other [simp]:
  "ses (post_notification a b t n c) s = ses c s" "ses (save_pairing Y F u c) s = ses c s"
  "ses (remove_pairing F k c) s = ses c s"
  by (simp_all add: ses_def post_notification_def save_pairing_def remove_pairing_def)

lemma sel_other [simp]:
  "cl_heap (post_notification a b t n c) = cl_heap c" "cl_heap (save_pairing Y F u c) = cl_heap c"
  "cl_heap (remove_pairing F k c) = cl_heap c"
  "cl_sessions (post_notification a b t n c) = cl_sessions c" "cl_sessions (save_pairing Y F u c) = cl_sessions c"
  "cl_sessions (remove_pairing F k c) = cl_sessions c"
  "cl_base (post_notification a b t n c) = cl_base c" "cl_base (save_pairing Y F u c) = cl_base c"
  "cl_base (remove_pairing F k c) = cl_base c"
  "cl_fs (post_notification a b t n c) = cl_fs c"
  by (simp_all add: post_notification_def save_pairing_def remove_pairing_def)

lemma touches_other:
  "touches s c (post_notification a b t n c)" "touches s c (save_pairing Y F u c)"
  "touches s c (remove_pairing F k c)"
  by (simp_all add: touches_def) (simp_all add: post_notification_def save_pairing_def remove_pairing_def)

lemma touches_mark:
  "s < length (cl_heap c) \<Longrightarrow> touches s c (mark_paired s c)"
  "s < length (cl_heap c) \<Longrightarrow> touches s c (mark_unpaired s c)"
  "s < length (cl_heap c) \<Longrightarrow> touches s c (close_session s c)"
  by (auto simp: mark_paired_def mark_unpaired_def close_session_def intro!: touches_upd)

lemma touches_length: "touches s c c' \<Longrightarrow> length (cl_heap c') = length (cl_heap c)"
  by (simp add: touches_def)

section \<open>Abstract moves\<close>

text \<open>
  The specification the operations refine: what can happen to the pairing state, with its guard.
  Between two moves only queues, plugin states and notifications change.
\<close>

datatype 'p move =
    MRequest nat i64
  | MByPeer nat i64
  | MConfirm nat
  | MAccept nat
  | MUnpair nat
  | MForget string
  | MClose nat
  | MEnter "'p session"

definition pair_up :: "yyjson \<Rightarrow> 'fs nxfs \<Rightarrow> nat \<Rightarrow> ('p, 'fs) client \<Rightarrow> ('p, 'fs) client" where
  "pair_up Y F s c = save_pairing Y F s (mark_paired s c)"

definition pair_down :: "'fs nxfs \<Rightarrow> nat \<Rightarrow> ('p, 'fs) client \<Rightarrow> ('p, 'fs) client" where
  "pair_down F s c = remove_pairing F (di_id (ses_info (ses c s))) (mark_unpaired s c)"

primrec move_result :: "yyjson \<Rightarrow> 'fs nxfs \<Rightarrow> 'p move \<Rightarrow> ('p, 'fs) client \<Rightarrow> ('p, 'fs) client" where
  "move_result Y F (MRequest s ts) c =
     upd_ses s (\<lambda>x. x\<lparr>ses_pair_state := Requested, pairing_timestamp := ts\<rparr>) c"
| "move_result Y F (MByPeer s ts) c =
     upd_ses s (\<lambda>x. x\<lparr>ses_pair_state := RequestedByPeer, pairing_timestamp := ts\<rparr>) c"
| "move_result Y F (MConfirm s) c = pair_up Y F s c"
| "move_result Y F (MAccept s) c = pair_up Y F s c"
| "move_result Y F (MUnpair s) c = pair_down F s c"
| "move_result Y F (MForget k) c = remove_pairing F k c"
| "move_result Y F (MClose s) c = close_session s c"
| "move_result Y F (MEnter x) c = snd (enter_session x c)"

definition live_at :: "('p, 'fs) client \<Rightarrow> nat \<Rightarrow> bool" where
  "live_at c s \<longleftrightarrow> s < length (cl_heap c) \<and> \<not> disconnected (ses c s)"

primrec move_guard :: "yyjson \<Rightarrow> 'fs nxfs \<Rightarrow> 'p move \<Rightarrow> ('p, 'fs) client \<Rightarrow> bool" where
  "move_guard Y F (MRequest s ts) c \<longleftrightarrow> live_at c s \<and> \<not> paired (ses c s)"
| "move_guard Y F (MByPeer s ts) c \<longleftrightarrow> live_at c s"
| "move_guard Y F (MConfirm s) c \<longleftrightarrow> live_at c s \<and> ses_pair_state (ses c s) = Requested \<and> ses_cert_pem (ses c s) \<noteq> []"
| "move_guard Y F (MAccept s) c \<longleftrightarrow> live_at c s \<and> ses_cert_pem (ses c s) \<noteq> []"
| "move_guard Y F (MUnpair s) c \<longleftrightarrow>
     s < length (cl_heap c) \<and> map_of (cl_sessions c) (di_id (ses_info (ses c s))) = Some s"
| "move_guard Y F (MForget k) c \<longleftrightarrow> map_of (cl_sessions c) k = None"
| "move_guard Y F (MClose s) c \<longleftrightarrow> s < length (cl_heap c)"
| "move_guard Y F (MEnter x) c \<longleftrightarrow>
     nul_free (di_id (ses_info x)) \<and> \<not> disconnected x \<and>
     (paired x \<longleftrightarrow> load_paired_device Y F (cl_base c) (di_id (ses_info x)) (cl_fs c) \<noteq> None) \<and>
     ses_pair_state x = (if paired x then Paired else NotPaired)"

inductive moves ::
    "yyjson \<Rightarrow> 'fs nxfs \<Rightarrow> 'p move list \<Rightarrow> ('p, 'fs) client \<Rightarrow> ('p, 'fs) client \<Rightarrow> bool"
  for Y F where
  moves_quiet: "same_core c c' \<Longrightarrow> moves Y F [] c c'"
| moves_move: "same_core c c1 \<Longrightarrow> move_guard Y F m c1 \<Longrightarrow> moves Y F ms (move_result Y F m c1) c' \<Longrightarrow>
     moves Y F (m # ms) c c'"

lemma moves_one:
  "same_core c c1 \<Longrightarrow> move_guard Y F m c1 \<Longrightarrow> same_core (move_result Y F m c1) c' \<Longrightarrow> moves Y F [m] c c'"
  by (auto intro: moves_move moves_quiet)

lemma moves_same_core: "moves Y F ms c c' \<Longrightarrow> same_core c' c'' \<Longrightarrow> moves Y F ms c c''"
  by (induction rule: moves.induct) (auto intro: moves_quiet moves_move same_core_trans)

lemma same_core_moves: "same_core c0 c \<Longrightarrow> moves Y F ms c c' \<Longrightarrow> moves Y F ms c0 c'"
  by (erule moves.cases) (auto intro: moves_quiet moves_move same_core_trans)

section \<open>The invariant\<close>

definition inv :: "('p, 'fs) client \<Rightarrow> bool" where
  "inv c \<longleftrightarrow> um_wf (cl_sessions c) \<and>
     (\<forall>k s. map_of (cl_sessions c) k = Some s \<longrightarrow> s < length (cl_heap c) \<and> di_id (ses_info (ses c s)) = k) \<and>
     (\<forall>s < length (cl_heap c). nul_free (di_id (ses_info (ses c s))) \<and>
        (ses_pair_state (ses c s) = Paired \<longrightarrow> paired (ses c s)) \<and>
        (\<not> disconnected (ses c s) \<longrightarrow> map_of (cl_sessions c) (di_id (ses_info (ses c s))) = Some s))"

lemma invD:
  assumes "inv c"
  shows inv_wf: "um_wf (cl_sessions c)"
    and inv_map: "map_of (cl_sessions c) k = Some s \<Longrightarrow> s < length (cl_heap c) \<and> di_id (ses_info (ses c s)) = k"
    and inv_nul: "s < length (cl_heap c) \<Longrightarrow> nul_free (di_id (ses_info (ses c s)))"
    and inv_pair: "s < length (cl_heap c) \<Longrightarrow> ses_pair_state (ses c s) = Paired \<Longrightarrow> paired (ses c s)"
    and inv_live: "s < length (cl_heap c) \<Longrightarrow> \<not> disconnected (ses c s) \<Longrightarrow>
      map_of (cl_sessions c) (di_id (ses_info (ses c s))) = Some s"
  using assms unfolding inv_def by blast+

lemma inv_fresh: "fresh_client c \<Longrightarrow> inv c"
  by (simp add: inv_def fresh_client_def)

lemma same_core_all:
  assumes "same_core c c'"
  shows "length (cl_heap c') = length (cl_heap c)" "cl_sessions c' = cl_sessions c" "cl_fs c' = cl_fs c"
    "cl_base c' = cl_base c" "cl_pubkey c' = cl_pubkey c" "local_device c' = local_device c"
    and "s < length (cl_heap c) \<Longrightarrow> ses_info (ses c' s) = ses_info (ses c s) \<and>
       ses_pair_state (ses c' s) = ses_pair_state (ses c s) \<and> paired (ses c' s) = paired (ses c s) \<and>
       ses_cert_pem (ses c' s) = ses_cert_pem (ses c s) \<and> disconnected (ses c' s) = disconnected (ses c s)"
  using same_core_length [OF assms] same_core_ses [OF assms, of s] assms
  by (simp_all add: same_core_def core_def)

lemma inv_same_core: "same_core c c' \<Longrightarrow> inv c \<Longrightarrow> inv c'"
  using same_core_all [of c c'] unfolding inv_def by metis

lemma ses_append: "s < length (cl_heap c) \<Longrightarrow> ses (c\<lparr>cl_heap := cl_heap c @ [x], cl_sessions := m\<rparr>) s = ses c s"
  "ses (c\<lparr>cl_heap := cl_heap c @ [x], cl_sessions := m\<rparr>) (length (cl_heap c)) = x"
  by (simp_all add: ses_def nth_append)

text \<open>Moves on one session keep the invariant when they do not break the link of state and flag.\<close>

lemma inv_touches:
  assumes "inv c" "touches s c c'"
    and "s < length (cl_heap c) \<Longrightarrow> ses_pair_state (ses c' s) = Paired \<Longrightarrow> paired (ses c' s)"
  shows "inv c'"
  unfolding inv_def
proof (intro conjI allI impI)
  note t = assms(2) [unfolded touches_def]
  show "um_wf (cl_sessions c')" using assms(1) t by (simp add: inv_def)
  show "u < length (cl_heap c')" "di_id (ses_info (ses c' u)) = k" if "map_of (cl_sessions c') k = Some u" for k u
    using assms(1) t that by (auto simp: inv_def)
  fix u assume u: "u < length (cl_heap c')"
  show "nul_free (di_id (ses_info (ses c' u)))" using assms(1) t u by (simp add: inv_def)
  show "paired (ses c' u)" if "ses_pair_state (ses c' u) = Paired"
    using assms(1,3) t u that by (cases "u = s") (auto simp: inv_def core_def)
  show "map_of (cl_sessions c') (di_id (ses_info (ses c' u))) = Some u" if "\<not> disconnected (ses c' u)"
    using assms(1) t u that by (auto simp: inv_def)
qed

lemma enter_session_eq:
  "snd (enter_session x c) =
     (let c1 = c\<lparr>cl_heap := cl_heap c @ [x], cl_sessions := AList.update (di_id (ses_info x)) (length (cl_heap c)) (cl_sessions c)\<rparr>
      in case map_of (cl_sessions c) (di_id (ses_info x)) of Some t \<Rightarrow> close_session t c1 | None \<Rightarrow> c1)"
  by (simp add: enter_session_def Let_def)

lemma ses_enter:
  assumes "inv c" "s < Suc (length (cl_heap c))"
  shows "core (ses (snd (enter_session x c)) s) =
     (if s = length (cl_heap c) then core x
      else if map_of (cl_sessions c) (di_id (ses_info x)) = Some s
        then core (ses c s\<lparr>disconnected := True, ses_fd := (if 0 \<le> ses_fd (ses c s) then -1 else ses_fd (ses c s)), has_tls := False\<rparr>)
      else core (ses c s))"
proof (cases "map_of (cl_sessions c) (di_id (ses_info x))")
  case None
  then show ?thesis using assms(2) by (auto simp: enter_session_eq Let_def ses_def nth_append)
next
  case (Some t)
  then have "t < length (cl_heap c)" using assms(1) by (auto simp: inv_def)
  then show ?thesis using Some assms(2)
    by (auto simp: enter_session_eq Let_def ses_upd close_session_def ses_def nth_append upd_ses_def nth_list_update)
qed

lemma enter_sel:
  "length (cl_heap (snd (enter_session x c))) = Suc (length (cl_heap c))"
  "cl_sessions (snd (enter_session x c)) = AList.update (di_id (ses_info x)) (length (cl_heap c)) (cl_sessions c)"
  "cl_fs (snd (enter_session x c)) = cl_fs c" "cl_base (snd (enter_session x c)) = cl_base c"
  "local_device (snd (enter_session x c)) = local_device c" "fst (enter_session x c) = length (cl_heap c)"
  by (auto simp: enter_session_eq enter_session_def Let_def close_session_def split: option.split)

lemma inv_enter:
  assumes "inv c" "move_guard Y F (MEnter x) c"
  shows "inv (snd (enter_session x c))"
  unfolding inv_def
proof (intro conjI allI impI)
  let ?c = "snd (enter_session x c)" and ?n = "length (cl_heap c)" and ?k = "di_id (ses_info x)"
  note e = ses_enter [OF assms(1), of _ x]
  have f: "ses_info (ses ?c u) = (if u = ?n then ses_info x else ses_info (ses c u))"
    "ses_pair_state (ses ?c u) = (if u = ?n then ses_pair_state x else ses_pair_state (ses c u))"
    "paired (ses ?c u) = (if u = ?n then paired x else paired (ses c u))"
    "disconnected (ses ?c u) = (if u = ?n then disconnected x else map_of (cl_sessions c) ?k = Some u \<or> disconnected (ses c u))"
    if "u < Suc ?n" for u
    using e [OF that] by (auto simp: core_def split: if_splits)
  have m: "map_of (cl_sessions ?c) k = (if k = ?k then Some ?n else map_of (cl_sessions c) k)" for k
    by (simp add: enter_sel)
  show "um_wf (cl_sessions ?c)" using inv_wf [OF assms(1)] by (simp add: enter_sel)
  show "u < length (cl_heap ?c)" if "map_of (cl_sessions ?c) k = Some u" for k u
    using inv_map [OF assms(1), of k u] that m [of k] by (cases "k = ?k") (simp_all add: enter_sel)
  show "di_id (ses_info (ses ?c u)) = k" if "map_of (cl_sessions ?c) k = Some u" for k u
    using inv_map [OF assms(1), of k u] that m [of k] f(1) [of u] by (cases "k = ?k") auto
  fix u assume "u < length (cl_heap ?c)"
  then have u: "u < Suc ?n" by (simp add: enter_sel)
  show "nul_free (di_id (ses_info (ses ?c u)))"
    using assms(2) u f(1) [OF u] inv_nul [OF assms(1), of u] by (cases "u = ?n") auto
  show "paired (ses ?c u)" if "ses_pair_state (ses ?c u) = Paired"
    using assms(2) u f(2,3) [OF u] that inv_pair [OF assms(1), of u] by (cases "u = ?n") (auto split: if_splits)
  show "map_of (cl_sessions ?c) (di_id (ses_info (ses ?c u))) = Some u" if "\<not> disconnected (ses ?c u)"
    using u f(1,4) [OF u] that inv_live [OF assms(1), of u] m [of "di_id (ses_info (ses ?c u))"]
    by (cases "u = ?n") auto
qed

lemma pair_up_touches:
  "s < length (cl_heap c) \<Longrightarrow> touches s c (pair_up Y F s c)"
  unfolding pair_up_def by (rule touches_trans [OF touches_mark(1) touches_other(2)])

lemma pair_down_touches:
  "s < length (cl_heap c) \<Longrightarrow> touches s c (pair_down F s c)"
  unfolding pair_down_def by (rule touches_trans [OF touches_mark(2) touches_other(3)])

lemma ses_pair_up: "s < length (cl_heap c) \<Longrightarrow> ses (pair_up Y F s c) t =
    (if t = s then (ses c s)\<lparr>ses_pair_state := Paired, paired := True\<rparr> else ses c t)"
  by (simp add: pair_up_def mark_paired_def ses_upd)

lemma ses_pair_down: "s < length (cl_heap c) \<Longrightarrow> ses (pair_down F s c) t =
    (if t = s then (ses c s)\<lparr>ses_pair_state := NotPaired, paired := False\<rparr> else ses c t)"
  by (simp add: pair_down_def mark_unpaired_def ses_upd)

lemma inv_move:
  assumes i: "inv c" and g: "move_guard Y F m c"
  shows "inv (move_result Y F m c)"
proof (cases m)
  case (MRequest s ts)
  then have "s < length (cl_heap c)" using g by (simp add: live_at_def)
  then show ?thesis
    using MRequest by (intro inv_touches [OF i, where s = s]) (simp_all add: touches_upd ses_upd)
next
  case (MByPeer s ts)
  then have "s < length (cl_heap c)" using g by (simp add: live_at_def)
  then show ?thesis
    using MByPeer by (intro inv_touches [OF i, where s = s]) (simp_all add: touches_upd ses_upd)
next
  case (MConfirm s)
  then have "s < length (cl_heap c)" using g by (simp add: live_at_def)
  then show ?thesis
    using MConfirm by (intro inv_touches [OF i, where s = s]) (simp_all add: pair_up_touches ses_pair_up)
next
  case (MAccept s)
  then have "s < length (cl_heap c)" using g by (simp add: live_at_def)
  then show ?thesis
    using MAccept by (intro inv_touches [OF i, where s = s]) (simp_all add: pair_up_touches ses_pair_up)
next
  case (MUnpair s)
  then have "s < length (cl_heap c)" using g by simp
  then show ?thesis
    using MUnpair by (intro inv_touches [OF i, where s = s]) (simp_all add: pair_down_touches ses_pair_down)
next
  case (MForget k)
  then show ?thesis
    by (intro inv_touches [OF i, where s = "length (cl_heap c)"]) (simp_all add: touches_other)
next
  case (MClose s)
  then have s: "s < length (cl_heap c)" using g by simp
  then have "ses_pair_state (ses c s) = Paired \<longrightarrow> paired (ses c s)" using i by (simp add: inv_def)
  then show ?thesis
    using MClose s touches_mark(3) [OF s]
    by (intro inv_touches [OF i, where s = s]) (simp_all add: close_session_def ses_upd)
next
  case (MEnter x)
  then show ?thesis using inv_enter [OF i, of Y F x] g by simp
qed

lemma inv_moves: "moves Y F ms c c' \<Longrightarrow> inv c \<Longrightarrow> inv c'"
  by (induction rule: moves.induct) (auto intro: inv_same_core inv_move)

section \<open>The operations refine the moves\<close>

text \<open>Which action may cause which move, seen in the client before the action.\<close>

definition caused :: "('crt, 'p) action \<Rightarrow> ('p, 'fs) client \<Rightarrow> 'p move \<Rightarrow> bool" where
  "caused a c m \<longleftrightarrow>
     (case m of
        MRequest s ts \<Rightarrow> \<exists>t k. a = ARequest t k \<and> device c k = Some s
      | MAccept s \<Rightarrow> \<exists>t k. a = AAccept t k \<and> device c k = Some s
      | MByPeer s ts \<Rightarrow> \<exists>t sends ev. a = AIo t s sends ev
      | MConfirm s \<Rightarrow> \<exists>t sends ev. a = AIo t s sends ev
      | MUnpair s \<Rightarrow> (\<exists>t sends ev. a = AIo t s sends ev) \<or>
          (\<exists>t k. (a = AReject t k \<or> a = AUnpair t k) \<and> device c k = Some s)
      | MForget k \<Rightarrow> \<exists>t. a = AUnpair t k
      | MClose s \<Rightarrow> \<exists>t sends ev. a = AIo t s sends ev
      | MEnter x \<Rightarrow> \<exists>t i cn. a = ANewConnection t i cn \<and> di_id (ses_info x) = di_id i)"

definition io_caused :: "nat \<Rightarrow> 'p move \<Rightarrow> bool" where
  "io_caused s m \<longleftrightarrow> (\<exists>ts. m = MByPeer s ts) \<or> m = MConfirm s \<or> m = MUnpair s \<or> m = MClose s"

lemma caused_io: "io_caused s m \<Longrightarrow> caused (AIo t s sends ev) c m"
  by (auto simp: io_caused_def caused_def)

lemma same_core_post: "same_core c (post_notification a b t n c)"
  by (simp add: same_core_def post_notification_def)

lemma live_current: "inv c \<Longrightarrow> live_at c s \<Longrightarrow> map_of (cl_sessions c) (di_id (ses_info (ses c s))) = Some s"
  using inv_live by (auto simp: live_at_def)

lemma live_same_core: "same_core c c' \<Longrightarrow> live_at c s \<Longrightarrow> live_at c' s"
  using same_core_all(1,7) by (metis live_at_def)

lemma handle_pair_moves:
  assumes i: "inv c" and l: "live_at c s"
  shows "\<exists>ms. moves Y F ms c (handle_pair_packet Y F M K t s body c) \<and> (\<forall>m \<in> set ms. io_caused s m)"
proof -
  let ?ts = "jb_value_i64 Y body ''timestamp'' 0" and ?h = "handle_pair_packet Y F M K t s body c"
  consider (quiet) "same_core c ?h"
    | (confirm) "?h = post_notification ''kdeconnect'' (di_name (ses_info (ses c s))) ''Pair request accepted''
         (di_id (ses_info (ses c s)) @ ''_accepted'') (notify_plugins_connected K Y t s (pair_up Y F s c))"
       "ses_pair_state (ses c s) = Requested" "ses_cert_pem (ses c s) \<noteq> []"
    | (peer) "same_core (move_result Y F (MByPeer s ?ts) c) ?h"
    | (down) "same_core (pair_down F s c) ?h"
    by (force simp: handle_pair_packet_def Let_def pair_up_def pair_down_def same_core_post split: if_splits)
  then show ?thesis
  proof cases
    case quiet
    then show ?thesis using moves_quiet by (intro exI [of _ "[]"]) auto
  next
    case confirm
    have "moves Y F [MConfirm s] c ?h"
      using l confirm same_core_trans [OF same_core_notify same_core_post]
      by (intro moves_one [OF same_core_refl]) auto
    then show ?thesis by (intro exI [of _ "[MConfirm s]"]) (auto simp: io_caused_def)
  next
    case peer
    then have "moves Y F [MByPeer s ?ts] c ?h" using l by (intro moves_one [OF same_core_refl]) auto
    then show ?thesis by (intro exI [of _ "[MByPeer s ?ts]"]) (auto simp: io_caused_def)
  next
    case down
    then have "moves Y F [MUnpair s] c ?h"
      using l live_current [OF i l] by (intro moves_one [OF same_core_refl]) (auto simp: live_at_def)
    then show ?thesis by (intro exI [of _ "[MUnpair s]"]) (auto simp: io_caused_def)
  qed
qed

lemma handle_packet_moves:
  assumes "inv c" "live_at c s"
  shows "\<exists>ms. moves Y F ms c (handle_packet Y F M K t s line c) \<and> (\<forall>m \<in> set ms. io_caused s m)"
proof -
  have q: ?thesis if "same_core c (handle_packet Y F M K t s line c)"
    using moves_quiet [OF that] by (intro exI [of _ "[]"]) auto
  show ?thesis
  proof (cases "parse_packet Y line")
    case None
    then show ?thesis using q by (simp add: handle_packet_def)
  next
    case (Some p)
    then show ?thesis
      using q handle_pair_moves [OF assms, of Y F M K t "pkt_body p"]
      by (cases "pkt_type p = Pair_type") (auto simp: handle_packet_def same_core_dispatch)
  qed
qed

lemma same_core_queue: "same_core c (upd_ses s (\<lambda>x. x\<lparr>send_queue := q\<rparr>) c)"
  by (rule same_core_upd) (simp add: core_def)

lemma close_moves: "s < length (cl_heap c) \<Longrightarrow> same_core c c1 \<Longrightarrow> moves Y F [MClose s] c (close_session s c1)"
  by (rule moves_one [of c c1]) (auto simp: same_core_all)

lemma io_moves:
  assumes i: "inv c" and s: "s < length (cl_heap c)"
    and io: "io_iteration Y F M K t s sends ev c = (st, out, c')"
  shows "\<exists>ms. moves Y F ms c c' \<and> (\<forall>m \<in> set ms. io_caused s m)"
proof (cases "disconnected (ses c s)")
  case True
  then have "moves Y F [MClose s] c c'"
    using io close_moves [OF s same_core_refl] by (simp add: io_iteration_def end_session_def)
  then show ?thesis by (intro exI [of _ "[MClose s]"]) (auto simp: io_caused_def)
next
  case False
  obtain r q o' es where d: "drain_sends (send_queue (ses c s)) sends = (r, q, o', es)"
    by (cases "drain_sends (send_queue (ses c s)) sends") auto
  define c1 where "c1 = upd_ses s (\<lambda>x. x\<lparr>send_queue := q\<rparr>) c"
  have sc: "same_core c c1" by (simp add: c1_def same_core_queue)
  have l: "live_at c1 s" using live_same_core [OF sc] s False by (simp add: live_at_def)
  consider "c' = c1" | "c' = close_session s c1"
    | line where "c' = handle_packet Y F M K t s line c1"
    using io False d
    by (auto simp: io_iteration_def end_session_def c1_def [symmetric] Let_def
        split: drain_result.splits if_splits io_event.splits call.splits option.splits)
  then show ?thesis
  proof cases
    case 1
    then show ?thesis using moves_quiet [OF sc] by (intro exI [of _ "[]"]) auto
  next
    case 2
    then have "moves Y F [MClose s] c c'" using close_moves [OF s sc] by simp
    then show ?thesis by (intro exI [of _ "[MClose s]"]) (auto simp: io_caused_def)
  next
    case 3
    obtain ms where "moves Y F ms c1 c'" "\<forall>m \<in> set ms. io_caused s m"
      using handle_packet_moves [OF inv_same_core [OF sc i] l] 3 by blast
    then show ?thesis using same_core_moves [OF sc] by blast
  qed
qed

lemma send_packet_True:
  "send_packet Y t k p c = (True, c1) \<Longrightarrow>
     same_core c c1 \<and> (\<exists>s. device c k = Some s \<and> \<not> disconnected (ses c s))"
  using same_core_send [of c Y t k p] by (auto simp: send_packet_def split: option.splits if_splits)

lemma send_packet_False: "send_packet Y t k p c = (False, c1) \<Longrightarrow> c1 = c"
  by (auto simp: send_packet_def split: option.splits if_splits)

lemma send_live:
  assumes "inv c" "device c k = Some s" "send_packet Y t k p c = (True, c1)"
  shows "same_core c c1" "live_at c1 s" "di_id (ses_info (ses c1 s)) = k" "ses_info (ses c1 s) = ses_info (ses c s)"
    "paired (ses c1 s) = paired (ses c s)" "ses_cert_pem (ses c1 s) = ses_cert_pem (ses c s)"
    "map_of (cl_sessions c1) k = Some s" "s < length (cl_heap c1)"
proof -
  show sc: "same_core c c1" using send_packet_True [OF assms(3)] by simp
  have s: "s < length (cl_heap c)" "di_id (ses_info (ses c s)) = k" "\<not> disconnected (ses c s)"
    using inv_map [OF assms(1)] assms(2) send_packet_True [OF assms(3)] by (auto simp: device_def)
  then show "live_at c1 s" using live_same_core [OF sc] by (simp add: live_at_def)
  show "di_id (ses_info (ses c1 s)) = k" "ses_info (ses c1 s) = ses_info (ses c s)"
    "paired (ses c1 s) = paired (ses c s)" "ses_cert_pem (ses c1 s) = ses_cert_pem (ses c s)"
    "s < length (cl_heap c1)"
    using same_core_all [OF sc] s by simp_all
  show "map_of (cl_sessions c1) k = Some s"
    using same_core_all(2) [OF sc] assms(2) by (simp add: device_def)
qed

lemma request_moves:
  assumes "inv c"
  shows "\<exists>ms. moves Y F ms c (request_pair Y t k c) \<and> (\<forall>m \<in> set ms. caused (ARequest t k) c m)"
proof -
  have q: ?thesis if "request_pair Y t k c = c"
    using that by (intro exI [of _ "[]"]) (auto intro: moves_quiet)
  show ?thesis
  proof (cases "device c k")
    case None
    then show ?thesis using q by (simp add: request_pair_def)
  next
    case (Some s)
    obtain b c1 where sp: "send_packet Y t k (pair_packet Y True (Some (seconds_of t))) c = (b, c1)" by fastforce
    show ?thesis
    proof (cases "\<not> paired (ses c s) \<and> b")
      case True
      then have "send_packet Y t k (pair_packet Y True (Some (seconds_of t))) c = (True, c1)" using sp by simp
      note l = send_live [OF assms Some this]
      have "moves Y F [MRequest s (seconds_of t)] c (request_pair Y t k c)"
        using True sp Some l by (intro moves_one [OF l(1)]) (auto simp: request_pair_def Let_def)
      then show ?thesis using Some by (intro exI [of _ "[MRequest s (seconds_of t)]"]) (auto simp: caused_def)
    next
      case False
      moreover have "b \<or> c1 = c" using send_packet_False sp by (cases b) auto
      ultimately show ?thesis using q sp Some by (auto simp: request_pair_def Let_def)
    qed
  qed
qed

lemma accept_moves:
  assumes "inv c"
  shows "\<exists>ms. moves Y F ms c (accept_pair Y F K t k c) \<and> (\<forall>m \<in> set ms. caused (AAccept t k) c m)"
proof -
  have q: ?thesis if "accept_pair Y F K t k c = c"
    using that by (intro exI [of _ "[]"]) (auto intro: moves_quiet)
  show ?thesis
  proof (cases "device c k")
    case None
    then show ?thesis using q by (simp add: accept_pair_def)
  next
    case (Some s)
    obtain b c1 where sp: "send_packet Y t k (pair_packet Y True (Some t)) c = (b, c1)" by fastforce
    show ?thesis
    proof (cases "ses_cert_pem (ses c s) \<noteq> [] \<and> b")
      case True
      then have "send_packet Y t k (pair_packet Y True (Some t)) c = (True, c1)" using sp by simp
      note l = send_live [OF assms Some this]
      have "moves Y F [MAccept s] c (accept_pair Y F K t k c)"
        using True sp Some l
        by (intro moves_one [OF l(1)]) (auto simp: accept_pair_def Let_def pair_up_def same_core_notify)
      then show ?thesis using Some by (intro exI [of _ "[MAccept s]"]) (auto simp: caused_def)
    next
      case False
      moreover have "b \<or> c1 = c" using send_packet_False sp by (cases b) auto
      ultimately show ?thesis using q sp Some by (auto simp: accept_pair_def Let_def)
    qed
  qed
qed

lemma reject_moves:
  assumes "inv c"
  shows "\<exists>ms. moves Y F ms c (reject_pair Y F t k c) \<and> (\<forall>m \<in> set ms. caused (AReject t k) c m)"
proof -
  have q: ?thesis if "reject_pair Y F t k c = c"
    using that by (intro exI [of _ "[]"]) (auto intro: moves_quiet)
  show ?thesis
  proof (cases "device c k")
    case None
    then show ?thesis using q by (simp add: reject_pair_def)
  next
    case (Some s)
    obtain b c1 where sp: "send_packet Y t k (pair_packet Y False None) c = (b, c1)" by fastforce
    show ?thesis
    proof (cases b)
      case True
      then have "send_packet Y t k (pair_packet Y False None) c = (True, c1)" using sp by simp
      note l = send_live [OF assms Some this]
      have "moves Y F [MUnpair s] c (reject_pair Y F t k c)"
        using True sp Some l by (intro moves_one [OF l(1)]) (auto simp: reject_pair_def pair_down_def)
      then show ?thesis using Some by (intro exI [of _ "[MUnpair s]"]) (auto simp: caused_def)
    next
      case False
      then have "c1 = c" using send_packet_False sp by auto
      then show ?thesis using False q sp Some by (auto simp: reject_pair_def)
    qed
  qed
qed

lemma unpair_moves:
  assumes "inv c"
  shows "\<exists>ms. moves Y F ms c (unpair Y F t k c) \<and> (\<forall>m \<in> set ms. caused (AUnpair t k) c m)"
proof -
  have q: ?thesis if "unpair Y F t k c = c"
    using that by (intro exI [of _ "[]"]) (auto intro: moves_quiet)
  show ?thesis
  proof (cases "device c k")
    case None
    then have "moves Y F [MForget k] c (unpair Y F t k c)"
      by (intro moves_one [OF same_core_refl]) (auto simp: unpair_def device_def)
    then show ?thesis by (intro exI [of _ "[MForget k]"]) (auto simp: caused_def)
  next
    case (Some s)
    then have s: "s < length (cl_heap c)" "di_id (ses_info (ses c s)) = k" "map_of (cl_sessions c) k = Some s"
      using inv_map [OF assms] by (auto simp: device_def)
    obtain b c1 where sp: "send_packet Y t k (pair_packet Y False None) c = (b, c1)" by fastforce
    consider (off) "disconnected (ses c s)" | (down) "\<not> disconnected (ses c s)" "paired (ses c s)" b
      | (same) "unpair Y F t k c = c"
    proof (cases "disconnected (ses c s) \<or> paired (ses c s) \<and> b")
      case False
      have "b \<or> c1 = c" using send_packet_False sp by (cases b) auto
      then have "unpair Y F t k c = c" using False sp Some by (auto simp: unpair_def)
      then show thesis by (rule same)
    qed (use off down in auto)
    then show ?thesis
    proof cases
      case off
      then have "unpair Y F t k c = pair_down F s c"
        using Some s by (simp add: unpair_def pair_down_def mark_unpaired_def remove_pairing_def upd_ses_def)
      then have "moves Y F [MUnpair s] c (unpair Y F t k c)"
        using s by (intro moves_one [OF same_core_refl]) auto
      then show ?thesis using Some by (intro exI [of _ "[MUnpair s]"]) (auto simp: caused_def)
    next
      case down
      then have "send_packet Y t k (pair_packet Y False None) c = (True, c1)" using sp by simp
      note l = send_live [OF assms Some this]
      have "moves Y F [MUnpair s] c (unpair Y F t k c)"
        using down sp Some l by (intro moves_one [OF l(1)]) (auto simp: unpair_def pair_down_def)
      then show ?thesis using Some by (intro exI [of _ "[MUnpair s]"]) (auto simp: caused_def)
    qed (rule q)
  qed
qed

lemma secure_identity_Inr:
  "secure_identity Y t own i cn = Inr x \<Longrightarrow> di_id x = di_id i \<and> nul_free (di_id x)"
proof -
  have n: "nul_free (di_id (info_from_identity Y p))" for p
    by (auto simp: info_from_identity_def Let_def jb_value_str_def split: option.split jval.split)
  assume "secure_identity Y t own i cn = Inr x"
  then have "di_id x = di_id i \<and> (\<exists>p. x = info_from_identity Y p)"
    by (auto simp: secure_identity_def Let_def split: call.splits bool.splits option.splits if_splits)
  then show ?thesis using n by metis
qed

lemma same_core_snd_send: "send_packet Y t k p c = (b, c1) \<Longrightarrow> same_core c c1"
  using same_core_send by (metis snd_conv)

lemma same_core_greet: "same_core c (greet Y K t i cn s c)"
proof -
  have p: "same_core c (if b then post_notification a d e f c else c)" for b a d e f and c :: "('a, 'b) client"
    by (simp add: same_core_post)
  have u: "same_core c (if b then snd (send_packet Y t k q c) else c)" for b k q and c :: "('a, 'b) client"
    by (simp add: same_core_send)
  show ?thesis
    unfolding greet_def Let_def
    by (intro same_core_trans [OF _ same_core_notify] same_core_trans [OF _ same_core_send]
        same_core_trans [OF p u])
qed

definition admitted ::
    "yyjson \<Rightarrow> 'fs nxfs \<Rightarrow> ('crt, 'key) mbedtls \<Rightarrow> i64 \<Rightarrow> device_info \<Rightarrow> ('crt, 'p) conn \<Rightarrow> ('p, 'fs) client \<Rightarrow>
     string \<Rightarrow> device_info \<Rightarrow> bool" where
  "admitted Y F M t i cn c pem info \<longleftrightarrow>
     di_id i \<noteq> [] \<and> di_id i \<noteq> di_id (local_device c) \<and> \<not> connected_to c (di_id i) \<and>
     cn_defaults_ok cn \<and> cn_setup_ok cn \<and>
     fst (perform_tls_handshake (cn_handshake cn)) = Returned True \<and>
     peer_cert_pem M (cn_peer cn) = Some pem \<and>
     pin_check (cn_server_side cn) (load_paired_device Y F (cl_base c) (di_id i) (cl_fs c)) pem = None \<and>
     secure_identity Y t (local_device c) i cn = Inr info"

lemma admitted_connects:
  assumes "admitted Y F M t i cn c pem info"
  shows "handle_new_connection Y F M K t i cn c =
    (Connected (length (cl_heap c)),
     greet Y K t i cn (length (cl_heap c))
       (snd (enter_session (new_session M cn (load_paired_device Y F (cl_base c) (di_id i) (cl_fs c)) pem info) c)))"
  using assms unfolding admitted_def
  by (simp add: handle_new_connection_def create_session_def Let_def split_beta enter_sel)

lemma not_admitted:
  assumes "\<nexists>pem info. admitted Y F M t i cn c pem info"
  shows "snd (handle_new_connection Y F M K t i cn c) = c \<and>
    fst (handle_new_connection Y F M K t i cn c) \<noteq> Connected s"
proof -
  have si: "secure_identity Y t o2 i cn \<noteq> Inl (Connected s)" for o2
    by (auto simp: secure_identity_def Let_def split: call.splits bool.splits option.splits)
  have pc: "pin_check b st pem \<noteq> Some (Connected s)" for b st pem
    by (auto simp: pin_check_def Let_def)
  show ?thesis
    using assms si pc unfolding admitted_def
    by (auto simp: handle_new_connection_def create_session_def Let_def
        split: option.split call.split bool.split sum.split)
qed

lemma handle_new_connection_cases:
  assumes "handle_new_connection Y F M K t i cn c = (r, c')"
  obtains (refused) "c' = c" "\<forall>s. r \<noteq> Connected s"
  | (entered) pem info where "admitted Y F M t i cn c pem info" "r = Connected (length (cl_heap c))"
      "c' = greet Y K t i cn (length (cl_heap c))
       (snd (enter_session (new_session M cn (load_paired_device Y F (cl_base c) (di_id i) (cl_fs c)) pem info) c))"
proof (cases "\<exists>pem info. admitted Y F M t i cn c pem info")
  case True
  then show ?thesis using assms admitted_connects entered by (metis fst_conv snd_conv)
next
  case False
  then show ?thesis using assms not_admitted refused by (metis fst_conv snd_conv)
qed

lemma connect_moves:
  assumes "handle_new_connection Y F M K t i cn c = (r, c')"
  shows "\<exists>ms. moves Y F ms c c' \<and> (\<forall>m \<in> set ms. caused (ANewConnection t i cn) c m)"
  using assms
proof (cases rule: handle_new_connection_cases)
  case refused
  then show ?thesis by (intro exI [of _ "[]"]) (auto intro: moves_quiet)
next
  case (entered pem info)
  let ?x = "new_session M cn (load_paired_device Y F (cl_base c) (di_id i) (cl_fs c)) pem info"
  have id: "di_id info = di_id i" "nul_free (di_id info)"
    using entered(1) secure_identity_Inr [of Y t "local_device c" i cn info] by (auto simp: admitted_def)
  have "moves Y F [MEnter ?x] c c'"
    using entered(3) id by (intro moves_one [OF same_core_refl]) (auto simp: new_session_def same_core_greet)
  then show ?thesis
    using id by (intro exI [of _ "[MEnter ?x]"]) (auto simp: caused_def new_session_def)
qed

lemma step_moves:
  assumes "step Y F M K a c c'" "inv c"
  shows "\<exists>ms. moves Y F ms c c' \<and> (\<forall>m \<in> set ms. caused a c m)"
  using assms(1)
proof cases
  case (step_connect t i cn r)
  then show ?thesis using connect_moves by blast
next
  case (step_io s t sends ev st out)
  then show ?thesis using io_moves [OF assms(2)] caused_io by metis
next
  case (step_request t k)
  then show ?thesis using request_moves [OF assms(2), of Y F t k] by simp
next
  case (step_accept t k)
  then show ?thesis using accept_moves [OF assms(2), of Y F K t k] by simp
next
  case (step_reject t k)
  then show ?thesis using reject_moves [OF assms(2), of Y F t k] by simp
next
  case (step_unpair t k)
  then show ?thesis using unpair_moves [OF assms(2), of Y F t k] by simp
qed

lemma inv_step: "step Y F M K a c c' \<Longrightarrow> inv c \<Longrightarrow> inv c'"
  using step_moves inv_moves by metis

lemma inv_steps: "steps Y F M K as c c' \<Longrightarrow> inv c \<Longrightarrow> inv c'"
  by (induction rule: steps.induct) (auto intro: inv_step)

end
