(* ===== verification/Pairing_Safety.thy ===== *)
theory Pairing_Safety
  imports Pairing_Moves
begin

text \<open>
  What pairing guarantees over all runs of the client: nobody gets paired without the user's
  consent, the pairing state in memory agrees with the stored one, and at most one live session
  per device exists. Pinning, the verification key and the clock check are properties of single
  operations.
\<close>

section \<open>What moves keep\<close>

lemma close_keeps:
  "s < length (cl_heap c) \<Longrightarrow> ses_info (ses (close_session t c) s) = ses_info (ses c s) \<and>
     ses_cert_pem (ses (close_session t c) s) = ses_cert_pem (ses c s)"
  by (cases "t < length (cl_heap c)") (auto simp: close_session_def upd_ses_def ses_def nth_list_update)

lemma upd_keeps:
  "(\<And>x. ses_info (f x) = ses_info x \<and> ses_cert_pem (f x) = ses_cert_pem x) \<Longrightarrow> s < length (cl_heap c) \<Longrightarrow>
     ses_info (ses (upd_ses t f c) s) = ses_info (ses c s) \<and> ses_cert_pem (ses (upd_ses t f c) s) = ses_cert_pem (ses c s)"
  by (cases "t < length (cl_heap c)") (auto simp: upd_ses_def ses_def nth_list_update list_update_beyond)

lemma move_keeps:
  assumes "inv c" "s < length (cl_heap c)"
  shows "s < length (cl_heap (move_result Y F m c)) \<and>
    ses_info (ses (move_result Y F m c) s) = ses_info (ses c s) \<and>
    ses_cert_pem (ses (move_result Y F m c) s) = ses_cert_pem (ses c s)"
proof (cases m)
  case (MEnter x)
  then show ?thesis
    using ses_enter [OF assms(1), of s x] assms(2)
    by (auto simp: enter_sel core_def split: if_splits)
qed (simp_all add: assms(2) upd_keeps pair_up_def pair_down_def mark_paired_def mark_unpaired_def close_session_def)

lemma move_base [simp]: "cl_base (move_result Y F m c) = cl_base c"
  by (cases m) (auto simp: pair_up_def pair_down_def mark_paired_def mark_unpaired_def close_session_def enter_sel)

lemma moves_base: "moves Y F ms c c' \<Longrightarrow> cl_base c' = cl_base c"
  by (induction rule: moves.induct) (auto simp: same_core_all(4))

lemma step_base: "step Y F M K a c c' \<Longrightarrow> inv c \<Longrightarrow> cl_base c' = cl_base c"
  using step_moves moves_base by metis

lemma steps_base: "steps Y F M K as c c' \<Longrightarrow> inv c \<Longrightarrow> cl_base c' = cl_base c"
  by (induction rule: steps.induct) (auto dest: step_base intro: inv_steps)

section \<open>No pairing without consent\<close>

definition untouched ::
    "('fs \<Rightarrow> string \<Rightarrow> string option) \<Rightarrow> string \<Rightarrow> ('p, 'fs) client \<Rightarrow> bool" where
  "untouched C k c \<longleftrightarrow> C (cl_fs c) (paired_path (cl_base c) k) = None \<and>
     (\<forall>s < length (cl_heap c). di_id (ses_info (ses c s)) = k \<longrightarrow>
        \<not> paired (ses c s) \<and> ses_pair_state (ses c s) \<noteq> Requested)"

lemma untouched_same_core: "same_core c c' \<Longrightarrow> untouched C k c \<Longrightarrow> untouched C k c'"
  using same_core_all [of c c'] unfolding untouched_def by metis

lemma save_other:
  assumes "nxfs_ok F C" "nul_free base" "nul_free (di_id i)" "di_id i \<noteq> k"
  shows "C (save_paired_device Y F base i cert fs) (paired_path base k) = C fs (paired_path base k)"
proof -
  obtain r fs' where w: "write_file F (paired_path base (di_id i)) (jb_dump_indent Y 2 (paired_record Y i cert)) fs = (r, fs')"
    by fastforce
  then show ?thesis
    using write_file_spec [OF assms(1) w] assms(2-4) by (simp add: save_paired_device_def)
qed

lemma no_file_no_load:
  "nxfs_ok F C \<Longrightarrow> nul_free base \<Longrightarrow> nul_free k \<Longrightarrow> C fs (paired_path base k) = None \<Longrightarrow>
     load_paired_device Y F base k fs = None"
  using nxfs_okD(1) [of F C] by (simp add: load_paired_device_def)

lemma untouched_upd:
  assumes "untouched C k c"
    and "s < length (cl_heap c) \<Longrightarrow> ses_info (f (ses c s)) = ses_info (ses c s)"
    and "s < length (cl_heap c) \<Longrightarrow> di_id (ses_info (ses c s)) = k \<Longrightarrow>
      \<not> paired (f (ses c s)) \<and> ses_pair_state (f (ses c s)) \<noteq> Requested"
  shows "untouched C k (upd_ses s f c)"
proof (cases "s < length (cl_heap c)")
  case True
  then show ?thesis using assms by (auto simp: untouched_def ses_upd)
next
  case False
  then show ?thesis using assms(1) by (simp add: untouched_def upd_ses_def ses_def list_update_beyond)
qed

lemma untouched_fs:
  "untouched C k c \<Longrightarrow> C fs (paired_path (cl_base c) k) = None \<Longrightarrow> untouched C k (c\<lparr>cl_fs := fs\<rparr>)"
  by (simp add: untouched_def ses_def)

lemma untouched_move:
  assumes F: "nxfs_ok F C" and n: "nul_free (cl_base c)" "nul_free k" and i: "inv c"
    and u: "untouched C k c" and g: "move_guard Y F m c"
    and no: "\<And>s ts. m = MRequest s ts \<or> m = MAccept s \<Longrightarrow> di_id (ses_info (ses c s)) \<noteq> k"
  shows "untouched C k (move_result Y F m c)"
proof -
  have uk: "\<not> paired (ses c s)" "ses_pair_state (ses c s) \<noteq> Requested"
    if "s < length (cl_heap c)" "di_id (ses_info (ses c s)) = k" for s
    using u that by (auto simp: untouched_def)
  have up: "untouched C k (pair_up Y F s c)" if "live_at c s" "di_id (ses_info (ses c s)) \<noteq> k" for s
  proof -
    have s: "s < length (cl_heap c)" using that by (simp add: live_at_def)
    have "untouched C k (mark_paired s c)"
      unfolding mark_paired_def by (rule untouched_upd [OF u]) (use that in auto)
    moreover have "C (save_paired_device Y F (cl_base c) (ses_info (ses c s)) (ses_cert_pem (ses c s)) (cl_fs c))
        (paired_path (cl_base c) k) = C (cl_fs c) (paired_path (cl_base c) k)"
      by (rule save_other [OF F n(1) inv_nul [OF i s] that(2)])
    ultimately show ?thesis
      using u s unfolding pair_up_def save_pairing_def
      by (intro untouched_fs) (simp_all add: mark_paired_def ses_upd untouched_def)
  qed
  have rm: "untouched C k (remove_pairing F d c1)" if "untouched C k c1" for d c1
    using that unfolding remove_pairing_def
    by (intro untouched_fs) (simp_all add: content_remove [OF F] untouched_def)
  show ?thesis
  proof (cases m)
    case (MRequest s ts)
    then show ?thesis using no [of s ts] by (auto intro!: untouched_upd [OF u])
  next
    case (MByPeer s ts)
    then show ?thesis using uk by (auto intro!: untouched_upd [OF u])
  next
    case (MConfirm s)
    then have "di_id (ses_info (ses c s)) \<noteq> k" using g uk(2) by (auto simp: live_at_def)
    then show ?thesis using MConfirm g up by simp
  next
    case (MAccept s)
    then show ?thesis using g up no [of s] by simp
  next
    case (MUnpair s)
    have "untouched C k (mark_unpaired s c)"
      unfolding mark_unpaired_def by (rule untouched_upd [OF u]) auto
    then show ?thesis using MUnpair rm by (simp add: pair_down_def)
  next
    case (MForget d)
    then show ?thesis using rm [OF u] by simp
  next
    case (MClose s)
    then show ?thesis using uk by (auto simp: close_session_def intro!: untouched_upd [OF u])
  next
    case (MEnter x)
    have "load_paired_device Y F (cl_base c) k (cl_fs c) = None"
      using u by (intro no_file_no_load [OF F n]) (simp add: untouched_def)
    then have x: "di_id (ses_info x) = k \<Longrightarrow> \<not> paired x \<and> ses_pair_state x \<noteq> Requested"
      using g MEnter by auto
    have "di_id (ses_info (ses (snd (enter_session x c)) s)) = k \<longrightarrow>
        \<not> paired (ses (snd (enter_session x c)) s) \<and> ses_pair_state (ses (snd (enter_session x c)) s) \<noteq> Requested"
      if "s < Suc (length (cl_heap c))" for s
      using ses_enter [OF i that, of x] x uk that by (auto simp: core_def less_Suc_eq split: if_splits)
    then show ?thesis using u MEnter by (simp add: untouched_def enter_sel)
  qed
qed

lemma untouched_moves:
  assumes "moves Y F ms c c'" "nxfs_ok F C" "nul_free (cl_base c)" "nul_free k" "inv c" "untouched C k c"
    and "\<forall>m \<in> set ms. \<forall>s ts. m = MRequest s ts \<or> m = MAccept s \<longrightarrow>
      s < length (cl_heap c) \<and> di_id (ses_info (ses c s)) \<noteq> k"
  shows "untouched C k c'"
  using assms
proof (induction rule: moves.induct)
  case (moves_quiet c c')
  then show ?case using untouched_same_core by blast
next
  case (moves_move c c1 m ms c')
  note sc = moves_move.hyps(1)
  have i1: "inv c1" and u1: "untouched C k c1"
    using inv_same_core [OF sc] untouched_same_core [OF sc] moves_move.prems by auto
  have b: "cl_base c1 = cl_base c" using same_core_all(4) [OF sc] .
  have id: "s < length (cl_heap c) \<Longrightarrow> ses_info (ses c1 s) = ses_info (ses c s)" for s
    using same_core_all(7) [OF sc] by blast
  have no: "di_id (ses_info (ses c1 s)) \<noteq> k" if "m = MRequest s ts \<or> m = MAccept s" for s ts
    using moves_move.prems(6) that id by (metis list.set_intros(1))
  have "untouched C k (move_result Y F m c1)"
    by (rule untouched_move [OF moves_move.prems(1) _ moves_move.prems(3) i1 u1 moves_move.hyps(2) no])
      (use b moves_move.prems(2) in simp_all)
  moreover have "s < length (cl_heap (move_result Y F m c1)) \<and>
      ses_info (ses (move_result Y F m c1) s) = ses_info (ses c s)" if "s < length (cl_heap c)" for s
    using move_keeps [OF i1, of s Y F m] id [OF that] that same_core_all(1) [OF sc] by simp
  ultimately show ?case
    using moves_move.prems b inv_move [OF i1 moves_move.hyps(2)] by (intro moves_move.IH) auto
qed

text \<open>The user's consent to pair with device \<open>k\<close>: asking for it, or accepting a request.\<close>

fun consents :: "string \<Rightarrow> ('crt, 'p) action \<Rightarrow> bool" where
  "consents k (ARequest t d) \<longleftrightarrow> d = k"
| "consents k (AAccept t d) \<longleftrightarrow> d = k"
| "consents k _ \<longleftrightarrow> False"

lemma untouched_step:
  assumes st: "step Y F M K a c c'" and F: "nxfs_ok F C" "nul_free (cl_base c)" "nul_free k"
    and i: "inv c" and u: "untouched C k c" and a: "\<not> consents k a"
  shows "untouched C k c'"
proof -
  obtain ms where ms: "moves Y F ms c c'" "\<forall>m \<in> set ms. caused a c m"
    using step_moves [OF st i] by blast
  have "s < length (cl_heap c) \<and> di_id (ses_info (ses c s)) \<noteq> k"
    if "m \<in> set ms" "m = MRequest s ts \<or> m = MAccept s" for m s ts
  proof -
    have cm: "caused a c m" using ms(2) that(1) by blast
    from that(2) have "\<exists>d. device c d = Some s \<and> d \<noteq> k"
    proof
      assume "m = MRequest s ts"
      then show ?thesis using cm a by (auto simp: caused_def)
    next
      assume "m = MAccept s"
      then show ?thesis using cm a by (auto simp: caused_def)
    qed
    then show ?thesis using inv_map [OF i] by (auto simp: device_def)
  qed
  then show ?thesis using untouched_moves [OF ms(1) F i u] by blast
qed

lemma untouched_steps:
  assumes "steps Y F M K as c c'" "inv c" "nxfs_ok F C" "nul_free (cl_base c)" "nul_free k" "untouched C k c"
    and "\<forall>a \<in> set as. \<not> consents k a"
  shows "untouched C k c'"
  using assms
proof (induction rule: steps.induct)
  case (steps_snoc as c c1 a c2)
  have i: "inv c1" by (rule inv_steps [OF steps_snoc.hyps(1) steps_snoc.prems(1)])
  have b: "cl_base c1 = cl_base c" by (rule steps_base [OF steps_snoc.hyps(1) steps_snoc.prems(1)])
  show ?case
    by (rule untouched_step [OF steps_snoc.hyps(2) steps_snoc.prems(2) _ steps_snoc.prems(4) i])
      (use steps_snoc b in auto)
qed

section \<open>Memory and storage agree\<close>

definition agrees ::
    "yyjson \<Rightarrow> 'fs nxfs \<Rightarrow> ('p, 'fs) client \<Rightarrow> bool" where
  "agrees Y F c \<longleftrightarrow>
     (\<forall>k s. map_of (cl_sessions c) k = Some s \<longrightarrow> device_ok F (cl_base c) (ses_info (ses c s)) (ses_cert_pem (ses c s)) \<longrightarrow>
        (paired (ses c s) \<longleftrightarrow> load_paired_device Y F (cl_base c) k (cl_fs c) \<noteq> None))"

lemma agrees_same_core:
  assumes sc: "same_core c c'" and "inv c" "agrees Y F c"
  shows "agrees Y F c'"
  unfolding agrees_def
proof (intro allI impI)
  fix k s
  assume m: "map_of (cl_sessions c') k = Some s"
    and d: "device_ok F (cl_base c') (ses_info (ses c' s)) (ses_cert_pem (ses c' s))"
  then have s: "map_of (cl_sessions c) k = Some s" "s < length (cl_heap c)"
    using same_core_all(2) [OF sc] inv_map [OF assms(2)] by auto
  show "paired (ses c' s) = (load_paired_device Y F (cl_base c') k (cl_fs c') \<noteq> None)"
    using assms(3) s d same_core_all [OF sc] by (auto simp: agrees_def)
qed

text \<open>An update of one session that leaves \<open>paired\<close> alone.\<close>

lemma agrees_upd:
  assumes "inv c" "agrees Y F c"
    and "\<And>x. ses_info (f x) = ses_info x \<and> ses_cert_pem (f x) = ses_cert_pem x \<and> paired (f x) = paired x"
  shows "agrees Y F (upd_ses s f c)"
proof -
  have "ses_info (ses (upd_ses s f c) t) = ses_info (ses c t) \<and>
      ses_cert_pem (ses (upd_ses s f c) t) = ses_cert_pem (ses c t) \<and> paired (ses (upd_ses s f c) t) = paired (ses c t)"
    if "t < length (cl_heap c)" for t
  proof -
    have "ses (upd_ses s f c) t = (if s = t then f (ses c t) else ses c t)"
      using that by (auto simp: ses_def upd_ses_def nth_list_update)
    then show ?thesis using assms(3) [of "ses c t"] by (simp split: if_splits)
  qed
  note same = this
  show ?thesis
    unfolding agrees_def
  proof (intro allI impI)
    fix k t
    assume "map_of (cl_sessions (upd_ses s f c)) k = Some t"
      and d: "device_ok F (cl_base (upd_ses s f c)) (ses_info (ses (upd_ses s f c) t)) (ses_cert_pem (ses (upd_ses s f c) t))"
    then have t: "map_of (cl_sessions c) k = Some t" "t < length (cl_heap c)"
      using inv_map [OF assms(1)] by auto
    then show "paired (ses (upd_ses s f c) t) =
        (load_paired_device Y F (cl_base (upd_ses s f c)) k (cl_fs (upd_ses s f c)) \<noteq> None)"
      using same [OF t(2)] assms(2) d by (simp add: agrees_def)
  qed
qed

lemma agrees_other_key:
  assumes F: "nxfs_ok F C" "nxfs_up F C" and "key_ok F base k"
    and "C fs' (paired_path base k) = C fs (paired_path base k)"
  shows "load_paired_device Y F base k fs' = load_paired_device Y F base k fs"
  by (rule load_depends [OF F assms(3,4)])

lemma agrees_pair_up:
  assumes Y: "yyjson_ok Y" and F: "nxfs_ok F C" "nxfs_up F C" and i: "inv c" and a: "agrees Y F c"
    and s: "s < length (cl_heap c)" "map_of (cl_sessions c) (di_id (ses_info (ses c s))) = Some s"
  shows "agrees Y F (pair_up Y F s c)"
  unfolding agrees_def
proof (intro allI impI)
  let ?c = "pair_up Y F s c" and ?i = "ses_info (ses c s)" and ?cert = "ses_cert_pem (ses c s)"
  have sel: "cl_base ?c = cl_base c" "cl_sessions ?c = cl_sessions c"
    "cl_fs ?c = save_paired_device Y F (cl_base c) ?i ?cert (cl_fs c)"
    using s by (simp_all add: pair_up_def mark_paired_def save_pairing_def ses_upd)
  fix k t
  assume m: "map_of (cl_sessions ?c) k = Some t"
    and d: "device_ok F (cl_base ?c) (ses_info (ses ?c t)) (ses_cert_pem (ses ?c t))"
  have t: "t < length (cl_heap c)" "di_id (ses_info (ses c t)) = k" "map_of (cl_sessions c) k = Some t"
    using inv_map [OF i] m sel by auto
  show "paired (ses ?c t) = (load_paired_device Y F (cl_base ?c) k (cl_fs ?c) \<noteq> None)"
  proof (cases "t = s")
    case True
    then have "device_ok F (cl_base c) ?i ?cert" using d s by (simp add: ses_pair_up sel)
    then show ?thesis
      using load_save [OF Y F] True s t by (simp add: ses_pair_up sel device_ok_def)
  next
    case False
    then have "k \<noteq> di_id ?i" using s t by auto
    moreover have "key_ok F (cl_base c) k" using d t s False by (simp add: ses_pair_up sel device_ok_def)
    moreover have "nul_free (cl_base c)" using calculation by (simp add: key_ok_def)
    ultimately have "load_paired_device Y F (cl_base c) k (cl_fs ?c) = load_paired_device Y F (cl_base c) k (cl_fs c)"
      using save_other [OF F(1) _ inv_nul [OF i s(1)], of "cl_base c" k Y ?cert "cl_fs c"]
      by (intro agrees_other_key [OF F]) (auto simp: sel)
    then show ?thesis using a t d s False by (simp add: agrees_def ses_pair_up sel)
  qed
qed

lemma agrees_remove:
  assumes F: "nxfs_ok F C" "nxfs_up F C" and b: "nul_free d" and k: "key_ok F base k"
  shows "load_paired_device Y F base k (remove_paired_device F base d fs) =
    (if k = d then None else load_paired_device Y F base k fs)"
proof (cases "k = d")
  case True
  then show ?thesis using load_remove [OF F k, of d Y fs] k by simp
next
  case False
  have "nul_free base" using k by (simp add: key_ok_def)
  then show ?thesis
    using False b by (simp, intro agrees_other_key [OF F k]) (simp add: content_remove [OF F(1)])
qed

lemma agrees_pair_down:
  assumes F: "nxfs_ok F C" "nxfs_up F C" and i: "inv c" and a: "agrees Y F c"
    and s: "s < length (cl_heap c)" "map_of (cl_sessions c) (di_id (ses_info (ses c s))) = Some s"
  shows "agrees Y F (pair_down F s c)"
  unfolding agrees_def
proof (intro allI impI)
  let ?c = "pair_down F s c" and ?d = "di_id (ses_info (ses c s))"
  have sel: "cl_base ?c = cl_base c" "cl_sessions ?c = cl_sessions c"
    "cl_fs ?c = remove_paired_device F (cl_base c) ?d (cl_fs c)"
    by (simp_all add: pair_down_def mark_unpaired_def remove_pairing_def)
  fix k t
  assume m: "map_of (cl_sessions ?c) k = Some t"
    and d: "device_ok F (cl_base ?c) (ses_info (ses ?c t)) (ses_cert_pem (ses ?c t))"
  have t: "t < length (cl_heap c)" "di_id (ses_info (ses c t)) = k" "map_of (cl_sessions c) k = Some t"
    using inv_map [OF i] m sel by auto
  have k: "key_ok F (cl_base c) k"
    using d t s by (cases "t = s") (auto simp: ses_pair_down sel device_ok_def)
  note r = agrees_remove [OF F inv_nul [OF i s(1)] k, of Y "cl_fs c"]
  show "paired (ses ?c t) = (load_paired_device Y F (cl_base ?c) k (cl_fs ?c) \<noteq> None)"
  proof (cases "t = s")
    case True
    then show ?thesis using r t s by (simp add: ses_pair_down sel)
  next
    case False
    then have "k \<noteq> ?d" using s t by auto
    then show ?thesis using r a t d s False by (simp add: agrees_def ses_pair_down sel)
  qed
qed

lemma agrees_forget:
  assumes F: "nxfs_ok F C" "nxfs_up F C" and d: "nul_free d" and i: "inv c" and a: "agrees Y F c"
    and m: "map_of (cl_sessions c) d = None"
  shows "agrees Y F (remove_pairing F d c)"
  unfolding agrees_def
proof (intro allI impI)
  have sel: "cl_fs (remove_pairing F d c) = remove_paired_device F (cl_base c) d (cl_fs c)"
    by (simp add: remove_pairing_def)
  fix k t
  assume k: "map_of (cl_sessions (remove_pairing F d c)) k = Some t"
    and dk: "device_ok F (cl_base (remove_pairing F d c)) (ses_info (ses (remove_pairing F d c) t))
      (ses_cert_pem (ses (remove_pairing F d c) t))"
  then have "key_ok F (cl_base c) k" "k \<noteq> d"
    using inv_map [OF i, of k t] m by (auto simp: device_ok_def)
  then show "paired (ses (remove_pairing F d c) t) =
      (load_paired_device Y F (cl_base (remove_pairing F d c)) k (cl_fs (remove_pairing F d c)) \<noteq> None)"
    using agrees_remove [OF F d, of "cl_base c" k Y "cl_fs c"] a k dk by (simp add: agrees_def sel)
qed

lemma agrees_enter:
  assumes i: "inv c" and a: "agrees Y F c" and g: "move_guard Y F (MEnter x) c"
  shows "agrees Y F (snd (enter_session x c))"
  unfolding agrees_def
proof (intro allI impI)
  let ?c = "snd (enter_session x c)" and ?n = "length (cl_heap c)" and ?k = "di_id (ses_info x)"
  fix k t
  assume m: "map_of (cl_sessions ?c) k = Some t"
    and d: "device_ok F (cl_base ?c) (ses_info (ses ?c t)) (ses_cert_pem (ses ?c t))"
  show "paired (ses ?c t) = (load_paired_device Y F (cl_base ?c) k (cl_fs ?c) \<noteq> None)"
  proof (cases "k = ?k")
    case True
    then have "t = ?n" using m by (simp add: enter_sel)
    then show ?thesis using ses_enter [OF i, of ?n x] g True by (simp add: core_def enter_sel)
  next
    case False
    then have k: "map_of (cl_sessions c) k = Some t" using m by (simp add: enter_sel)
    then have t: "t < ?n" "map_of (cl_sessions c) ?k \<noteq> Some t"
      using inv_map [OF i k] inv_map [OF i, of ?k t] False by auto
    then show ?thesis
      using ses_enter [OF i, of t x] a k d by (simp add: core_def enter_sel agrees_def)
  qed
qed

lemma agrees_move:
  assumes Y: "yyjson_ok Y" and F: "nxfs_ok F C" "nxfs_up F C" and i: "inv c" and a: "agrees Y F c"
    and g: "move_guard Y F m c" and f: "\<And>k. m = MForget k \<Longrightarrow> nul_free k"
  shows "agrees Y F (move_result Y F m c)"
proof (cases m)
  case (MConfirm s)
  then show ?thesis
    using g live_current [OF i, of s] by (auto simp: live_at_def intro!: agrees_pair_up [OF Y F i a])
next
  case (MAccept s)
  then show ?thesis
    using g live_current [OF i, of s] by (auto simp: live_at_def intro!: agrees_pair_up [OF Y F i a])
next
  case (MUnpair s)
  then show ?thesis using g by (auto intro!: agrees_pair_down [OF F i a])
next
  case (MForget k)
  then show ?thesis using g f by (auto intro!: agrees_forget [OF F _ i a])
next
  case (MEnter x)
  then show ?thesis using g agrees_enter [OF i a] by simp
qed (auto simp: close_session_def intro!: agrees_upd [OF i a])

lemma agrees_moves:
  assumes "moves Y F ms c c'" "yyjson_ok Y" "nxfs_ok F C" "nxfs_up F C" "inv c" "agrees Y F c"
    and "\<forall>k. MForget k \<in> set ms \<longrightarrow> nul_free k"
  shows "agrees Y F c'"
  using assms
proof (induction rule: moves.induct)
  case (moves_quiet c c')
  then show ?case using agrees_same_core by blast
next
  case (moves_move c c1 m ms c')
  have i1: "inv c1" and a1: "agrees Y F c1"
    using inv_same_core agrees_same_core moves_move.hyps(1) moves_move.prems by blast+
  show ?case
    by (rule moves_move.IH [OF moves_move.prems(1-3) inv_move [OF i1 moves_move.hyps(2)]
          agrees_move [OF moves_move.prems(1-3) i1 a1 moves_move.hyps(2)]])
      (use moves_move.prems(6) in auto)
qed

definition sane_action :: "('crt, 'p) action \<Rightarrow> bool" where
  "sane_action a \<longleftrightarrow> (case a of AUnpair t k \<Rightarrow> nul_free k | _ \<Rightarrow> True)"

lemma agrees_step:
  assumes "step Y F M K a c c'" "yyjson_ok Y" "nxfs_ok F C" "nxfs_up F C" "inv c" "agrees Y F c" "sane_action a"
  shows "agrees Y F c'"
proof -
  obtain ms where ms: "moves Y F ms c c'" "\<forall>m \<in> set ms. caused a c m"
    using step_moves [OF assms(1,5)] by blast
  have "nul_free k" if "MForget k \<in> set ms" for k
    using ms(2) that assms(7) by (force simp: caused_def sane_action_def)
  then show ?thesis using agrees_moves [OF ms(1) assms(2-6)] by blast
qed

lemma agrees_steps:
  assumes "steps Y F M K as c c'" "inv c" "yyjson_ok Y" "nxfs_ok F C" "nxfs_up F C" "agrees Y F c"
    and "\<forall>a \<in> set as. sane_action a"
  shows "agrees Y F c'"
  using assms
proof (induction rule: steps.induct)
  case (steps_snoc as c c1 a c2)
  have "agrees Y F c1" using steps_snoc by auto
  then show ?case
    using agrees_step [OF steps_snoc.hyps(2) steps_snoc.prems(2-4) inv_steps [OF steps_snoc.hyps(1) steps_snoc.prems(1)]]
      steps_snoc.prems(6) by auto
qed

section \<open>A run to try the properties on\<close>

definition own_info :: device_info where
  "own_info = sample_info\<lparr>di_id := ''me''\<rparr>"

definition demo_identity :: string where
  "demo_identity = serialize yy_ref 0 (make_identity_packet yy_ref sample_info None None None)"

definition own_identity :: string where
  "own_identity = serialize yy_ref 0 (make_identity_packet yy_ref own_info None None None)"

text \<open>A peer \<open>a1\<close> with certificate \<open>cert\<close> connects and introduces itself.\<close>

definition demo_conn :: "bool \<Rightarrow> string option \<Rightarrow> (string, unit) conn" where
  "demo_conn server cert =
     \<lparr>cn_fd = 7, cn_server_side = server, cn_defaults_ok = True, cn_setup_ok = True,
      cn_handshake = [HsWant, HsOk], cn_peer = cert,
      cn_send = [TxWant, TxWrote (length own_identity)], cn_recv = RxWant # map RxByte demo_identity,
      cn_peer_host = Some ''10.0.0.2'', cn_show_on_connect = True, cn_tcp_port = 1716, cn_plugins = []\<rparr>"

definition no_plugins :: "unit plugin_class" where
  "no_plugins = \<lparr>pc_name = (\<lambda>_. []), supported_packet_types = (\<lambda>_. []), outgoing_packet_types = (\<lambda>_. []),
     on_packet_received = (\<lambda>p _. (False, p, [])), on_connected = (\<lambda>p _. (p, []))\<rparr>"

definition demo_client :: "(string \<rightharpoonup> string) \<Rightarrow> (unit, string \<rightharpoonup> string) client" where
  "demo_client fs = \<lparr>local_device = own_info, cl_base = ''/c'', cl_pubkey = [1], cl_heap = [],
     cl_sessions = [], cl_fs = fs, cl_notes = [], cl_uploads = []\<rparr>"

lemma own_info_ascii: "info_ascii own_info"
  by (simp add: own_info_def info_ascii_def sample_info_def Ping_def Battery_def ascii_char_def)

lemma yy_write_ref: "yy_write yy_ref p v = ref_write p v"
  by (simp add: yy_ref_def)

lemma demo_body:
  "serialize_root yy_ref 0 (make_identity_packet yy_ref sample_info None None None) =
   JObj [(''id'', JSint 0), (''type'', JStr Identity), (''body'', JObj
     [(''deviceId'', JStr ''a1''), (''deviceName'', JStr ''Switch''), (''deviceType'', JStr ''tablet''),
      (''protocolVersion'', JSint 8), (''incomingCapabilities'', JArr [JStr Ping]),
      (''outgoingCapabilities'', JArr [JStr Ping, JStr Battery])])]"
  by (simp add: serialize_root_def make_identity_packet_def Let_def set_str_def set_int_def set_i64_def
      set_body_def set_str_array_def upsert_JObj jb_empty_def sample_info_def yy_copy_Some
      Identity_def Ping_def Battery_def)

lemma demo_length: "length demo_identity \<le> kMaxPacketSize"
proof -
  have "length demo_identity \<le> 1000"
    by (simp add: demo_identity_def serialize_def demo_body jb_dump_def yy_write_ref ref_write_def
      Identity_def Ping_def Battery_def ascii_char_def quoted_def esc_char_def member_text_def nat_str.simps int_str_def)
  then show ?thesis by (simp add: kMaxPacketSize_def)
qed

lemma send_whole: "d \<noteq> [] \<Longrightarrow> send_all_tls d [TxWant, TxWrote (length d)] = (Returned True, d, [])"
  by (simp add: send_all_tls_def send_all_from.simps)

lemma demo_secure: "secure_identity yy_ref 0 own_info sample_info (demo_conn b cert) = Inr sample_info"
proof -
  have "own_identity \<noteq> []" by (simp add: own_identity_def serialize_def)
  then have snd1: "fst (send_all_tls own_identity [TxWant, TxWrote (length own_identity)]) = Returned True"
    by (simp add: send_whole)
  have "\<exists>line es' q. read_line_tls kMaxPacketSize (RxWant # map RxByte demo_identity) = (Returned (Some line), es') \<and>
      rx_bytes es' = [] \<and> parse_packet yy_ref line = Some q \<and> pkt_type q = Identity \<and>
      info_from_identity yy_ref q = sample_info"
    unfolding demo_identity_def
    by (rule identity_line_over_tls [OF yyjson_ok_ref sample_info_ascii, where t = None])
      (use demo_length rx_bytes_map [of demo_identity "[]"] in \<open>auto simp: demo_identity_def\<close>)
  then obtain line es' q where "read_line_tls kMaxPacketSize (RxWant # map RxByte demo_identity) = (Returned (Some line), es')"
    "parse_packet yy_ref line = Some q" "pkt_type q = Identity" "info_from_identity yy_ref q = sample_info"
    by blast
  then show ?thesis
    using snd1 by (simp add: secure_identity_def demo_conn_def own_identity_def [symmetric])
qed

lemma demo_admitted:
  assumes "pin_check b (load_paired_device yy_ref nx_ref ''/c'' ''a1'' fs) pem = None"
    and "peer_cert_pem mbed_ref cert = Some pem"
  shows "admitted yy_ref nx_ref mbed_ref 0 sample_info (demo_conn b cert) (demo_client fs) pem sample_info"
  using assms demo_secure [of b cert]
  by (simp add: admitted_def demo_client_def own_info_def sample_info_def connected_to_def device_def)
    (simp add: demo_conn_def)

definition demo_after :: "(unit, string \<rightharpoonup> string) client" where
  "demo_after = snd (handle_new_connection yy_ref nx_ref mbed_ref no_plugins 0 sample_info
     (demo_conn True (Some ''abc'')) (demo_client Map.empty))"

definition demo_session :: "unit session" where
  "demo_session = new_session mbed_ref (demo_conn True (Some ''abc'')) None ''Cabc'' sample_info"

lemma demo_connects:
  "handle_new_connection yy_ref nx_ref mbed_ref no_plugins 0 sample_info
     (demo_conn True (Some ''abc'')) (demo_client Map.empty) =
   (Connected 0, greet yy_ref no_plugins 0 sample_info (demo_conn True (Some ''abc'')) 0
      (snd (enter_session demo_session (demo_client Map.empty))))"
proof -
  have l: "load_paired_device yy_ref nx_ref ''/c'' ''a1'' Map.empty = None"
    by (simp add: load_paired_device_def nx_ref_def)
  have p: "peer_cert_pem mbed_ref (Some ''abc'') = Some ''Cabc''"
    by (simp add: peer_cert_pem_def pem_write_buffer_def mbed_ref_def)
  have "admitted yy_ref nx_ref mbed_ref 0 sample_info (demo_conn True (Some ''abc'')) (demo_client Map.empty)
      ''Cabc'' sample_info"
    by (rule demo_admitted) (simp_all add: l p pin_check_def)
  from admitted_connects [OF this, of no_plugins] show ?thesis
    by (simp add: demo_client_def demo_session_def sample_info_def l)
qed

lemma demo_step:
  "step yy_ref nx_ref mbed_ref no_plugins (ANewConnection 0 sample_info (demo_conn True (Some ''abc'')))
     (demo_client Map.empty) demo_after"
  by (rule step_connect [where r = "Connected 0"]) (simp_all add: demo_after_def demo_connects)

lemma demo_after_core:
  "device demo_after ''a1'' = Some 0" "cl_base demo_after = ''/c''" "cl_fs demo_after = Map.empty"
  "ses_info (ses demo_after 0) = sample_info" "ses_cert_pem (ses demo_after 0) = ''Cabc''"
  "\<not> paired (ses demo_after 0)" "length (cl_heap demo_after) = 1" "\<not> disconnected (ses demo_after 0)"
proof -
  let ?e = "snd (enter_session demo_session (demo_client Map.empty))"
  have sc: "same_core ?e demo_after"
    by (simp add: demo_after_def demo_connects same_core_greet)
  have e: "ses ?e 0 = demo_session" "length (cl_heap ?e) = 1" "cl_sessions ?e = [(''a1'', 0)]"
    "cl_base ?e = ''/c''" "cl_fs ?e = Map.empty"
    by (simp_all add: enter_session_def demo_client_def ses_def demo_session_def new_session_def sample_info_def)
  have d: "ses_info demo_session = sample_info" "ses_cert_pem demo_session = ''Cabc''" "\<not> paired demo_session"
    "\<not> disconnected demo_session"
    by (simp_all add: demo_session_def new_session_def)
  note c = same_core_all(1-4) [OF sc] same_core_all(7) [OF sc, of 0]
  show "device demo_after ''a1'' = Some 0" "cl_base demo_after = ''/c''" "cl_fs demo_after = Map.empty"
    "ses_info (ses demo_after 0) = sample_info" "ses_cert_pem (ses demo_after 0) = ''Cabc''"
    "\<not> paired (ses demo_after 0)" "length (cl_heap demo_after) = 1" "\<not> disconnected (ses demo_after 0)"
    using c by (simp_all add: device_def e d)
qed

lemma demo_fresh: "fresh_client (demo_client fs)" "cl_base (demo_client fs) = ''/c''" "cl_fs (demo_client fs) = fs"
  by (simp_all add: fresh_client_def demo_client_def)

lemma demo_steps:
  "steps yy_ref nx_ref mbed_ref no_plugins [ANewConnection 0 sample_info (demo_conn True (Some ''abc''))]
     (demo_client Map.empty) demo_after"
  using steps_snoc [OF steps_Nil demo_step] by simp

section \<open>Properties\<close>

text \<open>
  C5: every operation of the client is a sequence of moves of the pairing specification, each with
  its guard and each with the action that may cause it: a session becomes paired only by the user's
  acceptance or by the peer's answer to a request of the user, and forgetting a pairing always
  clears memory and storage together.
\<close>

theorem step_refines_moves:
  assumes "step Y F M K a c c'" and "inv c"
  shows "inv c' \<and> (\<exists>ms. moves Y F ms c c' \<and> (\<forall>m \<in> set ms. caused a c m))"
  using inv_step [OF assms] step_moves [OF assms] by blast

theorem step_refines_moves_witness:
  "inv demo_after \<and>
   (\<exists>ms. moves yy_ref nx_ref ms (demo_client Map.empty) demo_after \<and>
      list_all (caused (ANewConnection 0 sample_info (demo_conn True (Some ''abc''))) (demo_client Map.empty)) ms)"
  using step_refines_moves [OF demo_step inv_fresh [OF demo_fresh(1)]] by (simp add: list_all_iff)

text \<open>
  C6: no pairing without consent. Whatever peers send and however connections come and go, a device
  without a stored pairing, for which the user neither requested nor accepted pairing, is never
  paired in any session, and no pairing file for it appears.
\<close>

theorem no_pairing_without_consent:
  assumes "steps Y F M K as c c'" and "fresh_client c" and "nxfs_ok F C" and "nul_free (cl_base c)"
    and "nul_free k" and "C (cl_fs c) (paired_path (cl_base c) k) = None" and "\<forall>a \<in> set as. \<not> consents k a"
  shows "C (cl_fs c') (paired_path (cl_base c) k) = None \<and>
    (\<forall>s < length (cl_heap c'). di_id (ses_info (ses c' s)) = k \<longrightarrow> \<not> paired (ses c' s))"
  using untouched_steps [OF assms(1) inv_fresh [OF assms(2)] assms(3-5) _ assms(7)] assms(2,6)
    steps_base [OF assms(1) inv_fresh [OF assms(2)]]
  by (auto simp: untouched_def fresh_client_def)

theorem no_pairing_without_consent_witness:
  "cl_fs demo_after (paired_path ''/c'' ''a1'') = None \<and>
   \<not> paired (ses demo_after 0)"
  using no_pairing_without_consent [OF demo_steps demo_fresh(1) nxfs_ok_ref, of "''a1''"]
    demo_after_core(4,7)
  by (simp add: demo_fresh sample_info_def)



text \<open>
  C8: the session table. In every client reached from the start at most one session per device
  is live and it is the one a lookup by id returns; every entry is a session of the device it is
  filed under; a session in state \<open>Paired\<close> has its \<open>paired\<close> flag set.
\<close>

theorem session_table_invariant:
  assumes "steps Y F M K as c c'" and "fresh_client c"
  shows "(\<forall>s < length (cl_heap c'). \<not> disconnected (ses c' s) \<longrightarrow>
            device c' (di_id (ses_info (ses c' s))) = Some s) \<and>
    (\<forall>k s. device c' k = Some s \<longrightarrow> s < length (cl_heap c') \<and> di_id (ses_info (ses c' s)) = k) \<and>
    (\<forall>s < length (cl_heap c'). ses_pair_state (ses c' s) = Paired \<longrightarrow> paired (ses c' s))"
proof -
  have "inv c'" by (rule inv_steps [OF assms(1) inv_fresh [OF assms(2)]])
  then show ?thesis by (auto simp: inv_def device_def)
qed

theorem session_table_invariant_witness:
  "device demo_after (di_id (ses_info (ses demo_after 0))) = Some 0 \<and>
   0 < length (cl_heap demo_after) \<and> ses_pair_state (ses demo_after 0) \<noteq> Paired"
  using session_table_invariant [OF demo_steps demo_fresh(1)] demo_after_core(6-8) by auto

text \<open>
  C9: pinning on the accepting side. When a peer connects to us and a pairing with a certificate
  is stored for the id it claims, a session is entered only if the peer presented exactly that
  certificate.
\<close>

theorem accepted_peer_is_pinned:
  assumes "handle_new_connection Y F M K t i cn c = (Connected s, c')" and "cn_server_side cn"
    and "load_paired_device Y F (cl_base c) (di_id i) (cl_fs c) = Some d" and "certificate_pem d \<noteq> []"
  shows "peer_cert_pem M (cn_peer cn) = Some (certificate_pem d)"
  using assms(1)
proof (cases rule: handle_new_connection_cases)
  case (entered pem info)
  then show ?thesis
    using assms(2-4) by (auto simp: admitted_def pin_check_def Let_def split: if_splits)
qed simp

definition pinned_fs :: "string \<rightharpoonup> string" where
  "pinned_fs = save_paired_device yy_ref nx_ref ''/c'' sample_info ''Cabc'' Map.empty"

lemma pinned_load:
  "load_paired_device yy_ref nx_ref ''/c'' ''a1'' pinned_fs = Some (stored_device sample_info ''Cabc'')"
proof -
  have d: "device_ok nx_ref ''/c'' sample_info ''Cabc''"
    by (simp add: device_ok_def key_ok_def sample_info_def paired_path_def ascii_char_def)
  then have k: "key_ok nx_ref ''/c'' ''a1''" by (simp add: device_ok_def sample_info_def)
  show ?thesis
    using load_save [OF yyjson_ok_ref nxfs_ok_ref nxfs_up_ref d k, of Map.empty]
    by (simp add: pinned_fs_def sample_info_def)
qed

theorem accepted_peer_is_pinned_witness:
  "\<exists>s c'. handle_new_connection yy_ref nx_ref mbed_ref no_plugins 0 sample_info
      (demo_conn True (Some ''abc'')) (demo_client pinned_fs) = (Connected s, c') \<and>
     peer_cert_pem mbed_ref (cn_peer (demo_conn True (Some ''abc''))) = Some ''Cabc''"
proof -
  have p: "peer_cert_pem mbed_ref (Some ''abc'') = Some ''Cabc''"
    by (simp add: peer_cert_pem_def pem_write_buffer_def mbed_ref_def)
  have "admitted yy_ref nx_ref mbed_ref 0 sample_info (demo_conn True (Some ''abc'')) (demo_client pinned_fs)
      ''Cabc'' sample_info"
    by (rule demo_admitted) (simp_all add: pinned_load p pin_check_def stored_device_def)
  note c = admitted_connects [OF this, of no_plugins]
  have id: "di_id sample_info = ''a1''" by (simp add: sample_info_def)
  show ?thesis
    using accepted_peer_is_pinned [OF c, of "stored_device sample_info ''Cabc''"] c
    by (auto simp: demo_fresh pinned_load id stored_device_def demo_conn_def)
qed

text \<open>
  C10: no pinning on the connecting side. When we connect to a peer we discovered (\<open>tcp_server_side\<close>
  is false), a stored pairing makes the session paired whatever certificate the peer presents, or
  none at all: the comparison with the stored certificate is skipped.
\<close>

theorem connecting_side_not_pinned:
  assumes "di_id i \<noteq> []" and "di_id i \<noteq> di_id (local_device c)" and "\<not> connected_to c (di_id i)"
    and "cn_defaults_ok cn" and "cn_setup_ok cn" and "\<not> cn_server_side cn"
    and "fst (perform_tls_handshake (cn_handshake cn)) = Returned True"
    and "peer_cert_pem M (cn_peer cn) = Some pem"
    and "secure_identity Y t (local_device c) i cn = Inr info"
    and "load_paired_device Y F (cl_base c) (di_id i) (cl_fs c) = Some d"
  shows "\<exists>c'. handle_new_connection Y F M K t i cn c = (Connected (length (cl_heap c)), c') \<and>
    (inv c \<longrightarrow> paired (ses c' (length (cl_heap c))) \<and> ses_cert_pem (ses c' (length (cl_heap c))) = pem)"
proof -
  have a: "admitted Y F M t i cn c pem info"
    using assms by (simp add: admitted_def pin_check_def)
  let ?e = "snd (enter_session (new_session M cn (Some d) pem info) c)"
  have sc: "same_core ?e (greet Y K t i cn (length (cl_heap c)) ?e)" by (rule same_core_greet)
  show ?thesis
    using admitted_connects [OF a, of K] assms(10) same_core_all(7) [OF sc, of "length (cl_heap c)"]
      ses_enter [of c "length (cl_heap c)" "new_session M cn (Some d) pem info"]
    by (auto simp: enter_sel core_def new_session_def)
qed

theorem connecting_side_not_pinned_witness:
  "\<exists>c'. handle_new_connection yy_ref nx_ref mbed_ref no_plugins 0 sample_info (demo_conn False None)
      (demo_client pinned_fs) = (Connected 0, c') \<and> paired (ses c' 0) \<and> ses_cert_pem (ses c' 0) = []"
proof -
  have p: "peer_cert_pem mbed_ref None = Some []" by (simp add: peer_cert_pem_def)
  have "admitted yy_ref nx_ref mbed_ref 0 sample_info (demo_conn False None) (demo_client pinned_fs)
      [] sample_info"
    by (rule demo_admitted) (simp_all add: p pin_check_def)
  note a = this [unfolded admitted_def]
  have id: "di_id sample_info = ''a1''" by (simp add: sample_info_def)
  have l: "length (cl_heap (demo_client pinned_fs)) = 0" by (simp add: demo_client_def)
  show ?thesis
    using connecting_side_not_pinned [of sample_info "demo_client pinned_fs" "demo_conn False None" mbed_ref "[]"
        yy_ref 0 sample_info nx_ref "stored_device sample_info ''Cabc''" no_plugins] a
      inv_fresh [OF demo_fresh(1) [of pinned_fs]]
    by (simp add: l demo_fresh pinned_load id demo_conn_def)
qed

end
