(* ===== verification/Pairing_Protocol.thy ===== *)
theory Pairing_Protocol
  imports Pairing_Safety
begin

text \<open>
  Single operations of pairing seen from both ends: the verification key, the clock check, the
  answer to a request, and the order in which queued packets leave.
\<close>

section \<open>Lemmas\<close>

lemma pair_packet_plain: "yyjson_ok Y \<Longrightarrow> packet_plain (pair_packet Y w ts)"
  unfolding packet_plain_def pair_packet_def
  by (auto simp: Let_def Pair_type_def ascii_char_def set_obj split: option.split intro!: j_plain_set)

lemma field_pair [packet_simps]:
  "yyjson_ok Y \<Longrightarrow> field Y (pkt_body (pair_packet Y w ts)) k =
     (if k = ''timestamp'' \<and> ts \<noteq> None then Some (JSint (the ts))
      else if k = ''pair'' then Some (JBool w) else None)"
  by (simp add: pair_packet_def Let_def field_set set_obj split: option.split)

lemma pair_packet_values:
  assumes "yyjson_ok Y"
  shows "jb_value_bool Y (j_norm (pkt_body (pair_packet Y w ts))) ''pair'' False = w"
    and "jb_value_i64 Y (j_norm (pkt_body (pair_packet Y w (Some t)))) ''timestamp'' 0 = t"
  using assms by (simp_all add: jb_norm [OF assms], simp_all add: jb_defs field_pair json_simps)

lemma pair_packet_type [simp]: "pkt_type (pair_packet Y w ts) = Pair_type"
  by (simp add: pair_packet_def Let_def)

lemma pair_over_wire:
  "yyjson_ok Y \<Longrightarrow> \<exists>q. parse_packet Y (serialize Y now (pair_packet Y w ts)) = Some q \<and>
     pkt_type q = Pair_type \<and> pkt_body q = j_norm (pkt_body (pair_packet Y w ts))"
  by (simp add: parse_serialize_eq pair_packet_plain received_def Let_def)

lemma verification_key_sym: "verification_key M a b ts = verification_key M b a ts"
  using lex_less_total [of a b] lex_less_asym [of a b] lex_less_asym [of b a]
  by (auto simp: verification_key_def Let_def)

lemma verification_key_text:
  assumes "mbedtls_ok M" "a \<noteq> []" "b \<noteq> []"
  shows "length (verification_key M a b ts) = 8 \<and> list_all upper_hex_char (verification_key M a b ts)"
proof -
  obtain d where d: "verification_key M a b ts = uppercase_first8 (sha256_hex_upper M d)"
    using assms by (auto simp: verification_key_def Let_def)
  have "length (sha256_hex_upper M d) = 64" by (rule length_sha256_hex [OF assms(1)])
  then show ?thesis
    using sha256_hex_chars [of M d] set_take_subset [of 8 "sha256_hex_upper M d"]
    by (auto simp: d uppercase_first8_def list_all_iff)
qed

lemma llabs_small:
  assumes "\<bar>sint d\<bar> < 2 ^ 63"
  shows "sint (llabs d) = \<bar>sint d\<bar>"
proof (cases "sint d < 0")
  case True
  have "sint (0 - d) = sint (0 :: i64) - sint d" using assms by (intro sint_minus_small) auto
  then show ?thesis using True by (simp add: llabs_def)
qed (simp add: llabs_def)

lemma clock_skewed_exact:
  assumes "\<bar>sint now - sint ts\<bar> < 2 ^ 63"
  shows "clock_skewed now ts \<longleftrightarrow> ts \<noteq> 0 \<and> 1800 < \<bar>sint now - sint ts\<bar>"
proof -
  have "sint (now - ts) = sint now - sint ts" by (rule sint_minus_small [OF assms])
  then have "sint (llabs (now - ts)) = \<bar>sint now - sint ts\<bar>" using llabs_small [of "now - ts"] assms by simp
  then show ?thesis by (simp add: clock_skewed_def kPairingWindowSeconds_def)
qed

lemma sint_seconds_of:
  assumes "0 \<le> sint ms"
  shows "sint (seconds_of ms) = sint ms div 1000"
proof -
  have "sint ms < 2 ^ 63" using sint_lt [of ms] by simp
  then have b: "0 \<le> sint ms div 1000" "sint ms div 1000 < 2 ^ 63"
    using assms by (auto simp: pos_imp_zdiv_nonneg_iff) 
  have "sint ms sdiv 1000 = sint ms div 1000"
    using assms by (cases "sint ms = 0") (auto simp: signed_divide_int_def sgn_if)
  then show ?thesis
    using b by (simp add: seconds_of_def sint_sbintrunc' signed_take_bit_int_eq_self)
qed

lemma drain_order:
  "drain_sends queue es = (r, q, out, es') \<Longrightarrow>
     (\<exists>n. out = take n (concat queue)) \<and> (r = Drained \<longrightarrow> q = [] \<and> out = concat queue) \<and>
     (\<exists>k. q = drop k queue)"
proof (induction queue arbitrary: es r q out es')
  case Nil
  then show ?case by (auto intro: exI [of _ 0])
next
  case (Cons payload queue)
  obtain b sent es1 where s: "send_all_tls payload es = (b, sent, es1)" by (cases "send_all_tls payload es") auto
  note p = send_all_tls_sent [OF s]
  show ?case
  proof (cases "b = Returned True")
    case True
    obtain r1 q1 o1 es2 where d: "drain_sends queue es1 = (r1, q1, o1, es2)" by (cases "drain_sends queue es1") auto
    have e: "r = r1" "q = q1" "out = payload @ o1" using Cons.prems s True d p by auto
    obtain n k where "o1 = take n (concat queue)" "q1 = drop k queue"
      using Cons.IH [OF d] True by auto
    then have "out = take (length payload + n) (concat (payload # queue))" "q = drop (Suc k) (payload # queue)"
      using e by simp_all
    then have "\<exists>n. out = take n (concat (payload # queue))" "\<exists>k. q = drop k (payload # queue)" by blast+
    moreover have "r = Drained \<longrightarrow> q = [] \<and> out = concat (payload # queue)" using Cons.IH [OF d] e by simp
    ultimately show ?thesis by blast
  next
    case False
    then have e: "r \<noteq> Drained" "q = queue" "out = sent"
      using Cons.prems s by (auto split: call.splits bool.splits)
    obtain n where "sent = take n payload" using p by blast
    then have "out = take (min n (length payload)) (concat (payload # queue))" using e by (simp add: min_def)
    moreover have "q = drop 1 (payload # queue)" using e by simp
    ultimately show ?thesis using e(1) by blast
  qed
qed

section \<open>Properties\<close>

text \<open>
  C11: both ends show the same verification key. A pair request is read by the peer as a request
  with the sender's timestamp, and the key the peer computes from its own and the sender's public
  key is the key the sender computes: eight upper-case hexadecimal digits.
\<close>

theorem same_key_on_both_ends:
  assumes "yyjson_ok Y" and "mbedtls_ok M" and "a \<noteq> []" and "b \<noteq> []"
  shows "\<exists>q. parse_packet Y (serialize Y now (pair_packet Y True (Some ts))) = Some q \<and>
     pkt_type q = Pair_type \<and> jb_value_bool Y (pkt_body q) ''pair'' False \<and>
     verification_key M b a (jb_value_i64 Y (pkt_body q) ''timestamp'' 0) = verification_key M a b ts \<and>
     length (verification_key M a b ts) = 8 \<and> list_all upper_hex_char (verification_key M a b ts)"
proof -
  obtain q where "parse_packet Y (serialize Y now (pair_packet Y True (Some ts))) = Some q"
    "pkt_type q = Pair_type" "pkt_body q = j_norm (pkt_body (pair_packet Y True (Some ts)))"
    using pair_over_wire [OF assms(1)] by blast
  then show ?thesis
    using pair_packet_values [OF assms(1)] verification_key_sym [of M b a ts]
      verification_key_text [OF assms(2-4)] by auto
qed

theorem same_key_on_both_ends_witness:
  "\<exists>q. parse_packet yy_ref (serialize yy_ref 5 (pair_packet yy_ref True (Some 1700000000))) = Some q \<and>
     pkt_type q = Pair_type \<and> jb_value_bool yy_ref (pkt_body q) ''pair'' False \<and>
     verification_key mbed_ref [1, 2] [3] (jb_value_i64 yy_ref (pkt_body q) ''timestamp'' 0) =
       verification_key mbed_ref [3] [1, 2] 1700000000 \<and>
     length (verification_key mbed_ref [3] [1, 2] 1700000000) = 8 \<and>
     list_all upper_hex_char (verification_key mbed_ref [3] [1, 2] 1700000000)"
  by (rule same_key_on_both_ends [OF yyjson_ok_ref mbedtls_ok_ref]) simp_all

text \<open>
  The clock check accepts a request exactly when it carries no timestamp or one within half an
  hour of the local clock, for all timestamps less than \<open>2 ^ 63\<close> seconds away; the one at distance
  \<open>2 ^ 63\<close> passes, because the absolute value of the difference wraps.
\<close>

theorem clock_check:
  "(\<bar>sint now - sint ts\<bar> < 2 ^ 63 \<longrightarrow>
      (clock_skewed now ts \<longleftrightarrow> ts \<noteq> 0 \<and> 1800 < \<bar>sint now - sint ts\<bar>)) \<and>
   \<not> clock_skewed now (now + 2 ^ 63)"
proof -
  have "now - (now + 2 ^ 63) = - (2 ^ 63 :: i64)" by simp
  then have "llabs (now - (now + 2 ^ 63)) = - (2 ^ 63)" by (simp add: llabs_def)
  moreover have "sint (- (2 ^ 63) :: i64) = - (2 ^ 63)" by (simp add: sint_word_ariths)
  ultimately have "\<not> clock_skewed now (now + 2 ^ 63)" by (simp add: clock_skewed_def kPairingWindowSeconds_def)
  then show ?thesis using clock_skewed_exact by blast
qed

theorem clock_check_witness:
  "\<not> clock_skewed 1700000000 1700001800 \<and> clock_skewed 1700000000 1700001801 \<and>
   \<not> clock_skewed 1700000000 (1700000000 + 2 ^ 63)"
  using clock_check [of 1700000000 1700001800] clock_check [of 1700000000 1700001801] by simp



text \<open>
  The sending side of the I/O loop. Whatever mbedtls accepts per call, what reaches the peer is
  a prefix of the queued packets in the order they were queued; when the drain succeeds all of them
  were sent and the queue is empty, and a failure never drops a packet that was not tried.
\<close>

theorem queue_is_sent_in_order:
  assumes "drain_sends queue es = (r, q, out, es')"
  shows "(\<exists>n. out = take n (concat queue)) \<and> (r = Drained \<longrightarrow> q = [] \<and> out = concat queue) \<and>
    (\<exists>k. q = drop k queue)"
  by (rule drain_order [OF assms])

theorem queue_is_sent_in_order_witness:
  "\<exists>q out. drain_sends [''abc'', ''de''] [TxWrote 2, TxWant, TxWrote 1, TxWrote 2] = (Drained, q, out, []) \<and>
     q = [] \<and> out = concat [''abc'', ''de'']"
proof -
  obtain q out where d: "drain_sends [''abc'', ''de''] [TxWrote 2, TxWant, TxWrote 1, TxWrote 2] = (Drained, q, out, [])"
    by (simp add: send_all_tls_def send_all_from.simps)
  from queue_is_sent_in_order [OF this] d show ?thesis by auto
qed

end
