(* ===== verification/Mdns_Name.thy ===== *)
theory Mdns_Name
  imports Prelude "HOL-Library.Monad_Syntax"
begin

unbundle bit_operations_syntax

text \<open>
  The domain names of \<open>sysmodule/src/mdns/mdns.h\<close>: reading them out of a received datagram, with
  compression references, and writing them into one. A buffer is the list of its bytes. A read or
  write outside it is a fault, the value \<^const>\<open>None\<close>; where the C code returns no result or
  \<open>MDNS_INVALID_POS\<close> that is an inner \<^const>\<open>None\<close>. Positions are \<open>size_t\<close>: no sum of them comes
  near \<open>2 ^ 64\<close>, and no difference is negative, so they are natural numbers.
\<close>

section \<open>Memory\<close>

definition rd8 :: "string \<Rightarrow> nat \<Rightarrow> nat option" where
  "rd8 buf i = (if i < length buf then Some (of_char (buf ! i)) else None)"

text \<open>\<open>n\<close> bytes, for \<open>memcpy\<close> and \<open>memcmp\<close>.\<close>

definition rd_mem :: "string \<Rightarrow> nat \<Rightarrow> nat \<Rightarrow> string option" where
  "rd_mem buf i n = (if i + n \<le> length buf then Some (take n (drop i buf)) else None)"

definition mem_splice :: "string \<Rightarrow> nat \<Rightarrow> string \<Rightarrow> string" where
  "mem_splice buf i s = take i buf @ s @ drop (i + length s) buf"

definition wr_mem :: "string \<Rightarrow> nat \<Rightarrow> string \<Rightarrow> string option" where
  "wr_mem buf i s = (if i + length s \<le> length buf then Some (mem_splice buf i s) else None)"

definition wr8 :: "string \<Rightarrow> nat \<Rightarrow> nat \<Rightarrow> string option" where
  "wr8 buf i v = wr_mem buf i [char_of v]"

definition be16 :: "u16 \<Rightarrow> string" where
  "be16 w = [char_of (unat w div 256), char_of (unat w)]"

definition be32 :: "u32 \<Rightarrow> string" where
  "be32 w = [char_of (unat w div 16777216), char_of (unat w div 65536), char_of (unat w div 256), char_of (unat w)]"

definition mdns_ntohs :: "string \<Rightarrow> nat \<Rightarrow> u16 option" where
  "mdns_ntohs buf i = do { a \<leftarrow> rd8 buf i; b \<leftarrow> rd8 buf (i + 1); Some (of_nat (a * 256 + b)) }"

definition mdns_ntohl :: "string \<Rightarrow> nat \<Rightarrow> u32 option" where
  "mdns_ntohl buf i =
     do { a \<leftarrow> rd8 buf i; b \<leftarrow> rd8 buf (i + 1); c \<leftarrow> rd8 buf (i + 2); d \<leftarrow> rd8 buf (i + 3);
          Some (of_nat (((a * 256 + b) * 256 + c) * 256 + d)) }"

text \<open>The writers return the buffer and the position behind what they wrote.\<close>

definition mdns_htons :: "string \<Rightarrow> nat \<Rightarrow> u16 \<Rightarrow> (string \<times> nat) option" where
  "mdns_htons buf i w = do { buf \<leftarrow> wr_mem buf i (be16 w); Some (buf, i + 2) }"

definition mdns_htonl :: "string \<Rightarrow> nat \<Rightarrow> u32 \<Rightarrow> (string \<times> nat) option" where
  "mdns_htonl buf i w = do { buf \<leftarrow> wr_mem buf i (be32 w); Some (buf, i + 4) }"

section \<open>Reading names\<close>

definition MDNS_MAX_SUBSTRINGS :: nat where "MDNS_MAX_SUBSTRINGS = 64"

definition mdns_is_string_ref :: "nat \<Rightarrow> bool" where
  "mdns_is_string_ref v = (v AND 0xC0 = 0xC0)"

text \<open>\<open>mdns_string_pair_t\<close>; no offset stands for \<open>MDNS_INVALID_POS\<close>.\<close>

record mdns_string_pair =
  sp_offset :: "nat option"
  sp_length :: nat
  sp_ref :: bool

text \<open>The loop that follows references: the position reached, if valid, and whether one was followed.\<close>

function follow_refs :: "string \<Rightarrow> nat \<Rightarrow> nat \<Rightarrow> bool \<Rightarrow> nat \<Rightarrow> (nat option \<times> bool) option" where
  "follow_refs buf sz offset ref recursion =
     do { b \<leftarrow> rd8 buf offset;
          if \<not> mdns_is_string_ref b then Some (Some offset, ref)
          else if sz < offset + 2 then Some (None, ref)
          else do { w \<leftarrow> mdns_ntohs buf offset;
                    let offset = unat (w AND 0x3FFF);
                    if sz \<le> offset then Some (None, ref)
                    else if 16 < recursion + 1 then Some (None, True)
                    else follow_refs buf sz offset True (recursion + 1) } }"
  by pat_completeness auto

termination
  by (relation "measure (\<lambda>(buf, sz, offset, ref, recursion). 17 - recursion)") auto

declare follow_refs.simps [simp del]

definition mdns_get_next_substring :: "string \<Rightarrow> nat \<Rightarrow> nat \<Rightarrow> mdns_string_pair option" where
  "mdns_get_next_substring buf sz offset =
     (if sz \<le> offset then Some \<lparr>sp_offset = None, sp_length = 0, sp_ref = False\<rparr>
      else do { b \<leftarrow> rd8 buf offset;
                if b = 0 then Some \<lparr>sp_offset = Some offset, sp_length = 0, sp_ref = False\<rparr>
                else do { (pos, ref) \<leftarrow> follow_refs buf sz offset False 0;
                          case pos of
                            None \<Rightarrow> Some \<lparr>sp_offset = None, sp_length = 0, sp_ref = ref\<rparr>
                          | Some offset \<Rightarrow>
                              do { len \<leftarrow> rd8 buf offset;
                                   if sz < offset + 1 + len
                                   then Some \<lparr>sp_offset = None, sp_length = 0, sp_ref = ref\<rparr>
                                   else Some \<lparr>sp_offset = Some (offset + 1), sp_length = len, sp_ref = ref\<rparr> } } })"

text \<open>The position behind the name; an inner \<^const>\<open>None\<close> is the result 0, which leaves \<open>offset\<close> alone.\<close>

function skip_loop :: "string \<Rightarrow> nat \<Rightarrow> nat \<Rightarrow> nat \<Rightarrow> nat option option" where
  "skip_loop buf sz cur counter =
     do { s \<leftarrow> mdns_get_next_substring buf sz cur;
          case sp_offset s of
            None \<Rightarrow> Some None
          | Some offset \<Rightarrow>
              if MDNS_MAX_SUBSTRINGS < counter then Some None
              else if sp_ref s then Some (Some (cur + 2))
              else if sp_length s \<noteq> 0 then skip_loop buf sz (offset + sp_length s) (counter + 1)
              else Some (Some (offset + sp_length s + 1)) }"
  by pat_completeness auto

termination
  by (relation "measure (\<lambda>(buf, sz, cur, counter). MDNS_MAX_SUBSTRINGS + 1 - counter)") auto

declare skip_loop.simps [simp del]

definition mdns_string_skip :: "string \<Rightarrow> nat \<Rightarrow> nat \<Rightarrow> nat option option" where
  "mdns_string_skip buf sz offset = skip_loop buf sz offset 0"

text \<open>\<open>tolower\<close> and \<open>strncasecmp(a, b, n) == 0\<close> on two runs of \<open>n\<close> bytes.\<close>

definition to_lower :: "char \<Rightarrow> char" where
  "to_lower c = (let n = of_char c :: nat in if 65 \<le> n \<and> n \<le> 90 then char_of (n + 32) else c)"

fun strncasecmp_eq :: "string \<Rightarrow> string \<Rightarrow> bool" where
  "strncasecmp_eq (a # as) (b # bs) =
     (to_lower a = to_lower b \<and> (a = CHR 0x00 \<or> strncasecmp_eq as bs))"
| "strncasecmp_eq _ _ = True"

text \<open>The positions behind the two names if they are equal.\<close>

function equal_loop ::
    "string \<Rightarrow> nat \<Rightarrow> nat \<Rightarrow> nat option \<Rightarrow> string \<Rightarrow> nat \<Rightarrow> nat \<Rightarrow> nat option \<Rightarrow> nat \<Rightarrow>
     (nat \<times> nat) option option" where
  "equal_loop bl sl lcur lend br sr rcur rend counter =
     do { l \<leftarrow> mdns_get_next_substring bl sl lcur;
          r \<leftarrow> mdns_get_next_substring br sr rcur;
          case sp_offset l of
            None \<Rightarrow> Some None
          | Some lofs \<Rightarrow> (case sp_offset r of
              None \<Rightarrow> Some None
            | Some rofs \<Rightarrow>
                if MDNS_MAX_SUBSTRINGS < counter then Some None
                else if sp_length l \<noteq> sp_length r then Some None
                else do { rs \<leftarrow> rd_mem br rofs (sp_length r);
                          ls \<leftarrow> rd_mem bl lofs (sp_length r);
                          if \<not> strncasecmp_eq rs ls then Some None
                          else
                            (let lend = (if sp_ref l \<and> lend = None then Some (lcur + 2) else lend);
                                 rend = (if sp_ref r \<and> rend = None then Some (rcur + 2) else rend);
                                 lcur = lofs + sp_length l;
                                 rcur = rofs + sp_length r
                             in if sp_length l \<noteq> 0 then equal_loop bl sl lcur lend br sr rcur rend (counter + 1)
                                else Some (Some (case lend of Some e \<Rightarrow> e | None \<Rightarrow> lcur + 1,
                                                 case rend of Some e \<Rightarrow> e | None \<Rightarrow> rcur + 1))) }) }"
  by pat_completeness auto

termination
  by (relation "measure (\<lambda>(bl, sl, lcur, lend, br, sr, rcur, rend, counter). MDNS_MAX_SUBSTRINGS + 1 - counter)") auto

declare equal_loop.simps [simp del]

definition mdns_string_equal ::
    "string \<Rightarrow> nat \<Rightarrow> nat \<Rightarrow> string \<Rightarrow> nat \<Rightarrow> nat \<Rightarrow> (nat \<times> nat) option option" where
  "mdns_string_equal bl sl lofs br sr rofs = equal_loop bl sl lofs None br sr rofs None 0"

text \<open>\<open>dst\<close> is what has been written to the caller's array of \<open>capacity\<close> bytes.\<close>

definition put_label :: "nat \<Rightarrow> string \<Rightarrow> string \<Rightarrow> string" where
  "put_label capacity dst label =
     (let dst = dst @ take (capacity - length dst) label
      in if length dst < capacity then dst @ ''.'' else dst)"

function extract_loop ::
    "string \<Rightarrow> nat \<Rightarrow> nat \<Rightarrow> nat \<Rightarrow> nat option \<Rightarrow> string \<Rightarrow> nat \<Rightarrow> (string \<times> nat) option option" where
  "extract_loop buf sz capacity cur ends dst counter =
     do { s \<leftarrow> mdns_get_next_substring buf sz cur;
          case sp_offset s of
            None \<Rightarrow> Some None
          | Some offset \<Rightarrow>
              if MDNS_MAX_SUBSTRINGS < counter then Some None
              else
                (let ends = (if sp_ref s \<and> ends = None then Some (cur + 2) else ends)
                 in if sp_length s \<noteq> 0 then
                      do { label \<leftarrow> rd_mem buf offset (min (sp_length s) (capacity - length dst));
                           extract_loop buf sz capacity (offset + sp_length s) ends
                             (put_label capacity dst label) (counter + 1) }
                    else Some (Some (dst, case ends of Some e \<Rightarrow> e | None \<Rightarrow> offset + sp_length s + 1))) }"
  by pat_completeness auto

termination
  by (relation "measure (\<lambda>(buf, sz, capacity, cur, ends, dst, counter). MDNS_MAX_SUBSTRINGS + 1 - counter)") auto

declare extract_loop.simps [simp del]

text \<open>The extracted string, empty on failure, and the new \<open>offset\<close>.\<close>

definition mdns_string_extract :: "string \<Rightarrow> nat \<Rightarrow> nat \<Rightarrow> nat \<Rightarrow> (string \<times> nat) option" where
  "mdns_string_extract buf sz offset capacity =
     do { r \<leftarrow> extract_loop buf sz capacity offset None [] 0;
          Some (case r of None \<Rightarrow> ([], offset) | Some (s, e) \<Rightarrow> (s, e)) }"

section \<open>Writing names\<close>

text \<open>\<open>mdns_string_find\<close> in the \<open>length\<close> bytes of \<open>str\<close>.\<close>

definition mdns_string_find :: "string \<Rightarrow> nat \<Rightarrow> char \<Rightarrow> nat \<Rightarrow> nat option" where
  "mdns_string_find str len c offset =
     (if len \<le> offset then None
      else map_option (\<lambda>i. offset + i) (find_if (\<lambda>x. x = c) (take (len - offset) (drop offset str))))"

lemma mdns_string_find_ge: "mdns_string_find str len c offset = Some p \<Longrightarrow> offset \<le> p"
  by (auto simp: mdns_string_find_def split: if_splits)

record mdns_string_table =
  tab_offset :: "nat list"
  tab_count :: nat
  tab_next :: nat

definition new_string_table :: mdns_string_table where
  "new_string_table = \<lparr>tab_offset = replicate 16 0, tab_count = 0, tab_next = 0\<rparr>"

definition table_capacity :: nat where "table_capacity = 16"

definition mdns_string_table_add :: "nat \<Rightarrow> mdns_string_table option \<Rightarrow> mdns_string_table option" where
  "mdns_string_table_add offset table =
     map_option (\<lambda>t.
       let n = tab_next t + 1
       in t\<lparr>tab_offset := (tab_offset t)[tab_next t := offset],
            tab_count := (if table_capacity < tab_count t + 1 then table_capacity else tab_count t + 1),
            tab_next := (if table_capacity \<le> n then 0 else n)\<rparr>) table"

text \<open>The loop that matches the labels after the first; \<open>cur\<close> is where the next one is read.\<close>

function match_rest :: "string \<Rightarrow> nat \<Rightarrow> string \<Rightarrow> nat \<Rightarrow> nat \<Rightarrow> nat \<Rightarrow> bool option" where
  "match_rest buf capacity str total_length offset cur =
     (if offset < total_length then
        (let dot_pos = (case mdns_string_find str total_length (CHR ''.'') offset of Some p \<Rightarrow> p | None \<Rightarrow> total_length);
             current_length = dot_pos - offset
         in do { s \<leftarrow> mdns_get_next_substring buf capacity cur;
                 case sp_offset s of
                   None \<Rightarrow> Some False
                 | Some o1 \<Rightarrow>
                     if sp_length s = 0 \<or> sp_length s \<noteq> current_length then Some False
                     else do { b \<leftarrow> rd_mem buf o1 (sp_length s);
                               if take (sp_length s) (drop offset str) \<noteq> b then Some False
                               else match_rest buf capacity str total_length (dot_pos + 1) (o1 + sp_length s) } })
      else Some True)"
  by pat_completeness auto

termination
  by (relation "measure (\<lambda>(buf, capacity, str, total_length, offset, cur). total_length - offset)")
     (auto split: option.splits dest: mdns_string_find_ge)

declare match_rest.simps [simp del]

definition match_entry :: "string \<Rightarrow> nat \<Rightarrow> string \<Rightarrow> nat \<Rightarrow> nat \<Rightarrow> nat \<Rightarrow> bool option" where
  "match_entry buf capacity str first_length total_length entry =
     (if capacity \<le> entry then Some False
      else do { s \<leftarrow> mdns_get_next_substring buf capacity entry;
                case sp_offset s of
                  None \<Rightarrow> Some False
                | Some o1 \<Rightarrow>
                    if sp_length s = 0 \<or> sp_length s \<noteq> first_length then Some False
                    else do { b \<leftarrow> rd_mem buf o1 (sp_length s);
                              if take (sp_length s) str \<noteq> b then Some False
                              else match_rest buf capacity str total_length (first_length + 1) (o1 + sp_length s) } })"

fun find_entry :: "string \<Rightarrow> nat \<Rightarrow> string \<Rightarrow> nat \<Rightarrow> nat \<Rightarrow> nat list \<Rightarrow> nat option option" where
  "find_entry buf capacity str first_length total_length [] = Some None"
| "find_entry buf capacity str first_length total_length (e # es) =
     do { m \<leftarrow> match_entry buf capacity str first_length total_length e;
          if m then Some (Some e) else find_entry buf capacity str first_length total_length es }"

definition mdns_string_table_find ::
    "mdns_string_table option \<Rightarrow> string \<Rightarrow> nat \<Rightarrow> string \<Rightarrow> nat \<Rightarrow> nat \<Rightarrow> nat option option" where
  "mdns_string_table_find table buf capacity str first_length total_length =
     (case table of
        None \<Rightarrow> Some None
      | Some t \<Rightarrow> find_entry buf capacity str first_length total_length (take (tab_count t) (tab_offset t)))"

definition mdns_string_make_ref :: "string \<Rightarrow> nat \<Rightarrow> nat \<Rightarrow> nat \<Rightarrow> (string \<times> nat option) option" where
  "mdns_string_make_ref buf data capacity ref_offset =
     (if capacity < 2 then Some (buf, None)
      else do { (buf, data) \<leftarrow> mdns_htons buf data (0xC000 OR of_nat ref_offset); Some (buf, Some data) })"

text \<open>
  The result: the buffer, the position behind the name (no position: it did not fit) and the table,
  which is absent when the caller passes none.
\<close>

function make_loop ::
    "string \<Rightarrow> nat \<Rightarrow> nat \<Rightarrow> string \<Rightarrow> nat \<Rightarrow> nat \<Rightarrow> mdns_string_table option \<Rightarrow>
     (string \<times> nat option \<times> mdns_string_table option) option" where
  "make_loop buf capacity data name len last_pos table =
     (if last_pos < len then
        (let pos = mdns_string_find name len (CHR ''.'') last_pos;
             sub_length = (case pos of Some p \<Rightarrow> p | None \<Rightarrow> len) - last_pos;
             remain = capacity - data
         in do { r \<leftarrow> mdns_string_table_find table buf capacity (drop last_pos name) sub_length (len - last_pos);
                 case r of
                   Some ref_offset \<Rightarrow>
                     do { (buf, data) \<leftarrow> mdns_string_make_ref buf data remain ref_offset; Some (buf, data, table) }
                 | None \<Rightarrow>
                     if remain \<le> sub_length + 1 then Some (buf, None, table)
                     else do { buf \<leftarrow> wr8 buf data sub_length;
                               buf \<leftarrow> wr_mem buf (data + 1) (take sub_length (drop last_pos name));
                               make_loop buf capacity (data + sub_length + 1) name len
                                 (case pos of Some p \<Rightarrow> p + 1 | None \<Rightarrow> len)
                                 (mdns_string_table_add data table) } })
      else if capacity - data = 0 then Some (buf, None, table)
      else do { buf \<leftarrow> wr8 buf data 0; Some (buf, Some (data + 1), table) })"
  by pat_completeness auto

termination
  by (relation "measure (\<lambda>(buf, capacity, data, name, len, last_pos, table). len - last_pos)")
     (auto split: option.splits dest: mdns_string_find_ge)

declare make_loop.simps [simp del]

text \<open>An empty name reads the byte before its first.\<close>

definition mdns_string_make ::
    "string \<Rightarrow> nat \<Rightarrow> nat \<Rightarrow> string \<Rightarrow> mdns_string_table option \<Rightarrow>
     (string \<times> nat option \<times> mdns_string_table option) option" where
  "mdns_string_make buf capacity data name table =
     (if name = [] then None
      else make_loop buf capacity data name
             (if last name = CHR ''.'' then length name - 1 else length name) 0 table)"

end
