(* ===== verification/Mdns_Message.thy ===== *)
theory Mdns_Message
  imports Mdns_Name
begin

text \<open>
  The messages of \<open>sysmodule/src/mdns/mdns.h\<close>: parsing a received datagram, with a callback per
  question and record, and building queries and answers. \<open>sz\<close> is the length of the datagram, which
  lies at the front of a larger buffer. A callback works on a state of any type; it answers whether
  parsing shall stop.
\<close>

section \<open>Vocabulary\<close>

definition MDNS_PORT :: u16 where "MDNS_PORT = 5353"
definition MDNS_UNICAST_RESPONSE :: u16 where "MDNS_UNICAST_RESPONSE = 0x8000"
definition MDNS_CACHE_FLUSH :: u16 where "MDNS_CACHE_FLUSH = 0x8000"
definition MDNS_RECORDTYPE_A :: u16 where "MDNS_RECORDTYPE_A = 1"
definition MDNS_RECORDTYPE_PTR :: u16 where "MDNS_RECORDTYPE_PTR = 12"
definition MDNS_RECORDTYPE_TXT :: u16 where "MDNS_RECORDTYPE_TXT = 16"
definition MDNS_RECORDTYPE_AAAA :: u16 where "MDNS_RECORDTYPE_AAAA = 28"
definition MDNS_RECORDTYPE_SRV :: u16 where "MDNS_RECORDTYPE_SRV = 33"
definition MDNS_RECORDTYPE_ANY :: u16 where "MDNS_RECORDTYPE_ANY = 255"
definition MDNS_CLASS_IN :: u16 where "MDNS_CLASS_IN = 1"
definition MDNS_CLASS_ANY :: u16 where "MDNS_CLASS_ANY = 255"

datatype mdns_entry_type = EntryQuestion | EntryAnswer | EntryAuthority | EntryAdditional

text \<open>An IPv4 address is its number in network order; an address has a port.\<close>

type_synonym in_addr = u32
type_synonym sockaddr_in = "in_addr \<times> u16"

text \<open>The union of a record's data carries its type.\<close>

datatype mdns_data =
    PtrData string
  | SrvData u16 u16 u16 string
  | AData in_addr
  | AaaaData "128 word"
  | TxtData string string

record mdns_record_t =
  mr_name :: string
  mr_data :: mdns_data
  mr_rclass :: u16
  mr_ttl :: u32

fun mdns_type_of :: "mdns_data \<Rightarrow> u16" where
  "mdns_type_of (PtrData _) = MDNS_RECORDTYPE_PTR"
| "mdns_type_of (SrvData _ _ _ _) = MDNS_RECORDTYPE_SRV"
| "mdns_type_of (AData _) = MDNS_RECORDTYPE_A"
| "mdns_type_of (AaaaData _) = MDNS_RECORDTYPE_AAAA"
| "mdns_type_of (TxtData _ _) = MDNS_RECORDTYPE_TXT"

text \<open>What the callback is told.\<close>

record mdns_event =
  me_entry :: mdns_entry_type
  me_query_id :: u16
  me_rtype :: u16
  me_rclass :: u16
  me_ttl :: u32
  me_name_offset :: nat
  me_name_length :: nat
  me_record_offset :: nat
  me_record_length :: nat

type_synonym 'a mdns_callback = "string \<Rightarrow> nat \<Rightarrow> mdns_event \<Rightarrow> 'a \<Rightarrow> (bool \<times> 'a) option"

section \<open>Receiving\<close>

text \<open>The number of records passed to the callback, the position reached and the callback's state.\<close>

fun records_loop ::
    "'a mdns_callback \<Rightarrow> string \<Rightarrow> nat \<Rightarrow> mdns_entry_type \<Rightarrow> u16 \<Rightarrow> nat \<Rightarrow> nat \<Rightarrow> nat \<Rightarrow> 'a \<Rightarrow>
     (nat \<times> nat \<times> 'a) option" where
  "records_loop cb buf sz entry qid 0 offset parsed a = Some (parsed, offset, a)"
| "records_loop cb buf sz entry qid (Suc n) offset parsed a =
     do { r \<leftarrow> mdns_string_skip buf sz offset;
          let name_offset = offset;
          let offset = (case r of Some e \<Rightarrow> e | None \<Rightarrow> offset);
          if sz < offset + 10 then Some (parsed, offset, a)
          else
            do { rtype \<leftarrow> mdns_ntohs buf offset;
                 rclass \<leftarrow> mdns_ntohs buf (offset + 2);
                 ttl \<leftarrow> mdns_ntohl buf (offset + 4);
                 len \<leftarrow> mdns_ntohs buf (offset + 8);
                 let name_length = offset - name_offset;
                 let offset = offset + 10;
                 if unat len \<le> sz - offset then
                   do { (stop, a) \<leftarrow> cb buf sz \<lparr>me_entry = entry, me_query_id = qid, me_rtype = rtype,
                          me_rclass = rclass, me_ttl = ttl, me_name_offset = name_offset,
                          me_name_length = name_length, me_record_offset = offset, me_record_length = unat len\<rparr> a;
                        if stop then Some (parsed + 1, offset, a)
                        else records_loop cb buf sz entry qid n (offset + unat len) (parsed + 1) a }
                 else records_loop cb buf sz entry qid n (offset + unat len) parsed a } }"

definition mdns_records_parse ::
    "'a mdns_callback \<Rightarrow> string \<Rightarrow> nat \<Rightarrow> nat \<Rightarrow> mdns_entry_type \<Rightarrow> u16 \<Rightarrow> nat \<Rightarrow> 'a \<Rightarrow> (nat \<times> nat \<times> 'a) option" where
  "mdns_records_parse cb buf sz offset entry qid records a = records_loop cb buf sz entry qid records offset 0 a"

text \<open>The three record sections; a section that is not parsed completely ends the parsing.\<close>

definition parse_sections ::
    "'a mdns_callback \<Rightarrow> string \<Rightarrow> nat \<Rightarrow> u16 \<Rightarrow> nat \<Rightarrow> nat \<Rightarrow> nat \<Rightarrow> nat \<Rightarrow> nat \<Rightarrow> 'a \<Rightarrow> (nat \<times> 'a) option" where
  "parse_sections cb buf sz qid answers authorities additionals offset tot a =
     do { (records, offset, a) \<leftarrow> mdns_records_parse cb buf sz offset EntryAnswer qid answers a;
          if records \<noteq> answers then Some (tot + records, a)
          else
            do { let tot = tot + records;
                 (records, offset, a) \<leftarrow> mdns_records_parse cb buf sz offset EntryAuthority qid authorities a;
                 if records \<noteq> authorities then Some (tot + records, a)
                 else
                   do { let tot = tot + records;
                        (records, offset, a) \<leftarrow> mdns_records_parse cb buf sz offset EntryAdditional qid additionals a;
                        Some (tot + records, a) } } }"

text \<open>\<open>recvfrom\<close>: the datagram, cut to the buffer, over what the buffer held. No datagram: an error.\<close>

definition recv_into :: "string \<Rightarrow> string option \<Rightarrow> (string \<times> nat) option" where
  "recv_into buf pkt =
     (case pkt of
        None \<Rightarrow> None
      | Some p \<Rightarrow> (let p = take (length buf) p in if p = [] then None else Some (p @ drop (length p) buf, length p)))"

definition mdns_services_query :: string where
  "mdns_services_query =
     map char_of [0, 0, 0, 0, 0, 1, 0, 0, 0, 0, 0, 0 :: nat] @ char_of (9 :: nat) # ''_services'' @
     char_of (7 :: nat) # ''_dns-sd'' @ char_of (4 :: nat) # ''_udp'' @ char_of (5 :: nat) # ''local'' @
     map char_of [0, 0, 12, 0x80, 1 :: nat]"

text \<open>
  The questions of a message, from position \<open>data\<close> on: whether the callback stopped the parsing, the
  position reached, the number of questions and the callback's state.
\<close>

fun listen_questions ::
    "'a mdns_callback \<Rightarrow> string \<Rightarrow> nat \<Rightarrow> u16 \<Rightarrow> u16 \<Rightarrow> nat \<Rightarrow> nat \<Rightarrow> nat \<Rightarrow> 'a \<Rightarrow>
     (bool \<times> nat \<times> nat \<times> 'a) option" where
  "listen_questions cb buf sz qid flags 0 data tot a = Some (False, data, tot, a)"
| "listen_questions cb buf sz qid flags (Suc n) data tot a =
     do { let question_offset = data;
          e \<leftarrow> mdns_string_equal buf sz data mdns_services_query (length mdns_services_query) 12;
          s \<leftarrow> (case e of Some (ofs, _) \<Rightarrow> Some (Some (True, ofs))
                         | None \<Rightarrow> do { k \<leftarrow> mdns_string_skip buf sz data; Some (map_option (\<lambda>ofs. (False, ofs)) k) });
          case s of
            None \<Rightarrow> Some (False, data, tot, a)
          | Some (dns_sd, offset) \<Rightarrow>
              do { rtype \<leftarrow> mdns_ntohs buf offset;
                   rclass \<leftarrow> mdns_ntohs buf (offset + 2);
                   let data = offset + 4;
                   let class_without_flushbit = rclass AND NOT MDNS_CACHE_FLUSH;
                   if \<not> (class_without_flushbit = MDNS_CLASS_IN \<or> class_without_flushbit = MDNS_CLASS_ANY)
                   then Some (False, data, tot, a)
                   else if dns_sd \<and> flags \<noteq> 0 then listen_questions cb buf sz qid flags n data tot a
                   else
                     do { (stop, a) \<leftarrow> cb buf sz \<lparr>me_entry = EntryQuestion, me_query_id = qid, me_rtype = rtype,
                            me_rclass = rclass, me_ttl = 0, me_name_offset = question_offset,
                            me_name_length = offset - question_offset, me_record_offset = question_offset,
                            me_record_length = offset - question_offset\<rparr> a;
                          if stop then Some (True, data, tot + 1, a)
                          else listen_questions cb buf sz qid flags n data (tot + 1) a } } }"

text \<open>Both receivers return the number of entries parsed, the buffer and the callback's state.\<close>

definition mdns_socket_listen ::
    "'a mdns_callback \<Rightarrow> string \<Rightarrow> string option \<Rightarrow> 'a \<Rightarrow> (nat \<times> string \<times> 'a) option" where
  "mdns_socket_listen cb buf pkt a =
     (case recv_into buf pkt of
        None \<Rightarrow> Some (0, buf, a)
      | Some (buf, sz) \<Rightarrow>
          do { qid \<leftarrow> mdns_ntohs buf 0;
               flags \<leftarrow> mdns_ntohs buf 2;
               questions \<leftarrow> mdns_ntohs buf 4;
               answers \<leftarrow> mdns_ntohs buf 6;
               authorities \<leftarrow> mdns_ntohs buf 8;
               additionals \<leftarrow> mdns_ntohs buf 10;
               (stop, data, tot, a) \<leftarrow> listen_questions cb buf sz qid flags (unat questions) 12 0 a;
               if stop then Some (tot, buf, a)
               else
                 do { (tot, a) \<leftarrow> parse_sections cb buf sz qid (unat answers) (unat authorities)
                                     (unat additionals) data tot a;
                      Some (tot, buf, a) } })"

text \<open>Each question is skipped with its type and class, which are not read.\<close>

fun skip_questions :: "string \<Rightarrow> nat \<Rightarrow> nat \<Rightarrow> nat \<Rightarrow> nat option option" where
  "skip_questions buf sz 0 data = Some (Some data)"
| "skip_questions buf sz (Suc n) data =
     do { r \<leftarrow> mdns_string_skip buf sz data;
          case r of None \<Rightarrow> Some None | Some offset \<Rightarrow> skip_questions buf sz n (offset + 4) }"

definition mdns_query_recv ::
    "'a mdns_callback \<Rightarrow> nat \<Rightarrow> string \<Rightarrow> string option \<Rightarrow> 'a \<Rightarrow> (nat \<times> string \<times> 'a) option" where
  "mdns_query_recv cb only_query_id buf pkt a =
     (case recv_into buf pkt of
        None \<Rightarrow> Some (0, buf, a)
      | Some (buf, sz) \<Rightarrow>
          do { qid \<leftarrow> mdns_ntohs buf 0;
               flags \<leftarrow> mdns_ntohs buf 2;
               questions \<leftarrow> mdns_ntohs buf 4;
               answers \<leftarrow> mdns_ntohs buf 6;
               authorities \<leftarrow> mdns_ntohs buf 8;
               additionals \<leftarrow> mdns_ntohs buf 10;
               if 0 < only_query_id \<and> unat qid \<noteq> only_query_id then Some (0, buf, a)
               else
                 do { q \<leftarrow> skip_questions buf sz (unat questions) 12;
                      case q of
                        None \<Rightarrow> Some (0, buf, a)
                      | Some offset \<Rightarrow>
                          do { (tot, a) \<leftarrow> parse_sections cb buf sz qid (unat answers) (unat authorities)
                                              (unat additionals) offset 0 a;
                               Some (tot, buf, a) } } })"

section \<open>Record data\<close>

text \<open>The address, 0 for data of a wrong length.\<close>

definition mdns_record_parse_a :: "string \<Rightarrow> nat \<Rightarrow> nat \<Rightarrow> nat \<Rightarrow> in_addr option" where
  "mdns_record_parse_a buf sz offset len =
     (if offset + len \<le> sz \<and> len = 4 then mdns_ntohl buf offset else Some 0)"

text \<open>
  Where the text of one entry is split: \<open>sublength\<close> without a separator, 0 to skip the entry
  (characters before the separator must be printable ASCII).
\<close>

fun txt_separator :: "nat \<Rightarrow> string \<Rightarrow> nat" where
  "txt_separator i [] = i"
| "txt_separator i (c # cs) =
     (let n = of_char c :: nat
      in if n < 0x20 \<or> 0x7E < n then 0 else if c = CHR ''='' then i else txt_separator (i + 1) cs)"

function txt_loop :: "string \<Rightarrow> nat \<Rightarrow> nat \<Rightarrow> nat \<Rightarrow> (string \<times> string) list \<Rightarrow> (string \<times> string) list option" where
  "txt_loop buf ends capacity offset records =
     (if offset < ends \<and> length records < capacity then
        do { sublength \<leftarrow> rd8 buf offset;
             if ends - offset \<le> sublength then Some records
             else
               do { strdata \<leftarrow> rd_mem buf (offset + 1) sublength;
                    let separator = txt_separator 0 strdata;
                    let offset = offset + sublength + 1;
                    if separator = 0 then txt_loop buf ends capacity offset records
                    else if separator < sublength then
                      txt_loop buf ends capacity offset
                        (records @ [(take separator strdata, drop (separator + 1) strdata)])
                    else txt_loop buf ends capacity offset (records @ [(strdata, [])]) } }
      else Some records)"
  by pat_completeness auto

termination
  by (relation "measure (\<lambda>(buf, ends, capacity, offset, records). ends - offset)") auto

declare txt_loop.simps [simp del]

definition mdns_record_parse_txt ::
    "string \<Rightarrow> nat \<Rightarrow> nat \<Rightarrow> nat \<Rightarrow> nat \<Rightarrow> (string \<times> string) list option" where
  "mdns_record_parse_txt buf sz offset len capacity =
     (let ends = offset + len; ends = (if sz < ends then sz else ends)
      in txt_loop buf ends capacity offset [])"

section \<open>Sockets\<close>

text \<open>
  Opening: the descriptor of \<open>socket\<close>, and whether joining the group and \<open>bind\<close> succeed. The result
  is the descriptor, -1 on failure, and the descriptors closed again.
\<close>

record mdns_open_env =
  oe_socket :: int
  oe_membership_ok :: bool
  oe_bind_ok :: bool

definition mdns_socket_setup_ipv4 :: "mdns_open_env \<Rightarrow> bool" where
  "mdns_socket_setup_ipv4 e = (if \<not> oe_membership_ok e then False else if \<not> oe_bind_ok e then False else True)"

definition mdns_socket_open_ipv4 :: "mdns_open_env \<Rightarrow> int \<times> int list" where
  "mdns_socket_open_ipv4 e =
     (let sock = oe_socket e
      in if sock < 0 then (-1, [])
         else if \<not> mdns_socket_setup_ipv4 e then (-1, [sock])
         else (sock, []))"

text \<open>
  An open socket as the senders see it: the port \<open>getsockname\<close> reports, if it succeeds, and whether
  \<open>sendto\<close> does. What is sent goes to the multicast group, port 5353, or to one address.
\<close>

record mdns_sock =
  sk_port :: "u16 option"
  sk_send_ok :: bool

datatype mdns_dest = ToGroup | ToAddress sockaddr_in

type_synonym mdns_send = "mdns_dest \<times> string"

definition mdns_unicast_send :: "mdns_sock \<Rightarrow> sockaddr_in \<Rightarrow> string \<Rightarrow> bool \<times> mdns_send list" where
  "mdns_unicast_send sk address bytes = (if sk_send_ok sk then (True, [(ToAddress address, bytes)]) else (False, []))"

definition mdns_multicast_send :: "mdns_sock \<Rightarrow> string \<Rightarrow> bool \<times> mdns_send list" where
  "mdns_multicast_send sk bytes =
     (case sk_port sk of
        None \<Rightarrow> (False, [])
      | Some _ \<Rightarrow> if sk_send_ok sk then (True, [(ToGroup, bytes)]) else (False, []))"

section \<open>Queries\<close>

definition put_header ::
    "string \<Rightarrow> u16 \<Rightarrow> u16 \<Rightarrow> u16 \<Rightarrow> u16 \<Rightarrow> u16 \<Rightarrow> u16 \<Rightarrow> string option" where
  "put_header buf qid flags questions answers authorities additionals =
     wr_mem buf 0 (be16 qid @ be16 flags @ be16 questions @ be16 answers @ be16 authorities @ be16 additionals)"

fun query_loop ::
    "nat \<Rightarrow> u16 \<Rightarrow> (u16 \<times> string) list \<Rightarrow> string \<Rightarrow> nat \<Rightarrow> (string \<times> nat option) option" where
  "query_loop capacity rclass [] buf data = Some (buf, Some data)"
| "query_loop capacity rclass ((rtype, name) # qs) buf data =
     do { (buf, d, _) \<leftarrow> mdns_string_make buf capacity data name None;
          case d of
            None \<Rightarrow> Some (buf, None)
          | Some data \<Rightarrow>
              if capacity - data < 4 then Some (buf, None)
              else do { (buf, data) \<leftarrow> mdns_htons buf data rtype;
                        (buf, data) \<leftarrow> mdns_htons buf data rclass;
                        query_loop capacity rclass qs buf data } }"

text \<open>The senders return whether they succeeded, the buffer and what was sent.\<close>

definition mdns_multiquery_send ::
    "mdns_sock \<Rightarrow> (u16 \<times> string) list \<Rightarrow> string \<Rightarrow> u16 \<Rightarrow> (bool \<times> string \<times> mdns_send list) option" where
  "mdns_multiquery_send sk query buf query_id =
     (let capacity = length buf; n = length query
      in if n = 0 \<or> capacity < 12 + 6 * n then Some (False, buf, [])
         else
           do { let rclass = MDNS_CLASS_IN OR MDNS_UNICAST_RESPONSE;
                let rclass = (if sk_port sk = Some MDNS_PORT then rclass AND NOT MDNS_UNICAST_RESPONSE else rclass);
                buf \<leftarrow> put_header buf query_id 0 (of_nat n) 0 0 0;
                (buf, d) \<leftarrow> query_loop capacity rclass query buf 12;
                case d of
                  None \<Rightarrow> Some (False, buf, [])
                | Some data \<Rightarrow> (case mdns_multicast_send sk (take data buf) of (ok, out) \<Rightarrow> Some (ok, buf, out)) })"

definition mdns_query_send ::
    "mdns_sock \<Rightarrow> u16 \<Rightarrow> string \<Rightarrow> string \<Rightarrow> u16 \<Rightarrow> (bool \<times> string \<times> mdns_send list) option" where
  "mdns_query_send sk rtype name buf query_id = mdns_multiquery_send sk [(rtype, name)] buf query_id"

section \<open>Answers\<close>

text \<open>The builders thread the buffer, the write position (none after a failure) and the table of names.\<close>

type_synonym mdns_build = "string \<times> nat option \<times> mdns_string_table option"

definition mdns_answer_add_question_unicast ::
    "nat \<Rightarrow> u16 \<Rightarrow> string \<Rightarrow> string \<Rightarrow> nat \<Rightarrow> mdns_string_table option \<Rightarrow> mdns_build option" where
  "mdns_answer_add_question_unicast capacity rtype name buf data table =
     do { (buf, d, table) \<leftarrow> mdns_string_make buf capacity data name table;
          case d of
            None \<Rightarrow> Some (buf, None, table)
          | Some data \<Rightarrow>
              if capacity - data < 4 then Some (buf, None, table)
              else do { (buf, data) \<leftarrow> mdns_htons buf data rtype;
                        (buf, data) \<leftarrow> mdns_htons buf data (MDNS_UNICAST_RESPONSE OR MDNS_CLASS_IN);
                        Some (buf, Some data, table) } }"

definition mdns_answer_add_record_header ::
    "nat \<Rightarrow> mdns_record_t \<Rightarrow> string \<Rightarrow> nat \<Rightarrow> mdns_string_table option \<Rightarrow> mdns_build option" where
  "mdns_answer_add_record_header capacity record buf data table =
     do { (buf, d, table) \<leftarrow> mdns_string_make buf capacity data (mr_name record) table;
          case d of
            None \<Rightarrow> Some (buf, None, table)
          | Some data \<Rightarrow>
              if capacity - data < 10 then Some (buf, None, table)
              else do { (buf, data) \<leftarrow> mdns_htons buf data (mdns_type_of (mr_data record));
                        (buf, data) \<leftarrow> mdns_htons buf data (mr_rclass record);
                        (buf, data) \<leftarrow> mdns_htonl buf data (mr_ttl record);
                        (buf, data) \<leftarrow> mdns_htons buf data 0;
                        Some (buf, Some data, table) } }"

definition be128 :: "128 word \<Rightarrow> string" where
  "be128 w = map (\<lambda>i. char_of (unat w div 256 ^ (15 - i))) [0..<16]"

text \<open>The data of a record, without its length.\<close>

definition add_record_data ::
    "nat \<Rightarrow> mdns_data \<Rightarrow> string \<Rightarrow> nat \<Rightarrow> mdns_string_table option \<Rightarrow> mdns_build option" where
  "add_record_data capacity rdata buf data table =
     (let remain = capacity - data
      in case rdata of
           PtrData name \<Rightarrow> mdns_string_make buf capacity data name table
         | SrvData priority weight port name \<Rightarrow>
             if remain \<le> 6 then Some (buf, None, table)
             else do { (buf, data) \<leftarrow> mdns_htons buf data priority;
                       (buf, data) \<leftarrow> mdns_htons buf data weight;
                       (buf, data) \<leftarrow> mdns_htons buf data port;
                       mdns_string_make buf capacity data name table }
         | AData addr \<Rightarrow>
             if remain < 4 then Some (buf, None, table)
             else do { buf \<leftarrow> wr_mem buf data (be32 addr); Some (buf, Some (data + 4), table) }
         | AaaaData addr \<Rightarrow>
             if remain < 16 then Some (buf, None, table)
             else do { buf \<leftarrow> wr_mem buf data (be128 addr); Some (buf, Some (data + 16), table) }
         | TxtData _ _ \<Rightarrow> Some (buf, Some data, table))"

definition mdns_answer_add_record :: "nat \<Rightarrow> mdns_record_t \<Rightarrow> mdns_build \<Rightarrow> mdns_build option" where
  "mdns_answer_add_record capacity record st =
     (case st of
        (buf, None, table) \<Rightarrow> Some st
      | (buf, Some data, table) \<Rightarrow>
          if mdns_type_of (mr_data record) = MDNS_RECORDTYPE_TXT then Some st
          else
            do { (buf, d, table) \<leftarrow> mdns_answer_add_record_header capacity record buf data table;
                 case d of
                   None \<Rightarrow> Some (buf, None, table)
                 | Some record_data \<Rightarrow>
                     do { (buf, d, table) \<leftarrow> add_record_data capacity (mr_data record) buf record_data table;
                          case d of
                            None \<Rightarrow> Some (buf, None, table)
                          | Some data \<Rightarrow>
                              do { (buf, _) \<leftarrow> mdns_htons buf (record_data - 2) (of_nat (data - record_data));
                                   Some (buf, Some data, table) } } })"

definition mdns_record_update_rclass_ttl :: "u16 \<Rightarrow> u32 \<Rightarrow> mdns_record_t \<Rightarrow> mdns_record_t" where
  "mdns_record_update_rclass_ttl rclass ttl record =
     (let record = (if mr_rclass record = 0 then record\<lparr>mr_rclass := rclass\<rparr> else record);
          record = (if mr_ttl record = 0 \<or> ttl = 0 then record\<lparr>mr_ttl := ttl\<rparr> else record);
          record = record\<lparr>mr_rclass := mr_rclass record AND (MDNS_CLASS_IN OR MDNS_CACHE_FLUSH)\<rparr>
      in if mdns_type_of (mr_data record) = MDNS_RECORDTYPE_PTR
         then record\<lparr>mr_rclass := mr_rclass record AND NOT MDNS_CACHE_FLUSH\<rparr> else record)"

text \<open>
  The TXT records of a list become one record. \<open>rd\<close> is the position of its data once its header is
  written. A length above 255 is cut to its low byte.
\<close>

fun add_txt_loop ::
    "nat \<Rightarrow> u16 \<Rightarrow> u32 \<Rightarrow> mdns_record_t list \<Rightarrow> string \<Rightarrow> nat \<Rightarrow> mdns_string_table option \<Rightarrow> nat option \<Rightarrow>
     (mdns_build \<times> nat option) option" where
  "add_txt_loop capacity rclass ttl [] buf data table rd = Some ((buf, Some data, table), rd)"
| "add_txt_loop capacity rclass ttl (r # rs) buf data table rd =
     (case mr_data r of
        TxtData key val \<Rightarrow>
          do { let record = mdns_record_update_rclass_ttl rclass ttl r;
               ((buf, d, table), rd) \<leftarrow>
                  (case rd of
                     Some _ \<Rightarrow> Some ((buf, Some data, table), rd)
                   | None \<Rightarrow> do { (buf, d, table) \<leftarrow> mdns_answer_add_record_header capacity record buf data table;
                                 Some ((buf, d, table), d) });
               case d of
                 None \<Rightarrow> Some ((buf, None, table), None)
               | Some data \<Rightarrow>
                   (let string_length = length key + length val + 1;
                        remain = capacity - data
                    in if remain \<le> string_length \<or> 0x3FFF < string_length then Some ((buf, None, table), None)
                       else do { buf \<leftarrow> wr8 buf data string_length;
                                 buf \<leftarrow> wr_mem buf (data + 1) (key @ ''='' @ val);
                                 add_txt_loop capacity rclass ttl rs buf (data + 1 + string_length) table rd }) }
      | _ \<Rightarrow> add_txt_loop capacity rclass ttl rs buf data table rd)"

definition mdns_answer_add_txt_record ::
    "nat \<Rightarrow> mdns_record_t list \<Rightarrow> u16 \<Rightarrow> u32 \<Rightarrow> mdns_build \<Rightarrow> mdns_build option" where
  "mdns_answer_add_txt_record capacity records rclass ttl st =
     (case st of
        (buf, None, table) \<Rightarrow> Some st
      | (buf, Some data, table) \<Rightarrow>
          do { ((buf, d, table), rd) \<leftarrow> add_txt_loop capacity rclass ttl records buf data table None;
               case (d, rd) of
                 (Some data, Some record_data) \<Rightarrow>
                   do { (buf, _) \<leftarrow> mdns_htons buf (record_data - 2) (of_nat (data - record_data));
                        Some (buf, Some data, table) }
               | _ \<Rightarrow> Some (buf, d, table) })"

definition mdns_answer_get_record_count :: "mdns_record_t list \<Rightarrow> u16" where
  "mdns_answer_get_record_count records =
     of_nat (length (filter (\<lambda>r. mdns_type_of (mr_data r) \<noteq> MDNS_RECORDTYPE_TXT) records)) +
     (if list_ex (\<lambda>r. mdns_type_of (mr_data r) = MDNS_RECORDTYPE_TXT) records then 1 else 0)"

text \<open>A loop over records, each prepared by \<open>prep\<close>.\<close>

fun add_records ::
    "nat \<Rightarrow> (mdns_record_t \<Rightarrow> mdns_record_t) \<Rightarrow> mdns_record_t list \<Rightarrow> mdns_build \<Rightarrow> mdns_build option" where
  "add_records capacity prep [] st = Some st"
| "add_records capacity prep (r # rs) st =
     (if fst (snd st) = None then Some st
      else do { st \<leftarrow> mdns_answer_add_record capacity (prep r) st; add_records capacity prep rs st })"

definition unicast_prep :: "u16 \<Rightarrow> u32 \<Rightarrow> mdns_record_t \<Rightarrow> mdns_record_t" where
  "unicast_prep rclass ttl record =
     (let record = record\<lparr>mr_rclass := rclass\<rparr> in if mr_ttl record = 0 then record\<lparr>mr_ttl := ttl\<rparr> else record)"

definition mdns_query_answer_unicast ::
    "mdns_sock \<Rightarrow> sockaddr_in \<Rightarrow> string \<Rightarrow> u16 \<Rightarrow> u16 \<Rightarrow> string \<Rightarrow> mdns_record_t \<Rightarrow> mdns_record_t list \<Rightarrow>
     mdns_record_t list \<Rightarrow> (bool \<times> string \<times> mdns_send list) option" where
  "mdns_query_answer_unicast sk address buf query_id rtype name answer authority additional =
     (let capacity = length buf
      in if capacity < 12 + 32 + 4 then Some (False, buf, [])
         else
           do { let rclass = MDNS_CLASS_IN;
                let ttl = 10;
                buf \<leftarrow> put_header buf query_id 0x8400 1 1 (mdns_answer_get_record_count authority)
                         (mdns_answer_get_record_count additional);
                st \<leftarrow> mdns_answer_add_question_unicast capacity rtype name buf 12 (Some new_string_table);
                st \<leftarrow> mdns_answer_add_record capacity (answer\<lparr>mr_rclass := rclass, mr_ttl := ttl\<rparr>) st;
                st \<leftarrow> add_records capacity (unicast_prep rclass ttl) authority st;
                st \<leftarrow> mdns_answer_add_txt_record capacity authority rclass ttl st;
                st \<leftarrow> add_records capacity (unicast_prep rclass ttl) additional st;
                (buf, d, table) \<leftarrow> mdns_answer_add_txt_record capacity additional rclass ttl st;
                case d of
                  None \<Rightarrow> Some (False, buf, [])
                | Some data \<Rightarrow> (case mdns_unicast_send sk address (take data buf) of (ok, out) \<Rightarrow> Some (ok, buf, out)) })"

definition mdns_answer_multicast_rclass_ttl ::
    "u16 \<Rightarrow> u32 \<Rightarrow> mdns_sock \<Rightarrow> string \<Rightarrow> mdns_record_t \<Rightarrow> mdns_record_t list \<Rightarrow> mdns_record_t list \<Rightarrow>
     (bool \<times> string \<times> mdns_send list) option" where
  "mdns_answer_multicast_rclass_ttl rclass ttl sk buf answer authority additional =
     (let capacity = length buf
      in if capacity < 12 + 32 + 4 then Some (False, buf, [])
         else
           do { let prep = mdns_record_update_rclass_ttl rclass ttl;
                buf \<leftarrow> put_header buf 0 0x8400 0 1 (mdns_answer_get_record_count authority)
                         (mdns_answer_get_record_count additional);
                st \<leftarrow> mdns_answer_add_record capacity (prep answer) (buf, Some 12, Some new_string_table);
                st \<leftarrow> add_records capacity prep authority st;
                st \<leftarrow> mdns_answer_add_txt_record capacity authority rclass ttl st;
                st \<leftarrow> add_records capacity prep additional st;
                (buf, d, table) \<leftarrow> mdns_answer_add_txt_record capacity additional rclass ttl st;
                case d of
                  None \<Rightarrow> Some (False, buf, [])
                | Some data \<Rightarrow> (case mdns_multicast_send sk (take data buf) of (ok, out) \<Rightarrow> Some (ok, buf, out)) })"

definition mdns_query_answer_multicast ::
    "mdns_sock \<Rightarrow> string \<Rightarrow> mdns_record_t \<Rightarrow> mdns_record_t list \<Rightarrow> mdns_record_t list \<Rightarrow>
     (bool \<times> string \<times> mdns_send list) option" where
  "mdns_query_answer_multicast = mdns_answer_multicast_rclass_ttl MDNS_CLASS_IN 60"

definition mdns_announce_multicast ::
    "mdns_sock \<Rightarrow> string \<Rightarrow> mdns_record_t \<Rightarrow> mdns_record_t list \<Rightarrow> mdns_record_t list \<Rightarrow>
     (bool \<times> string \<times> mdns_send list) option" where
  "mdns_announce_multicast = mdns_answer_multicast_rclass_ttl (MDNS_CLASS_IN OR MDNS_CACHE_FLUSH) 60"

definition mdns_goodbye_multicast ::
    "mdns_sock \<Rightarrow> string \<Rightarrow> mdns_record_t \<Rightarrow> mdns_record_t list \<Rightarrow> mdns_record_t list \<Rightarrow>
     (bool \<times> string \<times> mdns_send list) option" where
  "mdns_goodbye_multicast = mdns_answer_multicast_rclass_ttl MDNS_CLASS_IN 0"

end
