(* ===== verification/Payload.thy ===== *)
theory Payload
  imports Connection
begin

text \<open>
  Payload transfers of \<open>sysmodule/src/net/kdeconnect_client.cpp\<close>: \<open>download_payload\<close> (the Switch
  build) and \<open>send_payload_reader\<close> / \<open>send_payload\<close>, with the part of them that runs in the payload
  thread.
\<close>

section \<open>Download\<close>

text \<open>
  Results of \<open>mbedtls_ssl_read\<close> into the chunk buffer. \<open>RdData d\<close> is decrypted data: a call takes
  what fits and leaves the rest for the next call. \<open>RdStop\<close> is the session becoming disconnected.
\<close>

datatype rd = RdData string | RdWant | RdFail | RdStop

definition kChunkSize :: nat where "kChunkSize = 16384 * 4"

record dl_env =
  dl_socket_ok :: bool
  dl_addr_ok :: bool
  dl_connect_ok :: bool
  dl_tls_ok :: bool
  dl_handshake :: "hs list"
  dl_create_ok :: bool
  dl_reads :: "rd list"

datatype dl_end = DlDone | DlBroken | DlStopped | DlWriteError | DlWaiting

text \<open>
  The loop: \<open>chunk\<close> holds the bytes read and not yet written, \<open>offset\<close> the bytes written. A full
  chunk or the last byte flushes it.
\<close>

definition flush_chunk :: "'fs nxfs \<Rightarrow> string \<Rightarrow> nat \<Rightarrow> string \<Rightarrow> 'fs \<Rightarrow> (nat \<times> 'fs) option" where
  "flush_chunk F path offset chunk fs =
     (if chunk = [] then Some (offset, fs)
      else case fs_write F path offset chunk fs of
             None \<Rightarrow> None
           | Some fs \<Rightarrow> Some (offset + length chunk, fs))"

function download_loop ::
    "'fs nxfs \<Rightarrow> string \<Rightarrow> nat \<Rightarrow> string \<Rightarrow> nat \<Rightarrow> rd list \<Rightarrow> 'fs \<Rightarrow>
     dl_end \<times> nat \<times> string \<times> nat \<times> 'fs" where
  "download_loop F path offset chunk remaining es fs =
     (if remaining = 0 then (DlDone, offset, chunk, remaining, fs)
      else case es of
        [] \<Rightarrow> (DlWaiting, offset, chunk, remaining, fs)
      | RdStop # es \<Rightarrow> (DlStopped, offset, chunk, remaining, fs)
      | RdWant # es \<Rightarrow> download_loop F path offset chunk remaining es fs
      | RdFail # es \<Rightarrow> (DlBroken, offset, chunk, remaining, fs)
      | RdData d # es \<Rightarrow>
          (let to_read = min remaining (kChunkSize - length chunk);
               got = take to_read d;
               rest = drop to_read d
           in if got = [] then (DlBroken, offset, chunk, remaining, fs)
              else
                (let chunk = chunk @ got; remaining = remaining - length got;
                     es = (if rest = [] then es else RdData rest # es)
                 in if length chunk = kChunkSize \<or> remaining = 0 then
                      (case flush_chunk F path offset chunk fs of
                         None \<Rightarrow> (DlWriteError, offset, chunk, remaining, fs)
                       | Some (offset, fs) \<Rightarrow> download_loop F path offset [] remaining es fs)
                    else download_loop F path offset chunk remaining es fs)))"
  by pat_completeness auto

termination
  by (relation "measures [\<lambda>(F, path, offset, chunk, remaining, es, fs). remaining,
                          \<lambda>(F, path, offset, chunk, remaining, es, fs). length es]")
    (auto simp: Let_def)

declare download_loop.simps [simp del]

definition download_payload ::
    "'fs nxfs \<Rightarrow> dl_env \<Rightarrow> network_packet \<Rightarrow> string \<Rightarrow> 'fs \<Rightarrow> bool call \<times> 'fs" where
  "download_payload F e packet file_path fs =
     (if \<not> dl_socket_ok e \<or> \<not> dl_addr_ok e \<or> \<not> dl_connect_ok e \<or> \<not> dl_tls_ok e then (Returned False, fs)
      else case fst (perform_tls_handshake (dl_handshake e)) of
        Waiting \<Rightarrow> (Waiting, fs)
      | Returned False \<Rightarrow> (Returned False, fs)
      | Returned True \<Rightarrow>
          if \<not> fs_device F then (Returned False, fs)
          else
            (let path_buf = take (fs_max_path F - 1) (c_str file_path);
                 fs = (case parent_dir file_path of Some d \<Rightarrow> make_directories F d fs | None \<Rightarrow> fs);
                 fs = (if fs_exists F path_buf fs then fs_remove F path_buf fs else fs)
             in if \<not> dl_create_ok e then (Returned False, fs)
                else
                  (let fs = fs_create F path_buf (nat (sint (payload_size packet))) fs
                   in if \<not> fs_open F path_buf fs then (Returned False, fs)
                      else
                        (let (r, offset, chunk, remaining, fs) =
                               download_loop F path_buf 0 [] (nat (sint (payload_size packet))) (dl_reads e) fs
                         in if r = DlWaiting then (Waiting, fs)
                            else
                              (let (write_error, fs) =
                                     (if r = DlWriteError then (True, fs)
                                      else case flush_chunk F path_buf offset chunk fs of
                                             None \<Rightarrow> (True, fs)
                                           | Some (_, fs) \<Rightarrow> (False, fs))
                               in if r = DlStopped \<or> 0 < remaining \<or> write_error
                                  then (Returned False, fs_remove F path_buf fs)
                                  else (Returned True, fs))))))"

section \<open>Upload\<close>

definition stream_step :: "nat \<Rightarrow> nat" where
  "stream_step remaining = (if remaining < 4096 then remaining else 4096)"

interpretation st: chunked stream_step
  by unfold_locales (auto simp: stream_step_def)

text \<open>
  The loop of the payload thread. \<open>reader\<close> returns at most the bytes asked for, none at the end or
  on an error. The result says what is left and what mbedtls took.
\<close>

function stream_loop ::
    "(nat \<Rightarrow> 'r \<Rightarrow> 'b list \<times> 'r) \<Rightarrow> nat \<Rightarrow> 'r \<Rightarrow> tx list \<Rightarrow> nat call \<times> 'b list" where
  "stream_loop reader remaining rs es =
     (if remaining = 0 then (Returned 0, [])
      else
        (let (buf, rs) = reader (stream_step remaining) rs
         in if buf = [] then (Returned remaining, [])
            else case send_all_tls buf es of
              (Waiting, sent, es) \<Rightarrow> (Waiting, sent)
            | (Returned False, sent, es) \<Rightarrow> (Returned remaining, sent)
            | (Returned True, sent, es) \<Rightarrow>
                (let (r, out) = stream_loop reader (remaining - length buf) rs es in (r, sent @ out))))"
  by pat_completeness auto

termination
  by (relation "measure (\<lambda>(reader, remaining, rs, es). remaining)") auto

declare stream_loop.simps [simp del]

record ul_env =
  ul_socket_ok :: bool
  ul_bind_ok :: "nat \<Rightarrow> bool"
  ul_listen_ok :: bool

definition payload_port_for :: "ul_env \<Rightarrow> nat option" where
  "payload_port_for e =
     (case bind_first (ul_bind_ok e) (\<lambda>_. True) 1739 (Suc 1764 - 1739) of
        None \<Rightarrow> None
      | Some p \<Rightarrow> if ul_listen_ok e then Some p else None)"

text \<open>
  The part before the thread starts: the packet with size and port is queued. The uploads the
  client holds are the payload threads it has started.
\<close>

definition send_payload_reader ::
    "yyjson \<Rightarrow> i64 \<Rightarrow> ul_env \<Rightarrow> string \<Rightarrow> network_packet \<Rightarrow> i64 \<Rightarrow> ('p, 'fs) client \<Rightarrow>
     bool \<times> ('p, 'fs) client" where
  "send_payload_reader Y clock e device_id pkt sz c =
     (if \<not> ul_socket_ok e then (False, c)
      else case payload_port_for e of
        None \<Rightarrow> (False, c)
      | Some port \<Rightarrow>
          (let pkt = pkt\<lparr>payload_size := sz, payload_port := of_nat port\<rparr>
           in case send_packet Y clock device_id pkt c of
                (False, c) \<Rightarrow> (False, c)
              | (True, c) \<Rightarrow> (True, c\<lparr>cl_uploads := cl_uploads c @ [(device_id, pkt, sz)]\<rparr>)))"

definition send_payload_bytes ::
    "yyjson \<Rightarrow> i64 \<Rightarrow> ul_env \<Rightarrow> string \<Rightarrow> network_packet \<Rightarrow> ('p, 'fs) client \<Rightarrow> bool \<times> ('p, 'fs) client" where
  "send_payload_bytes Y clock e device_id pkt c =
     (if send_payload pkt = [] then (False, c)
      else send_payload_reader Y clock e device_id pkt (of_nat (length (send_payload pkt))) c)"

text \<open>What the thread does with a connection: it is given 15 seconds, then the TLS server handshake.\<close>

definition serve_payload ::
    "bool \<Rightarrow> bool \<Rightarrow> bool \<Rightarrow> hs list \<Rightarrow> (nat \<Rightarrow> 'r \<Rightarrow> 'b list \<times> 'r) \<Rightarrow> nat \<Rightarrow> 'r \<Rightarrow> tx list \<Rightarrow>
     nat call \<times> 'b list" where
  "serve_payload select_ok accept_ok tls_ok hss reader sz rs es =
     (if \<not> select_ok then (Returned sz, [])
      else if \<not> accept_ok then (Returned sz, [])
      else if \<not> tls_ok then (Returned sz, [])
      else case fst (perform_tls_handshake hss) of
             Waiting \<Rightarrow> (Waiting, [])
           | Returned False \<Rightarrow> (Returned sz, [])
           | Returned True \<Rightarrow> stream_loop reader sz rs es)"

section \<open>Download: lemmas\<close>

text \<open>The bytes the peer sent before an error or the end of the session.\<close>

fun rd_bytes :: "rd list \<Rightarrow> string" where
  "rd_bytes [] = []"
| "rd_bytes (RdData d # es) = d @ rd_bytes es"
| "rd_bytes (RdWant # es) = rd_bytes es"
| "rd_bytes (_ # es) = []"

lemma flush_chunk_spec:
  assumes "nxfs_ok F C" "C fs p = Some s" "off + length chunk \<le> length s"
    and "flush_chunk F p off chunk fs = Some (off', fs')"
  shows "off' = off + length chunk \<and> C fs' p = Some (overwrite s off chunk) \<and> (\<forall>q. q \<noteq> p \<longrightarrow> C fs' q = C fs q)"
  using assms nxfs_okD(7) [OF assms(1) _ assms(2,3)]
  by (auto simp: flush_chunk_def overwrite_def split: if_splits option.splits)

lemma kChunkSize_pos: "0 < kChunkSize"
  by (simp add: kChunkSize_def)

text \<open>
  The state of the loop: the file has its final size, and what is written plus what is in the
  buffer is what was received.
\<close>

definition dl_state ::
    "('fs \<Rightarrow> string \<Rightarrow> string option) \<Rightarrow> string \<Rightarrow> nat \<Rightarrow> string \<Rightarrow> nat \<Rightarrow> 'fs \<Rightarrow> nat \<Rightarrow> string \<Rightarrow> bool" where
  "dl_state C p off chunk rem fs n got \<longleftrightarrow>
     (\<exists>s. C fs p = Some s \<and> length s = n \<and> off + length chunk + rem = n \<and> take off s @ chunk = got)"

lemma dl_state_flush:
  assumes "nxfs_ok F C" "dl_state C p off chunk rem fs n got" "flush_chunk F p off chunk fs = Some (off', fs')"
  shows "dl_state C p off' [] rem fs' n got \<and> (\<forall>q. q \<noteq> p \<longrightarrow> C fs' q = C fs q)"
proof -
  obtain s where s: "C fs p = Some s" "length s = n" "off + length chunk + rem = n" "take off s @ chunk = got"
    using assms(2) by (auto simp: dl_state_def)
  then have "off + length chunk \<le> length s" by simp
  note f = flush_chunk_spec [OF assms(1) s(1) this assms(3)]
  have "take (off + length chunk) (overwrite s off chunk) = got" "length (overwrite s off chunk) = n"
    using s by (simp_all add: overwrite_def)
  then show ?thesis using f s by (auto simp: dl_state_def)
qed

lemma download_loop_spec:
  assumes F: "nxfs_ok F C"
  shows "dl_state C p off chunk rem fs n got \<Longrightarrow> length chunk < kChunkSize \<Longrightarrow>
     download_loop F p off chunk rem es fs = (r, off', chunk', rem', fs') \<Longrightarrow>
     (\<exists>k. dl_state C p off' chunk' rem' fs' n (got @ take k (rd_bytes es))) \<and>
     (\<forall>q. q \<noteq> p \<longrightarrow> C fs' q = C fs q) \<and> (r = DlDone \<longrightarrow> rem' = 0)"
proof (induction "rem + length es" arbitrary: off chunk rem es fs got rule: less_induct)
  case less
  note l = less.prems(3) [unfolded download_loop.simps [of F p off chunk rem es fs]]
  have stay: ?case if "fs' = fs" "off' = off" "chunk' = chunk" "rem' = rem" "r = DlDone \<longrightarrow> rem = 0"
    using that less.prems(1) by (auto intro: exI [of _ 0])
  show ?case
  proof (cases "rem = 0")
    case True
    then show ?thesis using l stay by auto
  next
    case False
    show ?thesis
    proof (cases es)
      case Nil
      then show ?thesis using l stay False by auto
    next
      case (Cons e es1)
      show ?thesis
      proof (cases e)
        case RdWant
        then have "download_loop F p off chunk rem es1 fs = (r, off', chunk', rem', fs')"
          using l False Cons by simp
        from less.hyps [OF _ less.prems(1,2) this] show ?thesis using RdWant Cons by simp
      next
        case (RdData d)
        define t where "t = min rem (kChunkSize - length chunk)"
        have t: "0 < t" "t \<le> rem" "length chunk + t \<le> kChunkSize"
          using False less.prems(2) by (auto simp: t_def)
        define g where "g = take t d"
        define es2 where "es2 = (if drop t d = [] then es1 else RdData (drop t d) # es1)"
        have bytes: "rd_bytes es = g @ rd_bytes es2"
          using append_take_drop_id [of t d] Cons RdData by (auto simp: es2_def g_def)
        have l2: "(if g = [] then (DlBroken, off, chunk, rem, fs)
            else if length (chunk @ g) = kChunkSize \<or> rem - length g = 0 then
              (case flush_chunk F p off (chunk @ g) fs of
                 None \<Rightarrow> (DlWriteError, off, chunk @ g, rem - length g, fs)
               | Some (off1, fs1) \<Rightarrow> download_loop F p off1 [] (rem - length g) es2 fs1)
            else download_loop F p off (chunk @ g) (rem - length g) es2 fs) = (r, off', chunk', rem', fs')"
          using l False Cons RdData
          by (simp only: if_False rd.case list.case Let_def t_def [symmetric] g_def [symmetric] es2_def [symmetric])
        have glen: "length g \<le> t" by (simp add: g_def)
        show ?thesis
        proof (cases "g = []")
          case True
          then show ?thesis using l2 stay False by simp
        next
          case gne: False
          have st: "dl_state C p off (chunk @ g) (rem - length g) fs n (got @ g)"
            using less.prems(1) glen t by (auto simp: dl_state_def)
          have dec: "rem - length g + length es2 < rem + length es"
            using gne glen t Cons by (auto simp: es2_def less_diff_conv neq_Nil_conv)
          show ?thesis
          proof (cases "length (chunk @ g) = kChunkSize \<or> rem - length g = 0")
            case full: True
            show ?thesis
            proof (cases "flush_chunk F p off (chunk @ g) fs")
              case None
              then have "r = DlWriteError" "off' = off" "chunk' = chunk @ g" "rem' = rem - length g" "fs' = fs"
                using l2 gne full by simp_all
              then show ?thesis using st bytes by (auto intro: exI [of _ "length g"])
            next
              case (Some of1)
              obtain off1 fs1 where of1: "of1 = (off1, fs1)" by fastforce
              note fl = dl_state_flush [OF F st Some [unfolded of1]]
              have "download_loop F p off1 [] (rem - length g) es2 fs1 = (r, off', chunk', rem', fs')"
                using l2 gne full Some of1 by simp
              from less.hyps [OF dec conjunct1 [OF fl] _ this]
              obtain k where "dl_state C p off' chunk' rem' fs' n ((got @ g) @ take k (rd_bytes es2))"
                "\<forall>q. q \<noteq> p \<longrightarrow> C fs' q = C fs1 q" "r = DlDone \<longrightarrow> rem' = 0"
                using kChunkSize_pos by auto
              then show ?thesis using fl bytes by (auto intro: exI [of _ "length g + k"])
            qed
          next
            case notfull: False
            then have "download_loop F p off (chunk @ g) (rem - length g) es2 fs = (r, off', chunk', rem', fs')"
              using l2 gne by simp
            moreover have "length (chunk @ g) < kChunkSize" using notfull glen t by auto
            ultimately obtain k where "dl_state C p off' chunk' rem' fs' n ((got @ g) @ take k (rd_bytes es2))"
                "\<forall>q. q \<noteq> p \<longrightarrow> C fs' q = C fs q" "r = DlDone \<longrightarrow> rem' = 0"
              using less.hyps [OF dec st] by auto
            then show ?thesis using bytes by (auto intro: exI [of _ "length g + k"])
          qed
        qed
      qed (use l stay False Cons in auto)
    qed
  qed
qed


lemma rd_bytes_Data: "rd_bytes (RdData (take t d) # RdData (drop t d) # es) = rd_bytes (RdData d # es)"
  by simp

text \<open>With working services and enough data the loop ends with everything written.\<close>

lemma download_loop_completes:
  assumes F: "nxfs_ok F C" and up: "nxfs_up F C"
  shows "dl_state C p off chunk rem fs n got \<Longrightarrow> length chunk < kChunkSize \<Longrightarrow>
     rem \<le> length (rd_bytes es) \<Longrightarrow> RdData [] \<notin> set es \<Longrightarrow> rem \<noteq> 0 \<or> chunk = [] \<Longrightarrow>
     \<exists>off' fs'. download_loop F p off chunk rem es fs = (DlDone, off', [], 0, fs')"
proof (induction "rem + length es" arbitrary: off chunk rem es fs got rule: less_induct)
  case less
  note u = download_loop.simps [of F p off chunk rem es fs]
  show ?case
  proof (cases "rem = 0")
    case True
    then show ?thesis using less.prems(5) by (simp add: download_loop.simps)
  next
    case False
    then obtain e es1 where Cons: "es = e # es1" using less.prems(3) by (cases es) auto
    show ?thesis
    proof (cases e)
      case RdWant
      then have "\<exists>off' fs'. download_loop F p off chunk rem es1 fs = (DlDone, off', [], 0, fs')"
        using less.hyps [OF _ less.prems(1,2)] less.prems(3-5) Cons by simp
      then show ?thesis
        using RdWant Cons False by (simp add: download_loop.simps [of F p off chunk rem "RdWant # es1"])
    next
      case (RdData d)
      define t where "t = min rem (kChunkSize - length chunk)"
      have t: "0 < t" "t \<le> rem" "length chunk + t \<le> kChunkSize"
        using False less.prems(2) by (auto simp: t_def)
      define g where "g = take t d"
      define es2 where "es2 = (if drop t d = [] then es1 else RdData (drop t d) # es1)"
      have bytes: "rd_bytes es = g @ rd_bytes es2"
        using append_take_drop_id [of t d] Cons RdData by (auto simp: es2_def g_def)
      have gne: "g \<noteq> []" using less.prems(4) Cons RdData t(1) by (auto simp: g_def)
      have no_empty: "RdData [] \<notin> set es2" using less.prems(4) Cons by (auto simp: es2_def)
      have glen: "length g \<le> t" by (simp add: g_def)
      have st: "dl_state C p off (chunk @ g) (rem - length g) fs n (got @ g)"
        using less.prems(1) glen t by (auto simp: dl_state_def)
      have dec: "rem - length g + length es2 < rem + length es"
        using gne glen t Cons by (auto simp: es2_def less_diff_conv neq_Nil_conv)
      have enough: "rem - length g \<le> length (rd_bytes es2)"
        using less.prems(3) bytes by simp
      have step: "download_loop F p off chunk rem es fs =
          (if length (chunk @ g) = kChunkSize \<or> rem - length g = 0 then
              (case flush_chunk F p off (chunk @ g) fs of
                 None \<Rightarrow> (DlWriteError, off, chunk @ g, rem - length g, fs)
               | Some (off1, fs1) \<Rightarrow> download_loop F p off1 [] (rem - length g) es2 fs1)
            else download_loop F p off (chunk @ g) (rem - length g) es2 fs)"
        using False gne
        by (subst u, simp only: Cons RdData if_False rd.case list.case Let_def t_def [symmetric] g_def [symmetric] es2_def [symmetric])
      show ?thesis
      proof (cases "length (chunk @ g) = kChunkSize \<or> rem - length g = 0")
        case full: True
        obtain s where s: "C fs p = Some s" "off + length (chunk @ g) \<le> length s"
          using st by (auto simp: dl_state_def)
        obtain off1 fs1 where fl: "flush_chunk F p off (chunk @ g) fs = Some (off1, fs1)"
          using nxfs_upD(6) [OF up s] gne by (fastforce simp: flush_chunk_def)
        note st1 = dl_state_flush [OF F st fl, THEN conjunct1]
        show ?thesis
          using less.hyps [OF dec st1 _ enough no_empty] full fl kChunkSize_pos by (simp add: step)
      next
        case notfull: False
        then have "length (chunk @ g) < kChunkSize" using glen t by auto
        then show ?thesis
          using less.hyps [OF dec st _ enough no_empty] notfull by (simp add: step)
      qed
    qed (use less.prems(3) Cons False in auto)
  qed
qed

section \<open>A whole download\<close>

definition dl_path :: "'fs nxfs \<Rightarrow> string \<Rightarrow> string" where
  "dl_path F file_path = take (fs_max_path F - 1) (c_str file_path)"

text \<open>The file system before the loop: directories made, an old file gone, the new one created.\<close>

definition dl_fresh :: "'fs nxfs \<Rightarrow> string \<Rightarrow> nat \<Rightarrow> 'fs \<Rightarrow> 'fs" where
  "dl_fresh F file_path n fs =
     (let path_buf = dl_path F file_path;
          fs = (case parent_dir file_path of Some d \<Rightarrow> make_directories F d fs | None \<Rightarrow> fs);
          fs = (if fs_exists F path_buf fs then fs_remove F path_buf fs else fs)
      in fs_create F path_buf n fs)"

lemma dl_fresh_spec:
  assumes F: "nxfs_ok F C"
  shows "C (dl_fresh F fp n fs) (dl_path F fp) = Some s \<Longrightarrow> length s = n"
    and "q \<noteq> dl_path F fp \<Longrightarrow> C (dl_fresh F fp n fs) q = C fs q"
proof -
  define fs1 where "fs1 = (case parent_dir fp of Some d \<Rightarrow> make_directories F d fs | None \<Rightarrow> fs)"
  define fs2 where "fs2 = (if fs_exists F (dl_path F fp) fs1 then fs_remove F (dl_path F fp) fs1 else fs1)"
  have e: "dl_fresh F fp n fs = fs_create F (dl_path F fp) n fs2"
    by (simp add: dl_fresh_def fs1_def fs2_def Let_def)
  have "C fs1 q = C fs q" for q
    by (simp add: fs1_def make_directories_same [OF F] split: option.split)
  then have 2: "C fs2 q = (if q = dl_path F fp then None else C fs q)" for q
    using nxfs_okD(1) [OF F, of "dl_path F fp" fs1] by (auto simp: fs2_def nxfs_okD(5) [OF F])
  show "C (dl_fresh F fp n fs) (dl_path F fp) = Some s \<Longrightarrow> length s = n"
    unfolding e using nxfs_okD(10) [OF F, of fs2 "dl_path F fp" n s] 2 by simp
  show "q \<noteq> dl_path F fp \<Longrightarrow> C (dl_fresh F fp n fs) q = C fs q"
    unfolding e using nxfs_okD(3) [OF F, of q "dl_path F fp" n fs2] 2 by simp
qed

text \<open>What \<open>download_payload\<close> returns, once the connection stands and the file is open.\<close>

definition dl_connected :: "dl_env \<Rightarrow> bool" where
  "dl_connected e \<longleftrightarrow>
     dl_socket_ok e \<and> dl_addr_ok e \<and> dl_connect_ok e \<and> dl_tls_ok e \<and>
     fst (perform_tls_handshake (dl_handshake e)) = Returned True"

abbreviation dl_size :: "network_packet \<Rightarrow> nat" where
  "dl_size pkt \<equiv> nat (sint (payload_size pkt))"

abbreviation dl_run ::
    "'fs nxfs \<Rightarrow> dl_env \<Rightarrow> network_packet \<Rightarrow> string \<Rightarrow> 'fs \<Rightarrow> dl_end \<times> nat \<times> string \<times> nat \<times> 'fs" where
  "dl_run F e pkt fp fs \<equiv>
     download_loop F (dl_path F fp) 0 [] (dl_size pkt) (dl_reads e) (dl_fresh F fp (dl_size pkt) fs)"

definition dl_finish :: "'fs nxfs \<Rightarrow> string \<Rightarrow> dl_end \<times> nat \<times> string \<times> nat \<times> 'fs \<Rightarrow> bool call \<times> 'fs" where
  "dl_finish F p x =
     (let (r, offset, chunk, remaining, fs) = x
      in if r = DlWaiting then (Waiting, fs)
         else
           (let (write_error, fs) =
                  (if r = DlWriteError then (True, fs)
                   else case flush_chunk F p offset chunk fs of
                          None \<Rightarrow> (True, fs)
                        | Some (_, fs) \<Rightarrow> (False, fs))
            in if r = DlStopped \<or> 0 < remaining \<or> write_error
               then (Returned False, fs_remove F p fs)
               else (Returned True, fs)))"

lemma download_payload_eq:
  "download_payload F e pkt fp fs =
     (if \<not> dl_socket_ok e \<or> \<not> dl_addr_ok e \<or> \<not> dl_connect_ok e \<or> \<not> dl_tls_ok e then (Returned False, fs)
      else case fst (perform_tls_handshake (dl_handshake e)) of
        Waiting \<Rightarrow> (Waiting, fs)
      | Returned False \<Rightarrow> (Returned False, fs)
      | Returned True \<Rightarrow>
          if \<not> fs_device F then (Returned False, fs)
          else if \<not> dl_create_ok e then
            (Returned False,
             (let fs = (case parent_dir fp of Some d \<Rightarrow> make_directories F d fs | None \<Rightarrow> fs)
              in if fs_exists F (dl_path F fp) fs then fs_remove F (dl_path F fp) fs else fs))
          else if \<not> fs_open F (dl_path F fp) (dl_fresh F fp (dl_size pkt) fs) then
            (Returned False, dl_fresh F fp (dl_size pkt) fs)
          else dl_finish F (dl_path F fp) (dl_run F e pkt fp fs))"
  by (simp only: download_payload_def dl_path_def [symmetric] dl_fresh_def Let_def dl_finish_def)

lemma dl_outcomes:
  "(if a then (Returned False, x1)
    else case h of
        Waiting \<Rightarrow> (Waiting, x1)
      | Returned False \<Rightarrow> (Returned False, x1)
      | Returned True \<Rightarrow>
          if b then (Returned False, x1) else if c then (Returned False, x2)
          else if \<not> d then (Returned False, x3) else y) = (Returned False, z) \<Longrightarrow>
    z = x1 \<or> z = x2 \<or> \<not> d \<and> z = x3 \<or> d \<and> y = (Returned False, z)"
  by (auto split: call.splits bool.splits if_splits)

lemma dl_finish_True:
  assumes "dl_finish F p (r, off, chunk, rem, fs) = (Returned True, fs')"
  shows "\<exists>off'. rem = 0 \<and> flush_chunk F p off chunk fs = Some (off', fs')"
  using assms by (auto simp: dl_finish_def Let_def split: if_splits option.splits prod.splits)

lemma dl_finish_False:
  assumes F: "nxfs_ok F C" and st: "dl_state C p off chunk rem fs n got"
    and e: "dl_finish F p (r, off, chunk, rem, fs) = (Returned False, fs')"
  shows "C fs' q = (if q = p then None else C fs q)"
proof -
  have "fs' = fs_remove F p fs \<or> (\<exists>o1 fs1. flush_chunk F p off chunk fs = Some (o1, fs1) \<and> fs' = fs_remove F p fs1)"
    using e by (auto simp: dl_finish_def Let_def split: if_splits option.splits)
  then show ?thesis
    using dl_state_flush [OF F st] by (auto simp: nxfs_okD(5) [OF F])
qed

lemma dl_fresh_state:
  assumes "nxfs_ok F C" "fs_open F (dl_path F fp) (dl_fresh F fp n fs)"
  shows "dl_state C (dl_path F fp) 0 [] n (dl_fresh F fp n fs) n []"
  using nxfs_okD(2) [OF assms] dl_fresh_spec(1) [OF assms(1)] by (auto simp: dl_state_def)

lemma dl_run_spec:
  assumes F: "nxfs_ok F C" and o: "fs_open F (dl_path F fp) (dl_fresh F fp (dl_size pkt) fs)"
    and l: "dl_run F e pkt fp fs = (r, off, chunk, rem, fs1)"
  shows "(\<exists>k. dl_state C (dl_path F fp) off chunk rem fs1 (dl_size pkt) (take k (rd_bytes (dl_reads e)))) \<and>
     (\<forall>q. q \<noteq> dl_path F fp \<longrightarrow> C fs1 q = C fs q)"
proof -
  note s = download_loop_spec [OF F dl_fresh_state [OF F o] _ l]
  show ?thesis using s kChunkSize_pos dl_fresh_spec(2) [OF F] by simp
qed

lemma download_stored:
  assumes F: "nxfs_ok F C" and d: "download_payload F e pkt fp fs = (Returned True, fs')"
  shows "C fs' (dl_path F fp) = Some (take (dl_size pkt) (rd_bytes (dl_reads e))) \<and>
     dl_size pkt \<le> length (rd_bytes (dl_reads e)) \<and>
     (\<forall>q. q \<noteq> dl_path F fp \<longrightarrow> C fs' q = C fs q)"
proof -
  let ?p = "dl_path F fp" and ?n = "dl_size pkt"
  have o: "fs_open F ?p (dl_fresh F fp ?n fs)"
    and fin: "dl_finish F ?p (dl_run F e pkt fp fs) = (Returned True, fs')"
    using d by (auto simp: download_payload_eq split: if_splits call.splits bool.splits)
  obtain r off chunk rem fs1 where l: "dl_run F e pkt fp fs = (r, off, chunk, rem, fs1)"
    by (cases "dl_run F e pkt fp fs") auto
  obtain off' where z: "rem = 0" "flush_chunk F ?p off chunk fs1 = Some (off', fs')"
    using dl_finish_True fin l by metis
  obtain k where k: "dl_state C ?p off chunk rem fs1 ?n (take k (rd_bytes (dl_reads e)))"
    and others: "\<forall>q. q \<noteq> ?p \<longrightarrow> C fs1 q = C fs q"
    using dl_run_spec [OF F o l] by auto
  note fl = dl_state_flush [OF F k z(2)]
  then obtain s where "C fs' ?p = Some s" "length s = ?n" "s = take k (rd_bytes (dl_reads e))"
    using z(1) by (auto simp: dl_state_def)
  then show ?thesis using fl others by (auto simp: min_def split: if_splits)
qed

lemma download_returns:
  assumes F: "nxfs_ok F C" and up: "nxfs_up F C" and c: "dl_connected e" "dl_create_ok e"
    and enough: "dl_size pkt \<le> length (rd_bytes (dl_reads e))" and ne: "RdData [] \<notin> set (dl_reads e)"
  shows "\<exists>fs'. download_payload F e pkt fp fs = (Returned True, fs')"
proof -
  let ?p = "dl_path F fp" and ?n = "dl_size pkt"
  have "\<exists>s. C (dl_fresh F fp ?n fs) ?p = Some s"
    using nxfs_upD(5) [OF up] by (simp add: dl_fresh_def Let_def)
  then have o: "fs_open F ?p (dl_fresh F fp ?n fs)" using nxfs_upD(2) [OF up] by blast
  obtain off fs1 where l: "dl_run F e pkt fp fs = (DlDone, off, [], 0, fs1)"
    using download_loop_completes [OF F up dl_fresh_state [OF F o] _ enough ne] kChunkSize_pos by auto
  show ?thesis
    using c o l nxfs_upD(1) [OF up]
    by (simp add: download_payload_eq dl_connected_def dl_finish_def flush_chunk_def)
qed

text \<open>A small download, for the witnesses.\<close>

definition demo_dl :: "rd list \<Rightarrow> dl_env" where
  "demo_dl reads = \<lparr>dl_socket_ok = True, dl_addr_ok = True, dl_connect_ok = True, dl_tls_ok = True,
     dl_handshake = [HsWant, HsOk], dl_create_ok = True, dl_reads = reads\<rparr>"

definition demo_file_packet :: network_packet where
  "demo_file_packet = (new_packet ShareRequest)\<lparr>payload_size := 5, payload_port := 1740\<rparr>"

lemma demo_dl_facts [simp]:
  "dl_connected (demo_dl reads)" "dl_create_ok (demo_dl reads)" "dl_reads (demo_dl reads) = reads"
  "dl_size demo_file_packet = 5" "dl_path nx_ref ''/d/f'' = ''/d/f''"
  by (simp_all add: demo_dl_def dl_connected_def demo_file_packet_def dl_path_def c_str_def)

lemma nx_ref_sel:
  "fs_device nx_ref" "fs_open nx_ref = (\<lambda>p fs. fs p \<noteq> None)" "fs_exists nx_ref = (\<lambda>p fs. fs p \<noteq> None)"
  "fs_create nx_ref = (\<lambda>p n fs. case fs p of None \<Rightarrow> fs(p \<mapsto> zero_bytes n) | Some _ \<Rightarrow> fs)"
  "fs_write nx_ref = (\<lambda>p off d fs. map_option (\<lambda>s. fs(p \<mapsto> overwrite s off d)) (fs p))"
  "fs_remove nx_ref = (\<lambda>p fs. fs(p := None))" "fs_mkdir nx_ref = (\<lambda>p fs. fs)"
  by (simp_all add: nx_ref_def)

section \<open>What a download promises\<close>

text \<open>
  C14: a download that succeeds leaves a file that holds the first \<open>payload_size\<close> bytes the peer
  sent, in order and nothing else, and every other file is as before.
\<close>

theorem download_stores_payload:
  assumes F: "nxfs_ok F C" and d: "download_payload F e pkt fp fs = (Returned True, fs')"
  shows "C fs' (dl_path F fp) = Some (take (dl_size pkt) (rd_bytes (dl_reads e))) \<and>
     dl_size pkt \<le> length (rd_bytes (dl_reads e)) \<and>
     (\<forall>q. q \<noteq> dl_path F fp \<longrightarrow> C fs' q = C fs q)"
  by (rule download_stored [OF F d])

theorem download_stores_payload_witness:
  "\<exists>fs'. download_payload nx_ref (demo_dl [RdData ''he'', RdWant, RdData ''llo'']) demo_file_packet ''/d/f''
           [''/d/f'' \<mapsto> ''old text''] = (Returned True, fs') \<and> fs' ''/d/f'' = Some ''hello''"
proof -
  let ?e = "demo_dl [RdData ''he'', RdWant, RdData ''llo'']" and ?fs = "[''/d/f'' \<mapsto> ''old text'']"
  have "\<exists>fs'. download_payload nx_ref ?e demo_file_packet ''/d/f'' ?fs = (Returned True, fs')"
    by (rule download_returns [OF nxfs_ok_ref nxfs_up_ref]) simp_all
  then obtain fs' where d: "download_payload nx_ref ?e demo_file_packet ''/d/f'' ?fs = (Returned True, fs')" ..
  then show ?thesis using download_stores_payload [OF nxfs_ok_ref d] by simp
qed

text \<open>
  C15: a download that fails leaves no partial file: at the path there is what was there before
  (nothing was touched yet), or nothing, except for a file that was created and could not be
  opened; every other file is as before.
\<close>

theorem failed_download_leaves_no_part:
  assumes F: "nxfs_ok F C" and d: "download_payload F e pkt fp fs = (Returned False, fs')"
  shows "(C fs' (dl_path F fp) = C fs (dl_path F fp) \<or> C fs' (dl_path F fp) = None \<or>
          \<not> fs_open F (dl_path F fp) fs') \<and>
     (\<forall>q. q \<noteq> dl_path F fp \<longrightarrow> C fs' q = C fs q)"
proof -
  let ?p = "dl_path F fp" and ?n = "dl_size pkt"
  define fs1 where "fs1 = (case parent_dir fp of Some d \<Rightarrow> make_directories F d fs | None \<Rightarrow> fs)"
  have 1: "C fs1 q = C fs q" for q
    by (simp add: fs1_def make_directories_same [OF F] split: option.split)
  have 2: "C (if fs_exists F ?p fs1 then fs_remove F ?p fs1 else fs1) q = (if q = ?p then None else C fs q)" for q
    using nxfs_okD(1) [OF F, of ?p fs1] 1 by (auto simp: nxfs_okD(5) [OF F])
  consider "fs' = fs" | "fs' = (if fs_exists F ?p fs1 then fs_remove F ?p fs1 else fs1)"
    | "\<not> fs_open F ?p (dl_fresh F fp ?n fs)" "fs' = dl_fresh F fp ?n fs"
    | "fs_open F ?p (dl_fresh F fp ?n fs)" "dl_finish F ?p (dl_run F e pkt fp fs) = (Returned False, fs')"
    using dl_outcomes [OF d [unfolded download_payload_eq fs1_def [symmetric] Let_def]] by blast
  then show ?thesis
  proof cases
    case 3
    then show ?thesis using dl_fresh_spec(2) [OF F] by simp
  next
    case 4
    obtain r off chunk rem fs2 where l: "dl_run F e pkt fp fs = (r, off, chunk, rem, fs2)"
      by (cases "dl_run F e pkt fp fs") auto
    obtain k where k: "dl_state C ?p off chunk rem fs2 ?n (take k (rd_bytes (dl_reads e)))"
      and others: "\<forall>q. q \<noteq> ?p \<longrightarrow> C fs2 q = C fs q"
      using dl_run_spec [OF F 4(1) l] by auto
    show ?thesis using dl_finish_False [OF F k 4(2) [unfolded l]] others by simp
  qed (use 2 in simp_all)
qed

theorem failed_download_leaves_no_part_witness:
  "\<exists>fs'. download_payload nx_ref (demo_dl [RdData ''he'', RdFail]) demo_file_packet ''/d/f''
           [''/e'' \<mapsto> ''x''] = (Returned False, fs') \<and>
     fs' ''/d/f'' = None \<and> fs' ''/e'' = Some ''x''"
proof -
  let ?e = "demo_dl [RdData ''he'', RdFail]" and ?fs = "[''/e'' \<mapsto> ''x'']"
  have r: "dl_run nx_ref ?e demo_file_packet ''/d/f'' ?fs =
      (DlBroken, 0, ''he'', 3, dl_fresh nx_ref ''/d/f'' 5 ?fs)"
    by (simp add: download_loop.simps kChunkSize_def Let_def)
  have d: "download_payload nx_ref ?e demo_file_packet ''/d/f'' ?fs = (Returned False, [''/e'' \<mapsto> ''x''])"
    unfolding download_payload_eq r
    by (simp add: demo_dl_def dl_finish_def nx_ref_sel dl_fresh_def flush_chunk_def parent_dir_def
        make_directories_def zero_bytes_def overwrite_def fun_eq_iff Let_def split: option.split)
  show ?thesis using d failed_download_leaves_no_part [OF nxfs_ok_ref d] by simp
qed



section \<open>Uploads\<close>

text \<open>A reader over a file's content, as the callers of \<open>send_payload_reader\<close> pass it.\<close>

definition file_reader :: "nat \<Rightarrow> string \<Rightarrow> string \<times> string" where
  "file_reader n rest = (take n rest, drop n rest)"

lemma stream_loop_spec:
  "stream_loop file_reader sz data es = (r, out) \<Longrightarrow>
     (\<exists>k. out = take k data) \<and> (r = Returned 0 \<longrightarrow> out = take sz data \<and> sz \<le> length data)"
proof (induction sz arbitrary: data es r out rule: less_induct)
  case (less sz)
  note l = less.prems [unfolded stream_loop.simps [of file_reader sz data es]]
  define b where "b = take (stream_step sz) data"
  show ?case
  proof (cases "sz = 0 \<or> b = []")
    case True
    then have "out = []" "r = Returned 0 \<longrightarrow> sz = 0"
      using l by (auto simp: file_reader_def b_def [symmetric] split: if_splits)
    then show ?thesis by (auto intro: exI [of _ 0])
  next
    case False
    obtain sr sent es1 where s: "send_all_tls b es = (sr, sent, es1)" by (cases "send_all_tls b es") auto
    note sent = send_all_tls_sent [OF s]
    have l2: "(case (sr, sent, es1) of
              (Waiting, sent, es) \<Rightarrow> (Waiting, sent)
            | (Returned False, sent, es) \<Rightarrow> (Returned sz, sent)
            | (Returned True, sent, es) \<Rightarrow>
                (let (r, out) = stream_loop file_reader (sz - length b) (drop (stream_step sz) data) es in
                 (r, sent @ out))) = (r, out)"
      using l False by (simp add: file_reader_def b_def [symmetric] s)
    have data: "b @ drop (stream_step sz) data = data" by (simp add: b_def)
    show ?thesis
    proof (cases "sr = Returned True")
      case True
      obtain out1 where o: "stream_loop file_reader (sz - length b) (drop (stream_step sz) data) es1 = (r, out1)"
        "out = sent @ out1" using l2 True by (auto split: prod.splits)
      have lt: "sz - length b < sz" using False by auto
      from less.IH [OF lt o(1)] obtain k where k: "out1 = take k (drop (stream_step sz) data)"
        "r = Returned 0 \<longrightarrow> out1 = take (sz - length b) (drop (stream_step sz) data) \<and>
           sz - length b \<le> length (drop (stream_step sz) data)" by auto
      have sb: "sent = b" using sent True by simp
      have le: "length b \<le> sz" using st.step_le [of sz] False by (simp add: b_def)
      have "out = take (length b + k) data" using k(1) o(2) sb by (subst data [symmetric]) simp
      moreover have "out = take sz data \<and> sz \<le> length data" if "r = Returned 0"
      proof -
        have "take sz data = b @ take (sz - length b) (drop (stream_step sz) data)"
          using le by (subst data [symmetric]) simp
        moreover have "sz - length b \<le> length data - stream_step sz" using k(2) that by simp
        moreover have "length b = min (length data) (stream_step sz)" by (simp add: b_def)
        ultimately show ?thesis using k(2) that o(2) sb False by (auto simp: min_def split: if_splits)
      qed
      ultimately show ?thesis by blast
    next
      case no: False
      then have "out = sent" "r = Returned 0 \<longrightarrow> False"
        using l2 False by (auto split: call.splits bool.splits)
      moreover obtain m where "sent = take m b" using sent by auto
      then have "sent = take (min m (stream_step sz)) data" by (simp add: b_def)
      ultimately show ?thesis by blast
    qed
  qed
qed

text \<open>
  C17: what one device uploads the other one stores. When the payload thread streamed the whole
  announced size of a file and the receiver, whose reads cut the same bytes in any way, reports
  success, the receiver's file holds exactly the sender's data.
\<close>

theorem payload_arrives:
  assumes up: "serve_payload True True True hss file_reader (length data) data txs = (Returned 0, out)"
    and F: "nxfs_ok F C" and wire: "rd_bytes (dl_reads e) = out"
    and sz: "dl_size pkt = length data"
    and down: "download_payload F e pkt fp fs = (Returned True, fs')"
  shows "C fs' (dl_path F fp) = Some data"
proof -
  have "data = [] \<or> stream_loop file_reader (length data) data txs = (Returned 0, out)"
    using up by (auto simp: serve_payload_def split: call.splits bool.splits)
  then have "out = data \<or> data = []" using stream_loop_spec by fastforce
  then show ?thesis using download_stored [OF F down] wire sz by auto
qed

theorem payload_arrives_witness:
  "\<exists>out fs'. serve_payload True True True [HsWant, HsOk] file_reader (length ''hello'') ''hello'' [TxWrote 2, TxWant, TxWrote 3] = (Returned 0, out) \<and>
     download_payload nx_ref (demo_dl [RdData ''he'', RdData ''llo'']) demo_file_packet ''/d/f'' Map.empty = (Returned True, fs') \<and>
     fs' ''/d/f'' = Some ''hello''"
proof -
  have up: "serve_payload True True True [HsWant, HsOk] file_reader (length ''hello'') ''hello'' [TxWrote 2, TxWant, TxWrote 3] = (Returned 0, ''hello'')"
    by (simp add: serve_payload_def stream_loop.simps stream_step_def file_reader_def send_all_tls_def send_all_from.simps)
  have "\<exists>fs'. download_payload nx_ref (demo_dl [RdData ''he'', RdData ''llo'']) demo_file_packet ''/d/f'' Map.empty = (Returned True, fs')"
    by (rule download_returns [OF nxfs_ok_ref nxfs_up_ref]) simp_all
  then obtain fs' where d: "download_payload nx_ref (demo_dl [RdData ''he'', RdData ''llo'']) demo_file_packet ''/d/f'' Map.empty = (Returned True, fs')" ..
  show ?thesis using payload_arrives [OF up nxfs_ok_ref _ _ d] up d by simp
qed

text \<open>
  An upload is announced as it will be served: the packet queued for the device carries the
  size and the first port of 1739..1764 that could be bound, and one payload thread is started;
  without a port or a connected device nothing is queued and no thread is started.
\<close>

theorem upload_announced:
  assumes "send_payload_reader Y clock e did pkt sz c = (r, c')"
  shows "if r then
      (\<exists>s port. device c did = Some s \<and> \<not> disconnected (ses c s) \<and>
         port \<in> {1739..1764} \<and> ul_bind_ok e port \<and> filter (ul_bind_ok e) [1739..<port] = [] \<and>
         c' = (upd_ses s (\<lambda>x. x\<lparr>send_queue := send_queue x @
                  [serialize Y clock (pkt\<lparr>payload_size := sz, payload_port := of_nat port\<rparr>)]\<rparr>) c)
              \<lparr>cl_uploads := cl_uploads c @ [(did, pkt\<lparr>payload_size := sz, payload_port := of_nat port\<rparr>, sz)]\<rparr>)
    else c' = c"
proof (cases "ul_socket_ok e")
  case True
  show ?thesis
  proof (cases "payload_port_for e")
    case None
    then show ?thesis using assms True by (simp add: send_payload_reader_def)
  next
    case (Some p)
    then have "bind_first (ul_bind_ok e) (\<lambda>_. True) 1739 26 = Some p"
      by (auto simp: payload_port_for_def split: option.splits if_splits)
    note b = bind_first_Some [OF this]
    have f: "filter (ul_bind_ok e) [1739..<p] = []" using b by (auto simp: filter_empty_conv)
    show ?thesis
      using assms True Some b f
      by (auto simp: send_payload_reader_def send_packet_def Let_def upd_ses_def split: option.splits if_splits)
  qed
qed (use assms in \<open>simp add: send_payload_reader_def\<close>)

definition demo_uploader :: "(unit, unit) client" where
  "demo_uploader = \<lparr>local_device = sample_info, cl_base = [], cl_pubkey = [],
     cl_heap = [\<lparr>ses_info = sample_info, ses_pair_state = Paired, pairing_timestamp = 0, paired = True,
       ses_cert_pem = [], peer_pubkey = [], peer_host = [], has_tls = True, ses_fd = 3, send_queue = [],
       disconnected = False, plugins = []\<rparr>],
     cl_sessions = [(''a1'', 0)], cl_fs = (), cl_notes = [], cl_uploads = []\<rparr>"

definition demo_ul :: ul_env where
  "demo_ul = \<lparr>ul_socket_ok = True, ul_bind_ok = (\<lambda>p. 1740 \<le> p), ul_listen_ok = True\<rparr>"

theorem upload_announced_witness:
  "\<exists>c' s port. send_payload_reader yy_ref 0 demo_ul ''a1'' demo_file_packet 5 demo_uploader = (True, c') \<and>
     device demo_uploader ''a1'' = Some s \<and> ul_bind_ok demo_ul port \<and>
     cl_uploads c' = [(''a1'', demo_file_packet\<lparr>payload_size := 5, payload_port := of_nat port\<rparr>, 5)]"
proof -
  obtain c' where r: "send_payload_reader yy_ref 0 demo_ul ''a1'' demo_file_packet 5 demo_uploader = (True, c')"
    by (simp add: send_payload_reader_def payload_port_for_def demo_ul_def demo_uploader_def bind_first.simps
        numeral_nat send_packet_def device_def ses_def Let_def)
  show ?thesis using upload_announced [OF r] r by (fastforce simp: demo_uploader_def)
qed

end
