(* ===== verification/Discovery.thy ===== *)
theory Discovery
  imports Payload Pairing_Moves
begin

text \<open>
  The rest of \<open>sysmodule/src/net/kdeconnect_client.cpp\<close>: connecting with a timeout, start and stop
  of the client, the loop that accepts connections and identity datagrams, the broadcasts, and the
  throttle of the probes that mDNS triggers. \<open>node\<close> is a \<open>KdeConnectClient\<close> with its sockets and
  threads around the session table of \<^typ>\<open>('p, 'fs) client\<close>.
\<close>

section \<open>Connecting with a timeout\<close>

datatype connect_result = ConnectedNow | InProgress | ConnectError

record connect_env =
  ce_getfl_ok :: bool
  ce_setfl_ok :: bool
  ce_connect :: connect_result
  ce_select :: int
  ce_sockopt_ok :: bool
  ce_so_error :: int

text \<open>\<open>nonblock\<close> is the platform's flag, \<open>flags\<close> the socket's flags before and after.\<close>

definition connect_with_timeout :: "connect_env \<Rightarrow> i32 \<Rightarrow> i32 \<Rightarrow> bool \<times> i32" where
  "connect_with_timeout e nonblock flags =
     (if \<not> ce_getfl_ok e then (False, flags)
      else if \<not> ce_setfl_ok e then (False, flags)
      else
        (let saved = flags; flags = flags OR nonblock
         in case ce_connect e of
              ConnectedNow \<Rightarrow> (True, saved)
            | ConnectError \<Rightarrow> (False, saved)
            | InProgress \<Rightarrow>
                if ce_select e \<le> 0 then (False, saved)
                else if \<not> ce_sockopt_ok e \<or> ce_so_error e \<noteq> 0 then (False, saved)
                else (True, saved)))"

section \<open>The client with its sockets and threads\<close>

datatype task =
    Accept int
  | Connect device_info string i32

record ('p, 'fs, 'crt, 'key) node =
  nd_client :: "('p, 'fs) client"
  nd_tls :: "('crt, 'key) tls_context"
  running :: bool
  needs_restart :: bool
  tcp_fd :: int
  udp_fd :: int
  bound_port :: i32
  mdns_on :: bool
  loops_running :: bool
  pending_tasks :: "(task \<times> bool) list"
  probe_cooldown :: "(string, i64) umap"

definition new_node :: "string \<Rightarrow> string list \<Rightarrow> string list \<Rightarrow> string \<Rightarrow> 'fs \<Rightarrow> ('p, 'fs, 'crt, 'key) node" where
  "new_node hostname supported outgoing base fs =
     \<lparr>nd_client = \<lparr>local_device = load_or_create_local_device hostname supported outgoing, cl_base = base,
        cl_pubkey = [], cl_heap = [], cl_sessions = [], cl_fs = fs, cl_notes = [], cl_uploads = []\<rparr>,
      nd_tls = tls_context_init, running = False, needs_restart = False, tcp_fd = -1, udp_fd = -1,
      bound_port = 0, mdns_on = False, loops_running = False, pending_tasks = [], probe_cooldown = []\<rparr>"

record start_env =
  se_random :: "u8 list"
  se_tcp_socket :: int
  se_tcp_bind :: "nat \<Rightarrow> bool"
  se_tcp_listen :: "nat \<Rightarrow> bool"
  se_udp_socket :: int
  se_udp_bind :: "nat \<Rightarrow> bool"
  se_mdns_ok :: bool

definition client_start ::
    "('crt, 'key) mbedtls \<Rightarrow> 'fs nxfs \<Rightarrow> start_env \<Rightarrow> bool \<Rightarrow> ('p, 'fs, 'crt, 'key) node \<Rightarrow>
     bool \<times> ('p, 'fs, 'crt, 'key) node" where
  "client_start M F e enable_mdns nd =
     (let nd = nd\<lparr>needs_restart := False\<rparr>
      in if running nd then (True, nd)
         else
           (let c = nd_client nd;
                (r, tls, fs) = load_or_create M (se_random e) F (cert_path (cl_base c)) (key_path (cl_base c))
                                 (cl_fs c) (nd_tls nd);
                nd = nd\<lparr>nd_tls := tls, nd_client := c\<lparr>cl_fs := fs\<rparr>\<rparr>
            in if \<not> r then (False, nd\<lparr>needs_restart := True\<rparr>)
               else
                 (let c = nd_client nd;
                      nd = nd\<lparr>nd_client := c\<lparr>local_device := (local_device c)\<lparr>di_id := ctx_device_id tls\<rparr>,
                                            cl_pubkey := local_pubkey_bytes M tls\<rparr>\<rparr>;
                      (fd, port, closed) = create_tcp_server_socket (se_tcp_socket e) (se_tcp_bind e)
                                             (se_tcp_listen e) kMinTcpPort kMaxTcpPort;
                      nd = nd\<lparr>tcp_fd := fd,
                              bound_port := (case port of Some p \<Rightarrow> of_nat p | None \<Rightarrow> bound_port nd)\<rparr>
                  in if fd < 0 then (False, nd\<lparr>needs_restart := True\<rparr>)
                     else
                       (let nd = nd\<lparr>udp_fd := fst (create_udp_broadcast_socket (se_udp_socket e) (se_udp_bind e) kUdpPort)\<rparr>;
                            nd = (if enable_mdns then nd\<lparr>mdns_on := True\<rparr> else nd);
                            nd = nd\<lparr>needs_restart := False, running := True, loops_running := True\<rparr>
                        in (True, if \<not> mdns_on nd then nd
                                  else if \<not> se_mdns_ok e then nd\<lparr>mdns_on := False\<rparr>
                                  else nd)))))"

text \<open>\<open>KC_CLOSE_RAW\<close> leaves -1. The sessions are closed after the table has been emptied.\<close>

definition close_raw :: "int \<Rightarrow> int" where
  "close_raw fd = (if 0 \<le> fd then -1 else fd)"

definition client_stop :: "('p, 'fs, 'crt, 'key) node \<Rightarrow> ('p, 'fs, 'crt, 'key) node" where
  "client_stop nd =
     (if \<not> running nd then nd
      else
        (let nd = nd\<lparr>running := False\<rparr>;
             nd = (if mdns_on nd then nd\<lparr>mdns_on := False\<rparr> else nd);
             nd = nd\<lparr>loops_running := False\<rparr>;
             nd = nd\<lparr>tcp_fd := close_raw (tcp_fd nd), udp_fd := close_raw (udp_fd nd)\<rparr>;
             nd = nd\<lparr>pending_tasks := []\<rparr>;
             to_stop = map snd (cl_sessions (nd_client nd));
             c = (nd_client nd)\<lparr>cl_sessions := []\<rparr>
         in nd\<lparr>nd_client := fold close_session to_stop c\<rparr>))"

section \<open>Discovery\<close>

text \<open>
  The callback mDNS runs for a device it saw: not while connected, at most one probe per device and
  second (\<open>now\<close> counts nanoseconds of the steady clock, whose epoch is the value of a new entry),
  at most 32 devices remembered.
\<close>

definition kMdnsProbeCooldown :: i64 where "kMdnsProbeCooldown = 1000000000"
definition kProbeEntries :: nat where "kProbeEntries = 32"

definition probe_gate :: "i64 \<Rightarrow> string \<Rightarrow> (string, i64) umap \<Rightarrow> bool \<times> (string, i64) umap" where
  "probe_gate now device_id m =
     (let m = (if um_contains device_id m then m else AList.update device_id 0 m);
          last = (case map_of m device_id of Some t \<Rightarrow> t | None \<Rightarrow> 0)
      in if sint (now - last) < sint kMdnsProbeCooldown then (False, m)
         else
           (let m = AList.update device_id now m
            in if kProbeEntries < length m
               then (True, AList.delete (fst (oldest_from (hd m) sint (tl m))) m)
               else (True, m)))"

definition send_udp_identity_probe ::
    "yyjson \<Rightarrow> i64 \<Rightarrow> (string \<Rightarrow> bool) \<Rightarrow> string \<Rightarrow> string \<Rightarrow> ('p, 'fs, 'crt, 'key) node \<Rightarrow>
     (string \<times> nat \<times> string) option" where
  "send_udp_identity_probe Y clock addr_ok device_id host nd =
     (if udp_fd nd < 0 \<or> host = [] then None
      else
        (let identity = make_identity_packet Y (local_device (nd_client nd))
                          (if device_id = [] then None else Some device_id) None (Some (bound_port nd));
             payload = serialize Y clock identity
         in if \<not> addr_ok (c_str host) then None else Some (host, kUdpPort, payload)))"

definition mdns_seen ::
    "yyjson \<Rightarrow> i64 \<Rightarrow> i64 \<Rightarrow> (string \<Rightarrow> bool) \<Rightarrow> string \<Rightarrow> string \<Rightarrow> ('p, 'fs, 'crt, 'key) node \<Rightarrow>
     (string \<times> nat \<times> string) option \<times> ('p, 'fs, 'crt, 'key) node" where
  "mdns_seen Y clock steady addr_ok device_id host nd =
     (if connected_to (nd_client nd) device_id then (None, nd)
      else case probe_gate steady device_id (probe_cooldown nd) of
             (False, m) \<Rightarrow> (None, nd\<lparr>probe_cooldown := m\<rparr>)
           | (True, m) \<Rightarrow>
               (let nd = nd\<lparr>probe_cooldown := m\<rparr>
                in (send_udp_identity_probe Y clock addr_ok device_id host nd, nd)))"

definition broadcast_payload :: "yyjson \<Rightarrow> i64 \<Rightarrow> ('p, 'fs, 'crt, 'key) node \<Rightarrow> string" where
  "broadcast_payload Y clock nd =
     serialize Y clock (make_identity_packet Y (local_device (nd_client nd)) None None (Some (bound_port nd)))"

definition send_broadcast :: "yyjson \<Rightarrow> i64 \<Rightarrow> ('p, 'fs, 'crt, 'key) node \<Rightarrow> string option" where
  "send_broadcast Y clock nd = (if udp_fd nd < 0 then None else Some (broadcast_payload Y clock nd))"

text \<open>
  The broadcast thread, on a clock of 50 ms ticks. \<open>on t\<close> is \<open>running_\<close> at tick \<open>t\<close>; the result
  is the ticks at which it sends.
\<close>

fun nap :: "(nat \<Rightarrow> bool) \<Rightarrow> nat \<Rightarrow> nat \<Rightarrow> nat" where
  "nap on t 0 = t"
| "nap on t (Suc i) = (if on t then nap on (Suc t) i else t)"

function udp_broadcast_loop :: "(nat \<Rightarrow> bool) \<Rightarrow> bool \<Rightarrow> nat \<Rightarrow> nat \<Rightarrow> nat list" where
  "udp_broadcast_loop on udp_ok t broadcast_count =
     (if on t \<and> broadcast_count < 5
      then (if udp_ok then [t] else []) @ udp_broadcast_loop on udp_ok (nap on t 20) (broadcast_count + 1)
      else [])"
  by auto

termination
  by (relation "measure (\<lambda>(on, udp_ok, t, broadcast_count). 5 - broadcast_count)") auto

declare udp_broadcast_loop.simps [simp del]

section \<open>The network loop\<close>

datatype accept_result = Accepted int | AcceptRetry | AcceptFailed

datatype net_select = SelectError bool | Selected bool bool

record net_event =
  ev_select :: net_select
  ev_accept :: accept_result
  ev_datagram :: string
  ev_from :: string

datatype loop_status = LoopOn | LoopEnd

definition reap_pending_threads :: "('p, 'fs, 'crt, 'key) node \<Rightarrow> ('p, 'fs, 'crt, 'key) node" where
  "reap_pending_threads nd = nd\<lparr>pending_tasks := filter (\<lambda>(t, finished). \<not> finished) (pending_tasks nd)\<rparr>"

definition push_task :: "task \<Rightarrow> ('p, 'fs, 'crt, 'key) node \<Rightarrow> ('p, 'fs, 'crt, 'key) node" where
  "push_task t nd = nd\<lparr>pending_tasks := pending_tasks nd @ [(t, False)]\<rparr>"

definition handle_discovered_peer ::
    "device_info \<Rightarrow> string \<Rightarrow> i32 \<Rightarrow> ('p, 'fs, 'crt, 'key) node \<Rightarrow> ('p, 'fs, 'crt, 'key) node" where
  "handle_discovered_peer identity host port nd = push_task (Connect identity host port) nd"

definition handle_datagram ::
    "yyjson \<Rightarrow> string \<Rightarrow> string \<Rightarrow> ('p, 'fs, 'crt, 'key) node \<Rightarrow> ('p, 'fs, 'crt, 'key) node" where
  "handle_datagram Y data from_addr nd =
     (case udp_identity Y (di_id (local_device (nd_client nd))) (take kMaxUdpPacketSize data) of
        None \<Rightarrow> nd
      | Some (identity, port) \<Rightarrow> handle_discovered_peer identity from_addr port nd)"

definition network_iteration ::
    "yyjson \<Rightarrow> net_event \<Rightarrow> ('p, 'fs, 'crt, 'key) node \<Rightarrow> loop_status \<times> ('p, 'fs, 'crt, 'key) node" where
  "network_iteration Y ev nd =
     (if \<not> running nd then (LoopEnd, nd)
      else
        (let nd = reap_pending_threads nd
         in if tcp_fd nd < 0 \<and> udp_fd nd < 0 then (LoopEnd, nd)
            else case ev_select ev of
              SelectError eintr \<Rightarrow> (if eintr then LoopOn else LoopEnd, nd)
            | Selected tcp udp \<Rightarrow>
                (let datagram = (\<lambda>nd. (LoopOn, if 0 \<le> udp_fd nd \<and> udp
                                               then handle_datagram Y (ev_datagram ev) (ev_from ev) nd else nd))
                 in if 0 \<le> tcp_fd nd \<and> tcp then
                      (case ev_accept ev of
                         AcceptRetry \<Rightarrow> (LoopOn, nd)
                       | AcceptFailed \<Rightarrow> (LoopEnd, nd\<lparr>needs_restart := True\<rparr>)
                       | Accepted fd \<Rightarrow> datagram (push_task (Accept fd) nd))
                    else datagram nd)))"

section \<open>The tasks\<close>

text \<open>What the threads of the two kinds of tasks do with the client.\<close>

definition accept_task ::
    "yyjson \<Rightarrow> 'fs nxfs \<Rightarrow> ('crt, 'key) mbedtls \<Rightarrow> 'p plugin_class \<Rightarrow> i64 \<Rightarrow> rx list \<Rightarrow> ('crt, 'p) conn \<Rightarrow>
     ('p, 'fs) client \<Rightarrow> outcome \<times> ('p, 'fs) client" where
  "accept_task Y F M K clock es cn c =
     (case fst (read_line_fd kMaxPacketSize es) of
        Waiting \<Rightarrow> (Stuck, c)
      | Returned line \<Rightarrow>
          (case accept_identity Y (di_id (local_device c)) line of
             None \<Rightarrow> (BadPacket, c)
           | Some identity \<Rightarrow> handle_new_connection Y F M K clock identity (cn\<lparr>cn_server_side := True\<rparr>) c))"

text \<open>\<open>None\<close>: the thread ends without a connection. The plain \<open>send\<close> of the identity is not checked.\<close>

definition connect_task ::
    "yyjson \<Rightarrow> 'fs nxfs \<Rightarrow> ('crt, 'key) mbedtls \<Rightarrow> 'p plugin_class \<Rightarrow> i64 \<Rightarrow> bool \<Rightarrow> bool \<Rightarrow> bool \<Rightarrow>
     device_info \<Rightarrow> ('crt, 'p) conn \<Rightarrow> ('p, 'fs) client \<Rightarrow> (string \<times> outcome) option \<times> ('p, 'fs) client" where
  "connect_task Y F M K clock socket_ok addr_ok connect_ok identity cn c =
     (if \<not> socket_ok then (None, c)
      else if \<not> addr_ok then (None, c)
      else if \<not> connect_ok then (None, c)
      else
        (let payload = serialize Y clock (make_identity_packet Y (local_device c) (Some (di_id identity))
                          (Some (protocol_version identity)) None);
             (r, c) = handle_new_connection Y F M K clock identity (cn\<lparr>cn_server_side := False\<rparr>) c
         in (Some (payload, r), c)))"

section \<open>Lemmas\<close>

lemma connect_restores_flags: "snd (connect_with_timeout e nb flags) = flags"
  by (simp add: connect_with_timeout_def Let_def split: connect_result.split)

lemma nap_bound: "nap on t i \<le> t + i \<and> t \<le> nap on t i"
proof (induction on t i rule: nap.induct)
  case (2 on t i)
  then show ?case by (cases "on t") simp_all
qed simp

lemma nap_on: "(\<And>u. on u) \<Longrightarrow> nap on t i = t + i"
  by (induction i arbitrary: t) auto

lemma broadcasts_on: "(\<And>u. on u) \<Longrightarrow> udp_broadcast_loop on True 0 0 = [0, 20, 40, 60, 80]"
  by (simp add: udp_broadcast_loop.simps nap_on)

lemma broadcast_count: "length (udp_broadcast_loop on u t n) \<le> 5 - n"
proof (induction on u t n rule: udp_broadcast_loop.induct)
  case (1 on u t n)
  then show ?case by (subst udp_broadcast_loop.simps) auto
qed

section \<open>Stopping\<close>

lemma close_session_sel [simp]:
  "cl_sessions (close_session s c) = cl_sessions c" "length (cl_heap (close_session s c)) = length (cl_heap c)"
  by (simp_all add: close_session_def)

lemma ses_close:
  "s < length (cl_heap c) \<Longrightarrow> ses (close_session s c) t =
     (if t = s then (ses c s)\<lparr>disconnected := True, ses_fd := close_raw (ses_fd (ses c s)), has_tls := False\<rparr>
      else ses c t)"
  by (simp add: close_session_def ses_upd close_raw_def)

lemma close_raw_neg [simp]: "close_raw fd < 0"
  by (simp add: close_raw_def)

lemma ses_close_all:
  assumes "\<forall>s \<in> set ss. s < length (cl_heap c)"
  shows "cl_sessions (fold close_session ss c) = cl_sessions c \<and>
     length (cl_heap (fold close_session ss c)) = length (cl_heap c) \<and>
     (t \<in> set ss \<longrightarrow> disconnected (ses (fold close_session ss c) t) \<and> \<not> has_tls (ses (fold close_session ss c) t) \<and>
        ses_fd (ses (fold close_session ss c) t) < 0) \<and>
     (t \<notin> set ss \<longrightarrow> ses (fold close_session ss c) t = ses c t)"
  using assms
proof (induction ss arbitrary: c)
  case (Cons s ss)
  then have IH: "cl_sessions (fold close_session ss (close_session s c)) = cl_sessions c \<and>
     length (cl_heap (fold close_session ss (close_session s c))) = length (cl_heap c) \<and>
     (t \<in> set ss \<longrightarrow> disconnected (ses (fold close_session ss (close_session s c)) t) \<and>
        \<not> has_tls (ses (fold close_session ss (close_session s c)) t) \<and>
        ses_fd (ses (fold close_session ss (close_session s c)) t) < 0) \<and>
     (t \<notin> set ss \<longrightarrow> ses (fold close_session ss (close_session s c)) t = ses (close_session s c) t)"
    by simp
  then show ?case using Cons.prems by (cases "t \<in> set ss") (auto simp: ses_close)
qed simp

section \<open>Starting\<close>

lemma client_start_outcome:
  assumes "client_start M F e b nd = (r, nd')"
  shows "if r then running nd' \<and> \<not> needs_restart nd' \<and> (\<not> running nd \<longrightarrow> 0 \<le> tcp_fd nd')
     else running nd' = running nd \<and> needs_restart nd'"
  using assms
  by (auto simp: client_start_def Let_def split: if_splits prod.splits)

section \<open>The throttle of the probes\<close>

definition probe_cooled :: "i64 \<Rightarrow> string \<Rightarrow> (string, i64) umap \<Rightarrow> bool" where
  "probe_cooled now k m = (case map_of m k of
      None \<Rightarrow> sint kMdnsProbeCooldown \<le> sint now | Some t \<Rightarrow> sint kMdnsProbeCooldown \<le> sint (now - t))"

lemma probe_gate_pass: "fst (probe_gate now k m) = probe_cooled now k m"
  by (auto simp: probe_gate_def probe_cooled_def Let_def um_contains_def split: option.split)

lemma oldest_in: "m \<noteq> [] \<Longrightarrow> um_contains (fst (oldest_from (hd m) t (tl m))) m"
  using oldest_from_mem [of "hd m" t "tl m"] by (cases m) (auto simp: um_contains_iff)

lemma probe_gate_size:
  assumes "length m \<le> kProbeEntries" "um_contains k m \<or> fst (probe_gate now k m)"
  shows "length (snd (probe_gate now k m)) \<le> kProbeEntries"
proof -
  define m1 where "m1 = AList.update k now (if um_contains k m then m else AList.update k 0 m)"
  have m1: "m1 = (if um_contains k m then AList.update k now m else AList.update k now (AList.update k 0 m))"
    by (simp add: m1_def)
  have len: "length m1 \<le> Suc kProbeEntries"
    using assms(1) by (auto simp: m1 length_update um_contains_def)
  have ne: "m1 \<noteq> []" by (auto simp: m1_def dest: arg_cong [where f = "\<lambda>m. map_of m k"])
  have "length (AList.delete (fst (oldest_from (hd m1) sint (tl m1))) m1) < length m1"
    by (rule length_delete_less [OF oldest_in [OF ne]])
  then show ?thesis
    using assms len unfolding probe_gate_def Let_def m1_def [symmetric] by auto
qed

section \<open>Datagrams\<close>

lemma identity_datagram:
  assumes Y: "yyjson_ok Y" and i: "info_ascii i" "di_id i \<noteq> []" "di_id i \<noteq> own" and t: "\<And>x. t = Some x \<Longrightarrow> ascii x"
  shows "udp_identity Y own (serialize Y clock (make_identity_packet Y i t None (Some p))) = Some (i, p)"
proof -
  let ?q = "make_identity_packet Y i t None (Some p)"
  have plain: "packet_plain ?q" by (rule identity_plain [OF Y i(1) t])
  have ne: "serialize Y clock ?q \<noteq> []" by (simp add: serialize_def)
  have info: "info_from_identity Y (received ?q) = i"
    using info_from_identity_norm [OF Y] info_from_make_identity [OF Y i(1), of t None "Some p"]
    by (simp add: info_from_identity_def received_def Let_def jb_norm [OF Y])
  have b: "pkt_body (received ?q) = j_norm (pkt_body ?q)" "pkt_type (received ?q) = Identity"
    by (simp_all add: received_def Let_def)
  have f: "jb_value_int Y (j_norm (pkt_body ?q)) ''protocolVersion'' d = protocol_version i"
    "jb_value_int Y (j_norm (pkt_body ?q)) ''tcpPort'' d = p" for d
    by (simp_all only: jb_norm [OF Y]) (simp_all add: jb_defs field_identity [OF Y] json_simps Y)
  show ?thesis
    using i ne by (simp add: udp_identity_def parse_serialize_eq [OF Y plain] info b f Let_def)
qed

section \<open>Properties\<close>


definition demo_node :: "string \<Rightarrow> (unit, unit) client \<Rightarrow> (unit, unit, string, nat) node" where
  "demo_node own c = \<lparr>nd_client = c\<lparr>local_device := sample_info\<lparr>di_id := own\<rparr>\<rparr>, nd_tls = tls_context_init,
     running = True, needs_restart = False, tcp_fd = 4, udp_fd = 5, bound_port = 1717, mdns_on = True,
     loops_running = True, pending_tasks = [(Accept 9, True), (Accept 8, False)], probe_cooldown = []\<rparr>"

lemma demo_node_sel [simp]:
  "running (demo_node own c)" "nd_client (demo_node own c) = c\<lparr>local_device := sample_info\<lparr>di_id := own\<rparr>\<rparr>"
  "0 \<le> udp_fd (demo_node own c)" "bound_port (demo_node own c) = 1717"
  "pending_tasks (demo_node own c) = [(Accept 9, True), (Accept 8, False)]"
  by (simp_all add: demo_node_def)


text \<open>The probe sent for a device seen over mDNS.\<close>

lemma mdns_seen_sends:
  assumes "mdns_seen Y clock steady addr_ok did host nd = (Some (host', port, d), nd')"
  shows "host' = host \<and> port = kUdpPort \<and>
    d = serialize Y clock (make_identity_packet Y (local_device (nd_client nd)) (if did = [] then None else Some did) None (Some (bound_port nd)))"
  using assms by (auto simp: mdns_seen_def send_udp_identity_probe_def Let_def split: if_splits prod.splits bool.splits)

text \<open>
  C19: announcements are answered. When device \<open>i\<close> broadcasts its identity, or sends it to a host it
  saw over mDNS, and the datagram, which fits the receive buffer, reaches a running client with another
  id, one iteration of the network loop starts a thread that connects to the sender's address at the
  announced port, expecting exactly that device.
\<close>

theorem announcement_is_answered:
  assumes "yyjson_ok Y" and "info_ascii i" and "di_id i \<noteq> []" and "di_id i \<noteq> di_id (local_device (nd_client nd))"
    and "local_device (nd_client peer) = i" and "length d \<le> kMaxUdpPacketSize"
    and "running nd" and "0 \<le> udp_fd nd" and "ev_select ev = Selected False True" and "ev_datagram ev = d"
    and "send_broadcast Y clock peer = Some d \<or>
         (\<exists>steady addr_ok did host peer'. ascii did \<and> mdns_seen Y clock steady addr_ok did host peer = (Some (host, kUdpPort, d), peer'))"
  shows "network_iteration Y ev nd =
    (LoopOn, (reap_pending_threads nd)\<lparr>pending_tasks :=
       pending_tasks (reap_pending_threads nd) @ [(Connect i (ev_from ev) (bound_port peer), False)]\<rparr>)"
proof -
  obtain t where p: "d = serialize Y clock (make_identity_packet Y i t None (Some (bound_port peer)))" "\<And>x. t = Some x \<Longrightarrow> ascii x"
    using assms(11)
  proof
    assume "send_broadcast Y clock peer = Some d"
    then show ?thesis using assms(5) by (intro that [of None]) (auto simp: send_broadcast_def broadcast_payload_def split: if_splits)
  next
    assume "\<exists>steady addr_ok did host peer'. ascii did \<and> mdns_seen Y clock steady addr_ok did host peer = (Some (host, kUdpPort, d), peer')"
    then obtain did where "ascii did"
        "d = serialize Y clock (make_identity_packet Y i (if did = [] then None else Some did) None (Some (bound_port peer)))"
      using mdns_seen_sends assms(5) by blast
    then show ?thesis by (intro that [of "if did = [] then None else Some did"]) (auto split: if_splits)
  qed
  have "udp_identity Y (di_id (local_device (nd_client nd))) (take kMaxUdpPacketSize (ev_datagram ev)) =
      Some (i, bound_port peer)"
    using identity_datagram [OF assms(1-4) p(2)] assms(6,10) p(1) by simp
  then show ?thesis
    using assms(7-9)
    by (simp add: network_iteration_def Let_def reap_pending_threads_def handle_datagram_def
        handle_discovered_peer_def push_task_def)
qed

text \<open>A sighting of ''b2'' by ''a1'', and the datagram it sends.\<close>

definition demo_probe :: "(string \<times> nat \<times> string) option" where
  "demo_probe = fst (mdns_seen yy_ref 0 5000000000 (\<lambda>_. True) ''b2'' ''10.0.0.9'' (demo_node ''a1'' (demo_uploader\<lparr>cl_sessions := []\<rparr>)))"

lemma demo_probe_length:
  "\<exists>d. demo_probe = Some (''10.0.0.9'', kUdpPort, d) \<and> length d \<le> 1000"
proof -
  have b: "serialize_root yy_ref 0 (make_identity_packet yy_ref (sample_info\<lparr>di_id := ''a1''\<rparr>) (Some ''b2'') None (Some 1717)) =
     JObj [(''id'', JSint 0), (''type'', JStr Identity), (''body'', JObj
     [(''deviceId'', JStr ''a1''), (''deviceName'', JStr ''Switch''), (''deviceType'', JStr ''tablet''),
      (''protocolVersion'', JSint 8), (''incomingCapabilities'', JArr [JStr Ping]),
      (''outgoingCapabilities'', JArr [JStr Ping, JStr Battery]), (''targetDeviceId'', JStr ''b2''), (''tcpPort'', JSint 1717)])]"
    by (simp add: serialize_root_def make_identity_packet_def Let_def set_str_def set_int_def set_i64_def
      set_body_def set_str_array_def upsert_JObj jb_empty_def sample_info_def yy_copy_Some
      Identity_def Ping_def Battery_def)
  have "length (serialize yy_ref 0 (make_identity_packet yy_ref (sample_info\<lparr>di_id := ''a1''\<rparr>) (Some ''b2'') None (Some 1717))) \<le> 1000"
    by (simp add: serialize_def b jb_dump_def ref_write_def
      Identity_def Ping_def Battery_def ascii_char_def quoted_def esc_char_def member_text_def nat_str.simps int_str_def)
      (simp add: yy_ref_def ref_write_def
      Identity_def Ping_def Battery_def ascii_char_def quoted_def esc_char_def member_text_def nat_str.simps int_str_def)
  moreover have "probe_gate 5000000000 ''b2'' [] = (True, [(''b2'', 5000000000)])"
    by (simp add: probe_gate_def kMdnsProbeCooldown_def kProbeEntries_def um_contains_def)
  ultimately show ?thesis
    by (simp add: demo_probe_def mdns_seen_def connected_to_def device_def demo_node_def send_udp_identity_probe_def Let_def)
qed

theorem announcement_is_answered_witness:
  "\<exists>d. demo_probe = Some (''10.0.0.9'', kUdpPort, d) \<and>
     pending_tasks (snd (network_iteration yy_ref
      \<lparr>ev_select = Selected False True, ev_accept = AcceptRetry, ev_datagram = d, ev_from = ''10.0.0.7''\<rparr>
      (demo_node ''b2'' demo_uploader))) =
     [(Accept 8, False), (Connect (sample_info\<lparr>di_id := ''a1''\<rparr>) ''10.0.0.7'' 1717, False)]"
proof -
  obtain d where d: "demo_probe = Some (''10.0.0.9'', kUdpPort, d)" "length d \<le> 1000" using demo_probe_length by blast
  let ?peer = "demo_node ''a1'' (demo_uploader\<lparr>cl_sessions := []\<rparr>)"
  have i: "info_ascii (sample_info\<lparr>di_id := ''a1''\<rparr>)"
    using sample_info_ascii by (simp add: info_ascii_def ascii_char_def)
  have seen: "mdns_seen yy_ref 0 5000000000 (\<lambda>_. True) ''b2'' ''10.0.0.9'' ?peer =
      (Some (''10.0.0.9'', kUdpPort, d), snd (mdns_seen yy_ref 0 5000000000 (\<lambda>_. True) ''b2'' ''10.0.0.9'' ?peer))"
    using d(1) unfolding demo_probe_def by (metis prod.collapse)
  have sent: "send_broadcast yy_ref 0 ?peer = Some d \<or>
      (\<exists>steady addr_ok did host peer'. ascii did \<and> mdns_seen yy_ref 0 steady addr_ok did host ?peer = (Some (host, kUdpPort, d), peer'))"
  proof (rule disjI2, rule exI [of _ 5000000000], rule exI [of _ "\<lambda>_. True"], rule exI [of _ "''b2''"], rule exI [of _ "''10.0.0.9''"])
    show "\<exists>peer'. ascii ''b2'' \<and> mdns_seen yy_ref 0 5000000000 (\<lambda>_. True) ''b2'' ''10.0.0.9'' ?peer = (Some (''10.0.0.9'', kUdpPort, d), peer')"
      using seen by (intro exI conjI) (simp_all add: ascii_char_def)
  qed
  show ?thesis
    using d(1)
    by (intro exI [of _ d], subst announcement_is_answered [OF yyjson_ok_ref i _ _ _ _ _ _ _ _ sent])
      (use d(2) in \<open>simp_all add: reap_pending_threads_def kMaxUdpPacketSize_def\<close>)
qed

text \<open>
  The throttle. The probes' table never grows beyond 32 devices once the steady clock has
  passed its first second; after a probe a further sighting of that device within a second, if it
  is still remembered, sends none and changes nothing.
\<close>

theorem probes_are_throttled:
  assumes "length m \<le> kProbeEntries" and "sint kMdnsProbeCooldown \<le> sint now" and "probe_gate now k m = (r, m')"
    and "map_of m' k = Some now" and "sint now \<le> sint later" and "sint later < sint now + 1000000000"
  shows "length m' \<le> kProbeEntries \<and> probe_gate later k m' = (False, m')"
proof -
  have "um_contains k m \<or> r"
    using assms(2,3) probe_gate_pass [of now k m] by (cases "map_of m k") (auto simp: probe_cooled_def um_contains_def)
  then have "length m' \<le> kProbeEntries" using probe_gate_size [OF assms(1), of k now] assms(3) by auto
  moreover have "sint (later - now) = sint later - sint now"
    using assms(2,5,6) by (intro sint_minus_small) (simp add: kMdnsProbeCooldown_def)
  ultimately show ?thesis
    using assms(4-6) by (simp add: probe_gate_def um_contains_def kMdnsProbeCooldown_def)
qed

theorem probes_are_throttled_witness:
  "length (snd (probe_gate 5000000000 ''x'' [(''y'', 1)])) \<le> kProbeEntries \<and>
   fst (probe_gate 5900000000 ''x'' (snd (probe_gate 5000000000 ''x'' [(''y'', 1)]))) = False"
proof -
  have p: "probe_gate 5000000000 ''x'' [(''y'', 1)] = (True, [(''y'', 1), (''x'', 5000000000)])"
    by (simp add: probe_gate_def kMdnsProbeCooldown_def kProbeEntries_def um_contains_def)
  show ?thesis
    using probes_are_throttled [OF _ _ p, of 5900000000] by (simp add: p kMdnsProbeCooldown_def kProbeEntries_def)
qed

end
