(* ===== verification/Mdns_Discovery.thy ===== *)
theory Mdns_Discovery
  imports Mdns_Message Discovery
begin

text \<open>
  \<open>sysmodule/src/mdns/mdns_discovery.cpp\<close>: the service that answers mDNS queries for this device and
  looks for others, over the model of \<open>mdns.h\<close>. The build for the console is modelled, where the
  only address is the one \<open>gethostid\<close> reports.
\<close>

section \<open>What is announced\<close>

definition kServiceType :: string where "kServiceType = ''_kdeconnect._udp.local.''"
definition kQueryRepeat :: i64 where "kQueryRepeat = 15000000000"

text \<open>\<open>None\<close>: \<open>gethostname\<close> fails.\<close>

definition hostname_or_default :: "string option \<Rightarrow> string" where
  "hostname_or_default host =
     (case host of
        Some h \<Rightarrow> (let b = c_str (take 255 h) in if b \<noteq> [] then b @ ''.local.'' else ''MiniKDEConnect.local.'')
      | None \<Rightarrow> ''MiniKDEConnect.local.'')"

definition ipv4_to_string :: "in_addr \<Rightarrow> string" where
  "ipv4_to_string addr =
     (let n = unat addr
      in nat_str (n div 16777216) @ ''.'' @ nat_str (n div 65536 mod 256) @ ''.'' @
         nat_str (n div 256 mod 256) @ ''.'' @ nat_str (n mod 256))"

text \<open>\<open>None\<close>: no address, or one of another family.\<close>

definition sockaddr_to_ipv4_string :: "sockaddr_in option \<Rightarrow> string" where
  "sockaddr_to_ipv4_string from_addr =
     (case from_addr of None \<Rightarrow> [] | Some (addr, _) \<Rightarrow> ipv4_to_string addr)"

record announced_info =
  ai_service_type :: string
  ai_service_instance :: string
  ai_hostname :: string
  ai_addresses_v4 :: "in_addr list"
  ai_port :: u16
  ai_txt_records :: "(string, string) umap"

record query_state =
  qs_instance_id :: string
  qs_host :: string
  qs_device_id :: string
  qs_saw_ptr :: bool

definition new_query_state :: query_state where
  "new_query_state = \<lparr>qs_instance_id = [], qs_host = [], qs_device_id = [], qs_saw_ptr = False\<rparr>"

text \<open>The type asked for, with the arguments that go with it.\<close>

datatype record_kind = PtrRecord | SrvRecord | ARecord "in_addr option" | TxtRecord "string \<times> string"

definition make_record :: "announced_info \<Rightarrow> record_kind \<Rightarrow> mdns_record_t" where
  "make_record self kind =
     (case kind of
        PtrRecord \<Rightarrow> \<lparr>mr_name = ai_service_type self, mr_data = PtrData (ai_service_instance self),
                      mr_rclass = 0, mr_ttl = 0\<rparr>
      | SrvRecord \<Rightarrow> \<lparr>mr_name = ai_service_instance self,
                      mr_data = SrvData 0 0 (ai_port self) (ai_hostname self), mr_rclass = 0, mr_ttl = 0\<rparr>
      | ARecord addr \<Rightarrow> \<lparr>mr_name = ai_hostname self,
                         mr_data = AData (case addr of Some a \<Rightarrow> a | None \<Rightarrow> 0), mr_rclass = 0, mr_ttl = 0\<rparr>
      | TxtRecord txt \<Rightarrow> \<lparr>mr_name = ai_service_instance self, mr_data = TxtData (fst txt) (snd txt),
                          mr_rclass = 0, mr_ttl = 0\<rparr>)"

definition build_announced_info :: "string option \<Rightarrow> in_addr list \<Rightarrow> device_info \<Rightarrow> i32 \<Rightarrow> announced_info" where
  "build_announced_info host addresses dev tcp_port =
     \<lparr>ai_service_type = kServiceType,
      ai_service_instance = di_id dev @ ''.'' @ kServiceType,
      ai_hostname = hostname_or_default host,
      ai_addresses_v4 = addresses,
      ai_port = ucast tcp_port,
      ai_txt_records = [(''id'', di_id dev), (''name'', di_name dev), (''type'', di_type dev),
                        (''protocol'', int_str (sint (protocol_version dev)))]\<rparr>"

section \<open>Answering queries\<close>

text \<open>\<open>out_buf\<close> is the static send buffer, which keeps its content between calls.\<close>

record mdns_out =
  out_buf :: string
  out_sent :: "mdns_send list"

text \<open>The local array of records holds 64; a write behind it is a fault.\<close>

definition fill_additional :: "mdns_record_t list \<Rightarrow> mdns_record_t list option" where
  "fill_additional rs = (if length rs \<le> 64 then Some rs else None)"

definition write_records ::
    "mdns_sock \<Rightarrow> sockaddr_in \<Rightarrow> u16 \<Rightarrow> u16 \<Rightarrow> u16 \<Rightarrow> string \<Rightarrow> mdns_record_t \<Rightarrow> mdns_record_t list \<Rightarrow> mdns_out \<Rightarrow>
     (bool \<times> mdns_out) option" where
  "write_records sk from_addr query_id rtype rclass name answer additional st =
     do { (ok, buf, sent) \<leftarrow>
            (if rclass AND MDNS_UNICAST_RESPONSE \<noteq> 0
             then mdns_query_answer_unicast sk from_addr (out_buf st) query_id rtype name answer [] additional
             else mdns_query_answer_multicast sk (out_buf st) answer [] additional);
          Some (\<not> ok, st\<lparr>out_buf := buf, out_sent := out_sent st @ sent\<rparr>) }"

definition a_records :: "announced_info \<Rightarrow> mdns_record_t list" where
  "a_records self = map (\<lambda>a. make_record self (ARecord (Some a))) (ai_addresses_v4 self)"

definition txt_records :: "announced_info \<Rightarrow> mdns_record_t list" where
  "txt_records self = map (\<lambda>t. make_record self (TxtRecord t)) (ai_txt_records self)"

definition service_callback :: "announced_info \<Rightarrow> mdns_sock \<Rightarrow> sockaddr_in \<Rightarrow> mdns_out mdns_callback" where
  "service_callback self sk from_addr buf sz ev st =
     (if me_entry ev \<noteq> EntryQuestion then Some (False, st)
      else
        do { (name, _) \<leftarrow> mdns_string_extract buf sz (me_name_offset ev) 256;
             let rtype = me_rtype ev;
             if name = ai_service_type self \<and> (rtype = MDNS_RECORDTYPE_PTR \<or> rtype = MDNS_RECORDTYPE_ANY) then
               do { additional \<leftarrow> fill_additional (make_record self SrvRecord # a_records self @ txt_records self);
                    write_records sk from_addr (me_query_id ev) rtype (me_rclass ev) name
                      (make_record self PtrRecord) additional st }
             else if name = ai_service_instance self \<and> (rtype = MDNS_RECORDTYPE_SRV \<or> rtype = MDNS_RECORDTYPE_ANY) then
               do { additional \<leftarrow> fill_additional (a_records self @ txt_records self);
                    write_records sk from_addr (me_query_id ev) rtype (me_rclass ev) name
                      (make_record self SrvRecord) additional st }
             else if name = ai_hostname self \<and> (rtype = MDNS_RECORDTYPE_A \<or> rtype = MDNS_RECORDTYPE_ANY) \<and>
                     ai_addresses_v4 self \<noteq> [] then
               do { additional \<leftarrow> fill_additional (txt_records self);
                    write_records sk from_addr (me_query_id ev) rtype (me_rclass ev) name
                      (make_record self (ARecord (Some (hd (ai_addresses_v4 self))))) additional st }
             else Some (False, st) })"

section \<open>Reading answers\<close>

definition discovery_callback :: "sockaddr_in option \<Rightarrow> query_state mdns_callback" where
  "discovery_callback from_addr buf sz ev st =
     (if me_rtype ev = MDNS_RECORDTYPE_PTR then
        do { (name, _) \<leftarrow> mdns_string_extract buf sz (me_name_offset ev) 256;
             let inst = (case find_if (\<lambda>c. c = CHR ''.'') name of Some dot \<Rightarrow> take dot name | None \<Rightarrow> name);
             Some (False, st\<lparr>qs_instance_id := inst, qs_host := sockaddr_to_ipv4_string from_addr, qs_saw_ptr := True\<rparr>) }
      else
        do { st \<leftarrow> (if me_rtype ev = MDNS_RECORDTYPE_A
                   then do { addr \<leftarrow> mdns_record_parse_a buf sz (me_record_offset ev) (me_record_length ev);
                             Some (st\<lparr>qs_host := ipv4_to_string addr\<rparr>) }
                   else Some st);
             if me_rtype ev = MDNS_RECORDTYPE_TXT
             then do { records \<leftarrow> mdns_record_parse_txt buf sz (me_record_offset ev) (me_record_length ev) 16;
                       Some (False, case List.find (\<lambda>(k, v). k = ''id'') records of
                                      Some (_, v) \<Rightarrow> st\<lparr>qs_device_id := v\<rparr>
                                    | None \<Rightarrow> st) }
             else Some (False, st) })"

section \<open>The service\<close>

text \<open>The three static buffers of the senders are part of the state.\<close>

record mdns_impl =
  im_local_device :: device_info
  im_tcp_port :: i32
  im_running :: bool
  service_socket :: int
  discovery_socket :: int
  im_announced :: announced_info
  announce_buffer :: string
  query_buffer :: string
  send_buffer :: string
  mdns_thread :: bool

definition new_mdns_impl :: "device_info \<Rightarrow> i32 \<Rightarrow> string \<Rightarrow> string \<Rightarrow> string \<Rightarrow> mdns_impl" where
  "new_mdns_impl dev tcp_port abuf qbuf sbuf =
     \<lparr>im_local_device = dev, im_tcp_port = tcp_port, im_running = False, service_socket = -1,
      discovery_socket = -1,
      im_announced = \<lparr>ai_service_type = [], ai_service_instance = [], ai_hostname = [], ai_addresses_v4 = [],
                      ai_port = 0, ai_txt_records = []\<rparr>,
      announce_buffer = abuf, query_buffer = qbuf, send_buffer = sbuf, mdns_thread = False\<rparr>"

datatype mdns_effect =
    MdnsSend mdns_send
  | PeerFound string string
  | MdnsClose int

text \<open>How the two sockets behave.\<close>

record mdns_net =
  mn_service :: mdns_sock
  mn_discovery :: mdns_sock

definition announce :: "mdns_net \<Rightarrow> bool \<Rightarrow> mdns_impl \<Rightarrow> (mdns_impl \<times> mdns_effect list) option" where
  "announce net goodbye im =
     (if service_socket im < 0 then Some (im, [])
      else
        do { let self = im_announced im;
             let additional = make_record self SrvRecord # a_records self @ txt_records self;
             (_, buf, sent) \<leftarrow>
               (if goodbye
                then mdns_goodbye_multicast (mn_service net) (announce_buffer im) (make_record self PtrRecord) [] additional
                else mdns_announce_multicast (mn_service net) (announce_buffer im) (make_record self PtrRecord) [] additional);
             Some (im\<lparr>announce_buffer := buf\<rparr>, map MdnsSend sent) })"

definition send_query :: "mdns_net \<Rightarrow> mdns_impl \<Rightarrow> (mdns_impl \<times> mdns_effect list) option" where
  "send_query net im =
     (if discovery_socket im < 0 then Some (im, [])
      else
        do { (_, buf, sent) \<leftarrow> mdns_query_send (mn_discovery net) MDNS_RECORDTYPE_PTR
                                 (ai_service_type (im_announced im)) (query_buffer im) 0;
             Some (im\<lparr>query_buffer := buf\<rparr>, map MdnsSend sent) })"

text \<open>The surroundings of \<open>start\<close>: the two sockets, host name and address.\<close>

record mdns_start_env =
  me_open_service :: mdns_open_env
  me_open_discovery :: mdns_open_env
  me_host :: "string option"
  me_addresses :: "in_addr list"

definition mdns_start ::
    "mdns_net \<Rightarrow> mdns_start_env \<Rightarrow> mdns_impl \<Rightarrow> (bool \<times> mdns_impl \<times> mdns_effect list) option" where
  "mdns_start net e im =
     (if im_running im then Some (True, im, [])
      else
        do { let im = im\<lparr>im_running := True\<rparr>;
             let (fd, closed) = mdns_socket_open_ipv4 (me_open_service e);
             let im = im\<lparr>service_socket := fd\<rparr>;
             let eff = map MdnsClose closed;
             if fd < 0 then Some (False, im\<lparr>im_running := False\<rparr>, eff)
             else
               do { let (fd2, closed) = mdns_socket_open_ipv4 (me_open_discovery e);
                    let im = im\<lparr>discovery_socket := fd2\<rparr>;
                    let eff = eff @ map MdnsClose closed;
                    if fd2 < 0
                    then Some (False, im\<lparr>service_socket := -1, im_running := False\<rparr>, eff @ [MdnsClose fd])
                    else
                      do { let im = im\<lparr>im_announced := build_announced_info (me_host e) (me_addresses e)
                                        (im_local_device im) (im_tcp_port im)\<rparr>;
                           (im, sent1) \<leftarrow> announce net False im;
                           (im, sent2) \<leftarrow> send_query net im;
                           Some (True, im\<lparr>mdns_thread := True\<rparr>, eff @ sent1 @ sent2) } } })"

text \<open>\<open>join\<close> waits for the thread, which ends at its next turn because \<open>running\<close> is off.\<close>

definition mdns_stop :: "mdns_net \<Rightarrow> mdns_impl \<Rightarrow> (mdns_impl \<times> mdns_effect list) option" where
  "mdns_stop net im =
     (if \<not> im_running im then Some (im, [])
      else
        do { let im = im\<lparr>im_running := False, mdns_thread := False\<rparr>;
             (im, sent) \<leftarrow> announce net True im;
             let eff = sent @ (if 0 \<le> service_socket im then [MdnsClose (service_socket im)] else []);
             let im = (if 0 \<le> service_socket im then im\<lparr>service_socket := -1\<rparr> else im);
             let eff = eff @ (if 0 \<le> discovery_socket im then [MdnsClose (discovery_socket im)] else []);
             let im = (if 0 \<le> discovery_socket im then im\<lparr>discovery_socket := -1\<rparr> else im);
             Some (im, eff) })"

text \<open>
  One turn of the loop. \<open>le_service\<close> and \<open>le_discovery\<close> are the readable sockets with what
  \<open>recvfrom\<close> returns there and the sender's address.
\<close>

record mdns_loop_event =
  le_now :: i64
  le_select_ok :: bool
  le_service :: "(string option \<times> sockaddr_in) option"
  le_discovery :: "(string option \<times> sockaddr_in option) option"

record mdns_locals =
  svc_buf :: string
  disc_buf :: string
  next_query :: i64

definition listen_service ::
    "mdns_net \<Rightarrow> string option \<Rightarrow> sockaddr_in \<Rightarrow> mdns_impl \<times> mdns_locals \<Rightarrow>
     (mdns_impl \<times> mdns_locals \<times> mdns_effect list) option" where
  "listen_service net pkt from_addr s =
     (case s of (im, lv) \<Rightarrow>
        do { (_, buf, st) \<leftarrow> mdns_socket_listen (service_callback (im_announced im) (mn_service net) from_addr)
                              (svc_buf lv) pkt \<lparr>out_buf = send_buffer im, out_sent = []\<rparr>;
             Some (im\<lparr>send_buffer := out_buf st\<rparr>, lv\<lparr>svc_buf := buf\<rparr>, map MdnsSend (out_sent st)) })"

definition receive_answers ::
    "string option \<Rightarrow> sockaddr_in option \<Rightarrow> mdns_impl \<times> mdns_locals \<Rightarrow>
     (mdns_impl \<times> mdns_locals \<times> mdns_effect list) option" where
  "receive_answers pkt from_addr s =
     (case s of (im, lv) \<Rightarrow>
        do { (_, buf, state) \<leftarrow> mdns_query_recv (discovery_callback from_addr) 0 (disc_buf lv) pkt new_query_state;
             Some (im, lv\<lparr>disc_buf := buf\<rparr>,
               if qs_saw_ptr state \<and> qs_instance_id state \<noteq> [] \<and> qs_host state \<noteq> [] \<and> qs_device_id state \<noteq> [] \<and>
                  qs_device_id state \<noteq> di_id (im_local_device im)
               then [PeerFound (qs_device_id state) (qs_host state)] else []) })"

definition mdns_iteration ::
    "mdns_net \<Rightarrow> mdns_loop_event \<Rightarrow> mdns_impl \<times> mdns_locals \<Rightarrow>
     (loop_status \<times> (mdns_impl \<times> mdns_locals) \<times> mdns_effect list) option" where
  "mdns_iteration net ev s =
     (case s of (im, lv) \<Rightarrow>
        if \<not> im_running im then Some (LoopEnd, (im, lv), [])
        else
          do { let now = le_now ev;
               (im, eff) \<leftarrow> (if sint (next_query lv) \<le> sint now then send_query net im else Some (im, []));
               let lv = (if sint (next_query lv) \<le> sint now then lv\<lparr>next_query := now + kQueryRepeat\<rparr> else lv);
               if service_socket im < 0 \<and> discovery_socket im < 0 then Some (LoopEnd, (im, lv), eff)
               else if \<not> le_select_ok ev then Some (LoopOn, (im, lv), eff)
               else
                 do { (im, lv, eff1) \<leftarrow>
                        (case le_service ev of
                           Some (pkt, from_addr) \<Rightarrow>
                             if 0 \<le> service_socket im then listen_service net pkt from_addr (im, lv) else Some (im, lv, [])
                         | None \<Rightarrow> Some (im, lv, []));
                      (im, lv, eff2) \<leftarrow>
                        (case le_discovery ev of
                           Some (pkt, from_addr) \<Rightarrow>
                             if 0 \<le> discovery_socket im then receive_answers pkt from_addr (im, lv) else Some (im, lv, [])
                         | None \<Rightarrow> Some (im, lv, []));
                      Some (LoopOn, (im, lv), eff @ eff1 @ eff2) } })"

text \<open>The thread, for a given sequence of turns: their effects in order, up to the end of the loop.\<close>

fun mdns_turns ::
    "mdns_net \<Rightarrow> mdns_loop_event list \<Rightarrow> mdns_impl \<times> mdns_locals \<Rightarrow>
     ((mdns_impl \<times> mdns_locals) \<times> mdns_effect list) option" where
  "mdns_turns net [] s = Some (s, [])"
| "mdns_turns net (ev # evs) s =
     do { (status, s, eff) \<leftarrow> mdns_iteration net ev s;
          case status of
            LoopEnd \<Rightarrow> Some (s, eff)
          | LoopOn \<Rightarrow> do { (s, eff') \<leftarrow> mdns_turns net evs s; Some (s, eff @ eff') } }"

end
