(* ===== verification/Mdns_Safety.thy ===== *)
theory Mdns_Safety
  imports Mdns_Discovery
begin

text \<open>
  Memory safety of the mDNS parser: whatever a datagram holds, no read leaves the buffer it was
  received into, except that a question at the very end of a full buffer makes
  \<^const>\<open>mdns_socket_listen\<close> read up to four bytes behind it.
\<close>

named_theorems mdns_safe \<open>facts of the form: the read stays in the buffer\<close>

section \<open>Names\<close>

lemma rd8_Some [simp]: "i < length buf \<Longrightarrow> rd8 buf i = Some (of_char (buf ! i))"
  by (simp add: rd8_def)

lemma rd_mem_Some [simp]: "i + n \<le> length buf \<Longrightarrow> rd_mem buf i n = Some (take n (drop i buf))"
  by (simp add: rd_mem_def)

lemma mdns_ntohs_Some:
  "i + 2 \<le> length buf \<Longrightarrow>
     mdns_ntohs buf i = Some (of_nat (of_char (buf ! i) * 256 + of_char (buf ! (i + 1))))"
  by (simp add: mdns_ntohs_def)

lemma mdns_ntohs_safe [mdns_safe]: "i + 2 \<le> length buf \<Longrightarrow> \<exists>w. mdns_ntohs buf i = Some w"
  by (simp add: mdns_ntohs_Some)

lemma mdns_ntohl_safe [mdns_safe]: "i + 4 \<le> length buf \<Longrightarrow> \<exists>w. mdns_ntohl buf i = Some w"
  by (simp add: mdns_ntohl_def)

lemma follow_refs_safe:
  assumes "offset < sz" "sz \<le> length buf"
  shows "\<exists>p r. follow_refs buf sz offset ref n = Some (p, r) \<and> (\<forall>q. p = Some q \<longrightarrow> q < sz) \<and>
           (r \<longrightarrow> ref \<or> offset + 2 \<le> sz) \<and> (ref \<longrightarrow> r) \<and> (\<not> r \<longrightarrow> p = Some offset \<or> p = None)"
  using assms
proof (induction "17 - n" arbitrary: offset ref n rule: less_induct)
  case less
  have r8: "rd8 buf offset = Some (of_char (buf ! offset))" using less.prems by simp
  show ?case
  proof (cases "\<not> mdns_is_string_ref (of_char (buf ! offset)) \<or> sz < offset + 2")
    case True
    then show ?thesis using less.prems by (subst follow_refs.simps) (auto simp: r8)
  next
    case False
    then obtain w where w: "mdns_ntohs buf offset = Some w"
      using less.prems mdns_ntohs_safe [of offset buf] by auto
    show ?thesis
    proof (cases "sz \<le> unat (w AND 0x3FFF) \<or> 16 < n + 1")
      case True
      then show ?thesis using False less.prems by (subst follow_refs.simps) (auto simp: r8 w Let_def)
    next
      case small: False
      then have "17 - (n + 1) < 17 - n" "unat (w AND 0x3FFF) < sz" by auto
      from less.hyps [OF this(1) this(2) less.prems(2), of True]
      show ?thesis using small False less.prems by (subst follow_refs.simps) (auto simp: r8 w Let_def)
    qed
  qed
qed

lemma next_substring_safe:
  assumes "sz \<le> length buf"
  shows "\<exists>s. mdns_get_next_substring buf sz offset = Some s \<and>
           (\<forall>q. sp_offset s = Some q \<longrightarrow> q + sp_length s \<le> sz \<and> (sp_ref s \<longrightarrow> offset + 2 \<le> sz) \<and>
                (\<not> sp_ref s \<and> sp_length s = 0 \<longrightarrow> q < sz))"
proof (cases "sz \<le> offset \<or> of_char (buf ! offset) = (0 :: nat)")
  case True
  then show ?thesis using assms by (auto simp: mdns_get_next_substring_def)
next
  case False
  then obtain p r where f: "follow_refs buf sz offset False 0 = Some (p, r)"
      and "\<forall>q. p = Some q \<longrightarrow> q < sz" "r \<longrightarrow> offset + 2 \<le> sz" "\<not> r \<longrightarrow> p = Some offset \<or> p = None"
    using follow_refs_safe [of offset sz buf False 0] assms by auto
  with False assms show ?thesis
    by (cases p) (auto simp: mdns_get_next_substring_def)
qed

lemma next_substring_safeE:
  assumes "sz \<le> length buf"
  obtains s where "mdns_get_next_substring buf sz offset = Some s"
    and "\<And>q. sp_offset s = Some q \<Longrightarrow> q + sp_length s \<le> sz"
    and "\<And>q. sp_offset s = Some q \<Longrightarrow> sp_ref s \<Longrightarrow> offset + 2 \<le> sz"
    and "\<And>q. sp_offset s = Some q \<Longrightarrow> \<not> sp_ref s \<Longrightarrow> sp_length s = 0 \<Longrightarrow> q < sz"
  using next_substring_safe [OF assms] by blast

lemma skip_loop_safe:
  assumes "sz \<le> length buf"
  shows "\<exists>r. skip_loop buf sz cur counter = Some r \<and> (\<forall>e. r = Some e \<longrightarrow> e \<le> sz)"
proof (induction "MDNS_MAX_SUBSTRINGS + 1 - counter" arbitrary: cur counter rule: less_induct)
  case less
  obtain s where s: "mdns_get_next_substring buf sz cur = Some s"
    and q: "\<And>q. sp_offset s = Some q \<Longrightarrow> q + sp_length s \<le> sz"
      "\<And>q. sp_offset s = Some q \<Longrightarrow> sp_ref s \<Longrightarrow> cur + 2 \<le> sz"
      "\<And>q. sp_offset s = Some q \<Longrightarrow> \<not> sp_ref s \<Longrightarrow> sp_length s = 0 \<Longrightarrow> q < sz"
    by (rule next_substring_safeE [OF assms, of cur]) blast
  show ?case
  proof (cases "sp_offset s")
    case None
    then show ?thesis by (subst skip_loop.simps) (simp add: s)
  next
    case (Some x)
    show ?thesis
    proof (cases "\<not> MDNS_MAX_SUBSTRINGS < counter \<and> \<not> sp_ref s \<and> sp_length s \<noteq> 0")
      case True
      then have "MDNS_MAX_SUBSTRINGS + 1 - (counter + 1) < MDNS_MAX_SUBSTRINGS + 1 - counter" by auto
      from less [OF this, of "x + sp_length s"] show ?thesis
        using True by (subst skip_loop.simps) (simp add: s Some)
    next
      case False
      then show ?thesis using q [OF Some] by (subst skip_loop.simps) (auto simp: s Some)
    qed
  qed
qed

lemma mdns_string_skip_safe:
  "sz \<le> length buf \<Longrightarrow> \<exists>r. mdns_string_skip buf sz cur = Some r \<and> (\<forall>e. r = Some e \<longrightarrow> e \<le> sz)"
  by (simp add: mdns_string_skip_def skip_loop_safe)

lemma equal_loop_safe:
  assumes "sl \<le> length bl" "sr \<le> length br" "\<forall>e. lend = Some e \<longrightarrow> e \<le> sl"
  shows "\<exists>r. equal_loop bl sl lcur lend br sr rcur rend counter = Some r \<and> (\<forall>l r1. r = Some (l, r1) \<longrightarrow> l \<le> sl)"
  using assms(3)
proof (induction "MDNS_MAX_SUBSTRINGS + 1 - counter" arbitrary: lcur lend rcur rend counter rule: less_induct)
  case less
  obtain l where l: "mdns_get_next_substring bl sl lcur = Some l"
    and ql: "\<And>q. sp_offset l = Some q \<Longrightarrow> q + sp_length l \<le> sl"
      "\<And>q. sp_offset l = Some q \<Longrightarrow> sp_ref l \<Longrightarrow> lcur + 2 \<le> sl"
      "\<And>q. sp_offset l = Some q \<Longrightarrow> \<not> sp_ref l \<Longrightarrow> sp_length l = 0 \<Longrightarrow> q < sl"
    by (rule next_substring_safeE [OF assms(1), of lcur]) blast
  obtain r where r: "mdns_get_next_substring br sr rcur = Some r"
    and qr: "\<And>q. sp_offset r = Some q \<Longrightarrow> q + sp_length r \<le> sr"
    by (rule next_substring_safeE [OF assms(2), of rcur]) blast
  show ?case
  proof (cases "sp_offset l = None \<or> sp_offset r = None \<or> MDNS_MAX_SUBSTRINGS < counter \<or> sp_length l \<noteq> sp_length r")
    case True
    then show ?thesis by (subst equal_loop.simps) (auto simp: l r split: option.splits)
  next
    case False
    then obtain x y where x: "sp_offset l = Some x" and y: "sp_offset r = Some y"
      and c: "\<not> MDNS_MAX_SUBSTRINGS < counter" and len: "sp_length r = sp_length l" by auto
    have rd: "rd_mem br y (sp_length l) = Some (take (sp_length l) (drop y br))"
      "rd_mem bl x (sp_length l) = Some (take (sp_length l) (drop x bl))"
      using ql(1) [OF x] qr [OF y] len assms by (auto intro!: rd_mem_Some)
    let ?lend = "if sp_ref l \<and> lend = None then Some (lcur + 2) else lend"
    have lend: "\<forall>e. ?lend = Some e \<longrightarrow> e \<le> sl" using less.prems ql(2) [OF x] by auto
    show ?thesis
    proof (cases "strncasecmp_eq (take (sp_length l) (drop y br)) (take (sp_length l) (drop x bl)) \<and> sp_length l \<noteq> 0")
      case True
      have "MDNS_MAX_SUBSTRINGS + 1 - (counter + 1) < MDNS_MAX_SUBSTRINGS + 1 - counter" using c by auto
      from less.hyps [OF this lend, of "x + sp_length l" "y + sp_length r"
          "if sp_ref r \<and> rend = None then Some (rcur + 2) else rend"]
      show ?thesis using True c by (subst equal_loop.simps) (simp add: l r x y len rd Let_def split del: if_split)
    next
      case False
      then show ?thesis using c lend ql(1) [OF x] ql(3) [OF x]
        by (subst equal_loop.simps) (auto simp: l r x y len rd Let_def split: option.splits if_splits)
    qed
  qed
qed

lemma mdns_string_equal_safe:
  "sl \<le> length bl \<Longrightarrow> sr \<le> length br \<Longrightarrow>
     \<exists>r. mdns_string_equal bl sl lofs br sr rofs = Some r \<and> (\<forall>l r1. r = Some (l, r1) \<longrightarrow> l \<le> sl)"
  using equal_loop_safe [of sl bl sr br None] by (simp add: mdns_string_equal_def)

lemma length_put_label: "length dst \<le> capacity \<Longrightarrow> length (put_label capacity dst label) \<le> capacity"
  by (auto simp: put_label_def Let_def min_def)

lemma extract_loop_safe:
  assumes "sz \<le> length buf" "length dst \<le> capacity" "\<forall>e. ends = Some e \<longrightarrow> e \<le> sz"
  shows "\<exists>r. extract_loop buf sz capacity cur ends dst counter = Some r \<and>
           (\<forall>s e. r = Some (s, e) \<longrightarrow> length s \<le> capacity \<and> e \<le> sz)"
  using assms(2,3)
proof (induction "MDNS_MAX_SUBSTRINGS + 1 - counter" arbitrary: cur ends dst counter rule: less_induct)
  case less
  obtain s where s: "mdns_get_next_substring buf sz cur = Some s"
    and q: "\<And>q. sp_offset s = Some q \<Longrightarrow> q + sp_length s \<le> sz"
      "\<And>q. sp_offset s = Some q \<Longrightarrow> sp_ref s \<Longrightarrow> cur + 2 \<le> sz"
      "\<And>q. sp_offset s = Some q \<Longrightarrow> \<not> sp_ref s \<Longrightarrow> sp_length s = 0 \<Longrightarrow> q < sz"
    by (rule next_substring_safeE [OF assms(1), of cur]) blast
  show ?case
  proof (cases "sp_offset s")
    case None
    then show ?thesis by (subst extract_loop.simps) (simp add: s)
  next
    case (Some x)
    let ?ends = "if sp_ref s \<and> ends = None then Some (cur + 2) else ends"
    have ends: "\<forall>e. ?ends = Some e \<longrightarrow> e \<le> sz" using less.prems q(2) [OF Some] by auto
    have rd: "rd_mem buf x (min (sp_length s) (capacity - length dst)) =
        Some (take (min (sp_length s) (capacity - length dst)) (drop x buf))"
      using q(1) [OF Some] assms(1) by (intro rd_mem_Some) auto
    show ?thesis
    proof (cases "\<not> MDNS_MAX_SUBSTRINGS < counter \<and> sp_length s \<noteq> 0")
      case True
      then have "MDNS_MAX_SUBSTRINGS + 1 - (counter + 1) < MDNS_MAX_SUBSTRINGS + 1 - counter" by auto
      from less.hyps [OF this length_put_label [OF less.prems(1)] ends, of "x + sp_length s"] show ?thesis
        using True by (subst extract_loop.simps) (simp add: s Some rd Let_def)
    next
      case False
      then show ?thesis using q(1,3) [OF Some] less.prems(1) ends
        by (subst extract_loop.simps) (auto simp: s Some Let_def split: option.splits if_splits)
    qed
  qed
qed

lemma mdns_string_extract_safe:
  assumes "sz \<le> length buf"
  shows "\<exists>s e. mdns_string_extract buf sz offset capacity = Some (s, e) \<and> length s \<le> capacity"
proof -
  obtain r where "extract_loop buf sz capacity offset None [] 0 = Some r"
      "\<forall>s e. r = Some (s, e) \<longrightarrow> length s \<le> capacity \<and> e \<le> sz"
    using extract_loop_safe [of sz buf "[]" capacity None offset 0] assms by auto
  then show ?thesis by (cases r) (auto simp: mdns_string_extract_def)
qed

section \<open>Writing\<close>

lemma wr_mem_Some [simp]: "i + length s \<le> length buf \<Longrightarrow> wr_mem buf i s = Some (mem_splice buf i s)"
  by (simp add: wr_mem_def)

lemma length_splice [simp]: "i + length s \<le> length buf \<Longrightarrow> length (mem_splice buf i s) = length buf"
  by (simp add: mem_splice_def)

lemma length_be [simp]: "length (be16 w) = 2" "length (be32 v) = 4" "length (be128 u) = 16"
  by (simp_all add: be16_def be32_def be128_def)

lemma mdns_htons_Some [simp]:
  "i + 2 \<le> length buf \<Longrightarrow> mdns_htons buf i w = Some (mem_splice buf i (be16 w), i + 2)"
  by (simp add: mdns_htons_def)

lemma mdns_htonl_Some [simp]:
  "i + 4 \<le> length buf \<Longrightarrow> mdns_htonl buf i v = Some (mem_splice buf i (be32 v), i + 4)"
  by (simp add: mdns_htonl_def)

lemma match_rest_safe:
  "\<exists>r. match_rest buf (length buf) str tln offset cur = Some r"
proof (induction "tln - offset" arbitrary: offset cur rule: less_induct)
  case less
  obtain s where s: "mdns_get_next_substring buf (length buf) cur = Some s"
    and q: "\<And>q. sp_offset s = Some q \<Longrightarrow> q + sp_length s \<le> length buf"
    by (rule next_substring_safeE [of "length buf" buf cur]) auto
  let ?dot = "case mdns_string_find str tln (CHR ''.'') offset of Some p \<Rightarrow> p | None \<Rightarrow> tln"
  show ?case
  proof (cases "offset < tln")
    case True
    then have "tln - (?dot + 1) < tln - offset"
      by (auto split: option.splits dest: mdns_string_find_ge)
    note IH = less [OF this]
    show ?thesis
    proof (cases "sp_offset s")
      case None
      then show ?thesis using True by (subst match_rest.simps) (auto simp: s Let_def)
    next
      case (Some x)
      then show ?thesis using True IH q [OF Some]
        by (subst match_rest.simps) (auto simp: s Let_def split: option.splits)
    qed
  next
    case False
    then show ?thesis by (subst match_rest.simps) auto
  qed
qed

lemma match_entry_safe: "\<exists>r. match_entry buf (length buf) str fl tln e = Some r"
proof -
  obtain s where s: "mdns_get_next_substring buf (length buf) e = Some s"
    and q: "\<And>q. sp_offset s = Some q \<Longrightarrow> q + sp_length s \<le> length buf"
    by (rule next_substring_safeE [of "length buf" buf e]) auto
  show ?thesis
    using match_rest_safe [of buf str tln "fl + 1"]
    by (auto simp: match_entry_def s q split: option.splits)
qed

lemma find_entry_safe: "\<exists>r. find_entry buf (length buf) str fl tln es = Some r"
proof (induction es)
  case (Cons e es)
  obtain m where "match_entry buf (length buf) str fl tln e = Some m" using match_entry_safe by blast
  with Cons show ?case by simp
qed simp

lemma mdns_string_table_find_safe: "\<exists>r. mdns_string_table_find table buf (length buf) str fl tln = Some r"
  using find_entry_safe by (auto simp: mdns_string_table_find_def split: option.splits)

text \<open>A step that builds: the buffer keeps its size and the position stays inside.\<close>

definition built :: "nat \<Rightarrow> nat \<Rightarrow> mdns_build option \<Rightarrow> bool" where
  "built n data r \<longleftrightarrow> (\<exists>buf d table. r = Some (buf, d, table) \<and> length buf = n \<and> (\<forall>x. d = Some x \<longrightarrow> data \<le> x \<and> x \<le> n))"

lemma builtI: "length buf = n \<Longrightarrow> (\<And>x. d = Some x \<Longrightarrow> data \<le> x \<and> x \<le> n) \<Longrightarrow> built n data (Some (buf, d, table))"
  by (simp add: built_def)

lemma builtE:
  assumes "built n data r"
  obtains buf d table where "r = Some (buf, d, table)" "length buf = n" "\<And>x. d = Some x \<Longrightarrow> data \<le> x \<and> x \<le> n"
  using assms by (auto simp: built_def)

lemma built_mono: "built n data r \<Longrightarrow> data' \<le> data \<Longrightarrow> built n data' r"
  by (erule builtE, simp, rule builtI) (auto intro: le_trans)

lemma make_loop_built:
  assumes "data \<le> length buf" "len \<le> length name"
  shows "built (length buf) data (make_loop buf (length buf) data name len last_pos table)"
  using assms
proof (induction "len - last_pos" arbitrary: buf data last_pos table rule: less_induct)
  case less
  let ?pos = "mdns_string_find name len (CHR ''.'') last_pos"
  let ?sub = "(case ?pos of Some p \<Rightarrow> p | None \<Rightarrow> len) - last_pos"
  let ?next = "case ?pos of Some p \<Rightarrow> p + 1 | None \<Rightarrow> len"
  obtain r where r: "mdns_string_table_find table buf (length buf) (drop last_pos name) ?sub (len - last_pos) = Some r"
    using mdns_string_table_find_safe by blast
  consider "\<not> last_pos < len" | ref where "last_pos < len" "r = Some ref"
    | "last_pos < len" "r = None" "length buf - data \<le> ?sub + 1"
    | "last_pos < len" "r = None" "?sub + 1 < length buf - data"
    by (cases r) force+
  then show ?case
  proof cases
    case 1
    then show ?thesis using less.prems by (subst make_loop.simps) (auto simp: wr8_def intro: builtI)
  next
    case 2
    then show ?thesis using less.prems
      by (subst make_loop.simps) (auto simp: r Let_def mdns_string_make_ref_def intro: builtI)
  next
    case 3
    then show ?thesis by (subst make_loop.simps) (auto simp: r Let_def intro: builtI)
  next
    case 4
    let ?lab = "take ?sub (drop last_pos name)"
    have lab: "length ?lab \<le> ?sub" by simp
    let ?buf1 = "mem_splice buf data [char_of ?sub]"
    let ?buf = "mem_splice ?buf1 (data + 1) ?lab"
    have l1: "length ?buf1 = length buf" using 4 by simp
    have l2: "length ?buf = length buf" using 4 l1 lab by simp
    have "len - ?next < len - last_pos"
      using 4(1) by (auto split: option.splits dest: mdns_string_find_ge)
    from less.hyps [OF this, of "data + ?sub + 1" ?buf] have
      "built (length buf) (data + ?sub + 1)
         (make_loop ?buf (length buf) (data + ?sub + 1) name len ?next (mdns_string_table_add data table))"
      using 4(3) less.prems l2 by simp
    then have IH: "built (length buf) data
         (make_loop ?buf (length buf) (data + ?sub + 1) name len ?next (mdns_string_table_add data table))"
      by (rule built_mono) simp
    have "wr8 buf data ?sub = Some ?buf1" using 4 by (simp add: wr8_def)
    moreover have "wr_mem ?buf1 (data + 1) ?lab = Some ?buf" using 4 lab l1 by simp
    ultimately have "make_loop buf (length buf) data name len last_pos table =
        make_loop ?buf (length buf) (data + ?sub + 1) name len ?next (mdns_string_table_add data table)"
      using 4 by (subst make_loop.simps) (simp add: r Let_def)
    then show ?thesis using IH by simp
  qed
qed

lemma mdns_string_make_built:
  "data \<le> length buf \<Longrightarrow> name \<noteq> [] \<Longrightarrow> built (length buf) data (mdns_string_make buf (length buf) data name table)"
  by (simp add: mdns_string_make_def make_loop_built)

section \<open>Building messages\<close>

fun rdata_ok :: "mdns_data \<Rightarrow> bool" where
  "rdata_ok (PtrData name) = (name \<noteq> [])"
| "rdata_ok (SrvData _ _ _ name) = (name \<noteq> [])"
| "rdata_ok _ = True"

definition record_ok :: "mdns_record_t \<Rightarrow> bool" where
  "record_ok r \<longleftrightarrow> mr_name r \<noteq> [] \<and> rdata_ok (mr_data r)"

lemma add_question_built:
  assumes "data \<le> length buf" "name \<noteq> []"
  shows "built (length buf) data (mdns_answer_add_question_unicast (length buf) rtype name buf data table)"
proof -
  obtain b d t where "mdns_string_make buf (length buf) data name table = Some (b, d, t)"
      "length b = length buf" "\<forall>x. d = Some x \<longrightarrow> data \<le> x \<and> x \<le> length buf"
    using mdns_string_make_built [OF assms, of table] unfolding built_def by blast
  then show ?thesis
    by (cases d) (auto simp: mdns_answer_add_question_unicast_def intro!: builtI)
qed

lemma add_header_built:
  assumes "data \<le> length buf" "mr_name r \<noteq> []"
  shows "built (length buf) (data + 10) (mdns_answer_add_record_header (length buf) r buf data table)"
proof -
  obtain b d t where "mdns_string_make buf (length buf) data (mr_name r) table = Some (b, d, t)"
      "length b = length buf" "\<forall>x. d = Some x \<longrightarrow> data \<le> x \<and> x \<le> length buf"
    using mdns_string_make_built [OF assms, of table] unfolding built_def by blast
  then show ?thesis
    by (cases d) (auto simp: mdns_answer_add_record_header_def intro!: builtI)
qed

lemma add_data_built:
  assumes "data \<le> length buf" "rdata_ok rdata"
  shows "built (length buf) data (add_record_data (length buf) rdata buf data table)"
proof (cases rdata)
  case (PtrData name)
  then show ?thesis using assms mdns_string_make_built [of data buf name table] by (simp add: add_record_data_def)
next
  case (SrvData p w q name)
  show ?thesis
  proof (cases "length buf - data \<le> 6")
    case True
    then show ?thesis by (simp add: SrvData add_record_data_def built_def)
  next
    case False
    let ?b = "mem_splice (mem_splice (mem_splice buf data (be16 p)) (data + 2) (be16 w)) (data + 4) (be16 q)"
    have "length ?b = length buf" using False by simp
    then have "built (length buf) data (mdns_string_make ?b (length buf) (data + 6) name table)"
      using built_mono [OF mdns_string_make_built [of "data + 6" ?b name table], of data] False assms SrvData
      by simp
    then show ?thesis using False by (simp add: SrvData add_record_data_def eval_nat_numeral)
  qed
qed (auto simp: add_record_data_def assms intro!: builtI)

lemma add_record_built:
  assumes "built n 0 (Some st)" "record_ok r"
  shows "built n 0 (mdns_answer_add_record n r st)"
proof (cases st)
  case (fields buf d table)
  with assms(1) have len: "length buf = n" and d: "\<And>x. d = Some x \<Longrightarrow> x \<le> n" by (auto simp: built_def)
  show ?thesis
  proof (cases "d = None \<or> mdns_type_of (mr_data r) = MDNS_RECORDTYPE_TXT")
    case True
    then show ?thesis using assms(1) by (auto simp: fields mdns_answer_add_record_def split: option.splits)
  next
    case False
    then obtain data where data: "d = Some data" by auto
    obtain b d1 t where h: "mdns_answer_add_record_header n r buf data table = Some (b, d1, t)"
        "length b = n" "\<forall>x. d1 = Some x \<longrightarrow> data + 10 \<le> x \<and> x \<le> n"
      using add_header_built [of data buf r table] assms(2) d data
      unfolding len record_ok_def built_def by blast
    show ?thesis
    proof (cases d1)
      case None
      then show ?thesis using False data h by (auto simp: fields mdns_answer_add_record_def intro: builtI)
    next
      case (Some x)
      obtain b2 d2 t2 where "add_record_data n (mr_data r) b x t = Some (b2, d2, t2)"
          "length b2 = n" "\<forall>y. d2 = Some y \<longrightarrow> x \<le> y \<and> y \<le> n"
        using add_data_built [of x b "mr_data r" t] assms(2) h(2) h(3) Some
        unfolding record_ok_def built_def by blast
      then show ?thesis using False data h(1) h(3) Some Some
        by (cases d2) (auto simp: fields mdns_answer_add_record_def intro!: builtI)
    qed
  qed
qed

lemma add_records_built:
  "built n 0 (Some st) \<Longrightarrow> \<forall>r \<in> set rs. record_ok (prep r) \<Longrightarrow> built n 0 (add_records n prep rs st)"
proof (induction rs arbitrary: st)
  case (Cons r rs)
  obtain buf d t where "mdns_answer_add_record n (prep r) st = Some (buf, d, t)" "built n 0 (Some (buf, d, t))"
    using add_record_built [OF Cons.prems(1), of "prep r"] Cons.prems(2) by (auto simp: built_def)
  then show ?case using Cons by simp
qed simp

lemma update_rclass_ttl_keeps [simp]:
  "mr_name (mdns_record_update_rclass_ttl c l r) = mr_name r"
  "mr_data (mdns_record_update_rclass_ttl c l r) = mr_data r"
  by (simp_all add: mdns_record_update_rclass_ttl_def Let_def)

lemma unicast_prep_keeps [simp]:
  "mr_name (unicast_prep c l r) = mr_name r" "mr_data (unicast_prep c l r) = mr_data r"
  by (simp_all add: unicast_prep_def Let_def)

lemma record_ok_prep [simp]:
  "record_ok (mdns_record_update_rclass_ttl c l r) = record_ok r"
  "record_ok (unicast_prep c l r) = record_ok r"
  "record_ok (r\<lparr>mr_rclass := c\<rparr>) = record_ok r"
  "record_ok (r\<lparr>mr_rclass := c, mr_ttl := l\<rparr>) = record_ok r"
  by (simp_all add: record_ok_def)

lemma add_txt_loop_built:
  assumes "data \<le> length buf" "\<forall>r \<in> set rs. mr_name r \<noteq> []" "\<forall>x. rd = Some x \<longrightarrow> 2 \<le> x \<and> x \<le> data"
  shows "\<exists>st rd'. add_txt_loop (length buf) rclass ttl rs buf data table rd = Some (st, rd') \<and>
           built (length buf) data (Some st) \<and>
           (\<forall>x y. rd' = Some x \<longrightarrow> fst (snd st) = Some y \<longrightarrow> 2 \<le> x \<and> x \<le> y)"
  using assms
proof (induction rs arbitrary: buf data table rd)
  case Nil
  then show ?case by (auto intro: builtI)
next
  case (Cons r rs)
  show ?case
  proof (cases "\<exists>k v. mr_data r = TxtData k v")
    case False
    then show ?thesis using Cons.IH [of data buf rd table] Cons.prems
      by (cases "mr_data r") simp_all
  next
    case True
    then obtain k v where kv: "mr_data r = TxtData k v" by blast
    let ?rec = "mdns_record_update_rclass_ttl rclass ttl r"
    let ?n = "length buf"
    obtain b d t where h: "(case rd of Some _ \<Rightarrow> Some ((buf, Some data, table), rd)
        | None \<Rightarrow> do { (buf, d, table) \<leftarrow> mdns_answer_add_record_header ?n ?rec buf data table;
                      Some ((buf, d, table), d) }) = Some ((b, d, t), if rd = None then d else rd)"
      and lb: "length b = ?n" and d: "\<forall>x. d = Some x \<longrightarrow> data \<le> x \<and> x \<le> ?n"
      and d2: "\<forall>x. d = Some x \<longrightarrow> rd = None \<longrightarrow> 2 \<le> x"
    proof (cases rd)
      case None
      obtain b d t where "mdns_answer_add_record_header ?n ?rec buf data table = Some (b, d, t)"
          "length b = ?n" "\<forall>x. d = Some x \<longrightarrow> data + 10 \<le> x \<and> x \<le> ?n"
        using add_header_built [of data buf ?rec table] Cons.prems(1,2) by (auto simp: built_def)
      then show ?thesis by (intro that [of b d t]) (force simp: None)+
    next
      case (Some x)
      then show ?thesis using Cons.prems by (intro that [of buf "Some data" table]) auto
    qed
    show ?thesis
    proof (cases d)
      case None
      then show ?thesis using h lb by (auto simp: kv intro: builtI)
    next
      case (Some x)
      let ?len = "length k + length v + 1"
      let ?rd = "if rd = None then d else rd"
      show ?thesis
      proof (cases "?n - x \<le> ?len \<or> 0x3FFF < ?len")
        case True
        then show ?thesis using h lb Some by (auto simp: kv intro!: builtI)
      next
        case False
        let ?b1 = "mem_splice b x [char_of ?len]"
        let ?b2 = "mem_splice ?b1 (x + 1) (k @ ''='' @ v)"
        have l1: "length ?b1 = ?n" using False lb by auto
        have l2: "length ?b2 = ?n" using False l1 by auto
        have "?rd = Some y \<Longrightarrow> 2 \<le> y \<and> y \<le> x" for y
          using d d2 Some Cons.prems(3) by (auto split: if_splits)
        then obtain st rd' where IH: "add_txt_loop ?n rclass ttl rs ?b2 (x + 1 + ?len) t ?rd = Some (st, rd')"
            "built ?n (x + 1 + ?len) (Some st)"
            "\<forall>x y. rd' = Some x \<longrightarrow> fst (snd st) = Some y \<longrightarrow> 2 \<le> x \<and> x \<le> y"
          using Cons.IH [of "x + 1 + ?len" ?b2 ?rd t] Cons.prems(2) False l2 d Some by fastforce
        have "wr8 b x ?len = Some ?b1" "wr_mem ?b1 (x + 1) (k @ ''='' @ v) = Some ?b2"
          using False lb l1 by (auto simp: wr8_def)
        then have "add_txt_loop ?n rclass ttl (r # rs) buf data table rd = Some (st, rd')"
          using h Some False IH(1) by (simp add: kv)
        then show ?thesis using IH(2,3) d Some by (auto elim!: built_mono)
      qed
    qed
  qed
qed

lemma add_txt_record_built:
  assumes "built n 0 (Some st)" "\<forall>r \<in> set rs. mr_name r \<noteq> []"
  shows "built n 0 (mdns_answer_add_txt_record n rs rclass ttl st)"
proof (cases st)
  case (fields buf d table)
  with assms(1) have len: "length buf = n" and d: "\<And>x. d = Some x \<Longrightarrow> x \<le> n" by (auto simp: built_def)
  show ?thesis
  proof (cases d)
    case None
    then show ?thesis using assms(1) by (simp add: fields mdns_answer_add_txt_record_def)
  next
    case (Some data)
    obtain b d2 t rd where l: "add_txt_loop n rclass ttl rs buf data table None = Some ((b, d2, t), rd)"
        "built n data (Some (b, d2, t))" "\<And>x y. rd = Some x \<Longrightarrow> d2 = Some y \<Longrightarrow> 2 \<le> x \<and> x \<le> y"
      using add_txt_loop_built [of data buf rs None rclass ttl table] assms(2) d [OF Some] by (auto simp: len)
    then show ?thesis
      by (cases d2; cases rd) (force simp: fields Some mdns_answer_add_txt_record_def built_def intro!: builtI)+
  qed
qed

lemma put_header_Some:
  "12 \<le> length buf \<Longrightarrow> \<exists>b. put_header buf a1 a2 a3 a4 a5 a6 = Some b \<and> length b = length buf"
  by (simp add: put_header_def)

lemma answer_unicast_safe:
  assumes "name \<noteq> []" "record_ok answer" "\<forall>r \<in> set additional. record_ok r"
  shows "\<exists>ok b out. mdns_query_answer_unicast sk addr buf qid rtype name answer [] additional = Some (ok, b, out) \<and>
           length b = length buf"
proof (cases "length buf < 12 + 32 + 4")
  case True
  then show ?thesis by (auto simp: mdns_query_answer_unicast_def)
next
  case False
  then have le: "12 \<le> length buf" by simp
  let ?n = "length buf"
  let ?ok = "\<lambda>st. built ?n 0 (Some st)"
  obtain b where b: "put_header buf qid 0x8400 1 1 (mdns_answer_get_record_count [])
      (mdns_answer_get_record_count additional) = Some b" "length b = ?n"
    using put_header_Some [OF le] by blast
  obtain st1 where s1: "mdns_answer_add_question_unicast ?n rtype name b 12 (Some new_string_table) = Some st1" "?ok st1"
    using built_mono [OF add_question_built [of 12 b name rtype "Some new_string_table"], of 0] assms(1) False b(2)
    by (auto simp: built_def)
  obtain st2 where s2: "mdns_answer_add_record ?n (answer\<lparr>mr_rclass := MDNS_CLASS_IN, mr_ttl := 10\<rparr>) st1 = Some st2" "?ok st2"
    using add_record_built [OF s1(2), of "answer\<lparr>mr_rclass := MDNS_CLASS_IN, mr_ttl := 10\<rparr>"] assms(2)
    by (auto simp: built_def)
  obtain st3 where s3: "mdns_answer_add_txt_record ?n [] MDNS_CLASS_IN 10 st2 = Some st3" "?ok st3"
    using add_txt_record_built [OF s2(2), of "[]" MDNS_CLASS_IN 10] by (auto simp: built_def)
  obtain st4 where s4: "add_records ?n (unicast_prep MDNS_CLASS_IN 10) additional st3 = Some st4" "?ok st4"
    using add_records_built [OF s3(2), of additional "unicast_prep MDNS_CLASS_IN 10"] assms(3) by (auto simp: built_def)
  obtain b5 d5 t5 where s5: "mdns_answer_add_txt_record ?n additional MDNS_CLASS_IN 10 st4 = Some (b5, d5, t5)" "length b5 = ?n"
    using add_txt_record_built [OF s4(2), of additional MDNS_CLASS_IN 10] assms(3)
    by (auto simp: built_def record_ok_def)
  show ?thesis
    using False b s1(1) s2(1) s3(1) s4(1) s5
    by (auto simp: mdns_query_answer_unicast_def Let_def split: option.splits prod.splits)
qed

lemma answer_multicast_safe:
  assumes "record_ok answer" "\<forall>r \<in> set additional. record_ok r"
  shows "\<exists>ok b out. mdns_answer_multicast_rclass_ttl rclass ttl sk buf answer [] additional = Some (ok, b, out) \<and>
           length b = length buf"
proof (cases "length buf < 12 + 32 + 4")
  case True
  then show ?thesis by (auto simp: mdns_answer_multicast_rclass_ttl_def)
next
  case False
  then have le: "12 \<le> length buf" by simp
  let ?n = "length buf"
  let ?prep = "mdns_record_update_rclass_ttl rclass ttl"
  let ?ok = "\<lambda>st. built ?n 0 (Some st)"
  obtain b where b: "put_header buf 0 0x8400 0 1 (mdns_answer_get_record_count [])
      (mdns_answer_get_record_count additional) = Some b" "length b = ?n"
    using put_header_Some [OF le] by blast
  have s1: "?ok (b, Some 12, Some new_string_table)" using b(2) False by (simp add: built_def)
  obtain st2 where s2: "mdns_answer_add_record ?n (?prep answer) (b, Some 12, Some new_string_table) = Some st2" "?ok st2"
    using add_record_built [OF s1, of "?prep answer"] assms(1) by (auto simp: built_def)
  obtain st3 where s3: "mdns_answer_add_txt_record ?n [] rclass ttl st2 = Some st3" "?ok st3"
    using add_txt_record_built [OF s2(2), of "[]" rclass ttl] by (auto simp: built_def)
  obtain st4 where s4: "add_records ?n ?prep additional st3 = Some st4" "?ok st4"
    using add_records_built [OF s3(2), of additional ?prep] assms(2) by (auto simp: built_def)
  obtain b5 d5 t5 where s5: "mdns_answer_add_txt_record ?n additional rclass ttl st4 = Some (b5, d5, t5)" "length b5 = ?n"
    using add_txt_record_built [OF s4(2), of additional rclass ttl] assms(2)
    by (auto simp: built_def record_ok_def)
  show ?thesis
    using False b s2(1) s3(1) s4(1) s5
    by (auto simp: mdns_answer_multicast_rclass_ttl_def Let_def split: option.splits prod.splits)
qed

section \<open>Receiving\<close>

text \<open>What the parsers need of a callback: it keeps its invariant and reads only inside the datagram.\<close>

locale mdns_reader =
  fixes cb :: "'a mdns_callback" and ok :: "'a \<Rightarrow> bool"
  assumes cb_safe: "sz \<le> length buf \<Longrightarrow> ok a \<Longrightarrow> \<exists>stop a'. cb buf sz ev a = Some (stop, a') \<and> ok a'"
begin

lemma records_loop_safe:
  assumes "sz \<le> length buf"
  shows "ok a \<Longrightarrow> \<exists>n' offset' a'. records_loop cb buf sz entry qid n offset parsed a = Some (n', offset', a') \<and> ok a'"
proof (induction n arbitrary: offset parsed a)
  case (Suc n)
  obtain r where r: "mdns_string_skip buf sz offset = Some r" using mdns_string_skip_safe [OF assms] by blast
  let ?o = "case r of Some e \<Rightarrow> e | None \<Rightarrow> offset"
  show ?case
  proof (cases "sz < ?o + 10")
    case True
    then show ?thesis using Suc.prems by (simp add: r)
  next
    case False
    then have le: "?o + 10 \<le> length buf" using assms by simp
    obtain w1 w2 w3 w4 where w: "mdns_ntohs buf ?o = Some w1" "mdns_ntohs buf (?o + 2) = Some w2"
        "mdns_ntohl buf (?o + 4) = Some w3" "mdns_ntohs buf (?o + 8) = Some w4"
      using mdns_ntohs_safe [of ?o buf] mdns_ntohs_safe [of "?o + 2" buf] mdns_ntohl_safe [of "?o + 4" buf]
        mdns_ntohs_safe [of "?o + 8" buf] le by force
    let ?ev = "\<lparr>me_entry = entry, me_query_id = qid, me_rtype = w1, me_rclass = w2, me_ttl = w3,
      me_name_offset = offset, me_name_length = ?o - offset, me_record_offset = ?o + 10, me_record_length = unat w4\<rparr>"
    obtain stop a' where cb: "cb buf sz ?ev a = Some (stop, a')" "ok a'" using cb_safe [OF assms Suc.prems] by blast
    show ?thesis
      using False r w cb Suc.IH [of a'] Suc.IH [of a] Suc.prems
      by (simp add: Let_def)
  qed
qed simp

lemma parse_sections_safe:
  assumes "sz \<le> length buf" "ok a"
  shows "\<exists>tot' a'. parse_sections cb buf sz qid n1 n2 n3 offset tot a = Some (tot', a') \<and> ok a'"
proof -
  note loop = records_loop_safe [OF assms(1)]
  obtain p1 o1 a1 where 1: "records_loop cb buf sz EntryAnswer qid n1 offset 0 a = Some (p1, o1, a1)" "ok a1"
    using loop [OF assms(2)] by blast
  obtain p2 o2 a2 where 2: "records_loop cb buf sz EntryAuthority qid n2 o1 0 a1 = Some (p2, o2, a2)" "ok a2"
    using loop [OF 1(2)] by blast
  obtain p3 o3 a3 where 3: "records_loop cb buf sz EntryAdditional qid n3 o2 0 a2 = Some (p3, o3, a3)" "ok a3"
    using loop [OF 2(2)] by blast
  show ?thesis using 1 2 3 by (simp add: parse_sections_def mdns_records_parse_def Let_def)
qed

lemma listen_questions_safe:
  assumes "sz + 4 \<le> length buf"
  shows "ok a \<Longrightarrow> \<exists>stop data' tot' a'.
           listen_questions cb buf sz qid flags n data tot a = Some (stop, data', tot', a') \<and> ok a'"
proof (induction n arbitrary: data tot a)
  case (Suc n)
  have sz: "sz \<le> length buf" using assms by simp
  obtain e where e: "mdns_string_equal buf sz data mdns_services_query (length mdns_services_query) 12 = Some e"
      "\<forall>l r. e = Some (l, r) \<longrightarrow> l \<le> sz"
    using mdns_string_equal_safe [OF sz order_refl] by blast
  obtain k where k: "mdns_string_skip buf sz data = Some k" "\<forall>x. k = Some x \<longrightarrow> x \<le> sz"
    using mdns_string_skip_safe [OF sz] by blast
  define s where "s = (case e of Some (ofs, _) \<Rightarrow> Some (True, ofs) | None \<Rightarrow> map_option (\<lambda>ofs. (False, ofs)) k)"
  have s: "(case e of Some (ofs, _) \<Rightarrow> Some (Some (True, ofs))
      | None \<Rightarrow> do { k \<leftarrow> mdns_string_skip buf sz data; Some (map_option (\<lambda>ofs. (False, ofs)) k) }) = Some s"
    by (auto simp: s_def k split: option.splits)
  show ?case
  proof (cases s)
    case None
    then show ?thesis using Suc.prems s by (auto simp: e)
  next
    case (Some p)
    then obtain sd x where p: "s = Some (sd, x)" by (cases p) auto
    then have x: "x + 4 \<le> length buf" using e(2) k(2) assms by (fastforce simp: s_def split: option.splits)
    obtain w1 w2 where w: "mdns_ntohs buf x = Some w1" "mdns_ntohs buf (x + 2) = Some w2"
      using mdns_ntohs_safe [of x buf] mdns_ntohs_safe [of "x + 2" buf] x by force
    let ?ev = "\<lparr>me_entry = EntryQuestion, me_query_id = qid, me_rtype = w1, me_rclass = w2, me_ttl = 0,
      me_name_offset = data, me_name_length = x - data, me_record_offset = data, me_record_length = x - data\<rparr>"
    obtain stop a' where cb: "cb buf sz ?ev a = Some (stop, a')" "ok a'" using cb_safe [OF sz Suc.prems] by blast
    show ?thesis
      using s p w cb Suc.IH [of a'] Suc.IH [of a] Suc.prems
      by (auto simp: e Let_def)
  qed
qed auto

lemma skip_questions_safe:
  "sz \<le> length buf \<Longrightarrow> \<exists>r. skip_questions buf sz n data = Some r"
proof (induction n arbitrary: data)
  case (Suc n)
  then obtain k where "mdns_string_skip buf sz data = Some k" using mdns_string_skip_safe by blast
  with Suc show ?case by (simp split: option.splits)
qed simp

lemma recv_into_Some:
  "recv_into buf pkt = Some (b, sz) \<Longrightarrow>
     length b = length buf \<and> sz \<le> length buf \<and> (\<exists>p. pkt = Some p \<and> sz \<le> length p)"
  by (auto simp: recv_into_def Let_def split: option.splits if_splits)

lemma header_safe:
  assumes "12 \<le> length buf"
  shows "\<exists>h1 h2 h3 h4 h5 h6. mdns_ntohs buf 0 = Some h1 \<and> mdns_ntohs buf 2 = Some h2 \<and>
    mdns_ntohs buf 4 = Some h3 \<and> mdns_ntohs buf 6 = Some h4 \<and> mdns_ntohs buf 8 = Some h5 \<and> mdns_ntohs buf 10 = Some h6"
proof -
  have "\<exists>h. mdns_ntohs buf i = Some h" if "i \<le> 10" for i
    using assms that by (intro mdns_ntohs_safe) simp
  from this [of 0] this [of 2] this [of 4] this [of 6] this [of 8] this [of 10] show ?thesis by auto
qed

lemma socket_listen_safe:
  assumes "12 \<le> length buf" "\<forall>p. pkt = Some p \<longrightarrow> length p + 4 \<le> length buf" "ok a"
  shows "\<exists>n b a'. mdns_socket_listen cb buf pkt a = Some (n, b, a') \<and> length b = length buf \<and> ok a'"
proof (cases "recv_into buf pkt")
  case None
  then show ?thesis using assms by (simp add: mdns_socket_listen_def)
next
  case (Some bs)
  then obtain b sz where bs: "recv_into buf pkt = Some (b, sz)" by (cases bs) auto
  then have len: "length b = length buf" "sz + 4 \<le> length b" using recv_into_Some [OF bs] assms(2) by auto
  obtain h1 h2 h3 h4 h5 h6 where h: "mdns_ntohs b 0 = Some h1" "mdns_ntohs b 2 = Some h2"
    "mdns_ntohs b 4 = Some h3" "mdns_ntohs b 6 = Some h4" "mdns_ntohs b 8 = Some h5" "mdns_ntohs b 10 = Some h6"
    using header_safe [of b] assms(1) len by auto
  obtain stop d n a' where q: "listen_questions cb b sz h1 h2 (unat h3) 12 0 a = Some (stop, d, n, a')" "ok a'"
    using listen_questions_safe [OF len(2) assms(3)] by blast
  obtain n' a'' where s: "parse_sections cb b sz h1 (unat h4) (unat h5) (unat h6) d n a' = Some (n', a'')" "ok a''"
    using parse_sections_safe [OF _ q(2), of sz b] len(2) by (meson add_leD1)
  show ?thesis using bs h q s len by (simp add: mdns_socket_listen_def)
qed

lemma query_recv_safe:
  assumes "12 \<le> length buf" "ok a"
  shows "\<exists>n b a'. mdns_query_recv cb only buf pkt a = Some (n, b, a') \<and> length b = length buf \<and> ok a'"
proof (cases "recv_into buf pkt")
  case None
  then show ?thesis using assms by (simp add: mdns_query_recv_def)
next
  case (Some bs)
  then obtain b sz where bs: "recv_into buf pkt = Some (b, sz)" by (cases bs) auto
  then have len: "length b = length buf" "sz \<le> length b" using recv_into_Some [OF bs] by auto
  obtain h1 h2 h3 h4 h5 h6 where h: "mdns_ntohs b 0 = Some h1" "mdns_ntohs b 2 = Some h2"
    "mdns_ntohs b 4 = Some h3" "mdns_ntohs b 6 = Some h4" "mdns_ntohs b 8 = Some h5" "mdns_ntohs b 10 = Some h6"
    using header_safe [of b] assms(1) len by auto
  obtain q where q: "skip_questions b sz (unat h3) 12 = Some q" using skip_questions_safe [OF len(2)] by blast
  show ?thesis
  proof (cases q)
    case None
    then show ?thesis using bs h q len(1) assms(2) by (simp add: mdns_query_recv_def)
  next
    case (Some o1)
    obtain n' a'' where "parse_sections cb b sz h1 (unat h4) (unat h5) (unat h6) o1 0 a = Some (n', a'')" "ok a''"
      using parse_sections_safe [OF len(2) assms(2)] by blast
    then show ?thesis using bs h q len(1) assms(2) Some by (simp add: mdns_query_recv_def)
  qed
qed

end

section \<open>The two callbacks\<close>

lemma txt_loop_safe:
  assumes "ends \<le> length buf"
  shows "\<exists>rs. txt_loop buf ends capacity offset records = Some rs"
proof (induction "ends - offset" arbitrary: offset records rule: less_induct)
  case less
  show ?case
  proof (cases "offset < ends \<and> length records < capacity \<and> of_char (buf ! offset) < ends - offset")
    case True
    let ?n = "of_char (buf ! offset) :: nat"
    have "ends - (offset + ?n + 1) < ends - offset" using True by auto
    note IH = less [OF this]
    have "rd8 buf offset = Some ?n"
      "rd_mem buf (offset + 1) ?n = Some (take ?n (drop (offset + 1) buf))" using True assms by auto
    then show ?thesis using True IH by (subst txt_loop.simps) (simp add: Let_def)
  next
    case False
    then show ?thesis using assms by (subst txt_loop.simps) auto
  qed
qed

lemma discovery_callback_safe:
  assumes "sz \<le> length buf"
  shows "\<exists>stop st'. discovery_callback from_addr buf sz ev st = Some (stop, st')"
proof -
  obtain s e where s: "mdns_string_extract buf sz (me_name_offset ev) 256 = Some (s, e)"
    using mdns_string_extract_safe [OF assms] by blast
  obtain a where a: "mdns_record_parse_a buf sz (me_record_offset ev) (me_record_length ev) = Some a"
    using mdns_ntohl_safe [of "me_record_offset ev" buf] assms
    by (cases "me_record_offset ev + me_record_length ev \<le> sz \<and> me_record_length ev = 4")
       (auto simp: mdns_record_parse_a_def)
  obtain rs where "mdns_record_parse_txt buf sz (me_record_offset ev) (me_record_length ev) 16 = Some rs"
    using txt_loop_safe [of _ buf] assms by (force simp: mdns_record_parse_txt_def Let_def)
  then show ?thesis using s a by (auto simp: discovery_callback_def)
qed

interpretation discovery: mdns_reader "discovery_callback from_addr" "\<lambda>_. True" for from_addr
  by unfold_locales (simp add: discovery_callback_safe)

text \<open>The names are not empty and the array of records is large enough.\<close>

definition announced_ok :: "announced_info \<Rightarrow> bool" where
  "announced_ok self \<longleftrightarrow> ai_service_type self \<noteq> [] \<and> ai_service_instance self \<noteq> [] \<and> ai_hostname self \<noteq> [] \<and>
     length (ai_addresses_v4 self) + length (ai_txt_records self) \<le> 63"

lemma make_record_ok:
  "announced_ok self \<Longrightarrow> record_ok (make_record self kind)"
  by (cases kind) (auto simp: announced_ok_def record_ok_def make_record_def)

lemma write_records_safe:
  assumes "name \<noteq> []" "record_ok answer" "\<forall>r \<in> set additional. record_ok r"
  shows "\<exists>stop st'. write_records sk from_addr qid rtype rclass name answer additional st = Some (stop, st') \<and>
           length (out_buf st') = length (out_buf st)"
proof -
  obtain ok b out where 1: "mdns_query_answer_unicast sk from_addr (out_buf st) qid rtype name answer [] additional = Some (ok, b, out)"
      "length b = length (out_buf st)" using answer_unicast_safe [OF assms] by blast
  obtain ok2 b2 out2 where 2: "mdns_query_answer_multicast sk (out_buf st) answer [] additional = Some (ok2, b2, out2)"
      "length b2 = length (out_buf st)"
    using answer_multicast_safe [OF assms(2,3)] unfolding mdns_query_answer_multicast_def by blast
  show ?thesis using 1 2 by (simp add: write_records_def)
qed

lemma service_callback_safe:
  assumes "sz \<le> length buf" "announced_ok self"
  shows "\<exists>stop st'. service_callback self sk from_addr buf sz ev st = Some (stop, st') \<and>
           length (out_buf st') = length (out_buf st)"
proof -
  obtain s e where s: "mdns_string_extract buf sz (me_name_offset ev) 256 = Some (s, e)"
    using mdns_string_extract_safe [OF assms(1)] by blast
  have fill: "length rs \<le> 64 \<Longrightarrow> fill_additional rs = Some rs" for rs by (simp add: fill_additional_def)
  have rs: "\<forall>r \<in> set (make_record self SrvRecord # a_records self @ txt_records self). record_ok r"
    using make_record_ok [OF assms(2)] by (auto simp: a_records_def txt_records_def)
  have len: "length (make_record self SrvRecord # a_records self @ txt_records self) \<le> 64"
    using assms(2) by (simp add: announced_ok_def a_records_def txt_records_def)
  have w: "\<exists>stop st'. write_records sk from_addr (me_query_id ev) (me_rtype ev) (me_rclass ev) s (make_record self k) xs st
             = Some (stop, st') \<and> length (out_buf st') = length (out_buf st)"
    if "s \<noteq> []" "\<forall>r \<in> set xs. record_ok r" for k xs
    using that by (intro write_records_safe make_record_ok [OF assms(2)]) auto
  show ?thesis
  proof (cases "s = []")
    case True
    then show ?thesis using assms(2) by (auto simp: service_callback_def s announced_ok_def)
  next
    case False
    have fills: "fill_additional (make_record self SrvRecord # a_records self @ txt_records self) =
        Some (make_record self SrvRecord # a_records self @ txt_records self)"
      "fill_additional (a_records self @ txt_records self) = Some (a_records self @ txt_records self)"
      "fill_additional (txt_records self) = Some (txt_records self)"
      using len by (auto intro: fill)
    obtain p1 t1 p2 t2 p3 t3 where
      "write_records sk from_addr (me_query_id ev) (me_rtype ev) (me_rclass ev) s (make_record self PtrRecord)
         (make_record self SrvRecord # a_records self @ txt_records self) st = Some (p1, t1)" "length (out_buf t1) = length (out_buf st)"
      "write_records sk from_addr (me_query_id ev) (me_rtype ev) (me_rclass ev) s (make_record self SrvRecord)
         (a_records self @ txt_records self) st = Some (p2, t2)" "length (out_buf t2) = length (out_buf st)"
      "write_records sk from_addr (me_query_id ev) (me_rtype ev) (me_rclass ev) s
         (make_record self (ARecord (Some (hd (ai_addresses_v4 self))))) (txt_records self) st = Some (p3, t3)"
      "length (out_buf t3) = length (out_buf st)"
      using w [OF False, of "make_record self SrvRecord # a_records self @ txt_records self" PtrRecord] rs
        w [OF False, of "a_records self @ txt_records self" SrvRecord]
        w [OF False, of "txt_records self" "ARecord (Some (hd (ai_addresses_v4 self)))"] by auto
    then show ?thesis by (auto simp: service_callback_def s fills Let_def)
  qed
qed

interpretation service: mdns_reader "service_callback self sk from_addr"
    "\<lambda>st. announced_ok self \<and> length (out_buf st) = n" for self sk from_addr n
  by unfold_locales (use service_callback_safe in blast)

end
