(* ===== verification/Mdns_Roundtrip.thy ===== *)
theory Mdns_Roundtrip
  imports Mdns_Safety "HOL-Library.Sublist"
begin

text \<open>
  Names in a buffer: the relation between the bytes at a position and the labels they stand for,
  with compression references, that the readers follow and the writer establishes.
\<close>

section \<open>Labels\<close>

definition label_ok :: "string \<Rightarrow> bool" where
  "label_ok l \<longleftrightarrow> l \<noteq> [] \<and> length l \<le> 63 \<and> CHR ''.'' \<notin> set l"

text \<open>The text of a name: every label is followed by a dot.\<close>

definition dotted :: "string list \<Rightarrow> string" where
  "dotted ls = concat (map (\<lambda>l. l @ ''.'') ls)"

lemma dotted_simps [simp]: "dotted [] = []" "dotted (l # ls) = l @ CHR ''.'' # dotted ls"
  by (simp_all add: dotted_def)

lemma dotted_append [simp]: "dotted (ls @ ms) = dotted ls @ dotted ms"
  by (simp add: dotted_def)

section \<open>Names in a buffer\<close>

text \<open>
  \<open>name_in P buf i ls e\<close>: at \<open>i\<close> stands a name with the labels \<open>ls\<close> that ends before \<open>e\<close>. Its bytes
  lie at positions in \<open>P\<close>. A reference leads to a label, not to another reference.
\<close>

inductive name_in :: "nat set \<Rightarrow> string \<Rightarrow> nat \<Rightarrow> string list \<Rightarrow> nat \<Rightarrow> bool" for P buf where
  name_end: "i \<in> P \<Longrightarrow> buf ! i = CHR 0x00 \<Longrightarrow> name_in P buf i [] (Suc i)"
| name_label: "label_ok l \<Longrightarrow> {i..i + length l} \<subseteq> P \<Longrightarrow> buf ! i = char_of (length l) \<Longrightarrow>
    take (length l) (drop (Suc i) buf) = l \<Longrightarrow> name_in P buf (Suc i + length l) ls e \<Longrightarrow>
    name_in P buf i (l # ls) e"
| name_ref: "i \<in> P \<Longrightarrow> Suc i \<in> P \<Longrightarrow> t < 0x4000 \<Longrightarrow>
    buf ! i = char_of (0xC0 + t div 256) \<Longrightarrow> buf ! Suc i = char_of t \<Longrightarrow>
    label_ok l \<Longrightarrow> {t..t + length l} \<subseteq> P \<Longrightarrow> buf ! t = char_of (length l) \<Longrightarrow>
    take (length l) (drop (Suc t) buf) = l \<Longrightarrow> name_in P buf (Suc t + length l) ls e \<Longrightarrow>
    name_in P buf i (l # ls) (i + 2)"

inductive_cases name_in_NilE: "name_in P buf i [] e"
inductive_cases name_in_ConsE: "name_in P buf i (l # ls) e"

text \<open>The frame: only the bytes in \<open>P\<close> matter.\<close>

lemma take_drop_cong:
  assumes "length buf' = length buf" "\<And>j. i \<le> j \<Longrightarrow> j < i + n \<Longrightarrow> buf' ! j = buf ! j"
  shows "take n (drop i buf') = take n (drop i buf)"
  using assms by (intro nth_equalityI) auto

lemma name_in_frame:
  assumes "name_in P buf i ls e" "length buf' = length buf" "\<And>j. j \<in> P \<Longrightarrow> buf' ! j = buf ! j" "P \<subseteq> Q"
  shows "name_in Q buf' i ls e"
  using assms(1)
proof induction
  case (name_end i)
  then show ?case using assms(3,4) by (auto intro: name_in.name_end)
next
  case (name_label l i ls e)
  have sub: "j \<in> P" if "i \<le> j" "j \<le> i + length l" for j using name_label.hyps(2) that by auto
  then have "take (length l) (drop (Suc i) buf') = take (length l) (drop (Suc i) buf)"
    using assms(2,3) by (intro take_drop_cong) auto
  then show ?case using name_label assms(3,4) sub [of i] by (intro name_in.name_label) auto
next
  case (name_ref i t l ls e)
  have sub: "j \<in> P" if "t \<le> j" "j \<le> t + length l" for j using name_ref.hyps(7) that by auto
  then have "take (length l) (drop (Suc t) buf') = take (length l) (drop (Suc t) buf)"
    using assms(2,3) by (intro take_drop_cong) auto
  then show ?case using name_ref assms(3,4) sub [of t] by (intro name_in.name_ref [where t = t and e = e]) auto
qed

lemma name_in_label_ok: "name_in P buf i ls e \<Longrightarrow> \<forall>l \<in> set ls. label_ok l"
  by (induction rule: name_in.induct) auto

section \<open>Bits\<close>

lemma is_string_ref_iff: "v < 256 \<Longrightarrow> mdns_is_string_ref v \<longleftrightarrow> 192 \<le> v"
proof -
  assume v: "v < 256"
  have "v AND push_bit 6 m = push_bit 6 (drop_bit 6 v AND m)" for m
    by (rule bit_eqI) (auto simp: bit_and_iff bit_push_bit_iff bit_drop_bit_eq)
  from this [of 3] have "v AND 0xC0 = push_bit 6 (drop_bit 6 v AND 3)"
    by (simp add: push_bit_eq_mult)
  also have "drop_bit 6 v AND 3 = take_bit 2 (drop_bit 6 v)"
    by (simp add: take_bit_eq_mask mask_eq_exp_minus_1)
  also have "\<dots> = v div 64" using v by (simp add: take_bit_eq_mod drop_bit_eq_div)
  finally have "v AND 0xC0 = v div 64 * 64" by (simp add: push_bit_eq_mult)
  then show ?thesis using v unfolding mdns_is_string_ref_def by simp linarith
qed

lemma of_char_of_nat: "n < 256 \<Longrightarrow> (of_char (char_of n :: char) :: nat) = n"
  by (simp add: of_char_of)

lemma and_3FFF: "w AND 0x3FFF = take_bit 14 (w :: u16)"
  by (simp add: take_bit_eq_mask mask_eq_exp_minus_1)

lemma unat_of_nat16: "n < 65536 \<Longrightarrow> unat (of_nat n :: u16) = n"
  by (simp add: unat_of_nat take_bit_nat_eq_self)

lemma ref_value:
  "t < 0x4000 \<Longrightarrow> unat ((of_nat ((0xC0 + t div 256) * 256 + t mod 256) :: u16) AND 0x3FFF) = t"
proof -
  assume t: "t < 0x4000"
  have eq: "(0xC0 + t div 256) * 256 + t mod 256 = 0xC000 + t"
    by (simp add: algebra_simps)
  have "unat (of_nat (0xC000 + t) :: u16) = 0xC000 + t" using t by (intro unat_of_nat16) simp
  moreover have "unat (take_bit 14 w) = unat w mod 0x4000" for w :: u16
    unfolding unsigned_take_bit_eq by (simp add: take_bit_eq_mod)
  ultimately have "unat (take_bit 14 (of_nat (0xC000 + t) :: u16)) = (0xC000 + t) mod 0x4000"
    by simp
  moreover have "(3 * 0x4000 + t) mod 0x4000 = t" using t by (subst mod_mult_self3) simp
  ultimately show ?thesis unfolding eq and_3FFF by simp
qed

section \<open>Reading a name\<close>

lemma label_byte:
  assumes "label_ok l" "buf ! i = char_of (length l)"
  shows "(of_char (buf ! i) :: nat) = length l" "of_char (buf ! i) \<noteq> (0 :: nat)" "\<not> mdns_is_string_ref (of_char (buf ! i))"
proof -
  show 1: "(of_char (buf ! i) :: nat) = length l" using assms by (simp add: label_ok_def of_char_of_nat)
  then show "of_char (buf ! i) \<noteq> (0 :: nat)" using assms by (simp add: label_ok_def)
  show "\<not> mdns_is_string_ref (of_char (buf ! i))" using 1 assms by (simp add: label_ok_def is_string_ref_iff)
qed

lemma subset_lessThan_Suc: "{t..t + n} \<subseteq> P \<Longrightarrow> P \<subseteq> {..<sz} \<Longrightarrow> t + n < (sz :: nat)"
  by (meson atLeastAtMost_iff le_add1 lessThan_iff order_refl subsetD)

lemma next_substring_end:
  assumes "name_in P buf i [] e" "P \<subseteq> {..<sz}" "sz \<le> length buf"
  shows "mdns_get_next_substring buf sz i = Some \<lparr>sp_offset = Some i, sp_length = 0, sp_ref = False\<rparr>" "e = Suc i"
  using assms by (auto elim!: name_in_NilE simp: mdns_get_next_substring_def)

text \<open>The position of the rest is behind the label, wherever that stands.\<close>

lemma next_substring_label:
  assumes "name_in P buf i (l # ls) e" "P \<subseteq> {..<sz}" "sz \<le> length buf"
  shows "\<exists>q ref e'. mdns_get_next_substring buf sz i = Some \<lparr>sp_offset = Some q, sp_length = length l, sp_ref = ref\<rparr> \<and>
           q + length l \<le> sz \<and> take (length l) (drop q buf) = l \<and> name_in P buf (q + length l) ls e' \<and>
           e = (if ref then i + 2 else e') \<and> (ref \<or> q = Suc i)"
  using assms(1)
proof cases
  case name_label
  then have l: "label_ok l" "{i..i + length l} \<subseteq> P" "buf ! i = char_of (length l)"
    "take (length l) (drop (Suc i) buf) = l" "name_in P buf (Suc i + length l) ls e"
    by simp_all
  have sz: "i + length l < sz" using subset_lessThan_Suc [OF l(2) assms(2)] .
  note b = label_byte [OF l(1,3)]
  have "follow_refs buf sz i False 0 = Some (Some i, False)"
    using sz assms(3) b by (subst follow_refs.simps) simp
  then have "mdns_get_next_substring buf sz i =
      Some \<lparr>sp_offset = Some (Suc i), sp_length = length l, sp_ref = False\<rparr>"
    using sz assms(3) b by (simp add: mdns_get_next_substring_def)
  then show ?thesis using l(4,5) sz by auto
next
  case (name_ref t e')
  then have r: "e = i + 2" "i \<in> P" "Suc i \<in> P" "t < 0x4000" "buf ! i = char_of (0xC0 + t div 256)" "buf ! Suc i = char_of t"
    and l: "label_ok l" "{t..t + length l} \<subseteq> P" "buf ! t = char_of (length l)"
      "take (length l) (drop (Suc t) buf) = l" "name_in P buf (Suc t + length l) ls e'"
    by simp_all
  have sz: "t + length l < sz" "i < sz" "Suc i < sz" using subset_lessThan_Suc [OF l(2) assms(2)] r assms(2) by auto
  note b = label_byte [OF l(1,3)]
  have hi: "(of_char (buf ! i) :: nat) = 0xC0 + t div 256" using r by (simp add: of_char_of_nat)
  have lo: "(of_char (buf ! Suc i) :: nat) = t mod 256" using r by (simp add: of_char_of)
  have w: "mdns_ntohs buf i = Some (of_nat ((0xC0 + t div 256) * 256 + t mod 256))"
    using sz assms(3) hi lo by (simp add: mdns_ntohs_Some)
  have ref: "mdns_is_string_ref (of_char (buf ! i))" using r(4) unfolding hi by (subst is_string_ref_iff) auto
  have "follow_refs buf sz t True 1 = Some (Some t, True)"
    using sz assms(3) b by (subst follow_refs.simps) simp
  then have "follow_refs buf sz i False 0 = Some (Some t, True)"
    using sz assms(3) ref w ref_value [OF r(4)] by (subst follow_refs.simps) (simp add: Let_def)
  then have "mdns_get_next_substring buf sz i =
      Some \<lparr>sp_offset = Some (Suc t), sp_length = length l, sp_ref = True\<rparr>"
    using sz assms(3) b hi by (simp add: mdns_get_next_substring_def)
  then show ?thesis using l(4,5) sz r(1) by auto
qed

lemma next_substring_labelE:
  assumes "name_in P buf i (l # ls) e" "P \<subseteq> {..<sz}" "sz \<le> length buf"
  obtains q ref e' where "mdns_get_next_substring buf sz i = Some \<lparr>sp_offset = Some q, sp_length = length l, sp_ref = ref\<rparr>"
    "q + length l \<le> sz" "take (length l) (drop q buf) = l" "name_in P buf (q + length l) ls e'"
    "e = (if ref then i + 2 else e')"
  using next_substring_label [OF assms] by blast

lemma skip_loop_name:
  assumes "P \<subseteq> {..<sz}" "sz \<le> length buf"
  shows "name_in P buf i ls e \<Longrightarrow> length ls + counter \<le> 64 \<Longrightarrow> skip_loop buf sz i counter = Some (Some e)"
proof (induction ls arbitrary: i e counter)
  case Nil
  then show ?case using next_substring_end [OF Nil.prems(1) assms]
    by (subst skip_loop.simps) (simp add: MDNS_MAX_SUBSTRINGS_def)
next
  case (Cons l ls)
  then have "label_ok l" using name_in_label_ok by fastforce
  then have "l \<noteq> []" by (simp add: label_ok_def)
  obtain q ref e' where "mdns_get_next_substring buf sz i = Some \<lparr>sp_offset = Some q, sp_length = length l, sp_ref = ref\<rparr>"
      "name_in P buf (q + length l) ls e'" "e = (if ref then i + 2 else e')"
    by (rule next_substring_labelE [OF Cons.prems(1) assms])
  then show ?case using Cons.IH [of "q + length l" e' "Suc counter"] Cons.prems(2) \<open>l \<noteq> []\<close>
    by (subst skip_loop.simps) (simp add: MDNS_MAX_SUBSTRINGS_def)
qed

lemma mdns_string_skip_name:
  assumes "name_in P buf i ls e" "P \<subseteq> {..<sz}" "sz \<le> length buf" "length ls \<le> 64"
  shows "mdns_string_skip buf sz i = Some (Some e)"
  using skip_loop_name [OF assms(2,3,1), of 0] assms(4) by (simp add: mdns_string_skip_def)

lemma extract_loop_name:
  assumes "P \<subseteq> {..<sz}" "sz \<le> length buf"
  shows "name_in P buf i ls e \<Longrightarrow> length ls + counter \<le> 64 \<Longrightarrow> length (dst @ dotted ls) \<le> capacity \<Longrightarrow>
           extract_loop buf sz capacity i ends dst counter =
             Some (Some (dst @ dotted ls, case ends of Some x \<Rightarrow> x | None \<Rightarrow> e))"
proof (induction ls arbitrary: i e counter dst ends)
  case Nil
  then show ?case using next_substring_end [OF Nil.prems(1) assms]
    by (subst extract_loop.simps) (simp add: MDNS_MAX_SUBSTRINGS_def Let_def split: option.splits)
next
  case (Cons l ls)
  then have "label_ok l" using name_in_label_ok by fastforce
  then have "l \<noteq> []" by (simp add: label_ok_def)
  obtain q ref e' where s: "mdns_get_next_substring buf sz i = Some \<lparr>sp_offset = Some q, sp_length = length l, sp_ref = ref\<rparr>"
      "q + length l \<le> sz" "take (length l) (drop q buf) = l" "name_in P buf (q + length l) ls e'"
      "e = (if ref then i + 2 else e')"
    by (rule next_substring_labelE [OF Cons.prems(1) assms])
  have m: "min (length l) (capacity - length dst) = length l" using Cons.prems(3) by simp
  have rd: "rd_mem buf q (length l) = Some l" using s(2,3) assms(2) by simp
  have put: "put_label capacity dst l = dst @ l @ ''.''" using Cons.prems(3) by (simp add: put_label_def Let_def)
  have "extract_loop buf sz capacity (q + length l) ends' (dst @ l @ ''.'') (Suc counter) =
      Some (Some (dst @ dotted (l # ls), case ends' of Some x \<Rightarrow> x | None \<Rightarrow> e'))" for ends'
    using Cons.IH [OF s(4), of "Suc counter" "dst @ l @ ''.''" ends'] Cons.prems(2,3) by simp
  then show ?case using s(1,5) Cons.prems(2) \<open>l \<noteq> []\<close> m rd put
    by (subst extract_loop.simps) (auto simp: MDNS_MAX_SUBSTRINGS_def Let_def split: option.splits)
qed

lemma mdns_string_extract_name:
  assumes "name_in P buf i ls e" "P \<subseteq> {..<sz}" "sz \<le> length buf" "length ls \<le> 64" "length (dotted ls) \<le> capacity"
  shows "mdns_string_extract buf sz i capacity = Some (dotted ls, e)"
  using extract_loop_name [OF assms(2,3,1), of 0 "[]" capacity None] assms(4,5) by (simp add: mdns_string_extract_def)

section \<open>The table of names\<close>

text \<open>A label at \<open>t\<close>, followed by the rest of a name.\<close>

definition label_at :: "string \<Rightarrow> nat \<Rightarrow> string \<Rightarrow> bool" where
  "label_at buf t l \<longleftrightarrow> label_ok l \<and> t + length l < length buf \<and> buf ! t = char_of (length l) \<and>
     take (length l) (drop (Suc t) buf) = l"

definition suffix_at :: "nat set \<Rightarrow> string \<Rightarrow> nat \<Rightarrow> string list \<Rightarrow> bool" where
  "suffix_at P buf t ls \<longleftrightarrow> (\<exists>l ms e. ls = l # ms \<and> label_at buf t l \<and> {t..t + length l} \<subseteq> P \<and>
     name_in P buf (Suc t + length l) ms e \<and> t < 0x4000)"

text \<open>The names of one message end in the same label, which occurs nowhere else in them.\<close>

definition ends_once :: "string \<Rightarrow> string list \<Rightarrow> bool" where
  "ends_once z ls \<longleftrightarrow> ls \<noteq> [] \<and> last ls = z \<and> z \<notin> set (butlast ls)"

lemma ends_once_tl: "ends_once z (l # ls) \<Longrightarrow> ls \<noteq> [] \<Longrightarrow> ends_once z ls"
  by (auto simp: ends_once_def)

lemma prefix_ends_once: "prefix xs ys \<Longrightarrow> ends_once z xs \<Longrightarrow> ends_once z ys \<Longrightarrow> xs = ys"
proof (rule ccontr)
  assume "prefix xs ys" "ends_once z xs" "ends_once z ys" "xs \<noteq> ys"
  then obtain zs where zs: "ys = xs @ zs" "zs \<noteq> []" by (auto elim: prefixE)
  then have "z \<in> set xs" using \<open>ends_once z xs\<close> by (auto simp: ends_once_def intro: last_in_set)
  with zs \<open>ends_once z ys\<close> show False by (simp add: ends_once_def butlast_append)
qed

definition good_entry :: "string \<Rightarrow> nat set \<Rightarrow> string \<Rightarrow> nat \<Rightarrow> bool" where
  "good_entry z P buf t \<longleftrightarrow> (\<exists>ls. suffix_at P buf t ls \<and> ends_once z ls)"

definition table_entries :: "mdns_string_table \<Rightarrow> nat set" where
  "table_entries t = set (take (tab_count t) (tab_offset t))"

definition table_wf :: "mdns_string_table \<Rightarrow> bool" where
  "table_wf t \<longleftrightarrow> length (tab_offset t) = 16 \<and> tab_count t \<le> 16 \<and> tab_next t < 16 \<and>
     (tab_count t < 16 \<longrightarrow> tab_next t = tab_count t)"

lemma new_string_table [simp]: "table_wf new_string_table" "table_entries new_string_table = {}"
  by (simp_all add: table_wf_def table_entries_def new_string_table_def)

lemma table_add:
  assumes "table_wf t"
  shows "\<exists>t'. mdns_string_table_add d (Some t) = Some t' \<and> table_wf t' \<and> table_entries t' \<subseteq> insert d (table_entries t)"
proof -
  have "set (take 16 ((tab_offset t)[n := d])) \<subseteq> insert d (set (take 16 (tab_offset t)))" for n
    using assms set_update_subset_insert [of "tab_offset t" n d] by (simp add: table_wf_def)
  moreover have "take (Suc (tab_count t)) ((tab_offset t)[tab_count t := d]) = take (tab_count t) (tab_offset t) @ [d]"
    if "tab_count t < 16" using that assms by (simp add: table_wf_def take_Suc_conv_app_nth)
  ultimately show ?thesis using assms
    by (cases "tab_count t < 16")
       (auto simp: mdns_string_table_add_def table_wf_def table_entries_def table_capacity_def Let_def)
qed

section \<open>Looking a name up\<close>

lemma next_substring_here:
  assumes "label_at buf i l" "i + length l < sz" "sz \<le> length buf"
  shows "mdns_get_next_substring buf sz i = Some \<lparr>sp_offset = Some (Suc i), sp_length = length l, sp_ref = False\<rparr>"
proof -
  note b = label_byte [of l buf i]
  have "follow_refs buf sz i False 0 = Some (Some i, False)"
    using assms b unfolding label_at_def by (subst follow_refs.simps) simp
  then show ?thesis using assms b by (simp add: label_at_def mdns_get_next_substring_def)
qed

lemma find_if_no_dot: "label_ok l \<Longrightarrow> find_if (\<lambda>x. x = CHR ''.'') l = None"
  by (auto simp: label_ok_def find_if_None)

lemma find_if_label: "label_ok l \<Longrightarrow> find_if (\<lambda>x. x = CHR ''.'') (l @ CHR ''.'' # r) = Some (length l)"
  by (simp add: find_if_append find_if_no_dot)

text \<open>The label behind \<open>pre\<close> ends at the next dot, or with the string, whose last dot is not counted.\<close>

lemma find_dot:
  assumes "label_ok l"
  shows "mdns_string_find (pre @ dotted (l # ls)) (length (pre @ dotted (l # ls)) - 1) (CHR ''.'') (length pre) =
           (if ls = [] then None else Some (length pre + length l))"
proof (cases ls)
  case Nil
  then show ?thesis using find_if_no_dot [OF assms] by (simp add: mdns_string_find_def)
next
  case (Cons m ms)
  have "take (length l + length (dotted ls)) (l @ CHR ''.'' # dotted ls) = l @ CHR ''.'' # take (length (dotted ls) - 1) (dotted ls)"
    using Cons by (cases "length (dotted ls)") auto
  then show ?thesis using find_if_label [OF assms] Cons by (simp add: mdns_string_find_def)
qed

lemma match_rest_name:
  assumes "P \<subseteq> {..<length buf}"
  shows "name_in P buf cur ms e \<Longrightarrow> \<forall>l \<in> set ls. label_ok l \<Longrightarrow> pre \<noteq> [] \<Longrightarrow>
    match_rest buf (length buf) (pre @ dotted ls) (length (pre @ dotted ls) - 1) (length pre) cur = Some (prefix ls ms)"
proof (induction ls arbitrary: pre cur ms e)
  case Nil
  have "\<not> length pre < length (pre @ dotted []) - 1" by simp
  then show ?case by (subst match_rest.simps) (simp only: if_False Nil_prefix)
next
  case (Cons l ls)
  let ?str = "pre @ dotted (l # ls)"
  have l: "label_ok l" "l \<noteq> []" using Cons.prems(2) by (auto simp: label_ok_def)
  have lt: "length pre < length ?str - 1" using l by simp
  let ?dot = "case mdns_string_find ?str (length ?str - 1) (CHR ''.'') (length pre) of Some p \<Rightarrow> p | None \<Rightarrow> length ?str - 1"
  have dot: "?dot = length pre + length l" using find_dot [OF l(1), of pre ls] by auto
  show ?case
  proof (cases ms)
    case Nil
    have "mdns_get_next_substring buf (length buf) cur = Some \<lparr>sp_offset = Some cur, sp_length = 0, sp_ref = False\<rparr>"
      using next_substring_end [of P buf cur e "length buf"] Cons.prems(1) assms Nil by simp
    then show ?thesis using lt Nil by (subst match_rest.simps) (simp add: Let_def)
  next
    case (Cons m ms')
    then obtain q ref e' where s: "mdns_get_next_substring buf (length buf) cur =
          Some \<lparr>sp_offset = Some q, sp_length = length m, sp_ref = ref\<rparr>" "q + length m \<le> length buf"
        "take (length m) (drop q buf) = m" "name_in P buf (q + length m) ms' e'"
      using next_substring_label [of P buf cur m ms' e "length buf"] Cons.prems(1) assms by auto
    have m: "label_ok m" using name_in_label_ok [OF Cons.prems(1)] Cons by simp
    show ?thesis
    proof (cases "m = l")
      case True
      have "match_rest buf (length buf) ((pre @ l @ ''.'') @ dotted ls) (length ((pre @ l @ ''.'') @ dotted ls) - 1)
          (length (pre @ l @ ''.'')) (q + length m) = Some (prefix ls ms')"
        using Cons.IH [OF s(4), of "pre @ l @ ''.''"] Cons.prems(2) by simp
      then show ?thesis using lt s True l dot Cons
        by (subst match_rest.simps) (simp add: Let_def del: dotted_simps, simp)
    next
      case False
      have "take (length m) (drop (length pre) ?str) \<noteq> m" if "length m = length l" using that False by simp
      then show ?thesis using lt s False m dot Cons
        by (subst match_rest.simps) (auto simp: Let_def)
    qed
  qed
qed

lemma match_entry_label:
  assumes "label_at buf t m"
  shows "match_entry buf (length buf) str n k t =
    (if length m = n \<and> take n str = m then match_rest buf (length buf) str k (n + 1) (Suc t + length m) else Some False)"
proof -
  have lt: "t + length m < length buf" using assms by (simp add: label_at_def)
  note s = next_substring_here [OF assms lt order_refl]
  have "m \<noteq> []" using assms by (simp add: label_at_def label_ok_def)
  moreover have "rd_mem buf (Suc t) (length m) = Some m" using assms lt by (simp add: label_at_def)
  ultimately show ?thesis using s lt by (auto simp: match_entry_def)
qed

text \<open>An entry is a name already written, or a label of the name being written that does not match.\<close>

lemma find_entry_name:
  assumes "P \<subseteq> {..<length buf}" "\<forall>l \<in> set (s # ss). label_ok l" "ends_once z (s # ss)"
    "\<forall>t \<in> set es. good_entry z P buf t \<or> (\<exists>m. label_at buf t m \<and> m \<noteq> s)"
  shows "\<exists>r. find_entry buf (length buf) (dotted (s # ss)) (length s) (length (dotted (s # ss)) - 1) es = Some r \<and>
           (\<forall>t. r = Some t \<longrightarrow> t \<in> set es \<and> suffix_at P buf t (s # ss))"
  using assms(4)
proof (induction es)
  case (Cons t es)
  let ?m = "match_entry buf (length buf) (dotted (s # ss)) (length s) (length (dotted (s # ss)) - 1) t"
  have "?m = Some False \<or> ?m = Some True \<and> suffix_at P buf t (s # ss)"
  proof (cases "good_entry z P buf t")
    case False
    then obtain m where "label_at buf t m" "m \<noteq> s" using Cons.prems by auto
    then show ?thesis by (auto simp: match_entry_label)
  next
    case True
    then obtain m ms e where m: "label_at buf t m" "name_in P buf (Suc t + length m) ms e" "ends_once z (m # ms)"
        "suffix_at P buf t (m # ms)" by (auto simp: good_entry_def suffix_at_def)
    show ?thesis
    proof (cases "m = s")
      case False
      then show ?thesis using m(1) by (auto simp: match_entry_label)
    next
      case True
      have "match_rest buf (length buf) ((s @ ''.'') @ dotted ss) (length ((s @ ''.'') @ dotted ss) - 1)
          (length (s @ ''.'')) (Suc t + length m) = Some (prefix ss ms)"
        using match_rest_name [OF assms(1) m(2), of ss "s @ ''.''"] assms(2) by simp
      then have "?m = Some (prefix ss ms)" using m(1) True by (simp add: match_entry_label)
      moreover have "ss = ms" if "prefix ss ms"
        using prefix_ends_once [of "s # ss" "m # ms" z] that True assms(3) m(3) by simp
      ultimately show ?thesis using m(4) True by auto
    qed
  qed
  then show ?case using Cons by (auto simp del: dotted_simps)
qed simp

lemma table_find_name:
  assumes "P \<subseteq> {..<length buf}" "\<forall>l \<in> set (s # ss). label_ok l" "ends_once z (s # ss)"
    "\<forall>t \<in> table_entries tab. good_entry z P buf t \<or> (\<exists>m. label_at buf t m \<and> m \<noteq> s)"
  shows "\<exists>r. mdns_string_table_find (Some tab) buf (length buf) (dotted (s # ss)) (length s) (length (dotted (s # ss)) - 1) = Some r \<and>
           (\<forall>t. r = Some t \<longrightarrow> t \<in> table_entries tab \<and> suffix_at P buf t (s # ss))"
  using find_entry_name [OF assms(1-3), of "take (tab_count tab) (tab_offset tab)"] assms(4)
  by (simp add: mdns_string_table_find_def table_entries_def)

section \<open>Writing a name\<close>

lemma nth_splice:
  "i + length s \<le> length buf \<Longrightarrow> j < length buf \<Longrightarrow>
     mem_splice buf i s ! j = (if i \<le> j \<and> j < i + length s then s ! (j - i) else buf ! j)"
  by (auto simp: mem_splice_def nth_append min_def)

lemma splice_at: "i + length s \<le> length buf \<Longrightarrow> take (length s) (drop i (mem_splice buf i s)) = s"
  by (simp add: mem_splice_def)

lemma ref_bytes:
  assumes "t < 0x4000"
  shows "be16 (0xC000 OR of_nat t) = [char_of (0xC0 + t div 256), char_of t]"
proof -
  have "take_bit 14 t = t" using assms by (simp add: take_bit_nat_eq_self)
  then have "bit t n \<Longrightarrow> n < 14" for n by (metis bit_take_bit_iff)
  then have "push_bit 14 m OR t = push_bit 14 m + t" for m
    by (subst disjunctive_add) (use leD in \<open>auto simp: bit_push_bit_iff\<close>)
  from this [of 3] have or: "(0xC000 :: nat) OR t = 0xC000 + t" by (simp add: push_bit_eq_mult)
  have "unat ((0xC000 :: u16) OR of_nat t) = 0xC000 OR t"
    using assms by (simp add: unsigned_or_eq unat_of_nat16)
  then have n: "unat ((0xC000 :: u16) OR of_nat t) = 0xC000 + t" using or by simp
  have "(192 * 256 + t) mod 256 = t mod 256" by (rule mod_mult_self3)
  then have "char_of (0xC000 + t) = (char_of t :: char)"
    using char_of_mod_256 [of "0xC000 + t"] char_of_mod_256 [of t] by simp
  moreover have "(192 * 256 + t) div 256 = 192 + t div 256" by (rule div_mult_self3) simp
  ultimately show ?thesis unfolding be16_def n by simp
qed

lemma suffix_at_frame:
  assumes "suffix_at P buf t ls" "length buf' = length buf" "\<And>j. j \<in> P \<Longrightarrow> buf' ! j = buf ! j" "P \<subseteq> Q"
  shows "suffix_at Q buf' t ls"
proof -
  obtain l ms e where s: "ls = l # ms" "label_at buf t l" "{t..t + length l} \<subseteq> P"
      "name_in P buf (Suc t + length l) ms e" "t < 0x4000"
    using assms(1) by (auto simp: suffix_at_def)
  have in_P: "j \<in> P" if "t \<le> j" "j \<le> t + length l" for j using s(3) that by auto
  then have "take (length l) (drop (Suc t) buf') = take (length l) (drop (Suc t) buf)"
    using assms(2,3) by (intro take_drop_cong) auto
  moreover have "t \<in> P" using in_P by simp
  ultimately have "label_at buf' t l" using s(2) assms(2,3) by (simp add: label_at_def)
  then show ?thesis
    using s assms(4) name_in_frame [OF s(4) assms(2-4)] by (auto simp: suffix_at_def)
qed

lemma good_entry_frame:
  assumes "good_entry z P buf t" "length buf' = length buf" "\<And>j. j \<in> P \<Longrightarrow> buf' ! j = buf ! j" "P \<subseteq> Q"
  shows "good_entry z Q buf' t"
  using assms suffix_at_frame unfolding good_entry_def by blast

lemma suffix_at_ref:
  assumes "suffix_at P buf t ls" "i \<in> P" "Suc i \<in> P" "buf ! i = char_of (0xC0 + t div 256)" "buf ! Suc i = char_of t"
  shows "name_in P buf i ls (i + 2)"
proof -
  obtain l ms e where "ls = l # ms" "label_at buf t l" "{t..t + length l} \<subseteq> P"
      "name_in P buf (Suc t + length l) ms e" "t < 0x4000"
    using assms(1) by (auto simp: suffix_at_def)
  then show ?thesis using assms(2-5) name_ref [of i P t buf l ms e] by (simp add: label_at_def)
qed

lemma char_of_0: "char_of (0 :: nat) = CHR 0x00"
  by (simp add: char_of_def)

text \<open>What a name written at \<open>d\<close> changes.\<close>

definition name_made ::
    "string \<Rightarrow> nat set \<Rightarrow> string \<Rightarrow> nat \<Rightarrow> string list \<Rightarrow> nat set \<Rightarrow> string \<Rightarrow> nat \<Rightarrow> mdns_string_table \<Rightarrow> bool" where
  "name_made z P buf d ls E buf' d' tab \<longleftrightarrow>
     length buf' = length buf \<and> d < d' \<and> d' \<le> d + length (dotted ls) + 1 \<and>
     (\<forall>j. j < d \<or> d' \<le> j \<longrightarrow> j < length buf \<longrightarrow> buf' ! j = buf ! j) \<and>
     name_in (P \<union> {d..<d'}) buf' d ls d' \<and> table_wf tab \<and>
     (\<forall>t \<in> table_entries tab. t \<in> E \<or> good_entry z (P \<union> {d..<d'}) buf' t)"

lemma make_loop_step:
  assumes "last_pos < len"
    "(case mdns_string_find name len (CHR ''.'') last_pos of Some p \<Rightarrow> p | None \<Rightarrow> len) - last_pos = n"
    "mdns_string_table_find table buf capacity (drop last_pos name) n (len - last_pos) = Some r"
  shows "make_loop buf capacity d name len last_pos table =
    (case r of
       Some ref \<Rightarrow> do { (buf, d) \<leftarrow> mdns_string_make_ref buf d (capacity - d) ref; Some (buf, d, table) }
     | None \<Rightarrow>
         if capacity - d \<le> n + 1 then Some (buf, None, table)
         else do { buf \<leftarrow> wr8 buf d n;
                   buf \<leftarrow> wr_mem buf (d + 1) (take n (drop last_pos name));
                   make_loop buf capacity (d + n + 1) name len
                     (case mdns_string_find name len (CHR ''.'') last_pos of Some p \<Rightarrow> p + 1 | None \<Rightarrow> len)
                     (mdns_string_table_add d table) })"
  using assms(1) by (subst make_loop.simps) (simp only: if_True Let_def assms(2,3) option.case bind.bind_lunit split: option.split)

lemma make_loop_end:
  assumes "len \<le> last_pos" "d < length buf" "table_wf tab"
  shows "\<exists>buf'. make_loop buf (length buf) d name len last_pos (Some tab) = Some (buf', Some (d + 1), Some tab) \<and>
           name_made z P buf d [] (table_entries tab) buf' (d + 1) tab"
proof -
  let ?b = "mem_splice buf d [char_of (0 :: nat)]"
  have "name_in (P \<union> {d..<d + 1}) ?b d [] (Suc d)"
    using assms(2) by (intro name_end) (auto simp: nth_splice char_of_0)
  then have "name_made z P buf d [] (table_entries tab) ?b (d + 1) tab"
    using assms(2,3) by (auto simp: name_made_def nth_splice)
  moreover have "make_loop buf (length buf) d name len last_pos (Some tab) = Some (?b, Some (d + 1), Some tab)"
    using assms(1,2) by (subst make_loop.simps) (simp add: wr8_def)
  ultimately show ?thesis by blast
qed

lemma make_loop_ref:
  assumes "suffix_at P buf t ls" "P \<subseteq> {..<d}" "d + 2 \<le> length buf" "table_wf tab" "ls \<noteq> []"
  shows "\<exists>buf'. mdns_string_make_ref buf d (length buf - d) t = Some (buf', Some (d + 2)) \<and>
           name_made z P buf d ls (table_entries tab) buf' (d + 2) tab"
proof -
  let ?b = "mem_splice buf d (be16 (0xC000 OR of_nat t))"
  have t: "t < 0x4000" "\<forall>l \<in> set ls. label_ok l" using assms(1) name_in_label_ok by (auto simp: suffix_at_def label_at_def)
  have "suffix_at (P \<union> {d..<d + 2}) ?b t ls"
    using assms(2,3) by (intro suffix_at_frame [OF assms(1)]) (auto simp: nth_splice)
  then have "name_in (P \<union> {d..<d + 2}) ?b d ls (d + 2)"
    using assms(3) by (intro suffix_at_ref [where t = t]) (auto simp: nth_splice ref_bytes [OF t(1)])
  moreover have "2 \<le> length (dotted ls)" using assms(5) t(2) by (cases ls) (auto simp: label_ok_def Suc_le_eq)
  ultimately have "name_made z P buf d ls (table_entries tab) ?b (d + 2) tab"
    using assms(3,4) by (auto simp: name_made_def nth_splice)
  moreover have "mdns_string_make_ref buf d (length buf - d) t = Some (?b, Some (d + 2))"
    using assms(3) by (simp add: mdns_string_make_ref_def)
  ultimately show ?thesis by blast
qed

text \<open>A label in front of a name.\<close>

lemma name_made_Cons:
  assumes made: "name_made z P buf1 (Suc d + length l) ls E buf' d' tab"
    and l: "label_ok l" "d + length l < length buf" "d < 0x4000" and P: "P \<subseteq> {..<d}"
    and buf1: "buf1 = mem_splice (mem_splice buf d [char_of (length l)]) (Suc d) l"
    and E: "E \<subseteq> insert d E0" and z: "ends_once z (l # ls)"
  shows "name_made z P buf d (l # ls) E0 buf' d' tab"
proof -
  let ?Q = "P \<union> {d..<d'}" and ?e = "Suc d + length l"
  have len1: "length (mem_splice buf d [char_of (length l)]) = length buf" "length buf1 = length buf"
    using l(2) by (simp_all add: buf1)
  have nth1: "buf1 ! j = (if j = d then char_of (length l) else if Suc d \<le> j \<and> j < ?e then l ! (j - Suc d) else buf ! j)"
    if "j < length buf" for j
    using l(2) that len1(1) by (auto simp: buf1 nth_splice)
  from made have m: "length buf' = length buf" "?e < d'" "d' \<le> ?e + length (dotted ls) + 1"
      "\<And>j. j < ?e \<or> d' \<le> j \<Longrightarrow> j < length buf \<Longrightarrow> buf' ! j = buf1 ! j"
      "name_in (P \<union> {?e..<d'}) buf' ?e ls d'" "table_wf tab"
      "\<And>t. t \<in> table_entries tab \<Longrightarrow> t \<in> E \<or> good_entry z (P \<union> {?e..<d'}) buf' t"
    unfolding name_made_def len1(2) by auto
  have sub: "P \<union> {?e..<d'} \<subseteq> ?Q" by auto
  have rest: "name_in ?Q buf' ?e ls d'" by (rule name_in_frame [OF m(5) refl _ sub]) simp
  have "take (length l) (drop (Suc d) buf') = l"
    using l(2) m(1,4) nth1 by (intro nth_equalityI) auto
  then have at: "label_at buf' d l" using l m(1,4) nth1 [of d] by (auto simp: label_at_def)
  then have "name_in ?Q buf' d (l # ls) d'"
    using rest m(2) by (intro name_label) (auto simp: label_at_def)
  moreover have "suffix_at ?Q buf' d (l # ls)"
    using at rest m(2) l(3) unfolding suffix_at_def by auto
  then have "good_entry z ?Q buf' d" using z by (auto simp: good_entry_def)
  moreover have "good_entry z ?Q buf' t" if "good_entry z (P \<union> {?e..<d'}) buf' t" for t
    by (rule good_entry_frame [OF that refl _ sub]) simp
  ultimately show ?thesis
    using m E nth1 unfolding name_made_def by (auto simp: Let_def)
qed

text \<open>The loop of \<^const>\<open>mdns_string_make\<close> with the labels \<open>pre\<close> behind and \<open>ls\<close> before it.\<close>

lemma make_loop_name:
  assumes "P \<subseteq> {..<d}" "length buf \<le> 0x4000" "d + length (dotted ls) + 1 \<le> length buf"
    "\<forall>l \<in> set ls. label_ok l" "distinct (pre @ ls)" "ls \<noteq> [] \<Longrightarrow> ends_once z ls"
    "\<forall>t \<in> table_entries tab. good_entry z P buf t \<or> (\<exists>m \<in> set pre. label_at buf t m \<and> t + length m < d)"
    "table_wf tab" "ls \<noteq> [] \<Longrightarrow> last_pos = length (dotted pre)"
    "ls = [] \<Longrightarrow> length (dotted (pre @ ls)) - 1 \<le> last_pos"
  shows "\<exists>buf' d' tab'. make_loop buf (length buf) d (dotted (pre @ ls)) (length (dotted (pre @ ls)) - 1) last_pos (Some tab) =
             Some (buf', Some d', Some tab') \<and> name_made z P buf d ls (table_entries tab) buf' d' tab'"
  using assms
proof (induction ls arbitrary: pre d buf tab last_pos)
  case Nil
  then show ?case using make_loop_end [of "length (dotted (pre @ [])) - 1" last_pos d buf tab "dotted (pre @ [])" z P]
    by auto
next
  case (Cons l ls)
  let ?name = "dotted (pre @ l # ls)"
  let ?len = "length ?name - 1"
  have l: "label_ok l" "l \<noteq> []" using Cons.prems(4) by (auto simp: label_ok_def)
  have lp: "last_pos = length (dotted pre)" using Cons.prems(9) by simp
  have lt: "last_pos < ?len" using l by (simp add: lp)
  have find: "mdns_string_find ?name ?len (CHR ''.'') last_pos = (if ls = [] then None else Some (last_pos + length l))"
    using find_dot [OF l(1), of "dotted pre" ls] by (simp add: lp)
  have sub: "(case mdns_string_find ?name ?len (CHR ''.'') last_pos of Some p \<Rightarrow> p | None \<Rightarrow> ?len) - last_pos = length l"
    unfolding find by (simp add: lp)
  have dn: "drop last_pos ?name = dotted (l # ls)" "?len - last_pos = length (dotted (l # ls)) - 1" by (simp_all add: lp)
  have "P \<subseteq> {..<length buf}" using Cons.prems(1,3) by force
  moreover have "\<forall>t \<in> table_entries tab. good_entry z P buf t \<or> (\<exists>m. label_at buf t m \<and> m \<noteq> l)"
    using Cons.prems(5,7) by (auto simp: disjoint_iff)
  ultimately obtain r where r: "mdns_string_table_find (Some tab) buf (length buf) (dotted (l # ls)) (length l)
        (length (dotted (l # ls)) - 1) = Some r" "\<And>t. r = Some t \<Longrightarrow> suffix_at P buf t (l # ls)"
    using table_find_name [of P buf l ls z tab] Cons.prems(4,6) by blast
  note step = make_loop_step [OF lt sub, unfolded dn, OF r(1), of d]
  show ?case
  proof (cases r)
    case (Some t)
    have "d + 2 \<le> length buf" using Cons.prems(3) l by (cases l) auto
    then obtain buf' where "mdns_string_make_ref buf d (length buf - d) t = Some (buf', Some (d + 2))"
        "name_made z P buf d (l # ls) (table_entries tab) buf' (d + 2) tab"
      using make_loop_ref [OF r(2) [OF Some] Cons.prems(1) _ Cons.prems(8)] by blast
    then show ?thesis using step Some by simp
  next
    case None
    let ?b1 = "mem_splice buf d [char_of (length l)]"
    let ?b = "mem_splice ?b1 (Suc d) l"
    have fit: "d + length l + 1 < length buf" using Cons.prems(3) by simp
    then have len: "length ?b1 = length buf" "length ?b = length buf" by simp_all
    obtain tab1 where tab1: "mdns_string_table_add d (Some tab) = Some tab1" "table_wf tab1"
        "table_entries tab1 \<subseteq> insert d (table_entries tab)"
      using table_add [OF Cons.prems(8)] by blast
    have nth: "?b ! j = buf ! j" if "j < d" for j using that fit len by (simp add: nth_splice)
    have at: "label_at ?b d l"
      using l fit len splice_at [of "Suc d" l ?b1] by (simp add: label_at_def nth_splice)
    have keep: "label_at ?b t m" if "label_at buf t m" "t + length m < d" for t m
    proof -
      have "take (length m) (drop (Suc t) ?b) = take (length m) (drop (Suc t) buf)"
        using that nth len by (intro take_drop_cong) auto
      then show ?thesis using that len nth by (simp add: label_at_def)
    qed
    have ent: "\<forall>t \<in> table_entries tab1. good_entry z P ?b t \<or>
        (\<exists>m \<in> set (pre @ [l]). label_at ?b t m \<and> t + length m < Suc d + length l)"
    proof
      fix t assume "t \<in> table_entries tab1"
      then consider "t = d" | "good_entry z P buf t" | m where "m \<in> set pre" "label_at buf t m" "t + length m < d"
        using tab1(3) Cons.prems(7) by auto
      then show "good_entry z P ?b t \<or> (\<exists>m \<in> set (pre @ [l]). label_at ?b t m \<and> t + length m < Suc d + length l)"
      proof cases
        case 1
        then show ?thesis using at by auto
      next
        case 2
        then have "good_entry z P ?b t" using len(2) nth Cons.prems(1) by (intro good_entry_frame [OF 2]) auto
        then show ?thesis ..
      next
        case 3
        then show ?thesis using keep [of t m] by force
      qed
    qed
    let ?lp = "case mdns_string_find ?name ?len (CHR ''.'') last_pos of Some p \<Rightarrow> p + 1 | None \<Rightarrow> ?len"
    have "\<exists>buf' d' tab'. make_loop ?b (length ?b) (Suc d + length l) (dotted ((pre @ [l]) @ ls))
        (length (dotted ((pre @ [l]) @ ls)) - 1) ?lp (Some tab1) = Some (buf', Some d', Some tab') \<and>
        name_made z P ?b (Suc d + length l) ls (table_entries tab1) buf' d' tab'"
    proof (rule Cons.IH)
      show "P \<subseteq> {..<Suc d + length l}" using Cons.prems(1) by auto
      show "length ?b \<le> 0x4000" "Suc d + length l + length (dotted ls) + 1 \<le> length ?b"
        using Cons.prems(2,3) len by simp_all
      show "\<forall>l \<in> set ls. label_ok l" "distinct ((pre @ [l]) @ ls)" using Cons.prems(4,5) by auto
      show "ends_once z ls" if "ls \<noteq> []" using Cons.prems(6) that ends_once_tl by blast
      show "?lp = length (dotted (pre @ [l]))" if "ls \<noteq> []" using that unfolding find by (simp add: lp)
      show "length (dotted ((pre @ [l]) @ ls)) - 1 \<le> ?lp" if "ls = []" using that unfolding find by simp
    qed (use ent tab1 in auto)
    then obtain buf' d' tab' where IH: "make_loop ?b (length buf) (Suc d + length l) ?name ?len ?lp (Some tab1) =
          Some (buf', Some d', Some tab')" "name_made z P ?b (Suc d + length l) ls (table_entries tab1) buf' d' tab'"
      unfolding len by auto
    have "name_made z P buf d (l # ls) (table_entries tab) buf' d' tab'"
      using IH(2) by (rule name_made_Cons) (use l fit Cons.prems tab1 in auto)
    moreover have "make_loop buf (length buf) d ?name ?len last_pos (Some tab) = Some (buf', Some d', Some tab')"
    proof -
      have "wr8 buf d (length l) = Some ?b1" "wr_mem ?b1 (d + 1) (take (length l) (drop last_pos ?name)) = Some ?b"
        using fit len by (simp_all add: wr8_def dn(1) del: dotted_append)
      moreover have "\<not> length buf - d \<le> length l + 1" "d + length l + 1 = Suc d + length l" using fit by auto
      ultimately show ?thesis using step None IH(1) tab1(1) by simp
    qed
    ultimately show ?thesis by blast
  qed
qed

lemma mdns_string_make_name:
  assumes "P \<subseteq> {..<d}" "length buf \<le> 0x4000" "d + length (dotted ls) + 1 \<le> length buf"
    "\<forall>l \<in> set ls. label_ok l" "distinct ls" "ends_once z ls"
    "\<forall>t \<in> table_entries tab. good_entry z P buf t" "table_wf tab"
  shows "\<exists>buf' d' tab'. mdns_string_make buf (length buf) d (dotted ls) (Some tab) = Some (buf', Some d', Some tab') \<and>
           name_made z P buf d ls (table_entries tab) buf' d' tab'"
proof -
  have ne: "dotted ls \<noteq> []" "last (dotted ls) = CHR ''.''"
    using assms(6) by (cases ls rule: rev_cases; simp add: ends_once_def)+
  show ?thesis
    using make_loop_name [of P d buf ls "[]" z tab 0] assms by (simp add: mdns_string_make_def ne)
qed

end
