(* ===== verification/Mdns_Records.thy ===== *)
theory Mdns_Records
  imports Mdns_Roundtrip
begin

text \<open>
  What the builders of \<^theory_text>\<open>Mdns_Message\<close> leave in the buffer, as relations that the
  receivers follow: a record with its name, header and data, and the entries of a TXT record.
\<close>

section \<open>Numbers\<close>

lemma be16_read: "of_nat (of_char (be16 w ! 0) * 256 + of_char (be16 w ! 1)) = w"
proof -
  have "unat w < 65536" using unsigned_less [where 'a = nat, of w] by simp
  then have "unat w div 256 < 256" by simp
  then have "of_char (be16 w ! 0) * 256 + of_char (be16 w ! 1) = unat w"
    by (simp add: be16_def of_char_of)
  then have "of_nat (of_char (be16 w ! 0) * 256 + of_char (be16 w ! 1)) = (of_nat (unat w) :: u16)" by (simp only:)
  then show ?thesis by simp
qed

lemma ntohs_be16: "take 2 (drop i buf) = be16 w \<Longrightarrow> mdns_ntohs buf i = Some w"
proof -
  assume t: "take 2 (drop i buf) = be16 w"
  then have "2 \<le> length (drop i buf)" using length_be(1) [of w] by (metis length_take min.bounded_iff order_refl)
  then have "i + 2 \<le> length buf" by simp
  moreover have "be16 w ! 0 = buf ! i" "be16 w ! 1 = buf ! (i + 1)"
    using t [symmetric] \<open>i + 2 \<le> length buf\<close> by simp_all
  ultimately show ?thesis using be16_read [of w] by (simp add: mdns_ntohs_Some)
qed

lemma nat_bytes:
  "((n div 16777216 * 256 + n div 65536 mod 256) * 256 + n div 256 mod 256) * 256 + n mod 256 = (n :: nat)"
proof -
  have "n div 65536 = n div 256 div 256" "n div 16777216 = n div 256 div 256 div 256"
    by (simp_all add: div_mult2_eq [symmetric])
  then show ?thesis by (metis div_mult_mod_eq)
qed

lemma be32_read: "of_nat (((of_char (be32 w ! 0) * 256 + of_char (be32 w ! 1)) * 256 + of_char (be32 w ! 2)) * 256 + of_char (be32 w ! 3)) = w"
proof -
  have "unat w < 4294967296" using unsigned_less [where 'a = nat, of w] by simp
  then have "((of_char (be32 w ! 0) * 256 + of_char (be32 w ! 1)) * 256 + of_char (be32 w ! 2)) * 256 + of_char (be32 w ! 3) = unat w"
    using nat_bytes [of "unat w"] by (simp add: be32_def of_char_of)
  then have "of_nat (((of_char (be32 w ! 0) * 256 + of_char (be32 w ! 1)) * 256 + of_char (be32 w ! 2)) * 256 + of_char (be32 w ! 3)) = (of_nat (unat w) :: u32)" by (simp only:)
  then show ?thesis by simp
qed

lemma ntohl_be32: "take 4 (drop i buf) = be32 w \<Longrightarrow> mdns_ntohl buf i = Some w"
proof -
  assume t: "take 4 (drop i buf) = be32 w"
  then have "4 \<le> length (drop i buf)" using length_be(2) [of w] by (metis length_take min.bounded_iff order_refl)
  then have le: "i + 4 \<le> length buf" by simp
  then have "be32 w ! k = buf ! (i + k)" if "k < 4" for k using t [symmetric] that by simp
  from this [of 0] this [of 1] this [of 2] this [of 3] show ?thesis
    using le be32_read [of w] by (simp add: mdns_ntohl_def)
qed

lemma take_drop_append:
  assumes "take n (drop i buf) = a @ b" "length a + length b = n"
  shows "take (length a) (drop i buf) = a" "take (length b) (drop (i + length a) buf) = b"
proof -
  have "take (length a) (take n (drop i buf)) = a" "drop (length a) (take n (drop i buf)) = b"
    using assms by simp_all
  then show "take (length a) (drop i buf) = a" "take (length b) (drop (i + length a) buf) = b"
    using assms(2) by (auto simp: drop_take min_def add.commute)
qed

section \<open>Records in a buffer\<close>

definition name_ok :: "string \<Rightarrow> string list \<Rightarrow> bool" where
  "name_ok z ls \<longleftrightarrow> (\<forall>l \<in> set ls. label_ok l) \<and> distinct ls \<and> ends_once z ls"

text \<open>A record from \<open>i\<close> to \<open>e\<close>, with \<open>n\<close> bytes of data at \<open>rd\<close>.\<close>

definition record_at ::
    "nat set \<Rightarrow> string \<Rightarrow> nat \<Rightarrow> string list \<Rightarrow> u16 \<Rightarrow> u16 \<Rightarrow> u32 \<Rightarrow> nat \<Rightarrow> nat \<Rightarrow> nat \<Rightarrow> bool" where
  "record_at P buf i ls rtype rclass ttl rd n e \<longleftrightarrow>
     (\<exists>d. name_in P buf i ls d \<and> rd = d + 10 \<and> e = rd + n \<and> n < 65536 \<and>
          take 10 (drop d buf) = be16 rtype @ be16 rclass @ be32 ttl @ be16 (of_nat n))"

text \<open>The state of the builder: names at \<open>P\<close> below \<open>d\<close>, and a table that knows only complete ones.\<close>

definition built_names :: "string \<Rightarrow> nat set \<Rightarrow> string \<Rightarrow> nat \<Rightarrow> mdns_string_table \<Rightarrow> bool" where
  "built_names z P buf d tab \<longleftrightarrow> P \<subseteq> {..<d} \<and> d \<le> length buf \<and> length buf \<le> 0x4000 \<and> table_wf tab \<and>
     (\<forall>t \<in> table_entries tab. good_entry z P buf t)"

definition same_below :: "nat \<Rightarrow> string \<Rightarrow> string \<Rightarrow> bool" where
  "same_below d buf buf' \<longleftrightarrow> length buf' = length buf \<and> (\<forall>j < d. j < length buf \<longrightarrow> buf' ! j = buf ! j)"

lemma same_below_refl [simp]: "same_below d buf buf"
  by (simp add: same_below_def)

lemma same_below_trans: "same_below d a b \<Longrightarrow> same_below d' b c \<Longrightarrow> d \<le> d' \<Longrightarrow> same_below d a c"
  by (simp add: same_below_def)

lemma same_below_splice: "d \<le> i \<Longrightarrow> i + length s \<le> length buf \<Longrightarrow> same_below d buf (mem_splice buf i s)"
  by (simp add: same_below_def nth_splice)

lemma same_below_take: "same_below d buf buf' \<Longrightarrow> i + n \<le> d \<Longrightarrow> take n (drop i buf') = take n (drop i buf)"
  unfolding same_below_def by (intro nth_equalityI) auto

lemma name_in_below:
  assumes "name_in P buf i ls e" "P \<subseteq> {..<d}" "same_below d buf buf'" "P \<subseteq> Q" "d \<le> length buf"
  shows "name_in Q buf' i ls e"
  using assms(2,3,5) by (intro name_in_frame [OF assms(1) _ _ assms(4)]) (auto simp: same_below_def)

lemma name_in_end_le:
  assumes "name_in P buf i ls e" "P \<subseteq> {..<d}"
  shows "e \<le> d"
proof (cases ls)
  case Nil
  with assms show ?thesis by (auto elim!: name_in_NilE)
next
  case (Cons l ms)
  show ?thesis using assms(1) assms(2)
  proof (induction rule: name_in.induct)
    case (name_ref i t l ls e)
    then show ?case by auto
  qed auto
qed

lemma record_at_below:
  assumes "record_at P buf i ls rtype rclass ttl rd n e" "P \<subseteq> {..<d}" "e \<le> d" "same_below d buf buf'" "P \<subseteq> Q" "d \<le> length buf"
  shows "record_at Q buf' i ls rtype rclass ttl rd n e"
proof -
  obtain x where x: "name_in P buf i ls x" "rd = x + 10" "e = rd + n" "n < 65536"
      "take 10 (drop x buf) = be16 rtype @ be16 rclass @ be32 ttl @ be16 (of_nat n)"
    using assms(1) by (auto simp: record_at_def)
  have "name_in Q buf' i ls x" using x(1) assms(2,4,5,6) by (rule name_in_below)
  moreover have "take 10 (drop x buf') = take 10 (drop x buf)"
    using x assms(3) by (intro same_below_take [OF assms(4)]) simp
  ultimately show ?thesis using x by (auto simp: record_at_def)
qed

lemma built_names_frame:
  assumes "built_names z P buf d tab" "length buf' = length buf" "\<And>j. j \<in> P \<Longrightarrow> buf' ! j = buf ! j" "d \<le> d'" "d' \<le> length buf"
  shows "built_names z P buf' d' tab"
  using assms good_entry_frame [OF _ assms(2,3) order_refl]
  unfolding built_names_def by (auto intro: order_less_le_trans)

section \<open>Building\<close>

lemma make_name:
  assumes "built_names z P buf d tab" "name_ok z ls" "d + length (dotted ls) + 1 \<le> length buf"
  obtains buf' d' tab' where "mdns_string_make buf (length buf) d (dotted ls) (Some tab) = Some (buf', Some d', Some tab')"
    "same_below d buf buf'" "built_names z (P \<union> {d..<d'}) buf' d' tab'" "name_in (P \<union> {d..<d'}) buf' d ls d'"
    "d < d'" "d' \<le> d + length (dotted ls) + 1"
proof -
  obtain buf' d' tab' where m: "mdns_string_make buf (length buf) d (dotted ls) (Some tab) = Some (buf', Some d', Some tab')"
      "name_made z P buf d ls (table_entries tab) buf' d' tab'"
    using mdns_string_make_name [of P d buf ls z tab] assms unfolding built_names_def name_ok_def by blast
  let ?Q = "P \<union> {d..<d'}"
  have len: "length buf' = length buf" and same: "\<And>j. j < d \<Longrightarrow> j < length buf \<Longrightarrow> buf' ! j = buf ! j"
    using m(2) by (auto simp: name_made_def)
  have old: "good_entry z ?Q buf' t" if "t \<in> table_entries tab" for t
  proof (rule good_entry_frame)
    show "good_entry z P buf t" using that assms(1) by (simp add: built_names_def)
    show "buf' ! j = buf ! j" if "j \<in> P" for j using that same [of j] assms(1) by (auto simp: built_names_def)
  qed (use len in auto)
  have "built_names z ?Q buf' d' tab'"
    using m(2) assms(1,3) old by (auto simp: built_names_def name_made_def)
  then show ?thesis using that [OF m(1)] m(2) len same by (auto simp: name_made_def same_below_def)
qed

lemma splice_append:
  "i + length a + length b \<le> length buf \<Longrightarrow> mem_splice (mem_splice buf i a) (i + length a) b = mem_splice buf i (a @ b)"
  by (auto simp: mem_splice_def take_append ac_simps)

lemma add_header:
  assumes "built_names z P buf d tab" "mr_name r = dotted ls" "name_ok z ls" "d + length (dotted ls) + 11 \<le> length buf"
  obtains buf' d' tab' where
    "mdns_answer_add_record_header (length buf) r buf d (Some tab) = Some (buf', Some (d' + 10), Some tab')"
    "same_below d buf buf'" "built_names z (P \<union> {d..<d'}) buf' (d' + 10) tab'" "name_in (P \<union> {d..<d'}) buf' d ls d'"
    "take 10 (drop d' buf') = be16 (mdns_type_of (mr_data r)) @ be16 (mr_rclass r) @ be32 (mr_ttl r) @ be16 0"
    "d < d'" "d' \<le> d + length (dotted ls) + 1"
proof -
  have le: "d + length (dotted ls) + 1 \<le> length buf" using assms(4) by simp
  obtain b d' tab' where m: "mdns_string_make buf (length buf) d (dotted ls) (Some tab) = Some (b, Some d', Some tab')"
      "same_below d buf b" "built_names z (P \<union> {d..<d'}) b d' tab'" "name_in (P \<union> {d..<d'}) b d ls d'"
      "d < d'" "d' \<le> d + length (dotted ls) + 1"
    by (rule make_name [OF assms(1,3) le], rule that)
  let ?h = "be16 (mdns_type_of (mr_data r)) @ be16 (mr_rclass r) @ be32 (mr_ttl r) @ be16 0"
  let ?b = "mem_splice b d' ?h"
  have len: "length b = length buf" using m(2) by (simp add: same_below_def)
  have fit: "d' + 10 \<le> length b" using m(6) assms(4) len by simp
  have P: "P \<union> {d..<d'} \<subseteq> {..<d'}" using m(3) by (simp add: built_names_def)
  have b': "same_below d' b ?b" using fit by (intro same_below_splice) simp_all
  have "mem_splice (mem_splice (mem_splice (mem_splice b d' (be16 (mdns_type_of (mr_data r)))) (d' + 2) (be16 (mr_rclass r)))
      (d' + 4) (be32 (mr_ttl r))) (d' + 8) (be16 0) = ?b"
    using fit splice_append [of d' "be16 (mdns_type_of (mr_data r))" "be16 (mr_rclass r)" b]
      splice_append [of d' "be16 (mdns_type_of (mr_data r)) @ be16 (mr_rclass r)" "be32 (mr_ttl r)" b]
      splice_append [of d' "be16 (mdns_type_of (mr_data r)) @ be16 (mr_rclass r) @ be32 (mr_ttl r)" "be16 0" b]
    by (simp add: eval_nat_numeral)
  then have "mdns_answer_add_record_header (length buf) r buf d (Some tab) = Some (?b, Some (d' + 10), Some tab')"
    using m(1) fit len by (simp add: mdns_answer_add_record_header_def assms(2) eval_nat_numeral)
  moreover have "same_below d buf ?b" using m(2,5) b' by (auto intro: same_below_trans)
  moreover have "built_names z (P \<union> {d..<d'}) ?b (d' + 10) tab'"
    using P b' fit by (intro built_names_frame [OF m(3)]) (auto simp: same_below_def)
  moreover have "name_in (P \<union> {d..<d'}) ?b d ls d'"
    by (rule name_in_below [OF m(4) P b' order_refl]) (use fit in simp)
  moreover have "take 10 (drop d' ?b) = ?h" using fit splice_at [of d' ?h b] by simp
  ultimately show ?thesis using that m(5,6) by blast
qed

fun data_ok :: "string \<Rightarrow> mdns_data \<Rightarrow> bool" where
  "data_ok z (PtrData n) \<longleftrightarrow> (\<exists>ls. n = dotted ls \<and> name_ok z ls)"
| "data_ok z (SrvData p w q n) \<longleftrightarrow> (\<exists>ls. n = dotted ls \<and> name_ok z ls)"
| "data_ok z (AData a) \<longleftrightarrow> True"
| "data_ok z (AaaaData a) \<longleftrightarrow> True"
| "data_ok z (TxtData k v) \<longleftrightarrow> False"

fun data_size :: "mdns_data \<Rightarrow> nat" where
  "data_size (PtrData n) = length n + 1"
| "data_size (SrvData p w q n) = length n + 7"
| "data_size (AData a) = 4"
| "data_size (AaaaData a) = 16"
| "data_size (TxtData k v) = length k + length v + 2"

definition record_size :: "mdns_record_t \<Rightarrow> nat" where
  "record_size r = length (mr_name r) + 11 + data_size (mr_data r)"

text \<open>Raw bytes at the end of what is built.\<close>

lemma built_names_raw:
  assumes "built_names z P buf d tab" "d + length s \<le> length buf"
  shows "built_names z P (mem_splice buf d s) (d + length s) tab" "same_below d buf (mem_splice buf d s)"
    "take (length s) (drop d (mem_splice buf d s)) = s"
proof -
  show s: "same_below d buf (mem_splice buf d s)" using assms(2) by (simp add: same_below_splice)
  have "P \<subseteq> {..<d}" using assms(1) by (simp add: built_names_def)
  then show "built_names z P (mem_splice buf d s) (d + length s) tab"
    using s assms(2) by (intro built_names_frame [OF assms(1)]) (auto simp: same_below_def)
  show "take (length s) (drop d (mem_splice buf d s)) = s" using assms(2) by (rule splice_at)
qed

definition data_made ::
    "string \<Rightarrow> nat set \<Rightarrow> string \<Rightarrow> nat \<Rightarrow> mdns_data \<Rightarrow> nat set \<Rightarrow> string \<Rightarrow> nat \<Rightarrow> mdns_string_table \<Rightarrow> bool" where
  "data_made z P buf d rdata P' buf' d' tab' \<longleftrightarrow>
     same_below d buf buf' \<and> built_names z P' buf' d' tab' \<and> P \<subseteq> P' \<and> P' \<subseteq> P \<union> {d..<d'} \<and> d \<le> d' \<and>
     d' \<le> d + data_size rdata \<and>
     (\<forall>a. rdata = AData a \<longrightarrow> d' = d + 4 \<and> take 4 (drop d buf') = be32 a)"

lemma add_data:
  assumes "built_names z P buf d tab" "data_ok z rdata" "d + data_size rdata \<le> length buf"
  shows "\<exists>buf' d' tab' P'. add_record_data (length buf) rdata buf d (Some tab) = Some (buf', Some d', Some tab') \<and>
           data_made z P buf d rdata P' buf' d' tab'"
proof (cases rdata)
  case (PtrData n)
  then obtain ls where ls: "n = dotted ls" "name_ok z ls" using assms(2) by auto
  have le: "d + length (dotted ls) + 1 \<le> length buf" using assms(3) PtrData ls by simp
  show ?thesis
    by (rule make_name [OF assms(1) ls(2) le]) (auto simp: PtrData ls(1) add_record_data_def data_made_def intro!: exI)
next
  case (SrvData p w q n)
  then obtain ls where ls: "n = dotted ls" "name_ok z ls" using assms(2) by auto
  let ?s = "be16 p @ be16 w @ be16 q"
  let ?b = "mem_splice buf d ?s"
  have fit: "d + length ?s \<le> length buf" "d + 7 \<le> length buf" using assms(3) SrvData by simp_all
  then have len: "length ?b = length buf" and nf: "\<not> length buf - d \<le> 6" by simp_all
  note raw = built_names_raw [OF assms(1) fit(1)]
  have le: "d + length ?s + length (dotted ls) + 1 \<le> length ?b" using assms(3) SrvData ls len by simp
  have "mem_splice (mem_splice (mem_splice buf d (be16 p)) (d + 2) (be16 w)) (d + 4) (be16 q) = ?b"
    using fit splice_append [of d "be16 p" "be16 w" buf] splice_append [of d "be16 p @ be16 w" "be16 q" buf]
    by (simp add: eval_nat_numeral)
  then have step: "add_record_data (length buf) rdata buf d (Some tab) = mdns_string_make ?b (length ?b) (d + length ?s) n (Some tab)"
    using fit nf len by (simp add: SrvData add_record_data_def eval_nat_numeral)
  obtain b' d' tab' where m: "mdns_string_make ?b (length ?b) (d + length ?s) (dotted ls) (Some tab) = Some (b', Some d', Some tab')"
      "same_below (d + length ?s) ?b b'" "built_names z (P \<union> {d + length ?s..<d'}) b' d' tab'"
      "d + length ?s < d'" "d' \<le> d + length ?s + length (dotted ls) + 1"
    by (rule make_name [OF raw(1) ls(2) le], rule that)
  have "same_below d buf b'" using raw(2) m(2) by (rule same_below_trans) simp
  then have "data_made z P buf d rdata (P \<union> {d + length ?s..<d'}) b' d' tab'"
    using m(3-5) by (auto simp: data_made_def SrvData ls(1))
  then show ?thesis using step m(1) ls(1) by auto
next
  case (AData a)
  have fit: "d + length (be32 a) \<le> length buf" using assms(3) AData by simp
  note raw = built_names_raw [OF assms(1) fit]
  then have "data_made z P buf d rdata P (mem_splice buf d (be32 a)) (d + 4) tab"
    by (simp add: data_made_def AData)
  then show ?thesis using fit by (auto simp: AData add_record_data_def)
next
  case (AaaaData a)
  have fit: "d + length (be128 a) \<le> length buf" using assms(3) AaaaData by simp
  note raw = built_names_raw [OF assms(1) fit]
  then have "data_made z P buf d rdata P (mem_splice buf d (be128 a)) (d + 16) tab"
    by (simp add: data_made_def AaaaData)
  then show ?thesis using fit by (auto simp: AaaaData add_record_data_def)
next
  case (TxtData k v)
  then show ?thesis using assms(2) by simp
qed

text \<open>Filling in the length of the data touches no name.\<close>

lemma fill_length:
  assumes "built_names z P buf e tab" "P \<inter> {rd - 2..<rd} = {}" "2 \<le> rd" "rd \<le> e"
    "name_in P buf i ls (rd - 10)" "10 \<le> rd" "e - rd < 65536"
    "take 10 (drop (rd - 10) buf) = be16 rtype @ be16 rclass @ be32 ttl @ be16 0"
  shows "\<exists>buf'. mdns_htons buf (rd - 2) (of_nat (e - rd)) = Some (buf', rd) \<and>
    built_names z P buf' e tab \<and> record_at P buf' i ls rtype rclass ttl rd (e - rd) e \<and>
    same_below (rd - 2) buf buf' \<and> (\<forall>j. rd \<le> j \<longrightarrow> j < length buf \<longrightarrow> buf' ! j = buf ! j)"
proof -
  let ?w = "of_nat (e - rd) :: u16"
  let ?b = "mem_splice buf (rd - 2) (be16 ?w)"
  have fit: "rd - 2 + 2 \<le> length buf" using assms(1,3,4) by (auto simp: built_names_def)
  have nth: "?b ! j = (if rd - 2 \<le> j \<and> j < rd then be16 ?w ! (j - (rd - 2)) else buf ! j)" if "j < length buf" for j
    using fit that assms(3) by (subst nth_splice) auto
  have P: "?b ! j = buf ! j" if "j \<in> P" for j
  proof -
    have "j < length buf" using assms(1) that by (auto simp: built_names_def)
    moreover have "\<not> (rd - 2 \<le> j \<and> j < rd)" using assms(2) that by (simp add: disjoint_iff)
    ultimately show ?thesis using nth [of j] by auto
  qed
  have len: "length ?b = length buf" using fit by simp
  have bn: "built_names z P ?b e tab"
    using assms(1) by (intro built_names_frame [OF assms(1) len P]) (auto simp: built_names_def)
  have nm: "name_in P ?b i ls (rd - 10)" by (rule name_in_frame [OF assms(5) len P order_refl])
  let ?h = "be16 rtype @ be16 rclass @ be32 ttl"
  have "take 8 (drop (rd - 10) buf) = ?h"
    using take_drop_append(1) [of 10 "rd - 10" buf ?h "be16 0"] assms(8) by simp
  moreover have "take 8 (drop (rd - 10) ?b) = take 8 (drop (rd - 10) buf)"
    using nth assms(6) fit len by (intro take_drop_cong) auto
  moreover have "take 2 (drop (rd - 2) ?b) = be16 ?w" using splice_at [of "rd - 2" "be16 ?w" buf] fit by simp
  moreover have "drop 8 (drop (rd - 10) ?b) = drop (rd - 2) ?b" using assms(6) by (simp only: drop_drop) simp
  then have "take 10 (drop (rd - 10) ?b) = take 8 (drop (rd - 10) ?b) @ take 2 (drop (rd - 2) ?b)"
    using take_add [of 8 2 "drop (rd - 10) ?b"] by simp
  ultimately have "take 10 (drop (rd - 10) ?b) = be16 rtype @ be16 rclass @ be32 ttl @ be16 ?w" by simp
  then have "record_at P ?b i ls rtype rclass ttl rd (e - rd) e"
    using nm assms(4,6,7) unfolding record_at_def by (intro exI [of _ "rd - 10"]) auto
  moreover have "mdns_htons buf (rd - 2) ?w = Some (?b, rd)" using fit assms(3) by simp
  ultimately show ?thesis using bn nth len assms(3) by (auto simp: same_below_def)
qed

definition record_made ::
    "string \<Rightarrow> nat set \<Rightarrow> string \<Rightarrow> nat \<Rightarrow> mdns_record_t \<Rightarrow> string list \<Rightarrow> nat set \<Rightarrow> string \<Rightarrow> nat \<Rightarrow> nat \<Rightarrow>
     mdns_string_table \<Rightarrow> bool" where
  "record_made z P buf d r ls P' buf' rd d' tab' \<longleftrightarrow>
     same_below d buf buf' \<and> built_names z P' buf' d' tab' \<and> P \<subseteq> P' \<and> d < d' \<and> d' \<le> d + record_size r \<and>
     record_at P' buf' d ls (mdns_type_of (mr_data r)) (mr_rclass r) (mr_ttl r) rd (d' - rd) d' \<and>
     (\<forall>a. mr_data r = AData a \<longrightarrow> d' = rd + 4 \<and> take 4 (drop rd buf') = be32 a)"

lemma add_record:
  assumes "built_names z P buf d tab" "mr_name r = dotted ls" "name_ok z ls" "data_ok z (mr_data r)"
    "d + record_size r \<le> length buf"
  shows "\<exists>buf' rd d' tab' P'. mdns_answer_add_record (length buf) r (buf, Some d, Some tab) = Some (buf', Some d', Some tab') \<and>
           record_made z P buf d r ls P' buf' rd d' tab'"
proof -
  have le: "d + length (dotted ls) + 11 \<le> length buf" using assms(2,5) by (simp add: record_size_def)
  let ?t = "mdns_type_of (mr_data r)"
  obtain b x tab1 where h: "mdns_answer_add_record_header (length buf) r buf d (Some tab) = Some (b, Some (x + 10), Some tab1)"
      "same_below d buf b" "built_names z (P \<union> {d..<x}) b (x + 10) tab1" "name_in (P \<union> {d..<x}) b d ls x"
      "take 10 (drop x b) = be16 ?t @ be16 (mr_rclass r) @ be32 (mr_ttl r) @ be16 0" "d < x" "x \<le> d + length (dotted ls) + 1"
    by (rule add_header [OF assms(1-3) le], rule that)
  have lenb: "length b = length buf" using h(2) by (simp add: same_below_def)
  have fit: "x + 10 + data_size (mr_data r) \<le> length b" using h(7) assms(2,5) lenb by (simp add: record_size_def)
  obtain b2 e tab2 Q where dt: "add_record_data (length b) (mr_data r) b (x + 10) (Some tab1) = Some (b2, Some e, Some tab2)"
      "data_made z (P \<union> {d..<x}) b (x + 10) (mr_data r) Q b2 e tab2"
    using add_data [OF h(3) assms(4) fit] by blast
  then have dm: "same_below (x + 10) b b2" "built_names z Q b2 e tab2" "P \<union> {d..<x} \<subseteq> Q"
      "Q \<subseteq> (P \<union> {d..<x}) \<union> {x + 10..<e}" "x + 10 \<le> e" "e \<le> x + 10 + data_size (mr_data r)"
      "\<And>a. mr_data r = AData a \<Longrightarrow> e = x + 10 + 4 \<and> take 4 (drop (x + 10) b2) = be32 a"
    by (auto simp: data_made_def)
  have Px: "P \<union> {d..<x} \<subseteq> {..<x}" using assms(1) h(6) by (auto simp: built_names_def)
  have "e \<le> length buf" "length buf \<le> 0x4000" using dm(2) assms(1) dm(1) lenb by (auto simp: built_names_def same_below_def)
  then have small: "e - (x + 10) < 65536" by simp
  have nm: "name_in Q b2 d ls x"
    by (rule name_in_frame [OF h(4) _ _ dm(3)]) (use dm(1) Px fit in \<open>auto simp: same_below_def\<close>)
  have hd: "take 10 (drop x b2) = be16 ?t @ be16 (mr_rclass r) @ be32 (mr_ttl r) @ be16 0"
    using same_below_take [OF dm(1), of x 10] h(5) by simp
  have dis: "Q \<inter> {x + 10 - 2..<x + 10} = {}" using dm(4) Px by force
  obtain b3 where f: "mdns_htons b2 (x + 10 - 2) (of_nat (e - (x + 10))) = Some (b3, x + 10)"
      "built_names z Q b3 e tab2" "record_at Q b3 d ls ?t (mr_rclass r) (mr_ttl r) (x + 10) (e - (x + 10)) e"
      "same_below (x + 10 - 2) b2 b3" "\<And>j. x + 10 \<le> j \<Longrightarrow> j < length b2 \<Longrightarrow> b3 ! j = b2 ! j"
    using fill_length [OF dm(2) dis, of d ls ?t "mr_rclass r" "mr_ttl r"] nm hd dm(5) small by auto
  have l3: "length b3 = length b2" using f(4) by (simp add: same_below_def)
  have "take 4 (drop (x + 10) b3) = take 4 (drop (x + 10) b2)" if "e = x + 10 + 4"
    using f(5) l3 that dm(2) by (intro take_drop_cong) (auto simp: built_names_def)
  then have a: "\<forall>a. mr_data r = AData a \<longrightarrow> e = x + 10 + 4 \<and> take 4 (drop (x + 10) b3) = be32 a" using dm(7) by auto
  have "same_below d buf b2" using h(2) dm(1) by (rule same_below_trans) (use h(6) in simp)
  then have "same_below d buf b3" using f(4) by (rule same_below_trans) (use h(6) in simp)
  then have "record_made z P buf d r ls Q b3 (x + 10) e tab2"
    using f(2,3) dm(3,5,6) h(6,7) a assms(2) by (auto simp: record_made_def record_size_def)
  moreover have "?t \<noteq> MDNS_RECORDTYPE_TXT"
    using assms(4) by (cases "mr_data r") (simp_all add: MDNS_RECORDTYPE_TXT_def MDNS_RECORDTYPE_PTR_def
      MDNS_RECORDTYPE_SRV_def MDNS_RECORDTYPE_A_def MDNS_RECORDTYPE_AAAA_def)
  then have "mdns_answer_add_record (length buf) r (buf, Some d, Some tab) = Some (b3, Some e, Some tab2)"
    using h(1) dt(1) f(1) lenb by (simp add: mdns_answer_add_record_def)
  ultimately show ?thesis by blast
qed

section \<open>TXT records\<close>

definition txt_entry :: "string \<times> string \<Rightarrow> string" where
  "txt_entry kv = char_of (length (fst kv) + length (snd kv) + 1) # fst kv @ ''='' @ snd kv"

definition txt_bytes :: "(string \<times> string) list \<Rightarrow> string" where
  "txt_bytes kvs = concat (map txt_entry kvs)"

lemma txt_bytes_simps [simp]: "txt_bytes [] = []" "txt_bytes (kv # kvs) = txt_entry kv @ txt_bytes kvs"
  by (simp_all add: txt_bytes_def)

lemma length_txt_entry [simp]: "length (txt_entry kv) = length (fst kv) + length (snd kv) + 2"
  by (simp add: txt_entry_def)

text \<open>Keys are printable; an entry's length fits its byte.\<close>

definition txt_ok :: "string \<times> string \<Rightarrow> bool" where
  "txt_ok kv \<longleftrightarrow> fst kv \<noteq> [] \<and> length (fst kv) + length (snd kv) < 255 \<and>
     (\<forall>c \<in> set (fst kv). 0x20 \<le> (of_char c :: nat) \<and> of_char c \<le> (0x7E :: nat) \<and> c \<noteq> CHR ''='')"

lemma add_txt_loop_skip:
  "\<forall>r \<in> set rs. mdns_type_of (mr_data r) \<noteq> MDNS_RECORDTYPE_TXT \<Longrightarrow>
     add_txt_loop cap rclass ttl (rs @ ts) buf d table rd = add_txt_loop cap rclass ttl ts buf d table rd"
proof (induction rs)
  case (Cons r rs)
  then show ?case by (cases "mr_data r") auto
qed simp

definition is_txt :: "string \<Rightarrow> string \<times> string \<Rightarrow> mdns_record_t \<Rightarrow> bool" where
  "is_txt name kv r \<longleftrightarrow> mr_name r = name \<and> mr_data r = TxtData (fst kv) (snd kv)"

lemma add_txt_loop_entries:
  assumes "list_all2 (is_txt name) kvs rs" "\<forall>kv \<in> set kvs. txt_ok kv" "d + length (txt_bytes kvs) \<le> length buf"
  shows "add_txt_loop (length buf) rclass ttl rs buf d table (Some x) =
           Some ((mem_splice buf d (txt_bytes kvs), Some (d + length (txt_bytes kvs)), table), Some x)"
  using assms
proof (induction kvs rs arbitrary: buf d rule: list_all2_induct)
  case Nil
  then show ?case by (simp add: mem_splice_def)
next
  case (Cons kv kvs r rs)
  let ?n = "length (fst kv) + length (snd kv) + 1"
  let ?b1 = "mem_splice buf d [char_of ?n]"
  let ?b2 = "mem_splice ?b1 (d + 1) (fst kv @ ''='' @ snd kv)"
  have fit: "d + 1 + ?n \<le> length buf" using Cons.prems(2) by simp
  then have l: "length ?b1 = length buf" by simp
  have "?b2 = mem_splice buf d (txt_entry kv)"
    using splice_append [of d "[char_of ?n]" "fst kv @ ''='' @ snd kv" buf] fit by (simp add: txt_entry_def)
  moreover have l2: "length (mem_splice buf d (txt_entry kv)) = length buf" using fit by simp
  moreover have "wr8 buf d ?n = Some ?b1" "wr_mem ?b1 (d + 1) (fst kv @ ''='' @ snd kv) = Some ?b2"
    using fit l by (simp_all add: wr8_def)
  moreover have "\<not> (length buf - d \<le> ?n \<or> 0x3FFF < ?n)" using fit Cons.prems(1) by (auto simp: txt_ok_def)
  ultimately have "add_txt_loop (length buf) rclass ttl (r # rs) buf d table (Some x) =
      add_txt_loop (length buf) rclass ttl rs (mem_splice buf d (txt_entry kv)) (d + 1 + ?n) table (Some x)"
    using Cons.hyps(1) by (simp add: is_txt_def)
  also have "\<dots> = Some ((mem_splice (mem_splice buf d (txt_entry kv)) (d + 1 + ?n) (txt_bytes kvs),
      Some (d + 1 + ?n + length (txt_bytes kvs)), table), Some x)"
    using Cons.IH [of "d + 1 + ?n" "mem_splice buf d (txt_entry kv)"] Cons.prems l2 by simp
  also have "mem_splice (mem_splice buf d (txt_entry kv)) (d + 1 + ?n) (txt_bytes kvs) = mem_splice buf d (txt_bytes (kv # kvs))"
    using splice_append [of d "txt_entry kv" "txt_bytes kvs" buf] Cons.prems(2) by (simp add: eval_nat_numeral)
  finally show ?case by (simp add: eval_nat_numeral)
qed

definition txt_made ::
    "string \<Rightarrow> nat set \<Rightarrow> string \<Rightarrow> nat \<Rightarrow> string list \<Rightarrow> (string \<times> string) list \<Rightarrow> nat set \<Rightarrow> string \<Rightarrow> nat \<Rightarrow> nat \<Rightarrow>
     mdns_string_table \<Rightarrow> bool" where
  "txt_made z P buf d ls kvs P' buf' rd e tab' \<longleftrightarrow>
     same_below d buf buf' \<and> built_names z P' buf' e tab' \<and> P \<subseteq> P' \<and> d < e \<and>
     e \<le> d + length (dotted ls) + 11 + length (txt_bytes kvs) \<and>
     (\<exists>rclass ttl. record_at P' buf' d ls MDNS_RECORDTYPE_TXT rclass ttl rd (e - rd) e) \<and>
     e = rd + length (txt_bytes kvs) \<and> take (length (txt_bytes kvs)) (drop rd buf') = txt_bytes kvs"

lemma add_txt_record:
  assumes "built_names z P buf d tab" "name_ok z ls" "list_all2 (is_txt (dotted ls)) kvs ts" "kvs \<noteq> []"
    "\<forall>kv \<in> set kvs. txt_ok kv" "d + length (dotted ls) + 11 + length (txt_bytes kvs) \<le> length buf"
    "\<forall>r \<in> set rs. mdns_type_of (mr_data r) \<noteq> MDNS_RECORDTYPE_TXT"
  shows "\<exists>buf' rd e tab' P'. mdns_answer_add_txt_record (length buf) (rs @ ts) rclass ttl (buf, Some d, Some tab) =
             Some (buf', Some e, Some tab') \<and> txt_made z P buf d ls kvs P' buf' rd e tab'"
proof -
  obtain kv kvs' where kvs: "kvs = kv # kvs'" using assms(4) by (cases kvs) auto
  then obtain r ts' where ts: "ts = r # ts'" "is_txt (dotted ls) kv r" "list_all2 (is_txt (dotted ls)) kvs' ts'"
    using assms(3) by (auto simp: list_all2_Cons1)
  let ?r = "mdns_record_update_rclass_ttl rclass ttl r"
  let ?n = "length (txt_bytes kvs)"
  have r: "mr_name ?r = dotted ls" "mr_data ?r = TxtData (fst kv) (snd kv)" using ts(2) by (simp_all add: is_txt_def)
  have le: "d + length (dotted ls) + 11 \<le> length buf" using assms(6) by simp
  obtain b x tab1 where h: "mdns_answer_add_record_header (length buf) ?r buf d (Some tab) = Some (b, Some (x + 10), Some tab1)"
      "same_below d buf b" "built_names z (P \<union> {d..<x}) b (x + 10) tab1" "name_in (P \<union> {d..<x}) b d ls x"
      "take 10 (drop x b) = be16 (mdns_type_of (mr_data ?r)) @ be16 (mr_rclass ?r) @ be32 (mr_ttl ?r) @ be16 0"
      "d < x" "x \<le> d + length (dotted ls) + 1"
    by (rule add_header [OF assms(1) r(1) assms(2) le], rule that)
  have lenb: "length b = length buf" using h(2) by (simp add: same_below_def)
  have fit: "x + 10 + ?n \<le> length b" using h(7) assms(6) lenb by simp
  have Px: "P \<union> {d..<x} \<subseteq> {..<x}" using assms(1) h(6) by (auto simp: built_names_def)
  let ?b2 = "mem_splice b (x + 10) (txt_bytes kvs)"
  let ?e = "x + 10 + ?n"
  note raw = built_names_raw [OF h(3) fit]
  have rest: "add_txt_loop (length buf) rclass ttl ts b (x + 10) (Some tab1) (Some (x + 10)) =
      Some ((?b2, Some ?e, Some tab1), Some (x + 10))"
    using add_txt_loop_entries [OF assms(3,5) fit] lenb by simp
  have "add_txt_loop (length buf) rclass ttl ts buf d (Some tab) None =
      add_txt_loop (length buf) rclass ttl ts b (x + 10) (Some tab1) (Some (x + 10))"
    using h(1) ts(2) unfolding ts(1) by (simp add: is_txt_def)
  then have loop: "add_txt_loop (length buf) rclass ttl (rs @ ts) buf d (Some tab) None =
      Some ((?b2, Some ?e, Some tab1), Some (x + 10))"
    using rest add_txt_loop_skip [OF assms(7)] by simp
  have "length buf \<le> 0x4000" using assms(1) by (simp add: built_names_def)
  then have small: "?e - (x + 10) < 65536" using fit lenb by simp
  have nm: "name_in (P \<union> {d..<x}) ?b2 d ls x"
    by (rule name_in_frame [OF h(4) _ _ order_refl]) (use raw(2) Px fit in \<open>auto simp: same_below_def\<close>)
  have hd: "take 10 (drop x ?b2) = be16 MDNS_RECORDTYPE_TXT @ be16 (mr_rclass ?r) @ be32 (mr_ttl ?r) @ be16 0"
    using same_below_take [OF raw(2), of x 10] h(5) r(2) by simp
  have dis: "(P \<union> {d..<x}) \<inter> {x + 10 - 2..<x + 10} = {}" using Px by force
  obtain b3 where f: "mdns_htons ?b2 (x + 10 - 2) (of_nat (?e - (x + 10))) = Some (b3, x + 10)"
      "built_names z (P \<union> {d..<x}) b3 ?e tab1"
      "record_at (P \<union> {d..<x}) b3 d ls MDNS_RECORDTYPE_TXT (mr_rclass ?r) (mr_ttl ?r) (x + 10) (?e - (x + 10)) ?e"
      "same_below (x + 10 - 2) ?b2 b3" "\<And>j. x + 10 \<le> j \<Longrightarrow> j < length ?b2 \<Longrightarrow> b3 ! j = ?b2 ! j"
    using fill_length [OF raw(1) dis, of d ls MDNS_RECORDTYPE_TXT "mr_rclass ?r" "mr_ttl ?r"] nm hd small by auto
  have l3: "length b3 = length ?b2" using f(4) by (simp add: same_below_def)
  have "take ?n (drop (x + 10) b3) = take ?n (drop (x + 10) ?b2)"
    using f(5) l3 fit by (intro take_drop_cong) auto
  then have bytes: "take ?n (drop (x + 10) b3) = txt_bytes kvs" using raw(3) by simp
  have "same_below d buf ?b2" using h(2) raw(2) by (rule same_below_trans) (use h(6) in simp)
  then have "same_below d buf b3" using f(4) by (rule same_below_trans) (use h(6) in simp)
  moreover have "\<exists>c l. record_at (P \<union> {d..<x}) b3 d ls MDNS_RECORDTYPE_TXT c l (x + 10) (?e - (x + 10)) ?e" using f(3) by blast
  ultimately have "txt_made z P buf d ls kvs (P \<union> {d..<x}) b3 (x + 10) ?e tab1"
    using f(2) bytes h(6,7) unfolding txt_made_def by auto
  moreover have "mdns_answer_add_txt_record (length buf) (rs @ ts) rclass ttl (buf, Some d, Some tab) = Some (b3, Some ?e, Some tab1)"
    using loop f(1) by (simp add: mdns_answer_add_txt_record_def)
  ultimately show ?thesis by blast
qed

text \<open>Reading the entries back.\<close>

lemma txt_separator_key:
  assumes "\<forall>c \<in> set k. 0x20 \<le> (of_char c :: nat) \<and> of_char c \<le> (0x7E :: nat) \<and> c \<noteq> CHR ''=''"
  shows "txt_separator i (k @ CHR ''='' # v) = i + length k"
  using assms by (induction k arbitrary: i) (auto simp: Let_def)

lemma txt_loop_entries:
  assumes "\<forall>kv \<in> set kvs. txt_ok kv" "take (length (txt_bytes kvs)) (drop d buf) = txt_bytes kvs"
    "d + length (txt_bytes kvs) \<le> length buf" "length records + length kvs \<le> capacity"
  shows "txt_loop buf (d + length (txt_bytes kvs)) capacity d records = Some (records @ kvs)"
  using assms
proof (induction kvs arbitrary: d records)
  case Nil
  then show ?case by (subst txt_loop.simps) simp
next
  case (Cons kv kvs)
  obtain k v where kv: "kv = (k, v)" by (cases kv)
  let ?n = "length k + length v + 1"
  let ?tot = "length (txt_bytes (kv # kvs))"
  have ok: "k \<noteq> []" "?n < 256" and key: "\<forall>c \<in> set k. 0x20 \<le> (of_char c :: nat) \<and> of_char c \<le> (0x7E :: nat) \<and> c \<noteq> CHR ''=''"
    using Cons.prems(1) by (simp_all add: txt_ok_def kv)
  have split: "take (Suc ?n) (drop d buf) = txt_entry kv"
    "take (length (txt_bytes kvs)) (drop (d + Suc ?n) buf) = txt_bytes kvs"
    using take_drop_append [of ?tot d buf "txt_entry kv" "txt_bytes kvs"] Cons.prems(2) by (simp_all add: kv)
  have le: "d + Suc ?n \<le> length buf" using Cons.prems(3) by (simp add: kv)
  have entry: "take (Suc ?n) (drop d buf) = char_of ?n # k @ CHR ''='' # v" using split(1) by (simp add: txt_entry_def kv)
  have b0: "rd8 buf d = Some ?n"
  proof -
    have "buf ! d = take (Suc ?n) (drop d buf) ! 0" using le by simp
    then have "buf ! d = char_of ?n" unfolding entry by simp
    then show ?thesis using le ok by (simp add: of_char_of_nat)
  qed
  have b1: "rd_mem buf (d + 1) ?n = Some (k @ CHR ''='' # v)"
  proof -
    have "take ?n (drop (d + 1) buf) = drop 1 (take (Suc ?n) (drop d buf))" by (simp add: drop_take)
    then show ?thesis using entry le by simp
  qed
  have IH: "txt_loop buf (d + ?tot) capacity (d + ?n + 1) (records @ [(k, v)]) = Some (records @ kv # kvs)"
    using Cons.IH [of "d + Suc ?n" "records @ [(k, v)]"] Cons.prems(1,3,4) split(2)
    by (simp add: kv add.assoc)
  have "d < d + ?tot" "length records < capacity" "\<not> d + ?tot - d \<le> ?n" using Cons.prems(4) by (simp_all add: kv)
  then show ?case
    using b0 b1 IH ok txt_separator_key [OF key, of 0 v] by (subst txt_loop.simps) (simp add: Let_def)
qed

lemma parse_txt_entries:
  assumes "\<forall>kv \<in> set kvs. txt_ok kv" "take (length (txt_bytes kvs)) (drop d buf) = txt_bytes kvs"
    "d + length (txt_bytes kvs) \<le> sz" "sz \<le> length buf" "length kvs \<le> capacity"
  shows "mdns_record_parse_txt buf sz d (length (txt_bytes kvs)) capacity = Some kvs"
  using txt_loop_entries [OF assms(1,2), of "[]" capacity] assms(3-5) by (simp add: mdns_record_parse_txt_def Let_def)

end
