(* ===== verification/Mdns_Exchange.thy ===== *)
theory Mdns_Exchange
  imports Mdns_Records
begin

text \<open>
  A query, its answer and what the asking device learns from it: the messages one side builds are
  the messages the other side reads.
\<close>

section \<open>Names without references\<close>

definition wire_name :: "string list \<Rightarrow> string" where
  "wire_name ls = concat (map (\<lambda>l. char_of (length l) # l) ls) @ [CHR 0x00]"

lemma wire_name_simps [simp]: "wire_name [] = [CHR 0x00]" "wire_name (l # ls) = char_of (length l) # l @ wire_name ls"
  by (simp_all add: wire_name_def)

lemma length_wire_name: "length (wire_name ls) = length (dotted ls) + 1"
  by (induction ls) simp_all

lemma name_in_wire:
  assumes "take (length (wire_name ls)) (drop i buf) = wire_name ls" "i + length (wire_name ls) \<le> length buf" "\<forall>l \<in> set ls. label_ok l"
  shows "name_in {i..<i + length (wire_name ls)} buf i ls (i + length (wire_name ls))"
  using assms
proof (induction ls arbitrary: i)
  case Nil
  have "buf ! i = take 1 (drop i buf) ! 0" using Nil.prems(2) by simp
  then have "buf ! i = CHR 0x00" using Nil.prems(1) by (simp only: wire_name_simps length_Cons list.size) simp
  then show ?case using name_end [of i "{i..<i + 1}" buf] by simp
next
  case (Cons l ls)
  let ?w = "wire_name (l # ls)"
  have first: "take 1 (drop i buf) = [char_of (length l)]" "take (length (l @ wire_name ls)) (drop (i + 1) buf) = l @ wire_name ls"
    using take_drop_append [of "length ?w" i buf "[char_of (length l)]" "l @ wire_name ls"] Cons.prems(1) by simp_all
  have rest: "take (length l) (drop (i + 1) buf) = l" "take (length (wire_name ls)) (drop (i + 1 + length l) buf) = wire_name ls"
    using take_drop_append [OF first(2)] by simp_all
  have "buf ! i = take 1 (drop i buf) ! 0" using Cons.prems(2) by simp
  then have b: "buf ! i = char_of (length l)" unfolding first(1) by simp
  have e: "i + 1 + length l + length (wire_name ls) = i + length ?w" by simp
  have "name_in {i + 1 + length l..<i + 1 + length l + length (wire_name ls)} buf (i + 1 + length l) ls
      (i + 1 + length l + length (wire_name ls))"
    using rest(2) Cons.prems(2,3) by (intro Cons.IH) simp_all
  then have "name_in {i + 1 + length l..<i + length ?w} buf (i + 1 + length l) ls (i + length ?w)"
    unfolding e .
  then have "name_in {i..<i + length ?w} buf (i + 1 + length l) ls (i + length ?w)"
    by (rule name_in_frame) auto
  then show ?case using b rest(1) Cons.prems(3) by (intro name_label) auto
qed

lemma make_loop_plain:
  assumes "\<forall>l \<in> set ls. label_ok l" "d + length (wire_name ls) \<le> length buf"
    "ls \<noteq> [] \<Longrightarrow> last_pos = length (dotted pre)" "ls = [] \<Longrightarrow> length (dotted (pre @ ls)) - 1 \<le> last_pos"
  shows "make_loop buf (length buf) d (dotted (pre @ ls)) (length (dotted (pre @ ls)) - 1) last_pos None =
           Some (mem_splice buf d (wire_name ls), Some (d + length (wire_name ls)), None)"
  using assms
proof (induction ls arbitrary: pre d buf last_pos)
  case Nil
  then have "\<not> last_pos < length (dotted (pre @ [])) - 1" "d < length buf" by auto
  then show ?case by (subst make_loop.simps) (simp add: wr8_def char_of_0)
next
  case (Cons l ls)
  let ?name = "dotted (pre @ l # ls)"
  let ?len = "length ?name - 1"
  have l: "label_ok l" "l \<noteq> []" using Cons.prems(1) by (auto simp: label_ok_def)
  have lp: "last_pos = length (dotted pre)" using Cons.prems(3) by simp
  have lt: "last_pos < ?len" using l by (simp add: lp)
  have find: "mdns_string_find ?name ?len (CHR ''.'') last_pos = (if ls = [] then None else Some (last_pos + length l))"
    using find_dot [OF l(1), of "dotted pre" ls] by (simp add: lp)
  have sub: "(case mdns_string_find ?name ?len (CHR ''.'') last_pos of Some p \<Rightarrow> p | None \<Rightarrow> ?len) - last_pos = length l"
    unfolding find by (simp add: lp)
  have none: "mdns_string_table_find None buf (length buf) (drop last_pos ?name) (length l) (?len - last_pos) = Some None"
    by (simp add: mdns_string_table_find_def)
  let ?b1 = "mem_splice buf d [char_of (length l)]"
  let ?b = "mem_splice ?b1 (d + 1) l"
  have fit: "d + length l + 1 < length buf" "d + length l + 1 + length (wire_name ls) \<le> length buf"
    using Cons.prems(2) by (cases "wire_name ls"; simp add: wire_name_def)+
  then have len: "length ?b1 = length buf" "length ?b = length buf" by simp_all
  have b: "?b = mem_splice buf d (char_of (length l) # l)" using splice_append [of d "[char_of (length l)]" l buf] fit by simp
  let ?lp = "case mdns_string_find ?name ?len (CHR ''.'') last_pos of Some p \<Rightarrow> p + 1 | None \<Rightarrow> ?len"
  have "make_loop ?b (length ?b) (d + length l + 1) (dotted ((pre @ [l]) @ ls)) (length (dotted ((pre @ [l]) @ ls)) - 1) ?lp None =
      Some (mem_splice ?b (d + length l + 1) (wire_name ls), Some (d + length l + 1 + length (wire_name ls)), None)"
  proof (rule Cons.IH)
    show "\<forall>l \<in> set ls. label_ok l" "d + length l + 1 + length (wire_name ls) \<le> length ?b"
      using Cons.prems(1) fit(2) len by auto
    show "?lp = length (dotted (pre @ [l]))" if "ls \<noteq> []" using that unfolding find by (simp add: lp)
    show "length (dotted ((pre @ [l]) @ ls)) - 1 \<le> ?lp" if "ls = []" using that unfolding find by simp
  qed
  moreover have "mem_splice ?b (d + length l + 1) (wire_name ls) = mem_splice buf d (wire_name (l # ls))"
    using splice_append [of d "char_of (length l) # l" "wire_name ls" buf] fit(2) unfolding b by simp
  moreover have "wr8 buf d (length l) = Some ?b1" "wr_mem ?b1 (d + 1) (take (length l) (drop last_pos ?name)) = Some ?b"
    using fit(1) len(1) by (simp_all add: wr8_def lp)
  moreover have "\<not> length buf - d \<le> length l + 1" using fit(1) by simp
  ultimately show ?case
    using make_loop_step [OF lt sub none, of d] len
    by (simp add: mdns_string_table_add_def)
qed

lemma mdns_string_make_plain:
  assumes "\<forall>l \<in> set ls. label_ok l" "ls \<noteq> []" "d + length (wire_name ls) \<le> length buf"
  shows "mdns_string_make buf (length buf) d (dotted ls) None =
           Some (mem_splice buf d (wire_name ls), Some (d + length (wire_name ls)), None)"
proof -
  have ne: "dotted ls \<noteq> []" "last (dotted ls) = CHR ''.''"
    using assms(2) by (cases ls rule: rev_cases; simp)+
  show ?thesis
    using make_loop_plain [of ls d buf 0 "[]"] assms by (simp add: mdns_string_make_def ne)
qed

section \<open>The query\<close>

definition message_header :: "u16 \<Rightarrow> u16 \<Rightarrow> u16 \<Rightarrow> u16 \<Rightarrow> u16 \<Rightarrow> u16 \<Rightarrow> string" where
  "message_header a b c d e f = be16 a @ be16 b @ be16 c @ be16 d @ be16 e @ be16 f"

lemma length_message_header [simp]: "length (message_header a b c d e f) = 12"
  by (simp add: message_header_def)

definition query_message :: "u16 \<Rightarrow> u16 \<Rightarrow> u16 \<Rightarrow> string list \<Rightarrow> string" where
  "query_message qid rtype rclass ls =
     message_header qid 0 1 0 0 0 @ wire_name ls @ be16 rtype @ be16 rclass"

lemma take_splice: "i + length s \<le> length buf \<Longrightarrow> take (i + length s) (mem_splice buf i s) = take i buf @ s"
  by (simp add: mem_splice_def)

lemma query_send_message:
  assumes "\<forall>l \<in> set ls. label_ok l" "ls \<noteq> []" "16 + length (wire_name ls) \<le> length buf" "sk_send_ok sk" "sk_port sk = Some p"
  shows "\<exists>buf'. mdns_query_send sk rtype (dotted ls) buf qid = Some (True, buf',
           [(ToGroup, query_message qid rtype (if p = MDNS_PORT then 1 else 0x8001) ls)]) \<and> length buf' = length buf"
proof -
  let ?h = "message_header qid 0 1 0 0 0" and ?n = "length (wire_name ls)"
  define c :: u16 where "c = (if p = MDNS_PORT then 1 else 0x8001)"
  let ?b1 = "mem_splice buf 0 ?h" let ?b2 = "mem_splice ?b1 12 (wire_name ls)"
  let ?b3 = "mem_splice (mem_splice ?b2 (12 + ?n) (be16 rtype)) (14 + ?n) (be16 c)"
  have l1: "length ?b1 = length buf" using assms(3) by simp
  have l2: "length ?b2 = length buf" using assms(3) l1 by simp
  have l3: "length ?b3 = length buf" using assms(3) l2 by simp
  obtain l ls' where ls: "ls = l # ls'" using assms(2) by (cases ls) auto
  have n: "3 \<le> ?n" using assms(1) unfolding ls by (cases l) (auto simp: label_ok_def length_wire_name)
  have c: "(if sk_port sk = Some MDNS_PORT then (MDNS_CLASS_IN OR MDNS_UNICAST_RESPONSE) AND NOT MDNS_UNICAST_RESPONSE
      else MDNS_CLASS_IN OR MDNS_UNICAST_RESPONSE) = c"
    by (auto simp: c_def assms(5) MDNS_CLASS_IN_def MDNS_UNICAST_RESPONSE_def)
  have send: "mdns_multicast_send sk bytes = (True, [(ToGroup, bytes)])" for bytes
    by (simp add: mdns_multicast_send_def assms(4,5))
  have "put_header buf qid 0 (of_nat 1) 0 0 0 = Some ?b1" using assms(3) by (simp add: put_header_def message_header_def)
  moreover have "query_loop (length buf) c [(rtype, dotted ls)] ?b1 12 = Some (?b3, Some (16 + ?n))"
    using mdns_string_make_plain [of ls 12 ?b1] assms(1-3) l1 l2 by (simp add: eval_nat_numeral)
  moreover have "take (16 + ?n) ?b3 = query_message qid rtype c ls"
  proof -
    have "take 12 ?b1 = ?h" using take_splice [of 0 ?h buf] assms(3) by simp
    then have "take (12 + ?n) ?b2 = ?h @ wire_name ls" using take_splice [of 12 "wire_name ls" ?b1] assms(3) l1 by simp
    moreover have "?b3 = mem_splice ?b2 (12 + ?n) (be16 rtype @ be16 c)"
      using splice_append [of "12 + ?n" "be16 rtype" "be16 c" ?b2] assms(3) l2 by (simp add: eval_nat_numeral)
    ultimately show ?thesis
      using take_splice [of "12 + ?n" "be16 rtype @ be16 c" ?b2] assms(3) l2
      by (simp add: query_message_def eval_nat_numeral)
  qed
  ultimately have "mdns_query_send sk rtype (dotted ls) buf qid = Some (True, ?b3, [(ToGroup, query_message qid rtype c ls)])"
    using assms(3) n l3
    by (simp add: mdns_query_send_def mdns_multiquery_send_def Let_def c send del: query_loop.simps)
  then show ?thesis using l3 unfolding c_def by blast
qed

section \<open>Records in a row\<close>

definition named_ok :: "string \<Rightarrow> mdns_record_t \<Rightarrow> bool" where
  "named_ok z r \<longleftrightarrow> (\<exists>ls. mr_name r = dotted ls \<and> name_ok z ls \<and> length ls \<le> 64) \<and> data_ok z (mr_data r)"

primrec records_at :: "nat set \<Rightarrow> string \<Rightarrow> nat \<Rightarrow> mdns_record_t list \<Rightarrow> nat \<Rightarrow> bool" where
  "records_at P buf i [] e \<longleftrightarrow> e = i"
| "records_at P buf i (r # rs) e \<longleftrightarrow>
     (\<exists>ls rclass ttl rd n m. mr_name r = dotted ls \<and> length ls \<le> 64 \<and>
        record_at P buf i ls (mdns_type_of (mr_data r)) rclass ttl rd n m \<and>
        (\<forall>a. mr_data r = AData a \<longrightarrow> n = 4 \<and> take 4 (drop rd buf) = be32 a) \<and> records_at P buf m rs e)"

lemma name_in_less: "name_in P buf i ls e \<Longrightarrow> i < e"
  by (induction rule: name_in.induct) auto

lemma record_at_less: "record_at P buf i ls t c l rd n e \<Longrightarrow> i < e \<and> rd + n = e"
  using name_in_less by (fastforce simp: record_at_def)

lemma records_at_le: "records_at P buf i rs e \<Longrightarrow> i \<le> e"
  by (induction rs arbitrary: i) (fastforce dest: record_at_less)+

lemma records_at_below:
  assumes "P \<subseteq> {..<d}" "same_below d buf buf'" "P \<subseteq> Q" "d \<le> length buf"
  shows "records_at P buf i rs e \<Longrightarrow> e \<le> d \<Longrightarrow> records_at Q buf' i rs e"
proof (induction rs arbitrary: i)
  case (Cons r rs)
  then obtain ls c l rd n m where r: "mr_name r = dotted ls" "length ls \<le> 64"
      "record_at P buf i ls (mdns_type_of (mr_data r)) c l rd n m"
      "\<forall>a. mr_data r = AData a \<longrightarrow> n = 4 \<and> take 4 (drop rd buf) = be32 a" "records_at P buf m rs e"
    by auto
  have m: "m \<le> d" "rd + n = m" using records_at_le [OF r(5)] record_at_less [OF r(3)] Cons.prems(2) by auto
  have "record_at Q buf' i ls (mdns_type_of (mr_data r)) c l rd n m"
    by (rule record_at_below [OF r(3) assms(1) m(1) assms(2-4)])
  moreover have "take 4 (drop rd buf') = take 4 (drop rd buf)" if "n = 4"
    using m that by (intro same_below_take [OF assms(2)]) simp
  then have "\<forall>a. mr_data r = AData a \<longrightarrow> n = 4 \<and> take 4 (drop rd buf') = be32 a" using r(4) by metis
  moreover have "records_at Q buf' m rs e" by (rule Cons.IH [OF r(5) Cons.prems(2)])
  ultimately show ?case using r(1,2) unfolding records_at.simps by blast
qed simp

lemma is_txt_type: "list_all2 (is_txt name) kvs ts \<Longrightarrow> \<forall>r \<in> set ts. mdns_type_of (mr_data r) = MDNS_RECORDTYPE_TXT"
  by (induction rule: list_all2_induct) (auto simp: is_txt_def)

lemma data_ok_type: "data_ok z d \<Longrightarrow> mdns_type_of d \<noteq> MDNS_RECORDTYPE_TXT"
  by (cases d) (simp_all add: MDNS_RECORDTYPE_TXT_def MDNS_RECORDTYPE_PTR_def
      MDNS_RECORDTYPE_SRV_def MDNS_RECORDTYPE_A_def MDNS_RECORDTYPE_AAAA_def)

lemma add_records_Nil: "add_records n prep [] = Some"
  by (rule ext) simp

lemma add_records_txt:
  "\<forall>r \<in> set ts. mdns_type_of (mr_data (prep r)) = MDNS_RECORDTYPE_TXT \<Longrightarrow> add_records n prep ts (buf, Some d, t) = Some (buf, Some d, t)"
  by (induction ts) (auto simp: mdns_answer_add_record_def)

lemma add_records_names:
  assumes "\<And>r. mr_name (prep r) = mr_name r \<and> mr_data (prep r) = mr_data r"
    "\<forall>r \<in> set ts. mdns_type_of (mr_data r) = MDNS_RECORDTYPE_TXT"
  shows "built_names z P buf d tab \<Longrightarrow> \<forall>r \<in> set rs. named_ok z r \<Longrightarrow> d + sum_list (map record_size rs) \<le> length buf \<Longrightarrow>
    \<exists>buf' e tab' P'. add_records (length buf) prep (rs @ ts) (buf, Some d, Some tab) = Some (buf', Some e, Some tab') \<and>
      same_below d buf buf' \<and> built_names z P' buf' e tab' \<and> P \<subseteq> P' \<and> records_at P' buf' d rs e \<and>
      e \<le> d + sum_list (map record_size rs)"
proof (induction rs arbitrary: buf d tab P)
  case Nil
  then show ?case using assms(2) add_records_txt [of ts prep "length buf" buf d "Some tab"] assms(1)
    by (intro exI [of _ buf] exI [of _ d] exI [of _ tab] exI [of _ P]) auto
next
  case (Cons r rs)
  then obtain ls where ls: "mr_name (prep r) = dotted ls" "name_ok z ls" "length ls \<le> 64" "data_ok z (mr_data (prep r))"
    using assms(1) by (auto simp: named_ok_def)
  have sz: "record_size (prep r) = record_size r" using assms(1) by (simp add: record_size_def)
  have fit: "d + record_size (prep r) \<le> length buf" using Cons.prems(3) sz by simp
  obtain b rd m tab1 Q where 1: "mdns_answer_add_record (length buf) (prep r) (buf, Some d, Some tab) = Some (b, Some m, Some tab1)"
      "record_made z P buf d (prep r) ls Q b rd m tab1"
    using add_record [OF Cons.prems(1) ls(1,2,4) fit] by blast
  then have rm: "same_below d buf b" "built_names z Q b m tab1" "P \<subseteq> Q" "d < m" "m \<le> d + record_size r"
      "record_at Q b d ls (mdns_type_of (mr_data r)) (mr_rclass (prep r)) (mr_ttl (prep r)) rd (m - rd) m"
      "\<forall>a. mr_data r = AData a \<longrightarrow> m = rd + 4 \<and> take 4 (drop rd b) = be32 a"
    using assms(1) sz by (auto simp: record_made_def)
  have len: "length b = length buf" using rm(1) by (simp add: same_below_def)
  have "m + sum_list (map record_size rs) \<le> length b" using Cons.prems(3) rm(5) len by simp
  then obtain b2 e tab2 P' where 2: "add_records (length buf) prep (rs @ ts) (b, Some m, Some tab1) = Some (b2, Some e, Some tab2)"
      "same_below m b b2" "built_names z P' b2 e tab2" "Q \<subseteq> P'" "records_at P' b2 m rs e" "e \<le> m + sum_list (map record_size rs)"
    using Cons.IH [OF rm(2)] Cons.prems(2) len by auto
  have Qm: "Q \<subseteq> {..<m}" "m \<le> length b" using rm(2) by (auto simp: built_names_def)
  have "record_at P' b2 d ls (mdns_type_of (mr_data r)) (mr_rclass (prep r)) (mr_ttl (prep r)) rd (m - rd) m"
    using rm(6) Qm(1) order_refl 2(2,4) Qm(2) by (rule record_at_below)
  moreover have "take 4 (drop rd b2) = take 4 (drop rd b)" if "m = rd + 4"
    using that by (intro same_below_take [OF 2(2)]) simp
  then have "\<forall>a. mr_data r = AData a \<longrightarrow> m - rd = 4 \<and> take 4 (drop rd b2) = be32 a" using rm(7) by (metis add_diff_cancel_left')
  moreover have "mr_name r = dotted ls" using ls(1) assms(1) by simp
  ultimately have "records_at P' b2 d (r # rs) e" using ls(3) 2(5) unfolding records_at.simps by blast
  moreover have "same_below d buf b2" using rm(1) 2(2) rm(4) by (auto intro: same_below_trans)
  moreover have "add_records (length buf) prep ((r # rs) @ ts) (buf, Some d, Some tab) = Some (b2, Some e, Some tab2)"
    using 1(1) 2(1) by simp
  moreover have "P \<subseteq> P'" "e \<le> d + sum_list (map record_size (r # rs))" using 2(4,6) rm(3,5) by auto
  ultimately show ?case using 2(3) by blast
qed

section \<open>The answer\<close>

definition answer_at ::
    "nat set \<Rightarrow> string \<Rightarrow> u16 \<Rightarrow> string list \<Rightarrow> mdns_record_t list \<Rightarrow> mdns_record_t list \<Rightarrow> (string \<times> string) list \<Rightarrow> nat \<Rightarrow> bool" where
  "answer_at P buf qid lq as rs kvs e \<longleftrightarrow> e \<le> length buf \<and> P \<subseteq> {..<e} \<and>
     take 12 buf = message_header qid 0x8400 1 (of_nat (length as)) 0 (of_nat (length rs + 1)) \<and>
     (\<exists>q a r li c l rd. name_in P buf 12 lq q \<and> length lq \<le> 64 \<and> records_at P buf (q + 4) as a \<and> records_at P buf a rs r \<and>
        record_at P buf r li MDNS_RECORDTYPE_TXT c l rd (e - rd) e \<and> length li \<le> 64 \<and>
        e = rd + length (txt_bytes kvs) \<and> take (length (txt_bytes kvs)) (drop rd buf) = txt_bytes kvs)"

lemma answer_atI:
  assumes "e \<le> length buf" "P \<subseteq> {..<e}"
    "take 12 buf = message_header qid 0x8400 1 (of_nat (length as)) 0 (of_nat (length rs + 1))"
    "name_in P buf 12 lq q" "length lq \<le> 64" "records_at P buf (q + 4) as a" "records_at P buf a rs r"
    "record_at P buf r li MDNS_RECORDTYPE_TXT c l rd (e - rd) e" "length li \<le> 64"
    "e = rd + length (txt_bytes kvs)" "take (length (txt_bytes kvs)) (drop rd buf) = txt_bytes kvs"
  shows "answer_at P buf qid lq as rs kvs e"
  using assms unfolding answer_at_def by blast

lemma answer_at_below:
  assumes "answer_at P buf qid lq as rs kvs e" "same_below e buf buf'"
  shows "answer_at P buf' qid lq as rs kvs e"
proof -
  obtain q a r li c l rd where h: "e \<le> length buf" "P \<subseteq> {..<e}"
      "take 12 buf = message_header qid 0x8400 1 (of_nat (length as)) 0 (of_nat (length rs + 1))"
      "name_in P buf 12 lq q" "length lq \<le> 64" "records_at P buf (q + 4) as a" "records_at P buf a rs r"
      "record_at P buf r li MDNS_RECORDTYPE_TXT c l rd (e - rd) e" "length li \<le> 64"
      "e = rd + length (txt_bytes kvs)" "take (length (txt_bytes kvs)) (drop rd buf) = txt_bytes kvs"
    using assms(1) by (auto simp: answer_at_def)
  have le: "a \<le> r" "r < e" "q + 4 \<le> a" "12 < q"
    using records_at_le [OF h(7)] record_at_less [OF h(8)] records_at_le [OF h(6)] name_in_less [OF h(4)] by auto
  note below = h(2) assms(2) order_refl h(1)
  have "name_in P buf' 12 lq q" by (rule name_in_below [OF h(4) below])
  moreover have "records_at P buf' (q + 4) as a" "records_at P buf' a rs r"
    using records_at_below [OF below h(6)] records_at_below [OF below h(7)] le by auto
  moreover have "record_at P buf' r li MDNS_RECORDTYPE_TXT c l rd (e - rd) e"
    by (rule record_at_below [OF h(8,2) order_refl assms(2) order_refl h(1)])
  moreover have "take 12 buf' = take 12 buf" using same_below_take [OF assms(2), of 0 12] le by simp
  moreover have "take (length (txt_bytes kvs)) (drop rd buf') = take (length (txt_bytes kvs)) (drop rd buf)"
    using h(10) by (intro same_below_take [OF assms(2)]) simp
  moreover have "e \<le> length buf'" using assms(2) h(1) by (simp add: same_below_def)
  ultimately show ?thesis using h unfolding answer_at_def by metis
qed

lemma record_count:
  assumes "\<forall>r \<in> set rs. mdns_type_of (mr_data r) \<noteq> MDNS_RECORDTYPE_TXT"
    "\<forall>r \<in> set ts. mdns_type_of (mr_data r) = MDNS_RECORDTYPE_TXT" "ts \<noteq> []"
  shows "mdns_answer_get_record_count (rs @ ts) = of_nat (length rs + 1)"
proof -
  have "filter (\<lambda>r. mdns_type_of (mr_data r) \<noteq> MDNS_RECORDTYPE_TXT) (rs @ ts) = rs"
    using assms(1,2) by (simp add: filter_id_conv filter_empty_conv)
  moreover have "list_ex (\<lambda>r. mdns_type_of (mr_data r) = MDNS_RECORDTYPE_TXT) (rs @ ts)"
    using assms(2,3) by (cases ts) auto
  ultimately show ?thesis by (simp add: mdns_answer_get_record_count_def add.commute)
qed

lemma answer_message:
  assumes "name_ok z lq" "length lq \<le> 64" "named_ok z answer" "\<forall>r \<in> set rs. named_ok z r"
    "list_all2 (is_txt (dotted li)) kvs ts" "kvs \<noteq> []" "name_ok z li" "length li \<le> 64" "\<forall>kv \<in> set kvs. txt_ok kv"
    "17 + length (dotted lq) + record_size answer + sum_list (map record_size rs) + length (dotted li) + 11 +
       length (txt_bytes kvs) \<le> length buf" "length buf \<le> 0x4000" "sk_send_ok sk" "48 \<le> length buf"
  shows "\<exists>buf' P e. mdns_query_answer_unicast sk addr buf qid rtype (dotted lq) answer [] (rs @ ts) =
           Some (True, buf', [(ToAddress addr, take e buf')]) \<and> length buf' = length buf \<and> 12 \<le> e \<and>
           answer_at P buf' qid lq [answer] rs kvs e"
proof -
  let ?n = "length buf"
  have ts: "\<forall>r \<in> set ts. mdns_type_of (mr_data r) = MDNS_RECORDTYPE_TXT" "ts \<noteq> []"
    using is_txt_type [OF assms(5)] assms(5,6) by auto
  have rs: "\<forall>r \<in> set rs. mdns_type_of (mr_data r) \<noteq> MDNS_RECORDTYPE_TXT"
    using assms(4) data_ok_type by (auto simp: named_ok_def)
  let ?h = "message_header qid 0x8400 1 1 0 (of_nat (length rs + 1))"
  let ?b0 = "mem_splice buf 0 ?h"
  have l0: "length ?b0 = ?n" using assms(10) by simp
  have hdr: "put_header buf qid 0x8400 1 1 (mdns_answer_get_record_count []) (mdns_answer_get_record_count (rs @ ts)) = Some ?b0"
    unfolding record_count [OF rs ts] using assms(10)
    by (simp add: put_header_def message_header_def mdns_answer_get_record_count_def)
  have h0: "take 12 ?b0 = ?h" using take_splice [of 0 ?h buf] assms(10) by simp
  have bn0: "built_names z {} ?b0 12 new_string_table" using assms(10,11) l0 by (simp add: built_names_def)
  obtain b1 q t1 where q: "mdns_string_make ?b0 (length ?b0) 12 (dotted lq) (Some new_string_table) = Some (b1, Some q, Some t1)"
      "same_below 12 ?b0 b1" "built_names z ({} \<union> {12..<q}) b1 q t1" "name_in ({} \<union> {12..<q}) b1 12 lq q"
      "12 < q" "q \<le> 12 + length (dotted lq) + 1"
    by (rule make_name [OF bn0 assms(1)]) (use assms(10) l0 in simp, rule that)
  have l1: "length b1 = ?n" using q(2) l0 by (simp add: same_below_def)
  let ?tc = "be16 rtype @ be16 (MDNS_UNICAST_RESPONSE OR MDNS_CLASS_IN)"
  let ?b2 = "mem_splice b1 q ?tc"
  have fit2: "q + length ?tc \<le> length b1" using q(6) assms(10) l1 by simp
  note raw = built_names_raw [OF q(3) fit2]
  have l2: "length ?b2 = ?n" using fit2 l1 by simp
  have "mem_splice (mem_splice b1 q (be16 rtype)) (q + 2) (be16 (MDNS_UNICAST_RESPONSE OR MDNS_CLASS_IN)) = ?b2"
    using splice_append [of q "be16 rtype" "be16 (MDNS_UNICAST_RESPONSE OR MDNS_CLASS_IN)" b1] fit2 by simp
  then have question: "mdns_answer_add_question_unicast ?n rtype (dotted lq) ?b0 12 (Some new_string_table) = Some (?b2, Some (q + 4), Some t1)"
    using q(1) fit2 l0 l1 by (simp add: mdns_answer_add_question_unicast_def eval_nat_numeral)
  let ?P1 = "{} \<union> {12..<q}"
  have bn2: "built_names z ?P1 ?b2 (q + 4) t1" using raw(1) by simp
  have prep: "mr_name (answer\<lparr>mr_rclass := MDNS_CLASS_IN, mr_ttl := 10\<rparr>) = mr_name answer \<and>
      mr_data (answer\<lparr>mr_rclass := MDNS_CLASS_IN, mr_ttl := 10\<rparr>) = mr_data answer" by simp
  have fit3: "q + 4 + record_size answer \<le> length ?b2" using q(6) assms(10) l2 by simp
  let ?prep = "\<lambda>r. r\<lparr>mr_rclass := MDNS_CLASS_IN, mr_ttl := 10\<rparr> :: mdns_record_t"
  have ex: "\<exists>buf' e tab' P'. add_records (length ?b2) ?prep ([answer] @ []) (?b2, Some (q + 4), Some t1) = Some (buf', Some e, Some tab') \<and>
      same_below (q + 4) ?b2 buf' \<and> built_names z P' buf' e tab' \<and> ?P1 \<subseteq> P' \<and> records_at P' buf' (q + 4) [answer] e \<and>
      e \<le> q + 4 + sum_list (map record_size [answer])"
    by (rule add_records_names [OF _ _ bn2]) (use assms(3) fit3 in simp_all)
  have single: "sum_list (map record_size [answer]) = record_size answer"
    "add_records (length ?b2) (\<lambda>r. r\<lparr>mr_rclass := MDNS_CLASS_IN, mr_ttl := 10\<rparr>) ([answer] @ []) (?b2, Some (q + 4), Some t1) =
      mdns_answer_add_record (length ?b2) (answer\<lparr>mr_rclass := MDNS_CLASS_IN, mr_ttl := 10\<rparr>) (?b2, Some (q + 4), Some t1)"
    by (simp_all add: add_records_Nil)
  obtain b3 a t3 P3 where a: "mdns_answer_add_record ?n (answer\<lparr>mr_rclass := MDNS_CLASS_IN, mr_ttl := 10\<rparr>) (?b2, Some (q + 4), Some t1) =
        Some (b3, Some a, Some t3)" "same_below (q + 4) ?b2 b3" "built_names z P3 b3 a t3" "?P1 \<subseteq> P3"
      "records_at P3 b3 (q + 4) [answer] a" "a \<le> q + 4 + record_size answer"
    using ex unfolding l2 single [unfolded l2] by blast
  have l3: "length b3 = ?n" using a(2) l2 by (simp add: same_below_def)
  have none: "mdns_answer_add_txt_record ?n [] MDNS_CLASS_IN 10 (b3, Some a, Some t3) = Some (b3, Some a, Some t3)"
    by (simp add: mdns_answer_add_txt_record_def)
  have "a + sum_list (map record_size rs) \<le> length b3" using a(6) q(6) assms(10) l3 by simp
  then obtain b4 r t4 P4 where r: "add_records ?n (unicast_prep MDNS_CLASS_IN 10) (rs @ ts) (b3, Some a, Some t3) = Some (b4, Some r, Some t4)"
      "same_below a b3 b4" "built_names z P4 b4 r t4" "P3 \<subseteq> P4" "records_at P4 b4 a rs r" "r \<le> a + sum_list (map record_size rs)"
    using add_records_names [OF _ ts(1) a(3) assms(4), of "unicast_prep MDNS_CLASS_IN 10"] l3 by auto
  have l4: "length b4 = ?n" using r(2) l3 by (simp add: same_below_def)
  have fit5: "r + length (dotted li) + 11 + length (txt_bytes kvs) \<le> length b4" using r(6) a(6) q(6) assms(10) l4 by simp
  obtain b5 rd e t5 P5 where x: "mdns_answer_add_txt_record ?n (rs @ ts) MDNS_CLASS_IN 10 (b4, Some r, Some t4) = Some (b5, Some e, Some t5)"
      "txt_made z P4 b4 r li kvs P5 b5 rd e t5"
    using add_txt_record [OF r(3) assms(7,5,6,9) fit5 rs, of MDNS_CLASS_IN 10] l4 by auto
  then obtain c l where tm: "same_below r b4 b5" "built_names z P5 b5 e t5" "P4 \<subseteq> P5" "r < e"
      "record_at P5 b5 r li MDNS_RECORDTYPE_TXT c l rd (e - rd) e" "e = rd + length (txt_bytes kvs)"
      "take (length (txt_bytes kvs)) (drop rd b5) = txt_bytes kvs"
    by (auto simp: txt_made_def)
  have le: "q + 4 \<le> a" "a \<le> r" using records_at_le [OF a(5)] records_at_le [OF r(5)] by auto
  note b45 = tm(1)
  have b35: "same_below a b3 b5" by (rule same_below_trans [OF r(2) b45 le(2)])
  have b25: "same_below (q + 4) ?b2 b5" by (rule same_below_trans [OF a(2) b35 le(1)])
  have b15: "same_below q b1 b5" by (rule same_below_trans [OF raw(2) b25]) simp
  have b05: "same_below 12 ?b0 b5" by (rule same_below_trans [OF q(2) b15]) (use q(5) in simp)
  have bounds: "P4 \<subseteq> {..<r}" "r \<le> length b4" "P3 \<subseteq> {..<a}" "a \<le> length b3" "?P1 \<subseteq> {..<q}" "q \<le> length b1" "P5 \<subseteq> {..<e}" "e \<le> length b5"
    using r(3) a(3) q(3) tm(2) by (auto simp: built_names_def)
  have sub: "P3 \<subseteq> P5" "?P1 \<subseteq> P5" using a(4) r(4) tm(3) by auto
  have "name_in P5 b5 12 lq q" by (rule name_in_below [OF q(4) bounds(5) b15 sub(2) bounds(6)])
  moreover have "records_at P5 b5 (q + 4) [answer] a" by (rule records_at_below [OF bounds(3) b35 sub(1) bounds(4) a(5) order_refl])
  moreover have "records_at P5 b5 a rs r" by (rule records_at_below [OF bounds(1) b45 tm(3) bounds(2) r(5) order_refl])
  moreover have "take 12 b5 = ?h" using same_below_take [OF b05, of 0 12] h0 by simp
  ultimately have "answer_at P5 b5 qid lq [answer] rs kvs e"
    using answer_atI [where qid = qid and as = "[answer]" and rs = rs and lq = lq and q = q and a = a,
        OF bounds(8,7) _ _ assms(2) _ _ tm(5) assms(8) tm(6,7)] by simp
  moreover have "mdns_query_answer_unicast sk addr buf qid rtype (dotted lq) answer [] (rs @ ts) =
      Some (True, b5, [(ToAddress addr, take e b5)])"
    using hdr question a(1) none r(1) x(1) assms(12,13)
    by (simp add: mdns_query_answer_unicast_def mdns_unicast_send_def Let_def)
  moreover have "12 \<le> e" "length b5 = ?n" using tm(1,4) le q(5) l4 by (auto simp: same_below_def)
  ultimately show ?thesis by blast
qed

end
