(* ===== verification/Mdns_Peers.thy ===== *)
theory Mdns_Peers
  imports Mdns_Exchange
begin

text \<open>
  The receiving side: what the parsers make of the query and of the answer, and the properties of
  mDNS discovery.
\<close>

section \<open>Parsing what was built\<close>

lemma header_numbers:
  assumes "take 12 buf = message_header a b c d e f"
  shows "mdns_ntohs buf 0 = Some a" "mdns_ntohs buf 2 = Some b" "mdns_ntohs buf 4 = Some c"
    "mdns_ntohs buf 6 = Some d" "mdns_ntohs buf 8 = Some e" "mdns_ntohs buf 10 = Some f"
proof -
  have 0: "take 12 (drop 0 buf) = be16 a @ be16 b @ be16 c @ be16 d @ be16 e @ be16 f"
    using assms by (simp add: message_header_def)
  note s1 = take_drop_append [OF 0, simplified]
  note s2 = take_drop_append [OF s1(2), simplified]
  note s3 = take_drop_append [OF s2(2), simplified]
  note s4 = take_drop_append [OF s3(2), simplified]
  note s5 = take_drop_append [OF s4(2), simplified]
  show "mdns_ntohs buf 0 = Some a" "mdns_ntohs buf 2 = Some b" "mdns_ntohs buf 4 = Some c"
    "mdns_ntohs buf 6 = Some d" "mdns_ntohs buf 8 = Some e" "mdns_ntohs buf 10 = Some f"
    using s1(1) s2(1) s3(1) s4(1) s5 by (auto intro!: ntohs_be16 simp: eval_nat_numeral)
qed

definition record_event :: "mdns_entry_type \<Rightarrow> u16 \<Rightarrow> u16 \<Rightarrow> u16 \<Rightarrow> u32 \<Rightarrow> nat \<Rightarrow> nat \<Rightarrow> nat \<Rightarrow> mdns_event" where
  "record_event entry qid rtype rclass ttl i rd n =
     \<lparr>me_entry = entry, me_query_id = qid, me_rtype = rtype, me_rclass = rclass, me_ttl = ttl,
      me_name_offset = i, me_name_length = rd - 10 - i, me_record_offset = rd, me_record_length = n\<rparr>"

lemma records_loop_record:
  assumes "record_at P buf i ls rtype rclass ttl rd n e" "P \<subseteq> {..<sz}" "e \<le> sz" "sz \<le> length buf" "length ls \<le> 64"
    "cb buf sz (record_event entry qid rtype rclass ttl i rd n) a = Some (False, a')"
  shows "records_loop cb buf sz entry qid (Suc k) i parsed a = records_loop cb buf sz entry qid k e (parsed + 1) a'"
proof -
  obtain d where d: "name_in P buf i ls d" "rd = d + 10" "e = rd + n" "n < 65536"
      "take 10 (drop d buf) = be16 rtype @ be16 rclass @ be32 ttl @ be16 (of_nat n)"
    using assms(1) by (auto simp: record_at_def)
  note s1 = take_drop_append [OF d(5), simplified]
  note s2 = take_drop_append [OF s1(2), simplified]
  note s3 = take_drop_append [OF s2(2), simplified]
  have n: "mdns_ntohs buf d = Some rtype" "mdns_ntohs buf (d + 2) = Some rclass" "mdns_ntohl buf (d + 4) = Some ttl"
    "mdns_ntohs buf (d + 8) = Some (of_nat n)"
    using s1(1) s2(1) s3 by (auto intro!: ntohs_be16 ntohl_be32 simp: eval_nat_numeral)
  have "mdns_string_skip buf sz i = Some (Some d)"
    by (rule mdns_string_skip_name [OF d(1) assms(2,4,5)])
  moreover have "n \<le> sz - (d + 10)" using d(2,3) assms(3) by simp
  ultimately show ?thesis
    using n d(2,3) assms(3,6) unat_of_nat16 [OF d(4)] by (simp add: Let_def record_event_def)
qed

text \<open>What one record tells the asking device.\<close>

definition first_label :: "string \<Rightarrow> string" where
  "first_label name = (case find_if (\<lambda>c. c = CHR ''.'') name of Some dot \<Rightarrow> take dot name | None \<Rightarrow> name)"

fun learn :: "sockaddr_in option \<Rightarrow> mdns_record_t \<Rightarrow> query_state \<Rightarrow> query_state" where
  "learn from_addr r st =
     (case mr_data r of
        PtrData _ \<Rightarrow> st\<lparr>qs_instance_id := first_label (mr_name r), qs_host := sockaddr_to_ipv4_string from_addr, qs_saw_ptr := True\<rparr>
      | AData a \<Rightarrow> st\<lparr>qs_host := ipv4_to_string a\<rparr>
      | _ \<Rightarrow> st)"

lemma rtype_neq [simp]:
  "MDNS_RECORDTYPE_SRV \<noteq> MDNS_RECORDTYPE_PTR" "MDNS_RECORDTYPE_A \<noteq> MDNS_RECORDTYPE_PTR" "MDNS_RECORDTYPE_AAAA \<noteq> MDNS_RECORDTYPE_PTR"
  "MDNS_RECORDTYPE_SRV \<noteq> MDNS_RECORDTYPE_A" "MDNS_RECORDTYPE_AAAA \<noteq> MDNS_RECORDTYPE_A" "MDNS_RECORDTYPE_TXT \<noteq> MDNS_RECORDTYPE_A"
  "MDNS_RECORDTYPE_SRV \<noteq> MDNS_RECORDTYPE_TXT" "MDNS_RECORDTYPE_A \<noteq> MDNS_RECORDTYPE_TXT" "MDNS_RECORDTYPE_AAAA \<noteq> MDNS_RECORDTYPE_TXT"
  "MDNS_RECORDTYPE_TXT \<noteq> MDNS_RECORDTYPE_PTR"
  by (simp_all add: MDNS_RECORDTYPE_TXT_def MDNS_RECORDTYPE_PTR_def MDNS_RECORDTYPE_SRV_def MDNS_RECORDTYPE_A_def MDNS_RECORDTYPE_AAAA_def)

lemma discovery_callback_record:
  assumes "record_at P buf i ls (mdns_type_of (mr_data r)) rclass ttl rd n e" "P \<subseteq> {..<sz}" "e \<le> sz" "sz \<le> length buf"
    "mr_name r = dotted ls" "length ls \<le> 64" "length (mr_name r) \<le> 256" "data_ok z (mr_data r)"
    "\<forall>a. mr_data r = AData a \<longrightarrow> n = 4 \<and> take 4 (drop rd buf) = be32 a"
  shows "discovery_callback from_addr buf sz (record_event entry qid (mdns_type_of (mr_data r)) rclass ttl i rd n) st =
           Some (False, learn from_addr r st)"
proof -
  obtain d where d: "name_in P buf i ls d" using assms(1) by (auto simp: record_at_def)
  have x: "mdns_string_extract buf sz i 256 = Some (dotted ls, d)"
    using assms(5,7) by (intro mdns_string_extract_name [OF d assms(2,4,6)]) simp
  have "rd + n = e" using record_at_less [OF assms(1)] by simp
  then have "mdns_record_parse_a buf sz rd n = Some a" if "mr_data r = AData a" for a
    using assms(3,9) that ntohl_be32 by (simp add: mdns_record_parse_a_def)
  then show ?thesis
    using x assms(5,8) by (cases "mr_data r") (auto simp: discovery_callback_def record_event_def first_label_def split: option.splits)
qed

lemma records_loop_learn:
  assumes "P \<subseteq> {..<sz}" "sz \<le> length buf"
  shows "records_at P buf i rs e \<Longrightarrow> e \<le> sz \<Longrightarrow> \<forall>r \<in> set rs. data_ok z (mr_data r) \<and> length (mr_name r) \<le> 256 \<Longrightarrow>
    records_loop (discovery_callback from_addr) buf sz entry qid (length rs + k) i parsed st =
    records_loop (discovery_callback from_addr) buf sz entry qid k e (parsed + length rs) (fold (learn from_addr) rs st)"
proof (induction rs arbitrary: i parsed st)
  case (Cons r rs)
  then obtain ls c l rd n m where r: "mr_name r = dotted ls" "length ls \<le> 64"
      "record_at P buf i ls (mdns_type_of (mr_data r)) c l rd n m"
      "\<forall>a. mr_data r = AData a \<longrightarrow> n = 4 \<and> take 4 (drop rd buf) = be32 a" "records_at P buf m rs e"
    by auto
  have m: "m \<le> sz" using records_at_le [OF r(5)] Cons.prems(2) by simp
  have "discovery_callback from_addr buf sz (record_event entry qid (mdns_type_of (mr_data r)) c l i rd n) st = Some (False, learn from_addr r st)"
    using Cons.prems(3) by (intro discovery_callback_record [OF r(3) assms(1) m assms(2) r(1,2) _ _ r(4)]) auto
  from records_loop_record [where cb = "discovery_callback from_addr" and a = st and a' = "learn from_addr r st",
      OF r(3) assms(1) m assms(2) r(2) this]
  show ?case using Cons.IH [OF r(5) Cons.prems(2)] Cons.prems(3) by simp
qed simp

lemma discovery_callback_txt:
  assumes "record_at P buf i ls MDNS_RECORDTYPE_TXT rclass ttl rd (length (txt_bytes kvs)) e" "e \<le> sz" "sz \<le> length buf"
    "take (length (txt_bytes kvs)) (drop rd buf) = txt_bytes kvs" "\<forall>kv \<in> set kvs. txt_ok kv" "length kvs \<le> 16"
  shows "discovery_callback from_addr buf sz (record_event entry qid MDNS_RECORDTYPE_TXT rclass ttl i rd (length (txt_bytes kvs))) st =
           Some (False, case map_of kvs ''id'' of Some v \<Rightarrow> st\<lparr>qs_device_id := v\<rparr> | None \<Rightarrow> st)"
proof -
  have "rd + length (txt_bytes kvs) \<le> sz" using record_at_less [OF assms(1)] assms(2) by simp
  then have p: "mdns_record_parse_txt buf sz rd (length (txt_bytes kvs)) 16 = Some kvs"
    using assms by (intro parse_txt_entries) auto
  have "(case List.find (\<lambda>(k, v). k = ''id'') kvs of Some (_, v) \<Rightarrow> st\<lparr>qs_device_id := v\<rparr> | None \<Rightarrow> st) =
      (case map_of kvs ''id'' of Some v \<Rightarrow> st\<lparr>qs_device_id := v\<rparr> | None \<Rightarrow> st)"
    by (induction kvs) auto
  then show ?thesis using p by (simp add: discovery_callback_def record_event_def)
qed

text \<open>The whole answer.\<close>

lemma query_recv_answer:
  assumes "answer_at P buf qid lq as rs kvs e" "length buf = length dbuf" "12 \<le> e" "length as < 65536" "length rs + 1 < 65536"
    "\<forall>r \<in> set (as @ rs). data_ok z (mr_data r) \<and> length (mr_name r) \<le> 256" "\<forall>kv \<in> set kvs. txt_ok kv" "length kvs \<le> 16"
  shows "\<exists>b n. mdns_query_recv (discovery_callback from_addr) 0 dbuf (Some (take e buf)) st =
           Some (n, b, let st = fold (learn from_addr) (as @ rs) st
                       in case map_of kvs ''id'' of Some v \<Rightarrow> st\<lparr>qs_device_id := v\<rparr> | None \<Rightarrow> st)"
proof -
  let ?b = "take e buf @ drop e dbuf"
  have e: "e \<le> length buf" using assms(1) by (simp add: answer_at_def)
  have recv: "recv_into dbuf (Some (take e buf)) = Some (?b, e)"
    using e assms(2,3) by (auto simp: recv_into_def Let_def)
  have "same_below e buf ?b" using e assms(2) by (simp add: same_below_def nth_append)
  with assms(1) have "answer_at P ?b qid lq as rs kvs e" by (rule answer_at_below)
  then obtain q a r li c l rd where h: "e \<le> length ?b" "P \<subseteq> {..<e}"
      "take 12 ?b = message_header qid 0x8400 1 (of_nat (length as)) 0 (of_nat (length rs + 1))"
      "name_in P ?b 12 lq q" "length lq \<le> 64" "records_at P ?b (q + 4) as a" "records_at P ?b a rs r"
      "record_at P ?b r li MDNS_RECORDTYPE_TXT c l rd (e - rd) e" "length li \<le> 64"
      "e = rd + length (txt_bytes kvs)" "take (length (txt_bytes kvs)) (drop rd ?b) = txt_bytes kvs"
    unfolding answer_at_def by blast
  note hn = header_numbers [OF h(3)]
  note skip = mdns_string_skip_name [OF h(4,2,1,5)]
  have le: "r \<le> e" "a \<le> e" using records_at_le [OF h(7)] record_at_less [OF h(8)] by auto
  let ?cb = "discovery_callback from_addr"
  let ?s1 = "fold (learn from_addr) as st" let ?s2 = "fold (learn from_addr) rs ?s1"
  have p1: "mdns_records_parse ?cb ?b e (q + 4) EntryAnswer qid (length as) st = Some (length as, a, ?s1)"
    using records_loop_learn [OF h(2,1,6) le(2), of z from_addr EntryAnswer qid 0 0 st] assms(6)
    by (simp add: mdns_records_parse_def)
  have rec: "record_at P ?b r li MDNS_RECORDTYPE_TXT c l rd (length (txt_bytes kvs)) e" using h(8,10) by simp
  have "?cb ?b e (record_event EntryAdditional qid MDNS_RECORDTYPE_TXT c l r rd (length (txt_bytes kvs))) ?s2 =
      Some (False, case map_of kvs ''id'' of Some v \<Rightarrow> ?s2\<lparr>qs_device_id := v\<rparr> | None \<Rightarrow> ?s2)"
    by (rule discovery_callback_txt [OF rec order_refl h(1,11) assms(7,8)])
  from records_loop_record [where cb = ?cb and a = ?s2, OF rec h(2) order_refl h(1,9) this, of 0 "length rs"]
  have p3: "mdns_records_parse ?cb ?b e a EntryAdditional qid (length rs + 1) ?s1 =
      Some (length rs + 1, e, case map_of kvs ''id'' of Some v \<Rightarrow> ?s2\<lparr>qs_device_id := v\<rparr> | None \<Rightarrow> ?s2)"
    using records_loop_learn [OF h(2,1,7) le(1), of z from_addr EntryAdditional qid 1 0 ?s1] assms(6)
    by (simp add: mdns_records_parse_def)
  have p2: "mdns_records_parse ?cb ?b e a EntryAuthority qid 0 ?s1 = Some (0, a, ?s1)" by (simp add: mdns_records_parse_def)
  have u: "unat (of_nat (length as) :: u16) = length as" "unat (of_nat (length rs + 1) :: u16) = length rs + 1"
    by (rule unat_of_nat16 [OF assms(4)], rule unat_of_nat16 [OF assms(5)])
  show ?thesis
    using recv hn skip p1 p2 p3 u
    by (simp add: mdns_query_recv_def parse_sections_def Let_def del: of_nat_add of_nat_Suc)
qed

section \<open>Hearing the query\<close>

lemma services_query_start:
  "mdns_get_next_substring mdns_services_query (length mdns_services_query) 12 =
     Some \<lparr>sp_offset = Some 13, sp_length = 9, sp_ref = False\<rparr>"
  by code_simp

lemma equal_services_differs:
  assumes "name_in P buf i (l # ls) e" "P \<subseteq> {..<sz}" "sz \<le> length buf" "length l \<noteq> 9"
  shows "mdns_string_equal buf sz i mdns_services_query (length mdns_services_query) 12 = Some None"
proof -
  obtain q ref e' where "mdns_get_next_substring buf sz i = Some \<lparr>sp_offset = Some q, sp_length = length l, sp_ref = ref\<rparr>"
    by (rule next_substring_labelE [OF assms(1-3)])
  then show ?thesis
    using assms(4) unfolding mdns_string_equal_def
    by (subst equal_loop.simps) (simp add: services_query_start)
qed

definition question_event :: "u16 \<Rightarrow> u16 \<Rightarrow> u16 \<Rightarrow> nat \<Rightarrow> mdns_event" where
  "question_event qid rtype rclass n =
     \<lparr>me_entry = EntryQuestion, me_query_id = qid, me_rtype = rtype, me_rclass = rclass, me_ttl = 0,
      me_name_offset = 12, me_name_length = n, me_record_offset = 12, me_record_length = n\<rparr>"

text \<open>A query is one event for the callback, in a buffer that holds the name.\<close>

lemma listen_query:
  assumes "\<forall>l \<in> set (l # ls). label_ok l" "length l \<noteq> 9" "length (l # ls) \<le> 64"
    "length (query_message qid rtype rclass (l # ls)) \<le> length sbuf"
    "rclass AND NOT MDNS_CACHE_FLUSH = MDNS_CLASS_IN"
    "\<And>b sz P e. sz \<le> length b \<Longrightarrow> P \<subseteq> {..<sz} \<Longrightarrow> name_in P b 12 (l # ls) e \<Longrightarrow>
       cb b sz (question_event qid rtype rclass (length (wire_name (l # ls)))) a = Some (False, a')"
  shows "\<exists>n b. mdns_socket_listen cb sbuf (Some (query_message qid rtype rclass (l # ls))) a = Some (n, b, a') \<and> length b = length sbuf"
proof -
  let ?w = "wire_name (l # ls)" and ?m = "query_message qid rtype rclass (l # ls)"
  let ?b = "?m @ drop (length ?m) sbuf" and ?sz = "length ?m"
  have lm: "?sz = 12 + length ?w + 4" by (simp add: query_message_def)
  have recv: "recv_into sbuf (Some ?m) = Some (?b, ?sz)" using assms(4) lm by (auto simp: recv_into_def Let_def)
  have sz: "?sz \<le> length ?b" by simp
  have h: "take 12 ?b = message_header qid 0 1 0 0 0" by (simp add: query_message_def)
  note hn = header_numbers [OF h]
  have "take (length w + 4) (drop 12 ((hs @ w @ be16 rtype @ be16 rclass) @ r)) = w @ be16 rtype @ be16 rclass"
    if "length hs = 12" for hs w r using that by simp
  then have body: "take (length ?w + 4) (drop 12 ?b) = ?w @ be16 rtype @ be16 rclass"
    unfolding query_message_def by (simp only: length_message_header)
  have w: "take (length ?w) (drop 12 ?b) = ?w" "take 4 (drop (12 + length ?w) ?b) = be16 rtype @ be16 rclass"
    using take_drop_append [OF body] by (simp_all del: wire_name_simps)
  note s2 = take_drop_append [OF w(2)]
  have name: "name_in {12..<12 + length ?w} ?b 12 (l # ls) (12 + length ?w)"
    using lm by (intro name_in_wire [OF w(1) _ assms(1)]) simp
  have P: "{12..<12 + length ?w} \<subseteq> {..<?sz}" using lm by auto
  have eq: "mdns_string_equal ?b ?sz 12 mdns_services_query (length mdns_services_query) 12 = Some None"
    by (rule equal_services_differs [OF name P sz assms(2)])
  have skip: "mdns_string_skip ?b ?sz 12 = Some (Some (12 + length ?w))"
    by (rule mdns_string_skip_name [OF name P sz assms(3)])
  have n: "mdns_ntohs ?b (12 + length ?w) = Some rtype" "mdns_ntohs ?b (12 + length ?w + 2) = Some rclass"
    using s2 by (auto intro!: ntohs_be16)
  have cb: "cb ?b ?sz (question_event qid rtype rclass (length ?w)) a = Some (False, a')"
    by (rule assms(6) [OF sz P name])
  have "listen_questions cb ?b ?sz qid 0 (Suc 0) 12 0 a = Some (False, 12 + length ?w + 4, 1, a')"
    using eq skip n cb assms(5) by (simp add: question_event_def del: wire_name_simps)
  then have "mdns_socket_listen cb sbuf (Some ?m) a = Some (1, ?b, a')"
    using recv hn by (simp add: mdns_socket_listen_def parse_sections_def mdns_records_parse_def del: listen_questions.simps)
  then show ?thesis using assms(4) by auto
qed

section \<open>The announcement\<close>

definition service_labels :: "string list" where
  "service_labels = [''_kdeconnect'', ''_udp'', ''local'']"

text \<open>
  A device id that is one label, a host name that is one label and not the word \<open>local\<close> (which the
  table of names would confuse with the domain), and a name and type that fit a TXT entry.
\<close>

definition announceable :: "string option \<Rightarrow> device_info \<Rightarrow> bool" where
  "announceable host dev \<longleftrightarrow> label_ok (di_id dev) \<and> di_id dev \<notin> set service_labels \<and>
     (case host of None \<Rightarrow> True | Some h \<Rightarrow> label_ok h \<and> nul_free h \<and> h \<noteq> ''local'') \<and>
     length (di_name dev) \<le> 250 \<and> length (di_type dev) \<le> 250"

lemma kServiceType_dotted: "kServiceType = dotted service_labels"
  by (simp add: kServiceType_def service_labels_def)

lemma service_name_ok: "name_ok ''local'' service_labels"
  by (simp add: name_ok_def service_labels_def label_ok_def ends_once_def)

lemma length_nat_str: "n < 10 ^ k \<Longrightarrow> 0 < k \<Longrightarrow> length (nat_str n) \<le> k"
proof (induction n arbitrary: k rule: nat_str.induct)
  case (1 n)
  show ?case
  proof (cases "n < 10")
    case True
    then show ?thesis using 1 by (subst nat_str.simps) simp
  next
    case False
    obtain j where j: "k = Suc j" using 1(3) by (cases k) auto
    with False 1(2) have "0 < j" by (cases j) auto
    moreover have "n div 10 < 10 ^ j" using 1(2) j by (simp add: less_mult_imp_div_less mult.commute)
    ultimately have "length (nat_str (n div 10)) \<le> j" using 1(1) [OF False] by simp
    then show ?thesis using False j by (subst nat_str.simps) simp
  qed
qed

lemma length_int_str: "length (int_str (sint (w :: i32))) \<le> 11"
proof -
  have "- (2 ^ 31) \<le> sint w" "sint w < 2 ^ 31" using sint_ge [of w] sint_less [of w] by simp_all
  then have "nat (sint w) < 10 ^ 10" "nat (- sint w) < 10 ^ 10" by auto
  then show ?thesis using length_nat_str [of "nat (sint w)" 10] length_nat_str [of "nat (- sint w)" 10]
    by (auto simp: int_str_def)
qed

lemma hostname_dotted:
  assumes "announceable host dev"
  obtains h where "hostname_or_default host = dotted [h, ''local'']" "name_ok ''local'' [h, ''local'']"
proof (cases host)
  case None
  then show ?thesis by (intro that [of "''MiniKDEConnect''"])
    (simp_all add: hostname_or_default_def name_ok_def label_ok_def ends_once_def)
next
  case (Some h)
  then have h: "label_ok h" "nul_free h" "h \<noteq> ''local''" using assms by (auto simp: announceable_def)
  then have "c_str (take 255 h) = h" "h \<noteq> []" by (auto simp: label_ok_def)
  then show ?thesis using h Some by (intro that [of h])
    (auto simp: hostname_or_default_def name_ok_def label_ok_def ends_once_def)
qed

text \<open>What the builder of answers needs of an announcement.\<close>

lemma announcement_ok:
  assumes "announceable host dev" "self = build_announced_info host addresses dev port"
  obtains h where "ai_service_type self = dotted service_labels" "ai_service_instance self = dotted (di_id dev # service_labels)"
    "ai_hostname self = dotted [h, ''local'']" "name_ok ''local'' (di_id dev # service_labels)" "name_ok ''local'' [h, ''local'']"
    "\<forall>kv \<in> set (ai_txt_records self). txt_ok kv" "length (txt_bytes (ai_txt_records self)) \<le> 1024"
proof -
  obtain h where h: "hostname_or_default host = dotted [h, ''local'']" "name_ok ''local'' [h, ''local'']"
    by (rule hostname_dotted [OF assms(1)])
  have id: "label_ok (di_id dev)" "di_id dev \<notin> set service_labels" "length (di_name dev) \<le> 250" "length (di_type dev) \<le> 250"
    using assms(1) by (simp_all add: announceable_def)
  have p: "length (int_str (sint (protocol_version dev))) \<le> 11" by (rule length_int_str)
  have "\<forall>kv \<in> set (ai_txt_records self). txt_ok kv"
    using id p by (auto simp: assms(2) build_announced_info_def txt_ok_def label_ok_def)
  moreover have "length (txt_bytes (ai_txt_records self)) \<le> 1024"
    using id p by (simp add: assms(2) build_announced_info_def label_ok_def)
  moreover have "name_ok ''local'' (di_id dev # service_labels)"
    using id service_name_ok by (auto simp: name_ok_def ends_once_def service_labels_def)
  ultimately show ?thesis using h that
    by (simp add: assms(2) build_announced_info_def kServiceType_dotted)
qed

section \<open>The answer to the query\<close>

text \<open>The records of an answer to a PTR query, before the TXT records.\<close>

definition ptr_additional :: "announced_info \<Rightarrow> mdns_record_t list" where
  "ptr_additional self = make_record self SrvRecord # a_records self"

lemma sum_list_bounded: "(\<forall>x \<in> set xs. f x \<le> (c :: nat)) \<Longrightarrow> sum_list (map f xs) \<le> c * length xs"
  by (induction xs) (auto intro: add_mono)

lemma txt_records_is_txt: "list_all2 (is_txt (ai_service_instance self)) (ai_txt_records self) (txt_records self)"
  by (simp add: txt_records_def list_all2_conv_all_nth is_txt_def make_record_def)

lemma service_callback_ptr:
  assumes "announceable host dev" "self = build_announced_info host addresses dev port" "length addresses \<le> 6"
    "sk_send_ok sk" "length (out_buf st) = 2048" "rclass AND MDNS_UNICAST_RESPONSE \<noteq> 0"
  shows "\<exists>st' Q x. (\<forall>P b sz e n. name_in P b 12 service_labels e \<longrightarrow> P \<subseteq> {..<sz} \<longrightarrow> sz \<le> length b \<longrightarrow>
             service_callback self sk from_addr b sz (question_event qid MDNS_RECORDTYPE_PTR rclass n) st = Some (False, st')) \<and>
           out_sent st' = out_sent st @ [(ToAddress from_addr, take x (out_buf st'))] \<and> length (out_buf st') = 2048 \<and> 12 \<le> x \<and>
           answer_at Q (out_buf st') qid service_labels [make_record self PtrRecord] (ptr_additional self) (ai_txt_records self) x \<and>
           (\<forall>r \<in> set ([make_record self PtrRecord] @ ptr_additional self). data_ok ''local'' (mr_data r) \<and> length (mr_name r) \<le> 256)"
proof -
  obtain h where a: "ai_service_type self = dotted service_labels" "ai_service_instance self = dotted (di_id dev # service_labels)"
    "ai_hostname self = dotted [h, ''local'']" "name_ok ''local'' (di_id dev # service_labels)" "name_ok ''local'' [h, ''local'']"
    "\<forall>kv \<in> set (ai_txt_records self). txt_ok kv" "length (txt_bytes (ai_txt_records self)) \<le> 1024"
    by (rule announcement_ok [OF assms(1,2)])
  have four: "length (ai_txt_records self) = 4" "ai_txt_records self \<noteq> []" "ai_addresses_v4 self = addresses"
    by (simp_all add: assms(2) build_announced_info_def)
  have sl: "length service_labels = 3" "length (dotted service_labels) = 23" by (simp_all add: service_labels_def)
  have id: "length (dotted (di_id dev # service_labels)) \<le> 87" and hl: "length (dotted [h, ''local'']) \<le> 70"
    using a(4,5) sl by (auto simp: name_ok_def label_ok_def)
  have name: "mdns_string_extract b sz 12 256 = Some (dotted service_labels, e)"
    if "name_in P b 12 service_labels e" "P \<subseteq> {..<sz}" "sz \<le> length b" for P b sz e
    by (rule mdns_string_extract_name [OF that]) (simp_all add: sl)
  have ptr: "named_ok ''local'' (make_record self PtrRecord)" "record_size (make_record self PtrRecord) \<le> 122"
    using a service_name_ok sl id unfolding named_ok_def record_size_def by (auto simp: make_record_def intro!: exI)
  have "\<exists>ls. mr_name (make_record self SrvRecord) = dotted ls \<and> name_ok ''local'' ls \<and> length ls \<le> 64"
    using a(2,4) sl by (intro exI [of _ "di_id dev # service_labels"]) (simp add: make_record_def)
  moreover have "data_ok ''local'' (mr_data (make_record self SrvRecord))"
    using a(3,5) by (auto simp: make_record_def simp del: dotted_simps)
  ultimately have named_srv: "named_ok ''local'' (make_record self SrvRecord)" by (simp add: named_ok_def)
  have srv: "named_ok ''local'' (make_record self SrvRecord)" "record_size (make_record self SrvRecord) \<le> 175"
    using a(4) named_srv sl id hl a(2,3) unfolding record_size_def by (auto simp: make_record_def)
  have arec: "named_ok ''local'' (make_record self (ARecord x))" "record_size (make_record self (ARecord x)) \<le> 85" for x
    using a(3,5) hl unfolding named_ok_def record_size_def by (auto simp: make_record_def intro!: exI)
  have all: "\<forall>r \<in> set (ptr_additional self). named_ok ''local'' r"
    using srv arec by (auto simp: ptr_additional_def a_records_def)
  have "sum_list (map record_size (a_records self)) \<le> 85 * length addresses"
    using sum_list_bounded [of "a_records self" record_size 85] arec(2) four(3) by (auto simp: a_records_def)
  then have tot: "sum_list (map record_size (ptr_additional self)) \<le> 685"
    using srv(2) assms(3) by (simp add: ptr_additional_def)
  have fit: "17 + length (dotted service_labels) + record_size (make_record self PtrRecord) +
      sum_list (map record_size (ptr_additional self)) + length (dotted (di_id dev # service_labels)) + 11 +
      length (txt_bytes (ai_txt_records self)) \<le> length (out_buf st)"
    using sl ptr(2) tot id a(7) assms(5) by simp
  have ts: "list_all2 (is_txt (dotted (di_id dev # service_labels))) (ai_txt_records self) (txt_records self)"
    using txt_records_is_txt [of self] unfolding a(2) .
  have lens: "length service_labels \<le> 64" "length (di_id dev # service_labels) \<le> 64" "length (out_buf st) \<le> 0x4000" "48 \<le> length (out_buf st)"
    using sl assms(5) by simp_all
  obtain buf' Q x where ans: "mdns_query_answer_unicast sk from_addr (out_buf st) qid MDNS_RECORDTYPE_PTR (dotted service_labels)
        (make_record self PtrRecord) [] (ptr_additional self @ txt_records self) = Some (True, buf', [(ToAddress from_addr, take x buf')])"
      "length buf' = length (out_buf st)" "12 \<le> x"
      "answer_at Q buf' qid service_labels [make_record self PtrRecord] (ptr_additional self) (ai_txt_records self) x"
    using answer_message [OF service_name_ok lens(1) ptr(1) all ts four(2) a(4) lens(2) a(6) fit lens(3) assms(4) lens(4),
      of from_addr qid MDNS_RECORDTYPE_PTR]
    by (elim exE conjE) (rule that)
  have "length (make_record self SrvRecord # a_records self @ txt_records self) \<le> 64"
    using assms(3) four by (simp add: a_records_def txt_records_def)
  then have fill: "fill_additional (make_record self SrvRecord # a_records self @ txt_records self) =
      Some (ptr_additional self @ txt_records self)"
    by (simp add: fill_additional_def ptr_additional_def)
  let ?st = "st\<lparr>out_buf := buf', out_sent := out_sent st @ [(ToAddress from_addr, take x buf')]\<rparr>"
  have cb: "service_callback self sk from_addr b sz (question_event qid MDNS_RECORDTYPE_PTR rclass n) st = Some (False, ?st)"
    if "name_in P b 12 service_labels e" "P \<subseteq> {..<sz}" "sz \<le> length b" for P b sz e n
    using name [OF that] ans(1) fill assms(6) a(1)
    by (simp add: service_callback_def question_event_def write_records_def Let_def)
  have "length (mr_name r) \<le> 256" if "r \<in> set (make_record self PtrRecord # ptr_additional self)" for r
    using that a(1-3) sl id hl by (auto simp: ptr_additional_def a_records_def make_record_def)
  then have "\<forall>r \<in> set ([make_record self PtrRecord] @ ptr_additional self). data_ok ''local'' (mr_data r) \<and> length (mr_name r) \<le> 256"
    using ptr(1) all by (auto simp: named_ok_def)
  then show ?thesis using ans cb assms(5) by (intro exI [of _ ?st] exI [of _ Q] exI [of _ x]) simp
qed

section \<open>Two devices\<close>

lemma fold_learn_a:
  "fold (learn from_addr) (map (\<lambda>a. make_record self (ARecord (Some a))) addrs) st =
     (if addrs = [] then st else st\<lparr>qs_host := ipv4_to_string (last addrs)\<rparr>)"
  by (induction addrs arbitrary: st) (auto simp: make_record_def)

lemma learn_answer:
  assumes "self = build_announced_info host addresses dev port" "addresses \<noteq> []"
  shows "fold (learn from_addr) ([make_record self PtrRecord] @ ptr_additional self) st =
           st\<lparr>qs_instance_id := ''_kdeconnect'', qs_host := ipv4_to_string (last addresses), qs_saw_ptr := True\<rparr>"
proof -
  have "first_label kServiceType = ''_kdeconnect''" by code_simp
  moreover have "ai_service_type self = kServiceType" "ai_addresses_v4 self = addresses"
    by (simp_all add: assms(1) build_announced_info_def)
  moreover have "learn from_addr (make_record self PtrRecord) st =
      st\<lparr>qs_instance_id := first_label (ai_service_type self), qs_host := sockaddr_to_ipv4_string from_addr, qs_saw_ptr := True\<rparr>"
    "learn from_addr (make_record self SrvRecord) st' = st'" for st'
    by (simp_all add: make_record_def)
  ultimately show ?thesis
    using assms(2) by (simp add: ptr_additional_def a_records_def fold_learn_a del: learn.simps)
qed

lemma ipv4_to_string_nonempty: "ipv4_to_string a \<noteq> []"
  by (simp add: ipv4_to_string_def Let_def)

lemma answer_finds_peer:
  assumes "announceable host dev" and self: "self = build_announced_info host addresses dev port"
    and "addresses \<noteq> []" "length addresses \<le> 6" "length b = 2048" "length (disc_buf lv) = 2048" "12 \<le> x"
    and ans: "answer_at Q b 0 service_labels [make_record self PtrRecord] (ptr_additional self) (ai_txt_records self) x"
    and data: "\<forall>r \<in> set ([make_record self PtrRecord] @ ptr_additional self). data_ok ''local'' (mr_data r) \<and> length (mr_name r) \<le> 256"
    and "di_id (im_local_device im) \<noteq> di_id dev"
  shows "\<exists>b2. receive_answers (Some (take x b)) from_addr (im, lv) =
           Some (im, lv\<lparr>disc_buf := b2\<rparr>, [PeerFound (di_id dev) (ipv4_to_string (last addresses))])"
proof -
  have txts: "\<forall>kv \<in> set (ai_txt_records self). txt_ok kv" by (rule announcement_ok [OF assms(1) self])
  have len: "length (ai_txt_records self) \<le> 16" "length (ptr_additional self) + 1 < 65536" "length (disc_buf lv) = length b"
    using assms(4-6) by (simp_all add: self build_announced_info_def ptr_additional_def a_records_def)
  have id: "map_of (ai_txt_records self) ''id'' = Some (di_id dev)" "di_id dev \<noteq> []"
    using assms(1) by (auto simp: self build_announced_info_def announceable_def label_ok_def)
  obtain b2 n where "mdns_query_recv (discovery_callback from_addr) 0 (disc_buf lv) (Some (take x b)) new_query_state =
      Some (n, b2, (fold (learn from_addr) ([make_record self PtrRecord] @ ptr_additional self) new_query_state)\<lparr>qs_device_id := di_id dev\<rparr>)"
    using query_recv_answer [OF ans len(3) [symmetric] assms(7) _ len(2) data txts len(1), of from_addr new_query_state] id
    by (auto simp: Let_def)
  then show ?thesis
    unfolding learn_answer [OF self assms(3)] receive_answers_def
    using assms(10) id(2) ipv4_to_string_nonempty by (intro exI [of _ b2]) (simp add: new_query_state_def)
qed

text \<open>
  C20: Two devices that run this code find each other: the query the first one multicasts makes the second
  one answer with one datagram to the sender, and the first reads from it the second one's device id and
  the last of its addresses. The names go through both directions of the name table and its references.
\<close>

theorem query_finds_peer:
  assumes "announceable host dev" "addresses \<noteq> []" "length addresses \<le> 6"
    "im_announced imb = build_announced_info host addresses dev port"
    "length (send_buffer imb) = 2048" "length (svc_buf lvb) = 2048" "sk_send_ok (mn_service netb)"
    "ai_service_type (im_announced ima) = kServiceType" "0 \<le> discovery_socket ima" "di_id (im_local_device ima) \<noteq> di_id dev"
    "length (query_buffer ima) = 2048" "length (disc_buf lva) = 2048"
    "sk_send_ok (mn_discovery neta)" "sk_port (mn_discovery neta) = Some p" "p \<noteq> MDNS_PORT"
  shows "\<exists>ima' q imb' lvb' r lva'. send_query neta ima = Some (ima', [MdnsSend (ToGroup, q)]) \<and>
           listen_service netb (Some q) from_a (imb, lvb) = Some (imb', lvb', [MdnsSend (ToAddress from_a, r)]) \<and>
           receive_answers (Some r) from_b (ima', lva) =
             Some (ima', lva', [PeerFound (di_id dev) (ipv4_to_string (last addresses))])"
proof -
  define self where "self = build_announced_info host addresses dev port"
  let ?q = "query_message 0 MDNS_RECORDTYPE_PTR 0x8001 service_labels"
  have labels: "\<forall>l \<in> set service_labels. label_ok l" "length (wire_name service_labels) = 24"
    using service_name_ok by (simp_all add: name_ok_def service_labels_def)
  have "16 + length (wire_name service_labels) \<le> length (query_buffer ima)" using labels(2) assms(11) by simp
  then obtain qb where "mdns_query_send (mn_discovery neta) MDNS_RECORDTYPE_PTR (dotted service_labels) (query_buffer ima) 0 =
      Some (True, qb, [(ToGroup, ?q)])"
    using query_send_message [OF labels(1) _ _ assms(13,14), of "query_buffer ima" MDNS_RECORDTYPE_PTR 0] assms(15)
    by (auto simp: service_labels_def)
  then have query: "send_query neta ima = Some (ima\<lparr>query_buffer := qb\<rparr>, [MdnsSend (ToGroup, ?q)])"
    using assms(8,9) by (simp add: send_query_def kServiceType_dotted)
  let ?st = "\<lparr>out_buf = send_buffer imb, out_sent = []\<rparr>" let ?cb = "service_callback self (mn_service netb) from_a"
  have unicast: "0x8001 AND MDNS_UNICAST_RESPONSE \<noteq> (0 :: u16)" by (simp add: MDNS_UNICAST_RESPONSE_def)
  have out: "length (out_buf ?st) = 2048" "out_sent ?st = []" using assms(5) by simp_all
  obtain st' Q x where ans: "\<And>P b sz e n. name_in P b 12 service_labels e \<Longrightarrow> P \<subseteq> {..<sz} \<Longrightarrow> sz \<le> length b \<Longrightarrow>
        ?cb b sz (question_event 0 MDNS_RECORDTYPE_PTR 0x8001 n) ?st = Some (False, st')"
      "out_sent st' = [(ToAddress from_a, take x (out_buf st'))]" "length (out_buf st') = 2048" "12 \<le> x"
      "answer_at Q (out_buf st') 0 service_labels [make_record self PtrRecord] (ptr_additional self) (ai_txt_records self) x"
      "\<forall>r \<in> set ([make_record self PtrRecord] @ ptr_additional self). data_ok ''local'' (mr_data r) \<and> length (mr_name r) \<le> 256"
    using service_callback_ptr [OF assms(1) self_def assms(3,7) out(1) unicast, where from_addr = from_a and qid = 0]
    unfolding out(2) append_Nil by (elim exE conjE) (rule that; blast)
  have fits: "length ?q \<le> length (svc_buf lvb)" using labels(2) assms(6) by (simp add: query_message_def)
  have "\<exists>n b. mdns_socket_listen ?cb (svc_buf lvb) (Some ?q) ?st = Some (n, b, st') \<and> length b = length (svc_buf lvb)"
    using labels(1) fits ans(1) unfolding service_labels_def
    by (intro listen_query) (simp_all add: MDNS_CACHE_FLUSH_def MDNS_CLASS_IN_def del: wire_name_simps)
  then obtain n b where "mdns_socket_listen ?cb (svc_buf lvb) (Some ?q) ?st = Some (n, b, st')" by blast
  then have "listen_service netb (Some ?q) from_a (imb, lvb) =
      Some (imb\<lparr>send_buffer := out_buf st'\<rparr>, lvb\<lparr>svc_buf := b\<rparr>, [MdnsSend (ToAddress from_a, take x (out_buf st'))])"
    using ans(2) assms(4) by (simp add: listen_service_def self_def)
  moreover obtain b2 where "receive_answers (Some (take x (out_buf st'))) from_b (ima\<lparr>query_buffer := qb\<rparr>, lva) =
      Some (ima\<lparr>query_buffer := qb\<rparr>, lva\<lparr>disc_buf := b2\<rparr>, [PeerFound (di_id dev) (ipv4_to_string (last addresses))])"
    using answer_finds_peer [OF assms(1) self_def assms(2,3) ans(3) assms(12) ans(4-6), of "ima\<lparr>query_buffer := qb\<rparr>" from_b] assms(10)
    by auto
  ultimately show ?thesis using query by blast
qed

text \<open>Two devices for the instances below.\<close>

definition demo_mdns :: "string \<Rightarrow> in_addr list \<Rightarrow> mdns_impl" where
  "demo_mdns own addresses =
     (let buf = replicate 2048 (CHR 0x00); dev = sample_info\<lparr>di_id := own\<rparr>
      in (new_mdns_impl dev 1716 buf buf buf)
           \<lparr>im_running := True, service_socket := 3, discovery_socket := 4, mdns_thread := True,
            im_announced := build_announced_info (Some ''console'') addresses dev 1716\<rparr>)"

definition demo_locals :: mdns_locals where
  "demo_locals = \<lparr>svc_buf = replicate 2048 (CHR 0x00), disc_buf = replicate 2048 (CHR 0x00), next_query = 0\<rparr>"

definition demo_net :: mdns_net where
  "demo_net = \<lparr>mn_service = \<lparr>sk_port = Some 5353, sk_send_ok = True\<rparr>, mn_discovery = \<lparr>sk_port = Some 40000, sk_send_ok = True\<rparr>\<rparr>"

theorem query_finds_peer_witness:
  "\<exists>ima' q imb' lvb' r lva'. send_query demo_net (demo_mdns ''a1'' []) = Some (ima', [MdnsSend (ToGroup, q)]) \<and>
     listen_service demo_net (Some q) (0x0A000001, 40000) (demo_mdns ''b2'' [0xC0A80102], demo_locals) =
       Some (imb', lvb', [MdnsSend (ToAddress (0x0A000001, 40000), r)]) \<and>
     receive_answers (Some r) None (ima', demo_locals) = Some (ima', lva', [PeerFound ''b2'' (ipv4_to_string 0xC0A80102)])"
proof -
  have dev: "announceable (Some ''console'') (sample_info\<lparr>di_id := ''b2''\<rparr>)"
    by (simp add: announceable_def label_ok_def service_labels_def sample_info_def)
  have b: "im_announced (demo_mdns ''b2'' [0xC0A80102]) =
      build_announced_info (Some ''console'') [0xC0A80102] (sample_info\<lparr>di_id := ''b2''\<rparr>) 1716"
    by (simp add: demo_mdns_def Let_def)
  show ?thesis
    using query_finds_peer [OF dev _ _ b, of demo_locals demo_net "demo_mdns ''a1'' []" demo_locals demo_net 40000 "(0x0A000001, 40000)" None]
    by (simp add: demo_mdns_def demo_locals_def demo_net_def new_mdns_impl_def build_announced_info_def MDNS_PORT_def Let_def)
qed

end
