(* ===== verification/Mdns_Loop.thy ===== *)
theory Mdns_Loop
  imports Mdns_Peers
begin

text \<open>
  The life of the mDNS service: it starts, its loop turns for any datagrams, it stops, and none of this
  reads or writes outside a buffer; the one datagram length for which the listener does.
\<close>

section \<open>Senders\<close>

lemma query_send_safe:
  assumes "name \<noteq> []"
  shows "\<exists>ok b out. mdns_query_send sk rtype name buf qid = Some (ok, b, out) \<and> length b = length buf"
proof (cases "length buf < 18")
  case True
  then show ?thesis
    by (intro exI [of _ False] exI [of _ buf] exI [of _ "[]"]) (simp add: mdns_query_send_def mdns_multiquery_send_def)
next
  case False
  obtain b1 where h: "put_header buf qid 0 1 0 0 0 = Some b1" "length b1 = length buf"
    using put_header_Some [of buf] False by fastforce
  have "built (length b1) 12 (mdns_string_make b1 (length b1) 12 name None)"
    by (rule mdns_string_make_built) (use assms False h in simp_all)
  then obtain b2 d t where m: "mdns_string_make b1 (length b1) 12 name None = Some (b2, d, t)" "length b2 = length buf"
      "\<And>x. d = Some x \<Longrightarrow> 12 \<le> x \<and> x \<le> length buf"
    using h(2) by (auto elim!: builtE)
  then show ?thesis
    using False h
    by (cases d) (auto simp: mdns_query_send_def mdns_multiquery_send_def Let_def split: prod.splits)
qed

lemma built_announced_ok:
  "length addresses \<le> 59 \<Longrightarrow> announced_ok (build_announced_info host addresses dev port)"
  by (simp add: announced_ok_def build_announced_info_def kServiceType_def hostname_or_default_def Let_def split: option.splits)

section \<open>The state of the service\<close>

text \<open>
  The buffers have the size of the arrays, and what is announced fits the array of records, whenever the
  service has sockets to announce it on.
\<close>

definition mdns_wf :: "mdns_impl \<Rightarrow> bool" where
  "mdns_wf im \<longleftrightarrow> length (announce_buffer im) = 2048 \<and> length (query_buffer im) = 2048 \<and> length (send_buffer im) = 2048 \<and>
     (im_running im \<longrightarrow> announced_ok (im_announced im)) \<and> (\<not> im_running im \<longrightarrow> service_socket im < 0)"

definition locals_wf :: "mdns_locals \<Rightarrow> bool" where
  "locals_wf lv \<longleftrightarrow> length (svc_buf lv) = 2048 \<and> length (disc_buf lv) = 2048"

text \<open>A turn whose datagram for the service leaves four bytes of the buffer free.\<close>

definition short_datagram :: "mdns_loop_event \<Rightarrow> bool" where
  "short_datagram ev \<longleftrightarrow> (case le_service ev of Some (Some pkt, _) \<Rightarrow> length pkt \<le> 2044 | _ \<Rightarrow> True)"

lemma announce_safe:
  assumes "announced_ok (im_announced im)"
  shows "\<exists>b eff. announce net goodbye im = Some (im\<lparr>announce_buffer := b\<rparr>, eff) \<and> length b = length (announce_buffer im)"
proof (cases "service_socket im < 0")
  case True
  then show ?thesis by (intro exI [of _ "announce_buffer im"]) (simp add: announce_def)
next
  case False
  have rs: "record_ok (make_record (im_announced im) k)" for k by (rule make_record_ok [OF assms])
  let ?rs = "make_record (im_announced im) SrvRecord # a_records (im_announced im) @ txt_records (im_announced im)"
  have all: "\<forall>r \<in> set ?rs. record_ok r" using rs by (auto simp: a_records_def txt_records_def)
  have safe: "\<exists>ok b out. mdns_answer_multicast_rclass_ttl c ttl (mn_service net) (announce_buffer im)
      (make_record (im_announced im) PtrRecord) [] ?rs = Some (ok, b, out) \<and> length b = length (announce_buffer im)" for c ttl
    by (rule answer_multicast_safe [OF rs all])
  then obtain ok b out where "(if goodbye
      then mdns_goodbye_multicast (mn_service net) (announce_buffer im) (make_record (im_announced im) PtrRecord) [] ?rs
      else mdns_announce_multicast (mn_service net) (announce_buffer im) (make_record (im_announced im) PtrRecord) [] ?rs) = Some (ok, b, out)"
      "length b = length (announce_buffer im)"
    using safe [of MDNS_CLASS_IN 0] safe [of "MDNS_CLASS_IN OR MDNS_CACHE_FLUSH" 60]
    unfolding mdns_goodbye_multicast_def mdns_announce_multicast_def by (cases goodbye) force+
  then show ?thesis using False by (auto simp: announce_def Let_def)
qed

lemma send_query_safe:
  assumes "announced_ok (im_announced im)"
  shows "\<exists>b eff. send_query net im = Some (im\<lparr>query_buffer := b\<rparr>, eff) \<and> length b = length (query_buffer im)"
proof (cases "discovery_socket im < 0")
  case True
  then show ?thesis by (intro exI [of _ "query_buffer im"]) (simp add: send_query_def)
next
  case False
  then show ?thesis
    using query_send_safe [of "ai_service_type (im_announced im)" "mn_discovery net" MDNS_RECORDTYPE_PTR "query_buffer im" 0] assms
    by (auto simp: send_query_def announced_ok_def)
qed

section \<open>Turns of the loop\<close>

lemma listen_service_safe:
  assumes "mdns_wf im" "im_running im" "locals_wf lv" "\<forall>p. pkt = Some p \<longrightarrow> length p \<le> 2044"
  shows "\<exists>im' lv' eff. listen_service net pkt from_addr (im, lv) = Some (im', lv', eff) \<and> mdns_wf im' \<and> locals_wf lv' \<and>
           im_running im' \<and> discovery_socket im' = discovery_socket im"
proof -
  have "\<exists>n b st. mdns_socket_listen (service_callback (im_announced im) (mn_service net) from_addr) (svc_buf lv) pkt
          \<lparr>out_buf = send_buffer im, out_sent = []\<rparr> = Some (n, b, st) \<and> length b = length (svc_buf lv) \<and>
          announced_ok (im_announced im) \<and> length (out_buf st) = 2048"
    by (rule service.socket_listen_safe) (use assms in \<open>auto simp: mdns_wf_def locals_wf_def\<close>)
  then show ?thesis using assms by (auto simp: listen_service_def mdns_wf_def locals_wf_def)
qed

lemma receive_answers_safe:
  assumes "locals_wf lv"
  shows "\<exists>lv' eff. receive_answers pkt from_addr (im, lv) = Some (im, lv', eff) \<and> locals_wf lv'"
proof -
  have "\<exists>n b st. mdns_query_recv (discovery_callback from_addr) 0 (disc_buf lv) pkt new_query_state = Some (n, b, st) \<and>
          length b = length (disc_buf lv) \<and> True"
    by (rule discovery.query_recv_safe) (use assms in \<open>auto simp: locals_wf_def\<close>)
  then show ?thesis using assms by (auto simp: receive_answers_def locals_wf_def)
qed

lemma iteration_safe:
  assumes "mdns_wf im" "locals_wf lv" "short_datagram ev"
  shows "\<exists>status im' lv' eff. mdns_iteration net ev (im, lv) = Some (status, (im', lv'), eff) \<and> mdns_wf im' \<and> locals_wf lv'"
proof (cases "im_running im")
  case False
  then show ?thesis using assms by (simp add: mdns_iteration_def)
next
  case True
  let ?due = "sint (next_query lv) \<le> sint (le_now ev)"
  obtain im1 eff1 where 1: "(if ?due then send_query net im else Some (im, [])) = Some (im1, eff1)" "mdns_wf im1" "im_running im1"
  proof (cases ?due)
    case due: True
    obtain b eff where "send_query net im = Some (im\<lparr>query_buffer := b\<rparr>, eff)" "length b = length (query_buffer im)"
      using send_query_safe [of im net] assms(1) True by (auto simp: mdns_wf_def)
    then show ?thesis using due assms(1) True by (intro that [of "im\<lparr>query_buffer := b\<rparr>"]) (auto simp: mdns_wf_def)
  qed (use assms(1) True that in simp)
  let ?lv = "if ?due then lv\<lparr>next_query := le_now ev + kQueryRepeat\<rparr> else lv"
  have lv: "locals_wf ?lv" using assms(2) by (simp add: locals_wf_def)
  obtain im2 lv2 eff2 where 2: "(case le_service ev of
        Some (pkt, from_addr) \<Rightarrow> if 0 \<le> service_socket im1 then listen_service net pkt from_addr (im1, ?lv) else Some (im1, ?lv, [])
      | None \<Rightarrow> Some (im1, ?lv, [])) = Some (im2, lv2, eff2)" "mdns_wf im2" "locals_wf lv2"
  proof (cases "le_service ev")
    case (Some pf)
    then obtain pkt from_addr where p: "le_service ev = Some (pkt, from_addr)" by (cases pf) auto
    then have "\<forall>p. pkt = Some p \<longrightarrow> length p \<le> 2044" using assms(3) by (auto simp: short_datagram_def split: option.splits)
    from listen_service_safe [OF 1(2,3) lv this, of net from_addr] show ?thesis
      using p 1(2) lv that by (cases "0 \<le> service_socket im1") auto
  qed (use 1(2) lv that in auto)
  obtain im3 lv3 eff3 where 3: "(case le_discovery ev of
        Some (pkt, from_addr) \<Rightarrow> if 0 \<le> discovery_socket im2 then receive_answers pkt from_addr (im2, lv2) else Some (im2, lv2, [])
      | None \<Rightarrow> Some (im2, lv2, [])) = Some (im3, lv3, eff3)" "mdns_wf im3" "locals_wf lv3"
  proof (cases "le_discovery ev")
    case (Some pf)
    then obtain pkt from_addr where "le_discovery ev = Some (pkt, from_addr)" by (cases pf) auto
    then show ?thesis using receive_answers_safe [OF 2(3), of pkt from_addr im2] 2(2,3) that
      by (cases "0 \<le> discovery_socket im2") auto
  qed (use 2(2,3) that in auto)
  show ?thesis
    using True 1 2 3 lv by (simp add: mdns_iteration_def Let_def)
qed

lemma turns_safe:
  "mdns_wf im \<Longrightarrow> locals_wf lv \<Longrightarrow> \<forall>ev \<in> set evs. short_datagram ev \<Longrightarrow>
   \<exists>im' lv' eff. mdns_turns net evs (im, lv) = Some ((im', lv'), eff) \<and> mdns_wf im'"
proof (induction evs arbitrary: im lv)
  case (Cons ev evs)
  obtain status im1 lv1 eff1 where 1: "mdns_iteration net ev (im, lv) = Some (status, (im1, lv1), eff1)" "mdns_wf im1" "locals_wf lv1"
    using iteration_safe [OF Cons.prems(1,2), of ev net] Cons.prems(3) by auto
  moreover obtain im2 lv2 eff2 where "mdns_turns net evs (im1, lv1) = Some ((im2, lv2), eff2)" "mdns_wf im2"
    using Cons.IH [OF 1(2,3)] Cons.prems(3) by auto
  ultimately show ?case by (cases status) auto
qed simp

section \<open>The properties\<close>

lemma start_safe:
  assumes "length abuf = 2048" "length qbuf = 2048" "length sbuf = 2048" "length (me_addresses e) \<le> 59"
  shows "\<exists>ok im eff. mdns_start net e (new_mdns_impl dev port abuf qbuf sbuf) = Some (ok, im, eff) \<and> mdns_wf im"
proof -
  obtain fd closed fd2 closed2 where open2: "mdns_socket_open_ipv4 (me_open_service e) = (fd, closed)"
      "mdns_socket_open_ipv4 (me_open_discovery e) = (fd2, closed2)"
    by (cases "mdns_socket_open_ipv4 (me_open_service e)"; cases "mdns_socket_open_ipv4 (me_open_discovery e)") auto
  define im where "im = (new_mdns_impl dev port abuf qbuf sbuf)\<lparr>im_running := True, service_socket := fd, discovery_socket := fd2,
    im_announced := build_announced_info (me_host e) (me_addresses e) dev port\<rparr>"
  have ann: "announced_ok (im_announced im)" using built_announced_ok [OF assms(4)] by (simp add: im_def)
  obtain b eff where a: "announce net False im = Some (im\<lparr>announce_buffer := b\<rparr>, eff)" "length b = 2048"
    using announce_safe [OF ann, of net False] assms(1) by (auto simp: im_def new_mdns_impl_def)
  obtain b2 eff2 where q: "send_query net (im\<lparr>announce_buffer := b\<rparr>) = Some (im\<lparr>announce_buffer := b, query_buffer := b2\<rparr>, eff2)" "length b2 = 2048"
    using send_query_safe [of "im\<lparr>announce_buffer := b\<rparr>" net] ann assms(2) by (auto simp: im_def new_mdns_impl_def)
  have fin: "mdns_wf (im\<lparr>announce_buffer := b, query_buffer := b2, mdns_thread := True\<rparr>)"
    using a(2) q(2) ann assms(3) by (simp add: mdns_wf_def) (simp add: im_def new_mdns_impl_def)
  show ?thesis
    using open2 a(1) q(1) fin assms(1-3)
    by (cases "fd < 0"; cases "fd2 < 0") (auto simp: mdns_start_def Let_def im_def new_mdns_impl_def mdns_wf_def)
qed

lemma stop_safe:
  assumes "mdns_wf im"
  shows "\<exists>im' eff. mdns_stop net im = Some (im', eff) \<and> \<not> im_running im' \<and> mdns_wf im'"
proof (cases "im_running im")
  case True
  then obtain b eff where "announce net True (im\<lparr>im_running := False, mdns_thread := False\<rparr>) =
      Some (im\<lparr>im_running := False, mdns_thread := False, announce_buffer := b\<rparr>, eff)" "length b = length (announce_buffer im)"
    using announce_safe [of "im\<lparr>im_running := False, mdns_thread := False\<rparr>" net True] assms by (auto simp: mdns_wf_def)
  then show ?thesis using True assms by (auto simp: mdns_stop_def mdns_wf_def Let_def)
qed (use assms in \<open>simp add: mdns_stop_def\<close>)

text \<open>
  C21: The mDNS service never reads or writes outside its buffers. It starts on any two sockets, turns its
  loop on any sequence of datagrams and stops, without a fault, for device ids, names and host names of any
  kind, when the machine has at most 59 addresses (the console has one) and no datagram for the service
  socket is longer than 2044 bytes.
\<close>

theorem mdns_loop_in_bounds:
  assumes "length abuf = 2048" "length qbuf = 2048" "length sbuf = 2048" "length (svc_buf lv) = 2048" "length (disc_buf lv) = 2048"
    "length (me_addresses e) \<le> 59" "\<forall>ev \<in> set evs. short_datagram ev"
  shows "\<exists>ok im started im' lv' turns im2 stopped.
           mdns_start net e (new_mdns_impl dev port abuf qbuf sbuf) = Some (ok, im, started) \<and>
           mdns_turns net evs (im, lv) = Some ((im', lv'), turns) \<and> mdns_stop net im' = Some (im2, stopped) \<and> \<not> im_running im2"
proof -
  obtain ok im started where 1: "mdns_start net e (new_mdns_impl dev port abuf qbuf sbuf) = Some (ok, im, started)" "mdns_wf im"
    using start_safe [OF assms(1-3,6)] by blast
  have "locals_wf lv" using assms(4,5) by (simp add: locals_wf_def)
  then obtain im' lv' turns where 2: "mdns_turns net evs (im, lv) = Some ((im', lv'), turns)" "mdns_wf im'"
    using turns_safe [OF 1(2) _ assms(7)] by blast
  from stop_safe [OF 2(2)] 1(1) 2(1) show ?thesis by blast
qed

theorem mdns_loop_in_bounds_witness:
  "\<exists>ok im started im' lv' turns im2 stopped.
     mdns_start demo_net
       \<lparr>me_open_service = \<lparr>oe_socket = 3, oe_membership_ok = True, oe_bind_ok = True\<rparr>,
        me_open_discovery = \<lparr>oe_socket = 4, oe_membership_ok = True, oe_bind_ok = True\<rparr>,
        me_host = None, me_addresses = [0x7F000001]\<rparr>
       (new_mdns_impl sample_info 1716 (replicate 2048 (CHR 0xFF)) (replicate 2048 (CHR 0xFF)) (replicate 2048 (CHR 0xFF))) =
       Some (ok, im, started) \<and>
     mdns_turns demo_net
       [\<lparr>le_now = 7, le_select_ok = True, le_service = Some (Some (replicate 2044 (CHR 0xC0)), (1, 2)), le_discovery = Some (None, None)\<rparr>]
       (im, demo_locals) = Some ((im', lv'), turns) \<and>
     mdns_stop demo_net im' = Some (im2, stopped) \<and> \<not> im_running im2"
  by (rule mdns_loop_in_bounds) (simp_all add: demo_locals_def short_datagram_def)

text \<open>
  The bound on the datagram is needed. A query for one name that ends where the 2048 byte buffer ends
  makes the listener read the type and class behind the buffer: the name is skipped within the bytes
  received, but nothing asks whether four more follow.
\<close>

theorem listener_reads_past_buffer:
  assumes "\<forall>l \<in> set (l # ls). label_ok l" "length l \<noteq> 9" "length (l # ls) \<le> 64" "12 + length (wire_name (l # ls)) = length sbuf"
  shows "mdns_socket_listen cb sbuf (Some (message_header qid 0 1 0 0 0 @ wire_name (l # ls))) a = None"
proof -
  let ?w = "wire_name (l # ls)" let ?m = "message_header qid 0 1 0 0 0 @ ?w"
  have lm: "length ?m = 12 + length ?w" by simp
  have recv: "recv_into sbuf (Some ?m) = Some (?m, 12 + length ?w)" using assms(4) lm by (auto simp: recv_into_def Let_def)
  have h: "take 12 ?m = message_header qid 0 1 0 0 0" by simp
  have w: "take (length ?w) (drop 12 ?m) = ?w" by simp
  have name: "name_in {12..<12 + length ?w} ?m 12 (l # ls) (12 + length ?w)"
    using lm by (intro name_in_wire [OF w _ assms(1)]) simp
  have P: "{12..<12 + length ?w} \<subseteq> {..<12 + length ?w}" "12 + length ?w \<le> length ?m" using lm by auto
  have eq: "mdns_string_equal ?m (12 + length ?w) 12 mdns_services_query (length mdns_services_query) 12 = Some None"
    by (rule equal_services_differs [OF name P assms(2)])
  have skip: "mdns_string_skip ?m (12 + length ?w) 12 = Some (Some (12 + length ?w))"
    by (rule mdns_string_skip_name [OF name P assms(3)])
  have "mdns_ntohs ?m (12 + length ?w) = None" using lm by (simp add: mdns_ntohs_def rd8_def del: wire_name_simps)
  then have "listen_questions cb ?m (12 + length ?w) qid 0 (Suc 0) 12 0 a = None"
    using eq skip by (simp del: wire_name_simps)
  then show ?thesis
    using recv header_numbers [OF h] by (simp add: mdns_socket_listen_def del: wire_name_simps listen_questions.simps)
qed

theorem listener_reads_past_buffer_witness:
  "mdns_socket_listen (service_callback (im_announced (demo_mdns ''b2'' [])) (mn_service demo_net) (0x0A000001, 5353))
     (svc_buf demo_locals)
     (Some (message_header 0 0 1 0 0 0 @ wire_name (replicate 50 (CHR ''a'') # replicate 31 (replicate 63 (CHR ''b'')))))
     \<lparr>out_buf = replicate 2048 (CHR 0x00), out_sent = []\<rparr> = None"
proof -
  have "label_ok (replicate n (CHR ''a''))" "label_ok (replicate n (CHR ''b''))" if "0 < n" "n < 64" for n
    using that by (auto simp: label_ok_def)
  then show ?thesis
    by (intro listener_reads_past_buffer) (auto simp: demo_locals_def wire_name_def length_concat comp_def sum_list_replicate)
qed

end
