(* ===== verification/Mdns_Browse.thy ===== *)
theory Mdns_Browse
  imports Mdns_Safety
begin

text \<open>
  The operations of \<open>sysmodule/src/mdns/mdns.h\<close> this program links but does not call: browsing for
  services and reading PTR, SRV and AAAA data.
\<close>

section \<open>Browsing\<close>

definition mdns_discovery_send :: "mdns_sock \<Rightarrow> bool \<times> mdns_send list" where
  "mdns_discovery_send sk = mdns_multicast_send sk mdns_services_query"

text \<open>The questions must be ours; the inner \<^const>\<open>None\<close> is the answer 0.\<close>

fun browse_questions :: "string \<Rightarrow> nat \<Rightarrow> nat \<Rightarrow> nat \<Rightarrow> nat option option" where
  "browse_questions buf sz 0 data = Some (Some data)"
| "browse_questions buf sz (Suc n) data =
     do { e \<leftarrow> mdns_string_equal buf sz data mdns_services_query (length mdns_services_query) 12;
          case e of
            None \<Rightarrow> Some None
          | Some (offset, _) \<Rightarrow>
              do { rtype \<leftarrow> mdns_ntohs buf offset;
                   rclass \<leftarrow> mdns_ntohs buf (offset + 2);
                   if rtype \<noteq> MDNS_RECORDTYPE_PTR \<or> rclass AND 0x7FFF \<noteq> MDNS_CLASS_IN then Some None
                   else browse_questions buf sz n (offset + 4) } }"

text \<open>
  The answers: only those to our question reach the callback. The left result ends the parsing with
  that count, the right one is the position reached and the count. The length of the data is compared
  with what follows the name, not with what follows the ten bytes of the header.
\<close>

fun browse_answers ::
    "'a mdns_callback \<Rightarrow> string \<Rightarrow> nat \<Rightarrow> u16 \<Rightarrow> nat \<Rightarrow> nat \<Rightarrow> nat \<Rightarrow> 'a \<Rightarrow> ((nat + nat \<times> nat) \<times> 'a) option" where
  "browse_answers cb buf sz qid 0 data records a = Some (Inr (data, records), a)"
| "browse_answers cb buf sz qid (Suc n) data records a =
     do { let name_offset = data;
          e \<leftarrow> mdns_string_equal buf sz data mdns_services_query (length mdns_services_query) 12;
          s \<leftarrow> (case e of Some (ofs, _) \<Rightarrow> Some (Some (True, ofs))
                         | None \<Rightarrow> do { k \<leftarrow> mdns_string_skip buf sz data; Some (map_option (\<lambda>ofs. (False, ofs)) k) });
          case s of
            None \<Rightarrow> Some (Inr (data, records), a)
          | Some (is_answer, offset) \<Rightarrow>
              if sz < offset + 10 then Some (Inl records, a)
              else
                do { rtype \<leftarrow> mdns_ntohs buf offset;
                     rclass \<leftarrow> mdns_ntohs buf (offset + 2);
                     ttl \<leftarrow> mdns_ntohl buf (offset + 4);
                     len \<leftarrow> mdns_ntohs buf (offset + 8);
                     if sz - offset < unat len then Some (Inl 0, a)
                     else if \<not> is_answer then browse_answers cb buf sz qid n (offset + 10 + unat len) records a
                     else
                       do { (stop, a) \<leftarrow> cb buf sz \<lparr>me_entry = EntryAnswer, me_query_id = qid, me_rtype = rtype,
                              me_rclass = rclass, me_ttl = ttl, me_name_offset = name_offset,
                              me_name_length = offset - name_offset, me_record_offset = offset + 10,
                              me_record_length = unat len\<rparr> a;
                            if stop then Some (Inl (records + 1), a)
                            else browse_answers cb buf sz qid n (offset + 10 + unat len) (records + 1) a } } }"

definition mdns_discovery_recv ::
    "'a mdns_callback \<Rightarrow> string \<Rightarrow> string option \<Rightarrow> 'a \<Rightarrow> (nat \<times> string \<times> 'a) option" where
  "mdns_discovery_recv cb buf pkt a =
     (case recv_into buf pkt of
        None \<Rightarrow> Some (0, buf, a)
      | Some (buf, sz) \<Rightarrow>
          do { qid \<leftarrow> mdns_ntohs buf 0;
               flags \<leftarrow> mdns_ntohs buf 2;
               questions \<leftarrow> mdns_ntohs buf 4;
               answers \<leftarrow> mdns_ntohs buf 6;
               authorities \<leftarrow> mdns_ntohs buf 8;
               additionals \<leftarrow> mdns_ntohs buf 10;
               if qid \<noteq> 0 \<or> flags \<noteq> 0x8400 then Some (0, buf, a)
               else
                 do { q \<leftarrow> browse_questions buf sz (unat questions) 12;
                      case q of
                        None \<Rightarrow> Some (0, buf, a)
                      | Some data \<Rightarrow>
                          do { (r, a) \<leftarrow> browse_answers cb buf sz qid (unat answers) data 0 a;
                               case r of
                                 Inl n \<Rightarrow> Some (n, buf, a)
                               | Inr (offset, tot) \<Rightarrow>
                                   do { (records, offset, a) \<leftarrow>
                                          mdns_records_parse cb buf sz offset EntryAuthority qid (unat authorities) a;
                                        let tot = tot + records;
                                        if records \<noteq> unat authorities then Some (tot, buf, a)
                                        else
                                          do { (records, offset, a) \<leftarrow>
                                                 mdns_records_parse cb buf sz offset EntryAdditional qid (unat additionals) a;
                                               Some (tot + records, buf, a) } } } } })"

section \<open>Record data\<close>

definition mdns_record_parse_ptr :: "string \<Rightarrow> nat \<Rightarrow> nat \<Rightarrow> nat \<Rightarrow> nat \<Rightarrow> string option" where
  "mdns_record_parse_ptr buf sz offset len capacity =
     (if offset + len \<le> sz \<and> 2 \<le> len then map_option fst (mdns_string_extract buf sz offset capacity) else Some [])"

text \<open>Priority, weight, port and name; zeros and an empty name for data that is too short.\<close>

definition mdns_record_parse_srv :: "string \<Rightarrow> nat \<Rightarrow> nat \<Rightarrow> nat \<Rightarrow> nat \<Rightarrow> (u16 \<times> u16 \<times> u16 \<times> string) option" where
  "mdns_record_parse_srv buf sz offset len capacity =
     (if offset + len \<le> sz \<and> 8 \<le> len then
        do { priority \<leftarrow> mdns_ntohs buf offset;
             weight \<leftarrow> mdns_ntohs buf (offset + 2);
             port \<leftarrow> mdns_ntohs buf (offset + 4);
             (name, _) \<leftarrow> mdns_string_extract buf sz (offset + 6) capacity;
             Some (priority, weight, port, name) }
      else Some (0, 0, 0, []))"

text \<open>The sixteen bytes of the address.\<close>

definition mdns_record_parse_aaaa :: "string \<Rightarrow> nat \<Rightarrow> nat \<Rightarrow> nat \<Rightarrow> string option" where
  "mdns_record_parse_aaaa buf sz offset len =
     (if offset + len \<le> sz \<and> len = 16 then rd_mem buf offset 16 else Some (replicate 16 (CHR 0x00)))"

section \<open>Bounds\<close>

lemma parse_data_safe:
  assumes "sz \<le> length buf"
  shows "\<exists>s. mdns_record_parse_ptr buf sz offset len capacity = Some s"
    "\<exists>r. mdns_record_parse_srv buf sz offset len capacity = Some r"
    "\<exists>a. mdns_record_parse_aaaa buf sz offset len = Some a"
proof -
  have x: "\<exists>s e. mdns_string_extract buf sz i capacity = Some (s, e)" for i
    using mdns_string_extract_safe [OF assms] by blast
  show "\<exists>s. mdns_record_parse_ptr buf sz offset len capacity = Some s"
    using x [of offset] by (auto simp: mdns_record_parse_ptr_def)
  show "\<exists>a. mdns_record_parse_aaaa buf sz offset len = Some a"
    using assms by (auto simp: mdns_record_parse_aaaa_def intro: rd_mem_Some)
  show "\<exists>r. mdns_record_parse_srv buf sz offset len capacity = Some r"
  proof (cases "offset + len \<le> sz \<and> 8 \<le> len")
    case True
    then show ?thesis
      using assms x [of "offset + 6"] mdns_ntohs_safe [of offset buf] mdns_ntohs_safe [of "offset + 2" buf]
        mdns_ntohs_safe [of "offset + 4" buf]
      by (auto simp: mdns_record_parse_srv_def)
  qed (auto simp: mdns_record_parse_srv_def)
qed

lemma browse_questions_safe:
  assumes "sz + 4 \<le> length buf"
  shows "\<exists>r. browse_questions buf sz n data = Some r"
proof (induction n arbitrary: data)
  case (Suc n)
  have sz: "sz \<le> length buf" using assms by simp
  obtain e where e: "mdns_string_equal buf sz data mdns_services_query (length mdns_services_query) 12 = Some e"
      "\<forall>l r. e = Some (l, r) \<longrightarrow> l \<le> sz"
    using mdns_string_equal_safe [OF sz order_refl] by blast
  show ?case
  proof (cases e)
    case (Some p)
    then obtain l r where l: "e = Some (l, r)" "l + 4 \<le> length buf" using e(2) assms by (cases p) force
    obtain w1 w2 where "mdns_ntohs buf l = Some w1" "mdns_ntohs buf (l + 2) = Some w2"
      using mdns_ntohs_safe [of l buf] mdns_ntohs_safe [of "l + 2" buf] l(2) by force
    then show ?thesis using e(1) l(1) Suc.IH by simp
  qed (simp add: e)
qed simp

context mdns_reader
begin

lemma browse_answers_safe:
  assumes "sz \<le> length buf"
  shows "ok a \<Longrightarrow> \<exists>r a'. browse_answers cb buf sz qid n data records a = Some (r, a') \<and> ok a'"
proof (induction n arbitrary: data records a)
  case (Suc n)
  obtain e where e: "mdns_string_equal buf sz data mdns_services_query (length mdns_services_query) 12 = Some e"
    using mdns_string_equal_safe [OF assms order_refl] by blast
  obtain k where k: "mdns_string_skip buf sz data = Some k" using mdns_string_skip_safe [OF assms] by blast
  define s where "s = (case e of Some (ofs, _) \<Rightarrow> Some (True, ofs) | None \<Rightarrow> map_option (\<lambda>ofs. (False, ofs)) k)"
  have s: "(case e of Some (ofs, _) \<Rightarrow> Some (Some (True, ofs))
      | None \<Rightarrow> do { k \<leftarrow> mdns_string_skip buf sz data; Some (map_option (\<lambda>ofs. (False, ofs)) k) }) = Some s"
    by (auto simp: s_def k split: option.splits)
  show ?case
  proof (cases s)
    case None
    then show ?thesis using Suc.prems s by (auto simp: e)
  next
    case (Some p)
    then obtain ans x where p: "s = Some (ans, x)" by (cases p) auto
    show ?thesis
    proof (cases "sz < x + 10")
      case True
      then show ?thesis using Suc.prems s p by (auto simp: e)
    next
      case False
      then obtain w1 w2 w3 w4 where w: "mdns_ntohs buf x = Some w1" "mdns_ntohs buf (x + 2) = Some w2"
          "mdns_ntohl buf (x + 4) = Some w3" "mdns_ntohs buf (x + 8) = Some w4"
        using mdns_ntohs_safe [of x buf] mdns_ntohs_safe [of "x + 2" buf] mdns_ntohl_safe [of "x + 4" buf]
          mdns_ntohs_safe [of "x + 8" buf] assms by force
      let ?ev = "\<lparr>me_entry = EntryAnswer, me_query_id = qid, me_rtype = w1, me_rclass = w2, me_ttl = w3,
        me_name_offset = data, me_name_length = x - data, me_record_offset = x + 10, me_record_length = unat w4\<rparr>"
      obtain stop a' where cb: "cb buf sz ?ev a = Some (stop, a')" "ok a'" using cb_safe [OF assms Suc.prems] by blast
      show ?thesis
        using False s p w cb Suc.IH [of a'] Suc.IH [of a] Suc.prems by (auto simp: e Let_def)
    qed
  qed
qed simp

lemma browsed_records_safe:
  assumes "sz \<le> length b" "ok a"
  shows "\<exists>r n. (do { (records, offset, a) \<leftarrow> mdns_records_parse cb b sz offset EntryAuthority qid na a;
                   let tot = tot + records;
                   if records \<noteq> na then Some (tot, b, a)
                   else do { (records, offset, a) \<leftarrow> mdns_records_parse cb b sz offset EntryAdditional qid nb a;
                             Some (tot + records, b, a) } }) = Some (n, b, r) \<and> ok r"
proof -
  obtain n2 o2 a2 where 2: "records_loop cb b sz EntryAuthority qid na offset 0 a = Some (n2, o2, a2)" "ok a2"
    using records_loop_safe [OF assms] by blast
  obtain n3 o3 a3 where 3: "records_loop cb b sz EntryAdditional qid nb o2 0 a2 = Some (n3, o3, a3)" "ok a3"
    using records_loop_safe [OF assms(1) 2(2)] by blast
  show ?thesis using 2 3 by (simp add: mdns_records_parse_def Let_def)
qed

lemma discovery_recv_safe:
  assumes "12 \<le> length buf" "\<forall>p. pkt = Some p \<longrightarrow> length p + 4 \<le> length buf" "ok a"
  shows "\<exists>n b a'. mdns_discovery_recv cb buf pkt a = Some (n, b, a') \<and> length b = length buf \<and> ok a'"
proof (cases "recv_into buf pkt")
  case None
  then show ?thesis using assms by (simp add: mdns_discovery_recv_def)
next
  case (Some bs)
  then obtain b sz where bs: "recv_into buf pkt = Some (b, sz)" by (cases bs) auto
  then have len: "length b = length buf" "sz + 4 \<le> length b" using recv_into_Some [OF bs] assms(2) by auto
  then have sz: "sz \<le> length b" by simp
  obtain h1 h2 h3 h4 h5 h6 where h: "mdns_ntohs b 0 = Some h1" "mdns_ntohs b 2 = Some h2"
    "mdns_ntohs b 4 = Some h3" "mdns_ntohs b 6 = Some h4" "mdns_ntohs b 8 = Some h5" "mdns_ntohs b 10 = Some h6"
    using header_safe [of b] assms(1) len by auto
  obtain q where q: "browse_questions b sz (unat h3) 12 = Some q" using browse_questions_safe [OF len(2)] by blast
  consider "\<not> (h1 = 0 \<and> h2 = 0x8400)" | "h1 = 0" "h2 = 0x8400" "q = None"
    | data where "h1 = 0" "h2 = 0x8400" "q = Some data" by (cases q) auto
  then show ?thesis
  proof cases
    case (3 data)
    obtain r a1 where r: "browse_answers cb b sz 0 (unat h4) data 0 a = Some (r, a1)" "ok a1"
      using browse_answers_safe [OF sz assms(3)] by blast
    show ?thesis
    proof (cases r)
      case (Inl n)
      then show ?thesis using bs h q len(1) 3 r by (simp add: mdns_discovery_recv_def)
    next
      case (Inr p)
      then show ?thesis
        using bs h q len(1) 3 r(1) browsed_records_safe [OF sz r(2), of "fst p" 0 "unat h5" "snd p" "unat h6"]
        by (cases p) (auto simp: mdns_discovery_recv_def)
    qed
  qed (use bs h q len(1) assms(3) in \<open>auto simp: mdns_discovery_recv_def\<close>)
qed

end

end
