(* ===== verification/Settings_Store.thy ===== *)
theory Settings_Store
  imports Storage
begin

text \<open>
  \<open>common/src/constants.h\<close> and \<open>sysmodule/src/utils/settings_store.cpp\<close>: the setting keys with
  their defaults, the two maps of the store, and their file. The maps are keyed by the number of a
  key; the file has the names.
\<close>

section \<open>Keys\<close>

datatype bool_key =
    NotificationShowRemoteMessages | NotificationShowOnConnect | NotificationShowIcon
  | NotificationShowTime | NotificationDynamicFontSize | NotificationShowOnBatteryLow
  | RunCommandPowerCommandsEnabled | MprisShowAlbumArt | MprisAlbumArtTopLayout

datatype int_key = NotificationDuration | MprisSeekStepSize | NotificationFontSize | NotificationStyle_key

datatype notification_style =
    AppName_TitleBody | AppName_Title | Title_Body | TitleAppName_Body | AppNameTitle_Body

definition style_val :: "notification_style \<Rightarrow> i32" where
  "style_val s = (case s of AppName_TitleBody \<Rightarrow> 0 | AppName_Title \<Rightarrow> 1 | Title_Body \<Rightarrow> 2
     | TitleAppName_Body \<Rightarrow> 3 | AppNameTitle_Body \<Rightarrow> 4)"

text \<open>The rows of the two tables, in the order that gives the numbers.\<close>

definition bool_settings :: "(bool_key \<times> string \<times> bool) list" where
  "bool_settings =
     [(NotificationShowRemoteMessages, ''NotificationShowRemoteMessages'', True),
      (NotificationShowOnConnect, ''NotificationShowOnConnect'', False),
      (NotificationShowIcon, ''NotificationShowIcon'', True),
      (NotificationShowTime, ''NotificationShowTime'', True),
      (NotificationDynamicFontSize, ''NotificationDynamicFontSize'', False),
      (NotificationShowOnBatteryLow, ''NotificationShowOnBatteryLow'', True),
      (RunCommandPowerCommandsEnabled, ''RunCommandPowerCommandsEnabled'', True),
      (MprisShowAlbumArt, ''MprisShowAlbumArt'', True),
      (MprisAlbumArtTopLayout, ''MprisAlbumArtTopLayout'', True)]"

definition int_settings :: "(int_key \<times> string \<times> i32) list" where
  "int_settings =
     [(NotificationDuration, ''NotificationDuration'', 4000),
      (MprisSeekStepSize, ''MprisSeekStepSize'', 10000),
      (NotificationFontSize, ''NotificationFontSize'', 22),
      (NotificationStyle_key, ''NotificationStyle'', style_val AppName_TitleBody)]"

definition bool_key_num :: "bool_key \<Rightarrow> u8" where
  "bool_key_num k = (case k of NotificationShowRemoteMessages \<Rightarrow> 0 | NotificationShowOnConnect \<Rightarrow> 1
     | NotificationShowIcon \<Rightarrow> 2 | NotificationShowTime \<Rightarrow> 3 | NotificationDynamicFontSize \<Rightarrow> 4
     | NotificationShowOnBatteryLow \<Rightarrow> 5 | RunCommandPowerCommandsEnabled \<Rightarrow> 6 | MprisShowAlbumArt \<Rightarrow> 7
     | MprisAlbumArtTopLayout \<Rightarrow> 8)"

definition int_key_num :: "int_key \<Rightarrow> u8" where
  "int_key_num k = (case k of NotificationDuration \<Rightarrow> 0 | MprisSeekStepSize \<Rightarrow> 1
     | NotificationFontSize \<Rightarrow> 2 | NotificationStyle_key \<Rightarrow> 3)"

definition kMaxSettings :: nat where
  "kMaxSettings = length bool_settings + length int_settings"

text \<open>A key number may be any byte: it comes from the IPC client.\<close>

definition bool_row :: "u8 \<Rightarrow> (string \<times> bool) option" where
  "bool_row n = map_of (map (\<lambda>(k, r). (bool_key_num k, r)) bool_settings) n"

definition int_row :: "u8 \<Rightarrow> (string \<times> i32) option" where
  "int_row n = map_of (map (\<lambda>(k, r). (int_key_num k, r)) int_settings) n"

definition bool_key_name :: "u8 \<Rightarrow> string option" where
  "bool_key_name n = map_option fst (bool_row n)"

definition int_key_name :: "u8 \<Rightarrow> string option" where
  "int_key_name n = map_option fst (int_row n)"

definition bool_key_from_name :: "string \<Rightarrow> u8 option" where
  "bool_key_from_name s = map_of (map (\<lambda>(k, n, d). (n, bool_key_num k)) bool_settings) s"

definition int_key_from_name :: "string \<Rightarrow> u8 option" where
  "int_key_from_name s = map_of (map (\<lambda>(k, n, d). (n, int_key_num k)) int_settings) s"

section \<open>The store\<close>

record settings =
  g_bool :: "(u8, bool) umap"
  g_int :: "(u8, i32) umap"

definition empty_settings :: settings where
  "empty_settings = \<lparr>g_bool = [], g_int = []\<rparr>"

definition emplace :: "'k \<Rightarrow> 'v \<Rightarrow> ('k, 'v) umap \<Rightarrow> ('k, 'v) umap" where
  "emplace k v m = (if um_contains k m then m else AList.update k v m)"

definition apply_defaults :: "settings \<Rightarrow> settings" where
  "apply_defaults st =
     \<lparr>g_bool = fold (\<lambda>(k, n, d). emplace (bool_key_num k) d) bool_settings (g_bool st),
      g_int = fold (\<lambda>(k, n, d). emplace (int_key_num k) d) int_settings (g_int st)\<rparr>"

definition settings_path :: string where
  "settings_path = ''/config/kdeconnect/settings.json''"

definition load_bool :: "string \<Rightarrow> bool \<Rightarrow> settings \<Rightarrow> settings" where
  "load_bool n v st =
     (case bool_key_from_name n of Some k \<Rightarrow> st\<lparr>g_bool := AList.update k v (g_bool st)\<rparr> | None \<Rightarrow> st)"

definition load_int :: "string \<Rightarrow> i32 \<Rightarrow> settings \<Rightarrow> settings" where
  "load_int n v st =
     (case int_key_from_name n of Some k \<Rightarrow> st\<lparr>g_int := AList.update k v (g_int st)\<rparr> | None \<Rightarrow> st)"

definition settings_load :: "yyjson \<Rightarrow> 'fs nxfs \<Rightarrow> 'fs \<Rightarrow> settings \<Rightarrow> settings" where
  "settings_load Y F fs st =
     (let st = apply_defaults st;
          buf = read_file F settings_path fs
      in if buf = [] then st
         else
           (let j = jb_parse Y buf
            in jb_each_int Y j ''int'' load_int (jb_each_bool Y j ''bool'' load_bool st)))"

definition settings_body :: "yyjson \<Rightarrow> settings \<Rightarrow> json_body" where
  "settings_body Y st =
     (let j_bool = fold (\<lambda>(k, v) b. case bool_key_name k of Some n \<Rightarrow> set_bool Y n v b | None \<Rightarrow> b) (g_bool st) jb_empty;
          j_int = fold (\<lambda>(k, v) b. case int_key_name k of Some n \<Rightarrow> set_int Y n v b | None \<Rightarrow> b) (g_int st) jb_empty
      in set_body Y ''int'' j_int (set_body Y ''bool'' j_bool jb_empty))"

definition settings_save :: "yyjson \<Rightarrow> 'fs nxfs \<Rightarrow> settings \<Rightarrow> 'fs \<Rightarrow> 'fs" where
  "settings_save Y F st fs =
     (let fs = (case parent_dir settings_path of Some d \<Rightarrow> make_directories F d fs | None \<Rightarrow> fs)
      in snd (write_file F settings_path (jb_dump_indent Y 2 (settings_body Y st)) fs))"

definition get_bool_setting :: "settings \<Rightarrow> u8 \<Rightarrow> bool" where
  "get_bool_setting st k =
     (case map_of (g_bool st) k of
        Some v \<Rightarrow> v
      | None \<Rightarrow> (case bool_row k of Some (n, d) \<Rightarrow> d | None \<Rightarrow> False))"

definition get_int_setting :: "settings \<Rightarrow> u8 \<Rightarrow> i32" where
  "get_int_setting st k =
     (case map_of (g_int st) k of
        Some v \<Rightarrow> v
      | None \<Rightarrow> (case int_row k of Some (n, d) \<Rightarrow> d | None \<Rightarrow> 0))"

definition set_bool_setting :: "yyjson \<Rightarrow> 'fs nxfs \<Rightarrow> u8 \<Rightarrow> bool \<Rightarrow> settings \<times> 'fs \<Rightarrow> settings \<times> 'fs" where
  "set_bool_setting Y F k v s =
     (case s of (st, fs) \<Rightarrow>
        (let st = st\<lparr>g_bool := AList.update k v (g_bool st)\<rparr> in (st, settings_save Y F st fs)))"

definition set_int_setting :: "yyjson \<Rightarrow> 'fs nxfs \<Rightarrow> u8 \<Rightarrow> i32 \<Rightarrow> settings \<times> 'fs \<Rightarrow> settings \<times> 'fs" where
  "set_int_setting Y F k v s =
     (case s of (st, fs) \<Rightarrow>
        (let st = st\<lparr>g_int := AList.update k v (g_int st)\<rparr> in (st, settings_save Y F st fs)))"

text \<open>An entry is its key and the first byte or the four bytes of its value union.\<close>

datatype setting_value = AsBool bool | AsInt i32

definition get_all_settings :: "settings \<Rightarrow> (u8 \<times> setting_value) list" where
  "get_all_settings st = map (\<lambda>(k, v). (k, AsBool v)) (g_bool st) @ map (\<lambda>(k, v). (k, AsInt v)) (g_int st)"

section \<open>Lemmas\<close>

text \<open>The maps are stores of fields: there is no environment, and every key can be stored.\<close>

interpretation bools: field_store "\<lambda>_ :: unit. True" um_wf "\<lambda>_ :: u8. True" "\<lambda>_. map_of"
  "\<lambda>_ (m :: (u8, bool) umap) k v. AList.update k v m"
  by unfold_locales auto

interpretation ints: field_store "\<lambda>_ :: unit. True" um_wf "\<lambda>_ :: u8. True" "\<lambda>_. map_of"
  "\<lambda>_ (m :: (u8, i32) umap) k v. AList.update k v m"
  by unfold_locales auto

lemma um_wf_emplace [simp, intro]: "um_wf m \<Longrightarrow> um_wf (emplace k v m)"
  by (simp add: emplace_def)

lemma map_of_emplace: "map_of (emplace k v m) k' = (if k' = k \<and> map_of m k = None then Some v else map_of m k')"
  by (auto simp: emplace_def um_contains_def)

lemma apply_defaults_wf:
  "um_wf (g_bool st) \<Longrightarrow> um_wf (g_int st) \<Longrightarrow>
     um_wf (g_bool (apply_defaults st)) \<and> um_wf (g_int (apply_defaults st))"
  by (simp add: apply_defaults_def bool_settings_def int_settings_def)

lemma defaults_bool:
  "map_of (g_bool (apply_defaults st)) k =
     (case map_of (g_bool st) k of Some v \<Rightarrow> Some v | None \<Rightarrow> map_option snd (bool_row k))"
  by (auto simp: apply_defaults_def bool_settings_def map_of_emplace bool_row_def bool_key_num_def split: option.split)

lemma defaults_int:
  "map_of (g_int (apply_defaults st)) k =
     (case map_of (g_int st) k of Some v \<Rightarrow> Some v | None \<Rightarrow> map_option snd (int_row k))"
  by (auto simp: apply_defaults_def int_settings_def map_of_emplace int_row_def int_key_num_def split: option.split)

lemma get_defaults [simp]:
  "get_bool_setting (apply_defaults st) k = get_bool_setting st k"
  "get_int_setting (apply_defaults st) k = get_int_setting st k"
  by (auto simp: get_bool_setting_def get_int_setting_def defaults_bool defaults_int split: option.splits)

text \<open>The names lead back to the numbers.\<close>

lemma bool_names: "list_all (\<lambda>(k, n, d). bool_key_from_name n = Some (bool_key_num k) \<and> ascii n) bool_settings"
  by code_simp

lemma int_names: "list_all (\<lambda>(k, n, d). int_key_from_name n = Some (int_key_num k) \<and> ascii n) int_settings"
  by code_simp

lemma bool_name_key: "bool_key_name k = Some n \<Longrightarrow> bool_key_from_name n = Some k \<and> ascii n"
  using bool_names by (force simp: bool_key_name_def bool_row_def list_all_iff dest: map_of_SomeD)

lemma int_name_key: "int_key_name k = Some n \<Longrightarrow> int_key_from_name n = Some k \<and> ascii n"
  using int_names by (force simp: int_key_name_def int_row_def list_all_iff dest: map_of_SomeD)

text \<open>
  Both maps are written and read by the same loops. \<open>name\<close> and \<open>from\<close> convert keys, \<open>enc\<close> is the
  JSON value.
\<close>

definition members :: "('k \<Rightarrow> string option) \<Rightarrow> ('v \<Rightarrow> jval) \<Rightarrow> ('k, 'v) umap \<Rightarrow> (string \<times> jval) list" where
  "members name enc kvs = List.map_filter (\<lambda>(k, v). map_option (\<lambda>n. (n, enc v)) (name k)) kvs"

lemma members_simps [simp]:
  "members name enc [] = []"
  "members name enc ((k, v) # kvs) =
     (case name k of Some n \<Rightarrow> (n, enc v) # members name enc kvs | None \<Rightarrow> members name enc kvs)"
  by (simp_all add: members_def map_filter_simps split: option.split)

lemma members_fst: "p \<in> set (members name enc kvs) \<Longrightarrow> \<exists>k \<in> fst ` set kvs. name k = Some (fst p)"
proof (induction kvs)
  case (Cons kv kvs)
  then show ?case by (cases kv) (auto split: option.splits)
qed simp

lemma delete_fresh: "k \<notin> fst ` set m \<Longrightarrow> AList.delete k m = m"
  by (induction m) auto

lemma write_members:
  assumes "yyjson_ok Y" "um_wf kvs" "\<And>k n. name k = Some n \<Longrightarrow> from n = Some k \<and> nul_free n"
    and "\<forall>k \<in> fst ` set kvs. \<forall>n. name k = Some n \<longrightarrow> n \<notin> fst ` set acc"
  shows "fold (\<lambda>(k, v) b. case name k of Some n \<Rightarrow> upsert Y b n (enc v) | None \<Rightarrow> b) kvs (JObj acc) =
     JObj (acc @ members name enc kvs)"
  using assms(2,4)
proof (induction kvs arbitrary: acc)
  case (Cons kv kvs)
  obtain k v where kv: "kv = (k, v)" by (cases kv)
  have wf: "um_wf kvs" "k \<notin> fst ` set kvs" using Cons.prems(1) kv by (auto simp: um_wf_def)
  show ?case
  proof (cases "name k")
    case None
    then show ?thesis using Cons.IH [OF wf(1), of acc] Cons.prems(2) kv by simp
  next
    case (Some n)
    have n: "n \<notin> fst ` set acc" "nul_free n" using Cons.prems(2) kv Some assms(3) by auto
    have "m \<notin> fst ` set (acc @ [(n, enc v)])" if k': "k' \<in> fst ` set kvs" "name k' = Some m" for k' m
    proof -
      have "m \<notin> fst ` set acc" using Cons.prems(2) kv k' by (metis image_insert insertCI list.simps(15))
      moreover have "k' \<noteq> k" using wf(2) k'(1) by blast
      then have "m \<noteq> n" using assms(3) [OF Some] assms(3) [OF k'(2)] by auto
      ultimately show ?thesis by simp
    qed
    then have "\<forall>k' \<in> fst ` set kvs. \<forall>m. name k' = Some m \<longrightarrow> m \<notin> fst ` set (acc @ [(n, enc v)])"
      by blast
    from Cons.IH [OF wf(1) this] show ?thesis
      using kv Some n by (simp add: upsert_JObj [OF assms(1)] delete_fresh)
  qed
qed simp

definition put_named :: "('k \<Rightarrow> string option) \<Rightarrow> ('k, 'v) umap \<Rightarrow> ('k, 'v) umap \<Rightarrow> ('k, 'v) umap" where
  "put_named name kvs m = fold (\<lambda>(k, v) m. if name k = None then m else AList.update k v m) kvs m"

lemma map_of_put_named:
  "um_wf kvs \<Longrightarrow> map_of (put_named name kvs m) k =
     (case map_of kvs k of Some v \<Rightarrow> if name k = None then map_of m k else Some v | None \<Rightarrow> map_of m k)"
proof (induction kvs arbitrary: m)
  case (Cons kv kvs)
  obtain k' v where kv: "kv = (k', v)" by (cases kv)
  have "um_wf kvs" "map_of kvs k' = None" using Cons.prems kv by (auto simp: um_wf_def map_of_eq_None_iff)
  then show ?case using Cons.IH kv by (auto simp: put_named_def split: option.splits)
qed (simp add: put_named_def)

lemma load_bools:
  "fold (\<lambda>(k, v) s. case v of JBool x \<Rightarrow> load_bool (c_str k) x s | _ \<Rightarrow> s)
     (map (map_prod id j_norm) (members bool_key_name JBool kvs)) st =
   st\<lparr>g_bool := put_named bool_key_name kvs (g_bool st)\<rparr>"
proof (induction kvs arbitrary: st)
  case (Cons kv kvs)
  obtain k v where kv: "kv = (k, v)" by (cases kv)
  show ?case
  proof (cases "bool_key_name k")
    case (Some n)
    then have "load_bool (c_str n) v st = st\<lparr>g_bool := AList.update k v (g_bool st)\<rparr>"
      using bool_name_key [OF Some] ascii_nul_free by (simp add: load_bool_def)
    then show ?thesis using Some kv Cons.IH by (simp add: put_named_def)
  qed (use kv Cons.IH in \<open>simp add: put_named_def\<close>)
qed (simp add: put_named_def)

lemma load_ints:
  assumes "yyjson_ok Y"
  shows "fold (\<lambda>(k, v) s. if is_jint v then load_int (c_str k) (yy_get_int Y v) s else s)
     (map (map_prod id j_norm) (members int_key_name (\<lambda>v. JSint (scast v)) kvs)) st =
   st\<lparr>g_int := put_named int_key_name kvs (g_int st)\<rparr>"
proof (induction kvs arbitrary: st)
  case (Cons kv kvs)
  obtain k v where kv: "kv = (k, v)" by (cases kv)
  show ?case
  proof (cases "int_key_name k")
    case (Some n)
    then have "load_int (c_str n) v st = st\<lparr>g_int := AList.update k v (g_int st)\<rparr>"
      using int_name_key [OF Some] ascii_nul_free by (simp add: load_int_def)
    moreover have "yy_get_int Y (j_norm (JSint (scast v))) = v" "is_jint (j_norm (JSint (scast v)))"
      using assms by (simp_all add: yy_get_int_JSint yy_get_int_JUint)
    ultimately show ?thesis using Some kv Cons.IH by (simp add: put_named_def)
  qed (use kv Cons.IH in \<open>simp add: put_named_def\<close>)
qed (simp add: put_named_def)

lemma members_plain:
  assumes "\<And>k n. name k = Some n \<Longrightarrow> ascii n" "\<And>v. j_plain (enc v)"
  shows "j_plain (JObj (members name enc kvs))"
proof (induction kvs)
  case (Cons kv kvs)
  then show ?case using assms by (cases kv) (auto split: option.split)
qed simp

lemma settings_body_eq:
  assumes "yyjson_ok Y" "um_wf (g_bool st)" "um_wf (g_int st)"
  shows "settings_body Y st =
    JObj [(''bool'', JObj (members bool_key_name JBool (g_bool st))),
          (''int'', JObj (members int_key_name (\<lambda>v. JSint (scast v)) (g_int st)))]"
proof -
  have b: "fold (\<lambda>(k, v) b. case bool_key_name k of Some n \<Rightarrow> set_bool Y n v b | None \<Rightarrow> b) (g_bool st) jb_empty =
      JObj (members bool_key_name JBool (g_bool st))"
    using write_members [OF assms(1,2), of bool_key_name bool_key_from_name "[]" JBool] bool_name_key ascii_nul_free
    unfolding set_bool_def jb_empty_def by simp
  have i: "fold (\<lambda>(k, v) b. case int_key_name k of Some n \<Rightarrow> set_int Y n v b | None \<Rightarrow> b) (g_int st) jb_empty =
      JObj (members int_key_name (\<lambda>v. JSint (scast v)) (g_int st))"
    using write_members [OF assms(1,3), of int_key_name int_key_from_name "[]" "\<lambda>v. JSint (scast v)"]
      int_name_key ascii_nul_free
    unfolding set_int_def jb_empty_def by simp
  show ?thesis
    using assms(1) unfolding settings_body_def b i Let_def
    by (simp add: set_body_def yy_copy_Some jb_empty_def upsert_JObj)
qed

section \<open>Properties\<close>

lemma settings_file:
  assumes "nxfs_ok F C" "nxfs_up F C" "length settings_path < fs_max_path F"
  shows "read_file F settings_path (settings_save Y F st fs) = jb_dump_indent Y 2 (settings_body Y st)"
proof -
  define fs1 where "fs1 = (case parent_dir settings_path of Some d \<Rightarrow> make_directories F d fs | None \<Rightarrow> fs)"
  obtain r fs2 where w: "write_file F settings_path (jb_dump_indent Y 2 (settings_body Y st)) fs1 = (r, fs2)"
    by fastforce
  have r: r using write_file_up [OF assms(1,2,3), of "jb_dump_indent Y 2 (settings_body Y st)" fs1] w by simp
  have n: "nul_free settings_path" by (simp add: settings_path_def)
  show ?thesis
    using write_file_spec [OF assms(1) w] n r read_file_content [OF assms(1,2) _ assms(3)] w
    by (simp add: settings_save_def fs1_def [symmetric] Let_def)
qed

text \<open>
  C22: settings survive a restart. After a save, a fresh store that loads the file answers every
  key of the tables as the saved store did, whatever was set, default or not, and whatever other
  keys an IPC client had put into the maps.
\<close>

theorem settings_survive_restart:
  assumes "yyjson_ok Y" and "nxfs_ok F C" and "nxfs_up F C" and "length settings_path < fs_max_path F"
    and "um_wf (g_bool st)" and "um_wf (g_int st)"
  shows "(bool_key_name k \<noteq> None \<longrightarrow>
       get_bool_setting (settings_load Y F (settings_save Y F st fs) empty_settings) k = get_bool_setting st k) \<and>
     (int_key_name l \<noteq> None \<longrightarrow>
       get_int_setting (settings_load Y F (settings_save Y F st fs) empty_settings) l = get_int_setting st l)"
proof -
  let ?b = "settings_body Y st"
  have b: "is_jobj ?b" "j_plain ?b"
    using members_plain [of bool_key_name JBool "g_bool st"] bool_name_key
      members_plain [of int_key_name "\<lambda>v. JSint (scast v)" "g_int st"] int_name_key
    by (auto simp: settings_body_eq [OF assms(1,5,6)] ascii_char_def simp del: j_plain.simps(8))
      (auto simp: ascii_char_def)
  have "jb_dump_indent Y 2 ?b \<noteq> []"
    using yy_writeE [OF assms(1) b(2)] by (metis jb_dump_indent_def option.simps(5))
  then have "settings_load Y F (settings_save Y F st fs) empty_settings =
      jb_each_int Y (j_norm ?b) ''int'' load_int (jb_each_bool Y (j_norm ?b) ''bool'' load_bool (apply_defaults empty_settings))"
    by (simp add: settings_load_def settings_file [OF assms(2-4)] jb_parse_dump(2) [OF assms(1) b(2,1)] Let_def)
  also have "\<dots> = \<lparr>g_bool = put_named bool_key_name (g_bool st) (g_bool (apply_defaults empty_settings)),
      g_int = put_named int_key_name (g_int st) (g_int (apply_defaults empty_settings))\<rparr>"
    unfolding settings_body_eq [OF assms(1,5,6)]
    by (simp add: jb_each_bool_def jb_each_int_def field_JObj [OF assms(1)] load_bools load_ints [OF assms(1)])
  finally have l: "settings_load Y F (settings_save Y F st fs) empty_settings = \<dots>" .
  show ?thesis
    unfolding l
    by (auto simp: get_bool_setting_def get_int_setting_def map_of_put_named [OF assms(5)]
        map_of_put_named [OF assms(6)] defaults_bool defaults_int empty_settings_def
        bool_key_name_def int_key_name_def split: option.splits)
qed

theorem settings_survive_restart_witness:
  "get_bool_setting (settings_load yy_ref nx_ref (settings_save yy_ref nx_ref
       \<lparr>g_bool = [(6, False), (99, True)], g_int = [(2, 30)]\<rparr> Map.empty) empty_settings) 6 = False \<and>
   get_int_setting (settings_load yy_ref nx_ref (settings_save yy_ref nx_ref
       \<lparr>g_bool = [(6, False), (99, True)], g_int = [(2, 30)]\<rparr> Map.empty) empty_settings) 2 = 30"
  using settings_survive_restart [OF yyjson_ok_ref nxfs_ok_ref nxfs_up_ref,
      of "\<lparr>g_bool = [(6, False), (99, True)], g_int = [(2, 30)]\<rparr>" 6 Map.empty 2]
  by (simp add: settings_path_def um_wf_def bool_key_name_def bool_row_def int_key_name_def int_row_def
      bool_settings_def int_settings_def bool_key_num_def int_key_num_def get_bool_setting_def get_int_setting_def)

end
