(* ===== verification/Plugin_Base.thy ===== *)
theory Plugin_Base
  imports Session Settings_Store
begin

text \<open>
  What the plugins of \<open>sysmodule/src/plugins/\<close> share: the surroundings a handler reads
  (\<open>plugin_env\<close>) and what it asks for (\<open>peffect\<close>), in call order. The effects on the client are
  those of \<^typ>\<open>effect\<close>; the others act on the console. Then the plugins that only exchange packets:
  \<open>ping_plugin.cpp\<close>, \<open>find_my_phone_plugin.cpp\<close>, \<open>battery_plugin.cpp\<close> and
  \<open>system_volume_plugin.cpp\<close>.
\<close>

section \<open>Surroundings and effects\<close>

text \<open>
  \<open>pv_now\<close> counts nanoseconds of the steady clock; \<open>pv_name\<close> is the name of the plugin's session
  if the client still has one; \<open>pv_download_ok\<close> is the result of the one download a handler makes.
\<close>

datatype keyboard_layout = EnglishUs | OtherLayout nat

text \<open>The key bits of a keyboard report: 256 bits in four words.\<close>

type_synonym hid_report = "u64 list"

record plugin_env =
  pv_yy :: yyjson
  pv_bool :: "bool_key \<Rightarrow> bool"
  pv_int :: "int_key \<Rightarrow> i32"
  pv_now :: i64
  pv_device :: string
  pv_name :: "string option"
  pv_exists :: "string \<Rightarrow> bool"
  pv_download_ok :: bool
  pv_magic :: "u8 list"
  pv_awake :: bool
  pv_battery :: "(u32 \<times> bool) option"
  pv_volume :: "i32 option"
  pv_hid_ok :: bool
  pv_layout :: keyboard_layout

datatype sys_action =
    Reboot | Shutdown | ScreenOff | ScreenOn | BrightMax | BrightMin | AutoBrightOn | AutoBrightOff
  | BluetoothOff | BluetoothOn | Screenshot

datatype peffect =
    SendPacket network_packet
  | Post string string string string i32
  | RemoveFile string
  | Download network_packet string
  | SetSystemVolume i32
  | Action sys_action
  | SetLayout keyboard_layout
  | PressKey hid_report
  | DecodeIcon string
  | SendFile network_packet i64
  | MakeDir string

text \<open>The part of the effects that acts on the client.\<close>

fun on_client :: "peffect \<Rightarrow> effect list" where
  "on_client (SendPacket p) = [Send p]"
| "on_client (SendFile p sz) = [Upload p sz]"
| "on_client (Post app title body i d) = [Notify app title body i]"
| "on_client _ = []"

definition client_effects :: "peffect list \<Rightarrow> effect list" where
  "client_effects es = concat (map on_client es)"

fun sent_packets :: "peffect list \<Rightarrow> network_packet list" where
  "sent_packets [] = []"
| "sent_packets (SendPacket p # es) = p # sent_packets es"
| "sent_packets (SendFile p sz # es) = p # sent_packets es"
| "sent_packets (_ # es) = sent_packets es"

lemma sent_packets_append [simp]: "sent_packets (es @ fs) = sent_packets es @ sent_packets fs"
  by (induction es rule: sent_packets.induct) auto

definition shown_name :: "plugin_env \<Rightarrow> string" where
  "shown_name E = (case pv_name E of Some n \<Rightarrow> n | None \<Rightarrow> pv_device E)"

definition default_duration :: i32 where "default_duration = 4000"

text \<open>\<open>std::to_string\<close> of an \<open>int\<close>.\<close>

definition to_string :: "i32 \<Rightarrow> string" where
  "to_string i = int_str (sint i)"

section \<open>Ping\<close>

definition ping_supported :: "string list" where "ping_supported = [Ping]"
definition ping_outgoing :: "string list" where "ping_outgoing = [Ping]"

definition ping_received :: "plugin_env \<Rightarrow> u32 \<Rightarrow> network_packet \<Rightarrow> bool \<times> u32 \<times> peffect list" where
  "ping_received E next_id np =
     (let msg = (if jb_is_str (pv_yy E) (pkt_body np) ''message''
                 then jb_get_str (pv_yy E) (pkt_body np) ''message'' else ''Ping!'')
      in (True, next_id + 1,
          [Post (pv_device E @ ''_ping'') (''From '' @ shown_name E) msg (nat_str (unat next_id)) default_duration]))"

definition ping_packet :: "yyjson \<Rightarrow> string \<Rightarrow> network_packet" where
  "ping_packet Y message =
     (let pkt = new_packet Ping
      in if message \<noteq> [] then pkt\<lparr>pkt_body := set_str Y ''message'' message (pkt_body pkt)\<rparr> else pkt)"

definition send_ping :: "plugin_env \<Rightarrow> string \<Rightarrow> peffect list" where
  "send_ping E message = [SendPacket (ping_packet (pv_yy E) message)]"

section \<open>Find my phone\<close>

definition find_supported :: "string list" where "find_supported = []"
definition find_outgoing :: "string list" where "find_outgoing = [FindMyPhoneRequest]"

definition find_phone :: "peffect list" where
  "find_phone = [SendPacket (new_packet FindMyPhoneRequest)]"

section \<open>Battery\<close>

record battery =
  cached_charge :: i32
  cached_charging :: bool
  cache_valid :: bool
  remote_charge :: i32
  remote_charging :: bool
  bat_active :: bool
  notified_low :: bool
  last_poll :: i64

definition new_battery :: battery where
  "new_battery = \<lparr>cached_charge = 100, cached_charging = False, cache_valid = False, remote_charge = -1,
     remote_charging = False, bat_active = False, notified_low = False, last_poll = 0\<rparr>"

definition battery_supported :: "string list" where "battery_supported = [Battery, BatteryRequest]"
definition battery_outgoing :: "string list" where "battery_outgoing = [Battery]"

text \<open>The result is \<^const>\<open>pv_battery\<close>; the arguments are what the power service answers.\<close>

definition read_hardware :: "bool \<Rightarrow> u32 option \<Rightarrow> bool option \<Rightarrow> (i32 \<times> bool) option" where
  "read_hardware psm_initialized pct connected =
     (if \<not> psm_initialized then None
      else case pct of None \<Rightarrow> None | Some p \<Rightarrow> (case connected of None \<Rightarrow> None | Some c \<Rightarrow> Some (p, c)))"

text \<open>The charge is compared with \<open>15u\<close>: as an unsigned number.\<close>

definition battery_packet :: "yyjson \<Rightarrow> i32 \<Rightarrow> bool \<Rightarrow> network_packet" where
  "battery_packet Y charge charging =
     (new_packet Battery)\<lparr>pkt_body :=
        set_int Y ''thresholdEvent'' (if \<not> charging \<and> charge \<le> 15 then 1 else 0)
          (set_bool Y ''isCharging'' charging
            (set_int Y ''currentCharge'' charge jb_empty))\<rparr>"

definition send_status :: "plugin_env \<Rightarrow> battery \<Rightarrow> peffect list" where
  "send_status E st =
     (if cache_valid st then [SendPacket (battery_packet (pv_yy E) (cached_charge st) (cached_charging st))]
      else case pv_battery E of
             None \<Rightarrow> []
           | Some (charge, charging) \<Rightarrow> [SendPacket (battery_packet (pv_yy E) charge charging)])"

definition battery_connected :: "plugin_env \<Rightarrow> bool \<Rightarrow> battery \<Rightarrow> battery \<times> peffect list" where
  "battery_connected E is_paired st =
     (if \<not> is_paired then (st, [])
      else
        (let st = st\<lparr>bat_active := True, notified_low := False\<rparr>
         in case pv_battery E of
              None \<Rightarrow> (st\<lparr>last_poll := pv_now E\<rparr>, [])
            | Some (charge, charging) \<Rightarrow>
                (let st = st\<lparr>cached_charge := charge, cached_charging := charging, cache_valid := True\<rparr>
                 in (st\<lparr>last_poll := pv_now E\<rparr>, send_status E st))))"

definition battery_process :: "plugin_env \<Rightarrow> battery \<Rightarrow> battery \<times> peffect list" where
  "battery_process E st =
     (if \<not> bat_active st then (st, [])
      else if sint (pv_now E - last_poll st) < 10000000000 then (st, [])
      else
        (let st = st\<lparr>last_poll := pv_now E\<rparr>
         in case pv_battery E of
              None \<Rightarrow> (st, [])
            | Some (charge, charging) \<Rightarrow>
                if charge \<noteq> cached_charge st \<or> charging \<noteq> cached_charging st then
                  (let st = st\<lparr>cached_charge := charge, cached_charging := charging\<rparr> in (st, send_status E st))
                else (st, [])))"

definition battery_received :: "plugin_env \<Rightarrow> battery \<Rightarrow> network_packet \<Rightarrow> bool \<times> battery \<times> peffect list" where
  "battery_received E st np =
     (let Y = pv_yy E; b = pkt_body np
      in if pkt_type np = BatteryRequest then (True, st, send_status E st)
         else if pkt_type np = Battery then
           (let charge = jb_value_int Y b ''currentCharge'' (-1);
                charging = jb_value_bool Y b ''isCharging'' False;
                is_low = (jb_value_int Y b ''thresholdEvent'' 0 = 1);
                st = st\<lparr>remote_charge := charge, remote_charging := charging\<rparr>
            in if \<not> charging \<and> is_low \<and> pv_bool E NotificationShowOnBatteryLow then
                 (True, st\<lparr>notified_low := True\<rparr>,
                  [Post ''kdeconnect'' (shown_name E) (''Low Battery: '' @ to_string charge @ ''%'')
                     (''battery_low_'' @ pv_device E) (pv_int E NotificationDuration)])
               else if charging \<or> 15 < sint charge then (True, st\<lparr>notified_low := False\<rparr>, [])
               else (True, st, []))
         else (False, st, []))"

text \<open>What the overlay is shown: the charge cut to a byte.\<close>

definition read_remote_state :: "battery \<Rightarrow> i8 \<times> bool" where
  "read_remote_state st = (ucast (remote_charge st), remote_charging st)"

section \<open>System volume\<close>

record sink =
  sk_name :: string
  sk_description :: string
  sk_volume :: i32
  sk_max :: i32
  sk_muted :: bool
  sk_default :: bool

record volume_state =
  vol_local :: i32
  vol_muted :: bool
  remote_sinks :: "sink list"

definition new_volume_state :: volume_state where
  "new_volume_state = \<lparr>vol_local = 50, vol_muted = False, remote_sinks = []\<rparr>"

definition kSinkName :: string where "kSinkName = ''Output''"
definition kSinkDescription :: string where "kSinkDescription = ''Master Audio Output''"
definition kMaxVolume :: i32 where "kMaxVolume = 100"

definition volume_supported :: "string list" where "volume_supported = [SystemVolumeRequest, SystemVolume]"
definition volume_outgoing :: "string list" where "volume_outgoing = [SystemVolume, SystemVolumeRequest]"

definition get_system_volume :: "plugin_env \<Rightarrow> i32" where
  "get_system_volume E = (case pv_volume E of Some v \<Rightarrow> v | None \<Rightarrow> 50)"

definition sink_list_packet :: "yyjson \<Rightarrow> i32 \<Rightarrow> network_packet" where
  "sink_list_packet Y vol =
     (new_packet SystemVolume)\<lparr>pkt_body :=
        set_array_with_object Y ''sinkList''
          (\<lambda>obj. set_bool Y ''enabled'' True (set_int Y ''maxVolume'' kMaxVolume
             (set_int Y ''volume'' vol (set_bool Y ''muted'' False
               (set_str Y ''description'' kSinkDescription (set_str Y ''name'' kSinkName obj)))))) jb_empty\<rparr>"

definition send_sink_list :: "plugin_env \<Rightarrow> peffect list" where
  "send_sink_list E = [SendPacket (sink_list_packet (pv_yy E) (get_system_volume E))]"

definition volume_connected :: "plugin_env \<Rightarrow> bool \<Rightarrow> peffect list" where
  "volume_connected E is_paired =
     (if \<not> is_paired then []
      else send_sink_list E @
        [SendPacket ((new_packet SystemVolumeRequest)\<lparr>pkt_body := set_bool (pv_yy E) ''requestSinks'' True jb_empty\<rparr>)])"

text \<open>\<open>(raw_vol * 100) / max_volume\<close> on \<open>int\<close>: the product wraps, the division truncates.\<close>

definition normalized :: "i32 \<Rightarrow> i32 \<Rightarrow> i32" where
  "normalized raw_vol max_volume =
     (if 0 < sint max_volume then word_of_int (sint (raw_vol * 100) sdiv sint max_volume) else 0)"

definition read_sink :: "yyjson \<Rightarrow> json_body \<Rightarrow> sink" where
  "read_sink Y s =
     (let m = jb_value_int Y s ''maxVolume'' 100
      in \<lparr>sk_name = jb_value_str Y s ''name'' [], sk_description = jb_value_str Y s ''description'' [],
          sk_volume = normalized (jb_value_int Y s ''volume'' 0) m, sk_max = m,
          sk_muted = jb_value_bool Y s ''muted'' False, sk_default = jb_value_bool Y s ''enabled'' False\<rparr>)"

definition update_sink :: "yyjson \<Rightarrow> json_body \<Rightarrow> sink \<Rightarrow> sink" where
  "update_sink Y b s =
     (let s = (if jb_is_num Y b ''volume''
               then s\<lparr>sk_volume := normalized (jb_get_int Y b ''volume'') (sk_max s)\<rparr> else s);
          s = (if jb_is_bool Y b ''muted'' then s\<lparr>sk_muted := jb_get_bool Y b ''muted''\<rparr> else s)
      in if jb_is_bool Y b ''enabled'' then s\<lparr>sk_default := jb_get_bool Y b ''enabled''\<rparr> else s)"

fun update_named :: "string \<Rightarrow> (sink \<Rightarrow> sink) \<Rightarrow> sink list \<Rightarrow> sink list" where
  "update_named n f [] = []"
| "update_named n f (s # ss) = (if sk_name s \<noteq> n then s # update_named n f ss else f s # ss)"

definition smax :: "i32 \<Rightarrow> i32 \<Rightarrow> i32" where
  "smax a b = (if sint a < sint b then b else a)"

definition volume_received :: "plugin_env \<Rightarrow> volume_state \<Rightarrow> network_packet \<Rightarrow> bool \<times> volume_state \<times> peffect list" where
  "volume_received E st np =
     (let Y = pv_yy E; b = pkt_body np
      in if pkt_type np = SystemVolumeRequest then
           (if jb_value_bool Y b ''requestSinks'' False then (True, st, send_sink_list E)
            else if \<not> jb_has Y b ''name'' then (False, st, [])
            else
              (let (st, es1) = (if jb_is_num Y b ''volume''
                                then (let v = smax (jb_get_int Y b ''volume'') 0
                                      in (st\<lparr>vol_local := v\<rparr>, [SetSystemVolume v]))
                                else (st, []));
                   (st, es2) = (if jb_is_bool Y b ''muted''
                                then (let st = st\<lparr>vol_muted := jb_get_bool Y b ''muted''\<rparr>
                                      in (st, [SetSystemVolume (if vol_muted st then 0 else vol_local st)]))
                                else (st, []));
                   pkt = (new_packet SystemVolume)\<lparr>pkt_body :=
                            set_bool Y ''enabled'' True (set_bool Y ''muted'' (vol_muted st)
                              (set_int Y ''volume'' (vol_local st) (set_str Y ''name'' kSinkName jb_empty)))\<rparr>
               in (True, st, es1 @ es2 @ [SendPacket pkt])))
         else if pkt_type np = SystemVolume then
           (True,
            (if jb_is_array Y b ''sinkList''
             then st\<lparr>remote_sinks := jb_each_obj Y b ''sinkList'' (\<lambda>s ss. ss @ [read_sink Y s]) []\<rparr>
             else if jb_has Y b ''name''
             then st\<lparr>remote_sinks := update_named (jb_get_str Y b ''name'') (update_sink Y b) (remote_sinks st)\<rparr>
             else st), [])
         else (False, st, []))"

fun sink_max :: "string \<Rightarrow> sink list \<Rightarrow> i32" where
  "sink_max n [] = 100"
| "sink_max n (s # ss) = (if sk_name s = n then sk_max s else sink_max n ss)"

definition set_remote_sink :: "plugin_env \<Rightarrow> volume_state \<Rightarrow> string \<Rightarrow> i32 \<Rightarrow> bool \<Rightarrow> bool \<Rightarrow> peffect list" where
  "set_remote_sink E st sink_name volume muted is_default =
     (let Y = pv_yy E;
          max_volume = sink_max sink_name (remote_sinks st);
          b = set_bool Y ''muted'' muted
                (set_int Y ''volume'' (word_of_int (sint (volume * max_volume) sdiv 100))
                  (set_str Y ''name'' sink_name jb_empty));
          b = (if is_default then set_bool Y ''enabled'' True b else b)
      in [SendPacket ((new_packet SystemVolumeRequest)\<lparr>pkt_body := b\<rparr>)])"

section \<open>Lemmas\<close>

lemmas type_neq = packet_type_defs

lemma sent_post [simp]: "sent_packets [Post a b c d e] = []"
  by simp

text \<open>A status packet is read as it was meant, also after it went over the wire.\<close>

lemma battery_fields:
  assumes "yyjson_ok Y"
  shows "jb_value_int Y (pkt_body (battery_packet Y c ch)) ''currentCharge'' d = c"
    "jb_value_bool Y (pkt_body (battery_packet Y c ch)) ''isCharging'' b = ch"
    "jb_value_int Y (pkt_body (battery_packet Y c ch)) ''thresholdEvent'' d = (if \<not> ch \<and> c \<le> 15 then 1 else 0)"
  using assms by (simp_all add: battery_packet_def jb_defs json_simps)

lemma battery_plain: "yyjson_ok Y \<Longrightarrow> packet_plain (battery_packet Y c ch)"
  by (auto simp: packet_plain_def battery_packet_def Battery_def ascii_char_def json_simps intro!: j_plain_set)

text \<open>Surroundings for the examples: all switches on, a session called \<open>Phone\<close>.\<close>

definition demo_env :: plugin_env where
  "demo_env = \<lparr>pv_yy = yy_ref, pv_bool = (\<lambda>k. True), pv_int = (\<lambda>k. 0), pv_now = 20000000000,
     pv_device = ''p1'', pv_name = Some ''Phone'', pv_exists = (\<lambda>p. True), pv_download_ok = True,
     pv_magic = [0xFF, 0xD8, 0xFF], pv_awake = True, pv_battery = Some (12, False), pv_volume = Some 40, pv_hid_ok = True,
     pv_layout = OtherLayout 3\<rparr>"

lemma demo_env_sel [simp]:
  "pv_yy demo_env = yy_ref" "pv_bool demo_env = (\<lambda>k. True)" "pv_name demo_env = Some ''Phone''"
  "pv_device demo_env = ''p1''" "pv_hid_ok demo_env" "pv_layout demo_env = OtherLayout 3"
  "pv_int demo_env = (\<lambda>k. 0)" "pv_now demo_env = 20000000000" "pv_exists demo_env = (\<lambda>p. True)"
  "pv_download_ok demo_env" "pv_magic demo_env = [0xFF, 0xD8, 0xFF]" "pv_awake demo_env"
  by (simp_all add: demo_env_def)

end
