(* ===== verification/Plugin_Commands.thy ===== *)
theory Plugin_Commands
  imports Plugin_Base
begin

text \<open>
  The plugins that act on the console: \<open>run_command_plugin.cpp\<close>, whose command list is JSON printed
  by hand, and \<open>mousepad_plugin.cpp\<close>, which types on a virtual keyboard through the reference
  counted service of \<open>utils/hiddbg_util.cpp\<close>.
\<close>

section \<open>The hiddbg service\<close>

record hiddbg =
  hid_refs :: int
  hid_open :: bool

definition hiddbg_init :: hiddbg where
  "hiddbg_init = \<lparr>hid_refs = 0, hid_open = False\<rparr>"

definition hiddbg_retain :: "bool \<Rightarrow> hiddbg \<Rightarrow> hiddbg" where
  "hiddbg_retain init_ok h =
     (let old = hid_refs h; h = h\<lparr>hid_refs := hid_refs h + 1\<rparr>
      in if old = 0 then
           (if init_ok then h\<lparr>hid_open := True\<rparr> else h\<lparr>hid_refs := hid_refs h - 1\<rparr>)
         else h)"

definition hiddbg_release :: "hiddbg \<Rightarrow> hiddbg" where
  "hiddbg_release h =
     (let old = hid_refs h; h = h\<lparr>hid_refs := hid_refs h - 1\<rparr>
      in if old = 1 then h\<lparr>hid_open := False\<rparr> else h)"

definition hiddbg_is_available :: "hiddbg \<Rightarrow> bool" where
  "hiddbg_is_available h \<longleftrightarrow> 0 < hid_refs h"

definition hiddbg_sane :: "hiddbg \<Rightarrow> bool" where
  "hiddbg_sane h \<longleftrightarrow> 0 \<le> hid_refs h \<and> (hid_open h \<longleftrightarrow> 0 < hid_refs h)"

text \<open>Used in pairs, and only after a retain that worked, the count is a reference count.\<close>

interpretation hid: ref_counted "\<lambda>h. nat (hid_refs h)" hid_open hiddbg_retain hiddbg_release hiddbg_sane
  by unfold_locales (auto simp: hiddbg_sane_def hiddbg_retain_def hiddbg_release_def Let_def)

text \<open>\<open>press_capture_button\<close> of \<open>share_plugin.cpp\<close> releases whether or not the retain worked.\<close>

definition press_capture_button :: "bool \<Rightarrow> hiddbg \<Rightarrow> hiddbg" where
  "press_capture_button init_ok h = hiddbg_release (hiddbg_retain init_ok h)"

section \<open>Run command\<close>

record nx_command =
  nc_key :: string
  nc_description :: string
  nc_name :: string
  nc_dangerous :: bool

definition nx_commands :: "nx_command list" where
  "nx_commands = map (\<lambda>(k, c, n, d). \<lparr>nc_key = k, nc_description = c, nc_name = n, nc_dangerous = d\<rparr>)
     [(''nx-auto-bright-off'', ''Disable auto brightness'', ''Auto Brightness Off'', False),
      (''nx-auto-bright-on'', ''Enable auto brightness'', ''Auto Brightness On'', False),
      (''nx-bluetooth-off'', ''Turn Bluetooth radio off'', ''Bluetooth Off'', False),
      (''nx-bluetooth-on'', ''Turn Bluetooth radio on'', ''Bluetooth On'', False),
      (''nx-bright-max'', ''Set brightness to maximum strength'', ''Brightness Max'', False),
      (''nx-bright-min'', ''Set brightness to minimum strength'', ''Brightness Min'', False),
      (''nx-reboot'', ''Restart console'', ''Reboot'', True),
      (''nx-screen-off'', ''Turn screen backlight off'', ''Screen Off'', False),
      (''nx-screen-on'', ''Turn screen backlight on'', ''Screen On'', False),
      (''nx-screenshot'', ''Take screenshot and send it to this device'', ''Receive screenshot'', False),
      (''nx-shutdown'', ''Turn off console'', ''Shutdown'', True)]"

type_synonym run_command = "(string, string) umap"

definition command_supported :: "string list" where "command_supported = [RunCommandRequest, RunCommand]"
definition command_outgoing :: "string list" where "command_outgoing = [RunCommand, RunCommandRequest]"

text \<open>\<open>q\<close> is a quotation mark.\<close>

definition add_command :: "bool \<Rightarrow> nx_command \<Rightarrow> string \<times> bool \<Rightarrow> string \<times> bool" where
  "add_command power_enabled c s =
     (case s of (cmd_list, first) \<Rightarrow>
        if nc_dangerous c \<and> \<not> power_enabled then (cmd_list, first)
        else
          (let q = [CHR 0x22];
               cmd_list = (if \<not> first then cmd_list @ '','' else cmd_list);
               cmd_list = cmd_list @ q @ nc_key c;
               cmd_list = cmd_list @ q @ '':{'' @ q @ ''command'' @ q @ '':'' @ q @ nc_description c;
               cmd_list = cmd_list @ q @ '','' @ q @ ''name'' @ q @ '':'' @ q @ nc_name c;
               cmd_list = cmd_list @ q @ ''}''
           in (cmd_list, False)))"

definition local_command_list :: "bool \<Rightarrow> string" where
  "local_command_list power_enabled =
     fst (fold (add_command power_enabled) nx_commands (''{'', True)) @ ''}''"

definition command_packet :: "yyjson \<Rightarrow> bool \<Rightarrow> network_packet" where
  "command_packet Y power_enabled =
     (new_packet RunCommand)\<lparr>pkt_body :=
        set_str Y ''commandList'' (local_command_list power_enabled) (set_bool Y ''canAddCommand'' False jb_empty)\<rparr>"

definition send_local_command_list :: "plugin_env \<Rightarrow> peffect list" where
  "send_local_command_list E =
     [SendPacket (command_packet (pv_yy E) (pv_bool E RunCommandPowerCommandsEnabled))]"

definition request_remote_command_list :: "plugin_env \<Rightarrow> peffect list" where
  "request_remote_command_list E =
     [SendPacket ((new_packet RunCommandRequest)\<lparr>pkt_body := set_bool (pv_yy E) ''requestCommandList'' True jb_empty\<rparr>)]"

definition command_connected :: "plugin_env \<Rightarrow> bool \<Rightarrow> peffect list" where
  "command_connected E is_paired =
     (if is_paired then send_local_command_list E @ request_remote_command_list E else [])"

definition run_remote_command :: "plugin_env \<Rightarrow> string \<Rightarrow> peffect list" where
  "run_remote_command E key =
     [SendPacket ((new_packet RunCommandRequest)\<lparr>pkt_body := set_str (pv_yy E) ''key'' key jb_empty\<rparr>)]"

definition run_local_command :: "plugin_env \<Rightarrow> string \<Rightarrow> peffect list" where
  "run_local_command E key =
     (if list_ex (\<lambda>c. key = nc_key c \<and> nc_dangerous c) nx_commands \<and>
         \<not> pv_bool E RunCommandPowerCommandsEnabled then []
      else if key = ''nx-reboot'' then [Action Reboot]
      else if key = ''nx-shutdown'' then [Action Shutdown]
      else if key = ''nx-screen-off'' then [Action ScreenOff]
      else if key = ''nx-screen-on'' then [Action ScreenOn]
      else if key = ''nx-bright-max'' then [Action BrightMax]
      else if key = ''nx-bright-min'' then [Action BrightMin]
      else if key = ''nx-auto-bright-on'' then [Action AutoBrightOn]
      else if key = ''nx-auto-bright-off'' then [Action AutoBrightOff]
      else if key = ''nx-bluetooth-off'' then [Action BluetoothOff]
      else if key = ''nx-bluetooth-on'' then [Action BluetoothOn]
      else if key = ''nx-screenshot'' then (if pv_name E \<noteq> None then [Action Screenshot] else [])
      else [])"

definition read_command_list :: "yyjson \<Rightarrow> string \<Rightarrow> run_command" where
  "read_command_list Y text =
     jb_each_kv (jb_parse Y text)
       (\<lambda>i entry m. if jb_is_str Y entry ''name'' then AList.update i (jb_get_str Y entry ''name'') m else m) []"

definition command_received ::
    "plugin_env \<Rightarrow> run_command \<Rightarrow> network_packet \<Rightarrow> bool \<times> run_command \<times> peffect list" where
  "command_received E st np =
     (let Y = pv_yy E; b = pkt_body np
      in if pkt_type np = RunCommand then
           (True, if jb_is_str Y b ''commandList'' then read_command_list Y (jb_get_str Y b ''commandList'') else st, [])
         else if pkt_type np = RunCommandRequest then
           (if jb_value_bool Y b ''requestCommandList'' False then (True, st, send_local_command_list E)
            else if jb_is_str Y b ''key'' then (True, st, run_local_command E (jb_get_str Y b ''key''))
            else (False, st, []))
         else (False, st, []))"

section \<open>Mousepad\<close>

unbundle bit_operations_syntax

definition mousepad_supported :: "string list" where "mousepad_supported = [MousepadRequest]"
definition mousepad_outgoing :: "string list" where "mousepad_outgoing = [MousepadEcho, MousepadKeyboardState]"

text \<open>The characters of the \<open>switch\<close> statement, by their codes (0x5C is the backslash, 0x22 the quote).\<close>

definition hid_switch :: "(nat \<times> u8 \<times> bool) list" where
  "hid_switch =
     [(0x30, 0x27, False), (0x0A, 0x28, False), (0x0D, 0x28, False), (0x09, 0x2B, False), (0x20, 0x2C, False),
      (0x2D, 0x2D, False), (0x5F, 0x2D, True), (0x3D, 0x2E, False), (0x2B, 0x2E, True), (0x5B, 0x2F, False),
      (0x7B, 0x2F, True), (0x5D, 0x30, False), (0x7D, 0x30, True), (0x5C, 0x31, False), (0x7C, 0x31, True),
      (0x3B, 0x33, False), (0x3A, 0x33, True), (0x27, 0x34, False), (0x22, 0x34, True), (0x60, 0x35, False),
      (0x7E, 0x35, True), (0x2C, 0x36, False), (0x3C, 0x36, True), (0x2E, 0x37, False), (0x3E, 0x37, True),
      (0x2F, 0x38, False), (0x3F, 0x38, True), (0x21, 0x1E, True), (0x40, 0x1F, True), (0x23, 0x20, True),
      (0x24, 0x21, True), (0x25, 0x22, True), (0x5E, 0x23, True), (0x26, 0x24, True), (0x2A, 0x25, True),
      (0x28, 0x26, True), (0x29, 0x27, True)]"

definition char_to_hid :: "nat \<Rightarrow> u8 \<times> bool" where
  "char_to_hid c =
     (if 0x61 \<le> c \<and> c \<le> 0x7A then (of_nat (0x04 + (c - 0x61)), False)
      else if 0x41 \<le> c \<and> c \<le> 0x5A then (of_nat (0x04 + (c - 0x41)), True)
      else if 0x31 \<le> c \<and> c \<le> 0x39 then (of_nat (0x1E + (c - 0x31)), False)
      else case map_of hid_switch c of Some r \<Rightarrow> r | None \<Rightarrow> (0, False))"

definition kSpecialKeyMap :: "u8 list" where
  "kSpecialKeyMap =
     [0x00, 0x2A, 0x2B, 0x00, 0x50, 0x52, 0x4F, 0x51, 0x4B, 0x4E, 0x4A, 0x4D, 0x28, 0x4C, 0x29, 0x46, 0x47,
      0x00, 0x00, 0x00, 0x00, 0x3A, 0x3B, 0x3C, 0x3D, 0x3E, 0x3F, 0x40, 0x41, 0x42, 0x43, 0x44, 0x45]"

text \<open>\<open>keys[code >> 6] |= 1ULL << (code & 63)\<close>.\<close>

definition set_key :: "u8 \<Rightarrow> hid_report \<Rightarrow> hid_report" where
  "set_key code r =
     (let w = unat (drop_bit 6 code)
      in r[w := r ! w OR push_bit (unat (code AND 63)) 1])"

definition no_keys :: hid_report where "no_keys = [0, 0, 0, 0]"

definition do_inject_hid :: "u8 \<Rightarrow> bool \<Rightarrow> bool \<Rightarrow> bool \<Rightarrow> bool \<Rightarrow> bool \<Rightarrow> hid_report list" where
  "do_inject_hid hid_code shift ctrl alt gui altgr =
     (let r = set_key hid_code no_keys;
          r = (if ctrl then set_key 0xE0 r else r);
          r = (if shift then set_key 0xE1 r else r);
          r = (if alt then set_key 0xE2 r else r);
          r = (if gui then set_key 0xE3 r else r);
          r = (if altgr then set_key 0xE5 r else r);
          dummy = no_keys[3 := 0x800000000000000]
      in [r, dummy])"

fun inject_chars :: "bool \<Rightarrow> bool \<Rightarrow> bool \<Rightarrow> bool \<Rightarrow> string \<Rightarrow> hid_report list" where
  "inject_chars shift ctrl alt gui [] = []"
| "inject_chars shift ctrl alt gui (c # s) =
     (if 0x80 \<le> (of_char c :: nat) then inject_chars shift ctrl alt gui s
      else case char_to_hid (of_char c) of (hid_code, needs_shift) \<Rightarrow>
        (if hid_code \<noteq> 0 then do_inject_hid hid_code (shift \<or> needs_shift) ctrl alt gui False else []) @
        inject_chars shift ctrl alt gui s)"

definition inject_special :: "bool \<Rightarrow> bool \<Rightarrow> bool \<Rightarrow> bool \<Rightarrow> i32 \<Rightarrow> hid_report list" where
  "inject_special shift ctrl alt gui special =
     (if 0 < sint special \<and> sint special < int (length kSpecialKeyMap) then
        (let hid_code = kSpecialKeyMap ! nat (sint special)
         in if hid_code \<noteq> 0 then do_inject_hid hid_code shift ctrl alt gui False else [])
      else [])"

definition inject_key :: "plugin_env \<Rightarrow> network_packet \<Rightarrow> peffect list" where
  "inject_key E np =
     (if \<not> pv_hid_ok E then []
      else
        (let Y = pv_yy E; b = pkt_body np; old_layout = pv_layout E;
             alt = jb_value_bool Y b ''alt'' False;
             ctrl = jb_value_bool Y b ''ctrl'' False;
             shift = jb_value_bool Y b ''shift'' False;
             super = jb_value_bool Y b ''super'' False;
             keys = (if jb_is_num Y b ''specialKey'' \<and> jb_get_int Y b ''specialKey'' \<noteq> 0
                     then inject_special shift ctrl alt super (jb_get_int Y b ''specialKey'')
                     else if jb_is_str Y b ''key'' \<and> jb_get_str Y b ''key'' \<noteq> []
                     then inject_chars shift ctrl alt super (jb_get_str Y b ''key'')
                     else [])
         in [SetLayout EnglishUs] @ map PressKey keys @
            (if old_layout \<noteq> EnglishUs then [SetLayout old_layout] else [])))"

definition echo_fields :: "string list" where
  "echo_fields =
     [''key'', ''specialKey'', ''alt'', ''ctrl'', ''shift'', ''super'', ''singleclick'', ''doubleclick'',
      ''middleclick'', ''rightclick'', ''singlehold'', ''singlerelease'', ''dx'', ''dy'', ''scroll'']"

definition echo_packet :: "yyjson \<Rightarrow> network_packet \<Rightarrow> network_packet" where
  "echo_packet Y np =
     (new_packet MousepadEcho)\<lparr>pkt_body :=
        set_bool Y ''isAck'' True (fold (\<lambda>f b. copy_field Y f (pkt_body np) b) echo_fields jb_empty)\<rparr>"

definition mousepad_connected :: "plugin_env \<Rightarrow> bool \<Rightarrow> peffect list" where
  "mousepad_connected E is_paired =
     (if is_paired
      then [SendPacket ((new_packet MousepadKeyboardState)\<lparr>pkt_body := set_bool (pv_yy E) ''state'' True jb_empty\<rparr>)]
      else [])"

text \<open>The state is \<open>s_no_mouse_support_hint_shown\<close>.\<close>

definition mousepad_received :: "plugin_env \<Rightarrow> bool \<Rightarrow> network_packet \<Rightarrow> bool \<times> bool \<times> peffect list" where
  "mousepad_received E hint_shown np =
     (if pkt_type np \<noteq> MousepadRequest then (False, hint_shown, [])
      else
        (let Y = pv_yy E; b = pkt_body np;
             mouse = (jb_has Y b ''dx'' \<or> jb_has Y b ''dy'');
             hint = (if mouse \<and> \<not> hint_shown
                     then [Post ''mousepad'' ''Mouse support is not available''
                             ''You just tried to use the remote touchpad/mouse. Only remote keyboard events are supported.''
                             ''0'' 8000]
                     else [])
         in (True, hint_shown \<or> mouse,
             hint @ inject_key E np @
             (if jb_value_bool Y b ''sendAck'' False then [SendPacket (echo_packet Y np)] else []))))"

end
