(* ===== verification/Plugin_Commands_Props.thy ===== *)
theory Plugin_Commands_Props
  imports Plugin_Commands
begin

text \<open>
  What the console commands and the virtual keyboard guarantee: the hand-printed command list is
  JSON, offers exactly what will run, and gates the dangerous commands; typed text reaches the
  console as the key presses of the US layout.
\<close>

section \<open>The command list\<close>

definition allowed_commands :: "bool \<Rightarrow> nx_command list" where
  "allowed_commands power_enabled = filter (\<lambda>c. nc_dangerous c \<longrightarrow> power_enabled) nx_commands"

definition command_object :: "bool \<Rightarrow> jval" where
  "command_object power_enabled =
     JObj (map (\<lambda>c. (nc_key c, JObj [(''command'', JStr (nc_description c)), (''name'', JStr (nc_name c))]))
        (allowed_commands power_enabled))"

lemma command_list_text: "local_command_list power_enabled = json_text (command_object power_enabled)"
proof (cases power_enabled)
  case True
  have "local_command_list True = json_text (command_object True)" by code_simp
  then show ?thesis using True by simp
next
  case False
  have "local_command_list False = json_text (command_object False)" by code_simp
  then show ?thesis using False by simp
qed

text \<open>
  C23: the text that \<open>send_local_command_list\<close> builds with string concatenation is, character by
  character, the JSON text of the object that maps the key of every allowed command to its
  description and name.
\<close>

theorem command_list_is_json: "local_command_list power_enabled = json_text (command_object power_enabled)"
  by (rule command_list_text)

lemma nx_commands_ascii:
  "list_all (\<lambda>c. ascii (nc_key c) \<and> ascii (nc_description c) \<and> ascii (nc_name c)) nx_commands"
  by code_simp

lemma command_object_plain: "j_plain (command_object p) \<and> j_norm (command_object p) = command_object p"
  using nx_commands_ascii
  by (auto simp: command_object_def allowed_commands_def list_all_iff ascii_char_def)

lemma command_text_ok: "nul_free (local_command_list p) \<and> local_command_list p \<noteq> [] \<and> ascii (local_command_list p)"
proof -
  have p: "j_plain (command_object p)" using command_object_plain by blast
  have "ascii (json_text (command_object p))"
    using line_json_text [OF p] by (auto simp: ascii_def list_all_iff line_char_def)
  then show ?thesis
    using length_json_text [OF p] ascii_nul_free unfolding command_list_text by auto
qed

lemma fold_named:
  assumes "yyjson_ok Y" "list_all (\<lambda>c. nul_free (nc_key c) \<and> nul_free (nc_name c)) cs"
    "distinct (map nc_key cs)" "\<forall>c \<in> set cs. nc_key c \<notin> fst ` set m"
  shows "fold (\<lambda>(k, v) m. if jb_is_str Y v ''name'' then AList.update (c_str k) (jb_get_str Y v ''name'') m else m)
      (map (\<lambda>c. (nc_key c, JObj [(''command'', JStr (nc_description c)), (''name'', JStr (nc_name c))])) cs) m =
    m @ map (\<lambda>c. (nc_key c, nc_name c)) cs"
  using assms(2-4)
proof (induction cs arbitrary: m)
  case (Cons c cs)
  have "AList.update (nc_key c) (nc_name c) m = m @ [(nc_key c, nc_name c)]"
    using Cons.prems(3) by (induction m) auto
  moreover have "list_all (\<lambda>c. nul_free (nc_key c) \<and> nul_free (nc_name c)) cs" "distinct (map nc_key cs)"
    "\<forall>d \<in> set cs. nc_key d \<notin> fst ` set (m @ [(nc_key c, nc_name c)])"
    using Cons.prems by (force simp: image_iff)+
  note IH = Cons.IH [OF this]
  have "jb_is_str Y (JObj [(''command'', JStr (nc_description c)), (''name'', JStr (nc_name c))]) ''name''"
    "jb_get_str Y (JObj [(''command'', JStr (nc_description c)), (''name'', JStr (nc_name c))]) ''name'' = nc_name c"
    using Cons.prems by (simp_all add: jb_defs field_JObj [OF assms(1)])
  ultimately show ?case using IH Cons.prems(1) by simp
qed simp

lemma commands_ok:
  "list_all (\<lambda>c. nul_free (nc_key c) \<and> nul_free (nc_name c)) nx_commands \<and> distinct (map nc_key nx_commands)"
  by code_simp

lemma read_local_commands:
  assumes "yyjson_ok Y"
  shows "read_command_list Y (local_command_list p) = map (\<lambda>c. (nc_key c, nc_name c)) (allowed_commands p)"
proof -
  have "jb_parse Y (local_command_list p) = command_object p"
    using command_text_ok [of p] yy_read_text [OF assms, of "command_object p"] command_object_plain [of p]
    by (simp add: jb_parse_def command_list_text [symmetric]) (simp add: command_object_def)
  moreover have "list_all (\<lambda>c. nul_free (nc_key c) \<and> nul_free (nc_name c)) (allowed_commands p)"
    "distinct (map nc_key (allowed_commands p))"
    using commands_ok by (auto simp: allowed_commands_def list_all_iff intro: distinct_map_filter)
  ultimately show ?thesis
    using fold_named [OF assms, of "allowed_commands p" "[]"]
    by (simp add: read_command_list_def jb_each_kv_def command_object_def)
qed

lemma nx_keys:
  "map (\<lambda>c. (nc_key c, nc_dangerous c)) nx_commands =
    [(''nx-auto-bright-off'', False), (''nx-auto-bright-on'', False), (''nx-bluetooth-off'', False),
     (''nx-bluetooth-on'', False), (''nx-bright-max'', False), (''nx-bright-min'', False), (''nx-reboot'', True),
     (''nx-screen-off'', False), (''nx-screen-on'', False), (''nx-screenshot'', False), (''nx-shutdown'', True)]"
  by code_simp

lemma runnable:
  assumes "pv_name E \<noteq> None"
  shows "run_local_command E k \<noteq> [] \<longleftrightarrow> k \<in> nc_key ` set (allowed_commands (pv_bool E RunCommandPowerCommandsEnabled))"
  using assms
  by (auto simp: run_local_command_def allowed_commands_def nx_commands_def)

text \<open>
  What is offered is what runs. A peer that receives the command list as it was sent over the
  wire ends up with a table whose keys are exactly those for which this device, under the same
  settings and with the session present, does something.
\<close>

theorem offered_commands_run:
  assumes "yyjson_ok Y" and "pv_yy P = Y" and "pv_name E \<noteq> None"
    and "parse_packet Y (serialize Y now (command_packet Y (pv_bool E RunCommandPowerCommandsEnabled))) = Some np"
  shows "\<exists>m. command_received P st np = (True, m, []) \<and>
     (\<forall>k. um_contains k m \<longleftrightarrow> run_local_command E k \<noteq> [])"
proof -
  let ?on = "pv_bool E RunCommandPowerCommandsEnabled"
  let ?p = "command_packet Y ?on"
  have plain: "packet_plain ?p"
    using assms(1) command_text_ok [of ?on]
    by (auto simp: packet_plain_def command_packet_def RunCommand_def ascii_char_def json_simps intro!: j_plain_set)
  have np: "np = received ?p" using assms(4) parse_serialize_eq [OF assms(1) plain] by simp
  have b: "pkt_body np = j_norm (pkt_body ?p)" "pkt_type np = RunCommand"
    by (simp_all add: np received_def Let_def command_packet_def)
  have v: "jb_is_str Y (pkt_body ?p) ''commandList''" "jb_get_str Y (pkt_body ?p) ''commandList'' = local_command_list ?on"
    using assms(1) command_text_ok [of ?on] by (simp_all add: command_packet_def jb_defs json_simps)
  have "command_received P st np = (True, map (\<lambda>c. (nc_key c, nc_name c)) (allowed_commands ?on), [])"
    using assms(2) v by (simp add: command_received_def b jb_norm [OF assms(1)] read_local_commands [OF assms(1)])
  moreover have "um_contains k (map (\<lambda>c. (nc_key c, nc_name c)) (allowed_commands ?on)) \<longleftrightarrow> run_local_command E k \<noteq> []" for k
    unfolding runnable [OF assms(3)] by (force simp: um_contains_iff)
  ultimately show ?thesis by blast
qed

theorem offered_commands_run_witness:
  "\<exists>np m. parse_packet yy_ref (serialize yy_ref 0 (command_packet yy_ref True)) = Some np \<and>
     command_received demo_env [] np = (True, m, []) \<and> um_contains ''nx-reboot'' m \<and> um_contains ''nx-format'' m = False"
proof -
  have "packet_plain (command_packet yy_ref True)"
    using command_text_ok [of True]
    by (auto simp: packet_plain_def command_packet_def RunCommand_def ascii_char_def json_simps intro!: j_plain_set)
  then obtain np where np: "parse_packet yy_ref (serialize yy_ref 0 (command_packet yy_ref True)) = Some np"
    using parse_serialize_eq [OF yyjson_ok_ref] by blast
  have r: "run_local_command demo_env ''nx-reboot'' \<noteq> []" "run_local_command demo_env ''nx-format'' = []"
    by (simp_all add: run_local_command_def)
  show ?thesis
    using offered_commands_run [of yy_ref demo_env demo_env 0 np "[]"] np r by auto
qed

text \<open>
  C24: no packet makes the console reboot or shut down while the setting for power commands is off,
  and any action at all needs a command request that names its key.
\<close>

theorem power_commands_are_gated:
  assumes "command_received E st np = (r, st', es)" and "Action a \<in> set es"
  shows "pkt_type np = RunCommandRequest \<and> jb_is_str (pv_yy E) (pkt_body np) ''key'' \<and>
     es = run_local_command E (jb_get_str (pv_yy E) (pkt_body np) ''key'') \<and>
     (a \<in> {Reboot, Shutdown} \<longrightarrow> pv_bool E RunCommandPowerCommandsEnabled)"
proof -
  have "pkt_type np = RunCommandRequest \<and> jb_is_str (pv_yy E) (pkt_body np) ''key'' \<and>
     es = run_local_command E (jb_get_str (pv_yy E) (pkt_body np) ''key'')"
    using assms
    by (auto simp: command_received_def Let_def send_local_command_list_def split: if_splits)
  moreover have "a \<in> {Reboot, Shutdown} \<Longrightarrow> Action a \<in> set (run_local_command E k) \<Longrightarrow>
      pv_bool E RunCommandPowerCommandsEnabled" for k
    by (auto simp: run_local_command_def nx_commands_def split: if_splits)
  ultimately show ?thesis using assms(2) by blast
qed

definition demo_request :: "string \<Rightarrow> string \<Rightarrow> string \<Rightarrow> network_packet" where
  "demo_request t k v = (new_packet t)\<lparr>pkt_body := JObj [(k, JStr v)]\<rparr>"

lemma demo_request_fields:
  "pkt_type (demo_request t k v) = t"
  "jb_is_str yy_ref (pkt_body (demo_request t k v)) l = (l = k)"
  "jb_get_str yy_ref (pkt_body (demo_request t k v)) l = (if l = k then c_str v else [])"
  "jb_is_num yy_ref (pkt_body (demo_request t k v)) l = False"
  "jb_value_bool yy_ref (pkt_body (demo_request t k v)) l b = b"
  by (simp_all add: demo_request_def jb_defs field_JObj)

theorem power_commands_are_gated_witness:
  "command_received demo_env [] (demo_request RunCommandRequest ''key'' ''nx-reboot'') = (True, [], [Action Reboot]) \<and>
   pv_bool demo_env RunCommandPowerCommandsEnabled"
proof -
  have r: "command_received demo_env [] (demo_request RunCommandRequest ''key'' ''nx-reboot'') = (True, [], [Action Reboot])"
    by (simp add: command_received_def demo_request_fields RunCommandRequest_def RunCommand_def run_local_command_def
        c_str_def)
  from power_commands_are_gated [OF r, of Reboot] r show ?thesis by simp
qed

section \<open>The keyboard\<close>

text \<open>
  The keyboard page of the HID usage tables for a US keyboard: usage, character, character with
  Shift.
\<close>

definition us_layout :: "(u8 \<times> nat \<times> nat) list" where
  "us_layout =
     [(0x04, 0x61, 0x41), (0x05, 0x62, 0x42), (0x06, 0x63, 0x43), (0x07, 0x64, 0x44),
      (0x08, 0x65, 0x45), (0x09, 0x66, 0x46), (0x0A, 0x67, 0x47), (0x0B, 0x68, 0x48),
      (0x0C, 0x69, 0x49), (0x0D, 0x6A, 0x4A), (0x0E, 0x6B, 0x4B), (0x0F, 0x6C, 0x4C),
      (0x10, 0x6D, 0x4D), (0x11, 0x6E, 0x4E), (0x12, 0x6F, 0x4F), (0x13, 0x70, 0x50),
      (0x14, 0x71, 0x51), (0x15, 0x72, 0x52), (0x16, 0x73, 0x53), (0x17, 0x74, 0x54),
      (0x18, 0x75, 0x55), (0x19, 0x76, 0x56), (0x1A, 0x77, 0x57), (0x1B, 0x78, 0x58),
      (0x1C, 0x79, 0x59), (0x1D, 0x7A, 0x5A), (0x1E, 0x31, 0x21), (0x1F, 0x32, 0x40),
      (0x20, 0x33, 0x23), (0x21, 0x34, 0x24), (0x22, 0x35, 0x25), (0x23, 0x36, 0x5E),
      (0x24, 0x37, 0x26), (0x25, 0x38, 0x2A), (0x26, 0x39, 0x28), (0x27, 0x30, 0x29),
      (0x28, 0x0A, 0x0A), (0x2B, 0x09, 0x09), (0x2C, 0x20, 0x20), (0x2D, 0x2D, 0x5F),
      (0x2E, 0x3D, 0x2B), (0x2F, 0x5B, 0x7B), (0x30, 0x5D, 0x7D), (0x31, 0x5C, 0x7C),
      (0x33, 0x3B, 0x3A), (0x34, 0x27, 0x22), (0x35, 0x60, 0x7E), (0x36, 0x2C, 0x3C),
      (0x37, 0x2E, 0x3E), (0x38, 0x2F, 0x3F)]"

text \<open>What a console with the US layout reads for a usage.\<close>

definition us_char :: "u8 \<Rightarrow> bool \<Rightarrow> nat option" where
  "us_char code shift = map_option (if shift then snd else fst) (map_of us_layout code)"

text \<open>The characters that can be typed: printable ASCII, tab and newline; a return becomes a newline.\<close>

definition typeable :: "nat \<Rightarrow> bool" where
  "typeable c \<longleftrightarrow> c \<in> {0x20..0x7E} \<or> c \<in> {0x09, 0x0A}"

lemma us_rows:
  "list_all (\<lambda>(u, lo, up). u \<noteq> 0 \<and> char_to_hid lo = (u, False) \<and> (up = lo \<or> char_to_hid up = (u, True))) us_layout"
  by (simp add: us_layout_def char_to_hid_def hid_switch_def)

lemma us_distinct: "distinct (map fst us_layout)"
  by (simp add: us_layout_def)

lemma us_complete: "list_all (\<lambda>c. c \<in> set (map (fst \<circ> snd) us_layout) \<union> set (map (snd \<circ> snd) us_layout)) ([9, 10] @ [32..<127])"
  by (simp add: us_layout_def upt_rec)

lemma us_other: "list_all (\<lambda>c. fst (char_to_hid c) = 0) ([0..<9] @ [11, 12] @ [14..<32] @ [127])"
  by (simp add: char_to_hid_def hid_switch_def upt_rec)

lemma char_to_hid_typeable:
  assumes "typeable c"
  obtains u sh where "char_to_hid c = (u, sh)" "u \<noteq> 0" "us_char u sh = Some c"
proof -
  have "c \<in> set ([9, 10] @ [32..<127])" using assms unfolding typeable_def set_append set_upt by auto
  then have "c \<in> set (map (fst \<circ> snd) us_layout) \<union> set (map (snd \<circ> snd) us_layout)"
    using us_complete by (metis list_all_iff)
  then obtain u lo up where row: "(u, lo, up) \<in> set us_layout" "c = lo \<or> c = up" by auto
  then have m: "map_of us_layout u = Some (lo, up)" using us_distinct by simp
  have k: "u \<noteq> 0" "char_to_hid lo = (u, False)" "up = lo \<or> char_to_hid up = (u, True)"
    using us_rows row(1) by (auto simp: list_all_iff)
  show ?thesis
  proof (cases "c = lo")
    case True
    show ?thesis by (rule that [of u False]) (use True k m in \<open>simp_all add: us_char_def\<close>)
  next
    case False
    show ?thesis by (rule that [of u True]) (use False k m row(2) in \<open>auto simp: us_char_def\<close>)
  qed
qed

text \<open>Which usages a report has pressed.\<close>

definition pressed :: "hid_report \<Rightarrow> nat \<Rightarrow> bool" where
  "pressed r k \<longleftrightarrow> bit (r ! (k div 64)) (k mod 64)"

lemma length_set_key [simp]: "length (set_key code r) = length r"
  by (simp add: set_key_def Let_def)

lemma pressed_set_key:
  assumes "length r = 4" "k < 256"
  shows "pressed (set_key code r) k \<longleftrightarrow> k = unat code \<or> pressed r k"
proof -
  have w: "unat (drop_bit 6 code) = unat code div 64"
    by (simp add: drop_bit_eq_div unat_div)
  have "code AND 63 = take_bit 6 code" by (simp add: take_bit_eq_mask mask_eq_exp_minus_1)
  then have n: "unat (code AND 63) = unat code mod 64"
    by (simp add: take_bit_eq_mod unat_mod)
  have c: "unat code < 256" using unsigned_less [of code, where ?'a = nat] by simp
  have "k div 64 < 4" "unat code div 64 < 4" using assms(2) c by auto
  moreover have b: "bit (push_bit (unat code mod 64) (1 :: u64)) (k mod 64) \<longleftrightarrow> k mod 64 = unat code mod 64"
    by (auto simp: bit_simps)
  moreover have "k = unat code \<longleftrightarrow> k div 64 = unat code div 64 \<and> k mod 64 = unat code mod 64"
    by (metis div_mult_mod_eq)
  ultimately show ?thesis
    using assms(1) unfolding pressed_def set_key_def w n Let_def
    by (cases "k div 64 = unat code div 64") (auto simp: bit_or_iff nth_list_update simp del: push_bit_of_1)
qed

lemma no_keys_pressed: "k < 256 \<Longrightarrow> \<not> pressed no_keys k"
proof -
  assume "k < 256"
  then have "k div 64 \<in> {0, 1, 2, 3}" by auto
  then show ?thesis by (auto simp: pressed_def no_keys_def)
qed

lemma report_pressed:
  assumes "k < 256"
  shows "pressed (hd (do_inject_hid code shift ctrl alt gui altgr)) k \<longleftrightarrow>
    k = unat code \<or> ctrl \<and> k = 0xE0 \<or> shift \<and> k = 0xE1 \<or> alt \<and> k = 0xE2 \<or> gui \<and> k = 0xE3 \<or> altgr \<and> k = 0xE5"
proof -
  have l: "length no_keys = 4" by (simp add: no_keys_def)
  show ?thesis
    using assms no_keys_pressed [OF assms]
    by (simp add: do_inject_hid_def Let_def pressed_set_key l) blast
qed

text \<open>The console reads the one pressed usage below the modifiers.\<close>

definition read_report :: "hid_report \<Rightarrow> nat option" where
  "read_report r = (case filter (pressed r) [1..<0xE0] of [k] \<Rightarrow> us_char (of_nat k) (pressed r 0xE1) | _ \<Rightarrow> None)"

lemma us_code_small: "us_char u sh = Some c \<Longrightarrow> unat u < 0xE0"
proof -
  assume "us_char u sh = Some c"
  then obtain p where "(u, p) \<in> set us_layout" by (auto simp: us_char_def dest: map_of_SomeD)
  moreover have "list_all (\<lambda>r. unat (fst r) < 0xE0) us_layout" by (simp add: us_layout_def)
  ultimately show ?thesis by (auto simp: list_all_iff)
qed

lemma filter_eq_one: "distinct xs \<Longrightarrow> x \<in> set xs \<Longrightarrow> (\<forall>y \<in> set xs. P y \<longleftrightarrow> y = x) \<Longrightarrow> filter P xs = [x]"
  by (induction xs) (auto simp: filter_empty_conv)

lemma read_pressed:
  assumes "us_char u sh = Some c" "u \<noteq> 0"
  shows "List.map_filter read_report (do_inject_hid u sh False False False False) = [c]"
proof -
  let ?r = "hd (do_inject_hid u sh False False False False)" and ?d = "no_keys[3 := 0x800000000000000]"
  have u: "0 < unat u" "unat u < 0xE0" using assms us_code_small by (auto simp: unat_gt_0)
  have "filter (pressed ?r) [1..<0xE0] = [unat u]"
    by (rule filter_eq_one) (use u in \<open>auto simp: report_pressed\<close>)
  moreover have "pressed ?r 0xE1 = sh" using u by (simp add: report_pressed)
  ultimately have r: "read_report ?r = Some c" using assms(1) by (simp add: read_report_def)
  have "list_all (\<lambda>k. \<not> pressed ?d k) [1..<0xE0]"
    by (simp add: pressed_def no_keys_def upt_rec)
  then have "filter (pressed ?d) [1..<0xE0] = []" by (auto simp: list_all_iff filter_empty_conv)
  then have d: "read_report ?d = None" by (simp add: read_report_def)
  have "do_inject_hid u sh False False False False = [?r, ?d]" by (simp add: do_inject_hid_def Let_def)
  then show ?thesis using r d by (metis map_filter_simps option.simps(4,5))
qed

lemma read_typed:
  "list_all (\<lambda>c. typeable (of_char c)) s \<Longrightarrow>
     List.map_filter read_report (inject_chars False False False False s) = map of_char s"
proof (induction s)
  case (Cons c s)
  have t: "typeable (of_char c)" using Cons.prems by simp
  then have "\<not> 0x80 \<le> (of_char c :: nat)" by (auto simp: typeable_def)
  moreover obtain u sh where u: "char_to_hid (of_char c) = (u, sh)" "u \<noteq> 0" "us_char u sh = Some (of_char c)"
    using char_to_hid_typeable [OF t] by metis
  moreover have "List.map_filter read_report (xs @ ys) = List.map_filter read_report xs @ List.map_filter read_report ys"
    for xs ys by (simp add: List.map_filter_def)
  ultimately show ?case using Cons read_pressed [OF u(3,2)] by simp
qed (simp add: map_filter_simps)

text \<open>
  C25: remote typing. A keyboard request with a text of printable ASCII characters, tabs and
  newlines and without modifiers switches the console to the US layout, presses keys that this
  layout reads as exactly that text, and restores the layout.
\<close>

theorem typed_text_arrives:
  assumes "pv_hid_ok E" and "jb_is_str (pv_yy E) (pkt_body np) ''key''"
    and "\<not> jb_is_num (pv_yy E) (pkt_body np) ''specialKey''"
    and "list_all (\<lambda>m. \<not> jb_value_bool (pv_yy E) (pkt_body np) m False) [''alt'', ''ctrl'', ''shift'', ''super'']"
    and "list_all (\<lambda>c. typeable (of_char c)) (jb_get_str (pv_yy E) (pkt_body np) ''key'')"
  shows "\<exists>rs. inject_key E np =
       [SetLayout EnglishUs] @ map PressKey rs @ (if pv_layout E \<noteq> EnglishUs then [SetLayout (pv_layout E)] else []) \<and>
     List.map_filter read_report rs = map of_char (jb_get_str (pv_yy E) (pkt_body np) ''key'')"
  using assms read_typed [OF assms(5)]
  by (auto simp: inject_key_def Let_def map_filter_simps)

theorem typed_text_arrives_witness:
  "\<exists>rs. inject_key demo_env (demo_request MousepadRequest ''key'' ''Hi, 42!'') =
       [SetLayout EnglishUs] @ map PressKey rs @ [SetLayout (OtherLayout 3)] \<and>
     List.map_filter read_report rs = map of_char ''Hi, 42!''"
  using typed_text_arrives [of demo_env "demo_request MousepadRequest ''key'' ''Hi, 42!''"]
  by (simp add: demo_request_fields typeable_def c_str_def)

end
