(* ===== verification/Plugin_Media.thy ===== *)
theory Plugin_Media
  imports Plugin_Commands
begin

text \<open>
  Media and files: the album art cache of \<open>utils/album_art.cpp\<close>, the remote control of
  \<open>mpris_plugin.cpp\<close>, and \<open>share_plugin.cpp\<close>, which receives texts, links and files and sends
  screenshots.
\<close>

unbundle bit_operations_syntax

section \<open>Album art\<close>

definition fnv_step :: "char \<Rightarrow> u64 \<Rightarrow> u64" where
  "fnv_step c h = (h XOR of_char c) * 1099511628211"

definition hex16 :: "u64 \<Rightarrow> string" where
  "hex16 h = map (\<lambda>i. hex_char (unat (drop_bit (4 * (15 - i)) h AND 15))) [0..<16]"

definition url_hash :: "string \<Rightarrow> string" where
  "url_hash url = hex16 (fold fnv_step url 14695981039346656037)"

definition art_dir :: string where "art_dir = ''/config/kdeconnect/album_art''"

definition img_path :: "string \<Rightarrow> string" where
  "img_path hash = art_dir @ ''/'' @ hash"

definition kLruMax :: nat where "kLruMax = 10"

text \<open>The new queue and the effects; \<open>names\<close> are the directory's entries, if it can be opened.\<close>

definition clear_dir :: "string list option \<Rightarrow> string list \<times> peffect list" where
  "clear_dir names =
     ([], MakeDir art_dir #
        (case names of
           None \<Rightarrow> []
         | Some ns \<Rightarrow> map (\<lambda>n. RemoveFile (art_dir @ ''/'' @ n)) (filter (\<lambda>n. n \<noteq> ''.'' \<and> n \<noteq> ''..'') ns)))"

text \<open>The front of the queue is the most recent. \<open>evict\<close> also returns what it evicted, in order.\<close>

function evict :: "string list \<Rightarrow> string list \<times> string list" where
  "evict lru =
     (if kLruMax < length lru
      then (case evict (butlast lru) of (l, gone) \<Rightarrow> (l, last lru # gone))
      else (lru, []))"
  by auto

termination
  by (relation "measure length") (auto simp: kLruMax_def)

declare evict.simps [simp del]

definition lru_touch :: "string \<Rightarrow> string list \<Rightarrow> string list \<times> peffect list" where
  "lru_touch hash lru =
     (if hash = [] then (lru, [])
      else if lru \<noteq> [] \<and> hd lru = hash then (lru, [])
      else case evict (hash # remove1 hash lru) of
             (l, gone) \<Rightarrow> (l, map (\<lambda>h. RemoveFile (img_path h)) gone))"

text \<open>The first twelve bytes of the file, zero where it is shorter.\<close>

definition image_magic :: "u8 list \<Rightarrow> bool" where
  "image_magic bytes =
     (let magic = take 12 (bytes @ replicate 12 0)
      in magic ! 0 = 0xFF \<and> magic ! 1 = 0xD8 \<and> magic ! 2 = 0xFF \<or>
         magic ! 0 = 0x89 \<and> magic ! 1 = 0x50 \<and> magic ! 2 = 0x4E \<or>
         take 4 magic = map of_char ''RIFF'' \<and> take 4 (drop 8 magic) = map of_char ''WEBP'')"

definition download_raw ::
    "plugin_env \<Rightarrow> network_packet \<Rightarrow> string \<Rightarrow> string list \<Rightarrow> bool \<times> string list \<times> peffect list" where
  "download_raw E np hash lru =
     (let path = img_path hash
      in if \<not> pv_download_ok E then (False, lru, [Download np path])
         else if \<not> image_magic (pv_magic E) then (False, lru, [Download np path, RemoveFile path])
         else (case lru_touch hash lru of (lru, es) \<Rightarrow> (True, lru, Download np path # es)))"

section \<open>Media players\<close>

record player =
  can_pause :: bool
  can_play :: bool
  can_go_next :: bool
  can_go_previous :: bool
  is_playing :: bool
  can_seek :: bool
  pl_title :: string
  pl_artist :: string
  pl_album :: string
  album_art_url :: string
  album_art_hash :: string
  pl_volume :: i32
  pl_position :: i64
  position_time :: i64
  pl_length :: i64

record mpris =
  player_list :: "string list"
  current_player :: string
  pl_state :: player
  seek_lock_until :: i64

definition new_player :: player where
  "new_player = \<lparr>can_pause = False, can_play = False, can_go_next = False, can_go_previous = False,
     is_playing = False, can_seek = False, pl_title = [], pl_artist = [], pl_album = [], album_art_url = [],
     album_art_hash = [], pl_volume = 0, pl_position = 0, position_time = 0, pl_length = 0\<rparr>"

definition new_mpris :: mpris where
  "new_mpris = \<lparr>player_list = [], current_player = [], pl_state = new_player, seek_lock_until = 0\<rparr>"

definition mpris_supported :: "string list" where "mpris_supported = [Mpris, MprisRequest]"
definition mpris_outgoing :: "string list" where "mpris_outgoing = [MprisRequest, Mpris]"

text \<open>\<open>s_cleared\<close> is set once in the life of the program: later sessions keep the cache.\<close>

definition mpris_created :: "string list option \<Rightarrow> bool \<times> string list \<Rightarrow> (bool \<times> string list) \<times> peffect list" where
  "mpris_created names s =
     (case s of (cleared, lru) \<Rightarrow>
        if cleared then ((True, lru), [])
        else (case clear_dir names of (lru, es) \<Rightarrow> ((True, lru), es)))"

definition now_ms :: "plugin_env \<Rightarrow> i64" where
  "now_ms E = word_of_int (sint (pv_now E) sdiv 1000000)"

definition mpris_request :: "(json_body \<Rightarrow> json_body) \<Rightarrow> peffect list" where
  "mpris_request build = [SendPacket ((new_packet MprisRequest)\<lparr>pkt_body := build jb_empty\<rparr>)]"

definition request_player_list :: "plugin_env \<Rightarrow> peffect list" where
  "request_player_list E = mpris_request (set_bool (pv_yy E) ''requestPlayerList'' True)"

definition request_status :: "plugin_env \<Rightarrow> string \<Rightarrow> peffect list" where
  "request_status E p = mpris_request (\<lambda>b. set_bool (pv_yy E) ''requestVolume'' True
     (set_bool (pv_yy E) ''requestNowPlaying'' True (set_str (pv_yy E) ''player'' p b)))"

definition send_action :: "plugin_env \<Rightarrow> string \<Rightarrow> string \<Rightarrow> peffect list" where
  "send_action E p action = mpris_request (\<lambda>b. set_str (pv_yy E) ''action'' action (set_str (pv_yy E) ''player'' p b))"

definition set_volume :: "plugin_env \<Rightarrow> string \<Rightarrow> i32 \<Rightarrow> peffect list" where
  "set_volume E p v = mpris_request (\<lambda>b. set_int (pv_yy E) ''setVolume'' v (set_str (pv_yy E) ''player'' p b))"

definition seek_by :: "plugin_env \<Rightarrow> string \<Rightarrow> i64 \<Rightarrow> peffect list" where
  "seek_by E p offset_ms =
     mpris_request (\<lambda>b. set_i64 (pv_yy E) ''Seek'' (offset_ms * 1000) (set_str (pv_yy E) ''player'' p b))"

definition set_position :: "plugin_env \<Rightarrow> string \<Rightarrow> i64 \<Rightarrow> mpris \<Rightarrow> mpris \<times> peffect list" where
  "set_position E p position_ms st =
     (st\<lparr>pl_state := (pl_state st)\<lparr>pl_position := position_ms, position_time := now_ms E\<rparr>,
         seek_lock_until := now_ms E + 500\<rparr>,
      mpris_request (\<lambda>b. set_i64 (pv_yy E) ''SetPosition'' position_ms (set_str (pv_yy E) ''player'' p b)))"

text \<open>What a status packet changes in the player's state: the fields it has.\<close>

definition update_flags :: "yyjson \<Rightarrow> json_body \<Rightarrow> player \<Rightarrow> player" where
  "update_flags Y b s =
     (let s = (if jb_has Y b ''isPlaying'' then s\<lparr>is_playing := jb_get_bool Y b ''isPlaying''\<rparr> else s);
          s = (if jb_has Y b ''canPause'' then s\<lparr>can_pause := jb_get_bool Y b ''canPause''\<rparr> else s);
          s = (if jb_has Y b ''canPlay'' then s\<lparr>can_play := jb_get_bool Y b ''canPlay''\<rparr> else s);
          s = (if jb_has Y b ''canGoNext'' then s\<lparr>can_go_next := jb_get_bool Y b ''canGoNext''\<rparr> else s);
          s = (if jb_has Y b ''canGoPrevious'' then s\<lparr>can_go_previous := jb_get_bool Y b ''canGoPrevious''\<rparr> else s);
          s = (if jb_has Y b ''canSeek'' then s\<lparr>can_seek := jb_get_bool Y b ''canSeek''\<rparr> else s);
          s = (if jb_is_str Y b ''title'' then s\<lparr>pl_title := jb_get_str Y b ''title''\<rparr> else s);
          s = (if jb_is_str Y b ''artist'' then s\<lparr>pl_artist := jb_get_str Y b ''artist''\<rparr> else s);
          s = (if jb_is_str Y b ''album'' then s\<lparr>pl_album := jb_get_str Y b ''album''\<rparr> else s)
      in if jb_is_num Y b ''volume'' then s\<lparr>pl_volume := jb_get_int Y b ''volume''\<rparr> else s)"

definition update_position :: "yyjson \<Rightarrow> i64 \<Rightarrow> i64 \<Rightarrow> json_body \<Rightarrow> player \<Rightarrow> player" where
  "update_position Y now seek_lock b s =
     (let s = (if jb_is_num Y b ''pos'' \<and> sint seek_lock \<le> sint now then
                 (let p = jb_get_i64 Y b ''pos'';
                      co_length_bad = (jb_is_num Y b ''length'' \<and> sint (jb_get_i64 Y b ''length'') < 0)
                  in if 0 < sint p \<or> \<not> co_length_bad then
                       (if 0 \<le> sint p then s\<lparr>pl_position := p, position_time := now\<rparr> else s)
                     else s)
               else s)
      in if jb_is_num Y b ''length'' then
           (let l = jb_get_i64 Y b ''length'' in if 0 \<le> sint l then s\<lparr>pl_length := l\<rparr> else s)
         else s)"

definition update_art :: "yyjson \<Rightarrow> json_body \<Rightarrow> player \<Rightarrow> player" where
  "update_art Y b s =
     (if jb_is_str Y b ''albumArtUrl'' then
        (let new_url = jb_get_str Y b ''albumArtUrl''
         in s\<lparr>album_art_url := new_url, album_art_hash := (if new_url = [] then [] else url_hash new_url)\<rparr>)
      else s)"

definition fetch_art :: "plugin_env \<Rightarrow> network_packet \<Rightarrow> player \<Rightarrow> string list \<Rightarrow> string list \<times> peffect list" where
  "fetch_art E np s lru =
     (let art_url = album_art_url s; art_hash = album_art_hash s;
          Y = pv_yy E; p = jb_get_str Y (pkt_body np) ''player''
      in if art_hash = [] then (lru, [])
         else if pv_exists E (img_path art_hash) then lru_touch art_hash lru
         else if jb_value_bool Y (pkt_body np) ''transferringAlbumArt'' False \<and> has_payload np then
           snd (download_raw E np art_hash lru)
         else if art_url \<noteq> [] then
           (lru, mpris_request (\<lambda>b. set_str Y ''albumArtUrl'' art_url (set_str Y ''player'' p b)))
         else (lru, []))"

text \<open>The second component of the state is the queue \<open>s_lru\<close>, which all sessions share.\<close>

definition mpris_received ::
    "plugin_env \<Rightarrow> mpris \<times> string list \<Rightarrow> network_packet \<Rightarrow> bool \<times> (mpris \<times> string list) \<times> peffect list" where
  "mpris_received E s np =
     (case s of (st, lru) \<Rightarrow>
        (let Y = pv_yy E; b = pkt_body np
         in if pkt_type np \<noteq> Mpris then (False, s, [])
            else if jb_has Y b ''playerList'' then
              (let players = jb_each_str Y b ''playerList'' (\<lambda>p ps. ps @ [p]) [];
                   st = st\<lparr>player_list := players\<rparr>
               in if players \<noteq> [] \<and> hd players \<noteq> current_player st then
                    (True, (st\<lparr>current_player := hd players, pl_state := new_player, seek_lock_until := 0\<rparr>, lru),
                     if hd players \<noteq> [] then request_status E (hd players) else [])
                  else (True, (st, lru), []))
            else if jb_is_str Y b ''player'' then
              (let player = jb_get_str Y b ''player''
               in if current_player st \<noteq> [] \<and> player \<noteq> current_player st then (True, s, [])
                  else
                    (let pl = update_art Y b (update_position Y (now_ms E) (seek_lock_until st) b
                                (update_flags Y b (pl_state st)));
                         (lru, es) = fetch_art E np pl lru
                     in (True, (st\<lparr>pl_state := pl\<rparr>, lru), es)))
            else (False, s, [])))"

definition mpris_connected :: "plugin_env \<Rightarrow> bool \<Rightarrow> peffect list" where
  "mpris_connected E is_paired = (if is_paired then request_player_list E else [])"

definition smin :: "i64 \<Rightarrow> i64 \<Rightarrow> i64" where
  "smin a b = (if sint b < sint a then b else a)"

definition player_state :: "i64 \<Rightarrow> mpris \<Rightarrow> player" where
  "player_state now st =
     (let s = pl_state st
      in if is_playing s \<and> 0 < sint (position_time s) then
           (let elapsed = now - position_time s;
                s = s\<lparr>pl_position := pl_position s + elapsed\<rparr>
            in if 0 < sint (pl_length s) then s\<lparr>pl_position := smin (pl_position s) (pl_length s)\<rparr> else s)
         else s)"

section \<open>Sharing\<close>

record share =
  notification_id :: u32
  pending_urls :: "string list"

definition new_share :: share where
  "new_share = \<lparr>notification_id = 0, pending_urls = []\<rparr>"

definition share_supported :: "string list" where "share_supported = [ShareRequest]"
definition share_outgoing :: "string list" where "share_outgoing = [ShareRequest]"

text \<open>\<open>find_last_of("/\\")\<close>; 0x5C is the backslash.\<close>

definition share_path :: "string \<Rightarrow> string" where
  "share_path filename =
     (let base = (case rfind_if (\<lambda>c. c = CHR ''/'' \<or> c = CHR 0x5C) filename of
                    Some sep \<Rightarrow> drop (sep + 1) filename | None \<Rightarrow> filename);
          base = (if base = [] then ''received_file'' else base)
      in ''/'' @ base)"

definition push_url :: "string \<Rightarrow> string list \<Rightarrow> string list" where
  "push_url url q = (if 1 < length q then tl q else q) @ [url]"

definition post_share :: "plugin_env \<Rightarrow> string \<Rightarrow> share \<Rightarrow> share \<times> peffect list" where
  "post_share E text st =
     (st\<lparr>notification_id := notification_id st + 1\<rparr>,
      [Post ''kdeconnect_share'' (''From '' @ shown_name E) text (nat_str (unat (notification_id st))) default_duration])"

definition share_received :: "plugin_env \<Rightarrow> share \<Rightarrow> network_packet \<Rightarrow> bool \<times> share \<times> peffect list" where
  "share_received E st np =
     (let Y = pv_yy E; b = pkt_body np
      in if pkt_type np \<noteq> ShareRequest then (False, st, [])
         else if jb_is_str Y b ''url'' then
           (True, st\<lparr>pending_urls := push_url (jb_get_str Y b ''url'') (pending_urls st)\<rparr>, [])
         else if jb_is_str Y b ''text'' then
           (case post_share E (jb_get_str Y b ''text'') st of (st, es) \<Rightarrow> (True, st, es))
         else if jb_is_str Y b ''filename'' \<and> has_payload np then
           (let filename = jb_get_str Y b ''filename'';
                (st, es1) = (if 1024 * 1024 < sint (payload_size np)
                             then post_share E (''Receiving file... ('' @ int_str (sint (payload_size np) sdiv 1024) @ '' KB)'') st
                             else (st, []));
                path = share_path filename;
                (st, es2) = post_share E ((if pv_download_ok E then ''Saved: '' else ''Failed to save: '') @ filename) st
            in (True, st, es1 @ Download np path # es2))
         else (False, st, []))"

text \<open>\<open>open_pending_url\<close> returns at its first line.\<close>

definition open_pending_url :: "share \<Rightarrow> bool \<times> share" where
  "open_pending_url st = (False, st)"

subsection \<open>Screenshots\<close>

text \<open>\<open>strcmp\<close> compares the bytes; \<open>char\<close> is unsigned on the console.\<close>

definition name_less :: "string \<Rightarrow> string \<Rightarrow> bool" where
  "name_less a b = lex_less (map of_char a :: nat list) (map of_char b)"

definition is_shot :: "string \<Rightarrow> bool" where
  "is_shot name \<longleftrightarrow> 21 \<le> length name \<and> drop (length name - 4) name = ''.jpg''"

definition scan_newest_jpg :: "string list option \<Rightarrow> string" where
  "scan_newest_jpg names =
     (case names of
        None \<Rightarrow> []
      | Some ns \<Rightarrow> fold (\<lambda>name out. if \<not> is_shot name then out else if name_less out name then name else out) ns [])"

text \<open>One listing per attempt, the last of at most 20 (40) that is looked at.\<close>

fun poll_for_new_screenshot :: "nat \<Rightarrow> string list option list \<Rightarrow> string \<Rightarrow> string" where
  "poll_for_new_screenshot 0 ls prev = []"
| "poll_for_new_screenshot (Suc n) [] prev = []"
| "poll_for_new_screenshot (Suc n) (l # ls) prev =
     (let newest = scan_newest_jpg l
      in if newest \<noteq> [] \<and> name_less prev newest then newest else poll_for_new_screenshot n ls prev)"

fun wait_for_file_entry_size :: "nat \<Rightarrow> (string \<times> i64) list option list \<Rightarrow> string \<Rightarrow> i64" where
  "wait_for_file_entry_size 0 ls filename = -1"
| "wait_for_file_entry_size (Suc n) [] filename = -1"
| "wait_for_file_entry_size (Suc n) (l # ls) filename =
     (case l of
        None \<Rightarrow> wait_for_file_entry_size n ls filename
      | Some es \<Rightarrow>
          (case map_of es filename of
             Some sz \<Rightarrow> if 0 < sint sz then sz else wait_for_file_entry_size n ls filename
           | None \<Rightarrow> wait_for_file_entry_size n ls filename))"

record shot_env =
  sh_provider :: bool
  sh_album_ok :: bool
  sh_hid_ok :: bool
  sh_before :: "string list option"
  sh_polls :: "string list option list"
  sh_sizes :: "(string \<times> i64) list option list"
  sh_open_ok :: bool
  sh_time :: i64

text \<open>\<open>s_album_fs_open\<close>: the album stays open.\<close>

definition ensure_album_fs :: "bool \<Rightarrow> bool \<Rightarrow> bool" where
  "ensure_album_fs album_ok is_open = (is_open \<or> album_ok)"

definition screenshot_packet :: "yyjson \<Rightarrow> i64 \<Rightarrow> network_packet" where
  "screenshot_packet Y time =
     (new_packet ShareRequest)\<lparr>pkt_body :=
        set_str Y ''filename'' (''screenshot_'' @ int_str (sint time) @ ''.jpg'') jb_empty\<rparr>"

text \<open>
  The state is \<open>s_album_fs_open\<close> and the hiddbg service. The result is the name of the file in the
  album and the upload, or \<open>None\<close> when the function gives up and returns false.
\<close>

definition send_screenshot ::
    "yyjson \<Rightarrow> shot_env \<Rightarrow> bool \<times> hiddbg \<Rightarrow> (bool \<times> hiddbg) \<times> (string \<times> peffect list) option" where
  "send_screenshot Y e s =
     (case s of (album, h) \<Rightarrow>
        if \<not> sh_provider e then (s, None)
        else if \<not> ensure_album_fs (sh_album_ok e) album then (s, None)
        else
          (let prev_newest = scan_newest_jpg (sh_before e);
               h = press_capture_button (sh_hid_ok e) h;
               new_name = poll_for_new_screenshot 20 (sh_polls e) prev_newest
           in if new_name = [] then ((True, h), None)
              else
                (let file_size = wait_for_file_entry_size 40 (sh_sizes e) new_name
                 in if sint file_size \<le> 0 then ((True, h), None)
                    else if \<not> sh_open_ok e then ((True, h), None)
                    else ((True, h), Some (new_name, [SendFile (screenshot_packet Y (sh_time e)) file_size])))))"

text \<open>The reader of the upload: the file's bytes from the offset, none after a failed read.\<close>

definition fs_reader :: "(nat \<Rightarrow> nat \<Rightarrow> string option) \<Rightarrow> nat \<Rightarrow> nat \<Rightarrow> string \<times> nat" where
  "fs_reader read sz offset =
     (case read offset sz of None \<Rightarrow> ([], offset) | Some bytes \<Rightarrow> (bytes, offset + length bytes))"

section \<open>Lemmas\<close>

lemma evict_eq: "evict l = (take kLruMax l, rev (drop kLruMax l))"
proof (induction l rule: evict.induct)
  case (1 l)
  show ?case
  proof (cases "kLruMax < length l")
    case True
    then have "l \<noteq> []" by auto
    moreover have "kLruMax \<le> length (butlast l)" using True by simp
    ultimately have "take kLruMax l = take kLruMax (butlast l)" "drop kLruMax l = drop kLruMax (butlast l) @ [last l]"
      by (metis append_butlast_last_id take_append diff_is_0_eq take_0 append_Nil2,
          metis append_butlast_last_id drop_append diff_is_0_eq drop_0)
    then show ?thesis using True 1 [OF True] by (simp add: evict.simps [of l])
  next
    case False
    then show ?thesis by (simp add: evict.simps [of l])
  qed
qed

definition lru_ok :: "string list \<Rightarrow> bool" where
  "lru_ok l \<longleftrightarrow> distinct l \<and> [] \<notin> set l"

lemma lru_touch_lru:
  assumes "lru_ok l" "h \<noteq> []"
  shows "lru_ok (fst (lru_touch h l)) \<and> (length l \<le> kLruMax \<longrightarrow> length (fst (lru_touch h l)) \<le> kLruMax) \<and>
    fst (lru_touch h l) \<noteq> [] \<and> hd (fst (lru_touch h l)) = h"
proof (cases "l \<noteq> [] \<and> hd l = h")
  case True
  then show ?thesis using assms by (simp add: lru_touch_def)
next
  case False
  have "lru_ok (take kLruMax (h # remove1 h l))"
    using assms by (auto simp: lru_ok_def kLruMax_def dest: in_set_takeD)
  then show ?thesis
    using False assms by (simp add: lru_touch_def evict_eq) (simp add: kLruMax_def)
qed

text \<open>The album art queue is a bounded store.\<close>

interpretation art: bounded_store lru_ok length kLruMax "\<lambda>h l. fst (lru_touch h l)"
  "\<lambda>h l. h = [] \<or> l \<noteq> [] \<and> hd l = h"
proof unfold_locales
  fix h l
  have nil: "fst (lru_touch [] l) = l" by (simp add: lru_touch_def)
  show "lru_ok l \<Longrightarrow> lru_ok (fst (lru_touch h l))"
    "lru_ok l \<Longrightarrow> length l \<le> kLruMax \<Longrightarrow> length (fst (lru_touch h l)) \<le> kLruMax"
    "lru_ok l \<Longrightarrow> length l \<le> kLruMax \<Longrightarrow> h = [] \<or> fst (lru_touch h l) \<noteq> [] \<and> hd (fst (lru_touch h l)) = h"
    using lru_touch_lru [of l h] nil by (cases "h = []"; simp)+
qed

text \<open>The queue of links never holds more than two; the newest is its last.\<close>

interpretation urls: bounded_store "\<lambda>_ :: string list. True" length 2 push_url "\<lambda>u q. q \<noteq> [] \<and> last q = u"
  by unfold_locales (auto simp: push_url_def)

lemma img_path_inject [simp]: "img_path a = img_path b \<longleftrightarrow> a = b"
  by (simp add: img_path_def)

lemma lru_touch_removes:
  assumes "lru_ok l" "length l \<le> kLruMax"
  shows "RemoveFile (img_path x) \<in> set (snd (lru_touch h l)) \<longleftrightarrow> x \<in> set l \<and> x \<notin> set (fst (lru_touch h l))"
proof (cases "h = [] \<or> l \<noteq> [] \<and> hd l = h")
  case True
  then show ?thesis by (auto simp: lru_touch_def)
next
  case False
  let ?m = "h # remove1 h l"
  have d: "distinct ?m" using assms by (simp add: lru_ok_def)
  have parts: "set (take kLruMax ?m) \<union> set (drop kLruMax ?m) = set ?m"
    "set (take kLruMax ?m) \<inter> set (drop kLruMax ?m) = {}"
    using d append_take_drop_id [of kLruMax ?m] by (metis set_append, metis distinct_append)
  have sets: "set ?m = insert h (set l)" using assms by (auto simp: lru_ok_def)
  have h: "h \<in> set (take kLruMax ?m)" by (simp add: kLruMax_def)
  have "RemoveFile (img_path x) \<in> set (snd (lru_touch h l)) \<longleftrightarrow> x \<in> set (drop kLruMax ?m)"
    using False by (auto simp: lru_touch_def evict_eq)
  moreover have "fst (lru_touch h l) = take kLruMax ?m" using False by (auto simp: lru_touch_def evict_eq)
  ultimately show ?thesis using parts sets h by auto
qed

text \<open>
  C26: the album art cache and the files agree. Starting from a queue within its bound, a touch
  keeps it duplicate-free and within ten entries with the touched hash in front, and the files it
  deletes are exactly those of the hashes that leave the queue.
\<close>

theorem album_cache_matches_files:
  assumes "lru_ok l" and "length l \<le> kLruMax" and "lru_touch h l = (l', es)" and "h \<noteq> []"
  shows "lru_ok l' \<and> length l' \<le> kLruMax \<and> l' \<noteq> [] \<and> hd l' = h \<and> set l' \<subseteq> insert h (set l) \<and>
    (\<forall>x. RemoveFile (img_path x) \<in> set es \<longleftrightarrow> x \<in> set l \<and> x \<notin> set l')"
proof -
  have "set l' \<subseteq> insert h (set l)"
    using assms(3,4) by (auto simp: lru_touch_def evict_eq dest: in_set_takeD set_remove1_subset [THEN subsetD] split: if_splits)
  then show ?thesis
    using art.wf_put [OF assms(1), of h] art.count_put [OF assms(1,2), of h] art.stored_put [OF assms(1,2), of h]
      lru_touch_removes [OF assms(1,2), of _ h] assms(3,4) by simp
qed

theorem album_cache_matches_files_witness:
  "hd (fst (lru_touch ''n'' [''a'', ''b'', ''c'', ''d'', ''e'', ''f'', ''g'', ''h'', ''i'', ''j''])) = ''n'' \<and>
   length (fst (lru_touch ''n'' [''a'', ''b'', ''c'', ''d'', ''e'', ''f'', ''g'', ''h'', ''i'', ''j''])) \<le> kLruMax"
  using album_cache_matches_files [of "[''a'', ''b'', ''c'', ''d'', ''e'', ''f'', ''g'', ''h'', ''i'', ''j'']" "''n''"]
  by (cases "lru_touch ''n'' [''a'', ''b'', ''c'', ''d'', ''e'', ''f'', ''g'', ''h'', ''i'', ''j'']")
    (simp add: lru_ok_def kLruMax_def)

section \<open>The position of a player\<close>

lemma update_flags_position [simp]:
  "pl_position (update_flags Y b s) = pl_position s" "position_time (update_flags Y b s) = position_time s"
  by (simp_all add: update_flags_def Let_def)

lemma update_art_position [simp]:
  "pl_position (update_art Y b s) = pl_position s" "position_time (update_art Y b s) = position_time s"
  by (simp_all add: update_art_def Let_def)

lemma update_playing [simp]:
  "is_playing (update_flags Y b s) = (if jb_has Y b ''isPlaying'' then jb_get_bool Y b ''isPlaying'' else is_playing s)"
  "is_playing (update_position Y now lock b s) = is_playing s" "is_playing (update_art Y b s) = is_playing s"
  "pl_length (update_flags Y b s) = pl_length s" "pl_length (update_art Y b s) = pl_length s"
  "\<not> jb_is_num Y b ''length'' \<Longrightarrow> pl_length (update_position Y now lock b s) = pl_length s"
  by (simp_all add: update_flags_def update_position_def update_art_def Let_def)

lemma received_status:
  assumes "mpris_received E (st, lru) np = (r, (st', lru'), es)" "pkt_type np = Mpris"
    "\<not> jb_has (pv_yy E) (pkt_body np) ''playerList''" "jb_is_str (pv_yy E) (pkt_body np) ''player''"
    "jb_get_str (pv_yy E) (pkt_body np) ''player'' = current_player st"
  shows "pl_state st' = update_art (pv_yy E) (pkt_body np) (update_position (pv_yy E) (now_ms E) (seek_lock_until st)
     (pkt_body np) (update_flags (pv_yy E) (pkt_body np) (pl_state st)))"
  using assms by (auto simp: mpris_received_def Let_def split: prod.splits)

lemma update_position_locked:
  "\<not> sint lock \<le> sint now \<Longrightarrow> pl_position (update_position Y now lock b s) = pl_position s \<and>
     position_time (update_position Y now lock b s) = position_time s"
  by (simp add: update_position_def Let_def)

text \<open>The displayed position, as long as it does not leave 64 bits.\<close>

lemma shown_position:
  assumes "is_playing (pl_state st)" "0 < sint (position_time (pl_state st))"
    "sint (position_time (pl_state st)) \<le> sint now" "0 \<le> sint (pl_position (pl_state st))"
    "sint (pl_position (pl_state st)) + (sint now - sint (position_time (pl_state st))) < 2 ^ 63"
  shows "sint (pl_position (player_state now st)) =
    (let p = sint (pl_position (pl_state st)) + (sint now - sint (position_time (pl_state st)))
     in if 0 < sint (pl_length (pl_state st)) then min p (sint (pl_length (pl_state st))) else p)"
proof -
  let ?s = "pl_state st"
  have e: "sint (now - position_time ?s) = sint now - sint (position_time ?s)"
    using assms by (intro sint_minus_small) simp
  have p: "sint (pl_position ?s + (now - position_time ?s)) = sint (pl_position ?s) + (sint now - sint (position_time ?s))"
    using assms e sint_plus_small [of "pl_position ?s" "now - position_time ?s"] by simp
  show ?thesis
    using assms(1,2) p by (auto simp: player_state_def Let_def smin_def min_def)
qed

lemma received_locked:
  assumes "mpris_received E (st, lru) np = (r, (st', lru'), es)"
    and "\<not> jb_has (pv_yy E) (pkt_body np) ''playerList''" and "\<not> sint (seek_lock_until st) \<le> sint (now_ms E)"
  shows "pl_position (pl_state st') = pl_position (pl_state st) \<and>
    position_time (pl_state st') = position_time (pl_state st)"
proof -
  note u = update_position_locked [OF assms(3), of "pv_yy E" "pkt_body np"]
  show ?thesis
    using assms(1,2) u by (auto simp: mpris_received_def Let_def split: if_splits prod.splits)
qed


definition demo_player :: mpris where
  "demo_player = new_mpris\<lparr>current_player := ''vlc'', pl_state := new_player\<lparr>is_playing := True, pl_length := 60000\<rparr>\<rparr>"

definition demo_status :: network_packet where
  "demo_status = (new_packet Mpris)\<lparr>pkt_body := JObj [(''player'', JStr ''vlc''), (''pos'', JUint 1), (''isPlaying'', JBool True)]\<rparr>"


end
