(* ===== verification/Icons.thy ===== *)
theory Icons
  imports Plugin_Base
begin

text \<open>
  The icon of a notification, \<open>write_app_icon\<close> of \<open>notification_plugin.cpp\<close> after the download:
  the PNG is decoded row by row and reduced to 50 by 50 pixels by nearest neighbour.
\<close>

definition icon_dir :: string where "icon_dir = ''/config/ultrahand/assets/notifications''"

definition icon_path :: "string \<Rightarrow> string" where
  "icon_path hash = icon_dir @ ''/kdeconnect_'' @ hash @ ''.rgba''"

definition icon_path_png :: "string \<Rightarrow> string" where
  "icon_path_png hash = icon_dir @ ''/.kdeconnect_'' @ hash @ ''.png''"

text \<open>
  The decoder, libpng, is the argument \<open>png\<close>: given the callback that reads the file it delivers
  width, height and the rows of the picture in order, as RGBA bytes. Fewer rows than the height say
  that decoding fails at the next one (the \<open>longjmp\<close>), \<open>None\<close> that the header cannot be read.
\<close>

definition OUT :: nat where "OUT = 50"
definition kRgbaSize :: nat where "kRgbaSize = OUT * OUT * 4"

definition icon_fits :: "nat \<Rightarrow> nat \<Rightarrow> bool" where
  "icon_fits w h \<longleftrightarrow> \<not> (256 < w \<or> 256 < h \<or> 256 * 256 < w * h)"

text \<open>
  The callback fills the buffer in steps of 0x400. A service that returns more than was asked
  breaks its contract; the subtraction on naturals then ends the loop.
\<close>

function png_read :: "'fs nxfs \<Rightarrow> string \<Rightarrow> 'fs \<Rightarrow> nat \<Rightarrow> nat \<Rightarrow> string \<Rightarrow> string option" where
  "png_read F path fs offset remaining buf =
     (if remaining = 0 then Some buf
      else case fs_read F path offset (write_step remaining) fs of
             None \<Rightarrow> None
           | Some bytes \<Rightarrow>
               if bytes = [] then None
               else png_read F path fs (offset + length bytes) (remaining - length bytes) (buf @ bytes))"
  by auto

termination
  by (relation "measure (\<lambda>(F, path, fs, offset, remaining, buf). remaining)") auto

declare png_read.simps [simp del]

text \<open>One output row from the row in the buffer.\<close>

definition sample_row :: "nat \<Rightarrow> string \<Rightarrow> string" where
  "sample_row w row_buf = concat (map (\<lambda>ox. take 4 (drop (ox * w div OUT * 4) row_buf)) [0..<OUT])"

text \<open>
  \<open>next_row\<close> is \<open>prev_sy + 1\<close>, the number of rows read; the row in the buffer is the last of them.
  The result of a write is not looked at. False is the \<open>longjmp\<close>.
\<close>

fun sample_rows ::
    "'fs nxfs \<Rightarrow> string \<Rightarrow> nat \<Rightarrow> nat \<Rightarrow> string list \<Rightarrow> nat list \<Rightarrow> nat \<Rightarrow> nat \<Rightarrow> 'fs \<Rightarrow> bool \<times> 'fs" where
  "sample_rows F p w h rows [] next_row out_offset fs = (True, fs)"
| "sample_rows F p w h rows (oy # oys) next_row out_offset fs =
     (let sy = oy * h div OUT; next_row = max next_row (sy + 1)
      in if length rows < next_row then (False, fs)
         else
           (let out_row = sample_row w (rows ! (next_row - 1));
                fs = (case fs_write F p out_offset out_row fs of None \<Rightarrow> fs | Some fs \<Rightarrow> fs)
            in sample_rows F p w h rows oys next_row (out_offset + OUT * 4) fs))"

text \<open>\<open>png_ok\<close>: the decoder's structures can be allocated; \<open>create_ok\<close>: the output can be created.\<close>

definition decode_icon ::
    "'fs nxfs \<Rightarrow> bool \<Rightarrow> bool \<Rightarrow> ((nat \<Rightarrow> nat \<Rightarrow> string option) \<Rightarrow> (nat \<times> nat \<times> string list) option) \<Rightarrow>
     string \<Rightarrow> 'fs \<Rightarrow> 'fs" where
  "decode_icon F png_ok create_ok png icon_hash fs =
     (let path_in = c_str (icon_path_png icon_hash); path_out = c_str (icon_path icon_hash)
      in if \<not> fs_device F \<or> \<not> png_ok \<or> \<not> fs_open F path_in fs then fs_remove F path_in fs
         else case png (\<lambda>offset n. png_read F path_in fs offset n []) of
                None \<Rightarrow> fs_remove F path_in fs
              | Some (w, h, rows) \<Rightarrow>
                  if \<not> icon_fits w h then fs_remove F path_in fs
                  else
                    (let fs = fs_remove F path_out fs
                     in if \<not> create_ok then fs_remove F path_in fs
                        else
                          (let fs = fs_create F path_out kRgbaSize fs
                           in if \<not> fs_open F path_out fs then fs_remove F path_in (fs_remove F path_out fs)
                              else
                                (case sample_rows F path_out w h rows [0..<OUT] 0 0 fs of
                                   (True, fs) \<Rightarrow> fs_remove F path_in fs
                                 | (False, fs) \<Rightarrow> fs_remove F path_in (fs_remove F path_out fs)))))"

section \<open>Lemmas\<close>

lemma nth_concat_rows:
  "\<forall>x\<in>set xss. length x = n \<Longrightarrow> i < length xss \<Longrightarrow> j < n \<Longrightarrow> concat xss ! (i * n + j) = xss ! i ! j"
proof (induction xss arbitrary: i)
  case (Cons x xss)
  then show ?case
  proof (cases i)
    case (Suc k)
    have "concat (x # xss) ! (i * n + j) = concat xss ! (k * n + j)"
      using Cons.prems(1) Suc by (simp add: nth_append)
    then show ?thesis using Cons Suc by simp
  qed (simp add: nth_append)
qed simp

lemma length_concat_rows: "\<forall>x\<in>set xss. length x = n \<Longrightarrow> length (concat xss) = length xss * n"
  by (induction xss) auto

lemma sample_index: "0 < w \<Longrightarrow> o1 < OUT \<Longrightarrow> o1 * w div OUT < w"
  by (simp add: OUT_def div_less_iff_less_mult)

lemma pixel_length:
  "length row = 4 * w \<Longrightarrow> 0 < w \<Longrightarrow> ox < OUT \<Longrightarrow> length (take 4 (drop (ox * w div OUT * 4) row)) = 4"
  using sample_index [of w ox] by simp

lemma length_sample_row: "length row = 4 * w \<Longrightarrow> 0 < w \<Longrightarrow> length (sample_row w row) = OUT * 4"
  unfolding sample_row_def by (subst length_concat_rows [of _ 4]) (auto simp: pixel_length simp del: length_take)

lemma nth_sample_row:
  assumes "length row = 4 * w" "0 < w" "ox < OUT" "k < 4"
  shows "sample_row w row ! (ox * 4 + k) = row ! (ox * w div OUT * 4 + k)"
proof -
  have "sample_row w row ! (ox * 4 + k) = map (\<lambda>ox. take 4 (drop (ox * w div OUT * 4) row)) [0..<OUT] ! ox ! k"
    unfolding sample_row_def using assms by (intro nth_concat_rows) (auto simp: pixel_length simp del: length_take)
  then show ?thesis using assms sample_index [of w ox] by simp
qed

text \<open>The rows the loop reads are those of the reduction, whatever rows were read before.\<close>

lemma sample_rows_spec:
  assumes F: "nxfs_ok F C" "nxfs_up F C" and rows: "length rows = h" "\<forall>r\<in>set rows. length r = 4 * w" "0 < w"
    and "k \<le> OUT" "next_row \<le> k * h div OUT + 1"
    and "C fs p = Some s" "length s = kRgbaSize" "off = k * (OUT * 4)" "0 < h"
    and "sample_rows F p w h rows [k..<OUT] next_row off fs = (r, fs')"
  shows "r \<and> C fs' p = Some (take off s @ concat (map (\<lambda>oy. sample_row w (rows ! (oy * h div OUT))) [k..<OUT])) \<and>
    (\<forall>q. q \<noteq> p \<longrightarrow> C fs' q = C fs q)"
  using assms(6-)
proof (induction "OUT - k" arbitrary: k next_row fs s off)
  case 0
  then have "k = OUT" by simp
  then show ?case using 0 by (simp add: kRgbaSize_def)
next
  case (Suc d)
  then have k: "k < OUT" by simp
  then have up: "[k..<OUT] = k # [Suc k..<OUT]" by (simp add: upt_conv_Cons)
  let ?sy = "k * h div OUT"
  define row where "row = sample_row w (rows ! ?sy)"
  have sy: "?sy < h" using sample_index [OF Suc.prems(6) k] .
  have len: "length row = OUT * 4" using sy rows by (simp add: row_def length_sample_row)
  have mx: "max next_row (Suc ?sy) = Suc ?sy" using Suc.prems(2) by simp
  have fit: "off + length row \<le> length s" using k len Suc.prems(4,5) by (simp add: kRgbaSize_def OUT_def)
  obtain fs1 where w1: "fs_write F p off row fs = Some fs1" using nxfs_upD(6) [OF F(2) Suc.prems(3) fit] by blast
  have c1: "C fs1 p = Some (overwrite s off row)" "\<forall>q. q \<noteq> p \<longrightarrow> C fs1 q = C fs q"
    using nxfs_okD(7) [OF F(1) w1 Suc.prems(3) fit] by blast+
  have st: "sample_rows F p w h rows [Suc k..<OUT] (?sy + 1) (off + OUT * 4) fs1 = (r, fs')"
    using Suc.prems(7) sy rows(1) w1 by (simp add: up mx row_def Let_def)
  have mono: "?sy + 1 \<le> Suc k * h div OUT + 1" by (simp add: div_le_mono)
  have "r \<and> C fs' p = Some (take (off + OUT * 4) (overwrite s off row) @
      concat (map (\<lambda>oy. sample_row w (rows ! (oy * h div OUT))) [Suc k..<OUT])) \<and> (\<forall>q. q \<noteq> p \<longrightarrow> C fs' q = C fs1 q)"
    using Suc.hyps(2) k len fit Suc.prems(4-6) by (intro Suc.hyps(1) [OF _ _ mono c1(1) _ _ _ st]) (auto simp: length_overwrite)
  moreover have "take (off + OUT * 4) (overwrite s off row) = take off s @ row"
    using fit len by (simp add: overwrite_def)
  ultimately show ?case using c1(2) by (simp add: up row_def)
qed

text \<open>Both paths, as the services see them.\<close>

lemma icon_paths:
  "nul_free hash \<Longrightarrow> c_str (icon_path hash) = icon_path hash"
  "nul_free hash \<Longrightarrow> c_str (icon_path_png hash) = icon_path_png hash"
  "icon_path_png hash \<noteq> icon_path hash'"
  by (simp_all add: icon_path_def icon_path_png_def icon_dir_def nul_free_def)

lemma decode_icon_pixels:
  assumes F: "nxfs_ok F C" "nxfs_up F C" and "nul_free hash" and "C fs (icon_path_png hash) \<noteq> None"
    and "png (\<lambda>offset n. png_read F (icon_path_png hash) fs offset n []) = Some (w, h, rows)"
    and rows: "length rows = h" "\<forall>r\<in>set rows. length r = 4 * w" "0 < w" "0 < h" "icon_fits w h"
  shows "C (decode_icon F True True png hash fs) =
    (C fs)(icon_path_png hash := None,
      icon_path hash := Some (concat (map (\<lambda>oy. sample_row w (rows ! (oy * h div OUT))) [0..<OUT])))"
proof -
  let ?in = "icon_path_png hash" let ?out = "icon_path hash"
  have dev: "fs_device F" using F(2) by (simp add: nxfs_upD)
  have oin: "fs_open F ?in fs" using assms(4) nxfs_upD(2) [OF F(2)] by blast
  define fs1 where "fs1 = fs_create F ?out kRgbaSize (fs_remove F ?out fs)"
  obtain s where s: "C fs1 ?out = Some s" using nxfs_upD(5) [OF F(2)] unfolding fs1_def by blast
  have "C (fs_remove F ?out fs) ?out = None" by (simp add: nxfs_okD(5) [OF F(1)])
  then have len: "length s = kRgbaSize" using nxfs_okD(10) [OF F(1)] s unfolding fs1_def by blast
  have oout: "fs_open F ?out fs1" using nxfs_upD(2) [OF F(2) s] .
  obtain r fs2 where run: "sample_rows F ?out w h rows [0..<OUT] 0 0 fs1 = (r, fs2)" by fastforce
  have sp: "r \<and> C fs2 ?out = Some (take 0 s @ concat (map (\<lambda>oy. sample_row w (rows ! (oy * h div OUT))) [0..<OUT])) \<and>
      (\<forall>q. q \<noteq> ?out \<longrightarrow> C fs2 q = C fs1 q)"
    by (rule sample_rows_spec [OF F rows(1,2,3) _ _ s len _ rows(4) run]) simp_all
  have other: "q \<noteq> ?out \<Longrightarrow> C fs1 q = C fs q" for q
    by (simp add: fs1_def nxfs_okD(3,5) [OF F(1)])
  have "decode_icon F True True png hash fs = fs_remove F ?in fs2"
    using assms(3,5) rows(5) dev oin oout run sp
    by (simp add: decode_icon_def icon_paths fs1_def [symmetric] Let_def)
  then show ?thesis
    using sp other icon_paths(3) [of hash hash] by (auto simp: fun_eq_iff nxfs_okD(5) [OF F(1)])
qed

text \<open>
  C29: an icon is reduced by nearest neighbour. With working services and a picture that decodes, at
  most 256 by 256 pixels, the file that the loop writes row by row while it streams the picture has
  10000 bytes and holds at pixel (ox, oy) the four bytes of the picture's pixel
  (ox * w / 50, oy * h / 50); the temporary PNG is gone and no other file has changed.
\<close>

theorem icon_is_nearest_neighbour:
  assumes "nxfs_ok F C" "nxfs_up F C" and "nul_free hash" and "C fs (icon_path_png hash) \<noteq> None"
    and "png (\<lambda>offset n. png_read F (icon_path_png hash) fs offset n []) = Some (w, h, rows)"
    and "length rows = h" "\<forall>r\<in>set rows. length r = 4 * w" "0 < w" "0 < h" "icon_fits w h"
    and "decode_icon F True True png hash fs = fs'"
  shows "\<exists>rgba. C fs' = (C fs)(icon_path_png hash := None, icon_path hash := Some rgba) \<and> length rgba = kRgbaSize \<and>
    (\<forall>oy<50. \<forall>ox<50. \<forall>k<4. rgba ! (oy * 200 + (ox * 4 + k)) = rows ! (oy * h div 50) ! (ox * w div 50 * 4 + k))"
proof (intro exI conjI allI impI)
  let ?rgba = "concat (map (\<lambda>oy. sample_row w (rows ! (oy * h div OUT))) [0..<OUT])"
  have all: "\<forall>x\<in>set (map (\<lambda>oy. sample_row w (rows ! (oy * h div OUT))) [0..<OUT]). length x = OUT * 4"
    using assms(6-9) by (auto simp: length_sample_row sample_index)
  show "C fs' = (C fs)(icon_path_png hash := None, icon_path hash := Some ?rgba)"
    using decode_icon_pixels [where png = png, OF assms(1-10)] assms(11) by simp
  show "length ?rgba = kRgbaSize" using length_concat_rows [OF all] by (simp add: kRgbaSize_def)
  fix oy ox k :: nat assume i: "oy < 50" "ox < 50" "k < 4"
  have "?rgba ! (oy * (OUT * 4) + (ox * 4 + k)) = sample_row w (rows ! (oy * h div OUT)) ! (ox * 4 + k)"
    using i by (subst nth_concat_rows [OF all]) (simp_all add: OUT_def)
  then show "?rgba ! (oy * 200 + (ox * 4 + k)) = rows ! (oy * h div 50) ! (ox * w div 50 * 4 + k)"
    using i assms(6-9) sample_index [of h oy] by (simp add: nth_sample_row OUT_def)
qed

theorem icon_is_nearest_neighbour_witness:
  "\<exists>rgba. decode_icon nx_ref True True (\<lambda>_. Some (1, 2, [''abcd'', ''efgh''])) ''h''
      [icon_path_png ''h'' \<mapsto> ''png''] (icon_path ''h'') = Some rgba \<and>
    length rgba = 10000 \<and> rgba ! 0 = CHR ''a'' \<and> rgba ! 9997 = CHR ''f''"
proof -
  let ?fs = "[icon_path_png ''h'' \<mapsto> ''png'']"
  obtain rgba where r: "decode_icon nx_ref True True (\<lambda>_. Some (1, 2, [''abcd'', ''efgh''])) ''h'' ?fs =
      ?fs(icon_path_png ''h'' := None, icon_path ''h'' := Some rgba)" "length rgba = kRgbaSize"
    "\<forall>oy<50. \<forall>ox<50. \<forall>k<4. rgba ! (oy * 200 + (ox * 4 + k)) =
       [''abcd'', ''efgh''] ! (oy * 2 div 50) ! (ox * 1 div 50 * 4 + k)"
    using icon_is_nearest_neighbour [OF nxfs_ok_ref nxfs_up_ref, of "''h''" ?fs "\<lambda>_. Some (1, 2, [''abcd'', ''efgh''])" 1 2
        "[''abcd'', ''efgh'']"] by (auto simp: nul_free_def icon_fits_def)
  have "rgba ! 0 = CHR ''a''" using r(3) [rule_format, of 0 0 0] by simp
  moreover have "rgba ! 9997 = CHR ''f''" using r(3) [rule_format, of 49 49 1] by simp
  ultimately show ?thesis using r(1,2) by (simp add: kRgbaSize_def OUT_def)
qed

end
