(* ===== verification/Plugin_Notify.thy ===== *)
theory Plugin_Notify
  imports Icons
begin

text \<open>
  \<open>notification_plugin.cpp\<close>: remote notifications with their two bounded caches, and the
  notification file that every part of the program posts.
\<close>

definition notify_dir :: string where "notify_dir = ''/config/ultrahand/notifications''"
definition notify_flag :: string where "notify_flag = ''/config/ultrahand/flags/NOTIFICATIONS.flag''"
definition kAppId :: string where "kAppId = ''kdeconnect''"
definition kMaxPostedIds :: nat where "kMaxPostedIds = 10"
definition kMaxAppIconHashes :: nat where "kMaxAppIconHashes = 100"

definition is_alnum :: "char \<Rightarrow> bool" where
  "is_alnum c \<longleftrightarrow>
     (let n = of_char c :: nat in 0x30 \<le> n \<and> n \<le> 0x39 \<or> 0x41 \<le> n \<and> n \<le> 0x5A \<or> 0x61 \<le> n \<and> n \<le> 0x7A)"

definition sanitize_filename :: "string \<Rightarrow> string" where
  "sanitize_filename s =
     map (\<lambda>c. if is_alnum c \<or> c = CHR ''-'' \<or> c = CHR ''_'' then c else CHR ''_'') s"

text \<open>The icon files that a start removes, of those in the directory.\<close>

definition is_our_icon :: "string \<Rightarrow> bool" where
  "is_our_icon name \<longleftrightarrow> take 10 name = ''kdeconnect'' \<and> 5 < length name \<and> drop (length name - 5) name = ''.rgba''"

definition clear_our_icons :: "string list option \<Rightarrow> peffect list" where
  "clear_our_icons names =
     (case names of None \<Rightarrow> [] | Some ns \<Rightarrow> map (\<lambda>n. RemoveFile (icon_dir @ ''/'' @ n)) (filter is_our_icon ns))"

definition notify_created :: "string list option \<Rightarrow> peffect list" where
  "notify_created names =
     clear_our_icons names @
     [MakeDir ''/config/ultrahand'', MakeDir ''/config/ultrahand/assets'', MakeDir icon_dir]"

section \<open>Posting\<close>

text \<open>\<open>counter\<close> is \<open>s_counter\<close>; the result is the path, the JSON and the counter.\<close>

definition font_size_for :: "bool \<Rightarrow> i32 \<Rightarrow> nat \<Rightarrow> i32" where
  "font_size_for dynamic fixed_size len =
     (if dynamic then (if 90 < len then of_nat (max 16 (24 * 90 div len)) else 24) else fixed_size)"

definition notify_path :: "i32 \<Rightarrow> string \<Rightarrow> string \<Rightarrow> string \<times> i32" where
  "notify_path counter app_id i =
     (let uid = sanitize_filename i;
          (uid, counter) = (if uid = [] then (to_string counter, counter + 1) else (uid, counter))
      in (notify_dir @ ''/'' @ app_id @ ''-'' @ uid @ ''.notify'', counter))"

definition notify_json :: "plugin_env \<Rightarrow> string \<Rightarrow> string \<Rightarrow> i32 \<Rightarrow> json_body" where
  "notify_json E title text_body duration =
     (let Y = pv_yy E
      in set_int Y ''font_size'' (font_size_for (pv_bool E NotificationDynamicFontSize) (pv_int E NotificationFontSize) (length text_body))
           (set_str Y ''alignment'' ''left''
             (set_str Y ''split_type'' ''word''
               (set_str Y ''show_time'' (if pv_bool E NotificationShowTime then ''true'' else ''false'')
                 (set_int Y ''duration'' duration
                   (set_str Y ''text'' text_body (set_str Y ''title'' title jb_empty)))))))"

definition post_notification_file ::
    "plugin_env \<Rightarrow> 'fs nxfs \<Rightarrow> string \<Rightarrow> string \<Rightarrow> string \<Rightarrow> string \<Rightarrow> i32 \<Rightarrow> i32 \<times> 'fs \<Rightarrow> i32 \<times> 'fs" where
  "post_notification_file E F app_id title text_body i duration s =
     (case s of (counter, fs) \<Rightarrow>
        (case notify_path counter app_id i of (path, counter) \<Rightarrow>
           (counter, snd (write_file F path (jb_dump_indent (pv_yy E) 2 (notify_json E title text_body duration)) fs))))"

text \<open>Title and text by the style setting; 0xC2 0xB7 is a middle dot in UTF-8.\<close>

definition dot_sep :: string where "dot_sep = [CHR '' '', CHR 0xC2, CHR 0xB7, CHR '' '']"

definition styled :: "i32 \<Rightarrow> string \<Rightarrow> string \<Rightarrow> string \<Rightarrow> string \<times> string" where
  "styled style app title text_body =
     (if style = style_val AppName_Title then (app, title)
      else if style = style_val Title_Body then (if title = [] then app else title, text_body)
      else if style = style_val TitleAppName_Body then (if title = [] then app else title @ dot_sep @ app, text_body)
      else if style = style_val AppNameTitle_Body then (if title = [] then app else app @ dot_sep @ title, text_body)
      else (app, if title \<noteq> [] \<and> text_body \<noteq> [] then title @ '': '' @ text_body
                 else if title \<noteq> [] then title else text_body))"

definition post_app_notification :: "plugin_env \<Rightarrow> string \<Rightarrow> string \<Rightarrow> string \<Rightarrow> string \<Rightarrow> string \<Rightarrow> peffect list" where
  "post_app_notification E i app title text_body icon_hash =
     (let app_id = (if pv_bool E NotificationShowIcon \<and> icon_hash \<noteq> [] then kAppId @ ''_'' @ icon_hash else kAppId);
          (post_title, post_body) = styled (pv_int E NotificationStyle_key) app title text_body
      in [Post app_id post_title post_body i (pv_int E NotificationDuration)])"

section \<open>The caches\<close>

record posted_entry =
  has_icon :: bool
  post_time :: string
  posted_at :: i64

record notifications =
  app_icons :: "(string, string) umap"
  posted_ids :: "(string, posted_entry) umap"

definition new_notifications :: notifications where
  "new_notifications = \<lparr>app_icons = [], posted_ids = []\<rparr>"

text \<open>A full map makes room by erasing \<open>begin()\<close>, an entry the C++ leaves open: here the first.\<close>

definition remember_icon :: "string \<times> string \<Rightarrow> (string, string) umap \<Rightarrow> (string, string) umap" where
  "remember_icon p m =
     (let m = (if kMaxAppIconHashes \<le> length m \<and> \<not> um_contains (fst p) m then tl m else m)
      in AList.update (fst p) (snd p) m)"

definition remember_posted :: "string \<times> posted_entry \<Rightarrow> (string, posted_entry) umap \<Rightarrow> (string, posted_entry) umap" where
  "remember_posted p m =
     (let m = (if kMaxPostedIds \<le> length m
               then AList.delete (fst (oldest_from (hd m) (\<lambda>e. sint (posted_at e)) (tl m))) m else m)
      in AList.update (fst p) (snd p) m)"

section \<open>Icons\<close>

text \<open>The temporary PNG is downloaded, decoded by \<open>decode_icon\<close> and deleted.\<close>

definition write_app_icon :: "plugin_env \<Rightarrow> string \<Rightarrow> network_packet \<Rightarrow> peffect list" where
  "write_app_icon E icon_hash np =
     (if pv_exists E (icon_path icon_hash) then []
      else if \<not> pv_download_ok E then [Download np (icon_path_png icon_hash)]
      else [Download np (icon_path_png icon_hash), DecodeIcon icon_hash])"

section \<open>Receiving\<close>

definition notify_supported :: "string list" where "notify_supported = [Notification]"
definition notify_outgoing :: "string list" where "notify_outgoing = [NotificationRequest]"

definition request_active_notifications :: "plugin_env \<Rightarrow> peffect list" where
  "request_active_notifications E =
     [SendPacket ((new_packet NotificationRequest)\<lparr>pkt_body := set_bool (pv_yy E) ''request'' True jb_empty\<rparr>)]"

definition notify_connected :: "plugin_env \<Rightarrow> bool \<Rightarrow> peffect list" where
  "notify_connected E is_paired = (if is_paired then request_active_notifications E else [])"

text \<open>The icon of a packet: its own hash, remembered for the application, or the remembered one.\<close>

definition icon_for :: "string \<Rightarrow> string \<Rightarrow> notifications \<Rightarrow> string \<times> notifications" where
  "icon_for app hash st =
     (if hash = [] then (case map_of (app_icons st) app of Some h \<Rightarrow> h | None \<Rightarrow> [], st)
      else (hash, st\<lparr>app_icons := remember_icon (app, hash) (app_icons st)\<rparr>))"

text \<open>The debouncing: \<open>None\<close> when the packet repeats a notification.\<close>

definition note_posted ::
    "i64 \<Rightarrow> string \<Rightarrow> string \<Rightarrow> string \<Rightarrow> notifications \<Rightarrow> (notifications \<times> peffect list) option" where
  "note_posted now i time icon_hash st =
     (if i = [] then Some (st, [])
      else
        (let fresh = Some (st\<lparr>posted_ids := remember_posted (i, \<lparr>has_icon = icon_hash \<noteq> [], post_time = time, posted_at = now\<rparr>)
                                 (posted_ids st)\<rparr>, [])
         in case map_of (posted_ids st) i of
              None \<Rightarrow> fresh
            | Some e \<Rightarrow>
                if post_time e = time \<and> sint (now - posted_at e) < 2000000000 then
                  (if has_icon e \<or> icon_hash = [] then None
                   else
                     (let uid = sanitize_filename i
                      in Some (st\<lparr>posted_ids := AList.update i (e\<lparr>has_icon := True\<rparr>) (posted_ids st)\<rparr>,
                           if uid \<noteq> [] then [RemoveFile (notify_dir @ ''/'' @ kAppId @ ''-'' @ uid @ ''.notify'')] else [])))
                else fresh))"

definition notify_received ::
    "plugin_env \<Rightarrow> notifications \<Rightarrow> network_packet \<Rightarrow> bool \<times> notifications \<times> peffect list" where
  "notify_received E st np =
     (let Y = pv_yy E; b = pkt_body np
      in if pkt_type np \<noteq> Notification then (False, st, [])
         else if jb_value_bool Y b ''isCancel'' False then
           (True, st\<lparr>posted_ids := AList.delete (jb_value_str Y b ''id'' []) (posted_ids st)\<rparr>, [])
         else
           (let silent = jb_value_bool Y b ''silent'' False;
                app = jb_value_str Y b ''appName'' ''Unknown'';
                title = jb_value_str Y b ''title'' [];
                text_body = jb_value_str Y b ''text'' [];
                i = jb_value_str Y b ''id'' [];
                time = jb_value_str Y b ''time'' [];
                (icon_hash, st) = icon_for app (jb_value_str Y b ''payloadHash'' []) st;
                es1 = (if has_payload np \<and> icon_hash \<noteq> [] then write_app_icon E icon_hash np else [])
            in case note_posted (pv_now E) i time icon_hash st of
                 None \<Rightarrow> (True, st, es1)
               | Some (st, es2) \<Rightarrow>
                   if silent then (True, st, es1 @ es2)
                   else if \<not> pv_bool E NotificationShowRemoteMessages then (True, st, es1 @ es2)
                   else if \<not> pv_exists E notify_flag then (True, st, es1 @ es2)
                   else if \<not> pv_awake E then (True, st, es1 @ es2)
                   else (True, st, es1 @ es2 @ post_app_notification E i app title text_body icon_hash)))"

section \<open>Lemmas\<close>

lemma um_wf_tl: "um_wf m \<Longrightarrow> um_wf (tl m)"
  by (cases m) (auto simp: um_wf_def)

text \<open>Both caches are bounded stores.\<close>

interpretation icons: bounded_store um_wf length kMaxAppIconHashes remember_icon
  "\<lambda>p m. map_of m (fst p) = Some (snd p)"
  by unfold_locales
    (auto simp: remember_icon_def Let_def um_wf_tl length_update kMaxAppIconHashes_def)

lemma remember_posted_size:
  assumes "um_wf m" "length m \<le> kMaxPostedIds"
  shows "length (remember_posted p m) \<le> kMaxPostedIds"
proof (cases "kMaxPostedIds \<le> length m")
  case True
  then have ne: "m \<noteq> []" by (auto simp: kMaxPostedIds_def)
  let ?k = "fst (oldest_from (hd m) (\<lambda>e. sint (posted_at e)) (tl m))"
  have "um_contains ?k m"
    using oldest_from_mem [of "hd m" "\<lambda>e. sint (posted_at e)" "tl m"] ne by (cases m) (auto simp: um_contains_iff)
  then have "length (AList.delete ?k m) < length m" by (rule length_delete_less)
  then show ?thesis using True assms(2) by (simp add: remember_posted_def length_update)
next
  case False
  then show ?thesis by (simp add: remember_posted_def length_update)
qed

lemma remember_posted_wf: "um_wf m \<Longrightarrow> um_wf (remember_posted p m)"
  by (simp add: remember_posted_def Let_def)

lemma remember_posted_stored: "map_of (remember_posted p m) (fst p) = Some (snd p)"
  by (simp add: remember_posted_def Let_def)

interpretation posted: bounded_store um_wf length kMaxPostedIds remember_posted
  "\<lambda>p m. map_of m (fst p) = Some (snd p)"
  using remember_posted_wf remember_posted_size remember_posted_stored by unfold_locales

lemma sanitize_safe: "c \<in> set (sanitize_filename s) \<Longrightarrow> is_alnum c \<or> c = CHR ''-'' \<or> c = CHR ''_''"
  by (auto simp: sanitize_filename_def split: if_splits)

section \<open>Repeated notifications\<close>

fun posts :: "peffect list \<Rightarrow> (string \<times> string \<times> string) list" where
  "posts [] = []"
| "posts (Post app title text_body i d # es) = (title, text_body, i) # posts es"
| "posts (_ # es) = posts es"

lemma posts_append [simp]: "posts (es @ fs) = posts es @ posts fs"
  by (induction es rule: posts.induct) auto

lemma posts_icon [simp]: "posts (write_app_icon E h np) = []"
  by (simp add: write_app_icon_def)

fun notify_run :: "(plugin_env \<times> network_packet) list \<Rightarrow> notifications \<Rightarrow> notifications \<times> peffect list" where
  "notify_run [] st = (st, [])"
| "notify_run ((E, np) # ps) st =
     (case notify_received E st np of (_, st, es) \<Rightarrow>
        case notify_run ps st of (st, fs) \<Rightarrow> (st, es @ fs))"

text \<open>What a notification shows when it is posted, if the settings and the console let it.\<close>

definition shown_notification :: "plugin_env \<Rightarrow> network_packet \<Rightarrow> (string \<times> string \<times> string) list" where
  "shown_notification E np =
     (let Y = pv_yy E; b = pkt_body np;
          (title, text_body) = styled (pv_int E NotificationStyle_key) (jb_value_str Y b ''appName'' ''Unknown'')
             (jb_value_str Y b ''title'' []) (jb_value_str Y b ''text'' [])
      in if \<not> jb_value_bool Y b ''silent'' False \<and> pv_bool E NotificationShowRemoteMessages \<and>
            pv_exists E notify_flag \<and> pv_awake E
         then [(title, text_body, jb_value_str Y b ''id'' [])] else [])"

lemma posts_app [simp]:
  "posts (post_app_notification E i app title text_body h) =
     (case styled (pv_int E NotificationStyle_key) app title text_body of (t, b) \<Rightarrow> [(t, b, i)])"
  by (simp add: post_app_notification_def Let_def split: prod.splits)

lemma icon_for_again:
  "icon_for app h st = (ih, st') \<Longrightarrow> icon_for app h (st'\<lparr>posted_ids := m\<rparr>) = (ih, st'\<lparr>posted_ids := m\<rparr>)"
  by (auto simp: icon_for_def remember_icon_def Let_def um_contains_def update_triv split: if_splits option.splits)

lemma icon_for_posted: "icon_for app h st = (ih, st') \<Longrightarrow> posted_ids st' = posted_ids st"
  by (auto simp: icon_for_def split: if_splits)

text \<open>A new notification is remembered and shown; a repetition leaves everything as it is.\<close>

lemma received_new:
  assumes "notify_received E st np = (r, st1, es)"
    and "pkt_type np = Notification" "\<not> jb_value_bool (pv_yy E) (pkt_body np) ''isCancel'' False"
    and "jb_value_str (pv_yy E) (pkt_body np) ''id'' [] = i" "i \<noteq> []" "map_of (posted_ids st) i = None"
    and "icon_for (jb_value_str (pv_yy E) (pkt_body np) ''appName'' ''Unknown'')
           (jb_value_str (pv_yy E) (pkt_body np) ''payloadHash'' []) st = (ih, st')"
  shows "st1 = st'\<lparr>posted_ids := remember_posted (i, \<lparr>has_icon = ih \<noteq> [],
             post_time = jb_value_str (pv_yy E) (pkt_body np) ''time'' [], posted_at = pv_now E\<rparr>) (posted_ids st)\<rparr> \<and>
    posts es = shown_notification E np"
proof -
  have none: "map_of (posted_ids st') i = None" and same: "posted_ids st' = posted_ids st"
    using icon_for_posted [OF assms(7)] assms(6) by auto
  show ?thesis
    using assms(1-5,7) none same
    by (auto simp: notify_received_def Let_def note_posted_def shown_notification_def split: if_splits prod.splits)
qed

lemma received_again:
  assumes "pkt_type np = Notification" "\<not> jb_value_bool (pv_yy E) (pkt_body np) ''isCancel'' False"
    and "jb_value_str (pv_yy E) (pkt_body np) ''id'' [] = i" "i \<noteq> []"
    and "map_of (posted_ids st) i = Some e" "post_time e = jb_value_str (pv_yy E) (pkt_body np) ''time'' []"
    and "sint (pv_now E - posted_at e) < 2000000000" "has_icon e \<or> ih = []"
    and "icon_for (jb_value_str (pv_yy E) (pkt_body np) ''appName'' ''Unknown'')
           (jb_value_str (pv_yy E) (pkt_body np) ''payloadHash'' []) st = (ih, st)"
  shows "\<exists>es. notify_received E st np = (True, st, es) \<and> posts es = []"
  using assms by (auto simp: notify_received_def Let_def note_posted_def)

lemma run_again:
  assumes "\<forall>E\<in>set Es. \<exists>es. notify_received E st np = (True, st, es) \<and> posts es = []"
    and "notify_run (map (\<lambda>E. (E, np)) Es) st = (st', es)"
  shows "st' = st \<and> posts es = []"
  using assms
proof (induction Es arbitrary: es st')
  case (Cons E Es)
  obtain es1 where e: "notify_received E st np = (True, st, es1)" "posts es1 = []" using Cons.prems(1) by auto
  obtain st2 es2 where r: "notify_run (map (\<lambda>E. (E, np)) Es) st = (st2, es2)" by fastforce
  have "st2 = st \<and> posts es2 = []" using Cons.IH [OF _ r] Cons.prems(1) by auto
  then show ?case using Cons.prems(2) e r by auto
qed simp

lemma repeats_posts_once:
  assumes "pkt_type np = Notification" "\<not> jb_value_bool (pv_yy E) (pkt_body np) ''isCancel'' False"
    and "jb_value_str (pv_yy E) (pkt_body np) ''id'' [] = i" "i \<noteq> []" "map_of (posted_ids st) i = None"
    and "um_wf (posted_ids st)" "length (posted_ids st) \<le> kMaxPostedIds"
    and "\<forall>E'\<in>set Es. pv_yy E' = pv_yy E \<and> sint (pv_now E' - pv_now E) < 2000000000"
    and "notify_run ((E, np) # map (\<lambda>E'. (E', np)) Es) st = (st', es)"
  shows "posts es = shown_notification E np \<and> um_contains i (posted_ids st') \<and> length (posted_ids st') \<le> kMaxPostedIds"
proof -
  obtain ih stI where ic: "icon_for (jb_value_str (pv_yy E) (pkt_body np) ''appName'' ''Unknown'')
      (jb_value_str (pv_yy E) (pkt_body np) ''payloadHash'' []) st = (ih, stI)" by fastforce
  obtain r st1 es1 where r1: "notify_received E st np = (r, st1, es1)" by (metis surj_pair)
  define e where "e = \<lparr>has_icon = ih \<noteq> [], post_time = jb_value_str (pv_yy E) (pkt_body np) ''time'' [], posted_at = pv_now E\<rparr>"
  have st1: "st1 = stI\<lparr>posted_ids := remember_posted (i, e) (posted_ids st)\<rparr>" "posts es1 = shown_notification E np"
    using received_new [OF r1 assms(1-5) ic] by (simp_all add: e_def)
  have m: "map_of (posted_ids st1) i = Some e"
    using posted.stored_put [OF assms(6,7), of "(i, e)"] by (simp add: st1)
  have again: "\<forall>E'\<in>set Es. \<exists>fs. notify_received E' st1 np = (True, st1, fs) \<and> posts fs = []"
  proof
    fix E' assume "E' \<in> set Es"
    then have E': "pv_yy E' = pv_yy E" "sint (pv_now E' - pv_now E) < 2000000000" using assms(8) by auto
    show "\<exists>fs. notify_received E' st1 np = (True, st1, fs) \<and> posts fs = []"
      using received_again [of np E' i st1 e ih] assms(1-4) m E' icon_for_again [OF ic] by (simp add: e_def st1(1))
  qed
  obtain st2 es2 where r2: "notify_run (map (\<lambda>E'. (E', np)) Es) st1 = (st2, es2)" by fastforce
  have "st' = st1" "es = es1 @ es2" using assms(9) r1 r2 run_again [OF again r2] by auto
  then show ?thesis
    using run_again [OF again r2] st1(2) m posted.count_put [OF assms(6,7), of "(i, e)"]
    by (simp add: um_contains_def st1(1))
qed

text \<open>
  C28: a notification is shown once. When a notification the plugin does not remember arrives and
  the same packet comes again, any number of times within two seconds, exactly one notification is
  posted, the one the first packet shows under the settings of that moment (none if it is silent or
  switched off), and the memory stays within its ten entries.
\<close>

theorem notification_is_shown_once:
  assumes "pkt_type np = Notification" "\<not> jb_value_bool (pv_yy E) (pkt_body np) ''isCancel'' False"
    and "jb_value_str (pv_yy E) (pkt_body np) ''id'' [] \<noteq> []"
    and "map_of (posted_ids st) (jb_value_str (pv_yy E) (pkt_body np) ''id'' []) = None"
    and "um_wf (posted_ids st)" "length (posted_ids st) \<le> kMaxPostedIds"
    and "\<forall>E'\<in>set Es. pv_yy E' = pv_yy E \<and> sint (pv_now E' - pv_now E) < 2000000000"
    and "notify_run ((E, np) # map (\<lambda>E'. (E', np)) Es) st = (st', es)"
  shows "posts es = shown_notification E np \<and> length (posted_ids st') \<le> kMaxPostedIds"
  using repeats_posts_once [OF assms(1,2) refl assms(3-8)] by simp

definition demo_notification :: network_packet where
  "demo_notification = (new_packet Notification)\<lparr>pkt_body :=
     JObj [(''id'', JStr ''n1''), (''appName'', JStr ''Mail''), (''title'', JStr ''Hello''), (''time'', JStr ''7'')]\<rparr>"

theorem notification_is_shown_once_witness:
  "posts (snd (notify_run (replicate 3 (demo_env, demo_notification)) new_notifications)) =
     [(''Mail'', ''Hello'', ''n1'')]"
proof -
  obtain st es where r: "notify_run (replicate 3 (demo_env, demo_notification)) new_notifications = (st, es)" by fastforce
  then have r3: "notify_run ((demo_env, demo_notification) # map (\<lambda>E'. (E', demo_notification)) [demo_env, demo_env])
      new_notifications = (st, es)" by (simp add: numeral_3_eq_3)
  have f: "pkt_type demo_notification = Notification"
    "\<not> jb_value_bool yy_ref (pkt_body demo_notification) ''isCancel'' False"
    "jb_value_str yy_ref (pkt_body demo_notification) ''id'' [] = ''n1''"
    "jb_value_str yy_ref (pkt_body demo_notification) ''title'' [] = ''Hello''"
    "jb_value_str yy_ref (pkt_body demo_notification) ''appName'' ''Unknown'' = ''Mail''"
    "jb_value_str yy_ref (pkt_body demo_notification) ''text'' [] = []"
    "\<not> jb_value_bool yy_ref (pkt_body demo_notification) ''silent'' False"
    by (simp_all add: demo_notification_def jb_defs field_JObj c_str_def)
  have "shown_notification demo_env demo_notification = [(''Mail'', ''Hello'', ''n1'')]"
    using f by (simp add: shown_notification_def styled_def style_val_def Let_def)
  then show ?thesis
    using notification_is_shown_once [OF _ _ _ _ _ _ _ r3] f r by (simp add: new_notifications_def)
qed

end
