(* ===== verification/Plugin_Registry.thy ===== *)
theory Plugin_Registry
  imports Plugin_Media Plugin_Notify Payload
begin

text \<open>
  \<open>plugin_registry.cpp\<close>: the nine plugins of a session as one type, the virtual functions of
  \<open>plugin.h\<close> by cases over it, the state the plugins of all sessions share, and the lists of packet
  types the device announces.
\<close>

section \<open>One type for the plugins\<close>

datatype plugin =
    PingPlugin u32 | BatteryPlugin battery | NotificationPlugin notifications | FindMyPhonePlugin
  | MprisPlugin mpris | SystemVolumePlugin volume_state | SharePlugin u32 | RunCommandPlugin run_command
  | MousepadPlugin

datatype plugin_kind = KPing | KBattery | KNotification | KFind | KMpris | KVolume | KShare | KCommand | KMousepad

fun kind_of :: "plugin \<Rightarrow> plugin_kind" where
  "kind_of (PingPlugin _) = KPing"
| "kind_of (BatteryPlugin _) = KBattery"
| "kind_of (NotificationPlugin _) = KNotification"
| "kind_of FindMyPhonePlugin = KFind"
| "kind_of (MprisPlugin _) = KMpris"
| "kind_of (SystemVolumePlugin _) = KVolume"
| "kind_of (SharePlugin _) = KShare"
| "kind_of (RunCommandPlugin _) = KCommand"
| "kind_of MousepadPlugin = KMousepad"

text \<open>
  The static variables: whether the album art was cleared and its queue, the pending links, the
  album file system, the hiddbg service, and the hint about the mouse.
\<close>

record plugin_statics =
  st_cleared :: bool
  st_lru :: "string list"
  st_urls :: "string list"
  st_album :: bool
  st_hid :: hiddbg
  st_hint :: bool

definition new_statics :: plugin_statics where
  "new_statics = \<lparr>st_cleared = False, st_lru = [], st_urls = [], st_album = False, st_hid = hiddbg_init, st_hint = False\<rparr>"

fun plugin_supported :: "plugin_kind \<Rightarrow> string list" where
  "plugin_supported KPing = ping_supported"
| "plugin_supported KBattery = battery_supported"
| "plugin_supported KNotification = notify_supported"
| "plugin_supported KFind = find_supported"
| "plugin_supported KMpris = mpris_supported"
| "plugin_supported KVolume = volume_supported"
| "plugin_supported KShare = share_supported"
| "plugin_supported KCommand = command_supported"
| "plugin_supported KMousepad = mousepad_supported"

fun plugin_outgoing :: "plugin_kind \<Rightarrow> string list" where
  "plugin_outgoing KPing = ping_outgoing"
| "plugin_outgoing KBattery = battery_outgoing"
| "plugin_outgoing KNotification = notify_outgoing"
| "plugin_outgoing KFind = find_outgoing"
| "plugin_outgoing KMpris = mpris_outgoing"
| "plugin_outgoing KVolume = volume_outgoing"
| "plugin_outgoing KShare = share_outgoing"
| "plugin_outgoing KCommand = command_outgoing"
| "plugin_outgoing KMousepad = mousepad_outgoing"

section \<open>The virtual functions\<close>

text \<open>What \<open>on_create\<close> finds: the icon and album art directories, and whether hiddbg opens.\<close>

record create_env =
  ce_icons :: "string list option"
  ce_arts :: "string list option"
  ce_hid_ok :: bool

fun plugin_created :: "create_env \<Rightarrow> plugin \<Rightarrow> plugin_statics \<Rightarrow> plugin_statics \<times> peffect list" where
  "plugin_created e (NotificationPlugin _) g = (g, notify_created (ce_icons e))"
| "plugin_created e (MprisPlugin _) g =
     (case mpris_created (ce_arts e) (st_cleared g, st_lru g) of
        ((cleared, lru), es) \<Rightarrow> (g\<lparr>st_cleared := cleared, st_lru := lru\<rparr>, es))"
| "plugin_created e MousepadPlugin g = (g\<lparr>st_hid := hiddbg_retain (ce_hid_ok e) (st_hid g)\<rparr>, [])"
| "plugin_created e _ g = (g, [])"

fun plugin_greets :: "plugin_env \<Rightarrow> bool \<Rightarrow> plugin \<Rightarrow> plugin \<times> peffect list" where
  "plugin_greets E is_paired (BatteryPlugin b) = (case battery_connected E is_paired b of (b, es) \<Rightarrow> (BatteryPlugin b, es))"
| "plugin_greets E is_paired (NotificationPlugin n) = (NotificationPlugin n, notify_connected E is_paired)"
| "plugin_greets E is_paired (MprisPlugin m) = (MprisPlugin m, mpris_connected E is_paired)"
| "plugin_greets E is_paired (SystemVolumePlugin v) = (SystemVolumePlugin v, volume_connected E is_paired)"
| "plugin_greets E is_paired (RunCommandPlugin c) = (RunCommandPlugin c, command_connected E is_paired)"
| "plugin_greets E is_paired MousepadPlugin = (MousepadPlugin, mousepad_connected E is_paired)"
| "plugin_greets E is_paired p = (p, [])"

text \<open>The base class answers false.\<close>

fun plugin_received ::
    "plugin_env \<Rightarrow> plugin \<Rightarrow> network_packet \<Rightarrow> plugin_statics \<Rightarrow> bool \<times> plugin \<times> plugin_statics \<times> peffect list" where
  "plugin_received E (PingPlugin n) np g = (case ping_received E n np of (r, n, es) \<Rightarrow> (r, PingPlugin n, g, es))"
| "plugin_received E (BatteryPlugin b) np g = (case battery_received E b np of (r, b, es) \<Rightarrow> (r, BatteryPlugin b, g, es))"
| "plugin_received E (NotificationPlugin n) np g =
     (case notify_received E n np of (r, n, es) \<Rightarrow> (r, NotificationPlugin n, g, es))"
| "plugin_received E FindMyPhonePlugin np g = (False, FindMyPhonePlugin, g, [])"
| "plugin_received E (MprisPlugin m) np g =
     (case mpris_received E (m, st_lru g) np of (r, (m, lru), es) \<Rightarrow> (r, MprisPlugin m, g\<lparr>st_lru := lru\<rparr>, es))"
| "plugin_received E (SystemVolumePlugin v) np g =
     (case volume_received E v np of (r, v, es) \<Rightarrow> (r, SystemVolumePlugin v, g, es))"
| "plugin_received E (SharePlugin n) np g =
     (case share_received E \<lparr>notification_id = n, pending_urls = st_urls g\<rparr> np of
        (r, st, es) \<Rightarrow> (r, SharePlugin (notification_id st), g\<lparr>st_urls := pending_urls st\<rparr>, es))"
| "plugin_received E (RunCommandPlugin c) np g =
     (case command_received E c np of (r, c, es) \<Rightarrow> (r, RunCommandPlugin c, g, es))"
| "plugin_received E MousepadPlugin np g =
     (case mousepad_received E (st_hint g) np of (r, hint, es) \<Rightarrow> (r, MousepadPlugin, g\<lparr>st_hint := hint\<rparr>, es))"

fun plugin_polls :: "plugin_env \<Rightarrow> plugin \<Rightarrow> plugin_statics \<Rightarrow> plugin \<times> plugin_statics \<times> peffect list" where
  "plugin_polls E (BatteryPlugin b) g = (case battery_process E b of (b, es) \<Rightarrow> (BatteryPlugin b, g, es))"
| "plugin_polls E (SharePlugin n) g =
     (case open_pending_url \<lparr>notification_id = n, pending_urls = st_urls g\<rparr> of
        (_, st) \<Rightarrow> (SharePlugin (notification_id st), g\<lparr>st_urls := pending_urls st\<rparr>, []))"
| "plugin_polls E p g = (p, g, [])"

section \<open>The registry\<close>

definition new_plugins :: "plugin list" where
  "new_plugins =
     [PingPlugin 0, BatteryPlugin new_battery, NotificationPlugin new_notifications, FindMyPhonePlugin,
      MprisPlugin new_mpris, SystemVolumePlugin new_volume_state, SharePlugin 0, RunCommandPlugin [], MousepadPlugin]"

fun add_plugins ::
    "create_env \<Rightarrow> plugin list \<Rightarrow> plugin list \<times> plugin_statics \<times> peffect list \<Rightarrow>
     plugin list \<times> plugin_statics \<times> peffect list" where
  "add_plugins e [] s = s"
| "add_plugins e (p # ps) (out, g, es) =
     (case plugin_created e p g of (g, fs) \<Rightarrow> add_plugins e ps (out @ [p], g, es @ fs))"

definition instantiate_plugins ::
    "create_env \<Rightarrow> plugin list \<times> plugin_statics \<Rightarrow> plugin list \<times> plugin_statics \<times> peffect list" where
  "instantiate_plugins e s = (case s of (out, g) \<Rightarrow> add_plugins e new_plugins (out, g, []))"

text \<open>
  The lists are filled once, from plugins made for the purpose: their \<open>on_create\<close> runs, their
  \<open>on_destroy\<close> does not.
\<close>

definition load_supported_types ::
    "create_env \<Rightarrow> (string list \<times> string list) \<times> plugin_statics \<Rightarrow>
     (string list \<times> string list) \<times> plugin_statics \<times> peffect list" where
  "load_supported_types e s =
     (case s of ((caps, caps_out), g) \<Rightarrow>
        if caps = [] \<and> caps_out = [] then
          (case instantiate_plugins e ([], g) of (ps, g, es) \<Rightarrow>
             ((concat (map (\<lambda>p. plugin_supported (kind_of p)) ps),
               concat (map (\<lambda>p. plugin_outgoing (kind_of p)) ps)), g, es))
        else ((caps, caps_out), g, []))"

text \<open>The device info a start announces, with the lists loaded.\<close>

definition announced_device :: "create_env \<Rightarrow> string \<Rightarrow> plugin_statics \<Rightarrow> device_info" where
  "announced_device e hostname g =
     (case load_supported_types e (([], []), g) of ((caps, caps_out), _) \<Rightarrow>
        load_or_create_local_device hostname caps caps_out)"

section \<open>What can happen to a session's plugins\<close>

text \<open>
  The calls into plugin \<open>i\<close>: the two loops of the client, the poll of the main thread, and what the
  user asks for through the overlay.
\<close>

datatype user_request =
    UPing string | UFind | UPlayers | UStatus string | UAction string string | UVolume string i32
  | USeek string i64 | UPosition string i64 | USink string i32 bool bool | UCommand string | UCommands
  | UNotifications | UScreenshot shot_env

datatype plugin_call = Greet bool | Packet network_packet | Poll | User user_request

text \<open>The plugin type a request is made to: \<open>session->plugin<T>()\<close>.\<close>

fun mpris_call :: "plugin_env \<Rightarrow> user_request \<Rightarrow> mpris \<Rightarrow> mpris \<times> peffect list" where
  "mpris_call E UPlayers m = (m, request_player_list E)"
| "mpris_call E (UStatus p) m = (m, request_status E p)"
| "mpris_call E (UAction p a) m = (m, send_action E p a)"
| "mpris_call E (UVolume p v) m = (m, set_volume E p v)"
| "mpris_call E (USeek p t) m = (m, seek_by E p t)"
| "mpris_call E (UPosition p t) m = set_position E p t m"
| "mpris_call E _ m = (m, [])"

definition user_call :: "plugin_env \<Rightarrow> user_request \<Rightarrow> plugin \<Rightarrow> plugin_statics \<Rightarrow> plugin \<times> plugin_statics \<times> peffect list" where
  "user_call E u p g =
     (case p of
        PingPlugin n \<Rightarrow> (p, g, case u of UPing msg \<Rightarrow> send_ping E msg | _ \<Rightarrow> [])
      | FindMyPhonePlugin \<Rightarrow> (p, g, case u of UFind \<Rightarrow> find_phone | _ \<Rightarrow> [])
      | MprisPlugin m \<Rightarrow> (case mpris_call E u m of (m, es) \<Rightarrow> (MprisPlugin m, g, es))
      | SystemVolumePlugin st \<Rightarrow> (p, g, case u of USink s v mu df \<Rightarrow> set_remote_sink E st s v mu df | _ \<Rightarrow> [])
      | RunCommandPlugin c \<Rightarrow>
          (p, g, case u of UCommand k \<Rightarrow> run_remote_command E k | UCommands \<Rightarrow> send_local_command_list E | _ \<Rightarrow> [])
      | NotificationPlugin n \<Rightarrow> (p, g, case u of UNotifications \<Rightarrow> request_active_notifications E | _ \<Rightarrow> [])
      | SharePlugin n \<Rightarrow>
          (case u of
             UScreenshot e \<Rightarrow>
               (case send_screenshot (pv_yy E) e (st_album g, st_hid g) of
                  ((album, h), r) \<Rightarrow>
                    (p, g\<lparr>st_album := album, st_hid := h\<rparr>, case r of None \<Rightarrow> [] | Some (_, es) \<Rightarrow> es))
           | _ \<Rightarrow> (p, g, []))
      | _ \<Rightarrow> (p, g, []))"

fun plugin_call_on :: "plugin_env \<Rightarrow> plugin_call \<Rightarrow> plugin \<Rightarrow> plugin_statics \<Rightarrow> plugin \<times> plugin_statics \<times> peffect list" where
  "plugin_call_on E (Greet is_paired) p g = (case plugin_greets E is_paired p of (p, es) \<Rightarrow> (p, g, es))"
| "plugin_call_on E (Packet np) p g = (case plugin_received E p np g of (_, p, g, es) \<Rightarrow> (p, g, es))"
| "plugin_call_on E Poll p g = plugin_polls E p g"
| "plugin_call_on E (User u) p g = user_call E u p g"

fun plugin_calls ::
    "(plugin_env \<times> nat \<times> plugin_call) list \<Rightarrow> plugin list \<times> plugin_statics \<Rightarrow>
     (plugin list \<times> plugin_statics) \<times> peffect list" where
  "plugin_calls [] s = (s, [])"
| "plugin_calls ((E, i, c) # cs) (ps, g) =
     (if i < length ps then
        (case plugin_call_on E c (ps ! i) g of (p, g, es) \<Rightarrow>
           case plugin_calls cs (ps[i := p], g) of (s, fs) \<Rightarrow> (s, es @ fs))
      else plugin_calls cs (ps, g))"

section \<open>Lemmas\<close>

definition sent_types :: "peffect list \<Rightarrow> string set" where
  "sent_types es = pkt_type ` set (sent_packets es)"

lemma sent_types_simps [simp]:
  "sent_types [] = {}" "sent_types (SendPacket p # es) = insert (pkt_type p) (sent_types es)"
  "sent_types (SendFile p sz # es) = insert (pkt_type p) (sent_types es)"
  "sent_types (Post a b c d e # es) = sent_types es" "sent_types (RemoveFile f # es) = sent_types es"
  "sent_types (Download p f # es) = sent_types es" "sent_types (SetSystemVolume v # es) = sent_types es"
  "sent_types (Action act # es) = sent_types es" "sent_types (SetLayout l # es) = sent_types es"
  "sent_types (PressKey rep # es) = sent_types es" "sent_types (DecodeIcon h # es) = sent_types es"
  "sent_types (MakeDir h # es) = sent_types es"
  "sent_types (es @ fs) = sent_types es \<union> sent_types fs"
  by (auto simp: sent_types_def)

lemma sent_types_keys [simp]: "sent_types (map PressKey ks) = {}" "sent_types (map (\<lambda>h. RemoveFile (f h)) hs) = {}"
  by (induction ks, simp_all) (induction hs, simp_all)

lemma pkt_type_new [simp]: "pkt_type (new_packet t) = t" "pkt_type (p\<lparr>pkt_body := b\<rparr>) = pkt_type p"
  by (simp_all add: new_packet_def)

text \<open>What each plugin sends.\<close>

lemma ping_sends:
  "ping_received E n np = (r, n', es) \<Longrightarrow> sent_types es = {}" "sent_types (send_ping E msg) = {Ping}"
  by (auto simp: ping_received_def Let_def send_ping_def ping_packet_def)

lemma battery_sends:
  "sent_types (send_status E b) \<subseteq> {Battery}"
  "battery_connected E q b = (b', es) \<Longrightarrow> sent_types es \<subseteq> {Battery}"
  "battery_process E b = (b', es) \<Longrightarrow> sent_types es \<subseteq> {Battery}"
  "battery_received E b np = (r, b', es) \<Longrightarrow> sent_types es \<subseteq> {Battery}"
proof -
  show s: "sent_types (send_status E b) \<subseteq> {Battery}" for b
    by (auto simp: send_status_def battery_packet_def split: option.split)
  show "battery_connected E q b = (b', es) \<Longrightarrow> sent_types es \<subseteq> {Battery}"
    by (auto simp: battery_connected_def Let_def split: if_splits option.splits dest: s [THEN subsetD])
  show "battery_process E b = (b', es) \<Longrightarrow> sent_types es \<subseteq> {Battery}"
    by (auto simp: battery_process_def Let_def split: if_splits option.splits dest: s [THEN subsetD])
  show "battery_received E b np = (r, b', es) \<Longrightarrow> sent_types es \<subseteq> {Battery}"
    by (auto simp: battery_received_def Let_def split: if_splits dest: s [THEN subsetD])
qed

lemma notify_sends:
  "sent_types (request_active_notifications E) = {NotificationRequest}"
  "sent_types (notify_connected E q) \<subseteq> {NotificationRequest}"
  "notify_received E n np = (r, n', es) \<Longrightarrow> sent_types es = {}"
proof -
  show "sent_types (request_active_notifications E) = {NotificationRequest}"
    by (simp add: request_active_notifications_def)
  then show "sent_types (notify_connected E q) \<subseteq> {NotificationRequest}"
    by (simp add: notify_connected_def)
  have w: "sent_types (write_app_icon E h p) = {}" for h p by (simp add: write_app_icon_def)
  have a: "sent_types (post_app_notification E i app t b h) = {}" for i app t b h
    by (simp add: post_app_notification_def Let_def split: prod.split)
  have n: "note_posted now i time h st = Some (st', fs) \<Longrightarrow> sent_types fs = {}" for now i time h st st' fs
    by (auto simp: note_posted_def Let_def split: if_splits option.splits)
  show "notify_received E n np = (r, n', es) \<Longrightarrow> sent_types es = {}"
    by (auto simp: notify_received_def Let_def w a n split: if_splits prod.splits option.splits)
qed

lemma mpris_sends:
  "sent_types (mpris_request f) = {MprisRequest}"
  "mpris_received E s np = (r, s', es) \<Longrightarrow> sent_types es \<subseteq> {MprisRequest}"
proof -
  show m: "sent_types (mpris_request f) = {MprisRequest}" for f by (simp add: mpris_request_def)
  have t: "sent_types (snd (lru_touch h l)) = {}" for h l
    by (auto simp: lru_touch_def split: prod.split)
  have d: "sent_types (snd (snd (download_raw E np h l))) = {}" for h l
    using t [of h l] by (auto simp: download_raw_def Let_def split: prod.split)
  have f: "sent_types (snd (fetch_art E np pl l)) \<subseteq> {MprisRequest}" for pl l
    using t [of "album_art_hash pl" l] d [of "album_art_hash pl" l] m by (auto simp: fetch_art_def Let_def)
  have st: "sent_types (request_status E p) = {MprisRequest}" for p by (simp add: request_status_def m)
  show "mpris_received E s np = (r, s', es) \<Longrightarrow> sent_types es \<subseteq> {MprisRequest}"
    using f st unfolding mpris_received_def Let_def
    by (auto split: if_splits prod.splits) (metis snd_conv subsetD singletonD)+
qed

lemma mpris_call_sends: "mpris_call E u m = (m', es) \<Longrightarrow> sent_types es \<subseteq> {MprisRequest}"
  by (cases u) (auto simp: request_player_list_def request_status_def send_action_def set_volume_def seek_by_def
    set_position_def mpris_sends(1))

lemma volume_sends:
  "sent_types (volume_connected E q) \<subseteq> {SystemVolume, SystemVolumeRequest}"
  "sent_types (set_remote_sink E st n v mu df) = {SystemVolumeRequest}"
  "volume_received E st np = (r, st', es) \<Longrightarrow> sent_types es \<subseteq> {SystemVolume}"
proof -
  have s: "sent_types (send_sink_list E) = {SystemVolume}" by (simp add: send_sink_list_def sink_list_packet_def)
  show "sent_types (volume_connected E q) \<subseteq> {SystemVolume, SystemVolumeRequest}"
    by (simp add: volume_connected_def s)
  show "sent_types (set_remote_sink E st n v mu df) = {SystemVolumeRequest}"
    by (simp add: set_remote_sink_def Let_def)
  show "volume_received E st np = (r, st', es) \<Longrightarrow> sent_types es \<subseteq> {SystemVolume}"
    by (auto simp: volume_received_def Let_def s split: if_splits)
qed

lemma share_sends:
  "share_received E st np = (r, st', es) \<Longrightarrow> sent_types es = {}"
  "send_screenshot Y e s = (s', Some (n, es)) \<Longrightarrow> sent_types es = {ShareRequest}"
  by (auto simp: share_received_def post_share_def send_screenshot_def screenshot_packet_def Let_def
      split: if_splits prod.splits)

lemma command_sends:
  "sent_types (send_local_command_list E) = {RunCommand}" "sent_types (run_remote_command E k) = {RunCommandRequest}"
  "sent_types (command_connected E q) \<subseteq> {RunCommand, RunCommandRequest}"
  "command_received E c np = (r, c', es) \<Longrightarrow> sent_types es \<subseteq> {RunCommand}"
proof -
  show l: "sent_types (send_local_command_list E) = {RunCommand}"
    by (simp add: send_local_command_list_def command_packet_def)
  show "sent_types (run_remote_command E k) = {RunCommandRequest}" by (simp add: run_remote_command_def)
  show "sent_types (command_connected E q) \<subseteq> {RunCommand, RunCommandRequest}"
    by (simp add: command_connected_def l request_remote_command_list_def)
  have "sent_types (run_local_command E key) = {}" for key by (simp add: run_local_command_def)
  then show "command_received E c np = (r, c', es) \<Longrightarrow> sent_types es \<subseteq> {RunCommand}"
    using l by (auto simp: command_received_def Let_def split: if_splits)
qed

lemma mousepad_sends:
  "sent_types (mousepad_connected E q) \<subseteq> {MousepadKeyboardState}"
  "mousepad_received E h np = (r, h', es) \<Longrightarrow> sent_types es \<subseteq> {MousepadEcho}"
proof -
  show "sent_types (mousepad_connected E q) \<subseteq> {MousepadKeyboardState}" by (simp add: mousepad_connected_def)
  have "sent_types (inject_key E np) = {}" by (simp add: inject_key_def Let_def)
  then show "mousepad_received E h np = (r, h', es) \<Longrightarrow> sent_types es \<subseteq> {MousepadEcho}"
    by (auto simp: mousepad_received_def Let_def echo_packet_def split: if_splits)
qed

lemmas plugin_sends = ping_sends battery_sends notify_sends mpris_sends(2) mpris_call_sends volume_sends share_sends
  command_sends mousepad_sends

lemmas outgoing_defs = ping_outgoing_def battery_outgoing_def notify_outgoing_def find_outgoing_def mpris_outgoing_def
  volume_outgoing_def share_outgoing_def command_outgoing_def mousepad_outgoing_def

text \<open>A call keeps the plugin's type and sends only packets of the types the plugin names.\<close>

lemma greets_ok:
  assumes "plugin_greets E q p = (p', es)"
  shows "kind_of p' = kind_of p \<and> sent_types es \<subseteq> set (plugin_outgoing (kind_of p))"
  using assms plugin_sends(4) [of E q] notify_sends(2) [of E q] volume_sends(1) [of E q] command_sends(3) [of E q] mousepad_sends(1) [of E q]
  by (cases p) (auto simp: outgoing_defs mpris_connected_def request_player_list_def mpris_sends(1) split: prod.splits if_splits)

lemma received_ok:
  assumes "plugin_received E p np g = (r, p', g', es)"
  shows "kind_of p' = kind_of p \<and> sent_types es \<subseteq> set (plugin_outgoing (kind_of p))"
  using assms
  by (cases p) (auto simp: outgoing_defs split: prod.splits simp: ping_sends(1) notify_sends(3) share_sends(1)
      dest: battery_sends(4) [THEN subsetD] mpris_sends(2) [THEN subsetD] volume_sends(3) [THEN subsetD]
        command_sends(4) [THEN subsetD] mousepad_sends(2) [THEN subsetD])

lemma polls_ok:
  assumes "plugin_polls E p g = (p', g', es)"
  shows "kind_of p' = kind_of p \<and> sent_types es \<subseteq> set (plugin_outgoing (kind_of p))"
  using assms battery_sends(3) [of E] by (cases p) (auto simp: outgoing_defs split: prod.splits dest: subsetD)

lemma user_ok:
  assumes "user_call E u p g = (p', g', es)"
  shows "kind_of p' = kind_of p \<and> sent_types es \<subseteq> set (plugin_outgoing (kind_of p))"
proof (cases p)
  case (MprisPlugin m)
  then show ?thesis
    using assms mpris_call_sends [of E u m] by (auto simp: user_call_def outgoing_defs split: prod.splits)
next
  case (SharePlugin n)
  then show ?thesis
    using assms share_sends(2) [of "pv_yy E"]
    by (auto simp: user_call_def outgoing_defs split: prod.splits option.splits user_request.splits)
qed (use assms in \<open>auto simp: user_call_def outgoing_defs find_phone_def plugin_sends split: user_request.splits\<close>)

lemma call_ok:
  assumes "plugin_call_on E c p g = (p', g', es)"
  shows "kind_of p' = kind_of p \<and> sent_types es \<subseteq> set (plugin_outgoing (kind_of p))"
  using assms greets_ok received_ok polls_ok user_ok by (cases c) (fastforce split: prod.splits)+

end
