(* ===== verification/Plugin_Safety.thy ===== *)
theory Plugin_Safety
  imports Plugin_Registry
begin

text \<open>
  Properties of all plugins together: where a shared file can end up, and that the device sends
  only packets of the types it announces.
\<close>

section \<open>What a download can change\<close>

lemma dl_finish_frame:
  assumes F: "nxfs_ok F C" and st: "dl_state C p off chunk rem fs n got"
    and e: "dl_finish F p (r, off, chunk, rem, fs) = (res, fs')" and "q \<noteq> p"
  shows "C fs' q = C fs q"
proof -
  have "fs' = fs \<or> fs' = fs_remove F p fs \<or>
      (\<exists>o1 fs1. flush_chunk F p off chunk fs = Some (o1, fs1) \<and> (fs' = fs1 \<or> fs' = fs_remove F p fs1))"
    using e by (auto simp: dl_finish_def Let_def split: if_splits option.splits)
  then show ?thesis
    using dl_state_flush [OF F st] assms(4) by (auto simp: nxfs_okD(5) [OF F])
qed

lemma download_frame:
  assumes F: "nxfs_ok F C" and d: "download_payload F e pkt fp fs = (res, fs')" and q: "q \<noteq> dl_path F fp"
  shows "C fs' q = C fs q"
proof -
  let ?p = "dl_path F fp" and ?n = "dl_size pkt"
  define fs1 where "fs1 = (case parent_dir fp of Some d \<Rightarrow> make_directories F d fs | None \<Rightarrow> fs)"
  have 1: "C fs1 q = C fs q"
    by (simp add: fs1_def make_directories_same [OF F] split: option.split)
  have 2: "C (if fs_exists F ?p fs1 then fs_remove F ?p fs1 else fs1) q = C fs q"
    using 1 q by (simp add: nxfs_okD(5) [OF F])
  consider "fs' = fs" | "fs' = (if fs_exists F ?p fs1 then fs_remove F ?p fs1 else fs1)"
    | "fs' = dl_fresh F fp ?n fs"
    | "fs_open F ?p (dl_fresh F fp ?n fs)" "dl_finish F ?p (dl_run F e pkt fp fs) = (res, fs')"
    using d by (auto simp: download_payload_eq fs1_def [symmetric] Let_def split: if_splits call.splits bool.splits)
  then show ?thesis
  proof cases
    case 3
    then show ?thesis using dl_fresh_spec(2) [OF F q] by simp
  next
    case 4
    obtain r off chunk rem fs2 where l: "dl_run F e pkt fp fs = (r, off, chunk, rem, fs2)"
      by (cases "dl_run F e pkt fp fs") auto
    show ?thesis using dl_run_spec [OF F 4(1) l] dl_finish_frame [OF F _ 4(2) [unfolded l] q] q by auto
  qed (use 2 in simp_all)
qed

section \<open>Shared files\<close>

definition in_root :: "string \<Rightarrow> bool" where
  "in_root p \<longleftrightarrow> (\<exists>b. p = CHR ''/'' # b \<and> CHR ''/'' \<notin> set b \<and> CHR 0x5C \<notin> set b)"

lemma share_path_root: "in_root (share_path filename)"
proof -
  have "CHR ''/'' \<notin> set (drop (i + 1) filename) \<and> CHR 0x5C \<notin> set (drop (i + 1) filename)"
    if "rfind_if (\<lambda>c. c = CHR ''/'' \<or> c = CHR 0x5C) filename = Some i" for i
    using rfind_if_Some [OF that] by auto
  moreover have "CHR ''/'' \<notin> set filename \<and> CHR 0x5C \<notin> set filename"
    if "rfind_if (\<lambda>c. c = CHR ''/'' \<or> c = CHR 0x5C) filename = None"
    using that unfolding rfind_if_None by blast
  ultimately show ?thesis
    by (auto simp: in_root_def share_path_def Let_def split: option.split)
qed

lemma in_root_path: "in_root fp \<Longrightarrow> 1 < fs_max_path F \<Longrightarrow> in_root (dl_path F fp)"
  by (auto simp: in_root_def dl_path_def c_str_def take_Cons' dest!: in_set_takeD dest: set_takeWhileD)

lemma share_downloads:
  "share_received E st np = (r, st', es) \<Longrightarrow> Download np' path \<in> set es \<Longrightarrow> \<exists>f. path = share_path f"
  by (auto simp: share_received_def post_share_def Let_def split: if_splits prod.splits)

text \<open>
  C30: a shared file cannot leave the root of the card. Whatever file name a peer sends, the
  download that the share plugin makes for it, successful or not, changes no file but one directly
  in the root directory: its path is a slash followed by a name without slash or backslash.
\<close>

theorem shared_file_in_root:
  assumes "nxfs_ok F C" and "1 < fs_max_path F"
    and "share_received E st np = (r, st', es)" and "Download np' path \<in> set es"
    and "download_payload F e np' path fs = (res, fs')"
  shows "\<exists>p. in_root p \<and> (\<forall>q. q \<noteq> p \<longrightarrow> C fs' q = C fs q)"
proof -
  obtain f where "path = share_path f" using share_downloads [OF assms(3,4)] by blast
  then have "in_root (dl_path F path)" using in_root_path [OF share_path_root assms(2)] by simp
  then show ?thesis using download_frame [OF assms(1,5)] by blast
qed

definition demo_share :: network_packet where
  "demo_share = (new_packet ShareRequest)\<lparr>pkt_body := JObj [(''filename'', JStr ''../../atmosphere/x.bin'')],
     payload_size := 2, payload_port := 1739\<rparr>"

theorem shared_file_in_root_witness:
  "\<exists>es r st' p. share_received demo_env new_share demo_share = (r, st', es) \<and>
     Download demo_share ''/x.bin'' \<in> set es \<and> in_root p \<and>
     snd (download_payload nx_ref (demo_dl [RdData ''hi'']) demo_share ''/x.bin'' [''/b'' \<mapsto> ''z'']) =
       [''/b'' \<mapsto> ''z''](p := snd (download_payload nx_ref (demo_dl [RdData ''hi'']) demo_share ''/x.bin'' [''/b'' \<mapsto> ''z'']) p)"
proof -
  obtain r st' es where s: "share_received demo_env new_share demo_share = (r, st', es)" by (metis surj_pair)
  have f: "pkt_type demo_share = ShareRequest" "\<not> jb_is_str yy_ref (pkt_body demo_share) ''url''"
    "\<not> jb_is_str yy_ref (pkt_body demo_share) ''text''" "jb_is_str yy_ref (pkt_body demo_share) ''filename''"
    "jb_get_str yy_ref (pkt_body demo_share) ''filename'' = ''../../atmosphere/x.bin''"
    by (simp_all add: demo_share_def jb_defs field_JObj c_str_def)
  have p: "has_payload demo_share" by (simp add: has_payload_def demo_share_def)
  have x: "share_path ''../../atmosphere/x.bin'' = ''/x.bin''" by (simp add: share_path_def)
  have d: "Download demo_share ''/x.bin'' \<in> set es"
    using s f p x by (auto simp: share_received_def post_share_def Let_def split: if_splits)
  obtain res fs' where l: "download_payload nx_ref (demo_dl [RdData ''hi'']) demo_share ''/x.bin'' [''/b'' \<mapsto> ''z''] = (res, fs')"
    by fastforce
  obtain q where "in_root q" "\<forall>q'. q' \<noteq> q \<longrightarrow> fs' q' = [''/b'' \<mapsto> ''z''] q'"
    using shared_file_in_root [OF nxfs_ok_ref _ s d l] by auto
  then show ?thesis using s d l by (auto simp: fun_eq_iff)
qed

section \<open>Announced types\<close>

lemma add_plugins_list: "fst (add_plugins e ps (out, g, es)) = out @ ps"
  by (induction ps arbitrary: out g es) (auto split: prod.split)

lemma announced_types:
  "set (outgoing_capabilities (announced_device e h g)) = insert Pair_type (\<Union>p\<in>set new_plugins. set (plugin_outgoing (kind_of p)))"
proof -
  obtain ps g' es where i: "instantiate_plugins e ([], g) = (ps, g', es)" by (metis surj_pair)
  have "ps = new_plugins" using add_plugins_list [of e new_plugins "[]" g "[]"] i by (simp add: instantiate_plugins_def)
  then show ?thesis
    using i by (auto simp: announced_device_def load_supported_types_def load_or_create_local_device_def)
qed

lemma calls_ok:
  assumes "plugin_calls cs (ps, g) = ((ps', g'), es)"
  shows "map kind_of ps' = map kind_of ps \<and> sent_types es \<subseteq> (\<Union>p\<in>set ps. set (plugin_outgoing (kind_of p)))"
  using assms
proof (induction cs arbitrary: ps g es)
  case (Cons x cs)
  obtain E i c where x: "x = (E, i, c)" by (cases x)
  show ?case
  proof (cases "i < length ps")
    case True
    obtain p1 g1 es1 where c: "plugin_call_on E c (ps ! i) g = (p1, g1, es1)" by (metis surj_pair)
    obtain es2 where r: "plugin_calls cs (ps[i := p1], g1) = ((ps', g'), es2)" "es = es1 @ es2"
      using Cons.prems x True c by (auto split: prod.splits)
    note k = call_ok [OF c]
    have "map kind_of (ps[i := p1]) = map kind_of ps"
      using k True by (simp add: map_update list_update_same_conv)
    moreover have "kind_of ` set (ps[i := p1]) = kind_of ` set ps"
      using calculation by (metis list.set_map)
    moreover have "ps ! i \<in> set ps" using True by simp
    moreover have "(\<Union>p\<in>set (ps[i := p1]). set (plugin_outgoing (kind_of p))) =
        (\<Union>p\<in>set ps. set (plugin_outgoing (kind_of p)))"
      using calculation(2) by (metis image_image)
    ultimately show ?thesis using Cons.IH [OF r(1)] k r(2) by auto
  next
    case False
    then show ?thesis using Cons x by simp
  qed
qed simp

text \<open>
  C31: the device speaks only what it announces. Whatever packets arrive, whatever is polled and
  whatever the user asks for, in any order: the nine plugins of a session keep their types, and
  every packet they send has a type in the outgoing capabilities of the identity packet.
\<close>

theorem sent_types_are_announced:
  "case plugin_calls cs (new_plugins, g) of ((ps, _), es) \<Rightarrow>
     map kind_of ps = map kind_of new_plugins \<and>
     sent_types es \<subseteq> set (outgoing_capabilities (announced_device e hostname g0))"
proof -
  obtain ps g' es where c: "plugin_calls cs (new_plugins, g) = ((ps, g'), es)" by (metis surj_pair)
  show ?thesis using calls_ok [OF c] c by (auto simp: announced_types)
qed

end
