(* ===== verification/Ipc_Wire.thy ===== *)
theory Ipc_Wire
  imports Interfaces Settings_Store
begin

text \<open>
  \<open>common/src/kdec/ipc.h\<close>: the command numbers and the structs that cross the service boundary, as
  the bytes both sides lay out (little endian, with the padding of the declared alignments), and the
  requests \<open>ipc_client.cpp\<close> builds from them.
\<close>

section \<open>Commands\<close>

datatype ipc_cmd =
    CmdGetApiVersion | CmdGetDeviceCount | CmdGetDevices | CmdRequestPair | CmdAcceptPair | CmdRejectPair | CmdUnpair
  | CmdPing | CmdGetMediaInfo | CmdSendMediaAction | CmdGetCommandList | CmdRunCommand | CmdReadBoolSetting
  | CmdWriteBoolSetting | CmdReadIntSetting | CmdWriteIntSetting | CmdGetAllSettings | CmdRing | CmdGetVolumeSinks
  | CmdSetVolumeSink | CmdSendScreenshot | CmdGetMemoryInfo | CmdSendTestNotification | CmdSendBroadcast
  | CmdGetVersionInfo

definition ipc_cmds :: "ipc_cmd list" where
  "ipc_cmds =
     [CmdGetApiVersion, CmdGetDeviceCount, CmdGetDevices, CmdRequestPair, CmdAcceptPair, CmdRejectPair, CmdUnpair,
      CmdPing, CmdGetMediaInfo, CmdSendMediaAction, CmdGetCommandList, CmdRunCommand, CmdReadBoolSetting,
      CmdWriteBoolSetting, CmdReadIntSetting, CmdWriteIntSetting, CmdGetAllSettings, CmdRing, CmdGetVolumeSinks,
      CmdSetVolumeSink, CmdSendScreenshot, CmdGetMemoryInfo, CmdSendTestNotification, CmdSendBroadcast,
      CmdGetVersionInfo]"

text \<open>The number of a command is its place in the enumeration.\<close>

definition cmd_of_num :: "u32 \<Rightarrow> ipc_cmd option" where
  "cmd_of_num n = (if unat n < length ipc_cmds then Some (ipc_cmds ! unat n) else None)"

fun index_in :: "'a \<Rightarrow> 'a list \<Rightarrow> nat" where
  "index_in x [] = 0"
| "index_in x (y # ys) = (if x = y then 0 else Suc (index_in x ys))"

definition cmd_num :: "ipc_cmd \<Rightarrow> u32" where
  "cmd_num c = of_nat (index_in c ipc_cmds)"

definition KDEC_IPC_API_VERSION :: u32 where "KDEC_IPC_API_VERSION = 1"
definition KDEC_DEVICE_ID_MAX :: nat where "KDEC_DEVICE_ID_MAX = 64"
definition KDEC_DEVICE_NAME_MAX :: nat where "KDEC_DEVICE_NAME_MAX = 128"
definition KDEC_TEXT_MAX :: nat where "KDEC_TEXT_MAX = 256"
definition KDEC_COMMAND_ID_MAX :: nat where "KDEC_COMMAND_ID_MAX = 64"
definition KDEC_COMMAND_NAME_MAX :: nat where "KDEC_COMMAND_NAME_MAX = 64"
definition KDEC_SINK_NAME_MAX :: nat where "KDEC_SINK_NAME_MAX = 64"
definition KDEC_SINK_DESC_MAX :: nat where "KDEC_SINK_DESC_MAX = 128"
definition KDEC_VERSION_MAX :: nat where "KDEC_VERSION_MAX = 32"
definition KDEC_GIT_COMMIT_MAX :: nat where "KDEC_GIT_COMMIT_MAX = 16"

datatype media_action = Play | Pause | PlayPause | Stop | Next | Previous | SetVolume | Seek | SetPosition

definition media_actions :: "media_action list" where
  "media_actions = [Play, Pause, PlayPause, Stop, Next, Previous, SetVolume, Seek, SetPosition]"

section \<open>Bytes\<close>

text \<open>\<open>strncpy(dst, src.c_str(), n - 1)\<close> into an array of \<open>n\<close> zero bytes, and reading it back.\<close>

definition put_str :: "nat \<Rightarrow> string \<Rightarrow> string" where
  "put_str n s = take (n - 1) (c_str s) @ replicate (n - length (take (n - 1) (c_str s))) (CHR 0x00)"

definition get_str :: "nat \<Rightarrow> string \<Rightarrow> string" where
  "get_str n buf = c_str (take n buf)"

fun le_bytes :: "nat \<Rightarrow> nat \<Rightarrow> string" where
  "le_bytes 0 n = []"
| "le_bytes (Suc k) n = char_of n # le_bytes k (n div 256)"

fun le_val :: "string \<Rightarrow> nat" where
  "le_val [] = 0"
| "le_val (c # cs) = of_char c + 256 * le_val cs"

definition put_bool :: "bool \<Rightarrow> string" where
  "put_bool b = [if b then CHR 0x01 else CHR 0x00]"

definition get_bool :: "string \<Rightarrow> bool" where
  "get_bool bs = (le_val (take 1 bs) \<noteq> 0)"

definition put_u8 :: "u8 \<Rightarrow> string" where "put_u8 w = le_bytes 1 (unat w)"
definition put_u32 :: "u32 \<Rightarrow> string" where "put_u32 w = le_bytes 4 (unat w)"
definition put_u64 :: "u64 \<Rightarrow> string" where "put_u64 w = le_bytes 8 (unat w)"
definition get_u8 :: "string \<Rightarrow> u8" where "get_u8 bs = of_nat (le_val (take 1 bs))"
definition get_u32 :: "string \<Rightarrow> u32" where "get_u32 bs = of_nat (le_val (take 4 bs))"
definition get_u64 :: "string \<Rightarrow> u64" where "get_u64 bs = of_nat (le_val (take 8 bs))"

definition pad_to :: "nat \<Rightarrow> string \<Rightarrow> string" where
  "pad_to n bs = bs @ replicate (n - length bs) (CHR 0x00)"

section \<open>Requests\<close>

text \<open>The structs of the requests: what the client lays out and what the service reads.\<close>

definition enc_device_id :: "string \<Rightarrow> string" where
  "enc_device_id dev = put_str KDEC_DEVICE_ID_MAX dev"

definition dec_device_id :: "string \<Rightarrow> string" where
  "dec_device_id bs = get_str KDEC_DEVICE_ID_MAX bs"

definition enc_run_command :: "string \<times> string \<Rightarrow> string" where
  "enc_run_command w = put_str KDEC_DEVICE_ID_MAX (fst w) @ put_str KDEC_COMMAND_ID_MAX (snd w)"

definition dec_run_command :: "string \<Rightarrow> string \<times> string" where
  "dec_run_command bs = (get_str KDEC_DEVICE_ID_MAX bs, get_str KDEC_COMMAND_ID_MAX (drop 64 bs))"

definition enc_media_action :: "string \<times> u8 \<times> i64 \<Rightarrow> string" where
  "enc_media_action w =
     put_str KDEC_DEVICE_ID_MAX (fst w) @ put_u8 (fst (snd w)) @ replicate 7 (CHR 0x00) @ put_u64 (snd (snd w))"

definition dec_media_action :: "string \<Rightarrow> string \<times> u8 \<times> i64" where
  "dec_media_action bs = (get_str KDEC_DEVICE_ID_MAX bs, get_u8 (drop 64 bs), get_u64 (drop 72 bs))"

definition enc_set_sink :: "string \<times> string \<times> i32 \<times> bool \<times> bool \<Rightarrow> string" where
  "enc_set_sink w =
     pad_to 144 (put_str KDEC_DEVICE_ID_MAX (fst w) @ put_str KDEC_SINK_NAME_MAX (fst (snd w)) @
       put_u32 (fst (snd (snd w))) @ put_bool (fst (snd (snd (snd w)))) @ put_bool (snd (snd (snd (snd w)))))"

definition dec_set_sink :: "string \<Rightarrow> string \<times> string \<times> i32 \<times> bool \<times> bool" where
  "dec_set_sink bs =
     (get_str KDEC_DEVICE_ID_MAX bs, get_str KDEC_SINK_NAME_MAX (drop 64 bs), get_u32 (drop 128 bs),
      get_bool (drop 132 bs), get_bool (drop 133 bs))"

definition enc_write_bool :: "u8 \<times> bool \<Rightarrow> string" where
  "enc_write_bool w = put_u8 (fst w) @ put_bool (snd w)"

definition dec_write_bool :: "string \<Rightarrow> u8 \<times> bool" where
  "dec_write_bool bs = (get_u8 bs, get_bool (drop 1 bs))"

text \<open>The three bytes between key and value are padding; their content is not read.\<close>

definition enc_write_int :: "u8 \<times> i32 \<Rightarrow> string" where
  "enc_write_int w = put_u8 (fst w) @ replicate 3 (CHR 0x00) @ put_u32 (snd w)"

definition dec_write_int :: "string \<Rightarrow> u8 \<times> i32" where
  "dec_write_int bs = (get_u8 bs, get_u32 (drop 4 bs))"

section \<open>Lemmas\<close>

lemma cmd_num_inverse: "cmd_of_num (cmd_num c) = Some c"
  by (cases c) (simp_all add: cmd_of_num_def cmd_num_def ipc_cmds_def)

lemma length_put_str [simp]: "0 < n \<Longrightarrow> length (put_str n s) = n"
  by (simp add: put_str_def min_def)

lemma get_put_str: "get_str n (put_str n s @ rest) = take (n - 1) (c_str s)"
proof (cases n)
  case (Suc m)
  have "get_str n (put_str n s @ rest) = c_str (put_str n s)" using Suc by (simp add: get_str_def)
  also have "\<dots> = take m (c_str s)"
  proof -
    have "nul_free (take m (c_str s))" using nul_free_c_str by (metis in_set_takeD nul_free_def)
    moreover have "\<exists>t. replicate (n - length (take m (c_str s))) (CHR 0x00) = CHR 0x00 # t"
      using Suc by (cases "n - length (take m (c_str s))") (auto simp: min_def split: if_splits)
    ultimately show ?thesis using Suc by (auto simp: put_str_def c_str_append_NUL)
  qed
  finally show ?thesis using Suc by simp
qed (simp add: get_str_def put_str_def)

lemma get_put_fits: "nul_free s \<Longrightarrow> length s < n \<Longrightarrow> get_str n (put_str n s @ rest) = s"
  by (simp add: get_put_str)

lemma length_le_bytes [simp]: "length (le_bytes k n) = k"
  by (induction k arbitrary: n) auto

lemma le_val_bytes: "le_val (le_bytes k n) = n mod 256 ^ k"
  by (induction k arbitrary: n) (simp_all add: mod_mult2_eq)

lemma le_val_word:
  fixes w :: "'a :: len word"
  assumes "LENGTH('a) = 8 * k"
  shows "le_val (le_bytes k (unat w)) = unat w"
proof -
  have "unat w < 256 ^ k" using unsigned_less [of w] assms by (simp add: power_mult)
  then show ?thesis by (simp add: le_val_bytes)
qed

lemma take_le_bytes: "take k (le_bytes k n @ rest) = le_bytes k n"
  by simp

lemma get_put_num [simp]:
  "get_u8 (put_u8 a @ rest) = a" "get_u32 (put_u32 b @ rest) = b" "get_u64 (put_u64 c @ rest) = c"
  "get_bool (put_bool d @ rest) = d"
  by (simp_all add: get_u8_def put_u8_def get_u32_def put_u32_def get_u64_def put_u64_def get_bool_def put_bool_def
      le_val_word take_le_bytes del: le_bytes.simps)

lemma length_put_num [simp]:
  "length (put_u8 a) = 1" "length (put_u32 b) = 4" "length (put_u64 c) = 8" "length (put_bool d) = 1"
  by (simp_all add: put_u8_def put_u32_def put_u64_def put_bool_def)

lemma length_pad_to [simp]: "length bs \<le> n \<Longrightarrow> length (pad_to n bs) = n"
  by (simp add: pad_to_def)

lemmas ipc_sizes = KDEC_DEVICE_ID_MAX_def KDEC_DEVICE_NAME_MAX_def KDEC_TEXT_MAX_def KDEC_COMMAND_ID_MAX_def
  KDEC_COMMAND_NAME_MAX_def KDEC_SINK_NAME_MAX_def KDEC_SINK_DESC_MAX_def KDEC_VERSION_MAX_def KDEC_GIT_COMMIT_MAX_def

text \<open>What is left of a string in a field of 64 bytes.\<close>

definition cut64 :: "string \<Rightarrow> string" where
  "cut64 s = take 63 (c_str s)"

lemma cut64_id: "nul_free s \<Longrightarrow> length s < 64 \<Longrightarrow> cut64 s = s"
  by (simp add: cut64_def)

lemma drop_put_str: "drop n (put_str n s @ rest) = rest"
  by (cases n) (simp_all add: put_str_def)

lemma get_put_64: "get_str 64 (put_str 64 s @ rest) = cut64 s"
  by (simp add: get_put_str cut64_def)

lemma skip: "length xs = n \<Longrightarrow> n \<le> m \<Longrightarrow> drop m (xs @ ys) = drop (m - n) ys"
  by simp

text \<open>Every request struct is a codec of its size.\<close>

interpretation wire_id: fixed_codec enc_device_id dec_device_id 64 cut64
  using get_put_64 [of _ "[]"] by unfold_locales (simp_all add: enc_device_id_def dec_device_id_def ipc_sizes)

interpretation wire_command: fixed_codec enc_run_command dec_run_command 128 "\<lambda>(d, c). (cut64 d, cut64 c)"
  using get_put_64 [of _ "[]"] get_put_64 drop_put_str [of 64]
  by unfold_locales (simp_all add: enc_run_command_def dec_run_command_def ipc_sizes split: prod.split)

interpretation wire_action: fixed_codec enc_media_action dec_media_action 80 "\<lambda>(d, a, v). (cut64 d, a, v)"
proof unfold_locales
  fix w :: "string \<times> u8 \<times> i64"
  obtain d a v where w: "w = (d, a, v)" by (cases w)
  show "length (enc_media_action w) = 80" by (simp add: enc_media_action_def ipc_sizes)
  have "drop 72 (put_str 64 d @ put_u8 a @ replicate 7 (CHR 0x00) @ put_u64 v) = put_u64 v"
    by (simp add: skip [of "put_str 64 d" 64] skip [of "put_u8 a" 1])
  moreover have "drop 64 (put_str 64 d @ put_u8 a @ replicate 7 (CHR 0x00) @ put_u64 v) = put_u8 a @ replicate 7 (CHR 0x00) @ put_u64 v"
    by (rule drop_put_str)
  ultimately show "dec_media_action (enc_media_action w) = (case w of (d, a, v) \<Rightarrow> (cut64 d, a, v))"
    using get_put_num(3) [of v "[]"] by (simp add: w enc_media_action_def dec_media_action_def ipc_sizes get_put_64)
qed

interpretation wire_bool: fixed_codec enc_write_bool dec_write_bool 2 "\<lambda>w. w"
proof unfold_locales
  fix w :: "u8 \<times> bool"
  show "length (enc_write_bool w) = 2" by (simp add: enc_write_bool_def)
  show "dec_write_bool (enc_write_bool w) = w"
    using get_put_num(4) [of "snd w" "[]"] by (simp add: enc_write_bool_def dec_write_bool_def)
qed

interpretation wire_int: fixed_codec enc_write_int dec_write_int 8 "\<lambda>w. w"
proof unfold_locales
  fix w :: "u8 \<times> i32"
  show "length (enc_write_int w) = 8" by (simp add: enc_write_int_def)
  show "dec_write_int (enc_write_int w) = w"
    using get_put_num(2) [of "snd w" "[]"] by (simp add: enc_write_int_def dec_write_int_def skip)
qed

interpretation wire_sink: fixed_codec enc_set_sink dec_set_sink 144 "\<lambda>(d, n, v, m, df). (cut64 d, cut64 n, v, m, df)"
proof unfold_locales
  fix w :: "string \<times> string \<times> i32 \<times> bool \<times> bool"
  obtain d n v m df where w: "w = (d, n, v, m, df)" by (cases w)
  show "length (enc_set_sink w) = 144" by (simp add: enc_set_sink_def ipc_sizes)
  let ?pad = "replicate 10 (CHR 0x00)"
  have e: "enc_set_sink w = put_str 64 d @ put_str 64 n @ put_u32 v @ put_bool m @ put_bool df @ ?pad"
    by (simp add: w enc_set_sink_def pad_to_def ipc_sizes)
  have "drop 64 (enc_set_sink w) = put_str 64 n @ put_u32 v @ put_bool m @ put_bool df @ ?pad"
    unfolding e by (rule drop_put_str)
  moreover have "drop 128 (enc_set_sink w) = put_u32 v @ put_bool m @ put_bool df @ ?pad"
    unfolding e by (simp add: skip [of "put_str 64 d" 64] drop_put_str)
  moreover have "drop 132 (enc_set_sink w) = put_bool m @ put_bool df @ ?pad"
    unfolding e by (simp add: skip [of "put_str 64 d" 64] skip [of "put_str 64 n" 64])
  moreover have "drop 133 (enc_set_sink w) = put_bool df @ ?pad"
    unfolding e by (simp add: skip [of "put_str 64 d" 64] skip [of "put_str 64 n" 64] skip [of "put_u32 v" 4])
  moreover have "get_str 64 (enc_set_sink w) = cut64 d" unfolding e by (rule get_put_64)
  ultimately show "dec_set_sink (enc_set_sink w) = (case w of (d, n, v, m, df) \<Rightarrow> (cut64 d, cut64 n, v, m, df))"
    by (simp add: w dec_set_sink_def ipc_sizes get_put_64 del: append_assoc)
qed

end
