(* ===== verification/Ipc_Server.thy ===== *)
theory Ipc_Server
  imports Ipc_Wire "HOL-Library.Multiset"
begin

text \<open>
  \<open>sysmodule/src/ipc/ipc_server.c\<close>: the table of handles of the service (the port first, then the
  sessions), parsing and answering a request, and one round of the server loop. The kernel calls are
  lists of results; the handler is an argument with a state \<open>'st\<close>.
\<close>

datatype ipc_result =
  RcOk | RcBadInput | RcOutOfMemory | RcNotFound | RcNotInitialized | RcIoError | RcTimedOut | RcInvalidType | RcError u32

record ipc_server =
  srv_max :: nat
  srv_handles :: "nat list"

text \<open>\<open>wait_objects\<close> is the limit of the kernel's wait call, \<open>registered\<close> the port if it could be registered.\<close>

definition ipcServerInit :: "nat \<Rightarrow> nat option \<Rightarrow> nat \<Rightarrow> ipc_result \<times> ipc_server option" where
  "ipcServerInit wait_objects registered max_sessions =
     (if max_sessions < 1 \<or> wait_objects - 1 < max_sessions then (RcBadInput, None)
      else case registered of
             Some port \<Rightarrow> (RcOk, Some \<lparr>srv_max = max_sessions + 1, srv_handles = [port]\<rparr>)
           | None \<Rightarrow> (RcError 0, Some \<lparr>srv_max = max_sessions + 1, srv_handles = []\<rparr>))"

text \<open>The operations return the handles they close.\<close>

definition ipcServerExit :: "ipc_server \<Rightarrow> ipc_server \<times> nat list" where
  "ipcServerExit s = (s\<lparr>srv_handles := []\<rparr>, srv_handles s)"

definition ipcServerAddSession :: "ipc_server \<Rightarrow> nat \<Rightarrow> ipc_result \<times> ipc_server" where
  "ipcServerAddSession s session =
     (if srv_max s \<le> length (srv_handles s) then (RcOutOfMemory, s)
      else (RcOk, s\<lparr>srv_handles := srv_handles s @ [session]\<rparr>))"

text \<open>The loop moves the handles behind \<open>index\<close> down by one.\<close>

definition shift_handles :: "nat \<Rightarrow> nat list \<Rightarrow> nat list" where
  "shift_handles index hs = fold (\<lambda>j hs. hs[j := hs ! (j + 1)]) [index..<length hs - 1] hs"

definition ipcServerDeleteSession :: "ipc_server \<Rightarrow> nat \<Rightarrow> ipc_result \<times> ipc_server \<times> nat list" where
  "ipcServerDeleteSession s index =
     (if index = 0 \<or> length (srv_handles s) \<le> index then (RcBadInput, s, [])
      else
        (let closed = srv_handles s ! index;
             hs = shift_handles index (srv_handles s)
         in (RcOk, s\<lparr>srv_handles := take (length hs - 1) hs\<rparr>, [closed])))"

section \<open>Requests and responses\<close>

datatype cmif_type = CmifRequest | CmifClose | CmifOther

text \<open>
  What \<open>hipcParseRequest\<close> finds: the message type, the number of data words, the bytes from the
  aligned start of the data to the end of the buffer, and the first receive buffer's size.
\<close>

record hipc_message =
  hm_type :: cmif_type
  hm_words :: nat
  hm_data :: "string option"
  hm_recv :: "nat option"

record ipc_request =
  rq_cmd :: u64
  rq_size :: nat
  rq_ptr :: string
  rq_recv :: "nat option"

definition raw_header_size :: nat where "raw_header_size = 16"
definition CMIF_IN_HEADER_MAGIC :: u64 where "CMIF_IN_HEADER_MAGIC = 0x49434653"
definition CMIF_OUT_HEADER_MAGIC :: u64 where "CMIF_OUT_HEADER_MAGIC = 0x4F434653"

definition ipcServerParseRequest :: "hipc_message \<Rightarrow> ipc_result \<times> ipc_request" where
  "ipcServerParseRequest m =
     (let r = \<lparr>rq_cmd = 0, rq_size = 0, rq_ptr = [], rq_recv = hm_recv m\<rparr>
      in if hm_type m = CmifRequest then
           (let dataSize = hm_words m * 4
            in case hm_data m of
                 None \<Rightarrow> (RcBadInput, r)
               | Some header \<Rightarrow>
                   if dataSize < raw_header_size \<or> get_u64 header \<noteq> CMIF_IN_HEADER_MAGIC then (RcBadInput, r)
                   else
                     (let r = r\<lparr>rq_cmd := get_u64 (drop 8 header)\<rparr>
                      in (RcOk, if raw_header_size < dataSize
                                then r\<lparr>rq_size := dataSize - raw_header_size, rq_ptr := drop 16 header\<rparr>
                                else r)))
         else (RcOk, r))"

text \<open>A response: the result code, the out data and what was written to the receive buffer.\<close>

record ipc_response =
  rs_result :: ipc_result
  rs_data :: string
  rs_buffer :: string

definition kMaxResponseData :: nat where "kMaxResponseData = 0x100 - 0x10 - raw_header_size"

text \<open>The number of data words announced and the bytes after the result code, none after a failure.\<close>

definition ipcServerPrepareResponse :: "ipc_result \<Rightarrow> string \<Rightarrow> nat \<times> ipc_result \<times> string" where
  "ipcServerPrepareResponse rc d =
     ((raw_header_size + length d + 0x10) div 4, rc, if rc = RcOk then d else [])"

section \<open>One round of the loop\<close>

datatype reply_result = ReplyOk | ReplyTimedOut | ReplyFailed

record ipc_round =
  ir_wait :: "int option"
  ir_accept :: "nat option"
  ir_receive :: bool
  ir_message :: hipc_message
  ir_reply :: reply_result

type_synonym 'st ipc_handler = "'st \<Rightarrow> ipc_request \<Rightarrow> 'st \<times> ipc_response"

text \<open>The results are the code, the server, the handles closed, the state and the reply if one was made.\<close>

definition ipcServerProcessNewSession :: "ipc_round \<Rightarrow> ipc_server \<Rightarrow> ipc_result \<times> ipc_server \<times> nat list" where
  "ipcServerProcessNewSession e s =
     (case ir_accept e of
        None \<Rightarrow> (RcError 0, s, [])
      | Some session \<Rightarrow>
          (case ipcServerAddSession s session of
             (RcOk, s) \<Rightarrow> (RcOk, s, [])
           | (rc, s) \<Rightarrow> (rc, s, [session])))"

definition ipcServerProcessSession ::
    "'st ipc_handler \<Rightarrow> ipc_round \<Rightarrow> nat \<Rightarrow> ipc_server \<times> 'st \<Rightarrow>
     ipc_result \<times> (ipc_server \<times> 'st) \<times> nat list \<times> (nat \<times> ipc_result \<times> string) option" where
  "ipcServerProcessSession handler e handleIndex x =
     (case x of (s, st) \<Rightarrow>
        let (rc, r) = (if ir_receive e then ipcServerParseRequest (ir_message e)
                       else (RcError 0, \<lparr>rq_cmd = 0, rq_size = 0, rq_ptr = [], rq_recv = None\<rparr>))
        in if rc \<noteq> RcOk then
             (case ipcServerDeleteSession s handleIndex of (_, s, closed) \<Rightarrow> (rc, (s, st), closed, None))
           else
             (let (st, reply, close) =
                    (case hm_type (ir_message e) of
                       CmifRequest \<Rightarrow>
                         (case handler st r of (st, rs) \<Rightarrow>
                            (st, ipcServerPrepareResponse (rs_result rs) (rs_data rs), False))
                     | CmifClose \<Rightarrow> (st, ipcServerPrepareResponse RcOk [], True)
                     | CmifOther \<Rightarrow> (st, ipcServerPrepareResponse RcInvalidType [], False));
                  rc = (case ir_reply e of ReplyFailed \<Rightarrow> RcError 0 | _ \<Rightarrow> RcOk)
              in if rc \<noteq> RcOk \<or> close then
                   (case ipcServerDeleteSession s handleIndex of (_, s, closed) \<Rightarrow> (rc, (s, st), closed, Some reply))
                 else (rc, (s, st), [], Some reply)))"

definition ipcServerProcess ::
    "'st ipc_handler \<Rightarrow> ipc_round \<Rightarrow> ipc_server \<times> 'st \<Rightarrow>
     ipc_result \<times> (ipc_server \<times> 'st) \<times> nat list \<times> (nat \<times> ipc_result \<times> string) option" where
  "ipcServerProcess handler e x =
     (case x of (s, st) \<Rightarrow>
        case ir_wait e of
          None \<Rightarrow> (RcError 0, (s, st), [], None)
        | Some handleIndex \<Rightarrow>
            if handleIndex < 0 \<or> int (length (srv_handles s)) \<le> handleIndex then (RcNotFound, (s, st), [], None)
            else if handleIndex \<noteq> 0 then ipcServerProcessSession handler e (nat handleIndex) (s, st)
            else (case ipcServerProcessNewSession e s of (rc, s, closed) \<Rightarrow> (rc, (s, st), closed, None)))"

text \<open>The loop, with the sessions it accepted and the handles it closed.\<close>

fun ipc_loop ::
    "'st ipc_handler \<Rightarrow> ipc_round list \<Rightarrow> ipc_server \<times> 'st \<Rightarrow> (ipc_server \<times> 'st) \<times> nat list \<times> nat list" where
  "ipc_loop handler [] x = (x, [], [])"
| "ipc_loop handler (e # es) x =
     (case ipcServerProcess handler e x of (rc, y, closed, reply) \<Rightarrow>
        case ipc_loop handler es y of (z, acc, gone) \<Rightarrow>
          (z, (if ir_wait e = Some 0 \<and> srv_handles (fst x) \<noteq> [] then (case ir_accept e of Some h \<Rightarrow> [h] | None \<Rightarrow> []) else []) @ acc,
           closed @ gone))"

section \<open>Lemmas\<close>

text \<open>The shifting loop deletes one entry.\<close>

lemma shift_from:
  "i \<le> n \<Longrightarrow> length hs = Suc n \<Longrightarrow>
     fold (\<lambda>j hs. hs[j := hs ! (j + 1)]) [i..<n] hs = take i hs @ drop (Suc i) hs @ [hs ! n]"
proof (induction "n - i" arbitrary: i hs)
  case 0
  then have "i = n" by simp
  then show ?case using 0 by (simp add: take_Suc_conv_app_nth [symmetric])
next
  case (Suc d)
  then have i: "i < n" by simp
  let ?g = "hs[i := hs ! (i + 1)]"
  have "[i..<n] = i # [Suc i..<n]" using i by (simp add: upt_conv_Cons)
  then have "fold (\<lambda>j hs. hs[j := hs ! (j + 1)]) [i..<n] hs = fold (\<lambda>j hs. hs[j := hs ! (j + 1)]) [Suc i..<n] ?g"
    by simp
  also have "\<dots> = take (Suc i) ?g @ drop (Suc (Suc i)) ?g @ [?g ! n]"
    using Suc i by (intro Suc.hyps(1)) auto
  also have "\<dots> = take i hs @ drop (Suc i) hs @ [hs ! n]"
    using i Suc.prems(2) by (simp add: take_Suc_conv_app_nth drop_update_cancel Cons_nth_drop_Suc)
  finally show ?case .
qed

lemma shift_handles_eq:
  assumes "index < length hs"
  shows "take (length (shift_handles index hs) - 1) (shift_handles index hs) = take index hs @ drop (Suc index) hs"
proof -
  obtain n where n: "length hs = Suc n" using assms by (cases hs) auto
  have "shift_handles index hs = take index hs @ drop (Suc index) hs @ [hs ! n]"
    using shift_from [of index n hs] assms n by (simp add: shift_handles_def)
  then show ?thesis using assms n by simp
qed

lemma mset_delete_nth: "i < length xs \<Longrightarrow> mset (take i xs @ drop (Suc i) xs) + {#xs ! i#} = mset xs"
  by (metis id_take_nth_drop mset_append mset.simps(2) union_mset_add_mset_right add_mset_add_single union_commute union_assoc)

lemma delete_session_spec:
  assumes "ipcServerDeleteSession s i = (rc, s', closed)" "srv_handles s \<noteq> []"
  shows "mset (srv_handles s') + mset closed = mset (srv_handles s) \<and> hd (srv_handles s') = hd (srv_handles s) \<and>
    srv_handles s' \<noteq> [] \<and> length (srv_handles s') \<le> length (srv_handles s) \<and> srv_max s' = srv_max s"
proof (cases "i = 0 \<or> length (srv_handles s) \<le> i")
  case True
  then show ?thesis using assms by (auto simp: ipcServerDeleteSession_def)
next
  case False
  then have i: "0 < i" "i < length (srv_handles s)" by auto
  have e: "srv_handles s' = take i (srv_handles s) @ drop (Suc i) (srv_handles s)" "closed = [srv_handles s ! i]"
    "srv_max s' = srv_max s"
    using assms(1) False shift_handles_eq [OF i(2)] by (auto simp: ipcServerDeleteSession_def Let_def)
  have "hd (srv_handles s') = hd (srv_handles s)" "srv_handles s' \<noteq> []"
    using i e(1) by (cases "srv_handles s"; cases i; simp)+
  then show ?thesis using i e mset_delete_nth [OF i(2)] by simp
qed

definition accepted_by :: "ipc_round \<Rightarrow> nat list" where
  "accepted_by e = (if ir_wait e = Some 0 then (case ir_accept e of Some h \<Rightarrow> [h] | None \<Rightarrow> []) else [])"

lemma process_spec:
  assumes "ipcServerProcess handler e (s, st) = (rc, (s', st'), closed, reply)"
    and "srv_handles s \<noteq> []" "length (srv_handles s) \<le> srv_max s"
  shows "mset (srv_handles s') + mset closed = mset (srv_handles s) + mset (accepted_by e) \<and>
    hd (srv_handles s') = hd (srv_handles s) \<and> srv_handles s' \<noteq> [] \<and>
    length (srv_handles s') \<le> srv_max s' \<and> srv_max s' = srv_max s"
proof -
  have d: "mset (srv_handles s1) + mset c1 = mset (srv_handles s) \<and> hd (srv_handles s1) = hd (srv_handles s) \<and>
    srv_handles s1 \<noteq> [] \<and> length (srv_handles s1) \<le> srv_max s1 \<and> srv_max s1 = srv_max s"
    if "ipcServerDeleteSession s i = (r1, s1, c1)" for i r1 s1 c1
    using delete_session_spec [OF that assms(2)] assms(3) by simp
  consider "ir_wait e = None \<or> (\<exists>i. ir_wait e = Some i \<and> (i < 0 \<or> int (length (srv_handles s)) \<le> i))"
    | i where "ir_wait e = Some i" "0 < i" "i < int (length (srv_handles s))" | "ir_wait e = Some 0"
    by (cases "ir_wait e") (auto, fastforce)
  then show ?thesis
  proof cases
    case 1
    then have "s' = s" "closed = []" "accepted_by e = []"
      using assms(1,2) by (auto simp: ipcServerProcess_def accepted_by_def)
    then show ?thesis using assms by simp
  next
    case 2
    then have p: "ipcServerProcessSession handler e (nat i) (s, st) = (rc, (s', st'), closed, reply)"
      using assms(1) by (auto simp: ipcServerProcess_def)
    have "(s' = s \<and> closed = []) \<or> (\<exists>r1. ipcServerDeleteSession s (nat i) = (r1, s', closed))"
      using p by (auto simp: ipcServerProcessSession_def Let_def split: prod.splits if_splits)
    then show ?thesis using d assms(2,3) 2 by (auto simp: accepted_by_def)
  next
    case 3
    then have n: "ipcServerProcessNewSession e s = (rc, s', closed)"
      using assms(1,2) by (auto simp: ipcServerProcess_def split: prod.splits)
    show ?thesis
      using n 3 assms(2,3)
      by (auto simp: ipcServerProcessNewSession_def ipcServerAddSession_def accepted_by_def
          split: option.splits if_splits)
  qed
qed

lemma ipc_loop_spec:
  assumes "ipc_loop handler es (s, st) = ((s', st'), acc, gone)"
    and "srv_handles s \<noteq> []" "length (srv_handles s) \<le> srv_max s"
  shows "mset (srv_handles s') + mset gone = mset (srv_handles s) + mset acc \<and> hd (srv_handles s') = hd (srv_handles s) \<and>
    srv_handles s' \<noteq> [] \<and> length (srv_handles s') \<le> srv_max s' \<and> srv_max s' = srv_max s"
  using assms
proof (induction es arbitrary: s st acc gone)
  case (Cons e es)
  obtain rc s1 st1 closed reply where p: "ipcServerProcess handler e (s, st) = (rc, (s1, st1), closed, reply)"
    by (metis surj_pair)
  obtain acc2 gone2 where l: "ipc_loop handler es (s1, st1) = ((s', st'), acc2, gone2)"
    and ag: "acc = accepted_by e @ acc2" "gone = closed @ gone2"
    using Cons.prems(1,2) p by (auto simp: accepted_by_def split: prod.splits)
  note ps = process_spec [OF p Cons.prems(2,3)]
  have "mset (srv_handles s') + mset gone2 = mset (srv_handles s1) + mset acc2 \<and> hd (srv_handles s') = hd (srv_handles s1) \<and>
    srv_handles s' \<noteq> [] \<and> length (srv_handles s') \<le> srv_max s' \<and> srv_max s' = srv_max s1"
    using Cons.IH [OF l] ps by simp
  then show ?case using ps ag by (simp add: ac_simps)
qed simp

section \<open>Properties\<close>

text \<open>
  C33: no session handle is lost or closed twice. However clients connect, send, break off and
  disconnect: the port stays the first entry of the table, there are never more sessions than the
  service was registered for, and every handle the kernel gave out is either in the table or has
  been closed exactly once; leaving closes the rest.
\<close>

theorem handles_are_accounted_for:
  assumes "ipcServerInit wait_objects (Some port) max_sessions = (RcOk, Some s)"
    and "ipc_loop handler es (s, st) = ((s', st'), accepted, closed)"
  shows "hd (srv_handles s') = port \<and> srv_handles s' \<noteq> [] \<and> length (srv_handles s') \<le> max_sessions + 1 \<and>
    mset (srv_handles s') + mset closed = {#port#} + mset accepted \<and>
    mset (snd (ipcServerExit s')) + mset closed = {#port#} + mset accepted"
proof -
  have s: "s = \<lparr>srv_max = max_sessions + 1, srv_handles = [port]\<rparr>"
    using assms(1) by (auto simp: ipcServerInit_def split: if_splits)
  show ?thesis using ipc_loop_spec [OF assms(2)] s by (simp add: ipcServerExit_def)
qed

definition demo_round :: "int \<Rightarrow> nat \<Rightarrow> ipc_round" where
  "demo_round i h = \<lparr>ir_wait = Some i, ir_accept = Some h, ir_receive = True,
     ir_message = \<lparr>hm_type = CmifClose, hm_words = 0, hm_data = None, hm_recv = None\<rparr>, ir_reply = ReplyOk\<rparr>"

theorem handles_are_accounted_for_witness:
  "\<exists>s' st' accepted closed.
     ipc_loop (\<lambda>(st :: unit) r. (st, \<lparr>rs_result = RcOk, rs_data = [], rs_buffer = []\<rparr>))
       [demo_round 0 7, demo_round 0 8, demo_round 0 9, demo_round 1 0] (\<lparr>srv_max = 3, srv_handles = [5]\<rparr>, ()) =
       ((s', st'), accepted, closed) \<and>
     mset (srv_handles s') + mset closed = {#5#} + mset accepted \<and> closed = [9, 7]"
proof -
  let ?h = "\<lambda>(st :: unit) (r :: ipc_request). (st, \<lparr>rs_result = RcOk, rs_data = [], rs_buffer = []\<rparr>)"
  let ?es = "[demo_round 0 7, demo_round 0 8, demo_round 0 9, demo_round 1 0]"
  have i: "ipcServerInit 64 (Some 5) 2 = (RcOk, Some \<lparr>srv_max = 3, srv_handles = [5]\<rparr>)"
    by (simp add: ipcServerInit_def)
  obtain s' st' acc gone where l: "ipc_loop ?h ?es (\<lparr>srv_max = 3, srv_handles = [5]\<rparr>, ()) = ((s', st'), acc, gone)"
    by (metis surj_pair)
  have "gone = [9, 7]"
    using l by (simp add: demo_round_def ipcServerProcess_def ipcServerProcessNewSession_def ipcServerAddSession_def
        ipcServerProcessSession_def ipcServerParseRequest_def ipcServerDeleteSession_def Let_def)
  then show ?thesis using handles_are_accounted_for [OF i l] l by auto
qed

end
