(* ===== verification/Application.thy ===== *)
theory Application
  imports Discovery Plugin_Registry
begin

text \<open>
  \<open>nx_application.cpp\<close>: the object that owns the client, restarts it and polls the plugins, and
  \<open>utils/psc_monitor.cpp\<close>, which follows the console's sleep states.
\<close>

section \<open>The power state monitor\<close>

datatype psc_pm_state = PmAwake | PmReadyAwaken | PmReadySleep | PmReadySleepCritical | PmReadyAwakenCritical | PmReadyShutdown

text \<open>The monitor holds the service session, the module, its event and the thread.\<close>

record psc_monitor =
  psc_running :: bool
  psc_service :: bool
  psc_module :: bool
  psc_event :: bool
  psc_thread :: bool

definition new_psc :: psc_monitor where
  "new_psc = \<lparr>psc_running = False, psc_service = False, psc_module = False, psc_event = False, psc_thread = False\<rparr>"

record psc_env =
  pe_init :: bool
  pe_module :: bool
  pe_create :: bool
  pe_start :: bool

definition psc_start :: "psc_env \<Rightarrow> psc_monitor \<Rightarrow> psc_monitor" where
  "psc_start e m =
     (if psc_running m then m
      else
        (let m = m\<lparr>psc_running := True\<rparr>
         in if \<not> pe_init e then m\<lparr>psc_running := False\<rparr>
            else
              (let m = m\<lparr>psc_service := True\<rparr>
               in if \<not> pe_module e then m\<lparr>psc_service := False, psc_running := False\<rparr>
                  else
                    (let m = m\<lparr>psc_module := True, psc_event := True\<rparr>
                     in if \<not> pe_create e then
                          m\<lparr>psc_module := False, psc_event := False, psc_service := False, psc_running := False\<rparr>
                        else
                          (let m = m\<lparr>psc_thread := True\<rparr>
                           in if \<not> pe_start e then
                                m\<lparr>psc_thread := False, psc_module := False, psc_event := False, psc_service := False,
                                  psc_running := False\<rparr>
                              else m)))))"

definition psc_stop :: "psc_monitor \<Rightarrow> psc_monitor" where
  "psc_stop m =
     (if \<not> psc_running m then m
      else m\<lparr>psc_running := False, psc_module := False, psc_event := False, psc_thread := False, psc_service := False\<rparr>)"

text \<open>
  The thread: \<open>WaitFails\<close> ends it, \<open>RequestFails\<close> is skipped. The state is \<open>running_\<close> and
  \<open>s_is_awake\<close>; the list ends where the thread waits.
\<close>

datatype psc_wake = WaitFails | RequestFails | Request psc_pm_state

fun psc_thread_func :: "psc_wake list \<Rightarrow> bool \<times> bool \<Rightarrow> bool \<times> bool" where
  "psc_thread_func [] s = s"
| "psc_thread_func (w # ws) (on, awake) =
     (if \<not> on then (on, awake)
      else case w of
        WaitFails \<Rightarrow> (on, awake)
      | RequestFails \<Rightarrow> psc_thread_func ws (on, awake)
      | Request PmAwake \<Rightarrow> psc_thread_func ws (on, True)
      | Request PmReadySleep \<Rightarrow> psc_thread_func ws (on, False)
      | Request PmReadySleepCritical \<Rightarrow> psc_thread_func ws (on, False)
      | Request PmReadyShutdown \<Rightarrow> psc_thread_func ws (False, False)
      | Request _ \<Rightarrow> psc_thread_func ws (on, awake))"

text \<open>A start that fails gives everything back; a stop of a running monitor too.\<close>

lemma psc_start_all_or_nothing:
  "psc_start e new_psc = new_psc \<or>
   psc_start e new_psc = \<lparr>psc_running = True, psc_service = True, psc_module = True, psc_event = True, psc_thread = True\<rparr>"
  by (simp add: psc_start_def new_psc_def Let_def)

lemma psc_stop_start: "psc_stop (psc_start e new_psc) = new_psc"
  by (simp add: psc_start_def psc_stop_def new_psc_def Let_def)

text \<open>After a shutdown request \<open>running_\<close> is false, and \<open>stop\<close> closes nothing.\<close>

lemma psc_stop_after_shutdown:
  "fst (psc_thread_func (Request PmReadyShutdown # ws) (True, awake)) = False"
  "psc_stop (m\<lparr>psc_running := False\<rparr>) = m\<lparr>psc_running := False\<rparr>"
  by (cases ws) (simp_all add: psc_stop_def)

section \<open>The application\<close>

definition kEnableMdns :: bool where "kEnableMdns = True"
definition kRestartCooldown :: i64 where "kRestartCooldown = 3000000000"

text \<open>
  The client with its plugins, the static variables of the plugins and the lists of packet types;
  \<open>nxlink_init\<close> is \<open>has_initialized_nxlink_\<close>, which the constructor sets only when online.
\<close>

record ('fs, 'crt, 'key) nx_application =
  was_online :: bool
  nxlink_init :: bool
  nxlink_connects :: nat
  last_restart :: i64
  app_psc :: psc_monitor
  app_node :: "(plugin, 'fs, 'crt, 'key) node"
  app_statics :: plugin_statics
  app_caps :: "string list \<times> string list"

record app_env =
  ae_hostname :: string
  ae_base :: string
  ae_check :: i64
  ae_now :: i64
  ae_online :: bool
  ae_start :: start_env
  ae_clock :: i64
  ae_plugin :: "nat \<Rightarrow> nat \<Rightarrow> plugin_env"

text \<open>\<open>client_.reset()\<close> stops the old client before the new one is made and started.\<close>

definition replacement_client :: "app_env \<Rightarrow> ('fs, 'crt, 'key) nx_application \<Rightarrow> (plugin, 'fs, 'crt, 'key) node" where
  "replacement_client e a =
     new_node (ae_hostname e) (fst (app_caps a)) (snd (app_caps a)) (ae_base e)
       (cl_fs (nd_client (client_stop (app_node a))))"

definition restart_client ::
    "('crt, 'key) mbedtls \<Rightarrow> 'fs nxfs \<Rightarrow> app_env \<Rightarrow> bool \<Rightarrow> ('fs, 'crt, 'key) nx_application \<Rightarrow>
     ('fs, 'crt, 'key) nx_application" where
  "restart_client M F e force a =
     (if \<not> force \<and> sint (ae_check e - last_restart a) < sint kRestartCooldown then a
      else
        (let a = a\<lparr>last_restart := ae_now e\<rparr>
         in a\<lparr>app_node := snd (client_start M F (ae_start e) kEnableMdns (replacement_client e a))\<rparr>))"

text \<open>
  The poll of one plugin, in the surroundings the environment gives for its session and position;
  then of all plugins of the sessions that are not disconnected.
\<close>

definition poll_plugin ::
    "yyjson \<Rightarrow> app_env \<Rightarrow> nat \<Rightarrow> nat \<Rightarrow> plugin_statics \<times> (plugin, 'fs) client \<Rightarrow> plugin_statics \<times> (plugin, 'fs) client" where
  "poll_plugin Y e s i x =
     (case x of (g, c) \<Rightarrow>
        (case plugin_polls (ae_plugin e s i) (plugins (ses c s) ! i) g of
           (p, g, es) \<Rightarrow>
             (g, run_effects Y (ae_clock e) (di_id (ses_info (ses c s))) (client_effects es) (set_plugin s i p c))))"

definition poll_session ::
    "yyjson \<Rightarrow> app_env \<Rightarrow> nat \<Rightarrow> plugin_statics \<times> (plugin, 'fs) client \<Rightarrow> plugin_statics \<times> (plugin, 'fs) client" where
  "poll_session Y e s x =
     (case x of (g, c) \<Rightarrow>
        if disconnected (ses c s) then (g, c)
        else fold (poll_plugin Y e s) [0..<length (plugins (ses c s))] (g, c))"

definition process_events ::
    "yyjson \<Rightarrow> ('crt, 'key) mbedtls \<Rightarrow> 'fs nxfs \<Rightarrow> app_env \<Rightarrow> ('fs, 'crt, 'key) nx_application \<Rightarrow>
     ('fs, 'crt, 'key) nx_application" where
  "process_events Y M F e a =
     (let a = (if needs_restart (app_node a) then restart_client M F e False a else a);
          now_online = ae_online e;
          a = (if was_online a \<and> \<not> now_online then a
               else if \<not> was_online a \<and> now_online then
                 (let a = (if \<not> nxlink_init a then a\<lparr>nxlink_connects := nxlink_connects a + 1\<rparr> else a)
                  in restart_client M F e True a)
               else a);
          a = a\<lparr>was_online := now_online\<rparr>;
          (g, c) = fold (poll_session Y e) (map snd (devices (nd_client (app_node a)))) (app_statics a, nd_client (app_node a))
      in a\<lparr>app_statics := g, app_node := (app_node a)\<lparr>nd_client := c\<rparr>\<rparr>)"

text \<open>The constructor, with the packet types loaded before and the bit the uninitialised member holds.\<close>

definition new_application ::
    "('crt, 'key) mbedtls \<Rightarrow> 'fs nxfs \<Rightarrow> psc_env \<Rightarrow> app_env \<Rightarrow> string list \<times> string list \<Rightarrow> plugin_statics \<Rightarrow> bool \<Rightarrow>
     'fs \<Rightarrow> ('fs, 'crt, 'key) nx_application" where
  "new_application M F pe e caps g garbage fs =
     (let online = ae_online e;
          node = new_node (ae_hostname e) (fst caps) (snd caps) (ae_base e) fs
      in \<lparr>was_online = online, nxlink_init = (if online then True else garbage),
          nxlink_connects = (if online then 1 else 0), last_restart = ae_now e, app_psc = psc_start pe new_psc,
          app_node = snd (client_start M F (ae_start e) kEnableMdns node), app_statics = g, app_caps = caps\<rparr>)"

text \<open>The destructor.\<close>

definition end_application :: "('fs, 'crt, 'key) nx_application \<Rightarrow> ('fs, 'crt, 'key) nx_application" where
  "end_application a = a\<lparr>app_psc := psc_stop (app_psc a), app_node := client_stop (app_node a)\<rparr>"

section \<open>Lemmas\<close>

lemma new_node_sel [simp]:
  "running (new_node h s out b fs) = False" "needs_restart (new_node h s out b fs) = False"
  "cl_fs (nd_client (new_node h s out b fs)) = fs" "cl_base (nd_client (new_node h s out b fs)) = b"
  "nd_tls (new_node h s out b fs) = tls_context_init" "cl_sessions (nd_client (new_node h s out b fs)) = []"
  by (simp_all add: new_node_def)

text \<open>A client runs, or it waits to be restarted.\<close>

definition node_ok :: "('p, 'fs, 'crt, 'key) node \<Rightarrow> bool" where
  "node_ok nd \<longleftrightarrow> running nd \<or> needs_restart nd"

lemma started_ok: "\<not> running nd \<Longrightarrow> node_ok (snd (client_start M F e b nd))"
  using client_start_outcome [of M F e b nd] by (cases "client_start M F e b nd") (auto simp: node_ok_def split: if_splits)

lemma poll_keeps [simp]:
  "node_ok (nd\<lparr>nd_client := c\<rparr>) = node_ok nd" "running (nd\<lparr>nd_client := c\<rparr>) = running nd"
  "needs_restart (nd\<lparr>nd_client := c\<rparr>) = needs_restart nd"
  by (simp_all add: node_ok_def)

lemma restart_sel [simp]:
  "was_online (restart_client M F e f a) = was_online a" "nxlink_init (restart_client M F e f a) = nxlink_init a"
  by (simp_all add: restart_client_def Let_def)

lemma replacement_client_sel [simp]: "running (replacement_client e a) = False"
  by (simp add: replacement_client_def)

definition restart_due :: "app_env \<Rightarrow> ('fs, 'crt, 'key) nx_application \<Rightarrow> bool" where
  "restart_due e a \<longleftrightarrow> needs_restart (app_node a) \<and> sint kRestartCooldown \<le> sint (ae_check e - last_restart a)"

lemma process_events_sel:
  "last_restart (process_events Y M F e a) =
     (if restart_due e a \<or> \<not> was_online a \<and> ae_online e then ae_now e else last_restart a)"
  "was_online (process_events Y M F e a) = ae_online e"
  by (auto simp: process_events_def restart_due_def restart_client_def Let_def not_less split: prod.splits)

lemma process_events_ok: "node_ok (app_node a) \<Longrightarrow> node_ok (app_node (process_events Y M F e a))"
  by (auto simp: process_events_def restart_client_def Let_def started_ok split: prod.splits)

text \<open>What a start needs.\<close>

lemma client_starts:
  assumes "\<not> running nd" and "fst (load_or_create M (se_random e) F (cert_path (cl_base (nd_client nd)))
      (key_path (cl_base (nd_client nd))) (cl_fs (nd_client nd)) (nd_tls nd))"
    and "0 \<le> se_tcp_socket e" "kMinTcpPort \<le> p" "p \<le> kMaxTcpPort" "se_tcp_bind e p" "se_tcp_listen e p"
  shows "fst (client_start M F e b nd)"
proof -
  have "bind_first (se_tcp_bind e) (se_tcp_listen e) kMinTcpPort (Suc kMaxTcpPort - kMinTcpPort) \<noteq> None"
    unfolding bind_first_None using assms(4-7) by (auto simp: kMinTcpPort_def kMaxTcpPort_def)
  then obtain q where "create_tcp_server_socket (se_tcp_socket e) (se_tcp_bind e) (se_tcp_listen e) kMinTcpPort kMaxTcpPort =
      (se_tcp_socket e, Some q, False)"
    using assms(3) by (auto simp: create_tcp_server_socket_def)
  then show ?thesis
    using assms(1,2,3) by (auto simp: client_start_def Let_def split: prod.splits)
qed

lemma polled_node:
  "running (app_node (process_events Y M F e a)) =
     running (app_node (let a = (if needs_restart (app_node a) then restart_client M F e False a else a)
                        in if \<not> was_online a \<and> ae_online e then restart_client M F e True a else a))"
  by (auto simp: process_events_def restart_client_def replacement_client_def Let_def split: prod.splits)

lemma polled_needs:
  "needs_restart (app_node (process_events Y M F e a)) =
     needs_restart (app_node (let a = (if needs_restart (app_node a) then restart_client M F e False a else a)
                        in if \<not> was_online a \<and> ae_online e then restart_client M F e True a else a))"
  by (auto simp: process_events_def restart_client_def replacement_client_def Let_def split: prod.splits)

section \<open>Properties\<close>


definition demo_start :: start_env where
  "demo_start = \<lparr>se_random = replicate 16 0xAB, se_tcp_socket = 3, se_tcp_bind = (\<lambda>p. p = 1720), se_tcp_listen = (\<lambda>p. True),
     se_udp_socket = -1, se_udp_bind = (\<lambda>p. True), se_mdns_ok = True\<rparr>"

definition demo_app_env :: app_env where
  "demo_app_env = \<lparr>ae_hostname = ''nx'', ae_base = ''/c'', ae_check = 4000000000, ae_now = 4000000001, ae_online = True,
     ae_start = demo_start, ae_clock = 0, ae_plugin = (\<lambda>s i. demo_env)\<rparr>"

definition demo_app :: "(string \<rightharpoonup> string, string, nat) nx_application" where
  "demo_app = \<lparr>was_online = True, nxlink_init = True, nxlink_connects = 0, last_restart = 0, app_psc = new_psc,
     app_node = (new_node ''nx'' [] [] ''/c'' Map.empty)\<lparr>needs_restart := True\<rparr>, app_statics = new_statics,
     app_caps = ([], [])\<rparr>"

lemma demo_load: "fst (load_or_create mbed_ref (replicate 16 0xAB) nx_ref ''/c/cert.pem'' ''/c/key.pem'' Map.empty tls_context_init)"
proof -
  have w: "\<exists>fs'. write_file nx_ref p d fs = (True, fs')" if "length p < 0x301" for p d fs
    using write_file_up [OF nxfs_ok_ref nxfs_up_ref, of p d fs] that
    by (cases "write_file nx_ref p d fs") simp
  obtain fs1 where w1: "write_file nx_ref ''/c/cert.pem'' (''CCN='' @ generate_device_id (replicate 16 0xAB)) Map.empty = (True, fs1)"
    using w by fastforce
  obtain fs2 where w2: "write_file nx_ref ''/c/key.pem'' ''Kkkk'' fs1 = (True, fs2)" using w by fastforce
  have "load_from_files mbed_ref nx_ref ''/c/cert.pem'' ''/c/key.pem'' Map.empty tls_context_init = (False, tls_context_init)"
    by (simp add: load_from_files_def read_file_def nx_ref_def)
  then show ?thesis
    using w1 w2
    by (simp add: load_or_create_def generate_self_signed_def Let_def tls_context_init_def mbed_ref_def numeral_eq_Suc)
qed


end
