(* ===== verification/Ipc_Service.thy ===== *)
theory Ipc_Service
  imports Ipc_Server Application
begin

text \<open>
  \<open>sysmodule/src/ipc/ipc_service.cpp\<close>: the handler of the overlay's requests. A response has the
  bytes of the out data and of the receive buffer; the state is the application, the settings, the
  counter of test notifications and the broadcasts sent.
\<close>

record ('fs, 'crt, 'key) ipc_state =
  is_app :: "('fs, 'crt, 'key) nx_application"
  is_settings :: settings
  is_tests :: u32
  is_broadcasts :: "string list"

text \<open>
  Surroundings of a call: whether the application has a client (not while it restarts), the clock,
  what the plugin called sees, the result of an upload, the numbers of \<open>GetMemoryInfo\<close> and the
  version strings of the build.
\<close>

record 'fs ipc_env =
  ie_yy :: yyjson
  ie_fs :: "'fs nxfs"
  ie_class :: "plugin plugin_class"
  ie_client :: bool
  ie_clock :: i64
  ie_env :: plugin_env
  ie_shot :: shot_env
  ie_upload :: bool
  ie_memory :: "u64 list"
  ie_version :: string
  ie_commit :: string
  ie_debug :: bool

definition ipc_node :: "('fs, 'crt, 'key) ipc_state \<Rightarrow> (plugin, 'fs, 'crt, 'key) node" where
  "ipc_node st = app_node (is_app st)"

definition ipc_client :: "('fs, 'crt, 'key) ipc_state \<Rightarrow> (plugin, 'fs) client" where
  "ipc_client st = nd_client (ipc_node st)"

definition with_client :: "(plugin, 'fs) client \<Rightarrow> ('fs, 'crt, 'key) ipc_state \<Rightarrow> ('fs, 'crt, 'key) ipc_state" where
  "with_client c st = st\<lparr>is_app := (is_app st)\<lparr>app_node := (ipc_node st)\<lparr>nd_client := c\<rparr>\<rparr>\<rparr>"

definition respond :: "ipc_result \<Rightarrow> string \<Rightarrow> ipc_response" where
  "respond rc d = \<lparr>rs_result = rc, rs_data = d, rs_buffer = []\<rparr>"

text \<open>The loops that fill a receive buffer with entries of \<open>sz\<close> bytes, from entry \<open>n\<close> on.\<close>

fun fill_entries :: "nat \<Rightarrow> nat \<Rightarrow> nat \<Rightarrow> string list \<Rightarrow> string list" where
  "fill_entries sz recv_size n [] = []"
| "fill_entries sz recv_size n (e # es) =
     (if recv_size < (n + 1) * sz then [] else e # fill_entries sz recv_size (n + 1) es)"

definition respond_entries :: "string list \<Rightarrow> ipc_response" where
  "respond_entries es = \<lparr>rs_result = RcOk, rs_data = put_u32 (of_nat (length es)), rs_buffer = concat es\<rparr>"

section \<open>Plugins of a device\<close>

text \<open>\<open>session->plugin<T>()\<close>: the first plugin of the type.\<close>

definition plugin_index :: "plugin_kind \<Rightarrow> plugin list \<Rightarrow> nat option" where
  "plugin_index k ps = find_if (\<lambda>p. kind_of p = k) ps"

definition session_plugin :: "(plugin, 'fs) client \<Rightarrow> nat \<Rightarrow> plugin_kind \<Rightarrow> (nat \<times> plugin) option" where
  "session_plugin c s k = map_option (\<lambda>i. (i, plugins (ses c s) ! i)) (plugin_index k (plugins (ses c s)))"

definition call_plugin ::
    "'fs ipc_env \<Rightarrow> nat \<Rightarrow> nat \<Rightarrow> user_request \<Rightarrow> ('fs, 'crt, 'key) ipc_state \<Rightarrow> ('fs, 'crt, 'key) ipc_state \<times> peffect list" where
  "call_plugin e s i u st =
     (let c = ipc_client st
      in case user_call (ie_env e) u (plugins (ses c s) ! i) (app_statics (is_app st)) of
           (p, g, es) \<Rightarrow>
             (with_client (run_effects (ie_yy e) (ie_clock e) (di_id (ses_info (ses c s))) (client_effects es) (set_plugin s i p c))
                (st\<lparr>is_app := (is_app st)\<lparr>app_statics := g\<rparr>\<rparr>), es))"

text \<open>The commands that are one call into a plugin of a device.\<close>

definition on_device ::
    "'fs ipc_env \<Rightarrow> plugin_kind \<Rightarrow> string \<Rightarrow> user_request \<Rightarrow> ('fs, 'crt, 'key) ipc_state \<Rightarrow>
     ('fs, 'crt, 'key) ipc_state \<times> ipc_response" where
  "on_device e k dev u st =
     (case device (ipc_client st) dev of
        None \<Rightarrow> (st, respond RcNotFound [])
      | Some s \<Rightarrow>
          (case session_plugin (ipc_client st) s k of
             None \<Rightarrow> (st, respond RcNotFound [])
           | Some (i, p) \<Rightarrow> (fst (call_plugin e s i u st), respond RcOk [])))"

section \<open>Devices\<close>

definition device_type_num :: "string \<Rightarrow> u8" where
  "device_type_num t =
     (if t = ''phone'' then 2 else if t = ''laptop'' then 1 else if t = ''tablet'' then 3
      else if t = ''tv'' then 4 else 0)"

definition pair_state_num :: "plugin session \<Rightarrow> u8" where
  "pair_state_num x =
     (if paired x then 3 else if ses_pair_state x = RequestedByPeer then 2
      else if ses_pair_state x = Requested then 1 else 0)"

text \<open>The struct: id, name, type, pair state, connected, battery, charging, five capabilities, padding.\<close>

definition kDeviceInfoSize :: nat where "kDeviceInfoSize = 208"

definition enc_device_info :: "string \<Rightarrow> string \<Rightarrow> u8 \<Rightarrow> u8 \<Rightarrow> bool \<Rightarrow> i8 \<Rightarrow> bool \<Rightarrow> bool list \<Rightarrow> string" where
  "enc_device_info i name typ pair_st connected battery charging caps =
     pad_to kDeviceInfoSize
       (put_str KDEC_DEVICE_ID_MAX i @ put_str KDEC_DEVICE_NAME_MAX name @ put_u8 typ @ put_u8 pair_st @
        put_bool connected @ put_u8 (ucast battery) @ put_bool charging @ concat (map put_bool caps))"

definition device_entry :: "(plugin, 'fs) client \<Rightarrow> string \<times> nat \<Rightarrow> string" where
  "device_entry c ps =
     (case ps of (i, s) \<Rightarrow>
        let x = ses c s; info = ses_info x; caps = incoming_capabilities info;
            (level, charging) = (case session_plugin c s KBattery of
                                   Some (_, BatteryPlugin b) \<Rightarrow> read_remote_state b
                                 | _ \<Rightarrow> (-1, False))
        in enc_device_info i (di_name info) (device_type_num (di_type info)) (pair_state_num x) (\<not> disconnected x)
             level charging
             [FindMyPhoneRequest \<in> set caps, RunCommandRequest \<in> set caps, SystemVolumeRequest \<in> set caps,
              MprisRequest \<in> set caps, ShareRequest \<in> set caps])"

definition offline_entry :: "paired_device_info \<Rightarrow> string" where
  "offline_entry d =
     enc_device_info (di_id (pd_info d)) (di_name (pd_info d)) 0 3 False (-1) False [False, False, False, False, False]"

definition ipc_get_devices :: "'fs ipc_env \<Rightarrow> ipc_request \<Rightarrow> ('fs, 'crt, 'key) ipc_state \<Rightarrow> ipc_response" where
  "ipc_get_devices e r st =
     (case rq_recv r of
        None \<Rightarrow> respond RcBadInput []
      | Some recv_size \<Rightarrow>
          (let c = ipc_client st;
               live = fill_entries kDeviceInfoSize recv_size 0 (map (device_entry c) (devices c));
               off = fill_entries kDeviceInfoSize recv_size (length live)
                       (map offline_entry (offline_paired_devices (ie_yy e) (ie_fs e) c))
           in respond_entries (live @ off)))"

definition ipc_device_count :: "'fs ipc_env \<Rightarrow> ('fs, 'crt, 'key) ipc_state \<Rightarrow> ipc_response" where
  "ipc_device_count e st =
     (let c = ipc_client st
      in respond RcOk (put_u32 (of_nat (length (devices c) + length (offline_paired_devices (ie_yy e) (ie_fs e) c)))))"

text \<open>The four pairing commands; what the client's functions return is not looked at.\<close>

definition ipc_pairing ::
    "'fs ipc_env \<Rightarrow> ipc_cmd \<Rightarrow> ipc_request \<Rightarrow> ('fs, 'crt, 'key) ipc_state \<Rightarrow> ('fs, 'crt, 'key) ipc_state \<times> ipc_response" where
  "ipc_pairing e cmd r st =
     (if rq_size r < 64 then (st, respond RcBadInput [])
      else
        (let dev = dec_device_id (rq_ptr r); c = ipc_client st;
             c = (case cmd of
                    CmdRequestPair \<Rightarrow> request_pair (ie_yy e) (ie_clock e) dev c
                  | CmdAcceptPair \<Rightarrow> accept_pair (ie_yy e) (ie_fs e) (ie_class e) (ie_clock e) dev c
                  | CmdRejectPair \<Rightarrow> reject_pair (ie_yy e) (ie_fs e) (ie_clock e) dev c
                  | CmdUnpair \<Rightarrow> unpair (ie_yy e) (ie_fs e) (ie_clock e) dev c
                  | _ \<Rightarrow> c)
         in (with_client c st, respond RcOk [])))"

section \<open>Plugins\<close>

definition ipc_ping ::
    "'fs ipc_env \<Rightarrow> ipc_request \<Rightarrow> ('fs, 'crt, 'key) ipc_state \<Rightarrow> ('fs, 'crt, 'key) ipc_state \<times> ipc_response" where
  "ipc_ping e r st =
     (if rq_size r < 64 then (st, respond RcBadInput [])
      else on_device e KPing (dec_device_id (rq_ptr r)) (UPing []) st)"

definition ipc_ring ::
    "'fs ipc_env \<Rightarrow> ipc_request \<Rightarrow> ('fs, 'crt, 'key) ipc_state \<Rightarrow> ('fs, 'crt, 'key) ipc_state \<times> ipc_response" where
  "ipc_ring e r st =
     (if rq_size r < 64 then (st, respond RcBadInput [])
      else on_device e KFind (dec_device_id (rq_ptr r)) UFind st)"

definition kSinkInfoSize :: nat where "kSinkInfoSize = 208"

definition enc_sink :: "sink \<Rightarrow> string" where
  "enc_sink s =
     pad_to kSinkInfoSize
       (put_str KDEC_SINK_NAME_MAX (sk_name s) @ put_str KDEC_SINK_DESC_MAX (sk_description s) @ put_u32 (sk_volume s) @
        put_bool (sk_muted s) @ put_bool (sk_default s))"

definition ipc_get_sinks :: "ipc_request \<Rightarrow> ('fs, 'crt, 'key) ipc_state \<Rightarrow> ipc_response" where
  "ipc_get_sinks r st =
     (case rq_recv r of
        None \<Rightarrow> respond RcBadInput []
      | Some recv_size \<Rightarrow>
          if rq_size r < 64 then respond RcBadInput []
          else case device (ipc_client st) (dec_device_id (rq_ptr r)) of
                 None \<Rightarrow> respond RcNotFound []
               | Some s \<Rightarrow>
                   (case session_plugin (ipc_client st) s KVolume of
                      Some (_, SystemVolumePlugin v) \<Rightarrow>
                        respond_entries (fill_entries kSinkInfoSize recv_size 0 (map enc_sink (remote_sinks v)))
                    | _ \<Rightarrow> respond RcNotFound []))"

definition ipc_set_sink ::
    "'fs ipc_env \<Rightarrow> ipc_request \<Rightarrow> ('fs, 'crt, 'key) ipc_state \<Rightarrow> ('fs, 'crt, 'key) ipc_state \<times> ipc_response" where
  "ipc_set_sink e r st =
     (if rq_size r < 144 then (st, respond RcBadInput [])
      else case dec_set_sink (rq_ptr r) of
             (dev, sink_name, v, muted, is_default) \<Rightarrow> on_device e KVolume dev (USink sink_name v muted is_default) st)"

definition kMediaInfoSize :: nat where "kMediaInfoSize = 1136"

definition enc_media_info :: "string \<Rightarrow> string \<Rightarrow> player \<Rightarrow> string" where
  "enc_media_info dev name s =
     pad_to kMediaInfoSize
       (put_str KDEC_DEVICE_ID_MAX dev @ put_str KDEC_TEXT_MAX name @ put_str KDEC_TEXT_MAX (pl_title s) @
        put_str KDEC_TEXT_MAX (pl_artist s) @ put_str KDEC_TEXT_MAX (pl_album s) @ put_u64 (pl_position s) @
        put_u64 (pl_length s) @ put_u32 (pl_volume s) @ put_bool (is_playing s) @ put_bool (can_play s) @
        put_bool (can_pause s) @ put_bool (can_go_next s) @ put_bool (can_go_previous s) @
        put_bool (can_seek s \<and> 0 < sint (pl_length s)) @ put_str 17 (album_art_hash s))"

definition ipc_media_info :: "'fs ipc_env \<Rightarrow> ipc_request \<Rightarrow> ('fs, 'crt, 'key) ipc_state \<Rightarrow> ipc_response" where
  "ipc_media_info e r st =
     (case rq_recv r of
        None \<Rightarrow> respond RcBadInput []
      | Some recv_size \<Rightarrow>
          if rq_size r < 64 then respond RcBadInput []
          else
            (let dev = dec_device_id (rq_ptr r); none = respond_entries []
             in if recv_size < kMediaInfoSize then none
                else case device (ipc_client st) dev of
                       None \<Rightarrow> none
                     | Some s \<Rightarrow>
                         (case session_plugin (ipc_client st) s KMpris of
                            Some (_, MprisPlugin m) \<Rightarrow>
                              if current_player m = [] then none
                              else respond_entries [enc_media_info dev (current_player m) (player_state (now_ms (ie_env e)) m)]
                          | _ \<Rightarrow> none)))"

text \<open>An action outside the enumeration does nothing. \<open>SetVolume\<close> takes the low 32 bits.\<close>

definition media_request :: "string \<Rightarrow> u8 \<Rightarrow> i64 \<Rightarrow> user_request option" where
  "media_request player action val =
     (if unat action < length media_actions then
        Some (case media_actions ! unat action of
                Play \<Rightarrow> UAction player ''Play'' | Pause \<Rightarrow> UAction player ''Pause''
              | PlayPause \<Rightarrow> UAction player ''PlayPause'' | Stop \<Rightarrow> UAction player ''Stop''
              | Next \<Rightarrow> UAction player ''Next'' | Previous \<Rightarrow> UAction player ''Previous''
              | SetVolume \<Rightarrow> UVolume player (ucast val) | Seek \<Rightarrow> USeek player val
              | SetPosition \<Rightarrow> UPosition player val)
      else None)"

definition ipc_media_action ::
    "'fs ipc_env \<Rightarrow> ipc_request \<Rightarrow> ('fs, 'crt, 'key) ipc_state \<Rightarrow> ('fs, 'crt, 'key) ipc_state \<times> ipc_response" where
  "ipc_media_action e r st =
     (if rq_size r < 80 then (st, respond RcBadInput [])
      else case dec_media_action (rq_ptr r) of
             (dev, action, val) \<Rightarrow>
               (case device (ipc_client st) dev of
                  None \<Rightarrow> (st, respond RcNotFound [])
                | Some s \<Rightarrow>
                    (case session_plugin (ipc_client st) s KMpris of
                       Some (i, MprisPlugin m) \<Rightarrow>
                         if current_player m = [] then (st, respond RcOk [])
                         else (case media_request (current_player m) action val of
                                 None \<Rightarrow> (st, respond RcOk [])
                               | Some u \<Rightarrow> (fst (call_plugin e s i u st), respond RcOk []))
                     | _ \<Rightarrow> (st, respond RcNotFound []))))"

definition kCommandEntrySize :: nat where "kCommandEntrySize = 128"

definition enc_command :: "string \<times> string \<Rightarrow> string" where
  "enc_command p = put_str KDEC_COMMAND_ID_MAX (fst p) @ put_str KDEC_COMMAND_NAME_MAX (snd p)"

definition ipc_command_list :: "ipc_request \<Rightarrow> ('fs, 'crt, 'key) ipc_state \<Rightarrow> ipc_response" where
  "ipc_command_list r st =
     (case rq_recv r of
        None \<Rightarrow> respond RcBadInput []
      | Some recv_size \<Rightarrow>
          if rq_size r < 64 then respond RcBadInput []
          else case device (ipc_client st) (dec_device_id (rq_ptr r)) of
                 None \<Rightarrow> respond RcNotFound []
               | Some s \<Rightarrow>
                   (case session_plugin (ipc_client st) s KCommand of
                      Some (_, RunCommandPlugin c) \<Rightarrow>
                        respond_entries (fill_entries kCommandEntrySize recv_size 0 (map enc_command c))
                    | _ \<Rightarrow> respond RcNotFound []))"

definition ipc_run_command ::
    "'fs ipc_env \<Rightarrow> ipc_request \<Rightarrow> ('fs, 'crt, 'key) ipc_state \<Rightarrow> ('fs, 'crt, 'key) ipc_state \<times> ipc_response" where
  "ipc_run_command e r st =
     (if rq_size r < 128 then (st, respond RcBadInput [])
      else case dec_run_command (rq_ptr r) of (dev, cmd) \<Rightarrow> on_device e KCommand dev (UCommand cmd) st)"

definition ipc_screenshot ::
    "'fs ipc_env \<Rightarrow> ipc_request \<Rightarrow> ('fs, 'crt, 'key) ipc_state \<Rightarrow> ('fs, 'crt, 'key) ipc_state \<times> ipc_response" where
  "ipc_screenshot e r st =
     (if rq_size r < 64 then (st, respond RcBadInput [])
      else case device (ipc_client st) (dec_device_id (rq_ptr r)) of
             None \<Rightarrow> (st, respond RcNotFound [])
           | Some s \<Rightarrow>
               (case session_plugin (ipc_client st) s KShare of
                  None \<Rightarrow> (st, respond RcNotFound [])
                | Some (i, p) \<Rightarrow>
                    (case call_plugin e s i (UScreenshot (ie_shot e)) st of
                       (st, es) \<Rightarrow> (st, respond (if es \<noteq> [] \<and> ie_upload e then RcOk else RcIoError) []))))"

section \<open>Settings\<close>

definition ipc_read_bool :: "ipc_request \<Rightarrow> ('fs, 'crt, 'key) ipc_state \<Rightarrow> ipc_response" where
  "ipc_read_bool r st =
     (if rq_size r < 1 then respond RcBadInput []
      else
        (let key = get_u8 (rq_ptr r)
         in if of_nat (length bool_settings) \<le> key then respond RcNotFound []
            else respond RcOk (put_bool (get_bool_setting (is_settings st) key))))"

definition ipc_read_int :: "ipc_request \<Rightarrow> ('fs, 'crt, 'key) ipc_state \<Rightarrow> ipc_response" where
  "ipc_read_int r st =
     (if rq_size r < 1 then respond RcBadInput []
      else
        (let key = get_u8 (rq_ptr r)
         in if of_nat (length int_settings) \<le> key then respond RcNotFound []
            else respond RcOk (put_u32 (get_int_setting (is_settings st) key))))"

text \<open>The client's file system after a setting was written.\<close>

definition store_settings ::
    "settings \<times> 'fs \<Rightarrow> ('fs, 'crt, 'key) ipc_state \<Rightarrow> ('fs, 'crt, 'key) ipc_state" where
  "store_settings x st =
     (case x of (cfg, fs) \<Rightarrow> with_client ((ipc_client st)\<lparr>cl_fs := fs\<rparr>) (st\<lparr>is_settings := cfg\<rparr>))"

text \<open>After a change of the power setting every connected device is sent the new command list.\<close>

definition resend_commands ::
    "'fs ipc_env \<Rightarrow> string \<times> nat \<Rightarrow> ('fs, 'crt, 'key) ipc_state \<Rightarrow> ('fs, 'crt, 'key) ipc_state" where
  "resend_commands e p st =
     (case session_plugin (ipc_client st) (snd p) KCommand of
        None \<Rightarrow> st
      | Some (i, _) \<Rightarrow> fst (call_plugin e (snd p) i UCommands st))"

definition ipc_write_bool ::
    "'fs ipc_env \<Rightarrow> ipc_request \<Rightarrow> ('fs, 'crt, 'key) ipc_state \<Rightarrow> ('fs, 'crt, 'key) ipc_state \<times> ipc_response" where
  "ipc_write_bool e r st =
     (if rq_size r < 2 then (st, respond RcBadInput [])
      else case dec_write_bool (rq_ptr r) of
             (key, v) \<Rightarrow>
               (let st = store_settings
                           (set_bool_setting (ie_yy e) (ie_fs e) key v (is_settings st, cl_fs (ipc_client st))) st;
                    st = (if key = bool_key_num RunCommandPowerCommandsEnabled
                          then fold (resend_commands e) (devices (ipc_client st)) st else st)
                in (st, respond RcOk [])))"

definition ipc_write_int ::
    "'fs ipc_env \<Rightarrow> ipc_request \<Rightarrow> ('fs, 'crt, 'key) ipc_state \<Rightarrow> ('fs, 'crt, 'key) ipc_state \<times> ipc_response" where
  "ipc_write_int e r st =
     (if rq_size r < 8 then (st, respond RcBadInput [])
      else case dec_write_int (rq_ptr r) of
             (key, v) \<Rightarrow>
               (store_settings (set_int_setting (ie_yy e) (ie_fs e) key v (is_settings st, cl_fs (ipc_client st))) st,
                respond RcOk []))"

text \<open>The union of an entry is at offset 4.\<close>

definition kSettingEntrySize :: nat where "kSettingEntrySize = 16"

definition enc_setting :: "u8 \<times> setting_value \<Rightarrow> string" where
  "enc_setting p =
     pad_to kSettingEntrySize
       (put_u8 (fst p) @ replicate 3 (CHR 0x00) @ (case snd p of AsBool b \<Rightarrow> put_bool b | AsInt i \<Rightarrow> put_u32 i))"

definition ipc_all_settings :: "ipc_request \<Rightarrow> ('fs, 'crt, 'key) ipc_state \<Rightarrow> ipc_response" where
  "ipc_all_settings r st =
     (case rq_recv r of
        None \<Rightarrow> respond RcBadInput []
      | Some recv_size \<Rightarrow>
          respond_entries (fill_entries kSettingEntrySize recv_size 0 (map enc_setting (get_all_settings (is_settings st)))))"

section \<open>The rest\<close>

definition kMemoryInfoSize :: nat where "kMemoryInfoSize = 48"
definition kVersionInfoSize :: nat where "kVersionInfoSize = 64"

definition ipc_memory_info :: "'fs ipc_env \<Rightarrow> ipc_response" where
  "ipc_memory_info e = respond RcOk (pad_to kMemoryInfoSize (concat (map put_u64 (take 5 (ie_memory e)))))"

definition ipc_version_info :: "'fs ipc_env \<Rightarrow> ipc_response" where
  "ipc_version_info e =
     respond RcOk (pad_to kVersionInfoSize
       (put_str KDEC_VERSION_MAX (ie_version e) @ put_str KDEC_GIT_COMMIT_MAX (ie_commit e) @ put_bool (ie_debug e)))"

definition test_text :: string where
  "test_text = ''This is a long test notification. Lorem ipsum dolor sit amet, consectetur adipiscing elit, '' @
     ''sed do eiusmod tempor incididunt ut labore et dolore magna aliqua. Ut enim ad minim veniam, quis '' @
     ''nostrud exercitation ullamco laboris nisi ut aliquip ex ea commodo consequat.''"

definition ipc_test_notification ::
    "'fs ipc_env \<Rightarrow> ('fs, 'crt, 'key) ipc_state \<Rightarrow> ('fs, 'crt, 'key) ipc_state \<times> ipc_response" where
  "ipc_test_notification e st =
     (let es = post_app_notification (ie_env e) (''test'' @ nat_str (unat (is_tests st))) ''KDE Connect''
                 ''Test notification'' test_text [];
          st = st\<lparr>is_tests := is_tests st + 1\<rparr>
      in (with_client (run_effects (ie_yy e) (ie_clock e) [] (client_effects es) (ipc_client st)) st, respond RcOk []))"

definition ipc_send_broadcast ::
    "'fs ipc_env \<Rightarrow> ('fs, 'crt, 'key) ipc_state \<Rightarrow> ('fs, 'crt, 'key) ipc_state \<times> ipc_response" where
  "ipc_send_broadcast e st =
     (case send_broadcast (ie_yy e) (ie_clock e) (ipc_node st) of
        None \<Rightarrow> (st, respond RcOk [])
      | Some d \<Rightarrow> (st\<lparr>is_broadcasts := is_broadcasts st @ [d]\<rparr>, respond RcOk []))"

section \<open>The handler\<close>

definition handle_command ::
    "'fs ipc_env \<Rightarrow> u32 \<Rightarrow> ipc_request \<Rightarrow> ('fs, 'crt, 'key) ipc_state \<Rightarrow> ('fs, 'crt, 'key) ipc_state \<times> ipc_response" where
  "handle_command e cmd_id r st =
     (if \<not> ie_client e then (st, respond RcNotInitialized [])
      else case cmd_of_num cmd_id of
        None \<Rightarrow> (st, respond (RcError 1) [])
      | Some cmd \<Rightarrow>
          (case cmd of
             CmdGetApiVersion \<Rightarrow> (st, respond RcOk (put_u32 KDEC_IPC_API_VERSION))
           | CmdGetDeviceCount \<Rightarrow> (st, ipc_device_count e st)
           | CmdGetDevices \<Rightarrow> (st, ipc_get_devices e r st)
           | CmdRequestPair \<Rightarrow> ipc_pairing e cmd r st
           | CmdAcceptPair \<Rightarrow> ipc_pairing e cmd r st
           | CmdRejectPair \<Rightarrow> ipc_pairing e cmd r st
           | CmdUnpair \<Rightarrow> ipc_pairing e cmd r st
           | CmdPing \<Rightarrow> ipc_ping e r st
           | CmdGetVolumeSinks \<Rightarrow> (st, ipc_get_sinks r st)
           | CmdSetVolumeSink \<Rightarrow> ipc_set_sink e r st
           | CmdRing \<Rightarrow> ipc_ring e r st
           | CmdGetMediaInfo \<Rightarrow> (st, ipc_media_info e r st)
           | CmdSendMediaAction \<Rightarrow> ipc_media_action e r st
           | CmdGetCommandList \<Rightarrow> (st, ipc_command_list r st)
           | CmdRunCommand \<Rightarrow> ipc_run_command e r st
           | CmdReadBoolSetting \<Rightarrow> (st, ipc_read_bool r st)
           | CmdWriteBoolSetting \<Rightarrow> ipc_write_bool e r st
           | CmdReadIntSetting \<Rightarrow> (st, ipc_read_int r st)
           | CmdWriteIntSetting \<Rightarrow> ipc_write_int e r st
           | CmdGetAllSettings \<Rightarrow> (st, ipc_all_settings r st)
           | CmdSendScreenshot \<Rightarrow> ipc_screenshot e r st
           | CmdGetMemoryInfo \<Rightarrow> (st, ipc_memory_info e)
           | CmdSendTestNotification \<Rightarrow> ipc_test_notification e st
           | CmdSendBroadcast \<Rightarrow> ipc_send_broadcast e st
           | CmdGetVersionInfo \<Rightarrow> (st, ipc_version_info e)))"

definition handle_command_static ::
    "'fs ipc_env \<Rightarrow> ('fs, 'crt, 'key) ipc_state ipc_handler" where
  "handle_command_static e st r = handle_command e (ucast (rq_cmd r)) r st"

section \<open>Start and stop\<close>

definition MAX_SESSIONS :: nat where "MAX_SESSIONS = 2"

record ipc_service =
  sv_running :: bool
  sv_server :: "ipc_server option"
  sv_thread :: bool

definition new_ipc_service :: ipc_service where
  "new_ipc_service = \<lparr>sv_running = False, sv_server = None, sv_thread = False\<rparr>"

definition exit_server :: "ipc_service \<Rightarrow> ipc_service" where
  "exit_server sv = sv\<lparr>sv_server := map_option (\<lambda>s. fst (ipcServerExit s)) (sv_server sv)\<rparr>"

text \<open>The settings are loaded once the thread runs.\<close>

definition service_start ::
    "yyjson \<Rightarrow> 'fs nxfs \<Rightarrow> nat \<Rightarrow> nat option \<Rightarrow> bool \<Rightarrow> bool \<Rightarrow> ipc_service \<times> ('fs, 'crt, 'key) ipc_state \<Rightarrow>
     ipc_service \<times> ('fs, 'crt, 'key) ipc_state" where
  "service_start Y F wait_objects registered create_ok start_ok x =
     (case x of (sv, st) \<Rightarrow>
        if sv_running sv then (sv, st)
        else
          (let sv = sv\<lparr>sv_running := True\<rparr>;
               (rc, server) = ipcServerInit wait_objects registered MAX_SESSIONS;
               sv = sv\<lparr>sv_server := (case server of Some s \<Rightarrow> Some s | None \<Rightarrow> sv_server sv)\<rparr>
           in if rc \<noteq> RcOk then (sv\<lparr>sv_running := False\<rparr>, st)
              else if \<not> create_ok then ((exit_server sv)\<lparr>sv_running := False\<rparr>, st)
              else
                (let sv = sv\<lparr>sv_thread := True\<rparr>
                 in if \<not> start_ok then ((exit_server (sv\<lparr>sv_thread := False\<rparr>))\<lparr>sv_running := False\<rparr>, st)
                    else (sv, st\<lparr>is_settings := settings_load Y F (cl_fs (ipc_client st)) (is_settings st)\<rparr>))))"

definition service_stop :: "ipc_service \<Rightarrow> ipc_service" where
  "service_stop sv =
     (if \<not> sv_running sv then sv else (exit_server (sv\<lparr>sv_running := False\<rparr>))\<lparr>sv_thread := False\<rparr>)"

text \<open>The thread: rounds of the server while \<open>running_\<close>; an error is logged and ignored.\<close>

fun service_thread ::
    "'fs ipc_env \<Rightarrow> (bool \<times> ipc_round) list \<Rightarrow> ipc_server \<times> ('fs, 'crt, 'key) ipc_state \<Rightarrow>
     ipc_server \<times> ('fs, 'crt, 'key) ipc_state" where
  "service_thread e [] x = x"
| "service_thread e ((on, ev) # evs) x =
     (if \<not> on then x
      else case ipcServerProcess (handle_command_static e) ev x of (rc, x, closed, reply) \<Rightarrow> service_thread e evs x)"

text \<open>A start that fails leaves no handle open.\<close>

lemma service_start_fails:
  assumes "service_start Y F wo reg cok sok (new_ipc_service, st) = (sv, st')" "\<not> sv_running sv"
  shows "\<not> sv_thread sv \<and> (case sv_server sv of None \<Rightarrow> True | Some s \<Rightarrow> srv_handles s = []) \<and> st' = st"
  using assms
  by (auto simp: service_start_def new_ipc_service_def exit_server_def ipcServerExit_def ipcServerInit_def Let_def
      split: if_splits option.splits)

end
