(* ===== verification/Ipc_Safety.thy ===== *)
theory Ipc_Safety
  imports Ipc_Service
begin

text \<open>
  Properties of the service: no response overruns its buffers, and what the overlay asks for
  reaches the peer.
\<close>

section \<open>Buffers\<close>

lemma fill_fits:
  "\<forall>x\<in>set es. length x = sz \<Longrightarrow> n * sz \<le> recv_size \<Longrightarrow>
     n * sz + length (concat (fill_entries sz recv_size n es)) \<le> recv_size"
proof (induction es arbitrary: n)
  case (Cons x es)
  show ?case
  proof (cases "recv_size < (n + 1) * sz")
    case False
    then have "(n + 1) * sz + length (concat (fill_entries sz recv_size (n + 1) es)) \<le> recv_size"
      using Cons by (intro Cons.IH) auto
    then show ?thesis using Cons.prems(1) False by simp
  qed (use Cons in simp)
qed simp

lemma fill_lengths: "\<forall>x\<in>set es. length x = sz \<Longrightarrow> x \<in> set (fill_entries sz recv_size n es) \<Longrightarrow> length x = sz"
  by (induction es arbitrary: n) (auto split: if_splits)

lemma fill_from_0:
  "\<forall>x\<in>set es. length x = sz \<Longrightarrow> length (concat (fill_entries sz recv_size 0 es)) \<le> recv_size"
  using fill_fits [of es sz 0 recv_size] by simp

lemma length_entries:
  "length (enc_device_info i nm t p c b ch caps) = kDeviceInfoSize" if "length caps = 5"
  using that by (auto simp: enc_device_info_def kDeviceInfoSize_def ipc_sizes length_concat_rows [of _ 1])

lemma length_enc [simp]:
  "length (device_entry c p) = kDeviceInfoSize" "length (offline_entry d) = kDeviceInfoSize"
  "length (enc_sink s) = kSinkInfoSize" "length (enc_media_info dev nm pl) = kMediaInfoSize"
  "length (enc_command cmd) = kCommandEntrySize" "length (enc_setting kv) = kSettingEntrySize"
proof -
  show "length (device_entry c p) = kDeviceInfoSize"
    by (auto simp: device_entry_def Let_def length_entries split: prod.split)
  show "length (offline_entry d) = kDeviceInfoSize" by (simp add: offline_entry_def length_entries)
  show "length (enc_sink s) = kSinkInfoSize" by (simp add: enc_sink_def kSinkInfoSize_def ipc_sizes)
  show "length (enc_media_info dev nm pl) = kMediaInfoSize"
    by (simp add: enc_media_info_def kMediaInfoSize_def ipc_sizes)
  show "length (enc_command cmd) = kCommandEntrySize" by (simp add: enc_command_def kCommandEntrySize_def ipc_sizes)
  show "length (enc_setting kv) = kSettingEntrySize"
    by (simp add: enc_setting_def kSettingEntrySize_def split: setting_value.split)
qed

definition fits :: "ipc_request \<Rightarrow> ipc_response \<Rightarrow> bool" where
  "fits r x \<longleftrightarrow> length (rs_data x) \<le> kMaxResponseData \<and>
     length (rs_buffer x) \<le> (case rq_recv r of None \<Rightarrow> 0 | Some n \<Rightarrow> n)"

lemma fits_respond [simp]: "fits r (respond rc d) \<longleftrightarrow> length d \<le> kMaxResponseData"
  by (simp add: fits_def respond_def)

lemma fits_entries: "rq_recv r = Some n \<Longrightarrow> length (concat es) \<le> n \<Longrightarrow> fits r (respond_entries es)"
  by (simp add: fits_def respond_entries_def kMaxResponseData_def raw_header_size_def)

lemma fits_lists:
  "fits r (ipc_get_devices e r st)" "fits r (ipc_get_sinks r st)" "fits r (ipc_media_info e r st)"
  "fits r (ipc_command_list r st)" "fits r (ipc_all_settings r st)"
proof -
  show "fits r (ipc_get_devices e r st)"
  proof (cases "rq_recv r")
    case (Some n)
    let ?live = "fill_entries kDeviceInfoSize n 0 (map (device_entry (ipc_client st)) (devices (ipc_client st)))"
    have a: "length (concat ?live) \<le> n" by (intro fill_from_0) auto
    have b: "length (concat ?live) = length ?live * kDeviceInfoSize"
      using fill_lengths [of "map (device_entry (ipc_client st)) (devices (ipc_client st))" kDeviceInfoSize]
      by (intro length_concat_rows) auto
    show ?thesis
      unfolding ipc_get_devices_def Some
      using a b fill_fits [of "map offline_entry (offline_paired_devices (ie_yy e) (ie_fs e) (ipc_client st))"
          kDeviceInfoSize "length ?live" n]
      by (auto simp: Let_def intro!: fits_entries [OF Some])
  qed (simp add: ipc_get_devices_def)
  show "fits r (ipc_get_sinks r st)"
    by (cases "rq_recv r")
      (auto simp: ipc_get_sinks_def intro!: fits_entries fill_from_0 split: option.splits plugin.splits)
  show "fits r (ipc_media_info e r st)"
    by (cases "rq_recv r")
      (auto simp: ipc_media_info_def Let_def intro!: fits_entries split: option.splits plugin.splits)
  show "fits r (ipc_command_list r st)"
    by (cases "rq_recv r")
      (auto simp: ipc_command_list_def intro!: fits_entries fill_from_0 split: option.splits plugin.splits)
  show "fits r (ipc_all_settings r st)"
    by (cases "rq_recv r") (auto simp: ipc_all_settings_def intro!: fits_entries fill_from_0)
qed

lemma max_data: "kMaxResponseData = 224"
  by (simp add: kMaxResponseData_def raw_header_size_def)

lemma fits_others:
  "fits r (ipc_device_count e st)" "fits r (ipc_read_bool r st)" "fits r (ipc_read_int r st)"
  "fits r (ipc_version_info e)" "fits r (ipc_memory_info e)"
  "fits r (snd (ipc_pairing e cmd r st))" "fits r (snd (on_device e k dev u st))"
  "fits r (snd (ipc_write_bool e r st))" "fits r (snd (ipc_write_int e r st))"
  "fits r (snd (ipc_test_notification e st))" "fits r (snd (ipc_send_broadcast e st))"
  "fits r (snd (ipc_screenshot e r st))" "fits r (snd (ipc_media_action e r st))"
proof -
  have "length (concat (map put_u64 (take 5 (ie_memory e)))) = length (take 5 (ie_memory e)) * 8"
    by (subst length_concat_rows [of _ 8]) auto
  then show "fits r (ipc_memory_info e)"
    by (simp add: ipc_memory_info_def kMemoryInfoSize_def max_data min_def)
qed (auto simp: max_data ipc_device_count_def ipc_read_bool_def ipc_read_int_def ipc_version_info_def kVersionInfoSize_def
    ipc_sizes ipc_pairing_def on_device_def ipc_write_bool_def ipc_write_int_def ipc_test_notification_def
    ipc_send_broadcast_def ipc_screenshot_def ipc_media_action_def Let_def split: option.split prod.split plugin.split)

lemma handle_command_fits: "fits r (snd (handle_command e cmd_id r st))"
  by (auto simp: handle_command_def fits_lists fits_others max_data ipc_ping_def ipc_ring_def ipc_set_sink_def
      ipc_run_command_def split: option.split ipc_cmd.split prod.split)

section \<open>From the overlay to the peer\<close>

text \<open>
  \<open>m\<close> carries a request: what libnx lays out for \<open>serviceDispatchIn\<close>, the raw header and the
  struct, with the data words announced covering both. What follows is not specified.
\<close>

definition carries :: "ipc_cmd \<Rightarrow> string \<Rightarrow> hipc_message \<Rightarrow> bool" where
  "carries cmd bytes m \<longleftrightarrow>
     hm_type m = CmifRequest \<and> raw_header_size + length bytes \<le> hm_words m * 4 \<and>
     (\<exists>rest. hm_data m = Some (put_u64 CMIF_IN_HEADER_MAGIC @ put_u64 (ucast (cmd_num cmd)) @ bytes @ rest))"

lemma parse_carried:
  assumes "carries cmd bytes m" "bytes \<noteq> []"
  shows "\<exists>r rest. ipcServerParseRequest m = (RcOk, r) \<and> ucast (rq_cmd r) = cmd_num cmd \<and> rq_ptr r = bytes @ rest \<and>
    length bytes \<le> rq_size r"
proof -
  obtain rest where d: "hm_data m = Some (put_u64 CMIF_IN_HEADER_MAGIC @ put_u64 (ucast (cmd_num cmd)) @ bytes @ rest)"
    using assms(1) by (auto simp: carries_def)
  have w: "hm_type m = CmifRequest" "16 + length bytes \<le> hm_words m * 4" "0 < length bytes"
    using assms by (auto simp: carries_def raw_header_size_def)
  let ?h = "put_u64 CMIF_IN_HEADER_MAGIC @ put_u64 (ucast (cmd_num cmd)) @ bytes @ rest"
  have 8: "drop 8 ?h = put_u64 (ucast (cmd_num cmd)) @ bytes @ rest" "drop 16 ?h = bytes @ rest"
    using skip [of "put_u64 CMIF_IN_HEADER_MAGIC" 8] skip [of "put_u64 (ucast (cmd_num cmd))" 8] by simp_all
  have "ucast (ucast (cmd_num cmd) :: u64) = cmd_num cmd"
    by (rule bit_word_eqI) (simp add: bit_simps)
  moreover have "4 < hm_words m" "length bytes \<le> hm_words m * 4 - 16" using w(2,3) by linarith+
  ultimately show ?thesis
    using w(1) by (simp add: ipcServerParseRequest_def Let_def d 8 raw_header_size_def del: append.assoc)
qed

lemma dec_run_command_enc: "dec_run_command (enc_run_command (d, c) @ rest) = (cut64 d, cut64 c)"
  by (simp add: dec_run_command_def enc_run_command_def ipc_sizes get_put_64 drop_put_str)

text \<open>A packet sent to a live session is appended to its queue, and nothing else changes.\<close>

lemma send_to_live:
  assumes "device c d = Some s" "\<not> disconnected (ses c s)" "s < length (cl_heap c)" "di_id (ses_info (ses c s)) = d"
  shows "let c' = run_effects Y clock d [Send pkt] (set_plugin s i p c)
     in send_queue (ses c' s) = send_queue (ses c s) @ [serialize Y clock pkt] \<and> same_core c c'"
proof -
  have "send_queue (ses (run_effects Y clock d [Send pkt] (set_plugin s i p c)) s) =
      send_queue (ses c s) @ [serialize Y clock pkt]"
    using assms
    by (simp add: run_effects_def run_effect_def send_packet_def device_def set_plugin_def upd_ses_def ses_def)
  then show ?thesis
    by (simp add: Let_def same_core_trans [OF same_core_set_plugin same_core_effects])
qed

lemma run_command_effects:
  assumes "device (ipc_client st) dev = Some s" "\<not> disconnected (ses (ipc_client st) s)"
    and "s < length (cl_heap (ipc_client st))" "di_id (ses_info (ses (ipc_client st) s)) = dev"
    and "session_plugin (ipc_client st) s KCommand = Some (i, RunCommandPlugin cs)"
  shows "\<exists>st'. on_device e KCommand dev (UCommand cmd) st = (st', respond RcOk []) \<and>
    send_queue (ses (ipc_client st') s) = send_queue (ses (ipc_client st) s) @
      [serialize (ie_yy e) (ie_clock e)
        ((new_packet RunCommandRequest)\<lparr>pkt_body := set_str (pv_yy (ie_env e)) ''key'' cmd jb_empty\<rparr>)] \<and>
    same_core (ipc_client st) (ipc_client st')"
proof -
  have p: "plugins (ses (ipc_client st) s) ! i = RunCommandPlugin cs"
    using assms(5) by (auto simp: session_plugin_def)
  show ?thesis
    using assms(1,5) p send_to_live [OF assms(1-4)]
    by (simp add: on_device_def call_plugin_def user_call_def run_remote_command_def client_effects_def with_client_def
        ipc_client_def ipc_node_def Let_def assms(4) [unfolded ipc_client_def ipc_node_def])
qed

text \<open>
  C34: what the user asks for reaches the peer. When the overlay calls \<open>kdecIpcRunCommand\<close> for a
  connected device, the message it sends makes one round of the server's loop answer success and
  put exactly one packet at the end of that device's outgoing queue: the request of the command with
  the key the overlay gave. Nothing else of the client changes but the plugin's own state.
\<close>

theorem user_command_arrives:
  assumes "carries CmdRunCommand (enc_run_command (dev, cmd)) (ir_message ev)"
    and "nul_free dev" "length dev < 64" "nul_free cmd" "length cmd < 64"
    and "ir_wait ev = Some h" "0 < h" "h < int (length (srv_handles srv))" "ir_receive ev" "ir_reply ev = ReplyOk"
    and "ie_client e" "device (ipc_client st) dev = Some s" "\<not> disconnected (ses (ipc_client st) s)"
    and "s < length (cl_heap (ipc_client st))" "di_id (ses_info (ses (ipc_client st) s)) = dev"
    and "session_plugin (ipc_client st) s KCommand = Some (i, RunCommandPlugin cs)"
  shows "\<exists>st'. ipcServerProcess (handle_command_static e) ev (srv, st) = (RcOk, (srv, st'), [], Some (8, RcOk, [])) \<and>
    send_queue (ses (ipc_client st') s) = send_queue (ses (ipc_client st) s) @
      [serialize (ie_yy e) (ie_clock e)
        ((new_packet RunCommandRequest)\<lparr>pkt_body := set_str (pv_yy (ie_env e)) ''key'' cmd jb_empty\<rparr>)] \<and>
    same_core (ipc_client st) (ipc_client st')"
proof -
  have len: "length (enc_run_command (dev, cmd)) = 128" by (rule wire_command.enc_width)
  then have "enc_run_command (dev, cmd) \<noteq> []" by auto
  from parse_carried [OF assms(1) this] obtain r rest where r: "ipcServerParseRequest (ir_message ev) = (RcOk, r)"
    "ucast (rq_cmd r) = cmd_num CmdRunCommand" "rq_ptr r = enc_run_command (dev, cmd) @ rest" "\<not> rq_size r < 128"
    using len by auto
  have t: "hm_type (ir_message ev) = CmifRequest" using assms(1) by (simp add: carries_def)
  have "dec_run_command (rq_ptr r) = (dev, cmd)"
    using assms(2-5) by (simp add: r(3) dec_run_command_enc cut64_id)
  then have h: "handle_command_static e st r = on_device e KCommand dev (UCommand cmd) st"
    using r(4) assms(11)
    by (simp add: handle_command_static_def handle_command_def r(2) cmd_num_inverse ipc_run_command_def)
  obtain st' where d: "on_device e KCommand dev (UCommand cmd) st = (st', respond RcOk [])"
    "send_queue (ses (ipc_client st') s) = send_queue (ses (ipc_client st) s) @
      [serialize (ie_yy e) (ie_clock e)
        ((new_packet RunCommandRequest)\<lparr>pkt_body := set_str (pv_yy (ie_env e)) ''key'' cmd jb_empty\<rparr>)]"
    "same_core (ipc_client st) (ipc_client st')"
    using run_command_effects [OF assms(12-16), of e cmd] by blast
  have "ipcServerProcess (handle_command_static e) ev (srv, st) = (RcOk, (srv, st'), [], Some (8, RcOk, []))"
    using assms(6-10) r(1) t h d(1)
    by (simp add: ipcServerProcess_def ipcServerProcessSession_def ipcServerPrepareResponse_def respond_def raw_header_size_def)
  then show ?thesis using d by blast
qed

definition demo_ipc_env :: "(string \<rightharpoonup> string) ipc_env" where
  "demo_ipc_env = \<lparr>ie_yy = yy_ref, ie_fs = nx_ref, ie_class = \<lparr>pc_name = (\<lambda>p. []), supported_packet_types = (\<lambda>p. []),
       outgoing_packet_types = (\<lambda>p. []), on_packet_received = (\<lambda>p np. (False, p, [])), on_connected = (\<lambda>p q. (p, []))\<rparr>,
     ie_client = True, ie_clock = 7, ie_env = demo_env,
     ie_shot = \<lparr>sh_provider = True, sh_album_ok = True, sh_hid_ok = True, sh_before = None, sh_polls = [], sh_sizes = [],
       sh_open_ok = True, sh_time = 0\<rparr>,
     ie_upload = True, ie_memory = [], ie_version = ''1'', ie_commit = ''a'', ie_debug = False\<rparr>"

definition demo_session :: "plugin session" where
  "demo_session = \<lparr>ses_info = sample_info\<lparr>di_id := ''phone''\<rparr>, ses_pair_state = Paired, pairing_timestamp = 0, paired = True,
     ses_cert_pem = ''C'', peer_pubkey = [], peer_host = ''10.0.0.2'', has_tls = True, ses_fd = 6, send_queue = [],
     disconnected = False, plugins = new_plugins\<rparr>"

definition demo_ipc_state :: "(string \<rightharpoonup> string, string, nat) ipc_state" where
  "demo_ipc_state = \<lparr>is_app = demo_app\<lparr>app_node := (app_node demo_app)\<lparr>nd_client := (nd_client (app_node demo_app))
       \<lparr>cl_heap := [demo_session], cl_sessions := [(''phone'', 0)]\<rparr>\<rparr>\<rparr>,
     is_settings = empty_settings, is_tests = 0, is_broadcasts = []\<rparr>"

definition demo_ipc_round :: ipc_round where
  "demo_ipc_round = \<lparr>ir_wait = Some 1, ir_accept = None, ir_receive = True,
     ir_message = \<lparr>hm_type = CmifRequest, hm_words = 40, hm_data = Some (put_u64 CMIF_IN_HEADER_MAGIC @
       put_u64 (ucast (cmd_num CmdRunCommand)) @ enc_run_command (''phone'', ''lock'') @ ''pad''), hm_recv = None\<rparr>,
     ir_reply = ReplyOk\<rparr>"

theorem user_command_arrives_witness:
  "\<exists>st'. ipcServerProcess (handle_command_static demo_ipc_env) demo_ipc_round (\<lparr>srv_max = 3, srv_handles = [5, 7]\<rparr>, demo_ipc_state) =
       (RcOk, (\<lparr>srv_max = 3, srv_handles = [5, 7]\<rparr>, st'), [], Some (8, RcOk, [])) \<and>
     send_queue (ses (ipc_client st') 0) =
       [serialize yy_ref 7 ((new_packet RunCommandRequest)\<lparr>pkt_body := set_str yy_ref ''key'' ''lock'' jb_empty\<rparr>)]"
proof -
  have c: "carries CmdRunCommand (enc_run_command (''phone'', ''lock'')) (ir_message demo_ipc_round)"
    using wire_command.enc_width [of "(''phone'', ''lock'')"]
    by (auto simp: carries_def demo_ipc_round_def raw_header_size_def)
  have r: "ir_wait demo_ipc_round = Some 1" "ir_receive demo_ipc_round" "ir_reply demo_ipc_round = ReplyOk"
    by (simp_all add: demo_ipc_round_def)
  have e: "ie_client demo_ipc_env" "ie_yy demo_ipc_env = yy_ref" "ie_clock demo_ipc_env = 7" "ie_env demo_ipc_env = demo_env"
    by (simp_all add: demo_ipc_env_def)
  have cl: "cl_heap (ipc_client demo_ipc_state) = [demo_session]" "device (ipc_client demo_ipc_state) ''phone'' = Some 0"
    by (simp_all add: ipc_client_def ipc_node_def demo_ipc_state_def device_def)
  have s: "ses (ipc_client demo_ipc_state) 0 = demo_session" by (simp add: ses_def cl)
  have p: "session_plugin (ipc_client demo_ipc_state) 0 KCommand = Some (7, RunCommandPlugin [])"
    by (simp add: session_plugin_def s demo_session_def plugin_index_def new_plugins_def)
  have d: "\<not> disconnected demo_session" "di_id (ses_info demo_session) = ''phone''" "send_queue demo_session = []"
    by (simp_all add: demo_session_def)
  show ?thesis
    using user_command_arrives [OF c _ _ _ _ r(1) _ _ r(2,3) e(1) cl(2) _ _ _ p, of "\<lparr>srv_max = 3, srv_handles = [5, 7]\<rparr>"]
      d cl(1) s e by (simp add: nul_free_def) blast
qed

end
