(* ===== verification/Ipc_Client.thy ===== *)
theory Ipc_Client
  imports Ipc_Safety
begin

text \<open>
  \<open>common/src/kdec/ipc_client.cpp\<close>: the overlay's side of the service. \<open>serviceDispatch\<close> of libnx is the
  argument \<open>D\<close> of the functions: given a command, its struct and the size of a receive buffer it
  answers a result, the bytes of the out data and what was written to the receive buffer, and moves a
  state on. With \<open>service_dispatch\<close> the other side is the model of the service itself.
\<close>

section \<open>The connection\<close>

text \<open>\<open>g_kdecSrv\<close> and \<open>g_refCnt\<close>.\<close>

record kdec_conn =
  kc_active :: bool
  kc_refs :: nat

definition kdecIpcIsConnected :: "kdec_conn \<Rightarrow> bool" where
  "kdecIpcIsConnected c = kc_active c"

text \<open>The name can be registered only while the service is not there; the trial is taken back.\<close>

definition kdecIpcRunning :: "bool \<Rightarrow> bool \<times> bool" where
  "kdecIpcRunning register_ok = (let run = \<not> register_ok in (run, \<not> run))"

definition kdecIpcInitialize :: "bool \<Rightarrow> kdec_conn \<Rightarrow> ipc_result \<times> kdec_conn" where
  "kdecIpcInitialize get_ok c =
     (let c = c\<lparr>kc_refs := kc_refs c + 1\<rparr>
      in if kc_active c then (RcOk, c)
         else if get_ok then (RcOk, c\<lparr>kc_active := True\<rparr>)
         else (RcError 0, c\<lparr>kc_refs := kc_refs c - 1, kc_active := False\<rparr>))"

definition kdecIpcExit :: "kdec_conn \<Rightarrow> kdec_conn" where
  "kdecIpcExit c =
     (if kc_refs c = 0 then c
      else (let c = c\<lparr>kc_refs := kc_refs c - 1\<rparr> in if kc_refs c = 0 then c\<lparr>kc_active := False\<rparr> else c))"

interpretation kdec: ref_counted kc_refs kc_active "\<lambda>ok c. snd (kdecIpcInitialize ok c)" kdecIpcExit
    "\<lambda>c. kc_active c \<longleftrightarrow> 0 < kc_refs c"
  by unfold_locales (auto simp: kdecIpcInitialize_def kdecIpcExit_def Let_def)

section \<open>Entries\<close>

text \<open>The structs as the overlay reads them.\<close>

record kdec_device =
  kd_id :: string
  kd_name :: string
  kd_type :: u8
  kd_pair_state :: u8
  kd_connected :: bool
  kd_battery :: i8
  kd_charging :: bool
  kd_supports :: "bool list"

definition dec_device_info :: "string \<Rightarrow> kdec_device" where
  "dec_device_info bs =
     \<lparr>kd_id = get_str KDEC_DEVICE_ID_MAX bs, kd_name = get_str KDEC_DEVICE_NAME_MAX (drop 64 bs),
      kd_type = get_u8 (drop 192 bs), kd_pair_state = get_u8 (drop 193 bs), kd_connected = get_bool (drop 194 bs),
      kd_battery = get_u8 (drop 195 bs), kd_charging = get_bool (drop 196 bs),
      kd_supports = map (\<lambda>i. get_bool (drop (197 + i) bs)) [0..<5]\<rparr>"

record kdec_sink =
  ks_name :: string
  ks_description :: string
  ks_volume :: i32
  ks_muted :: bool
  ks_default :: bool

definition dec_sink :: "string \<Rightarrow> kdec_sink" where
  "dec_sink bs =
     \<lparr>ks_name = get_str KDEC_SINK_NAME_MAX bs, ks_description = get_str KDEC_SINK_DESC_MAX (drop 64 bs),
      ks_volume = get_u32 (drop 192 bs), ks_muted = get_bool (drop 196 bs), ks_default = get_bool (drop 197 bs)\<rparr>"

definition dec_command :: "string \<Rightarrow> string \<times> string" where
  "dec_command bs = (get_str KDEC_COMMAND_ID_MAX bs, get_str KDEC_COMMAND_NAME_MAX (drop 64 bs))"

text \<open>An entry does not say which member of its union is set: the reader knows it from the place.\<close>

definition dec_setting :: "string \<Rightarrow> u8 \<times> bool \<times> i32" where
  "dec_setting bs = (get_u8 bs, get_bool (drop 4 bs), get_u32 (drop 4 bs))"

section \<open>Calls\<close>

type_synonym 's ipc_dispatch = "u32 \<Rightarrow> string \<Rightarrow> nat option \<Rightarrow> 's \<Rightarrow> 's \<times> ipc_result \<times> string \<times> string"

definition dispatch_in :: "'s ipc_dispatch \<Rightarrow> ipc_cmd \<Rightarrow> string \<Rightarrow> 's \<Rightarrow> 's \<times> ipc_result" where
  "dispatch_in D cmd bytes s = (case D (cmd_num cmd) bytes None s of (s, rc, _, _) \<Rightarrow> (s, rc))"

text \<open>An out value is read only if the call succeeded.\<close>

definition dispatch_out ::
    "(string \<Rightarrow> 'v) \<Rightarrow> 's ipc_dispatch \<Rightarrow> ipc_cmd \<Rightarrow> string \<Rightarrow> 's \<Rightarrow> 's \<times> ipc_result \<times> 'v option" where
  "dispatch_out rd D cmd bytes s =
     (case D (cmd_num cmd) bytes None s of (s, rc, out, _) \<Rightarrow> (s, rc, if rc = RcOk then Some (rd out) else None))"

text \<open>
  The calls that fill a static array of \<open>cap\<close> entries: \<open>old\<close> is what the array held. The result are the
  entries \<open>count\<close> announces, at most \<open>cap\<close>, and the array.
\<close>

definition dispatch_entries ::
    "nat \<Rightarrow> nat \<Rightarrow> 's ipc_dispatch \<Rightarrow> ipc_cmd \<Rightarrow> string \<Rightarrow> string \<Rightarrow> 's \<Rightarrow> 's \<times> ipc_result \<times> string list option \<times> string" where
  "dispatch_entries cap sz D cmd bytes old s =
     (case D (cmd_num cmd) bytes (Some (cap * sz)) s of (s, rc, out, written) \<Rightarrow>
        let buf = written @ drop (length written) old
        in if rc \<noteq> RcOk then (s, rc, None, buf)
           else
             (let n = unat (get_u32 out); n = (if cap < n then cap else n)
              in (s, RcOk, Some (map (\<lambda>i. take sz (drop (i * sz) buf)) [0..<n]), buf)))"

definition kMaxDevices :: nat where "kMaxDevices = 16"
definition kMaxCommands :: nat where "kMaxCommands = 256"
definition kMaxVolumeSinks :: nat where "kMaxVolumeSinks = 16"

definition kdecIpcGetApiVersion :: "'s ipc_dispatch \<Rightarrow> 's \<Rightarrow> 's \<times> ipc_result \<times> u32 option" where
  "kdecIpcGetApiVersion D = dispatch_out get_u32 D CmdGetApiVersion []"

definition kdecIpcGetDeviceCount :: "'s ipc_dispatch \<Rightarrow> 's \<Rightarrow> 's \<times> ipc_result \<times> u32 option" where
  "kdecIpcGetDeviceCount D = dispatch_out get_u32 D CmdGetDeviceCount []"

definition kdecIpcGetDevices ::
    "'s ipc_dispatch \<Rightarrow> string \<Rightarrow> 's \<Rightarrow> 's \<times> ipc_result \<times> kdec_device list option \<times> string" where
  "kdecIpcGetDevices D old s =
     (case dispatch_entries kMaxDevices kDeviceInfoSize D CmdGetDevices [] old s of
        (s, rc, es, buf) \<Rightarrow> (s, rc, map_option (map dec_device_info) es, buf))"

definition kdecIpcRequestPair :: "'s ipc_dispatch \<Rightarrow> string \<Rightarrow> 's \<Rightarrow> 's \<times> ipc_result" where
  "kdecIpcRequestPair D device_id = dispatch_in D CmdRequestPair (enc_device_id device_id)"

definition kdecIpcAcceptPair :: "'s ipc_dispatch \<Rightarrow> string \<Rightarrow> 's \<Rightarrow> 's \<times> ipc_result" where
  "kdecIpcAcceptPair D device_id = dispatch_in D CmdAcceptPair (enc_device_id device_id)"

definition kdecIpcRejectPair :: "'s ipc_dispatch \<Rightarrow> string \<Rightarrow> 's \<Rightarrow> 's \<times> ipc_result" where
  "kdecIpcRejectPair D device_id = dispatch_in D CmdRejectPair (enc_device_id device_id)"

definition kdecIpcUnpair :: "'s ipc_dispatch \<Rightarrow> string \<Rightarrow> 's \<Rightarrow> 's \<times> ipc_result" where
  "kdecIpcUnpair D device_id = dispatch_in D CmdUnpair (enc_device_id device_id)"

definition kdecIpcPing :: "'s ipc_dispatch \<Rightarrow> string \<Rightarrow> 's \<Rightarrow> 's \<times> ipc_result" where
  "kdecIpcPing D device_id = dispatch_in D CmdPing (enc_device_id device_id)"

definition kdecIpcRing :: "'s ipc_dispatch \<Rightarrow> string \<Rightarrow> 's \<Rightarrow> 's \<times> ipc_result" where
  "kdecIpcRing D device_id = dispatch_in D CmdRing (enc_device_id device_id)"

text \<open>The struct \<open>out\<close> of the caller is the receive buffer, written whatever is answered.\<close>

definition kdecIpcGetMediaInfo :: "'s ipc_dispatch \<Rightarrow> string \<Rightarrow> string \<Rightarrow> 's \<Rightarrow> 's \<times> ipc_result \<times> string" where
  "kdecIpcGetMediaInfo D device_id old s =
     (case D (cmd_num CmdGetMediaInfo) (enc_device_id device_id) (Some kMediaInfoSize) s of (s, rc, out, written) \<Rightarrow>
        let buf = written @ drop (length written) old
        in if rc \<noteq> RcOk then (s, rc, buf)
           else (s, if get_u32 out \<noteq> 0 then RcOk else RcNotFound, buf))"

definition kdecIpcSendMediaAction :: "'s ipc_dispatch \<Rightarrow> string \<Rightarrow> media_action \<Rightarrow> i64 \<Rightarrow> 's \<Rightarrow> 's \<times> ipc_result" where
  "kdecIpcSendMediaAction D device_id action v =
     dispatch_in D CmdSendMediaAction (enc_media_action (device_id, of_nat (index_in action media_actions), v))"

definition kdecIpcGetCommandList ::
    "'s ipc_dispatch \<Rightarrow> string \<Rightarrow> string \<Rightarrow> 's \<Rightarrow> 's \<times> ipc_result \<times> (string \<times> string) list option \<times> string" where
  "kdecIpcGetCommandList D device_id old s =
     (case dispatch_entries kMaxCommands kCommandEntrySize D CmdGetCommandList (enc_device_id device_id) old s of
        (s, rc, es, buf) \<Rightarrow> (s, rc, map_option (map dec_command) es, buf))"

definition kdecIpcRunCommand :: "'s ipc_dispatch \<Rightarrow> string \<Rightarrow> string \<Rightarrow> 's \<Rightarrow> 's \<times> ipc_result" where
  "kdecIpcRunCommand D device_id command_id = dispatch_in D CmdRunCommand (enc_run_command (device_id, command_id))"

definition kdecIpcReadBoolSetting :: "'s ipc_dispatch \<Rightarrow> u8 \<Rightarrow> 's \<Rightarrow> 's \<times> ipc_result \<times> bool option" where
  "kdecIpcReadBoolSetting D key = dispatch_out get_bool D CmdReadBoolSetting (put_u8 key)"

definition kdecIpcWriteBoolSetting :: "'s ipc_dispatch \<Rightarrow> u8 \<Rightarrow> bool \<Rightarrow> 's \<Rightarrow> 's \<times> ipc_result" where
  "kdecIpcWriteBoolSetting D key v = dispatch_in D CmdWriteBoolSetting (enc_write_bool (key, v))"

definition kdecIpcReadIntSetting :: "'s ipc_dispatch \<Rightarrow> u8 \<Rightarrow> 's \<Rightarrow> 's \<times> ipc_result \<times> i32 option" where
  "kdecIpcReadIntSetting D key = dispatch_out get_u32 D CmdReadIntSetting (put_u8 key)"

definition kdecIpcWriteIntSetting :: "'s ipc_dispatch \<Rightarrow> u8 \<Rightarrow> i32 \<Rightarrow> 's \<Rightarrow> 's \<times> ipc_result" where
  "kdecIpcWriteIntSetting D key v = dispatch_in D CmdWriteIntSetting (enc_write_int (key, v))"

definition kdecIpcGetVolumeSinks ::
    "'s ipc_dispatch \<Rightarrow> string \<Rightarrow> string \<Rightarrow> 's \<Rightarrow> 's \<times> ipc_result \<times> kdec_sink list option \<times> string" where
  "kdecIpcGetVolumeSinks D device_id old s =
     (case dispatch_entries kMaxVolumeSinks kSinkInfoSize D CmdGetVolumeSinks (enc_device_id device_id) old s of
        (s, rc, es, buf) \<Rightarrow> (s, rc, map_option (map dec_sink) es, buf))"

definition kdecIpcSetVolumeSink ::
    "'s ipc_dispatch \<Rightarrow> string \<Rightarrow> string \<Rightarrow> i32 \<Rightarrow> bool \<Rightarrow> bool \<Rightarrow> 's \<Rightarrow> 's \<times> ipc_result" where
  "kdecIpcSetVolumeSink D device_id sink_name volume muted is_default_output =
     dispatch_in D CmdSetVolumeSink (enc_set_sink (device_id, sink_name, volume, muted, is_default_output))"

definition kdecIpcSendScreenshot :: "'s ipc_dispatch \<Rightarrow> string \<Rightarrow> 's \<Rightarrow> 's \<times> ipc_result" where
  "kdecIpcSendScreenshot D device_id = dispatch_in D CmdSendScreenshot (enc_device_id device_id)"

definition kdecIpcSendTestNotification :: "'s ipc_dispatch \<Rightarrow> 's \<Rightarrow> 's \<times> ipc_result" where
  "kdecIpcSendTestNotification D = dispatch_in D CmdSendTestNotification []"

definition kdecIpcSendBroadcast :: "'s ipc_dispatch \<Rightarrow> 's \<Rightarrow> 's \<times> ipc_result" where
  "kdecIpcSendBroadcast D = dispatch_in D CmdSendBroadcast []"

text \<open>The numbers in kilobytes, and the two version strings with the debug flag.\<close>

definition kdecIpcGetMemoryInfo :: "'s ipc_dispatch \<Rightarrow> 's \<Rightarrow> 's \<times> ipc_result \<times> u64 list option" where
  "kdecIpcGetMemoryInfo D = dispatch_out (\<lambda>bs. map (\<lambda>i. get_u64 (drop (i * 8) bs)) [0..<5]) D CmdGetMemoryInfo []"

definition kdecIpcGetVersionInfo :: "'s ipc_dispatch \<Rightarrow> 's \<Rightarrow> 's \<times> ipc_result \<times> (string \<times> string \<times> bool) option" where
  "kdecIpcGetVersionInfo D =
     dispatch_out (\<lambda>bs. (get_str KDEC_VERSION_MAX bs, get_str KDEC_GIT_COMMIT_MAX (drop 32 bs), get_bool (drop 48 bs)))
       D CmdGetVersionInfo []"

definition kdecIpcGetAllSettings ::
    "'s ipc_dispatch \<Rightarrow> string \<Rightarrow> 's \<Rightarrow> 's \<times> ipc_result \<times> (u8 \<times> bool \<times> i32) list option \<times> string" where
  "kdecIpcGetAllSettings D old s =
     (case dispatch_entries kMaxSettings kSettingEntrySize D CmdGetAllSettings [] old s of
        (s, rc, es, buf) \<Rightarrow> (s, rc, map_option (map dec_setting) es, buf))"

section \<open>What arrives\<close>

lemma get_put_str128: "get_str 128 (put_str 128 s @ rest) = take 127 (c_str s)"
  by (simp add: get_put_str)

lemma dec_enc_device:
  "dec_device_info (enc_device_info i nm t p c b ch [s0, s1, s2, s3, s4]) =
     \<lparr>kd_id = cut64 i, kd_name = take 127 (c_str nm), kd_type = t, kd_pair_state = p, kd_connected = c, kd_battery = b,
      kd_charging = ch, kd_supports = [s0, s1, s2, s3, s4]\<rparr>"
proof -
  let ?pad = "replicate 6 (CHR 0x00)"
  let ?bs = "enc_device_info i nm t p c b ch [s0, s1, s2, s3, s4]"
  have e: "?bs = put_str 64 i @ put_str 128 nm @ put_u8 t @ put_u8 p @ put_bool c @ put_u8 b @ put_bool ch @
      put_bool s0 @ put_bool s1 @ put_bool s2 @ put_bool s3 @ put_bool s4 @ ?pad"
    by (simp add: enc_device_info_def pad_to_def ipc_sizes kDeviceInfoSize_def)
  have 64: "drop 64 ?bs = put_str 128 nm @ put_u8 t @ put_u8 p @ put_bool c @ put_u8 b @ put_bool ch @
      put_bool s0 @ put_bool s1 @ put_bool s2 @ put_bool s3 @ put_bool s4 @ ?pad"
    unfolding e by (rule drop_put_str)
  have d: "drop (64 + n) ?bs = drop n (drop 64 ?bs)" for n by (simp add: add.commute)
  have 192: "drop (192 + n) ?bs = drop n (put_u8 t @ put_u8 p @ put_bool c @ put_u8 b @ put_bool ch @
      put_bool s0 @ put_bool s1 @ put_bool s2 @ put_bool s3 @ put_bool s4 @ ?pad)" for n
    using d [of "128 + n"] unfolding 64 by (simp add: skip [of "put_str 128 nm" 128])
  have nums: "drop 192 ?bs = put_u8 t @ drop 1 (drop 192 ?bs)" "drop 193 ?bs = put_u8 p @ drop 1 (drop 193 ?bs)"
    "drop 194 ?bs = put_bool c @ drop 1 (drop 194 ?bs)" "drop 195 ?bs = put_u8 b @ drop 1 (drop 195 ?bs)"
    "drop 196 ?bs = put_bool ch @ drop 1 (drop 196 ?bs)" "drop 197 ?bs = put_bool s0 @ drop 1 (drop 197 ?bs)"
    "drop 198 ?bs = put_bool s1 @ drop 1 (drop 198 ?bs)" "drop 199 ?bs = put_bool s2 @ drop 1 (drop 199 ?bs)"
    "drop 200 ?bs = put_bool s3 @ drop 1 (drop 200 ?bs)" "drop 201 ?bs = put_bool s4 @ drop 1 (drop 201 ?bs)"
    using 192 [of 0] 192 [of 1] 192 [of 2] 192 [of 3] 192 [of 4] 192 [of 5] 192 [of 6] 192 [of 7] 192 [of 8] 192 [of 9]
    by (simp_all add: skip [of "put_u8 t" 1] skip [of "put_u8 p" 1] skip [of "put_bool c" 1] skip [of "put_u8 b" 1]
        skip [of "put_bool ch" 1] skip [of "put_bool s0" 1] skip [of "put_bool s1" 1] skip [of "put_bool s2" 1] skip [of "put_bool s3" 1])
  have "get_u8 (drop 192 ?bs) = t" "get_u8 (drop 193 ?bs) = p" "get_bool (drop 194 ?bs) = c" "get_u8 (drop 195 ?bs) = b"
    "get_bool (drop 196 ?bs) = ch" "get_bool (drop 197 ?bs) = s0" "get_bool (drop 198 ?bs) = s1" "get_bool (drop 199 ?bs) = s2"
    "get_bool (drop 200 ?bs) = s3" "get_bool (drop 201 ?bs) = s4"
    by (subst nums, simp)+
  moreover have "get_str 64 ?bs = cut64 i" unfolding e by (rule get_put_64)
  moreover have "get_str 128 (drop 64 ?bs) = take 127 (c_str nm)" unfolding 64 by (rule get_put_str128)
  ultimately show ?thesis by (simp add: dec_device_info_def ipc_sizes upt_rec)
qed


interpretation wire_command_entry: fixed_codec enc_command dec_command 128 "\<lambda>(k, d). (cut64 k, cut64 d)"
  using get_put_64 [of _ "[]"] get_put_64 drop_put_str [of 64]
  by unfold_locales (simp_all add: enc_command_def dec_command_def ipc_sizes split: prod.split)

interpretation wire_sink_entry: fixed_codec enc_sink dec_sink 208
    "\<lambda>k. \<lparr>ks_name = cut64 (sk_name k), ks_description = take 127 (c_str (sk_description k)), ks_volume = sk_volume k,
          ks_muted = sk_muted k, ks_default = sk_default k\<rparr>"
proof unfold_locales
  fix k
  show "length (enc_sink k) = 208" by (simp add: kSinkInfoSize_def)
  let ?pad = "replicate 10 (CHR 0x00)"
  have e: "enc_sink k = put_str 64 (sk_name k) @ put_str 128 (sk_description k) @ put_u32 (sk_volume k) @
      put_bool (sk_muted k) @ put_bool (sk_default k) @ ?pad"
    by (simp add: enc_sink_def pad_to_def ipc_sizes kSinkInfoSize_def)
  have "drop 64 (enc_sink k) = put_str 128 (sk_description k) @ put_u32 (sk_volume k) @
      put_bool (sk_muted k) @ put_bool (sk_default k) @ ?pad" unfolding e by (rule drop_put_str)
  moreover have "drop 192 (enc_sink k) = put_u32 (sk_volume k) @ put_bool (sk_muted k) @ put_bool (sk_default k) @ ?pad"
    unfolding e by (simp add: skip [of "put_str 64 (sk_name k)" 64] skip [of "put_str 128 (sk_description k)" 128])
  moreover have "drop 196 (enc_sink k) = put_bool (sk_muted k) @ put_bool (sk_default k) @ ?pad"
    unfolding e by (simp add: skip [of "put_str 64 (sk_name k)" 64] skip [of "put_str 128 (sk_description k)" 128]
      skip [of "put_u32 (sk_volume k)" 4])
  moreover have "drop 197 (enc_sink k) = put_bool (sk_default k) @ ?pad"
    unfolding e by (simp add: skip [of "put_str 64 (sk_name k)" 64] skip [of "put_str 128 (sk_description k)" 128]
      skip [of "put_u32 (sk_volume k)" 4] skip [of "put_bool (sk_muted k)" 1])
  moreover have "get_str 64 (enc_sink k) = cut64 (sk_name k)" unfolding e by (rule get_put_64)
  ultimately show "dec_sink (enc_sink k) = \<lparr>ks_name = cut64 (sk_name k), ks_description = take 127 (c_str (sk_description k)),
      ks_volume = sk_volume k, ks_muted = sk_muted k, ks_default = sk_default k\<rparr>"
    by (simp add: dec_sink_def ipc_sizes get_put_str128)
qed

text \<open>The entries placed by the service are cut out of the array again.\<close>

lemma fill_entries_take: "0 < sz \<Longrightarrow> fill_entries sz (cap * sz) n es = take (cap - n) es"
proof (induction es arbitrary: n)
  case (Cons x es)
  have "cap * sz < (n + 1) * sz \<longleftrightarrow> cap - n = 0" using Cons.prems mult_less_cancel2 [of cap sz "n + 1"] by auto
  moreover have "cap - n = Suc (cap - Suc n)" if "cap - n \<noteq> 0" using that by simp
  ultimately show ?case using Cons.IH [OF Cons.prems, of "n + 1"] by (cases "cap - n = 0") (simp_all del: diff_Suc_eq_diff_pred)
qed simp

lemma cut_entries:
  assumes "\<forall>x \<in> set es. length x = sz" "i < length es"
  shows "take sz (drop (i * sz) (concat es @ rest)) = es ! i"
proof -
  have "concat es = concat (take i es) @ es ! i @ concat (drop (Suc i) es)"
    using assms(2) by (metis concat.simps(2) concat_append id_take_nth_drop)
  moreover have "length (concat (take i es)) = i * sz"
    using assms by (subst length_concat_rows [of _ sz]) (auto dest: in_set_takeD)
  moreover have "length (es ! i) = sz" using assms by simp
  ultimately show ?thesis by simp
qed

lemma dispatch_entries_all:
  assumes "D (cmd_num cmd) bytes (Some (cap * sz)) s = (s', RcOk, put_u32 (of_nat (length es)), concat es)"
    "length es \<le> cap" "cap < 2 ^ 32" "\<forall>x \<in> set es. length x = sz"
  shows "dispatch_entries cap sz D cmd bytes old s = (s', RcOk, Some es, concat es @ drop (length (concat es)) old)"
proof -
  have "unat (of_nat (length es) :: u32) = length es"
    using assms(2,3) by (simp add: unat_of_nat)
  then have n: "unat (get_u32 (put_u32 (of_nat (length es)))) = length es"
    using get_put_num(2) [of "of_nat (length es)" "[]"] by simp
  have "map (\<lambda>i. take sz (drop (i * sz) (concat es @ drop (length (concat es)) old))) [0..<length es] = es"
    by (intro nth_equalityI) (simp_all add: cut_entries [OF assms(4)] del: drop_append)
  then show ?thesis using assms(2) by (simp add: dispatch_entries_def assms(1) n Let_def)
qed

section \<open>With the service behind it\<close>

text \<open>
  libnx lays the request out, followed by bytes \<open>rest\<close> it does not specify; the service parses,
  handles and answers it; the kernel copies the receive buffer back.
\<close>

definition request_message :: "u32 \<Rightarrow> string \<Rightarrow> string \<Rightarrow> nat option \<Rightarrow> hipc_message" where
  "request_message cmd bytes rest recv =
     \<lparr>hm_type = CmifRequest, hm_words = (raw_header_size + length bytes + 3) div 4,
      hm_data = Some (put_u64 CMIF_IN_HEADER_MAGIC @ put_u64 (ucast cmd) @ bytes @ rest), hm_recv = recv\<rparr>"

definition service_dispatch :: "'fs ipc_env \<Rightarrow> string \<Rightarrow> ('fs, 'crt, 'key) ipc_state ipc_dispatch" where
  "service_dispatch e rest cmd bytes recv st =
     (case ipcServerParseRequest (request_message cmd bytes rest recv) of (rc, r) \<Rightarrow>
        if rc \<noteq> RcOk then (st, rc, [], [])
        else case handle_command_static e st r of (st, x) \<Rightarrow>
               case ipcServerPrepareResponse (rs_result x) (rs_data x) of (_, rc, d) \<Rightarrow> (st, rc, d, rs_buffer x))"

text \<open>What the service knows of its devices, as the overlay shows it: names cut to their fields.\<close>

definition shown_live :: "(plugin, 'fs) client \<Rightarrow> string \<times> nat \<Rightarrow> kdec_device" where
  "shown_live c p =
     (let x = ses c (snd p); caps = set (incoming_capabilities (ses_info x));
          (level, charging) = (case session_plugin c (snd p) KBattery of
                                 Some (_, BatteryPlugin b) \<Rightarrow> read_remote_state b | _ \<Rightarrow> (-1, False))
      in \<lparr>kd_id = cut64 (fst p), kd_name = take 127 (c_str (di_name (ses_info x))), kd_type = device_type_num (di_type (ses_info x)),
          kd_pair_state = pair_state_num x, kd_connected = (\<not> disconnected x), kd_battery = level, kd_charging = charging,
          kd_supports = [FindMyPhoneRequest \<in> caps, RunCommandRequest \<in> caps, SystemVolumeRequest \<in> caps,
                         MprisRequest \<in> caps, ShareRequest \<in> caps]\<rparr>)"

definition shown_offline :: "paired_device_info \<Rightarrow> kdec_device" where
  "shown_offline d =
     \<lparr>kd_id = cut64 (di_id (pd_info d)), kd_name = take 127 (c_str (di_name (pd_info d))), kd_type = 0, kd_pair_state = 3,
      kd_connected = False, kd_battery = -1, kd_charging = False, kd_supports = [False, False, False, False, False]\<rparr>"

lemma dec_entries:
  "dec_device_info (device_entry c p) = shown_live c p" "dec_device_info (offline_entry d) = shown_offline d"
  by (auto simp: device_entry_def shown_live_def offline_entry_def shown_offline_def dec_enc_device Let_def split: prod.splits)

lemma dispatch_request:
  assumes "bytes \<noteq> []"
  obtains r where "rq_ptr r = bytes @ rest" "\<not> rq_size r < length bytes" "rq_recv r = recv"
    "service_dispatch e rest (cmd_num cmd) bytes recv st =
      (case handle_command e (cmd_num cmd) r st of (st, x) \<Rightarrow>
         (st, rs_result x, if rs_result x = RcOk then rs_data x else [], rs_buffer x))"
proof -
  let ?m = "request_message (cmd_num cmd) bytes rest recv"
  let ?r = "\<lparr>rq_cmd = ucast (cmd_num cmd), rq_size = hm_words ?m * 4 - 16, rq_ptr = bytes @ rest, rq_recv = recv\<rparr>"
  have w: "16 + length bytes \<le> hm_words ?m * 4" by (simp add: request_message_def raw_header_size_def)
  moreover have "0 < length bytes" using assms by simp
  ultimately have w': "16 < hm_words ?m * 4" by linarith
  have h: "hm_type ?m = CmifRequest" "hm_recv ?m = recv"
    "hm_data ?m = Some (put_u64 CMIF_IN_HEADER_MAGIC @ put_u64 (ucast (cmd_num cmd)) @ bytes @ rest)"
    by (simp_all add: request_message_def)
  let ?h = "put_u64 CMIF_IN_HEADER_MAGIC @ put_u64 (ucast (cmd_num cmd)) @ bytes @ rest"
  have 8: "drop 8 ?h = put_u64 (ucast (cmd_num cmd)) @ bytes @ rest" "drop 16 ?h = bytes @ rest"
    using skip [of "put_u64 CMIF_IN_HEADER_MAGIC" 8] skip [of "put_u64 (ucast (cmd_num cmd))" 8] by simp_all
  have p: "ipcServerParseRequest ?m = (RcOk, ?r)"
    using w' by (simp add: ipcServerParseRequest_def Let_def h 8 raw_header_size_def del: append.assoc)
  have "ucast (ucast (cmd_num cmd) :: u64) = cmd_num cmd"
    by (rule bit_word_eqI) (simp add: bit_simps)
  then have "service_dispatch e rest (cmd_num cmd) bytes recv st =
      (case handle_command e (cmd_num cmd) ?r st of (st, x) \<Rightarrow> (st, rs_result x, if rs_result x = RcOk then rs_data x else [], rs_buffer x))"
    by (simp add: service_dispatch_def p handle_command_static_def ipcServerPrepareResponse_def split: prod.split)
  moreover have "\<not> rq_size ?r < length bytes" using w by simp
  ultimately show ?thesis by (intro that [of ?r]) simp_all
qed

lemma dispatch_no_data:
  assumes "ie_client e"
  shows "service_dispatch e rest (cmd_num cmd) [] recv st =
    (case handle_command e (cmd_num cmd) \<lparr>rq_cmd = ucast (cmd_num cmd), rq_size = 0, rq_ptr = [], rq_recv = recv\<rparr> st of (st, x) \<Rightarrow>
       (st, rs_result x, if rs_result x = RcOk then rs_data x else [], rs_buffer x))"
proof -
  have 8: "drop 8 (put_u64 a @ xs) = xs" for a xs using skip [of "put_u64 a" 8 8 xs] by simp
  have "ucast (ucast (cmd_num cmd) :: u64) = cmd_num cmd"
    by (rule bit_word_eqI) (simp add: bit_simps)
  then show ?thesis
    by (simp add: service_dispatch_def request_message_def ipcServerParseRequest_def raw_header_size_def handle_command_static_def
        ipcServerPrepareResponse_def 8 split: prod.split)
qed

text \<open>The commands and the volume sinks of a connected device.\<close>

lemma overlay_shows_commands:
  assumes "ie_client e" "nul_free dev" "length dev < 64" "device (ipc_client st) dev = Some s"
    "session_plugin (ipc_client st) s KCommand = Some (i, RunCommandPlugin cs)"
  shows "\<exists>buf. kdecIpcGetCommandList (service_dispatch e rest) dev old st =
    (st, RcOk, Some (map (\<lambda>(k, d). (cut64 k, cut64 d)) (take kMaxCommands cs)), buf)"
proof -
  let ?es = "map enc_command (take kMaxCommands cs)"
  have sz: "0 < kCommandEntrySize" "kCommandEntrySize = 128" by (simp_all add: kCommandEntrySize_def)
  have len: "length (enc_device_id dev) = 64" by (rule wire_id.enc_width)
  then have ne: "enc_device_id dev \<noteq> []" by force
  obtain r where r: "rq_ptr r = enc_device_id dev @ rest" "\<not> rq_size r < length (enc_device_id dev)" "rq_recv r = Some (kMaxCommands * kCommandEntrySize)"
    "service_dispatch e rest (cmd_num CmdGetCommandList) (enc_device_id dev) (Some (kMaxCommands * kCommandEntrySize)) st =
      (case handle_command e (cmd_num CmdGetCommandList) r st of (st, x) \<Rightarrow>
         (st, rs_result x, if rs_result x = RcOk then rs_data x else [], rs_buffer x))"
    by (rule dispatch_request [OF ne, of rest "Some (kMaxCommands * kCommandEntrySize)" e CmdGetCommandList st], rule that)
  have "dec_device_id (rq_ptr r) = dev"
    using assms(2,3) by (simp add: r(1) dec_device_id_def enc_device_id_def ipc_sizes get_put_64 cut64_id)
  then have "ipc_command_list r st = respond_entries ?es"
    using assms(4,5) r(2,3) len by (simp add: ipc_command_list_def fill_entries_take [OF sz(1)] take_map)
  then have h: "handle_command e (cmd_num CmdGetCommandList) r st = (st, respond_entries ?es)"
    using assms(1) by (simp add: handle_command_def cmd_num_inverse)
  have d: "service_dispatch e rest (cmd_num CmdGetCommandList) (enc_device_id dev) (Some (kMaxCommands * kCommandEntrySize)) st =
      (st, RcOk, put_u32 (of_nat (length ?es)), concat ?es)"
    by (simp add: r(4) h respond_entries_def)
  have "dispatch_entries kMaxCommands kCommandEntrySize (service_dispatch e rest) CmdGetCommandList (enc_device_id dev) old st =
      (st, RcOk, Some ?es, concat ?es @ drop (length (concat ?es)) old)"
    by (rule dispatch_entries_all [where D = "service_dispatch e rest", OF d]) (auto simp: kMaxCommands_def)
  moreover have "map dec_command ?es = map (\<lambda>(k, d). (cut64 k, cut64 d)) (take kMaxCommands cs)"
    by (simp add: wire_command_entry.dec_enc)
  ultimately show ?thesis by (simp add: kdecIpcGetCommandList_def)
qed

text \<open>
  The overlay's list of devices is the service's: a call of \<open>kdecIpcGetDevices\<close> gives, without
  changing the service, the first sixteen of the connected devices and the paired devices that are
  away, each with its pair state, battery and capabilities, and with id and name cut to their fields.
\<close>

lemma overlay_shows_devices:
  assumes "ie_client e"
  shows "\<exists>buf. kdecIpcGetDevices (service_dispatch e rest) old st =
    (st, RcOk, Some (take kMaxDevices (map (shown_live (ipc_client st)) (devices (ipc_client st)) @
       map shown_offline (offline_paired_devices (ie_yy e) (ie_fs e) (ipc_client st)))), buf)"
proof -
  let ?c = "ipc_client st" let ?sz = kDeviceInfoSize
  let ?live = "map (device_entry ?c) (devices ?c)" let ?off = "map offline_entry (offline_paired_devices (ie_yy e) (ie_fs e) ?c)"
  define es where "es = take kMaxDevices (?live @ ?off)"
  have sz: "0 < ?sz" by (simp add: kDeviceInfoSize_def)
  have "ipc_get_devices e \<lparr>rq_cmd = ucast (cmd_num CmdGetDevices), rq_size = 0, rq_ptr = [], rq_recv = Some (kMaxDevices * ?sz)\<rparr> st =
      respond_entries es"
    by (auto simp: es_def ipc_get_devices_def Let_def fill_entries_take [OF sz] take_map min_def)
  then have d: "service_dispatch e rest (cmd_num CmdGetDevices) [] (Some (kMaxDevices * ?sz)) st =
      (st, RcOk, put_u32 (of_nat (length es)), concat es)"
    by (simp add: dispatch_no_data [OF assms] handle_command_def assms cmd_num_inverse respond_entries_def)
  have len: "length es \<le> kMaxDevices" by (simp add: es_def)
  have all: "\<forall>x \<in> set es. length x = ?sz" by (auto simp: es_def dest!: in_set_takeD)
  have "dispatch_entries kMaxDevices ?sz (service_dispatch e rest) CmdGetDevices [] old st =
      (st, RcOk, Some es, concat es @ drop (length (concat es)) old)"
    by (rule dispatch_entries_all [where D = "service_dispatch e rest", OF d len _ all]) (simp add: kMaxDevices_def)
  moreover have "map dec_device_info es = take kMaxDevices (map (shown_live ?c) (devices ?c) @
      map shown_offline (offline_paired_devices (ie_yy e) (ie_fs e) ?c))"
    by (simp add: es_def take_map dec_entries comp_def)
  ultimately show ?thesis by (simp add: kdecIpcGetDevices_def)
qed

text \<open>The devices of the instance.\<close>

lemma demo_device_list:
  "take kMaxDevices (map (shown_live (ipc_client demo_ipc_state)) (devices (ipc_client demo_ipc_state)) @
     map shown_offline (offline_paired_devices (ie_yy demo_ipc_env) (ie_fs demo_ipc_env) (ipc_client demo_ipc_state))) =
   [\<lparr>kd_id = ''phone'', kd_name = ''Switch'', kd_type = 3, kd_pair_state = 3, kd_connected = True,
      kd_battery = -1, kd_charging = False, kd_supports = [False, False, False, False, False]\<rparr>]"
proof -
  have c: "devices (ipc_client demo_ipc_state) = [(''phone'', 0)]" "ses (ipc_client demo_ipc_state) 0 = demo_session"
    by (simp_all add: ipc_client_def ipc_node_def demo_ipc_state_def ses_def devices_def)
  have off: "offline_paired_devices yy_ref nx_ref (ipc_client demo_ipc_state) = []"
    by (simp add: offline_paired_devices_def list_paired_device_ids_def ipc_client_def ipc_node_def demo_ipc_state_def demo_app_def
      new_node_def nx_ref_def map_filter_def Let_def)
  have minus: "ucast (- 1 :: i32) = (- 1 :: i8)" by (rule bit_word_eqI) (simp add: bit_simps)
  have live: "shown_live (ipc_client demo_ipc_state) (''phone'', 0) = \<lparr>kd_id = ''phone'', kd_name = ''Switch'', kd_type = 3,
        kd_pair_state = 3, kd_connected = True, kd_battery = -1, kd_charging = False, kd_supports = [False, False, False, False, False]\<rparr>"
    by (simp add: shown_live_def c session_plugin_def plugin_index_def demo_session_def new_plugins_def read_remote_state_def
      new_battery_def sample_info_def pair_state_num_def device_type_num_def cut64_def Let_def FindMyPhoneRequest_def RunCommandRequest_def
      SystemVolumeRequest_def MprisRequest_def ShareRequest_def Ping_def minus)
  have "ie_yy demo_ipc_env = yy_ref" "ie_fs demo_ipc_env = nx_ref" by (simp_all add: demo_ipc_env_def)
  then show ?thesis using c live off by (simp add: kMaxDevices_def)
qed

end
