(* ===== verification/Overlay_Pages.thy ===== *)
theory Overlay_Pages
  imports Ipc_Client
begin

text \<open>
  The pages of the overlay (\<open>overlay/src/gui\<close>): what they list and what a click does. A page is a list of
  items; the toolkit (libultrahand) draws them and calls the listener of a clicked item with the keys
  pressed. A listener is the list of its effects: calls of the IPC client, and where the overlay goes.
\<close>

section \<open>Items and effects\<close>

text \<open>The keys the pages ask for.\<close>

datatype key = KeyA | KeyB | KeyY | KeyLeft | KeyRight

datatype nav =
    GoBack
  | CloseOverlay
  | SwapToMain
  | SwapToSettings
  | ToDevice kdec_device
  | ToMedia string string
  | ToVolume string string
  | ToCommands string string
  | ToSettings
  | ToStyles
  | ToMain string "kdec_device list"

datatype gui_call =
    CallAcceptPair string
  | CallRejectPair string
  | CallRequestPair string
  | CallUnpair string
  | CallPing string
  | CallRing string
  | CallScreenshot string
  | CallRunCommand string string
  | CallSetSink string string i32 bool bool
  | CallMediaAction string media_action i64
  | CallWriteBool bool_key bool
  | CallWriteInt int_key i32
  | CallTestNotification

text \<open>What the service does on a call; none of the listeners looks at the result.\<close>

definition perform :: "'s ipc_dispatch \<Rightarrow> gui_call \<Rightarrow> 's \<Rightarrow> 's" where
  "perform D c s =
     fst (case c of
            CallAcceptPair i \<Rightarrow> kdecIpcAcceptPair D i s
          | CallRejectPair i \<Rightarrow> kdecIpcRejectPair D i s
          | CallRequestPair i \<Rightarrow> kdecIpcRequestPair D i s
          | CallUnpair i \<Rightarrow> kdecIpcUnpair D i s
          | CallPing i \<Rightarrow> kdecIpcPing D i s
          | CallRing i \<Rightarrow> kdecIpcRing D i s
          | CallScreenshot i \<Rightarrow> kdecIpcSendScreenshot D i s
          | CallRunCommand i cmd \<Rightarrow> kdecIpcRunCommand D i cmd s
          | CallSetSink i n v m d \<Rightarrow> kdecIpcSetVolumeSink D i n v m d s
          | CallMediaAction i a v \<Rightarrow> kdecIpcSendMediaAction D i a v s
          | CallWriteBool k v \<Rightarrow> kdecIpcWriteBoolSetting D (bool_key_num k) v s
          | CallWriteInt k v \<Rightarrow> kdecIpcWriteIntSetting D (int_key_num k) v s
          | CallTestNotification \<Rightarrow> kdecIpcSendTestNotification D s)"

datatype gui_effect =
    Call gui_call
  | Go nav
  | HideFromScreenshots
  | ShowInScreenshots
  | RestartSysmodule
  | TerminateSysmodule
  | LaunchSysmodule

datatype gui_item =
    Header string
  | Line string string
  | Button string string "gui_effect list"

text \<open>The listeners react to the A key alone.\<close>

definition click :: "key list \<Rightarrow> gui_effect list \<Rightarrow> gui_effect list \<times> bool" where
  "click keys es = (if KeyA \<in> set keys then (es, True) else ([], False))"

text \<open>The pages that go back on B do not look at other keys.\<close>

definition back_on_b :: "key list \<Rightarrow> gui_effect list \<times> bool" where
  "back_on_b keys = (if KeyB \<in> set keys then ([Go GoBack], True) else ([], False))"

section \<open>Symbols and texts\<close>

definition sym_chevronRight :: string where "sym_chevronRight = [CHR 0xEE, CHR 0x85, CHR 0x8A]"
definition sym_cross :: string where "sym_cross = [CHR 0xEE, CHR 0x82, CHR 0x98]"
definition sym_yButton :: string where "sym_yButton = [CHR 0xEE, CHR 0x82, CHR 0xA3]"
definition sym_errorCircleFilled :: string where "sym_errorCircleFilled = [CHR 0xEE, CHR 0x85, CHR 0x90]"
definition sym_infoCircleFilled :: string where "sym_infoCircleFilled = [CHR 0xEE, CHR 0x85, CHR 0x93]"
definition sym_accept :: string where "sym_accept = [CHR 0xEE, CHR 0x85, CHR 0x8B]"
definition sym_cancel :: string where "sym_cancel = [CHR 0xEE, CHR 0x85, CHR 0x8C]"
definition sym_devicePhone :: string where "sym_devicePhone = [CHR 0xEE, CHR 0x84, CHR 0xB8]"
definition sym_devicePc :: string where "sym_devicePc = [CHR 0xEE, CHR 0x84, CHR 0xB9]"
definition sym_deviceTv :: string where "sym_deviceTv = [CHR 0xEE, CHR 0x84, CHR 0xBA]"
definition sym_deviceSwitchLite :: string where "sym_deviceSwitchLite = [CHR 0xEE, CHR 0x84, CHR 0xA1]"
definition sym_settings :: string where "sym_settings = [CHR 0xEE, CHR 0x84, CHR 0xB0]"
definition sym_mail :: string where "sym_mail = [CHR 0xEE, CHR 0x84, CHR 0xB7]"
definition middle_dot :: string where "middle_dot = [CHR 0xC2, CHR 0xB7]"

definition batteryStr :: "kdec_device \<Rightarrow> bool \<Rightarrow> string" where
  "batteryStr dev long_desc =
     (if sint (kd_battery dev) < 0 then []
      else take 15 (int_str (sint (kd_battery dev)) @ ''%'' @
             (if kd_charging dev then (if long_desc then '' (charging)'' else ''+'') else [])))"

definition statusStr :: "kdec_device \<Rightarrow> string" where
  "statusStr dev =
     (if kd_pair_state dev = 3 then (if kd_connected dev then ''Connected'' else ''Offline'')
      else if kd_pair_state dev = 1 then ''Pairing...''
      else if kd_pair_state dev = 2 then ''Incoming pair request''
      else ''Not paired'')"

definition batteryOrStatusStr :: "kdec_device \<Rightarrow> string" where
  "batteryOrStatusStr dev = (if kd_pair_state dev = 3 \<and> kd_connected dev then batteryStr dev False else statusStr dev)"

definition devIcon :: "kdec_device \<Rightarrow> string" where
  "devIcon dev =
     (if kd_type dev = 2 then sym_devicePhone else if kd_type dev = 3 then sym_deviceSwitchLite
      else if kd_type dev = 4 then sym_deviceTv else sym_devicePc)"

text \<open>
  How a result is shown: libnx packs the module into the low nine bits and the description into the
  thirteen above.
\<close>

definition result_module :: "u32 \<Rightarrow> nat" where "result_module rc = unat (rc AND 0x1FF)"
definition result_description :: "u32 \<Rightarrow> nat" where "result_description rc = unat (drop_bit 9 rc AND 0x1FFF)"

definition four_digits :: "nat \<Rightarrow> string" where
  "four_digits n = replicate (4 - length (nat_str n)) (CHR ''0'') @ nat_str n"

definition result_line :: "u32 \<Rightarrow> string" where
  "result_line rc =
     take 47 (''[0x'' @ map (\<lambda>i. hex_digit True (unat (drop_bit (4 * i) rc AND 0xF))) [7, 6, 5, 4, 3, 2, 1, 0] @ ''] '' @
       four_digits (result_module rc) @ ''-'' @ four_digits (result_description rc))"

text \<open>The fifteen bytes of the buffer are enough for every level.\<close>

lemma int_str_small: "0 \<le> i \<Longrightarrow> i < 1000 \<Longrightarrow> length (int_str i) \<le> 3"
  by (simp add: int_str_def nat_str.simps [of "nat i"] nat_str.simps [of "nat i div 10"] nat_str.simps [of "nat i div 10 div 10"])

section \<open>The page of a device\<close>

text \<open>\<open>supports_find_my_phone\<close> and so on, in the order of the struct.\<close>

definition supports_find_my_phone :: "kdec_device \<Rightarrow> bool" where "supports_find_my_phone d = kd_supports d ! 0"
definition supports_commands :: "kdec_device \<Rightarrow> bool" where "supports_commands d = kd_supports d ! 1"
definition supports_volume_sinks :: "kdec_device \<Rightarrow> bool" where "supports_volume_sinks d = kd_supports d ! 2"
definition supports_mpris_remote :: "kdec_device \<Rightarrow> bool" where "supports_mpris_remote d = kd_supports d ! 3"
definition supports_share :: "kdec_device \<Rightarrow> bool" where "supports_share d = kd_supports d ! 4"

definition pair_items :: "kdec_device \<Rightarrow> gui_item list" where
  "pair_items dev =
     (let i = kd_id dev
      in if kd_pair_state dev = 2 then
           [Button ''Accept pair request'' [] [Call (CallAcceptPair i), Go SwapToMain],
            Button ''Reject pair request'' [] [Call (CallRejectPair i), Go SwapToMain]]
         else if kd_pair_state dev = 0 then [Button ''Request pair'' [] [Call (CallRequestPair i), Go SwapToMain]]
         else if kd_pair_state dev = 1 then [Line ''Pairing in progress...'' []]
         else [])"

definition plugin_items :: "kdec_device \<Rightarrow> gui_item list" where
  "plugin_items dev =
     (let i = kd_id dev; name = kd_name dev
      in (if supports_mpris_remote dev then [Button ''Media remote'' sym_chevronRight [Go (ToMedia i name)]] else []) @
         (if supports_volume_sinks dev then [Button ''Audio devices'' sym_chevronRight [Go (ToVolume i name)]] else []) @
         (if supports_commands dev then [Button ''Commands'' sym_chevronRight [Go (ToCommands i name)]] else []) @
         (if supports_share dev then [Button ''Send screenshot'' [] [HideFromScreenshots, Call (CallScreenshot i)]] else []) @
         [Button ''Ping'' [] [Call (CallPing i)]] @
         (if supports_find_my_phone dev then [Button ''Ring'' [] [Call (CallRing i)]] else []))"

definition device_page :: "kdec_device \<Rightarrow> string \<times> string \<times> gui_item list" where
  "device_page dev =
     (let paired_dev = (kd_pair_state dev = 3)
      in (devIcon dev @ '' '' @ kd_name dev, statusStr dev,
          (if 0 \<le> sint (kd_battery dev) \<and> paired_dev \<and> kd_connected dev
           then [Header ''Device info'', Line ''Battery'' (batteryStr dev True)] else []) @
          [Header ''Actions''] @ pair_items dev @
          (if paired_dev \<and> kd_connected dev then plugin_items dev else []) @
          (if paired_dev then [Button ''Unpair'' sym_cancel [Call (CallUnpair (kd_id dev)), Go SwapToMain]] else [])))"

text \<open>The ticks until the overlay is put back into screenshots: set to 1 by the button.\<close>

definition device_update :: "nat \<Rightarrow> nat \<times> gui_effect list" where
  "device_update ticks = (if ticks = 0 then (0, []) else (ticks - 1, if ticks - 1 = 0 then [ShowInScreenshots] else []))"

section \<open>Commands\<close>

text \<open>
  The page by the result of the call: an error text, a hint, or a button for each command; \<open>codes\<close> is
  the number libnx has for a result.
\<close>

definition commands_page :: "'s ipc_dispatch \<Rightarrow> (ipc_result \<Rightarrow> u32) \<Rightarrow> string \<Rightarrow> string \<Rightarrow> 's \<Rightarrow> 's \<times> gui_item list" where
  "commands_page D codes device_id old s =
     (case kdecIpcGetCommandList D device_id old s of
        (s, rc, cmds, _) \<Rightarrow>
          (s, case cmds of
                None \<Rightarrow> [Line sym_errorCircleFilled ''IPC Error'', Line ''Could not fetch commands\<newline>from the sysmodule.'' [],
                         Line (result_line (codes rc)) []]
              | Some [] \<Rightarrow> [Line ''No commands defined'' [], Line ''You can add commands in the'' [],
                            Line ''KDE Connect command plugin'' [], Line ''settings on the remote device.'' []]
              | Some cs \<Rightarrow> map (\<lambda>(i, n). Button n [] [Call (CallRunCommand device_id i)]) cs))"

section \<open>The main page\<close>

record main_gui =
  mg_initial :: bool
  mg_tick :: u32
  mg_focused :: string
  mg_devices :: "kdec_device list"
  mg_prefetched :: bool
  mg_was_running :: bool

definition new_main :: main_gui where
  "new_main = \<lparr>mg_initial = True, mg_tick = 0, mg_focused = [], mg_devices = [], mg_prefetched = False, mg_was_running = False\<rparr>"

definition main_with :: "string \<Rightarrow> kdec_device list \<Rightarrow> main_gui" where
  "main_with focused ds = new_main\<lparr>mg_focused := focused, mg_devices := ds, mg_prefetched := True\<rparr>"

text \<open>
  The surroundings: whether the name of the service could be registered (then it is not running) and a
  session opened, the flag file of the notification overlay, the result of a call on a session the
  kernel closed and the numbers of the results, the process manager's shell service, the build's version.
\<close>

record gui_env =
  ge_register_ok :: bool
  ge_get_ok :: bool
  ge_flag_file :: bool
  ge_closed :: ipc_result
  ge_codes :: "ipc_result \<Rightarrow> u32"
  ge_pm_ok :: bool
  ge_version :: string
  ge_commit :: string

definition fields_differ :: "kdec_device \<Rightarrow> kdec_device \<Rightarrow> bool" where
  "fields_differ a b \<longleftrightarrow>
     kd_id a \<noteq> kd_id b \<or> kd_name a \<noteq> kd_name b \<or> kd_pair_state a \<noteq> kd_pair_state b \<or>
     kd_connected a \<noteq> kd_connected b \<or> kd_battery a \<noteq> kd_battery b \<or> kd_charging a \<noteq> kd_charging b"

definition devicesChanged :: "kdec_device list \<Rightarrow> kdec_device list \<Rightarrow> bool" where
  "devicesChanged a b \<longleftrightarrow> length a \<noteq> length b \<or> list_ex (\<lambda>(x, y). fields_differ x y) (zip a b)"

definition device_item :: "kdec_device \<Rightarrow> gui_item" where
  "device_item dev = Button (kd_name dev) (batteryOrStatusStr dev) [Go (ToDevice dev)]"

definition section_items :: "string \<Rightarrow> kdec_device list \<Rightarrow> gui_item list" where
  "section_items title ds = (if ds = [] then [] else Header title # map device_item ds)"

definition main_devices :: "kdec_device list \<Rightarrow> gui_item list" where
  "main_devices ds =
     (if ds = [] then
        [Line ''No devices found'' [], Line ''The app is scanning continuously for devices'' [],
         Line ''and will update this list automatically.'' [],
         Line ''- Make sure you are in the same local network.'' [],
         Line ''- Make sure your router has client isolation off.'' []]
      else
        (let connected = filter (\<lambda>d. kd_pair_state d = 3 \<and> kd_connected d) ds;
             disconn = filter (\<lambda>d. kd_pair_state d = 3 \<and> \<not> kd_connected d) ds;
             unpaired = filter (\<lambda>d. kd_pair_state d \<noteq> 3) ds
         in section_items ''Connected'' connected @ section_items ''Unpaired'' unpaired @
            section_items ''Disconnected'' disconn))"

text \<open>\<open>userWantsNotifications\<close>: a setting that cannot be read keeps the variable's first value.\<close>

definition read_bool :: "'s ipc_dispatch \<Rightarrow> bool_key \<Rightarrow> bool \<Rightarrow> 's \<Rightarrow> 's \<times> bool" where
  "read_bool D k fallback s =
     (case kdecIpcReadBoolSetting D (bool_key_num k) s of (s, _, v) \<Rightarrow> (s, case v of Some b \<Rightarrow> b | None \<Rightarrow> fallback))"

definition read_int :: "'s ipc_dispatch \<Rightarrow> int_key \<Rightarrow> i32 \<Rightarrow> 's \<Rightarrow> 's \<times> i32" where
  "read_int D k fallback s =
     (case kdecIpcReadIntSetting D (int_key_num k) s of (s, _, v) \<Rightarrow> (s, case v of Some i \<Rightarrow> i | None \<Rightarrow> fallback))"

definition userWantsNotifications :: "'s ipc_dispatch \<Rightarrow> 's \<Rightarrow> 's \<times> bool" where
  "userWantsNotifications D s =
     (case read_bool D NotificationShowRemoteMessages True s of
        (s, show_remote) \<Rightarrow>
          (case read_bool D NotificationShowOnConnect False s of (s, show_connect) \<Rightarrow> (s, show_remote \<or> show_connect)))"

definition error_widget :: "string \<Rightarrow> string \<Rightarrow> (string \<times> gui_effect list) option \<Rightarrow> gui_item list" where
  "error_widget symbol message button =
     Line message symbol # (case button of None \<Rightarrow> [] | Some (label, es) \<Rightarrow> [Button label [] es])"

text \<open>The items while the service answers: a warning, the devices, the options.\<close>

definition main_items :: "gui_env \<Rightarrow> 's ipc_dispatch \<Rightarrow> kdec_device list \<Rightarrow> 's \<Rightarrow> 's \<times> gui_item list" where
  "main_items e D ds s =
     (case (if ge_flag_file e then (s, False) else userWantsNotifications D s) of
        (s, warn) \<Rightarrow>
          (s, (if warn then [Line ''Notification support in\<newline>Ultrahand is disabled!\<newline>Check your Ultrahand settings'' sym_infoCircleFilled] else []) @ main_devices ds @
              [Header ''Options'', Button (sym_settings @ '' Settings'') sym_chevronRight [Go ToSettings]]))"

definition version_mismatch :: "u32 \<Rightarrow> string" where
  "version_mismatch ver =
     ''IPC version mismatch\<newline>\<newline>Overlay and sysmodule\<newline>are on different versions.\<newline>Overlay: v'' @
     nat_str (unat KDEC_IPC_API_VERSION) @ ''; Sysmodule: v'' @ nat_str (unat ver) @
     ''\<newline>\<newline>Please re-install sysmodule\<newline>and overlay together.''"

definition main_subtitle :: "gui_env \<Rightarrow> u32 option \<Rightarrow> string" where
  "main_subtitle e v =
     (case v of None \<Rightarrow> [] | Some n \<Rightarrow>
        take 63 (''Version '' @ ge_version e @ '' '' @ middle_dot @ '' API v'' @ nat_str (unat n)))"

text \<open>
  \<open>createUI\<close>: the page state, the connection, the service's state, the subtitle and the items;
  \<open>old\<close> is what the static buffer of \<open>kdecIpcGetDevices\<close> held. The list then scrolls to the item that
  had the focus on the page it replaces.
\<close>

definition main_create ::
    "gui_env \<Rightarrow> 's ipc_dispatch \<Rightarrow> string \<Rightarrow> main_gui \<Rightarrow> kdec_conn \<Rightarrow> 's \<Rightarrow>
     main_gui \<times> kdec_conn \<times> 's \<times> string \<times> gui_item list" where
  "main_create e D old mg conn s =
     (let run = fst (kdecIpcRunning (ge_register_ok e)); mg = mg\<lparr>mg_was_running := run\<rparr>
      in if \<not> run then
           (mg, conn, s, ''Sysmodule not running'', error_widget sym_errorCircleFilled ''Sysmodule not running''
              (Some (''Restart sysmodule'', [RestartSysmodule])))
         else
           (case kdecIpcGetApiVersion D s of
              (s, _, v) \<Rightarrow>
                (let ver = (case v of Some n \<Rightarrow> n | None \<Rightarrow> 0); sub = main_subtitle e v
                 in if 0 < ver \<and> ver \<noteq> KDEC_IPC_API_VERSION then
                      (mg, conn, s, sub, error_widget sym_errorCircleFilled (version_mismatch ver) None)
                    else if mg_prefetched mg then
                      (case main_items e D (mg_devices mg) s of (s, items) \<Rightarrow> (mg, conn, s, sub, items))
                    else
                      (case kdecIpcGetDevices D old s of
                         (s, rc, ds, _) \<Rightarrow>
                           if rc = ge_closed e \<and> rc \<noteq> RcOk then
                             (mg, kdecIpcExit conn, s, sub, error_widget sym_infoCircleFilled ''Waiting for sysmodule...'' None)
                           else (case ds of
                                   None \<Rightarrow>
                                     (mg, conn, s, sub, error_widget sym_errorCircleFilled
                                        (take 47 (''IPC error: '' @ nat_str (result_module (ge_codes e rc)) @ ''-'' @
                                           nat_str (result_description (ge_codes e rc)))) None)
                                 | Some ds \<Rightarrow>
                                     (case main_items e D ds s of
                                        (s, items) \<Rightarrow>
                                          (mg\<lparr>mg_devices := ds, mg_prefetched := True\<rparr>, conn, s, sub, items)))))))"

text \<open>What \<^const>\<open>RestartSysmodule\<close> does: clicks within three seconds are ignored.\<close>

definition restart_click :: "u64 \<Rightarrow> u64 \<Rightarrow> bool \<Rightarrow> u64 \<Rightarrow> u64 \<times> gui_effect list" where
  "restart_click three_seconds now pm_ok last_click =
     (if last_click \<noteq> 0 \<and> now - last_click < three_seconds then (last_click, [])
      else (now, if pm_ok then [TerminateSysmodule, LaunchSysmodule] else []))"

definition main_input :: "key list \<Rightarrow> gui_effect list \<times> bool" where
  "main_input keys = (if KeyB \<in> set keys then ([Go CloseOverlay], True) else ([], False))"

text \<open>
  \<open>update\<close>, once per frame: reconnects when the service comes or goes, asks for the devices and shows
  them on a new page if they differ. \<open>focus\<close> is the text of the focused item.
\<close>

definition main_update ::
    "gui_env \<Rightarrow> 's ipc_dispatch \<Rightarrow> string \<Rightarrow> string \<Rightarrow> main_gui \<Rightarrow> kdec_conn \<Rightarrow> 's \<Rightarrow>
     main_gui \<times> kdec_conn \<times> 's \<times> nav option" where
  "main_update e D old focus mg conn s =
     (let refresh_rate = (if kdecIpcIsConnected conn then 120 else 30);
          mg = mg\<lparr>mg_tick := mg_tick mg + 1\<rparr>
      in if mg_tick mg < refresh_rate \<and> \<not> mg_initial mg then (mg, conn, s, None)
         else
           (let mg = mg\<lparr>mg_tick := 0, mg_initial := False\<rparr>;
                now_running = fst (kdecIpcRunning (ge_register_ok e));
                conn = (if now_running \<and> \<not> kdecIpcIsConnected conn then snd (kdecIpcInitialize (ge_get_ok e) conn) else conn);
                conn = (if \<not> now_running \<and> kdecIpcIsConnected conn then kdecIpcExit conn else conn);
                show = (\<lambda>fresh. if now_running \<noteq> mg_was_running mg \<or> devicesChanged (mg_devices mg) fresh
                                then Some (ToMain focus fresh) else None)
            in if now_running \<and> kdecIpcIsConnected conn then
                 (case kdecIpcGetDevices D old s of
                    (s, rc, Some fresh, _) \<Rightarrow> (mg, conn, s, show fresh)
                  | (s, rc, None, _) \<Rightarrow> (mg, if rc = ge_closed e then kdecIpcExit conn else conn, s, None))
               else (mg, conn, s, show [])))"

section \<open>What is on the screen\<close>

lemma battery_fits: "sint (kd_battery dev) < 1000 \<Longrightarrow> 0 \<le> sint (kd_battery dev) \<Longrightarrow>
  batteryStr dev long_desc = int_str (sint (kd_battery dev)) @ ''%'' @
    (if kd_charging dev then (if long_desc then '' (charging)'' else ''+'') else [])"
  using int_str_small [of "sint (kd_battery dev)"] by (auto simp: batteryStr_def)

fun item_text :: "gui_item \<Rightarrow> string \<times> string" where
  "item_text (Header t) = (t, [])"
| "item_text (Line t v) = (t, v)"
| "item_text (Button t v es) = (t, v)"

text \<open>The texts of the page depend on the compared fields alone.\<close>

lemma same_fields:
  assumes "\<not> fields_differ a b"
  shows "item_text (device_item a) = item_text (device_item b)" "kd_pair_state a = kd_pair_state b" "kd_connected a = kd_connected b"
  using assms by (auto simp: fields_differ_def device_item_def batteryOrStatusStr_def batteryStr_def statusStr_def)

lemma filtered_texts:
  assumes "list_all2 (\<lambda>a b. \<not> fields_differ a b) xs ys" "\<And>a b. \<not> fields_differ a b \<Longrightarrow> P a = P b"
  shows "map item_text (section_items t (filter P xs)) = map item_text (section_items t (filter P ys))"
proof -
  have "map (item_text \<circ> device_item) (filter P xs) = map (item_text \<circ> device_item) (filter P ys)"
    using assms(1) by (induction rule: list_all2_induct) (auto simp: same_fields(1) assms(2))
  moreover from this have "filter P xs = [] \<longleftrightarrow> filter P ys = []" by (metis map_is_Nil_conv)
  ultimately show ?thesis by (simp add: section_items_def)
qed

lemma unchanged_texts:
  assumes "\<not> devicesChanged xs ys"
  shows "map item_text (main_devices xs) = map item_text (main_devices ys)"
proof -
  have "list_all2 (\<lambda>a b. \<not> fields_differ a b) xs ys"
    using assms by (auto simp: devicesChanged_def list_all2_iff list_ex_iff)
  then have "map item_text (section_items t (filter (\<lambda>d. kd_pair_state d = 3 \<and> kd_connected d) xs)) =
        map item_text (section_items t (filter (\<lambda>d. kd_pair_state d = 3 \<and> kd_connected d) ys))"
      "map item_text (section_items t (filter (\<lambda>d. kd_pair_state d = 3 \<and> \<not> kd_connected d) xs)) =
        map item_text (section_items t (filter (\<lambda>d. kd_pair_state d = 3 \<and> \<not> kd_connected d) ys))"
      "map item_text (section_items t (filter (\<lambda>d. kd_pair_state d \<noteq> 3) xs)) =
        map item_text (section_items t (filter (\<lambda>d. kd_pair_state d \<noteq> 3) ys))" "xs = [] \<longleftrightarrow> ys = []" for t
    by (auto intro!: filtered_texts dest: same_fields(2,3))
  then show ?thesis by (simp add: main_devices_def)
qed

text \<open>The devices the overlay lists after a turn: those of the page it goes to, or of the page it stays on.\<close>

definition screen_devices :: "nav option \<Rightarrow> main_gui \<Rightarrow> kdec_device list" where
  "screen_devices go mg = (case go of Some (ToMain _ ds) \<Rightarrow> ds | _ \<Rightarrow> mg_devices mg)"

lemma initialize_connects: "kc_active conn \<or> get_ok \<Longrightarrow> \<not> kc_active conn \<Longrightarrow> kc_active (snd (kdecIpcInitialize get_ok conn))"
  by (simp add: kdecIpcInitialize_def Let_def)

lemma update_turn:
  assumes "\<not> ge_register_ok e" "kc_active conn \<or> ge_get_ok e"
    "mg_initial mg \<or> \<not> mg_tick mg + 1 < (if kc_active conn then 120 else 30)"
    "kdecIpcGetDevices D old s = (s', RcOk, Some fresh, buf)"
  shows "\<exists>mg' conn' go. main_update e D old focus mg conn s = (mg', conn', s', go) \<and> kc_active conn' \<and>
    map item_text (main_devices (screen_devices go mg')) = map item_text (main_devices fresh)"
proof -
  let ?conn = "if kc_active conn then conn else snd (kdecIpcInitialize (ge_get_ok e) conn)"
  let ?mg = "mg\<lparr>mg_tick := 0, mg_initial := False\<rparr>"
  have conn: "kc_active ?conn" using assms(2) initialize_connects by auto
  have run: "fst (kdecIpcRunning (ge_register_ok e))" using assms(1) by (simp add: kdecIpcRunning_def)
  have "main_update e D old focus mg conn s = (?mg, ?conn, s',
      if \<not> mg_was_running mg \<or> devicesChanged (mg_devices mg) fresh then Some (ToMain focus fresh) else None)"
    using assms(3,4) run conn by (auto simp: main_update_def kdecIpcIsConnected_def Let_def)
  then show ?thesis using conn unchanged_texts [of "mg_devices mg" fresh]
    by (intro exI [of _ ?mg] exI [of _ ?conn]) (auto simp: screen_devices_def)
qed

end
