(* ===== verification/Overlay_Actions.thy ===== *)
theory Overlay_Actions
  imports Overlay_Pages
begin

text \<open>
  The overlay and the service joined: the lists on the screen are the service's, and a button does what
  its label says to the device the page is about.
\<close>

section \<open>Calls that reach the service\<close>

lemma service_call:
  assumes "bytes \<noteq> []"
    "\<And>r. rq_ptr r = bytes @ rest \<Longrightarrow> \<not> rq_size r < length bytes \<Longrightarrow> fst (handle_command e (cmd_num cmd) r st) = st'"
  shows "fst (dispatch_in (service_dispatch e rest) cmd bytes st) = st'"
proof -
  obtain r where r: "rq_ptr r = bytes @ rest" "\<not> rq_size r < length bytes" "rq_recv r = None"
    "service_dispatch e rest (cmd_num cmd) bytes None st =
      (case handle_command e (cmd_num cmd) r st of (st, x) \<Rightarrow> (st, rs_result x, if rs_result x = RcOk then rs_data x else [], rs_buffer x))"
    by (rule dispatch_request [OF assms(1), of rest None e cmd st], rule that)
  then show ?thesis using assms(2) [OF r(1,2)] by (simp add: dispatch_in_def split: prod.splits)
qed

lemma enc_id: "enc_device_id dev \<noteq> []" "length (enc_device_id dev) = 64"
  using wire_id.enc_width [of dev] by force+

lemma dec_enc_id: "nul_free dev \<Longrightarrow> length dev < 64 \<Longrightarrow> dec_device_id (enc_device_id dev @ rest) = dev"
  by (simp add: dec_device_id_def enc_device_id_def ipc_sizes get_put_64 cut64_id)

text \<open>What a user asks of a device, by the label of the button.\<close>

definition user_action :: "'fs ipc_env \<Rightarrow> string \<Rightarrow> string \<Rightarrow> ('fs, 'crt, 'key) ipc_state \<Rightarrow> ('fs, 'crt, 'key) ipc_state" where
  "user_action e label dev st =
     (let c = ipc_client st
      in if label = ''Accept pair request'' then with_client (accept_pair (ie_yy e) (ie_fs e) (ie_class e) (ie_clock e) dev c) st
         else if label = ''Reject pair request'' then with_client (reject_pair (ie_yy e) (ie_fs e) (ie_clock e) dev c) st
         else if label = ''Request pair'' then with_client (request_pair (ie_yy e) (ie_clock e) dev c) st
         else if label = ''Unpair'' then with_client (unpair (ie_yy e) (ie_fs e) (ie_clock e) dev c) st
         else if label = ''Ping'' then fst (on_device e KPing dev (UPing []) st)
         else if label = ''Ring'' then fst (on_device e KFind dev UFind st)
         else if label = ''Send screenshot'' then fst (on_device e KShare dev (UScreenshot (ie_shot e)) st)
         else st)"

text \<open>When it makes sense, by the session with the device.\<close>

definition action_offered :: "plugin session \<Rightarrow> string \<Rightarrow> bool" where
  "action_offered x label \<longleftrightarrow>
     (let remote = (\<lambda>t. paired x \<and> \<not> disconnected x \<and> t \<in> set (incoming_capabilities (ses_info x)))
      in \<not> paired x \<and> ses_pair_state x = RequestedByPeer \<and> (label = ''Accept pair request'' \<or> label = ''Reject pair request'') \<or>
         \<not> paired x \<and> ses_pair_state x \<notin> {Requested, RequestedByPeer} \<and> label = ''Request pair'' \<or>
         paired x \<and> label = ''Unpair'' \<or>
         paired x \<and> \<not> disconnected x \<and> label = ''Ping'' \<or>
         remote FindMyPhoneRequest \<and> label = ''Ring'' \<or>
         remote ShareRequest \<and> label = ''Send screenshot'' \<or>
         remote MprisRequest \<and> label = ''Media remote'' \<or>
         remote SystemVolumeRequest \<and> label = ''Audio devices'' \<or>
         remote RunCommandRequest \<and> label = ''Commands'')"

definition run_listener :: "'s ipc_dispatch \<Rightarrow> gui_effect list \<Rightarrow> 's \<Rightarrow> 's" where
  "run_listener D es s = fold (\<lambda>f s. case f of Call c \<Rightarrow> perform D c s | _ \<Rightarrow> s) es s"

definition buttons :: "gui_item list \<Rightarrow> (string \<times> gui_effect list) list" where
  "buttons items = List.map_filter (\<lambda>i. case i of Button l v es \<Rightarrow> Some (l, es) | _ \<Rightarrow> None) items"

lemma buttons_simps [simp]:
  "buttons [] = []" "buttons (Header t # is') = buttons is'" "buttons (Line t v # is') = buttons is'"
  "buttons (Button l v es # is') = (l, es) # buttons is'" "buttons (is1 @ is2) = buttons is1 @ buttons is2"
  by (simp_all add: buttons_def List.map_filter_def)

lemma perform_pairing:
  assumes "ie_client e" "nul_free dev" "length dev < 64"
  shows "perform (service_dispatch e rest) (CallAcceptPair dev) st =
      with_client (accept_pair (ie_yy e) (ie_fs e) (ie_class e) (ie_clock e) dev (ipc_client st)) st"
    "perform (service_dispatch e rest) (CallRejectPair dev) st =
      with_client (reject_pair (ie_yy e) (ie_fs e) (ie_clock e) dev (ipc_client st)) st"
    "perform (service_dispatch e rest) (CallRequestPair dev) st =
      with_client (request_pair (ie_yy e) (ie_clock e) dev (ipc_client st)) st"
    "perform (service_dispatch e rest) (CallUnpair dev) st =
      with_client (unpair (ie_yy e) (ie_fs e) (ie_clock e) dev (ipc_client st)) st"
  by (simp_all add: perform_def kdecIpcAcceptPair_def kdecIpcRejectPair_def kdecIpcRequestPair_def kdecIpcUnpair_def)
    (rule service_call [OF enc_id(1)],
     simp add: handle_command_def assms(1) cmd_num_inverse ipc_pairing_def enc_id(2) dec_enc_id [OF assms(2,3)] Let_def)+

lemma perform_plugins:
  assumes "ie_client e" "nul_free dev" "length dev < 64"
  shows "perform (service_dispatch e rest) (CallPing dev) st = fst (on_device e KPing dev (UPing []) st)"
    "perform (service_dispatch e rest) (CallRing dev) st = fst (on_device e KFind dev UFind st)"
    "perform (service_dispatch e rest) (CallScreenshot dev) st = fst (on_device e KShare dev (UScreenshot (ie_shot e)) st)"
  by (simp_all add: perform_def kdecIpcPing_def kdecIpcRing_def kdecIpcSendScreenshot_def)
    (rule service_call [OF enc_id(1)],
     simp add: handle_command_def assms(1) cmd_num_inverse ipc_ping_def ipc_ring_def ipc_screenshot_def on_device_def enc_id(2)
       dec_enc_id [OF assms(2,3)] Let_def split: option.split prod.split)+

section \<open>The page of a device\<close>

lemma shown_fields:
  "kd_id (shown_live c (dev, s)) = cut64 dev" "kd_pair_state (shown_live c (dev, s)) = pair_state_num (ses c s)"
  "kd_connected (shown_live c (dev, s)) \<longleftrightarrow> \<not> disconnected (ses c s)"
  "supports_find_my_phone (shown_live c (dev, s)) \<longleftrightarrow> FindMyPhoneRequest \<in> set (incoming_capabilities (ses_info (ses c s)))"
  "supports_commands (shown_live c (dev, s)) \<longleftrightarrow> RunCommandRequest \<in> set (incoming_capabilities (ses_info (ses c s)))"
  "supports_volume_sinks (shown_live c (dev, s)) \<longleftrightarrow> SystemVolumeRequest \<in> set (incoming_capabilities (ses_info (ses c s)))"
  "supports_mpris_remote (shown_live c (dev, s)) \<longleftrightarrow> MprisRequest \<in> set (incoming_capabilities (ses_info (ses c s)))"
  "supports_share (shown_live c (dev, s)) \<longleftrightarrow> ShareRequest \<in> set (incoming_capabilities (ses_info (ses c s)))"
  by (auto simp: shown_live_def Let_def supports_find_my_phone_def supports_commands_def supports_volume_sinks_def
      supports_mpris_remote_def supports_share_def numeral_nat split: prod.splits)

lemma pair_state_nums:
  "pair_state_num x = 3 \<longleftrightarrow> paired x" "pair_state_num x = 2 \<longleftrightarrow> \<not> paired x \<and> ses_pair_state x = RequestedByPeer"
  "pair_state_num x = 0 \<longleftrightarrow> \<not> paired x \<and> ses_pair_state x \<notin> {Requested, RequestedByPeer}"
  by (auto simp: pair_state_num_def)

lemma in_optional:
  "(\<forall>p \<in> set (if b then xs else ys). P p) \<longleftrightarrow> (b \<longrightarrow> (\<forall>p \<in> set xs. P p)) \<and> (\<not> b \<longrightarrow> (\<forall>p \<in> set ys. P p))"
  "l \<in> fst ` set (if b then xs else ys) \<longleftrightarrow> b \<and> l \<in> fst ` set xs \<or> \<not> b \<and> l \<in> fst ` set ys"
  by simp_all

text \<open>
  C36: the page of a device. It has a button exactly for what the session with the device allows, accepting
  and rejecting only while the peer's request is pending, plugin actions only for a paired and connected
  device that announced them; and a click makes the service do what the label says to that device and
  nothing else.
\<close>

theorem device_page_acts:
  assumes "ie_client e" "nul_free dev" "length dev < 64"
  shows "(label \<in> fst ` set (buttons (snd (snd (device_page (shown_live (ipc_client st) (dev, s)))))) \<longleftrightarrow>
      action_offered (ses (ipc_client st) s) label) \<and>
    (\<forall>es. (label, es) \<in> set (buttons (snd (snd (device_page (shown_live (ipc_client st) (dev, s)))))) \<longrightarrow>
       run_listener (service_dispatch e rest) es st = user_action e label dev st)"
proof -
  let ?d = "shown_live (ipc_client st) (dev, s)" let ?x = "ses (ipc_client st) s"
  let ?caps = "set (incoming_capabilities (ses_info ?x))"
  have i: "cut64 dev = dev" using assms by (simp add: cut64_id)
  have page: "buttons (snd (snd (device_page ?d))) = buttons (pair_items ?d) @
      (if paired ?x \<and> \<not> disconnected ?x then buttons (plugin_items ?d) else []) @
      (if paired ?x then [(''Unpair'', [Call (CallUnpair dev), Go SwapToMain])] else [])"
    by (simp add: device_page_def Let_def shown_fields pair_state_nums i)
  have pairing: "buttons (pair_items ?d) =
      (if \<not> paired ?x \<and> ses_pair_state ?x = RequestedByPeer then
         [(''Accept pair request'', [Call (CallAcceptPair dev), Go SwapToMain]),
          (''Reject pair request'', [Call (CallRejectPair dev), Go SwapToMain])]
       else if \<not> paired ?x \<and> ses_pair_state ?x \<notin> {Requested, RequestedByPeer} then
         [(''Request pair'', [Call (CallRequestPair dev), Go SwapToMain])] else [])"
    by (simp add: pair_items_def Let_def shown_fields pair_state_nums i)
  have plugs: "buttons (plugin_items ?d) =
      (if MprisRequest \<in> ?caps then [(''Media remote'', [Go (ToMedia dev (kd_name ?d))])] else []) @
      (if SystemVolumeRequest \<in> ?caps then [(''Audio devices'', [Go (ToVolume dev (kd_name ?d))])] else []) @
      (if RunCommandRequest \<in> ?caps then [(''Commands'', [Go (ToCommands dev (kd_name ?d))])] else []) @
      (if ShareRequest \<in> ?caps then [(''Send screenshot'', [HideFromScreenshots, Call (CallScreenshot dev)])] else []) @
      [(''Ping'', [Call (CallPing dev)])] @
      (if FindMyPhoneRequest \<in> ?caps then [(''Ring'', [Call (CallRing dev)])] else [])"
    by (simp add: plugin_items_def Let_def shown_fields i)
  define P where "P = (\<lambda>p. run_listener (service_dispatch e rest) (snd p) st = user_action e (fst p) dev st)"
  have acts: "P (''Accept pair request'', [Call (CallAcceptPair dev), Go SwapToMain])"
    "P (''Reject pair request'', [Call (CallRejectPair dev), Go SwapToMain])"
    "P (''Request pair'', [Call (CallRequestPair dev), Go SwapToMain])" "P (''Unpair'', [Call (CallUnpair dev), Go SwapToMain])"
    "P (''Ping'', [Call (CallPing dev)])" "P (''Ring'', [Call (CallRing dev)])"
    "P (''Send screenshot'', [HideFromScreenshots, Call (CallScreenshot dev)])"
    "P (''Media remote'', [Go (ToMedia dev (kd_name ?d))])" "P (''Audio devices'', [Go (ToVolume dev (kd_name ?d))])"
    "P (''Commands'', [Go (ToCommands dev (kd_name ?d))])"
    by (simp_all add: P_def run_listener_def user_action_def perform_pairing [OF assms] perform_plugins [OF assms] Let_def)
  have "\<forall>p \<in> set (buttons (snd (snd (device_page ?d)))). P p"
    unfolding page pairing plugs by (simp only: set_append ball_Un in_optional list.set ball_simps acts simp_thms)
  moreover have "label \<in> fst ` set (buttons (snd (snd (device_page ?d)))) \<longleftrightarrow> action_offered ?x label"
    unfolding page pairing plugs action_offered_def Let_def 
    by (simp only: set_append image_Un Un_iff in_optional list.set image_insert image_empty fst_conv insert_iff empty_iff simp_thms) argo
  ultimately show ?thesis by (auto simp: P_def)
qed

section \<open>The list of devices\<close>



theorem device_page_acts_witness:
  "\<exists>es. (''Unpair'', es) \<in> set (buttons (snd (snd (device_page (shown_live (ipc_client demo_ipc_state) (''phone'', 0)))))) \<and>
      run_listener (service_dispatch demo_ipc_env ''pad'') es demo_ipc_state = user_action demo_ipc_env ''Unpair'' ''phone'' demo_ipc_state"
proof -
  have "action_offered (ses (ipc_client demo_ipc_state) 0) ''Unpair''"
    by (simp add: action_offered_def ipc_client_def ipc_node_def demo_ipc_state_def demo_session_def ses_def)
  moreover have "ie_client demo_ipc_env" by (simp add: demo_ipc_env_def)
  ultimately show ?thesis
    using device_page_acts [of demo_ipc_env "''phone''" "''Unpair''" demo_ipc_state 0 "''pad''"] by force
qed

end
