(* ===== verification/Overlay_Settings.thy ===== *)
theory Overlay_Settings
  imports Overlay_Actions
begin

text \<open>
  \<open>overlay/src/gui/settings_gui.cpp\<close>, \<open>notification_style_gui.cpp\<close> and \<open>elements/font_size_bar.h\<close>: the
  pages of the settings. Switches and step bars are those of the toolkit, which call their listeners with
  the new state or step.
\<close>

section \<open>Steps\<close>

definition kDurationSteps :: "i32 list" where
  "kDurationSteps = [1000, 2000, 3000, 4000, 5000, 6000, 8000, 10000, 15000]"
definition kSeekSteps :: "i32 list" where
  "kSeekSteps = [5000, 10000, 15000, 20000, 30000, 45000, 60000]"
definition kFontSizeSteps :: "i32 list" where
  "kFontSizeSteps = [14, 16, 18, 20, 22, 24, 26]"

definition findStepIndex :: "i32 list \<Rightarrow> i32 \<Rightarrow> nat" where
  "findStepIndex vals v = (case find_if (\<lambda>x. x = v) vals of Some i \<Rightarrow> i | None \<Rightarrow> 0)"

section \<open>The page\<close>

text \<open>What is created, in order, with the value shown when a setting cannot be read.\<close>

datatype settings_entry =
    HeaderEntry string
  | SwitchEntry string bool_key bool
  | StyleEntry
  | FontEntry
  | BarEntry string int_key "i32 list" "string list" i32
  | TestEntry

definition settings_entries :: "settings_entry list" where
  "settings_entries =
     [HeaderEntry ''Notifications'',
      SwitchEntry ''Show notifications'' NotificationShowRemoteMessages True,
      SwitchEntry ''Notify on connect'' NotificationShowOnConnect False,
      SwitchEntry ''Notify on low battery'' NotificationShowOnBatteryLow True,
      SwitchEntry ''Show app icons'' NotificationShowIcon True,
      SwitchEntry ''Show time'' NotificationShowTime True,
      StyleEntry,
      FontEntry,
      BarEntry ''Notification duration'' NotificationDuration kDurationSteps
        [''1s'', ''2s'', ''3s'', ''4s'', ''5s'', ''6s'', ''8s'', ''10s'', ''15s''] 4000,
      TestEntry,
      HeaderEntry ''Media'',
      BarEntry ''Rewind/Fast-forward step size'' MprisSeekStepSize kSeekSteps
        [''5s'', ''10s'', ''15s'', ''20s'', ''30s'', ''45s'', ''60s''] 10000,
      SwitchEntry ''Show thumbnail (if available)'' MprisShowAlbumArt True,
      SwitchEntry ''Thumbnail above track info'' MprisAlbumArtTopLayout False,
      HeaderEntry ''Commands'',
      SwitchEntry ''Allow power commands'' RunCommandPowerCommandsEnabled True,
      HeaderEntry ''Debugging'']"

datatype settings_widget =
    Plain gui_item
  | Switch string bool_key bool
  | StepBar string int_key "i32 list" "string list" nat bool

definition font_widgets :: "i32 \<Rightarrow> bool \<Rightarrow> settings_widget list" where
  "font_widgets font_size dyn =
     [Switch ''Dynamic font size'' NotificationDynamicFontSize dyn,
      StepBar ''Font size'' NotificationFontSize kFontSizeSteps [''14'', ''16'', ''18'', ''20'', ''22'', ''24'', ''26'']
        (findStepIndex kFontSizeSteps font_size) (\<not> dyn)]"

text \<open>The font size is asked for before the switch that is listed above it.\<close>

fun make_widget :: "'s ipc_dispatch \<Rightarrow> settings_entry \<Rightarrow> 's \<Rightarrow> 's \<times> settings_widget list" where
  "make_widget D (HeaderEntry t) s = (s, [Plain (Header t)])"
| "make_widget D (SwitchEntry t k fallback) s = (case read_bool D k fallback s of (s, b) \<Rightarrow> (s, [Switch t k b]))"
| "make_widget D StyleEntry s =
     (case read_int D NotificationStyle_key 0 s of
        (s, raw) \<Rightarrow> (s, [Plain (Button ''Notification style'' (''Type '' @ int_str (sint (raw + 1))) [Go ToStyles])]))"
| "make_widget D FontEntry s =
     (case read_int D NotificationFontSize 22 s of
        (s, font_size) \<Rightarrow>
          (case read_bool D NotificationDynamicFontSize False s of (s, dyn) \<Rightarrow> (s, font_widgets font_size dyn)))"
| "make_widget D (BarEntry t k vals labels fallback) s =
     (case read_int D k fallback s of (s, v) \<Rightarrow> (s, [StepBar t k vals labels (findStepIndex vals v) True]))"
| "make_widget D TestEntry s = (s, [Plain (Button ''Send test notification'' sym_mail [Call CallTestNotification])])"

fun make_widgets :: "'s ipc_dispatch \<Rightarrow> settings_entry list \<Rightarrow> 's \<Rightarrow> 's \<times> settings_widget list" where
  "make_widgets D [] s = (s, [])"
| "make_widgets D (x # xs) s =
     (case make_widget D x s of (s, w) \<Rightarrow> (case make_widgets D xs s of (s, ws) \<Rightarrow> (s, w @ ws)))"

text \<open>
  The listeners: of a switch with its new state, of a bar with the new step. The font size bar follows
  the switch above it and, disabled, passes no input on.
\<close>

definition switch_changed :: "bool_key \<Rightarrow> bool \<Rightarrow> gui_effect list" where
  "switch_changed k v = [Call (CallWriteBool k v)]"

definition bar_changed :: "int_key \<Rightarrow> i32 list \<Rightarrow> nat \<Rightarrow> gui_effect list" where
  "bar_changed k vals idx = (if idx < length vals then [Call (CallWriteInt k (vals ! idx))] else [])"

fun after_switch :: "bool_key \<Rightarrow> bool \<Rightarrow> settings_widget \<Rightarrow> settings_widget" where
  "after_switch k v (Switch t k' b) = Switch t k' (if k' = k then v else b)"
| "after_switch k v (StepBar t k' vals labels i enabled) =
     StepBar t k' vals labels i (if k = NotificationDynamicFontSize \<and> k' = NotificationFontSize then \<not> v else enabled)"
| "after_switch k v (Plain i) = Plain i"

fun after_bar :: "int_key \<Rightarrow> nat \<Rightarrow> settings_widget \<Rightarrow> settings_widget" where
  "after_bar k j (StepBar t k' vals labels i enabled) = StepBar t k' vals labels (if k' = k then j else i) enabled"
| "after_bar k j w = w"

fun bar_input :: "settings_widget \<Rightarrow> nat \<Rightarrow> settings_widget \<times> gui_effect list \<times> bool" where
  "bar_input (StepBar t k vals labels i enabled) j =
     (if \<not> enabled then (StepBar t k vals labels i enabled, [], False)
      else (StepBar t k vals labels j enabled, bar_changed k vals j, True))"
| "bar_input w j = (w, [], False)"

text \<open>The lines on memory and versions; \<open>[heap total, heap used, heap max, \<dots>]\<close> in the order of the struct.\<close>

definition memory_lines :: "u64 list \<Rightarrow> gui_item list" where
  "memory_lines m =
     (let kb = (\<lambda>i. nat_str (unat (m ! i)) @ '' KB'')
      in [Line ''Heap usage'' (take 63 (kb 2 @ '' / '' @ kb 4)), Line ''Heap arena size'' (kb 3),
          Line ''Socket buffers (Heap)'' (kb 1), Line ''Total used memory'' (kb 0)])"

definition version_lines :: "gui_env \<Rightarrow> string \<times> string \<times> bool \<Rightarrow> gui_item list" where
  "version_lines g v =
     (case v of (version, commit, debug) \<Rightarrow>
        let differs = version \<noteq> ge_version g \<or> commit \<noteq> ge_commit g
        in Line (if differs then ''Sysmodule version'' else ''Version'')
             (take 63 (''v'' @ version @ (if debug then ''-dbg-'' else ''-'') @ commit)) #
           (if differs then [Line ''Overlay version'' (take 63 (''v'' @ ge_version g @ ''-'' @ ge_commit g))] else []))"

definition settings_page :: "gui_env \<Rightarrow> 's ipc_dispatch \<Rightarrow> 's \<Rightarrow> 's \<times> settings_widget list" where
  "settings_page g D s =
     (case make_widgets D settings_entries s of
        (s, ws) \<Rightarrow>
          (case kdecIpcGetMemoryInfo D s of
             (s, _, mem) \<Rightarrow>
               (case kdecIpcGetVersionInfo D s of
                  (s, _, ver) \<Rightarrow>
                    (s, ws @ map Plain (memory_lines (case mem of Some m \<Rightarrow> m | None \<Rightarrow> replicate 5 0) @
                       version_lines g (case ver of Some v \<Rightarrow> v | None \<Rightarrow> ([], [], False)) @
                       [Button ''Kill sysmodule'' sym_cross (if ge_pm_ok g then [TerminateSysmodule, Go SwapToMain] else [])])))))"

text \<open>Every 120 frames the memory is asked for again.\<close>

definition settings_update :: "'s ipc_dispatch \<Rightarrow> nat \<Rightarrow> 's \<Rightarrow> nat \<times> 's \<times> gui_item list" where
  "settings_update D n s =
     (if n + 1 < 120 then (n + 1, s, [])
      else (case kdecIpcGetMemoryInfo D s of
              (s, _, mem) \<Rightarrow> (0, s, take 2 (memory_lines (case mem of Some m \<Rightarrow> m | None \<Rightarrow> replicate 5 0)))))"

section \<open>The page of the notification styles\<close>

definition kStyles :: "(notification_style \<times> string \<times> string) list" where
  "kStyles =
     [(AppName_TitleBody, ''App name'', ''Title: Message''),
      (AppName_Title, ''App name'', ''Title''),
      (Title_Body, ''Title'', ''Message''),
      (TitleAppName_Body, ''Title '' @ middle_dot @ '' App name'', ''Message''),
      (AppNameTitle_Body, ''App name '' @ middle_dot @ '' Title'', ''Message'')]"

definition style_page :: "'s ipc_dispatch \<Rightarrow> 's \<Rightarrow> 's \<times> (gui_item \<times> string) list" where
  "style_page D s =
     (case read_int D NotificationStyle_key 0 s of
        (s, cur) \<Rightarrow>
          (s, map (\<lambda>(val, label, description).
                     (Button label (if style_val val = cur then sym_accept else [])
                        [Call (CallWriteInt NotificationStyle_key (style_val val)), Go SwapToSettings], description)) kStyles))"

section \<open>What is chosen is remembered\<close>

lemma find_step: "distinct vals \<Longrightarrow> idx < length vals \<Longrightarrow> findStepIndex vals (vals ! idx) = idx"
proof -
  assume a: "distinct vals" "idx < length vals"
  then obtain i where i: "find_if (\<lambda>x. x = vals ! idx) vals = Some i"
    using find_if_None [of "\<lambda>x. x = vals ! idx" vals] nth_mem by (cases "find_if (\<lambda>x. x = vals ! idx) vals") blast+
  then have "i < length vals" "vals ! i = vals ! idx" using find_if_Some [OF i] by auto
  then show ?thesis using i a by (simp add: findStepIndex_def nth_eq_iff_index_eq)
qed

lemma steps_distinct: "distinct kDurationSteps" "distinct kSeekSteps" "distinct kFontSizeSteps"
  by (simp_all add: kDurationSteps_def kSeekSteps_def kFontSizeSteps_def)

text \<open>The service's answers to the four calls on settings.\<close>

lemma resend_settings: "is_settings (fold (resend_commands e) ds st) = is_settings st"
proof (induction ds arbitrary: st)
  case (Cons d ds)
  have "is_settings (resend_commands e d st) = is_settings st"
    by (auto simp: resend_commands_def call_plugin_def with_client_def Let_def split: option.split prod.split)
  then show ?case using Cons.IH by simp
qed simp

lemma put_nonempty: "put_u8 k \<noteq> []" "enc_write_bool p \<noteq> []" "enc_write_int q \<noteq> []"
  using length_put_num(1) [of k] wire_bool.enc_width [of p] wire_int.enc_width [of q] by force+

lemma dec_writes:
  "dec_write_bool (enc_write_bool (k, b) @ rest) = (k, b)" "dec_write_int (enc_write_int (k, v) @ rest) = (k, v)"
  by (simp_all add: enc_write_bool_def dec_write_bool_def enc_write_int_def dec_write_int_def skip)

lemma writes_settings:
  assumes "ie_client e"
  shows "is_settings (perform (service_dispatch e rest) (CallWriteBool k b) st) =
      (is_settings st)\<lparr>g_bool := AList.update (bool_key_num k) b (g_bool (is_settings st))\<rparr>"
    "is_settings (perform (service_dispatch e rest) (CallWriteInt j v) st) =
      (is_settings st)\<lparr>g_int := AList.update (int_key_num j) v (g_int (is_settings st))\<rparr>"
proof -
  have s: "is_settings (store_settings x st) = fst x" for x
    by (simp add: store_settings_def with_client_def split: prod.split)
  have "fst (dispatch_in (service_dispatch e rest) CmdWriteBoolSetting (enc_write_bool (bool_key_num k, b)) st) =
      fst (ipc_write_bool e \<lparr>rq_cmd = 0, rq_size = 2, rq_ptr = enc_write_bool (bool_key_num k, b), rq_recv = None\<rparr> st)"
    by (rule service_call [OF put_nonempty(2)])
      (use wire_bool.enc_width dec_writes(1) [of _ _ "[]"] in
        \<open>simp add: handle_command_def assms cmd_num_inverse ipc_write_bool_def dec_writes Let_def\<close>)
  then show "is_settings (perform (service_dispatch e rest) (CallWriteBool k b) st) =
      (is_settings st)\<lparr>g_bool := AList.update (bool_key_num k) b (g_bool (is_settings st))\<rparr>"
    using dec_writes(1) [of _ _ "[]"]
    by (simp add: perform_def kdecIpcWriteBoolSetting_def ipc_write_bool_def resend_settings s set_bool_setting_def Let_def)
  have "fst (dispatch_in (service_dispatch e rest) CmdWriteIntSetting (enc_write_int (int_key_num j, v)) st) =
      fst (ipc_write_int e \<lparr>rq_cmd = 0, rq_size = 8, rq_ptr = enc_write_int (int_key_num j, v), rq_recv = None\<rparr> st)"
    by (rule service_call [OF put_nonempty(3)])
      (use wire_int.enc_width dec_writes(2) [of _ _ "[]"] in
        \<open>simp add: handle_command_def assms cmd_num_inverse ipc_write_int_def dec_writes\<close>)
  then show "is_settings (perform (service_dispatch e rest) (CallWriteInt j v) st) =
      (is_settings st)\<lparr>g_int := AList.update (int_key_num j) v (g_int (is_settings st))\<rparr>"
    using dec_writes(2) [of _ _ "[]"]
    by (simp add: perform_def kdecIpcWriteIntSetting_def ipc_write_int_def s set_int_setting_def Let_def)
qed

lemma reads_settings:
  assumes "ie_client e"
  shows "read_bool (service_dispatch e rest) k b st = (st, get_bool_setting (is_settings st) (bool_key_num k))"
    "read_int (service_dispatch e rest) j v st = (st, get_int_setting (is_settings st) (int_key_num j))"
proof -
  have "unat (bool_key_num k) < length bool_settings" "unat (int_key_num j) < length int_settings"
    by (cases k; simp add: bool_key_num_def bool_settings_def) (cases j; simp add: int_key_num_def int_settings_def)
  then have n: "\<not> of_nat (length bool_settings) \<le> bool_key_num k" "\<not> of_nat (length int_settings) \<le> int_key_num j"
    by (simp_all add: bool_settings_def int_settings_def word_le_nat_alt)
  have "dispatch_out get_bool (service_dispatch e rest) CmdReadBoolSetting (put_u8 (bool_key_num k)) st =
      (st, RcOk, Some (get_bool_setting (is_settings st) (bool_key_num k)))"
  proof -
    obtain r where "rq_ptr r = put_u8 (bool_key_num k) @ rest" "\<not> rq_size r < length (put_u8 (bool_key_num k))" "rq_recv r = None"
      "service_dispatch e rest (cmd_num CmdReadBoolSetting) (put_u8 (bool_key_num k)) None st =
        (case handle_command e (cmd_num CmdReadBoolSetting) r st of (st, x) \<Rightarrow>
           (st, rs_result x, if rs_result x = RcOk then rs_data x else [], rs_buffer x))"
      by (rule dispatch_request [OF put_nonempty(1) [of "bool_key_num k"], of rest None e CmdReadBoolSetting st], rule that)
    then show ?thesis using n get_put_num(4) [of _ "[]"]
      by (simp add: dispatch_out_def handle_command_def assms cmd_num_inverse ipc_read_bool_def respond_def)
  qed
  then show "read_bool (service_dispatch e rest) k b st = (st, get_bool_setting (is_settings st) (bool_key_num k))"
    by (simp add: read_bool_def kdecIpcReadBoolSetting_def)
  have "dispatch_out get_u32 (service_dispatch e rest) CmdReadIntSetting (put_u8 (int_key_num j)) st =
      (st, RcOk, Some (get_int_setting (is_settings st) (int_key_num j)))"
  proof -
    obtain r where "rq_ptr r = put_u8 (int_key_num j) @ rest" "\<not> rq_size r < length (put_u8 (int_key_num j))" "rq_recv r = None"
      "service_dispatch e rest (cmd_num CmdReadIntSetting) (put_u8 (int_key_num j)) None st =
        (case handle_command e (cmd_num CmdReadIntSetting) r st of (st, x) \<Rightarrow>
           (st, rs_result x, if rs_result x = RcOk then rs_data x else [], rs_buffer x))"
      by (rule dispatch_request [OF put_nonempty(1) [of "int_key_num j"], of rest None e CmdReadIntSetting st], rule that)
    then show ?thesis using n get_put_num(2) [of _ "[]"]
      by (simp add: dispatch_out_def handle_command_def assms cmd_num_inverse ipc_read_int_def respond_def)
  qed
  then show "read_int (service_dispatch e rest) j v st = (st, get_int_setting (is_settings st) (int_key_num j))"
    by (simp add: read_int_def kdecIpcReadIntSetting_def)
qed

text \<open>The page by the settings alone.\<close>

fun widgets_at :: "settings \<Rightarrow> settings_entry \<Rightarrow> settings_widget list" where
  "widgets_at g (HeaderEntry t) = [Plain (Header t)]"
| "widgets_at g (SwitchEntry t k fallback) = [Switch t k (get_bool_setting g (bool_key_num k))]"
| "widgets_at g StyleEntry =
     [Plain (Button ''Notification style''
       (''Type '' @ int_str (sint (get_int_setting g (int_key_num NotificationStyle_key) + 1))) [Go ToStyles])]"
| "widgets_at g FontEntry =
     font_widgets (get_int_setting g (int_key_num NotificationFontSize)) (get_bool_setting g (bool_key_num NotificationDynamicFontSize))"
| "widgets_at g (BarEntry t k vals labels fallback) =
     [StepBar t k vals labels (findStepIndex vals (get_int_setting g (int_key_num k))) True]"
| "widgets_at g TestEntry = [Plain (Button ''Send test notification'' sym_mail [Call CallTestNotification])]"

lemma widgets_of:
  assumes "ie_client e"
  shows "make_widgets (service_dispatch e rest) xs st = (st, concat (map (widgets_at (is_settings st)) xs))"
proof (induction xs)
  case (Cons x xs)
  have "make_widget (service_dispatch e rest) x st = (st, widgets_at (is_settings st) x)"
    by (cases x) (simp_all add: reads_settings [OF assms])
  then show ?case using Cons.IH by simp
qed simp

lemma key_nums: "bool_key_num a = bool_key_num b \<longleftrightarrow> a = b" "int_key_num i = int_key_num j \<longleftrightarrow> i = j"
  by (cases a; cases b; simp add: bool_key_num_def) (cases i; cases j; simp add: int_key_num_def)

lemma get_updated:
  "get_bool_setting (g\<lparr>g_bool := AList.update (bool_key_num k) v (g_bool g)\<rparr>) (bool_key_num k') =
     (if k' = k then v else get_bool_setting g (bool_key_num k'))"
  "get_int_setting (g\<lparr>g_int := AList.update (int_key_num i) n (g_int g)\<rparr>) (int_key_num i') =
     (if i' = i then n else get_int_setting g (int_key_num i'))"
  "get_int_setting (g\<lparr>g_bool := m\<rparr>) j = get_int_setting g j" "get_bool_setting (g\<lparr>g_int := m'\<rparr>) b = get_bool_setting g b"
  by (simp_all add: get_bool_setting_def get_int_setting_def update_conv' key_nums)

text \<open>The bars of the page with their steps.\<close>

definition settings_bars :: "(int_key \<times> i32 list) list" where
  "settings_bars = [(NotificationFontSize, kFontSizeSteps), (NotificationDuration, kDurationSteps), (MprisSeekStepSize, kSeekSteps)]"

lemma after_switch_widgets:
  assumes "x \<in> set settings_entries"
  shows "widgets_at (g\<lparr>g_bool := AList.update (bool_key_num k) v (g_bool g)\<rparr>) x = map (after_switch k v) (widgets_at g x)"
  using assms by (cases x) (auto simp: get_updated font_widgets_def settings_entries_def)

lemma after_bar_widgets:
  assumes "x \<in> set settings_entries" "(j, vals) \<in> set settings_bars" "idx < length vals"
  shows "widgets_at (g\<lparr>g_int := AList.update (int_key_num j) (vals ! idx) (g_int g)\<rparr>) x = map (after_bar j idx) (widgets_at g x)"
proof -
  have "distinct vals" using assms(2) steps_distinct by (auto simp: settings_bars_def)
  from find_step [OF this assms(3)] show ?thesis
    using assms(1,2) by (cases x) (auto simp: get_updated font_widgets_def settings_entries_def settings_bars_def)
qed

text \<open>
  C37: the settings page keeps what it shows. Flipping a switch or moving a bar makes the service store
  the value so that the page, opened again, shows every entry as the user left it: the switch flipped,
  the bar at the chosen step, the font size bar disabled exactly while the dynamic size is on, and
  nothing else changed.
\<close>

theorem settings_page_remembers:
  assumes "ie_client e" "(j, vals) \<in> set settings_bars" "idx < length vals"
  shows "snd (make_widgets (service_dispatch e rest) settings_entries
        (run_listener (service_dispatch e rest) (switch_changed k v) st)) =
      map (after_switch k v) (snd (make_widgets (service_dispatch e rest) settings_entries st)) \<and>
    snd (make_widgets (service_dispatch e rest) settings_entries
        (run_listener (service_dispatch e rest) (bar_changed j vals idx) st)) =
      map (after_bar j idx) (snd (make_widgets (service_dispatch e rest) settings_entries st))"
proof -
  have "map (widgets_at ((is_settings st)\<lparr>g_bool := AList.update (bool_key_num k) v (g_bool (is_settings st))\<rparr>)) settings_entries =
      map (\<lambda>x. map (after_switch k v) (widgets_at (is_settings st) x)) settings_entries"
    by (rule map_cong [OF refl]) (rule after_switch_widgets)
  moreover have "map (widgets_at ((is_settings st)\<lparr>g_int := AList.update (int_key_num j) (vals ! idx) (g_int (is_settings st))\<rparr>)) settings_entries =
      map (\<lambda>x. map (after_bar j idx) (widgets_at (is_settings st) x)) settings_entries"
    by (rule map_cong [OF refl]) (rule after_bar_widgets [OF _ assms(2,3)])
  ultimately show ?thesis
    by (simp add: widgets_of [OF assms(1)] run_listener_def switch_changed_def bar_changed_def assms(3)
        writes_settings [OF assms(1)] map_concat comp_def del: map_eq_conv)
qed

theorem settings_page_remembers_witness:
  "snd (make_widgets (service_dispatch demo_ipc_env ''pad'') settings_entries
      (run_listener (service_dispatch demo_ipc_env ''pad'') (bar_changed MprisSeekStepSize kSeekSteps 3) demo_ipc_state)) ! 12 =
    StepBar ''Rewind/Fast-forward step size'' MprisSeekStepSize kSeekSteps
      [''5s'', ''10s'', ''15s'', ''20s'', ''30s'', ''45s'', ''60s''] 3 True"
proof -
  have up: "ie_client demo_ipc_env" by (simp add: demo_ipc_env_def)
  have bar: "(MprisSeekStepSize, kSeekSteps) \<in> set settings_bars" "3 < length kSeekSteps"
    by (simp_all add: settings_bars_def kSeekSteps_def)
  note page = settings_page_remembers [OF up bar, of "''pad''" NotificationShowTime True demo_ipc_state, THEN conjunct2]
  show ?thesis by (subst page, simp only: widgets_of [OF up] snd_conv) (simp add: settings_entries_def font_widgets_def)
qed

end
