(* ===== verification/Overlay_Art.thy ===== *)
theory Overlay_Art
  imports Plugin_Media "HOL-Library.Monad_Syntax"
begin

text \<open>
  \<open>overlay/src/gui/elements/media_title_bar.cpp\<close>: the title bar of the media page, with the album art
  the system module has stored. The picture is scaled down inside the buffer the decoder returned; an
  access outside of that buffer and an overflow of an \<open>int\<close> are faults (\<^const>\<open>None\<close>). The decoders
  (libwebp, stb_image), the width of the screen and of a text, and the file are arguments.
\<close>

section \<open>Loops over memory\<close>

definition c_int :: "int \<Rightarrow> int option" where
  "c_int n = (if - (2 ^ 31) \<le> n \<and> n < 2 ^ 31 then Some n else None)"

fun for_each :: "('i \<Rightarrow> 's \<Rightarrow> 's option) \<Rightarrow> 'i list \<Rightarrow> 's \<Rightarrow> 's option" where
  "for_each f [] s = Some s"
| "for_each f (i # xs) s = do { s \<leftarrow> f i s; for_each f xs s }"

definition byte_copy :: "int \<Rightarrow> int \<Rightarrow> string \<Rightarrow> string option" where
  "byte_copy w r d =
     (if 0 \<le> w \<and> w < int (length d) \<and> 0 \<le> r \<and> r < int (length d) then Some (d[nat w := d ! nat r]) else None)"

section \<open>Scaling\<close>

text \<open>The four bytes of a pixel, then a pixel, a row and the whole picture.\<close>

definition copy_pixel :: "int \<Rightarrow> int \<Rightarrow> string \<Rightarrow> string option" where
  "copy_pixel wi ri d =
     do { d \<leftarrow> byte_copy wi ri d; d \<leftarrow> byte_copy (wi + 1) (ri + 1) d;
          d \<leftarrow> byte_copy (wi + 2) (ri + 2) d; byte_copy (wi + 3) (ri + 3) d }"

definition scale_pixel :: "int \<Rightarrow> int \<Rightarrow> int \<Rightarrow> int \<Rightarrow> int \<Rightarrow> string \<Rightarrow> string option" where
  "scale_pixel src_w dst_w oy sy ox d =
     do { p \<leftarrow> c_int (ox * src_w);
          let sx = p div dst_w;
          ri \<leftarrow> c_int ((sy * src_w + sx) * 4);
          wi \<leftarrow> c_int ((oy * dst_w + ox) * 4);
          copy_pixel wi ri d }"

definition scale_row :: "int \<Rightarrow> int \<Rightarrow> int \<Rightarrow> int \<Rightarrow> int \<Rightarrow> string \<Rightarrow> string option" where
  "scale_row src_w src_h dst_w dst_h oy d =
     do { p \<leftarrow> c_int (oy * src_h);
          for_each (scale_pixel src_w dst_w oy (p div dst_h)) [0..dst_w - 1] d }"

definition scale_art :: "int \<Rightarrow> int \<Rightarrow> int \<Rightarrow> int \<Rightarrow> string \<Rightarrow> string option" where
  "scale_art src_w src_h dst_w dst_h d =
     (if dst_w \<noteq> src_w \<or> dst_h \<noteq> src_h then for_each (scale_row src_w src_h dst_w dst_h) [0..dst_h - 1] d
      else Some d)"

datatype bar_layout = SideLayout | TopLayout

definition kArtDim :: int where "kArtDim = 80"
definition kArtGap :: int where "kArtGap = 8"
definition kHeightSide :: int where "kHeightSide = 100"
definition art_avail_h :: int where "art_avail_h = 270"

text \<open>The size shown: as is or shrunk to what is available, or the square of the side layout.\<close>

definition art_dims :: "bar_layout \<Rightarrow> int \<Rightarrow> int \<Rightarrow> int \<Rightarrow> (int \<times> int) option" where
  "art_dims l avail_w src_w src_h =
     (case l of
        SideLayout \<Rightarrow> Some (kArtDim, kArtDim)
      | TopLayout \<Rightarrow>
          do { (dst_w, dst_h) \<leftarrow>
                 (if avail_w < src_w then do { p \<leftarrow> c_int (src_h * avail_w); Some (avail_w, max 1 (p div src_w)) }
                  else Some (src_w, src_h));
               if art_avail_h < dst_h then do { p \<leftarrow> c_int (src_w * art_avail_h); Some (max 1 (p div src_h), art_avail_h) }
               else Some (dst_w, dst_h) })"

section \<open>The title bar\<close>

text \<open>
  The scrolling of a text that is too wide. Its offset, which only the drawing reads, is left out;
  so is the time of its last update.
\<close>

record scroll_state =
  sc_max_w :: u32
  sc_text_w :: u32
  sc_active :: bool
  sc_trunc :: bool
  sc_text :: string

definition new_scroll :: scroll_state where
  "new_scroll = \<lparr>sc_max_w = 0, sc_text_w = 0, sc_active = False, sc_trunc = False, sc_text = []\<rparr>"

record title_bar =
  tb_layout :: bar_layout
  tb_title :: string
  tb_artist :: string
  tb_title_scroll :: scroll_state
  tb_artist_scroll :: scroll_state
  tb_art_hash :: string
  tb_art_pixels :: "string option"
  tb_art_w :: int
  tb_art_h :: int

definition new_title_bar :: "bar_layout \<Rightarrow> title_bar" where
  "new_title_bar l =
     \<lparr>tb_layout = l, tb_title = [], tb_artist = [], tb_title_scroll = new_scroll, tb_artist_scroll = new_scroll,
      tb_art_hash = [], tb_art_pixels = None, tb_art_w = 0, tb_art_h = 0\<rparr>"

definition bar_height :: "title_bar \<Rightarrow> int" where
  "bar_height tb = (if tb_layout tb = SideLayout \<or> tb_art_pixels tb = None then kHeightSide else tb_art_h tb + 84)"

definition reset_scroll :: "scroll_state \<Rightarrow> string \<Rightarrow> string \<Rightarrow> scroll_state \<times> string" where
  "reset_scroll s dest src = (if dest = src then (s, dest) else (new_scroll, src))"

definition set_info :: "string \<Rightarrow> string \<Rightarrow> title_bar \<Rightarrow> title_bar" where
  "set_info title artist tb =
     (case reset_scroll (tb_title_scroll tb) (tb_title tb) title of
        (s, t) \<Rightarrow>
          (case reset_scroll (tb_artist_scroll tb) (tb_artist tb) artist of
             (s', a) \<Rightarrow> tb\<lparr>tb_title := t, tb_title_scroll := s, tb_artist := a, tb_artist_scroll := s'\<rparr>))"

text \<open>\<open>width\<close> is the bar's width and \<open>measure_text\<close> the renderer's.\<close>

definition calc_scroll_width :: "int \<Rightarrow> (string \<Rightarrow> u32) \<Rightarrow> title_bar \<Rightarrow> string \<Rightarrow> scroll_state \<Rightarrow> scroll_state" where
  "calc_scroll_width width measure_text tb text s =
     (if sc_max_w s \<noteq> 0 then s
      else
        (let s = s\<lparr>sc_max_w := of_int (if tb_layout tb = SideLayout
                   then max 0 (width - (if tb_art_pixels tb = None then 0 else kArtDim + kArtGap)) else width)\<rparr>;
             w = measure_text text;
             s = s\<lparr>sc_trunc := sc_max_w s < w\<rparr>
         in if sc_trunc s then
              (let padded = text @ replicate 8 (CHR '' '')
               in s\<lparr>sc_text_w := measure_text padded, sc_text := padded @ text\<rparr>)
            else s\<lparr>sc_text_w := w\<rparr>))"

record art_env =
  av_fb_width :: u16
  av_file :: "string \<Rightarrow> string option"
  av_webp :: "string \<Rightarrow> (int \<times> int \<times> string) option"
  av_stb :: "string \<Rightarrow> (int \<times> int \<times> string) option"

definition decode_art :: "art_env \<Rightarrow> string \<Rightarrow> (int \<times> int \<times> string) option" where
  "decode_art V buf =
     (if 12 \<le> length buf \<and> take 4 buf = ''RIFF'' \<and> take 4 (drop 8 buf) = ''WEBP'' then av_webp V buf else av_stb V buf)"

text \<open>The file as it is read: 127 bytes of a path, at most 256 KB.\<close>

definition art_file :: "art_env \<Rightarrow> string \<Rightarrow> string option" where
  "art_file V hash =
     (case av_file V (take 127 (''/config/kdeconnect/album_art/'' @ c_str hash)) of
        None \<Rightarrow> None
      | Some buf \<Rightarrow> if buf = [] \<or> 256 * 1024 < length buf then None else Some buf)"

text \<open>The outer \<^const>\<open>None\<close> is the fault, the inner one a picture that cannot be shown yet.\<close>

definition load_art :: "art_env \<Rightarrow> bar_layout \<Rightarrow> string \<Rightarrow> (int \<times> int \<times> string) option option" where
  "load_art V l hash =
     (case art_file V hash of
        None \<Rightarrow> Some None
      | Some buf \<Rightarrow>
          (case decode_art V buf of
             None \<Rightarrow> Some None
           | Some (src_w, src_h, decoded) \<Rightarrow>
               if src_w \<le> 0 \<or> src_h \<le> 0 then Some None
               else
                 do { (dst_w, dst_h) \<leftarrow> art_dims l (int (unat (av_fb_width V)) - 85) src_w src_h;
                      decoded \<leftarrow> scale_art src_w src_h dst_w dst_h decoded;
                      Some (Some (dst_w, dst_h, take (nat (dst_w * dst_h * 4)) decoded)) }))"

text \<open>The bar afterwards and how often its parent is laid out again.\<close>

definition set_album_art :: "art_env \<Rightarrow> string \<Rightarrow> title_bar \<Rightarrow> (title_bar \<times> nat) option" where
  "set_album_art V hash tb =
     (if tb_art_pixels tb \<noteq> None \<and> hash = tb_art_hash tb then Some (tb, 0)
      else
        (let changed = hash \<noteq> tb_art_hash tb; n = (if changed then 1 else 0);
             tb = (if changed then tb\<lparr>tb_art_hash := hash, tb_art_pixels := None, tb_art_w := 0, tb_art_h := 0,
                                       tb_title_scroll := new_scroll, tb_artist_scroll := new_scroll\<rparr> else tb)
         in if changed \<and> hash = [] then Some (tb, n)
            else
              do { r \<leftarrow> load_art V (tb_layout tb) hash;
                   Some (case r of
                           None \<Rightarrow> (tb, n)
                         | Some (w, h, px) \<Rightarrow>
                             (tb\<lparr>tb_art_pixels := Some px, tb_art_w := w, tb_art_h := h,
                                 tb_title_scroll := new_scroll, tb_artist_scroll := new_scroll\<rparr>, n + 1)) }))"

section \<open>Loops\<close>

lemma for_each_upto:
  assumes "\<And>i s. k \<le> i \<Longrightarrow> i < n \<Longrightarrow> I i s \<Longrightarrow> \<exists>s'. f i s = Some s' \<and> I (i + 1) s'" "I k s" "k \<le> n"
  shows "\<exists>s'. for_each f [k..n - 1] s = Some s' \<and> I n s'"
  using assms
proof (induction "nat (n - k)" arbitrary: k s)
  case 0
  then show ?case by simp
next
  case (Suc m)
  then have k: "k < n" by simp
  then obtain t where t: "f k s = Some t" "I (k + 1) t" using Suc.prems by blast
  have "\<exists>s'. for_each f [k + 1..n - 1] t = Some s' \<and> I n s'"
    by (rule Suc.hyps(1)) (use Suc k t in auto)
  then show ?case using k t by (simp add: upto_rec1)
qed

lemma for_each_length:
  assumes "\<And>i s s'. f i s = Some s' \<Longrightarrow> length s' = length s"
  shows "for_each f xs s = Some s' \<Longrightarrow> length s' = length s"
  by (induction xs arbitrary: s) (auto split: Option.bind_splits dest: assms)

text \<open>A loop that returns has passed through each of its iterations.\<close>

lemma for_each_passes:
  assumes "\<And>i s s'. f i s = Some s' \<Longrightarrow> length s' = length s"
  shows "for_each f xs s = Some s' \<Longrightarrow> i \<in> set xs \<Longrightarrow> \<exists>t t'. f i t = Some t' \<and> length t = length s"
proof (induction xs arbitrary: s)
  case (Cons a xs)
  then obtain t where t: "f a s = Some t" "for_each f xs t = Some s'" by (auto split: Option.bind_splits)
  then show ?case using Cons.IH [OF t(2)] Cons.prems(2) assms [OF t(1)] by auto
qed simp

section \<open>Nearest neighbour\<close>

text \<open>The pixel of the picture that pixel \<open>t\<close> of the scaled one shows.\<close>

definition src_pixel :: "int \<Rightarrow> int \<Rightarrow> int \<Rightarrow> int \<Rightarrow> nat \<Rightarrow> nat" where
  "src_pixel w h dw dh t = nat ((int t div dw * h div dh) * w + int t mod dw * w div dw)"

text \<open>The buffer when the first \<open>t\<close> pixels are written: the rest is still the picture.\<close>

definition scaled_to :: "(nat \<Rightarrow> nat) \<Rightarrow> string \<Rightarrow> nat \<Rightarrow> string \<Rightarrow> bool" where
  "scaled_to f d0 t d \<longleftrightarrow>
     length d = length d0 \<and> (\<forall>m < length d0. d ! m = (if m < 4 * t then d0 ! (4 * f (m div 4) + m mod 4) else d0 ! m))"

lemma copy_pixel_nat:
  assumes "4 * t + 3 < length d" "4 * r + 3 < length d" "t \<le> r"
  shows "copy_pixel (4 * int t) (4 * int r) d =
    Some (d[4 * t := d ! (4 * r), 4 * t + 1 := d ! (4 * r + 1), 4 * t + 2 := d ! (4 * r + 2), 4 * t + 3 := d ! (4 * r + 3)])"
proof -
  have b: "byte_copy (4 * int t + int k) (4 * int r + int k) e = Some (e[4 * t + k := e ! (4 * r + k)])"
    if "length e = length d" "k < 4" for e k
  proof -
    have "nat (4 * int t + int k) = 4 * t + k" "nat (4 * int r + int k) = 4 * r + k" by (simp_all add: nat_add_distrib nat_mult_distrib)
    then show ?thesis using that assms by (simp add: byte_copy_def)
  qed
  have n: "4 * t \<noteq> 4 * r + 1" "4 * t \<noteq> 4 * r + 2" "4 * t \<noteq> 4 * r + 3" "4 * t + 1 \<noteq> 4 * r + 2" "4 * t + 1 \<noteq> 4 * r + 3"
    "4 * t + 2 \<noteq> 4 * r + 3" using assms(3) by presburger+
  let ?d1 = "d[4 * t := d ! (4 * r)]"
  let ?d2 = "?d1[4 * t + 1 := ?d1 ! (4 * r + 1)]"
  let ?d3 = "?d2[4 * t + 2 := ?d2 ! (4 * r + 2)]"
  have "copy_pixel (4 * int t) (4 * int r) d = Some (?d3[4 * t + 3 := ?d3 ! (4 * r + 3)])"
    using b [of d 0] b [of ?d1 1] b [of ?d2 2] b [of ?d3 3] by (simp add: copy_pixel_def)
  then show ?thesis using n by simp
qed

lemma scaled_step:
  assumes "scaled_to f d0 t d" "t \<le> f t" "4 * f t + 3 < length d0"
  shows "\<exists>d'. copy_pixel (4 * int t) (4 * int (f t)) d = Some d' \<and> scaled_to f d0 (t + 1) d'"
proof -
  let ?d = "d[4 * t := d ! (4 * f t), 4 * t + 1 := d ! (4 * f t + 1), 4 * t + 2 := d ! (4 * f t + 2), 4 * t + 3 := d ! (4 * f t + 3)]"
  have len: "length d = length d0" using assms(1) by (simp add: scaled_to_def)
  have src: "d ! (4 * f t + k) = d0 ! (4 * f t + k)" if "k < 4" for k
    using assms that by (simp add: scaled_to_def)
  have "?d ! m = (if m < 4 * (t + 1) then d0 ! (4 * f (m div 4) + m mod 4) else d0 ! m)" if "m < length d0" for m
  proof (cases "m div 4 = t")
    case True
    define k where "k = m mod 4"
    have m: "m = 4 * t + k" "m mod 4 = k" "k < 4" using True mult_div_mod_eq [of 4 m] by (simp_all add: k_def)
    then have "k = 0 \<or> k = 1 \<or> k = 2 \<or> k = 3" by linarith
    then have "?d ! (4 * t + k) = d ! (4 * f t + k)" using that len m(1) by (elim disjE) simp_all
    then show ?thesis using src [OF m(3)] True m by simp
  next
    case False
    then have "m < 4 * (t + 1) \<longleftrightarrow> m < 4 * t"
      using div_less_iff_less_mult [of 4 m t] div_less_iff_less_mult [of 4 m "t + 1"] by (simp add: mult.commute less_Suc_eq)
    moreover have "m \<noteq> 4 * t" "m \<noteq> 4 * t + 1" "m \<noteq> 4 * t + 2" "m \<noteq> 4 * t + 3" using False by auto
    ultimately show ?thesis using assms(1) that by (simp add: scaled_to_def)
  qed
  then have "scaled_to f d0 (t + 1) ?d" using len by (simp add: scaled_to_def)
  moreover have "4 * t + 3 < length d" using assms(2,3) len by simp
  moreover have "4 * f t + 3 < length d" using assms(3) len by simp
  ultimately show ?thesis using copy_pixel_nat [OF _ _ assms(2)] by blast
qed

lemma src_pixel_row:
  assumes "0 < dw" "0 \<le> oy" "0 \<le> ox" "ox < dw"
  shows "src_pixel w h dw dh (nat (oy * dw + ox)) = nat ((oy * h div dh) * w + ox * w div dw)"
proof -
  have "0 \<le> oy * dw + ox" using assms by simp
  moreover have "(oy * dw + ox) div dw = oy" "(oy * dw + ox) mod dw = ox"
    using assms by simp_all
  ultimately show ?thesis by (simp add: src_pixel_def)
qed

lemma div_grows: "0 < (b :: int) \<Longrightarrow> b \<le> a \<Longrightarrow> 0 \<le> i \<Longrightarrow> i \<le> i * a div b"
  by (smt (verit, ccfv_threshold) mult_left_mono nonzero_mult_div_cancel_right zdiv_mono1)

lemma div_below:
  assumes "0 < (b :: int)" "0 < a" "0 \<le> i" "i < b"
  shows "i * a div b < a"
proof -
  have "i * a < b * a" using assms by simp
  moreover have "b * (i * a div b) \<le> i * a" using assms by (metis le_add_same_cancel1 mult_div_mod_eq pos_mod_sign)
  ultimately have "b * (i * a div b) < b * a" by linarith
  then show ?thesis using assms by simp
qed

lemma index_below: "0 \<le> (i :: int) \<Longrightarrow> i < a \<Longrightarrow> 0 \<le> j \<Longrightarrow> j < b \<Longrightarrow> i * b + j < a * b"
  using mult_right_mono [of "i + 1" a b] by (simp add: algebra_simps)

lemma c_int_small: "0 \<le> n \<Longrightarrow> n < 2 ^ 31 \<Longrightarrow> c_int n = Some n"
  by (simp add: c_int_def)

text \<open>A picture that is not enlarged: its sides, the shown sides and its bytes.\<close>

definition shrinks :: "int \<Rightarrow> int \<Rightarrow> int \<Rightarrow> int \<Rightarrow> string \<Rightarrow> bool" where
  "shrinks w h dw dh d \<longleftrightarrow>
     0 < dw \<and> dw \<le> w \<and> 0 < dh \<and> dh \<le> h \<and> w < 2 ^ 15 \<and> h < 2 ^ 15 \<and> int (length d) = w * h * 4 \<and> w * h * 4 < 2 ^ 31"

lemma pixel_step:
  assumes "shrinks w h dw dh d0" "0 \<le> oy" "oy < dh" "0 \<le> ox" "ox < dw"
    and d: "scaled_to (src_pixel w h dw dh) d0 (nat (oy * dw + ox)) d"
  shows "\<exists>d'. scale_pixel w dw oy (oy * h div dh) ox d = Some d' \<and>
    scaled_to (src_pixel w h dw dh) d0 (nat (oy * dw + (ox + 1))) d'"
proof -
  let ?sy = "oy * h div dh" let ?sx = "ox * w div dw" let ?t = "nat (oy * dw + ox)"
  have dims: "0 < dw" "dw \<le> w" "0 < dh" "dh \<le> h" "w < 2 ^ 15" "h < 2 ^ 15" "int (length d0) = w * h * 4" "w * h * 4 < 2 ^ 31"
    using assms(1) by (auto simp: shrinks_def)
  have y: "oy \<le> ?sy" "?sy < h" using div_grows [of dh h oy] div_below [of dh h oy] dims assms by auto
  have x: "ox \<le> ?sx" "?sx < w" using div_grows [of dw w ox] div_below [of dw w ox] dims assms by auto
  have src: "src_pixel w h dw dh ?t = nat (?sy * w + ?sx)" by (rule src_pixel_row) (use dims assms in auto)
  have read: "0 \<le> ?sy * w + ?sx" "?sy * w + ?sx < h * w" using index_below [of ?sy h ?sx w] y x assms(2,4) dims by auto
  have ahead: "oy * dw + ox \<le> ?sy * w + ?sx" using mult_mono [OF y(1) dims(2)] x(1) y assms dims by linarith
  have wr: "0 \<le> oy * dw + ox" using assms dims by simp
  have area: "ox * w \<le> 2 ^ 15 * 2 ^ 15" by (rule mult_mono) (use assms dims in auto)
  have area0: "0 \<le> ox * w" using assms dims by simp
  have ints: "c_int (ox * w) = Some (ox * w)" by (rule c_int_small) (use area area0 in auto)
  have lin: "c_int (S * 4) = Some (S * 4)" "c_int (T * 4) = Some (T * 4)" if "0 \<le> T" "T \<le> S" "S < h * w" for S T
    using that dims(8) mult.commute [of h w] by (simp_all add: c_int_def)
  note ints = ints lin [OF wr ahead read(2)]
  have bounds: "?t \<le> src_pixel w h dw dh ?t" "4 * src_pixel w h dw dh ?t + 3 < length d0"
    using ahead wr read dims(7) unfolding src by (auto simp: nat_le_iff mult.commute [of h w])
  have pos: "(oy * dw + ox) * 4 = 4 * int ?t" "(?sy * w + ?sx) * 4 = 4 * int (src_pixel w h dw dh ?t)"
    using wr read unfolding src by auto
  have next_t: "nat (oy * dw + (ox + 1)) = ?t + 1" using wr by (simp add: nat_add_distrib [symmetric] add.assoc)
  have "scale_pixel w dw oy ?sy ox d = copy_pixel (4 * int ?t) (4 * int (src_pixel w h dw dh ?t)) d"
    by (simp only: scale_pixel_def Let_def ints ints [unfolded pos] bind.simps pos)
  then show ?thesis using scaled_step [OF d bounds] by (simp only: next_t)
qed

lemma row_step:
  assumes "shrinks w h dw dh d0" "0 \<le> oy" "oy < dh" and d: "scaled_to (src_pixel w h dw dh) d0 (nat (oy * dw)) d"
  shows "\<exists>d'. scale_row w h dw dh oy d = Some d' \<and> scaled_to (src_pixel w h dw dh) d0 (nat ((oy + 1) * dw)) d'"
proof -
  have dims: "0 < dw" "0 < dh" "dh < 2 ^ 15" "0 < h" "h < 2 ^ 15" using assms(1) by (auto simp: shrinks_def)
  have "oy * h \<le> 2 ^ 15 * 2 ^ 15" by (rule mult_mono) (use assms dims in auto)
  then have "c_int (oy * h) = Some (oy * h)" using assms dims by (intro c_int_small) auto
  moreover have "\<exists>d'. for_each (scale_pixel w dw oy (oy * h div dh)) [0..dw - 1] d = Some d' \<and>
      scaled_to (src_pixel w h dw dh) d0 (nat (oy * dw + dw)) d'"
    by (rule for_each_upto [where I = "\<lambda>ox. scaled_to (src_pixel w h dw dh) d0 (nat (oy * dw + ox))"])
      (use pixel_step [OF assms(1-3)] d dims in auto)
  ultimately show ?thesis by (simp add: scale_row_def distrib_right)
qed

lemma scale_art_ok:
  assumes "shrinks w h dw dh d0"
  shows "\<exists>d. scale_art w h dw dh d0 = Some d \<and> scaled_to (src_pixel w h dw dh) d0 (nat (dh * dw)) d"
proof (cases "dw \<noteq> w \<or> dh \<noteq> h")
  case True
  have "\<exists>d. for_each (scale_row w h dw dh) [0..dh - 1] d0 = Some d \<and> scaled_to (src_pixel w h dw dh) d0 (nat (dh * dw)) d"
    by (rule for_each_upto [where I = "\<lambda>oy. scaled_to (src_pixel w h dw dh) d0 (nat (oy * dw))"])
      (use row_step [OF assms] assms in \<open>auto simp: scaled_to_def shrinks_def\<close>)
  then show ?thesis using True by (simp add: scale_art_def)
next
  case False
  have "src_pixel w h w h t = t" for t
    using assms by (simp add: src_pixel_def shrinks_def)
  then show ?thesis using False by (simp add: scale_art_def scaled_to_def)
qed

lemma div_at_most: "0 < (b :: int) \<Longrightarrow> a \<le> c * b \<Longrightarrow> a div b \<le> c"
  using zdiv_mono1 [of a "c * b" b] by simp

text \<open>The sizes shown never exceed what is available, nor the picture.\<close>

lemma top_dims:
  assumes "0 < w" "0 < h" "w < 2 ^ 15" "h < 2 ^ 15" "0 < avail"
  shows "\<exists>dw dh. art_dims TopLayout avail w h = Some (dw, dh) \<and> 0 < dw \<and> dw \<le> w \<and> 0 < dh \<and> dh \<le> h \<and>
    dw \<le> avail \<and> dh \<le> art_avail_h"
proof -
  define dw1 where "dw1 = min avail w"
  define dh1 where "dh1 = (if avail < w then max 1 (h * avail div w) else h)"
  have "h * avail < 2 ^ 31" if "avail < w"
  proof -
    have "h * avail \<le> 2 ^ 15 * 2 ^ 15" by (rule mult_mono) (use assms that in auto)
    then show ?thesis by simp
  qed
  moreover have "w * art_avail_h < 2 ^ 31" "0 \<le> h * avail" "0 \<le> w * art_avail_h" using assms by (simp_all add: art_avail_h_def)
  ultimately have dims: "art_dims TopLayout avail w h =
      Some (if art_avail_h < dh1 then (max 1 (w * art_avail_h div h), art_avail_h) else (dw1, dh1))"
    by (auto simp: art_dims_def dw1_def dh1_def c_int_small min_def)
  have "h * avail div w \<le> h" if "avail < w"
    by (rule div_at_most) (use that assms in simp_all)
  then have 1: "0 < dw1" "dw1 \<le> w" "dw1 \<le> avail" "0 < dh1" "dh1 \<le> h" using assms by (auto simp: dw1_def dh1_def)
  show ?thesis
  proof (cases "art_avail_h < dh1")
    case True
    then have h: "art_avail_h < h" using 1 by simp
    have "w * art_avail_h div h \<le> avail"
    proof (cases "avail < w")
      case True
      then have "art_avail_h < h * avail div w" using \<open>art_avail_h < dh1\<close> by (simp add: dh1_def art_avail_h_def max_def split: if_splits)
      then have "art_avail_h * w < h * avail" using div_at_most [OF assms(1)] by (meson not_less)
      then show ?thesis using assms(2) by (intro div_at_most) (simp_all add: mult.commute)
    next
      case False
      have "w * art_avail_h div h \<le> w" using h assms by (intro div_at_most) simp_all
      then show ?thesis using False by simp
    qed
    moreover have "w * art_avail_h div h \<le> w" using h assms by (intro div_at_most) simp_all
    ultimately show ?thesis using dims True h assms by (simp add: art_avail_h_def)
  next
    case False
    then show ?thesis using dims 1 by simp
  qed
qed

lemma art_dims_shrink:
  assumes "0 < w" "0 < h" "w < 2 ^ 15" "h < 2 ^ 15" "w * h * 4 < 2 ^ 31" "0 < avail" "int (length d) = w * h * 4"
    "l = SideLayout \<longrightarrow> kArtDim \<le> w \<and> kArtDim \<le> h"
  shows "\<exists>dw dh. art_dims l avail w h = Some (dw, dh) \<and> shrinks w h dw dh d \<and>
    (case l of SideLayout \<Rightarrow> dw = kArtDim \<and> dh = kArtDim | TopLayout \<Rightarrow> dw \<le> avail \<and> dh \<le> art_avail_h)"
proof (cases l)
  case SideLayout
  then show ?thesis using assms by (simp add: art_dims_def shrinks_def kArtDim_def)
next
  case TopLayout
  then show ?thesis using top_dims [OF assms(1-4,6)] assms by (auto simp: shrinks_def)
qed

lemma stored_art_file:
  assumes "nul_free hash" "length hash \<le> 16" "av_file V (img_path hash) = Some buf" "buf \<noteq> []" "length buf \<le> 256 * 1024"
  shows "art_file V hash = Some buf"
proof -
  have "take 127 (''/config/kdeconnect/album_art/'' @ c_str hash) = img_path hash"
    using assms(1,2) by (simp add: img_path_def art_dir_def)
  then show ?thesis unfolding art_file_def using assms(3-5) by (simp only: option.case) simp
qed

section \<open>The picture shown\<close>

text \<open>
  C39: the album art on the media page. A picture the system module stored is shown by the nearest
  pixels of the one decoded, although it is scaled inside its own buffer: in the square of the side
  layout, if both sides have at least its 80 pixels, or shrunk to the space above the text. Nothing
  outside of the buffer is read or written and no integer overflows.
\<close>

theorem art_is_nearest_neighbour:
  assumes "nul_free hash" "0 < length hash" "length hash \<le> 16" "av_file V (img_path hash) = Some buf" "buf \<noteq> []" "length buf \<le> 256 * 1024"
    and "decode_art V buf = Some (w, h, d)" "int (length d) = w * h * 4" "0 < w" "0 < h" "w < 2 ^ 15" "h < 2 ^ 15" "w * h * 4 < 2 ^ 31"
    and "85 < unat (av_fb_width V)" "tb_art_pixels tb = None \<or> hash \<noteq> tb_art_hash tb"
    and "tb_layout tb = SideLayout \<longrightarrow> kArtDim \<le> w \<and> kArtDim \<le> h"
  shows "\<exists>tb' n dw dh px. set_album_art V hash tb = Some (tb', n) \<and> tb_art_pixels tb' = Some px \<and>
    tb_art_w tb' = dw \<and> tb_art_h tb' = dh \<and> 0 < dw \<and> 0 < dh \<and> int (length px) = dw * dh * 4 \<and>
    (case tb_layout tb of SideLayout \<Rightarrow> dw = kArtDim \<and> dh = kArtDim
     | TopLayout \<Rightarrow> dw \<le> int (unat (av_fb_width V)) - 85 \<and> dh \<le> art_avail_h) \<and>
    (\<forall>x y k. 0 \<le> x \<and> x < dw \<and> 0 \<le> y \<and> y < dh \<and> k < 4 \<longrightarrow>
       px ! (4 * nat (y * dw + x) + k) = d ! (4 * nat ((y * h div dh) * w + x * w div dw) + k))"
proof -
  let ?avail = "int (unat (av_fb_width V)) - 85"
  have "0 < ?avail" using assms(14) by linarith
  then obtain dw dh where dims: "art_dims (tb_layout tb) ?avail w h = Some (dw, dh)" "shrinks w h dw dh d"
      "case tb_layout tb of SideLayout \<Rightarrow> dw = kArtDim \<and> dh = kArtDim | TopLayout \<Rightarrow> dw \<le> ?avail \<and> dh \<le> art_avail_h"
    using art_dims_shrink [OF assms(9-13) _ assms(8) assms(16)] by blast
  obtain d' where d': "scale_art w h dw dh d = Some d'" "scaled_to (src_pixel w h dw dh) d (nat (dh * dw)) d'"
    using scale_art_ok [OF dims(2)] by blast
  define px where "px = take (nat (dw * dh * 4)) d'"
  have pos: "0 < dw" "0 < dh" "dw \<le> w" "dh \<le> h" using dims(2) by (auto simp: shrinks_def)
  have area: "dw * dh \<le> w * h" by (rule mult_mono) (use pos in auto)
  have load: "load_art V (tb_layout tb) hash = Some (Some (dw, dh, px))"
    using assms dims(1) d'(1) by (simp add: load_art_def stored_art_file px_def)
  have "length d' = length d" using d'(2) by (simp add: scaled_to_def)
  then have len: "int (length px) = dw * dh * 4" using assms(8) area pos by (simp add: px_def)
  have px: "px ! (4 * nat (y * dw + x) + k) = d ! (4 * nat ((y * h div dh) * w + x * w div dw) + k)"
    if "0 \<le> x" "x < dw" "0 \<le> y" "y < dh" "k < 4" for x y k
  proof -
    let ?t = "nat (y * dw + x)"
    have "y * dw + x < dh * dw" by (rule index_below) (use that in auto)
    then have "?t < nat (dh * dw)" using that pos by (subst nat_less_eq_zless) auto
    then have "4 * ?t + k < 4 * nat (dh * dw)" using that(5) by linarith
    moreover have "4 * nat (dh * dw) \<le> length d" using assms(8) area by (simp add: nat_le_iff mult.commute)
    moreover have "4 * nat (dh * dw) = nat (dw * dh * 4)" by (simp add: nat_mult_distrib mult.commute)
    ultimately have "px ! (4 * ?t + k) = d ! (4 * src_pixel w h dw dh ?t + k)"
      using d'(2) that(5) by (simp add: px_def scaled_to_def)
    then show ?thesis using src_pixel_row [OF pos(1) that(3,1,2)] by simp
  qed
  have "\<exists>tb' n. set_album_art V hash tb = Some (tb', n) \<and> tb_art_pixels tb' = Some px \<and> tb_art_w tb' = dw \<and> tb_art_h tb' = dh"
    using load assms(2,15) by (cases "hash = tb_art_hash tb") (auto simp: set_album_art_def Let_def)
  then obtain tb' n where "set_album_art V hash tb = Some (tb', n)" "tb_art_pixels tb' = Some px" "tb_art_w tb' = dw" "tb_art_h tb' = dh"
    by blast
  then show ?thesis using pos len dims(3) px
    by (intro exI [of _ tb'] exI [of _ n] exI [of _ dw] exI [of _ dh] exI [of _ px]) simp
qed

text \<open>A picture of four pixels over a text, and one of the smallest size for the side layout.\<close>

definition demo_art :: "int \<Rightarrow> int \<Rightarrow> string \<Rightarrow> art_env" where
  "demo_art w h d = \<lparr>av_fb_width = 448, av_file = (\<lambda>path. if path = img_path ''a1'' then Some ''png'' else None),
     av_webp = (\<lambda>_. None), av_stb = (\<lambda>_. Some (w, h, d))\<rparr>"

lemma decode_demo_art [simp]: "decode_art (demo_art w h d) ''png'' = Some (w, h, d)"
  by (simp add: decode_art_def demo_art_def)

theorem art_is_nearest_neighbour_witness:
  "\<exists>tb' n dw dh px. set_album_art (demo_art 2 541 (replicate 4328 (CHR ''x''))) ''a1'' (new_title_bar TopLayout) = Some (tb', n) \<and>
    tb_art_pixels tb' = Some px \<and> tb_art_h tb' = dh \<and> tb_art_w tb' = dw \<and> 0 < dw \<and> dh \<le> 270 \<and> int (length px) = dw * dh * 4"
proof -
  have "av_file (demo_art 2 541 (replicate 4328 (CHR ''x''))) (img_path ''a1'') = Some ''png''" by (simp add: demo_art_def)
  from art_is_nearest_neighbour [OF _ _ _ this _ _ decode_demo_art, of "new_title_bar TopLayout"]
  show ?thesis by (auto simp: demo_art_def new_title_bar_def art_avail_h_def)
qed

section \<open>A picture that is too small\<close>

lemma byte_copy_length: "byte_copy a b d = Some d' \<Longrightarrow> length d' = length d"
  by (auto simp: byte_copy_def split: if_splits)

lemma scale_length:
  "copy_pixel a b d = Some d' \<Longrightarrow> length d' = length d"
  "scale_pixel w dw oy sy ox d = Some d' \<Longrightarrow> length d' = length d"
  "scale_row w h dw dh oy d = Some d' \<Longrightarrow> length d' = length d"
proof -
  show c: "copy_pixel a b d = Some d' \<Longrightarrow> length d' = length d" for a b d d'
    by (auto simp: copy_pixel_def split: Option.bind_splits dest!: byte_copy_length)
  show p: "scale_pixel w dw oy sy ox d = Some d' \<Longrightarrow> length d' = length d" for sy ox d d'
    by (auto simp: scale_pixel_def Let_def split: Option.bind_splits dest!: c)
  show "scale_row w h dw dh oy d = Some d' \<Longrightarrow> length d' = length d"
    by (auto simp: scale_row_def split: Option.bind_splits dest!: for_each_length [rotated] p)
qed

lemma scale_passes:
  "for_each (scale_row w h dw dh) xs s = Some s' \<Longrightarrow> i \<in> set xs \<Longrightarrow> \<exists>t t'. scale_row w h dw dh i t = Some t' \<and> length t = length s"
  "for_each (scale_pixel w dw oy sy) xs s = Some s' \<Longrightarrow> i \<in> set xs \<Longrightarrow> \<exists>t t'. scale_pixel w dw oy sy i t = Some t' \<and> length t = length s"
  by (rule for_each_passes, rule scale_length, assumption+)+

lemma enlarging_faults:
  assumes "0 < dw" "0 < dh" "int (length d) < dw * dh * 4" "dw \<noteq> w \<or> dh \<noteq> h"
  shows "scale_art w h dw dh d = None"
proof (rule ccontr)
  assume "scale_art w h dw dh d \<noteq> None"
  then obtain d' where loop: "for_each (scale_row w h dw dh) [0..dh - 1] d = Some d'"
    using assms(4) by (auto simp: scale_art_def split: if_splits)
  obtain t t' where row: "scale_row w h dw dh (dh - 1) t = Some t'" "length t = length d"
    using scale_passes(1) [OF loop, of "dh - 1"] assms(2) by auto
  then obtain sy where inner: "for_each (scale_pixel w dw (dh - 1) sy) [0..dw - 1] t = Some t'"
    by (auto simp: scale_row_def split: Option.bind_splits)
  obtain u u' where px: "scale_pixel w dw (dh - 1) sy (dw - 1) u = Some u'" "length u = length t"
    using scale_passes(2) [OF inner, of "dw - 1"] assms(1) by auto
  have "c_int n = Some m \<Longrightarrow> m = n" for n m by (simp add: c_int_def split: if_splits)
  then obtain ri v where "byte_copy (((dh - 1) * dw + (dw - 1)) * 4 + 3) ri v = Some u'" "length v = length u"
    using px(1) by (fastforce simp: scale_pixel_def copy_pixel_def Let_def split: Option.bind_splits dest: byte_copy_length)
  moreover have "((dh - 1) * dw + (dw - 1)) * 4 + 3 = dw * dh * 4 - 1" by (simp add: algebra_simps)
  ultimately show False using assms(3) row(2) px(2) by (auto simp: byte_copy_def split: if_splits)
qed

text \<open>
  C40: a cover with less than 6400 pixels, such as the thumbnails of 64 by 64 players send, makes the
  side layout write past the decoder's buffer: it is enlarged to 80 by 80 in place.
\<close>

theorem small_art_overflows:
  assumes "nul_free hash" "0 < length hash" "length hash \<le> 16" "av_file V (img_path hash) = Some buf" "buf \<noteq> []" "length buf \<le> 256 * 1024"
    and "decode_art V buf = Some (w, h, d)" "int (length d) = w * h * 4" "0 < w" "0 < h" "w * h < kArtDim * kArtDim"
    and "tb_art_pixels tb = None \<or> hash \<noteq> tb_art_hash tb" "tb_layout tb = SideLayout"
  shows "set_album_art V hash tb = None"
proof -
  have "scale_art w h kArtDim kArtDim d = None"
    by (rule enlarging_faults) (use assms(8,11) in \<open>auto simp: kArtDim_def mult.commute\<close>)
  then have "load_art V SideLayout hash = None"
    using assms by (simp add: load_art_def stored_art_file art_dims_def)
  then show ?thesis using assms(2,12,13) by (auto simp: set_album_art_def Let_def)
qed

theorem small_art_overflows_witness:
  "set_album_art (demo_art 64 64 (replicate 16384 (CHR ''x''))) ''a1'' (new_title_bar SideLayout) = None"
proof -
  have "av_file (demo_art 64 64 (replicate 16384 (CHR ''x''))) (img_path ''a1'') = Some ''png''" by (simp add: demo_art_def)
  from small_art_overflows [OF _ _ _ this _ _ decode_demo_art, of "new_title_bar SideLayout"]
  show ?thesis by (simp add: new_title_bar_def kArtDim_def)
qed

end
