(* ===== verification/Overlay_Media.thy ===== *)
theory Overlay_Media
  imports Overlay_Pages Overlay_Art "HOL-Library.Signed_Division"
begin

text \<open>
  The media remote and the audio devices of the overlay: \<open>gui/media_gui.cpp\<close>,
  \<open>gui/elements/media_seek_bar.cpp\<close>, \<open>media_button_row.cpp\<close>, \<open>media_button_icon.cpp\<close>,
  \<open>gui/volume_gui.cpp\<close>. The track bar of the toolkit moves its handle itself: where it is after an
  input is part of the event.
\<close>

section \<open>The seek bar\<close>

record seek_bar =
  sb_device :: string
  sb_pos :: i64
  sb_len :: i64
  sb_progress :: u16
  sb_seekable :: bool
  sb_dragging :: bool

definition new_seek_bar :: "string \<Rightarrow> seek_bar" where
  "new_seek_bar dev =
     \<lparr>sb_device = dev, sb_pos = 0, sb_len = 0, sb_progress = 0, sb_seekable = True, sb_dragging = False\<rparr>"

definition setPositionMs :: "i64 \<Rightarrow> i64 \<Rightarrow> seek_bar \<Rightarrow> seek_bar" where
  "setPositionMs pos_ms len_ms sb =
     (let sb = sb\<lparr>sb_len := len_ms\<rparr>
      in if sb_dragging sb then sb
         else sb\<lparr>sb_pos := pos_ms,
                 sb_progress := (if 0 < sint len_ms then word_of_int (sint (pos_ms * 100) sdiv sint len_ms) else 0)\<rparr>)"

definition progress_ms :: "seek_bar \<Rightarrow> i64" where
  "progress_ms sb = word_of_int (sint (ucast (sb_progress sb) * sb_len sb) sdiv 100)"

definition fireSendPosition :: "seek_bar \<Rightarrow> gui_call list" where
  "fireSendPosition sb =
     (if sb_seekable sb \<and> 0 < sint (sb_len sb)
      then [CallMediaAction (sb_device sb) SetPosition (progress_ms sb)] else [])"

text \<open>What is drawn while dragging is where the handle is.\<close>

definition display_pos :: "seek_bar \<Rightarrow> i64" where
  "display_pos sb = (if sb_dragging sb \<and> 0 < sint (sb_len sb) then progress_ms sb else sb_pos sb)"

text \<open>\<open>held\<close>: left or right is held; \<open>p\<close> is where the track bar has put its handle.\<close>

definition seek_keys :: "bool \<Rightarrow> u16 \<Rightarrow> seek_bar \<Rightarrow> seek_bar \<times> gui_call list" where
  "seek_keys held p sb =
     (let sb = (if held then sb\<lparr>sb_dragging := True\<rparr> else sb);
          sb = sb\<lparr>sb_progress := p\<rparr>
      in if sb_dragging sb \<and> \<not> held then (sb\<lparr>sb_dragging := False\<rparr>, fireSendPosition sb) else (sb, []))"

datatype touch = TouchDown | TouchHold | TouchScroll | TouchRelease | TouchNone

definition seek_touch :: "touch \<Rightarrow> u16 \<Rightarrow> seek_bar \<Rightarrow> seek_bar \<times> gui_call list" where
  "seek_touch ev p sb =
     (let sb = (if ev = TouchDown \<or> ev = TouchHold then sb\<lparr>sb_dragging := True\<rparr> else sb);
          sb = sb\<lparr>sb_progress := p\<rparr>
      in if ev = TouchRelease then (sb\<lparr>sb_dragging := False\<rparr>, fireSendPosition sb) else (sb, []))"

text \<open>\<open>fmtTime\<close>: \<open>static_cast<int>\<close>, then hours only when there are any; at most fifteen bytes.\<close>

definition two_digits :: "int \<Rightarrow> string" where
  "two_digits i = (if 0 \<le> i \<and> i < 10 then ''0'' @ int_str i else int_str i)"

definition fmtTime :: "i64 \<Rightarrow> string" where
  "fmtTime ms =
     (let s = sint (word_of_int (sint ms sdiv 1000) :: i32); h = s sdiv 3600
      in take 15 (if 0 < h then int_str h @ '':'' @ two_digits (s smod 3600 sdiv 60) @ '':'' @ two_digits (s smod 60)
                  else int_str (s sdiv 60) @ '':'' @ two_digits (s smod 60)))"

section \<open>The buttons\<close>

datatype media_icon = IconBackward | IconPrev | IconPlay | IconPause | IconNext | IconForward

record icon_button =
  ib_icon :: "media_icon option"
  ib_action :: "gui_call option"
  ib_disabled :: bool

record button_row =
  br_buttons :: "icon_button list"
  br_active :: nat
  br_stick :: int

definition IDX_PREV :: nat where "IDX_PREV = 0"
definition IDX_REWIND :: nat where "IDX_REWIND = 1"
definition IDX_PLAY :: nat where "IDX_PLAY = 2"
definition IDX_FFORWARD :: nat where "IDX_FFORWARD = 3"
definition IDX_NEXT :: nat where "IDX_NEXT = 4"

definition new_button_row :: button_row where
  "new_button_row = \<lparr>br_buttons = replicate 5 \<lparr>ib_icon = None, ib_action = None, ib_disabled = False\<rparr>, br_active = IDX_PLAY, br_stick = 0\<rparr>"

definition upd_button :: "nat \<Rightarrow> (icon_button \<Rightarrow> icon_button) \<Rightarrow> button_row \<Rightarrow> button_row" where
  "upd_button idx f r = (if idx < 5 then r\<lparr>br_buttons := (br_buttons r)[idx := f (br_buttons r ! idx)]\<rparr> else r)"

definition setButton :: "nat \<Rightarrow> media_icon \<Rightarrow> gui_call \<Rightarrow> button_row \<Rightarrow> button_row" where
  "setButton idx icon action = upd_button idx (\<lambda>b. b\<lparr>ib_icon := Some icon, ib_action := Some action, ib_disabled := False\<rparr>)"

definition setButtonDisabled :: "nat \<Rightarrow> bool \<Rightarrow> button_row \<Rightarrow> button_row" where
  "setButtonDisabled idx off = upd_button idx (\<lambda>b. b\<lparr>ib_disabled := off\<rparr>)"

definition setButtonIcon :: "nat \<Rightarrow> media_icon \<Rightarrow> button_row \<Rightarrow> button_row" where
  "setButtonIcon idx icon = upd_button idx (\<lambda>b. b\<lparr>ib_icon := Some icon\<rparr>)"

definition button_click :: "key list \<Rightarrow> icon_button \<Rightarrow> gui_call list \<times> bool" where
  "button_click keys b =
     (case ib_action b of
        Some c \<Rightarrow> if KeyA \<in> set keys \<and> \<not> ib_disabled b then ([c], True) else ([], False)
      | None \<Rightarrow> ([], False))"

text \<open>The stick counts as a key when it crosses the threshold.\<close>

definition kStickThreshold :: int where "kStickThreshold = 16384"

definition row_input :: "key list \<Rightarrow> int \<Rightarrow> button_row \<Rightarrow> button_row \<times> gui_call list \<times> bool" where
  "row_input keys stick_x r =
     (let new_dir = (if kStickThreshold < stick_x then 1 else if stick_x < - kStickThreshold then -1 else 0);
          stick_left = (new_dir = -1 \<and> br_stick r \<noteq> -1);
          stick_right = (new_dir = 1 \<and> br_stick r \<noteq> 1);
          r = r\<lparr>br_stick := new_dir\<rparr>
      in if KeyLeft \<in> set keys \<or> stick_left then
           (if 0 < br_active r then (r\<lparr>br_active := br_active r - 1\<rparr>, [], True) else (r, [], False))
         else if KeyRight \<in> set keys \<or> stick_right then
           (if br_active r < 4 then (r\<lparr>br_active := br_active r + 1\<rparr>, [], True) else (r, [], False))
         else if KeyA \<in> set keys then (r, fst (button_click [KeyA] (br_buttons r ! br_active r)), True)
         else (r, [], False))"

text \<open>The focused button is always one of the five, and a disabled one never acts.\<close>

lemma row_active: "br_active r \<le> 4 \<Longrightarrow> br_active (fst (row_input keys x r)) \<le> 4"
  by (auto simp: row_input_def Let_def)

lemma row_acts:
  assumes "c \<in> set (fst (snd (row_input keys x r)))"
  shows "ib_action (br_buttons r ! br_active r) = Some c \<and> \<not> ib_disabled (br_buttons r ! br_active r)"
  using assms by (auto simp: row_input_def button_click_def Let_def split: if_splits option.splits)

section \<open>The media page\<close>

record media_info =
  mi_player :: string
  mi_title :: string
  mi_artist :: string
  mi_position :: i64
  mi_length :: i64
  mi_playing :: bool
  mi_next :: bool
  mi_previous :: bool
  mi_seek :: bool
  mi_art :: string

text \<open>The members of the struct the page reads.\<close>

definition dec_media_info :: "string \<Rightarrow> media_info" where
  "dec_media_info bs =
     \<lparr>mi_player = get_str KDEC_TEXT_MAX (drop 64 bs), mi_title = get_str KDEC_TEXT_MAX (drop 320 bs),
      mi_artist = get_str KDEC_TEXT_MAX (drop 576 bs), mi_position = get_u64 (drop 1088 bs), mi_length = get_u64 (drop 1096 bs),
      mi_playing = get_bool (drop 1108 bs), mi_next = get_bool (drop 1111 bs), mi_previous = get_bool (drop 1112 bs),
      mi_seek = get_bool (drop 1113 bs), mi_art = get_str 17 (drop 1114 bs)\<rparr>"

record media_gui =
  mp_device :: string
  mp_bar :: title_bar
  mp_seek :: seek_bar
  mp_row :: button_row
  mp_tick :: u32
  mp_show_art :: bool

definition media_show :: "art_env \<Rightarrow> media_info \<Rightarrow> media_gui \<Rightarrow> media_gui option" where
  "media_show V info m =
     do { let title = (if mi_title info \<noteq> [] then mi_title info else ''Unknown'');
          let artist = (if mi_artist info \<noteq> [] then mi_artist info else mi_player info);
          (bar, _) \<leftarrow> set_album_art V (if mp_show_art m then mi_art info else []) (set_info title artist (mp_bar m));
          let seek = setPositionMs (if mi_seek info then mi_position info else 0) (if mi_seek info then mi_length info else 0)
                       ((mp_seek m)\<lparr>sb_seekable := mi_seek info\<rparr>);
          let row = setButtonDisabled IDX_FFORWARD (\<not> mi_seek info) (setButtonDisabled IDX_REWIND (\<not> mi_seek info)
                      (setButtonDisabled IDX_NEXT (\<not> mi_next info) (setButtonDisabled IDX_PREV (\<not> mi_previous info)
                        (setButtonIcon IDX_PLAY (if mi_playing info then IconPause else IconPlay) (mp_row m)))));
          Some (m\<lparr>mp_bar := bar, mp_seek := seek, mp_row := row\<rparr>) }"

definition pollAndUpdate :: "art_env \<Rightarrow> 's ipc_dispatch \<Rightarrow> media_gui \<Rightarrow> 's \<Rightarrow> 's \<times> media_gui option" where
  "pollAndUpdate V D m s =
     (case kdecIpcGetMediaInfo D (mp_device m) (replicate kMediaInfoSize (CHR 0x00)) s of
        (s, rc, buf) \<Rightarrow>
          (s, if rc \<noteq> RcOk then Some (m\<lparr>mp_bar := set_info ''No media playing'' [] (mp_bar m)\<rparr>)
              else media_show V (dec_media_info buf) m))"

definition media_update :: "art_env \<Rightarrow> 's ipc_dispatch \<Rightarrow> media_gui \<Rightarrow> 's \<Rightarrow> 's \<times> media_gui option" where
  "media_update V D m s =
     (let m = m\<lparr>mp_tick := mp_tick m + 1\<rparr>
      in if mp_tick m < 30 then (s, Some m) else pollAndUpdate V D (m\<lparr>mp_tick := 0\<rparr>) s)"

definition media_create :: "art_env \<Rightarrow> 's ipc_dispatch \<Rightarrow> string \<Rightarrow> 's \<Rightarrow> 's \<times> media_gui option" where
  "media_create V D dev s =
     (case read_bool D MprisShowAlbumArt True s of
        (s, show_art) \<Rightarrow>
          (case read_bool D MprisAlbumArtTopLayout False s of
             (s, top_layout) \<Rightarrow>
               (case read_int D MprisSeekStepSize 10000 s of
                  (s, seek_step) \<Rightarrow>
                    (let row = setButton IDX_FFORWARD IconForward (CallMediaAction dev Seek (scast seek_step))
                                 (setButton IDX_NEXT IconNext (CallMediaAction dev Next 0)
                                   (setButton IDX_PLAY IconPlay (CallMediaAction dev PlayPause 0)
                                     (setButton IDX_PREV IconPrev (CallMediaAction dev Previous 0)
                                       (setButton IDX_REWIND IconBackward (CallMediaAction dev Seek (scast (- seek_step)))
                                         new_button_row))))
                     in pollAndUpdate V D
                          \<lparr>mp_device = dev, mp_bar = new_title_bar (if top_layout then TopLayout else SideLayout),
                           mp_seek = new_seek_bar dev, mp_row = row, mp_tick = 0, mp_show_art = show_art\<rparr> s))))"

section \<open>Audio devices\<close>

record mute_bar =
  mb_value :: u16
  mb_muted :: bool
  mb_real :: u16

definition getRealVolume :: "mute_bar \<Rightarrow> u16" where
  "getRealVolume b = (if mb_muted b then mb_real b else mb_value b)"

definition setMuted :: "bool \<Rightarrow> mute_bar \<Rightarrow> mute_bar" where
  "setMuted muted b =
     (let b = b\<lparr>mb_muted := muted\<rparr> in if muted then b\<lparr>mb_real := mb_value b, mb_value := 0\<rparr> else b)"

text \<open>The track bar has moved to \<open>vol\<close>: the bar and what its listener is told.\<close>

definition volume_changed :: "u16 \<Rightarrow> mute_bar \<Rightarrow> mute_bar \<times> u16 \<times> bool" where
  "volume_changed vol b = (b\<lparr>mb_value := vol, mb_muted := False, mb_real := vol\<rparr>, vol, False)"

definition mute_key :: "mute_bar \<Rightarrow> mute_bar \<times> u16 \<times> bool" where
  "mute_key b =
     (let b = b\<lparr>mb_muted := \<not> mb_muted b\<rparr>;
          b = (if mb_muted b then b\<lparr>mb_real := mb_value b, mb_value := 0\<rparr> else b\<lparr>mb_value := mb_real b\<rparr>)
      in (b, mb_real b, mb_muted b))"

record volume_gui =
  vg_device :: string
  vg_sinks :: "(string \<times> string) list"
  vg_bars :: "mute_bar list"
  vg_default :: "bool list"

definition sink_label :: "kdec_sink \<Rightarrow> string" where
  "sink_label k = (if ks_description k \<noteq> [] then ks_description k else ks_name k)"

definition sink_bar :: "kdec_sink \<Rightarrow> mute_bar" where
  "sink_bar k =
     (let b = \<lparr>mb_value = ucast (ks_volume k), mb_muted = False, mb_real = 0\<rparr>
      in if ks_muted k then setMuted True b else b)"

text \<open>The active device comes first; the others keep their order.\<close>

definition volume_page :: "string \<Rightarrow> kdec_sink list \<Rightarrow> volume_gui" where
  "volume_page dev sinks =
     (let sinks = sort_key (\<lambda>k. \<not> ks_default k) sinks
      in \<lparr>vg_device = dev, vg_sinks = map (\<lambda>k. (ks_name k, sink_label k)) sinks, vg_bars = map sink_bar sinks,
          vg_default = map ks_default sinks\<rparr>)"

definition volume_item :: "string \<times> string \<Rightarrow> mute_bar \<Rightarrow> bool \<Rightarrow> gui_item list" where
  "volume_item sink b is_default =
     (case sink of (name, label) \<Rightarrow>
        [Header label, Line ''Volume'' (nat_str (unat (mb_value b)) @ ''%''),
         Line ''Set as Default'' (if is_default then sym_accept else [])])"

text \<open>The whole page: an error, a hint, or the sinks the service has.\<close>

definition volume_create ::
    "'s ipc_dispatch \<Rightarrow> (ipc_result \<Rightarrow> u32) \<Rightarrow> string \<Rightarrow> string \<Rightarrow> 's \<Rightarrow> 's \<times> gui_item list \<times> volume_gui option" where
  "volume_create D codes dev old s =
     (case kdecIpcGetVolumeSinks D dev old s of
        (s, rc, sinks, _) \<Rightarrow>
          (s, case sinks of
                None \<Rightarrow> ([Line sym_errorCircleFilled ''IPC Error'', Line ''Could not fetch sinks\<newline>from the sysmodule.'' [],
                          Line (result_line (codes rc)) []], None)
              | Some [] \<Rightarrow> ([Line ''No sinks available'' []], None)
              | Some ks \<Rightarrow>
                  (let g = volume_page dev ks
                   in (concat (map (\<lambda>i. volume_item (vg_sinks g ! i) (vg_bars g ! i) (vg_default g ! i)) [0..<length ks]), Some g))))"

datatype volume_event = SlideTo nat u16 | PressY nat | MakeDefault nat

text \<open>A name and what was told about it: volume, muted, default.\<close>

fun volume_step :: "volume_event \<Rightarrow> volume_gui \<Rightarrow> volume_gui \<times> gui_call list" where
  "volume_step (SlideTo i vol) g =
     (case volume_changed vol (vg_bars g ! i) of
        (b, v, m) \<Rightarrow> (g\<lparr>vg_bars := (vg_bars g)[i := b]\<rparr>, [CallSetSink (vg_device g) (fst (vg_sinks g ! i)) (ucast v) m False]))"
| "volume_step (PressY i) g =
     (case mute_key (vg_bars g ! i) of
        (b, v, m) \<Rightarrow> (g\<lparr>vg_bars := (vg_bars g)[i := b]\<rparr>, [CallSetSink (vg_device g) (fst (vg_sinks g ! i)) (ucast v) m False]))"
| "volume_step (MakeDefault i) g =
     (let b = vg_bars g ! i
      in (g\<lparr>vg_default := map (\<lambda>j. j = i) [0..<length (vg_sinks g)]\<rparr>,
          [CallSetSink (vg_device g) (fst (vg_sinks g ! i)) (ucast (getRealVolume b)) (mb_muted b) True]))"

section \<open>Runs of the seek bar\<close>

text \<open>What happens to the bar, once per frame at most: a poll is shown, the keys are read, a touch.\<close>

datatype seek_event = Polled i64 i64 bool | Keys bool u16 | Touched touch u16

fun seek_turn :: "seek_event \<Rightarrow> seek_bar \<Rightarrow> seek_bar \<times> gui_call list" where
  "seek_turn (Polled pos_ms len_ms ok) sb = (setPositionMs pos_ms len_ms (sb\<lparr>sb_seekable := ok\<rparr>), [])"
| "seek_turn (Keys held p) sb = seek_keys held p sb"
| "seek_turn (Touched ev p) sb = seek_touch ev p sb"

fun seek_run :: "seek_event list \<Rightarrow> seek_bar \<Rightarrow> seek_bar \<times> gui_call list" where
  "seek_run [] sb = (sb, [])"
| "seek_run (e # es) sb =
     (case seek_turn e sb of (sb', cs) \<Rightarrow> (case seek_run es sb' of (sb'', ds) \<Rightarrow> (sb'', cs @ ds)))"

text \<open>The events of a drag before its end: the handle is held, and polls go on in the background.\<close>

definition holds :: "seek_event \<Rightarrow> bool" where
  "holds e = (case e of Polled _ _ _ \<Rightarrow> True | Keys held _ \<Rightarrow> held
                      | Touched ev _ \<Rightarrow> ev = TouchDown \<or> ev = TouchHold)"

lemma seek_run_append [simp]:
  "seek_run (es @ fs) sb =
     (case seek_run es sb of (sb', cs) \<Rightarrow> (case seek_run fs sb' of (sb'', ds) \<Rightarrow> (sb'', cs @ ds)))"
  by (induction es arbitrary: sb) (auto split: prod.splits)

lemma hold_turn:
  assumes "sb_dragging sb" "holds e"
  shows "\<exists>sb'. seek_turn e sb = (sb', []) \<and> sb_dragging sb' \<and> sb_device sb' = sb_device sb
           \<and> (\<forall>a l k. e = Polled a l k \<longrightarrow> sb_progress sb' = sb_progress sb)"
  using assms
  by (cases e) (auto simp: holds_def seek_keys_def seek_touch_def setPositionMs_def Let_def)

lemma hold_run:
  assumes "sb_dragging sb" "\<forall>e \<in> set es. holds e"
  shows "\<exists>sb'. seek_run es sb = (sb', []) \<and> sb_dragging sb' \<and> sb_device sb' = sb_device sb"
  using assms
proof (induction es arbitrary: sb)
  case (Cons e es)
  obtain sb1 where "seek_turn e sb = (sb1, [])" "sb_dragging sb1" "sb_device sb1 = sb_device sb"
    using hold_turn Cons.prems by (metis list.set_intros(1))
  moreover obtain sb2 where "seek_run es sb1 = (sb2, [])" "sb_dragging sb2" "sb_device sb2 = sb_device sb1"
    using Cons.IH [of sb1] Cons.prems calculation(2) by auto
  ultimately show ?case by simp
qed simp

lemma progress_within:
  assumes "0 < sint (sb_len sb)" "sint (sb_len sb) < 2 ^ 56" "unat (sb_progress sb) \<le> 100"
  shows "sint (progress_ms sb) = int (unat (sb_progress sb)) * sint (sb_len sb) div 100"
    "0 \<le> sint (progress_ms sb)" "sint (progress_ms sb) \<le> sint (sb_len sb)"
proof -
  let ?p = "int (unat (sb_progress sb))" and ?l = "sint (sb_len sb)"
  have "?p \<le> 100" using assms(3) by linarith
  then have b: "0 \<le> ?p * ?l" "?p * ?l \<le> 100 * ?l"
    using assms(1) by (simp, intro mult_right_mono) simp_all
  have small: "sint (word_of_int x :: i64) = x" if "0 \<le> x" "x < 2 ^ 63" for x
    using that by (simp add: signed_of_int signed_take_bit_int_eq_self)
  have prod: "ucast (sb_progress sb) * sb_len sb = (word_of_int (?p * ?l) :: i64)"
  proof -
    have "ucast (sb_progress sb) = (word_of_int ?p :: i64)" unfolding ucast_eq by simp
    moreover have "sb_len sb = word_of_int ?l" by simp
    ultimately show ?thesis by (metis wi_hom_mult)
  qed
  have "sint (ucast (sb_progress sb) * sb_len sb :: i64) = ?p * ?l"
    unfolding prod using b assms(2) by (intro small) (simp_all del: of_nat_unat)
  moreover have "?p * ?l sdiv 100 = ?p * ?l div 100"
    using b(1) by (cases "?p * ?l = 0") (auto simp: signed_divide_int_def sgn_if simp del: of_nat_unat)
  moreover have "0 \<le> ?p * ?l div 100" "?p * ?l div 100 \<le> ?l"
    using b by (auto intro: zdiv_mono1 [of _ "100 * ?l" 100, simplified])
  ultimately show "sint (progress_ms sb) = ?p * ?l div 100" "0 \<le> sint (progress_ms sb)"
    "sint (progress_ms sb) \<le> ?l"
    unfolding progress_ms_def using assms(2) by (simp_all add: small)
qed

text \<open>
  A drag of the media seek bar asks for one jump. From the moment left or right is held until it
  is let go, whatever the polls of the media state show and wherever the handle is, the page makes no
  call and what is drawn follows the handle; letting go makes one \<open>SetPosition\<close> call, and only when
  the player can seek and the length is known, to that percentage of the length shown last, which lies
  within it; afterwards the bar follows the polls again.
\<close>

lemma one_seek_per_drag:
  assumes "es = Keys True p0 # mid" "\<forall>e \<in> set mid. holds e"
    and "seek_run es sb = (sb1, cs)" "seek_run [Keys False p] sb1 = (sb2, ds)"
    and "unat p \<le> 100" "sint (sb_len sb1) < 2 ^ 56"
  shows "cs = [] \<and> (0 < sint (sb_len sb1) \<longrightarrow> display_pos sb1 = progress_ms sb1)
     \<and> (\<exists>pos. ds = (if sb_seekable sb1 \<and> 0 < sint (sb_len sb1)
                     then [CallMediaAction (sb_device sb) SetPosition pos] else [])
              \<and> (0 < sint (sb_len sb1) \<longrightarrow>
                   sint pos = int (unat p) * sint (sb_len sb1) div 100 \<and> 0 \<le> sint pos \<and> sint pos \<le> sint (sb_len sb1)))
     \<and> (\<forall>pos len ok. sb_pos (fst (seek_turn (Polled pos len ok) sb2)) = pos)"
proof -
  obtain sb0 where first: "seek_turn (Keys True p0) sb = (sb0, [])" "sb_dragging sb0"
      "sb_device sb0 = sb_device sb"
    by (simp add: seek_keys_def)
  obtain sb1' where "seek_run mid sb0 = (sb1', [])" "sb_dragging sb1'" "sb_device sb1' = sb_device sb0"
    using hold_run [OF first(2) assms(2)] by blast
  then have here: "cs = []" "sb_dragging sb1" "sb_device sb1 = sb_device sb"
    using assms(1,3) first by auto
  have ended: "sb2 = sb1\<lparr>sb_progress := p, sb_dragging := False\<rparr>"
      "ds = fireSendPosition (sb1\<lparr>sb_progress := p, sb_dragging := False\<rparr>)"
    using assms(4) here(2) by (auto simp: seek_keys_def Let_def fireSendPosition_def progress_ms_def)
  let ?e = "sb1\<lparr>sb_progress := p, sb_dragging := False\<rparr>"
  have within: "sint (progress_ms ?e) = int (unat p) * sint (sb_len sb1) div 100 \<and> 0 \<le> sint (progress_ms ?e)
      \<and> sint (progress_ms ?e) \<le> sint (sb_len sb1)" if "0 < sint (sb_len sb1)"
    using progress_within [of ?e] that assms(5,6) by simp
  show ?thesis
    using here within by (auto simp: ended fireSendPosition_def display_pos_def setPositionMs_def Let_def
                               intro!: exI [of _ "progress_ms ?e"])
qed

text \<open>A track of 200 s: dragged to 30 and 75 percent while a poll reports the old position.\<close>

definition demo_drag :: "seek_event list" where
  "demo_drag = [Keys True 30, Polled 5000 200000 True, Keys True 75]"

lemma one_seek_per_drag_demo:
  "let (sb1, cs) = seek_run demo_drag (new_seek_bar ''d''); (sb2, ds) = seek_run [Keys False 75] sb1
   in cs = [] \<and> (\<exists>pos. ds = [CallMediaAction ''d'' SetPosition pos] \<and> sint pos = 150000)"
proof -
  let ?sb = "new_seek_bar ''d''"
  obtain sb1 cs where r: "seek_run demo_drag ?sb = (sb1, cs)" by fastforce
  obtain sb2 ds where t: "seek_run [Keys False 75] sb1 = (sb2, ds)" by fastforce
  have "sb_len sb1 = 200000" "sb_seekable sb1"
    using r by (auto simp: demo_drag_def seek_keys_def setPositionMs_def new_seek_bar_def Let_def)
  moreover have "sb_device ?sb = ''d''" by (simp add: new_seek_bar_def)
  ultimately have "cs = []" "\<exists>pos. ds = [CallMediaAction ''d'' SetPosition pos] \<and> sint pos = 150000"
    using one_seek_per_drag [OF _ _ r t, of 30 "[Polled 5000 200000 True, Keys True 75]"]
    by (auto simp: demo_drag_def holds_def)
  then show ?thesis by (simp only: r t Let_def prod.case)
qed

section \<open>Runs of the audio page\<close>

fun volume_run :: "volume_event list \<Rightarrow> volume_gui \<Rightarrow> volume_gui \<times> gui_call list" where
  "volume_run [] g = (g, [])"
| "volume_run (e # es) g =
     (case volume_step e g of (g', cs) \<Rightarrow> (case volume_run es g' of (g'', ds) \<Rightarrow> (g'', cs @ ds)))"

definition on_bar :: "volume_event \<Rightarrow> nat" where
  "on_bar e = (case e of SlideTo i _ \<Rightarrow> i | PressY i \<Rightarrow> i | MakeDefault i \<Rightarrow> i)"

text \<open>The volume and the mute state a sink is left with after the calls, from what it had.\<close>

fun sink_after :: "string \<Rightarrow> i32 \<times> bool \<Rightarrow> gui_call list \<Rightarrow> i32 \<times> bool" where
  "sink_after n s [] = s"
| "sink_after n s (CallSetSink d n' v m a # cs) = sink_after n (if n' = n then (v, m) else s) cs"
| "sink_after n s (_ # cs) = sink_after n s cs"

definition bar_state :: "mute_bar \<Rightarrow> i32 \<times> bool" where
  "bar_state b = (ucast (getRealVolume b), mb_muted b)"

definition quiet_when_muted :: "mute_bar \<Rightarrow> bool" where
  "quiet_when_muted b = (mb_muted b \<longrightarrow> mb_value b = 0)"


definition bars_told :: "volume_gui \<Rightarrow> volume_gui \<Rightarrow> gui_call list \<Rightarrow> bool" where
  "bars_told g g' cs \<longleftrightarrow>
     vg_sinks g' = vg_sinks g \<and> vg_device g' = vg_device g \<and> length (vg_bars g') = length (vg_bars g)
     \<and> (\<forall>i < length (vg_bars g). sink_after (fst (vg_sinks g ! i)) (bar_state (vg_bars g ! i)) cs = bar_state (vg_bars g' ! i))"

lemma sink_after_append [simp]: "sink_after n s (cs @ ds) = sink_after n (sink_after n s cs) ds"
  by (induction n s cs rule: sink_after.induct) auto

lemma bars_told_trans:
  assumes "bars_told g g1 cs" "bars_told g1 g2 ds"
  shows "bars_told g g2 (cs @ ds)"
  using assms by (auto simp: bars_told_def)

lemma sink_bar_state:
  assumes "unat (ks_volume k) \<le> 100"
  shows "bar_state (sink_bar k) = (ks_volume k, ks_muted k)"
proof -
  have "ucast (ucast (ks_volume k) :: u16) = ks_volume k"
    using assms by (simp add: word_unat_eq_iff unsigned_ucast_eq unsigned_take_bit_eq take_bit_nat_eq_self)
  then show ?thesis by (simp add: sink_bar_def setMuted_def bar_state_def getRealVolume_def Let_def)
qed

lemma moved:
  assumes "volume_changed vol b = (c, v, m)"
  shows "bar_state c = (ucast v, m)" "quiet_when_muted c"
  using assms by (auto simp: volume_changed_def bar_state_def getRealVolume_def quiet_when_muted_def)

lemma muted:
  assumes "mute_key b = (c, v, m)"
  shows "bar_state c = (ucast v, m)" "quiet_when_muted c"
  using assms by (auto simp: mute_key_def Let_def bar_state_def getRealVolume_def quiet_when_muted_def split: if_splits)

lemma volume_turn:
  assumes "on_bar e < length (vg_bars g)" "length (vg_sinks g) = length (vg_bars g)"
    and "distinct (map fst (vg_sinks g))"
    and "\<forall>b \<in> set (vg_bars g). quiet_when_muted b" "volume_step e g = (g', cs)"
  shows "bars_told g g' cs \<and> (\<forall>b \<in> set (vg_bars g'). quiet_when_muted b)"
proof -
  let ?n = "\<lambda>i. fst (vg_sinks g ! i)"
  have other: "?n i = ?n j \<longleftrightarrow> i = j" if "i < length (vg_bars g)" "j < length (vg_bars g)" for i j
    using assms(2,3) that nth_eq_iff_index_eq [of "map fst (vg_sinks g)" i j] by simp
  have told: "bars_told g (g\<lparr>vg_bars := (vg_bars g)[i := b]\<rparr>) [CallSetSink d (?n i) (ucast v) m a]"
    if "bar_state b = (ucast v, m)" "i < length (vg_bars g)" for i b v m a d
    using that by (auto simp: bars_told_def nth_list_update other)
  have quiet: "\<forall>c \<in> set ((vg_bars g)[i := b]). quiet_when_muted c" if "quiet_when_muted b" for i b
    using assms(4) that set_update_subset_insert by fastforce
  show ?thesis
  proof (cases e)
    case (SlideTo i vol)
    obtain b v m where b: "volume_changed vol (vg_bars g ! i) = (b, v, m)" by (metis prod_cases3)
    then show ?thesis
      using SlideTo assms(1,5) told [OF moved(1) [OF b]] quiet [OF moved(2) [OF b]] by (auto simp: on_bar_def)
  next
    case (PressY i)
    obtain b v m where b: "mute_key (vg_bars g ! i) = (b, v, m)" by (metis prod_cases3)
    then show ?thesis
      using PressY assms(1,5) told [OF muted(1) [OF b]] quiet [OF muted(2) [OF b]] by (auto simp: on_bar_def)
  next
    case (MakeDefault i)
    then show ?thesis
      using assms by (auto simp: bars_told_def bar_state_def Let_def on_bar_def other)
  qed
qed

lemma volume_runs:
  assumes "\<forall>e \<in> set es. on_bar e < length (vg_bars g)" "length (vg_sinks g) = length (vg_bars g)"
    and "distinct (map fst (vg_sinks g))"
    and "\<forall>b \<in> set (vg_bars g). quiet_when_muted b" "volume_run es g = (g', cs)"
  shows "bars_told g g' cs \<and> (\<forall>b \<in> set (vg_bars g'). quiet_when_muted b)"
  using assms
proof (induction es arbitrary: g cs)
  case Nil
  then show ?case by (simp add: bars_told_def)
next
  case (Cons e es)
  obtain g1 cs1 where one: "volume_step e g = (g1, cs1)" by fastforce
  obtain ds where rest: "volume_run es g1 = (g', ds)" "cs = cs1 @ ds"
    using Cons.prems(5) one by (auto split: prod.splits)
  have here: "bars_told g g1 cs1" "\<forall>b \<in> set (vg_bars g1). quiet_when_muted b"
    using volume_turn [OF _ Cons.prems(2,3,4) one] Cons.prems(1) by simp_all
  then have "bars_told g1 g' ds \<and> (\<forall>b \<in> set (vg_bars g'). quiet_when_muted b)"
    using Cons.IH [OF _ _ _ here(2) rest(1)] Cons.prems(1,2,3) by (simp add: bars_told_def)
  then show ?case using bars_told_trans [OF here(1)] rest(2) by blast
qed

text \<open>
  C38: On the audio page the bars show what the computer was told. For a device whose sinks have
  distinct names and volumes of at most 100, after any run of slides, presses of Y and choices of the
  default device, the calls the page made leave every sink, from the volume and mute state the service
  had for it, with the volume and mute state its bar stands for; and a muted bar shows 0.
\<close>

theorem volume_bars_agree:
  assumes "distinct (map ks_name sinks)" "\<forall>k \<in> set sinks. unat (ks_volume k) \<le> 100"
    and "\<forall>e \<in> set es. on_bar e < length sinks" "volume_run es (volume_page dev sinks) = (g, cs)"
    and "k \<in> set sinks"
  shows "\<exists>i < length (vg_bars g). vg_sinks g ! i = (ks_name k, sink_label k)
           \<and> sink_after (ks_name k) (ks_volume k, ks_muted k) cs = bar_state (vg_bars g ! i)
           \<and> (mb_muted (vg_bars g ! i) \<longrightarrow> mb_value (vg_bars g ! i) = 0)"
proof -
  let ?s = "sort_key (\<lambda>k. \<not> ks_default k) sinks" and ?g = "volume_page dev sinks"
  have bars: "vg_bars ?g = map sink_bar ?s" "vg_sinks ?g = map (\<lambda>k. (ks_name k, sink_label k)) ?s"
    by (simp_all add: volume_page_def Let_def)
  have "map fst (vg_sinks ?g) = map ks_name ?s"
    unfolding bars by simp
  then have names: "distinct (map fst (vg_sinks ?g))"
    using assms(1) by (simp add: distinct_map)
  have quiet: "\<forall>b \<in> set (vg_bars ?g). quiet_when_muted b"
    unfolding bars by (auto simp: sink_bar_def setMuted_def quiet_when_muted_def Let_def)
  have lens: "length (vg_bars ?g) = length sinks" "length (vg_sinks ?g) = length (vg_bars ?g)"
    unfolding bars by simp_all
  have run: "bars_told ?g g cs" "\<forall>b \<in> set (vg_bars g). quiet_when_muted b"
    using volume_runs [OF assms(3) [folded lens(1)] lens(2) names quiet assms(4)] by blast+
  have start: "bar_state (sink_bar k) = (ks_volume k, ks_muted k)"
    using sink_bar_state assms(2,5) by blast
  obtain i where i: "i < length ?s" "?s ! i = k"
    using assms(5) by (metis in_set_conv_nth set_sort)
  then have here: "i < length (vg_bars g)" "vg_sinks ?g ! i = (ks_name k, sink_label k)" "vg_bars ?g ! i = sink_bar k"
    using run(1) by (simp_all add: bars_told_def bars)
  have told: "vg_sinks g = vg_sinks ?g"
      "sink_after (fst (vg_sinks ?g ! i)) (bar_state (vg_bars ?g ! i)) cs = bar_state (vg_bars g ! i)"
    using run(1) i(1) by (simp_all add: bars_told_def bars)
  have "quiet_when_muted (vg_bars g ! i)" using run(2) here(1) by simp
  then show ?thesis
    using here told unfolding start quiet_when_muted_def by (intro exI [of _ i]) (simp add: start)
qed

definition demo_sinks :: "kdec_sink list" where
  "demo_sinks = [\<lparr>ks_name = ''a'', ks_description = ''A'', ks_volume = 40, ks_muted = False, ks_default = False\<rparr>,
                 \<lparr>ks_name = ''b'', ks_description = [], ks_volume = 70, ks_muted = True, ks_default = True\<rparr>]"

theorem volume_bars_agree_witness:
  "let (g, cs) = volume_run [PressY 0, SlideTo 1 25, PressY 1, MakeDefault 1] (volume_page ''d'' demo_sinks)
   in \<exists>i < length (vg_bars g). vg_sinks g ! i = (''a'', ''A'') \<and> sink_after ''a'' (40, False) cs = (25, True)
        \<and> bar_state (vg_bars g ! i) = (25, True) \<and> mb_value (vg_bars g ! i) = 0"
proof -
  let ?es = "[PressY 0, SlideTo 1 25, PressY 1, MakeDefault 1]"
  obtain g cs where r: "volume_run ?es (volume_page ''d'' demo_sinks) = (g, cs)" by fastforce
  have told: "sink_after ''a'' (40, False) cs = (25, True)"
    using r by (auto simp: volume_page_def demo_sinks_def sink_bar_def setMuted_def mute_key_def volume_changed_def
        getRealVolume_def Let_def)
  show ?thesis
    unfolding r Let_def prod.case
    using volume_bars_agree [OF _ _ _ r, of "hd demo_sinks"] told
    by (auto simp: demo_sinks_def on_bar_def sink_label_def bar_state_def)
qed

end
