(* ===== verification/Overlay_Main.thy ===== *)
theory Overlay_Main
  imports Overlay_Settings Overlay_Media
begin

text \<open>
  \<open>overlay/src/main.cpp\<close>: the life of the overlay around its pages. The connection to the service is
  opened at the start if the service is there, and otherwise by the main page; \<open>overlay_conn\<close> are the
  connections the overlay can have, with any surroundings and any service.
\<close>

section \<open>Start and end\<close>

definition initServices :: "gui_env \<Rightarrow> kdec_conn \<Rightarrow> kdec_conn" where
  "initServices e conn =
     (if fst (kdecIpcRunning (ge_register_ok e)) then snd (kdecIpcInitialize (ge_get_ok e) conn) else conn)"

definition exitServices :: "kdec_conn \<Rightarrow> kdec_conn" where
  "exitServices conn = kdecIpcExit conn"

definition onShow :: "'s ipc_dispatch \<Rightarrow> kdec_conn \<Rightarrow> 's \<Rightarrow> 's" where
  "onShow D conn s = (if kdecIpcIsConnected conn then fst (kdecIpcSendBroadcast D s) else s)"

definition loadInitialGui :: main_gui where
  "loadInitialGui = new_main"

definition no_conn :: kdec_conn where
  "no_conn = \<lparr>kc_active = False, kc_refs = 0\<rparr>"

section \<open>The session is opened once\<close>

inductive overlay_conn :: "'s itself \<Rightarrow> kdec_conn \<Rightarrow> bool" for T :: "'s itself" where
  start: "overlay_conn T (initServices e no_conn)"
| create: "overlay_conn T conn \<Longrightarrow> main_create e (D :: 's ipc_dispatch) old mg conn s = (mg', conn', s', sub, items) \<Longrightarrow> overlay_conn T conn'"
| update: "overlay_conn T conn \<Longrightarrow> main_update e (D :: 's ipc_dispatch) old focus mg conn s = (mg', conn', s', go) \<Longrightarrow> overlay_conn T conn'"

text \<open>At most one reference, and a session exactly with it.\<close>

definition one_session :: "kdec_conn \<Rightarrow> bool" where
  "one_session c \<longleftrightarrow> kc_refs c = (if kc_active c then 1 else 0)"

lemma one_session_ops [simp]:
  "one_session c \<Longrightarrow> \<not> kc_active c \<Longrightarrow> one_session (snd (kdecIpcInitialize ok c))"
  "one_session c \<Longrightarrow> one_session (kdecIpcExit c)"
  "one_session c \<Longrightarrow> \<not> kc_active (kdecIpcExit c)"
  "one_session no_conn" "\<not> kc_active no_conn"
  by (auto simp: one_session_def kdecIpcInitialize_def kdecIpcExit_def no_conn_def Let_def split: if_splits)

lemma create_session:
  assumes "one_session conn" "main_create e D old mg conn s = (mg', conn', s', sub, items)"
  shows "one_session conn'"
  using assms by (auto simp: main_create_def Let_def split: prod.splits if_splits option.splits)

lemma update_session:
  assumes "one_session conn" "main_update e D old focus mg conn s = (mg', conn', s', go)"
  shows "one_session conn'"
  using assms by (auto simp: main_update_def kdecIpcIsConnected_def Let_def split: prod.splits if_splits option.splits)

lemma session_is_counted:
  assumes "overlay_conn T c"
  shows "one_session c \<and> \<not> kc_active (exitServices c)"
proof -
  have "one_session c"
    using assms
  proof induction
    case (start e)
    then show ?case by (simp add: initServices_def)
  qed (blast intro: create_session update_session)+
  then show ?thesis by (simp add: exitServices_def)
qed

section \<open>A page that does not go away\<close>

text \<open>Frames of the main page while the service answers that it has no device.\<close>

fun main_frames :: "nat \<Rightarrow> gui_env \<Rightarrow> 's ipc_dispatch \<Rightarrow> string \<Rightarrow> main_gui \<Rightarrow> kdec_conn \<Rightarrow> 's \<Rightarrow> nav option list" where
  "main_frames 0 e D old mg conn s = []"
| "main_frames (Suc n) e D old mg conn s =
     (case main_update e D old [] mg conn s of
        (mg, conn, s, go) \<Rightarrow> go # main_frames n e D old mg conn s)"

text \<open>
  When the first call on a page fails because the session is closed, the page says that it waits for the
  system module. It reconnects in the next frame; but as long as there is no device, the list it gets is
  the empty one it started with, and no frame replaces the page, however long the service answers.
\<close>

lemma waiting_page_stays:
  assumes "\<not> ge_register_ok e" "ge_get_ok e"
    and D: "\<And>s. \<exists>s' buf. kdecIpcGetDevices D old s = (s', RcOk, Some [], buf)"
    and "mg_devices mg = []" "mg_was_running mg"
  shows "set (main_frames n e D old mg conn s) \<subseteq> {None}"
  using assms(4,5)
proof (induction n arbitrary: mg conn s)
  case (Suc n)
  obtain mg' conn' s' go where u: "main_update e D old [] mg conn s = (mg', conn', s', go)" by (metis prod_cases4)
  obtain s1 buf where d: "kdecIpcGetDevices D old s = (s1, RcOk, Some [], buf)" using D by blast
  have "go = None \<and> mg_devices mg' = [] \<and> mg_was_running mg'"
    using u d Suc.prems assms(1,2)
    by (auto simp: main_update_def kdecIpcRunning_def devicesChanged_def Let_def split: if_splits)
  then show ?case using Suc.IH u by simp
qed simp

lemma closed_session_waits:
  assumes "\<not> ge_register_ok e" "ge_closed e \<noteq> RcOk"
    and "kdecIpcGetApiVersion D s = (s1, ge_closed e, None)" "kdecIpcGetDevices D old s1 = (s2, ge_closed e, None, buf)"
  shows "\<exists>mg conn'. main_create e D old new_main conn s =
    (mg, conn', s2, [], [Line ''Waiting for sysmodule...'' sym_infoCircleFilled]) \<and> mg_devices mg = [] \<and> mg_was_running mg"
  using assms by (simp add: main_create_def kdecIpcRunning_def new_main_def main_subtitle_def error_widget_def Let_def)

end
