(* ===== verification/Logging.thy ===== *)
theory Logging
  imports Prelude "HOL-Library.Sublist"
begin

text \<open>
  \<open>common/src/utils/logger.cpp\<close> and \<open>nxlink_sink.cpp\<close>: the log lines, the log file, and the connection
  to a developer's computer with its cache of messages, as in a build with \<open>NXLINK_ENABLED\<close>. The
  connection's thread takes one turn at a time under the lock. What \<open>vsnprintf\<close> makes of a format is the
  argument \<open>formatted\<close>; a file system is the map of its files.
\<close>

section \<open>Lines\<close>

definition two_chars :: "int \<Rightarrow> string" where
  "two_chars i = [char_of (48 + i sdiv 10), char_of (48 + i smod 10)]"

definition make_log_line :: "i64 \<Rightarrow> string \<Rightarrow> string \<Rightarrow> string" where
  "make_log_line secs level msg =
     (let h = sint secs sdiv 3600 smod 24; m = sint secs sdiv 60 smod 60; s = sint secs smod 60
      in ''['' @ two_chars h @ '':'' @ two_chars m @ '':'' @ two_chars s @ '']['' @ level @ ''] '' @ msg @ [CHR 0x0A])"

text \<open>\<open>formatted\<close> is the whole text, \<^const>\<open>None\<close> when the format is refused.\<close>

definition vsnprintf :: "string option \<Rightarrow> nat \<Rightarrow> int \<times> string" where
  "vsnprintf formatted n = (case formatted of None \<Rightarrow> (-1, []) | Some t \<Rightarrow> (int (length t), take (n - 1) t))"

definition vformat :: "bool \<Rightarrow> string option \<Rightarrow> string" where
  "vformat fmt formatted =
     (if \<not> fmt then []
      else case vsnprintf formatted 256 of
             (len, stack_buf) \<Rightarrow>
               if len < 0 then []
               else if len < 256 then take (nat len) stack_buf
               else snd (vsnprintf formatted (nat len + 1)))"

section \<open>The connection\<close>

record nxlink =
  nk_sock :: "nat option"
  nk_host :: bool
  nk_cache :: "string list"
  nk_down :: bool
  nk_calls :: nat
  nk_open :: "nat list"
  nk_sent :: "string list"
  nk_joined :: nat

text \<open>
  \<open>nk_calls\<close> numbers the writes, \<open>nk_open\<close> are the open descriptors and \<open>nk_sent\<close> the messages a
  connection has taken. \<open>W\<close> says whether a write goes through; a message that is taken in part counts as taken.
\<close>

definition MAX_CACHE_SIZE :: nat where "MAX_CACHE_SIZE = 100"

definition overflow_note :: string where
  "overflow_note = ''[WARNING] Message cache overflow, dropping messages until reconnect.'' @ [CHR 0x0A]"

definition new_nxlink :: nxlink where
  "new_nxlink = \<lparr>nk_sock = None, nk_host = False, nk_cache = [], nk_down = False, nk_calls = 0, nk_open = [], nk_sent = [],
                 nk_joined = 0\<rparr>"

definition setHost :: "bool \<Rightarrow> nxlink \<Rightarrow> nxlink" where
  "setHost host nx = nx\<lparr>nk_host := host\<rparr>"

text \<open>\<open>given\<close>: the loader of the program has told a host.\<close>

definition isEnabled :: "bool \<Rightarrow> nxlink \<Rightarrow> bool" where
  "isEnabled given nx \<longleftrightarrow> given \<or> nk_host nx"

definition close_sock :: "nxlink \<Rightarrow> nxlink" where
  "close_sock nx =
     (case nk_sock nx of
        None \<Rightarrow> nx
      | Some fd \<Rightarrow> nx\<lparr>nk_open := filter (\<lambda>x. x \<noteq> fd) (nk_open nx), nk_sock := None\<rparr>)"

text \<open>\<open>write\<close> on the socket: without one it fails, and closing \<open>-1\<close> does nothing.\<close>

definition sock_write :: "(nat \<Rightarrow> bool) \<Rightarrow> string \<Rightarrow> nxlink \<Rightarrow> bool \<times> nxlink" where
  "sock_write W m nx =
     (case nk_sock nx of
        None \<Rightarrow> (False, nx)
      | Some _ \<Rightarrow>
          (let ok = W (nk_calls nx); nx = nx\<lparr>nk_calls := nk_calls nx + 1\<rparr>
           in if ok then (True, nx\<lparr>nk_sent := nk_sent nx @ [m]\<rparr>) else (False, nx)))"

fun flush_loop :: "(nat \<Rightarrow> bool) \<Rightarrow> string list \<Rightarrow> nxlink \<Rightarrow> nxlink" where
  "flush_loop W [] nx = nx\<lparr>nk_cache := []\<rparr>"
| "flush_loop W (m # ms) nx =
     (case sock_write W m nx of
        (True, nx) \<Rightarrow> flush_loop W ms nx
      | (False, nx) \<Rightarrow> close_sock (nx\<lparr>nk_cache := m # ms\<rparr>))"

definition flushCache :: "(nat \<Rightarrow> bool) \<Rightarrow> nxlink \<Rightarrow> nxlink" where
  "flushCache W nx = flush_loop W (nk_cache nx) nx"

definition nx_write :: "(nat \<Rightarrow> bool) \<Rightarrow> bool \<Rightarrow> string \<Rightarrow> nxlink \<Rightarrow> nxlink" where
  "nx_write W given message nx =
     (if nk_down nx then nx
      else if nk_sock nx = None \<or> \<not> isEnabled given nx then
        (if length (nk_cache nx) < MAX_CACHE_SIZE then nx\<lparr>nk_cache := nk_cache nx @ [message]\<rparr>
         else if length (nk_cache nx) = MAX_CACHE_SIZE then nx\<lparr>nk_cache := nk_cache nx @ [overflow_note]\<rparr>
         else nx)
      else (case sock_write W message (flushCache W nx) of
              (ok, nx) \<Rightarrow> if ok then nx else close_sock nx))"

definition writeToCache :: "string \<Rightarrow> nxlink \<Rightarrow> nxlink" where
  "writeToCache message nx =
     (if length (nk_cache nx) < MAX_CACHE_SIZE then nx\<lparr>nk_cache := nk_cache nx @ [message]\<rparr> else nx)"

text \<open>The results of the calls that open a connection, in their order.\<close>

datatype connect_result = Connected | InProgress | ConnectFailed

record connect_calls =
  cc_socket :: "nat option"
  cc_getfl :: bool
  cc_nonblock :: bool
  cc_connect :: connect_result
  cc_poll :: int
  cc_pollout :: bool
  cc_block :: bool

definition connectToHost :: "bool \<Rightarrow> connect_calls \<Rightarrow> nxlink \<Rightarrow> bool \<times> nxlink" where
  "connectToHost given c nx =
     (if \<not> isEnabled given nx then (False, nx)
      else case cc_socket c of
             None \<Rightarrow> (False, nx)
           | Some fd \<Rightarrow>
               if \<not> cc_getfl c \<or> \<not> cc_nonblock c \<or> cc_connect c = ConnectFailed then (False, nx)
               else if cc_connect c = InProgress \<and> (cc_poll c < 0 \<or> cc_poll c = 0 \<or> \<not> cc_pollout c) then (False, nx)
               else if \<not> cc_block c then (False, nx)
               else (True, nx\<lparr>nk_sock := Some fd, nk_open := fd # nk_open nx\<rparr>))"

text \<open>One turn of the thread; \<open>shutdown\<close> waits for it and closes the socket.\<close>

definition background_turn :: "(nat \<Rightarrow> bool) \<Rightarrow> bool \<Rightarrow> connect_calls \<Rightarrow> nxlink \<Rightarrow> nxlink" where
  "background_turn W given c nx =
     (if nk_down nx \<or> nk_sock nx \<noteq> None \<or> \<not> isEnabled given nx then nx
      else case connectToHost given c nx of
             (True, nx) \<Rightarrow> if nk_down nx then nx else flushCache W nx
           | (False, nx) \<Rightarrow> nx)"

definition nx_shutdown :: "nxlink \<Rightarrow> nxlink" where
  "nx_shutdown nx = (close_sock (nx\<lparr>nk_down := True\<rparr>))\<lparr>nk_joined := nk_joined nx + 1\<rparr>"

section \<open>The logger\<close>

record logger =
  lg_sink :: bool
  lg_sunk :: "(string \<times> string) list"
  lg_path :: string
  lg_files :: "string \<Rightarrow> string option"
  lg_nx :: nxlink

text \<open>The surroundings: the card, which files open, the loader's host, the results of the writes, the clock.\<close>

record log_env =
  le_sdmc :: bool
  le_opens :: "string \<Rightarrow> bool"
  le_given :: bool
  le_writes :: "nat \<Rightarrow> bool"
  le_now :: i64
  le_version :: string

definition rename_file :: "string \<Rightarrow> string \<Rightarrow> (string \<Rightarrow> string option) \<Rightarrow> string \<Rightarrow> string option" where
  "rename_file a b fs = (if fs a = None \<or> fs b \<noteq> None then fs else fs(b := fs a, a := None))"

definition append_file :: "string \<Rightarrow> string \<Rightarrow> (string \<Rightarrow> string option) \<Rightarrow> string \<Rightarrow> string option" where
  "append_file p t fs = fs(p := Some ((case fs p of None \<Rightarrow> [] | Some old \<Rightarrow> old) @ t))"

definition log_msg :: "log_env \<Rightarrow> string \<Rightarrow> string \<Rightarrow> logger \<Rightarrow> logger" where
  "log_msg e level msg lg =
     (let out = make_log_line (le_now e) level msg;
          lg = (if lg_sink lg then lg\<lparr>lg_sunk := lg_sunk lg @ [(level, msg)]\<rparr> else lg);
          lg = (if lg_path lg \<noteq> [] \<and> le_opens e (lg_path lg)
                then lg\<lparr>lg_files := append_file (lg_path lg) (c_str out) (lg_files lg)\<rparr> else lg)
      in lg\<lparr>lg_nx := nx_write (le_writes e) (le_given e) (c_str out) (lg_nx lg)\<rparr>)"

definition log_dir :: string where "log_dir = ''/atmosphere/logs/''"
definition log_cur :: "string \<Rightarrow> string" where "log_cur name = log_dir @ c_str name @ ''.log''"
definition log_old :: "string \<Rightarrow> string" where "log_old name = log_dir @ c_str name @ ''-old.log''"

definition log_header :: string where "log_header = replicate 22 (CHR ''='') @ [CHR 0x0A]"

text \<open>The path with the device's name opens the same file, so paths are kept without it.\<close>

definition open_log_file :: "log_env \<Rightarrow> string \<Rightarrow> logger \<Rightarrow> logger" where
  "open_log_file e name lg =
     (let fs = lg_files lg;
          fs = (if le_sdmc e then rename_file (log_cur name) (log_old name) (fs(log_old name := None)) else fs);
          lg = lg\<lparr>lg_files := fs\<rparr>;
          lg = (if le_opens e (log_cur name)
                then lg\<lparr>lg_files := (lg_files lg)(log_cur name := Some log_header), lg_path := log_cur name\<rparr> else lg)
      in log_msg e ''I'' (le_version e) lg)"

definition set_custom_sink :: "bool \<Rightarrow> logger \<Rightarrow> logger" where
  "set_custom_sink sink lg = lg\<lparr>lg_sink := sink\<rparr>"

definition log_shutdown :: "logger \<Rightarrow> logger" where
  "log_shutdown lg = lg\<lparr>lg_nx := nx_shutdown (lg_nx lg), lg_sink := False, lg_path := []\<rparr>"

section \<open>Lines are complete\<close>

lemma vformat_whole: "vformat True (Some t) = t"
  by (simp add: vformat_def vsnprintf_def)

lemma two_chars_digits:
  assumes "0 \<le> i" "i < 100"
  shows "two_chars i = [digit_char (nat i div 10), digit_char (nat i mod 10)]"
proof -
  have "i sdiv 10 = int (nat i div 10)" "i smod 10 = int (nat i mod 10)"
    using assms by (simp_all add: signed_divide_int_def signed_modulo_int_def sgn_if zdiv_int zmod_int minus_div_mult_eq_mod)
  moreover have "char_of (48 + int k) = (char_of (48 + k) :: char)" for k
    by (metis char_of_nat of_nat_add of_nat_numeral)
  ultimately show ?thesis by (simp add: two_chars_def digit_char_def)
qed

text \<open>The time of day a line shows is that of the clock.\<close>

lemma log_line_time:
  assumes "0 \<le> sint secs"
  shows "\<exists>h < 24. \<exists>m < 60. \<exists>s < 60. int (h * 3600 + m * 60 + s) = sint secs mod 86400 \<and>
    make_log_line secs level msg = ''['' @ [digit_char (h div 10), digit_char (h mod 10)] @ '':'' @
      [digit_char (m div 10), digit_char (m mod 10)] @ '':'' @ [digit_char (s div 10), digit_char (s mod 10)] @
      '']['' @ level @ ''] '' @ msg @ [CHR 0x0A]"
proof -
  define n where "n = nat (sint secs)"
  have n: "sint secs = int n" using assms by (simp add: n_def)
  define h m s where p: "h = n div 3600 mod 24" "m = n div 60 mod 60" "s = n mod 60"
  have parts: "sint secs sdiv 3600 smod 24 = int h" "sint secs sdiv 60 smod 60 = int m" "sint secs smod 60 = int s"
    unfolding n p by (simp_all add: signed_divide_int_def signed_modulo_int_def sgn_if zdiv_int zmod_int minus_div_mult_eq_mod)
  have two: "two_chars (int k) = [digit_char (k div 10), digit_char (k mod 10)]" if "k < 100" for k
    using two_chars_digits [of "int k"] that by simp
  have less: "h < 24" "m < 60" "s < 60" by (simp_all add: p)
  have "n = n div 60 * 60 + s" "n div 60 = n div 3600 * 60 + m" "n div 3600 = n div 86400 * 24 + h"
    using div_mult_mod_eq [of n 60] div_mult_mod_eq [of "n div 60" 60] div_mult_mod_eq [of "n div 3600" 24]
    by (simp_all add: div_mult2_eq [symmetric] p)
  then have sum: "n = h * 3600 + m * 60 + s + n div 86400 * 86400" by linarith
  have "h * 3600 + m * 60 + s < 86400" using less by linarith
  then have "n mod 86400 = h * 3600 + m * 60 + s"
    by (subst sum) (simp only: mod_mult_self1 mod_less)
  then have "int (h * 3600 + m * 60 + s) = sint secs mod 86400" by (metis n zmod_int of_nat_numeral)
  then show ?thesis using less
    by (intro exI [of _ h] exI [of _ m] exI [of _ s] conjI) (simp_all add: make_log_line_def parts two Let_def)
qed

section \<open>The log file\<close>

lemma log_paths: "log_cur name \<noteq> []" "log_cur name \<noteq> log_old name" "log_old name \<noteq> log_cur name"
proof -
  have "length (log_cur name) \<noteq> length (log_old name)" by (simp add: log_cur_def log_old_def)
  then show "log_cur name \<noteq> log_old name" "log_old name \<noteq> log_cur name" by metis+
qed (simp add: log_cur_def)

fun log_all :: "(log_env \<times> string \<times> string) list \<Rightarrow> logger \<Rightarrow> logger" where
  "log_all [] lg = lg"
| "log_all ((e, level, msg) # ms) lg = log_all ms (log_msg e level msg lg)"

definition log_text :: "log_env \<times> string \<times> string \<Rightarrow> string" where
  "log_text m = (case m of (e, level, msg) \<Rightarrow> c_str (make_log_line (le_now e) level msg))"

lemma log_msg_file:
  assumes "lg_path lg = p" "p \<noteq> []" "lg_files lg p = Some t" "le_opens e p"
  shows "lg_path (log_msg e level msg lg) = p"
    "lg_files (log_msg e level msg lg) = (lg_files lg)(p := Some (t @ log_text (e, level, msg)))"
  using assms by (auto simp: log_msg_def append_file_def log_text_def Let_def)

lemma log_all_file:
  assumes "lg_path lg = p" "p \<noteq> []" "lg_files lg p = Some t" "\<forall>m \<in> set ms. le_opens (fst m) p"
  shows "lg_files (log_all ms lg) = (lg_files lg)(p := Some (t @ concat (map log_text ms)))"
  using assms
proof (induction ms arbitrary: lg t)
  case Nil
  then show ?case by auto
next
  case (Cons m ms)
  obtain e level msg where m: "m = (e, level, msg)" by (cases m)
  have o: "le_opens e p" using Cons.prems(4) m by simp
  note one = log_msg_file [OF Cons.prems(1,2,3) o, of level msg]
  have "lg_files (log_all ms (log_msg e level msg lg)) =
      (lg_files (log_msg e level msg lg))(p := Some ((t @ log_text m) @ concat (map log_text ms)))"
    by (rule Cons.IH [OF one(1) Cons.prems(2)]) (use one(2) m Cons.prems(4) in auto)
  then show ?case using one(2) m by simp
qed

text \<open>
  The log is kept over one restart and nothing is missing: opening the log puts the last one beside it,
  and after any messages the file holds the header, the version and every line in order; no other file
  is changed.
\<close>

theorem log_file_is_complete:
  assumes "le_sdmc e" "le_opens e (log_cur name)" "\<forall>m \<in> set ms. le_opens (fst m) (log_cur name)"
  shows "lg_files (log_all ms (open_log_file e name lg)) =
    (lg_files lg)(log_old name := lg_files lg (log_cur name),
       log_cur name := Some (log_header @ log_text (e, ''I'', le_version e) @ concat (map log_text ms)))"
proof -
  let ?p = "log_cur name"
  let ?lg = "lg\<lparr>lg_files := (rename_file ?p (log_old name) ((lg_files lg)(log_old name := None)))(?p := Some log_header), lg_path := ?p\<rparr>"
  have opened: "open_log_file e name lg = log_msg e ''I'' (le_version e) ?lg"
    using assms by (simp add: open_log_file_def Let_def)
  have "lg_files ?lg ?p = Some log_header" "lg_path ?lg = ?p" by simp_all
  note first = log_msg_file [OF this(2) log_paths(1) this(1) assms(2), of "''I''" "le_version e"]
  have files: "lg_files (open_log_file e name lg) = (lg_files ?lg)(?p := Some (log_header @ log_text (e, ''I'', le_version e)))"
    unfolding opened by (rule first(2))
  have "lg_files (log_all ms (open_log_file e name lg)) = (lg_files (open_log_file e name lg))
      (?p := Some ((log_header @ log_text (e, ''I'', le_version e)) @ concat (map log_text ms)))"
    by (rule log_all_file) (use files opened first(1) log_paths(1) assms(3) in auto)
  then show ?thesis
    unfolding files using log_paths(2,3) [of name] by (auto simp: rename_file_def fun_eq_iff)
qed

section \<open>Messages to the developer's computer\<close>

datatype nx_event = Message string | Turn connect_calls

fun nx_step :: "(nat \<Rightarrow> bool) \<Rightarrow> bool \<Rightarrow> nx_event \<Rightarrow> nxlink \<Rightarrow> nxlink" where
  "nx_step W given (Message m) nx = nx_write W given m nx"
| "nx_step W given (Turn c) nx = background_turn W given c nx"

definition nx_run :: "(nat \<Rightarrow> bool) \<Rightarrow> bool \<Rightarrow> nx_event list \<Rightarrow> nxlink \<Rightarrow> nxlink" where
  "nx_run W given es nx = fold (nx_step W given) es nx"

definition messages :: "nx_event list \<Rightarrow> string list" where
  "messages es = List.map_filter (\<lambda>e. case e of Message m \<Rightarrow> Some m | Turn c \<Rightarrow> None) es"

definition never_fails :: "(nat \<Rightarrow> bool) \<Rightarrow> bool" where
  "never_fails W \<longleftrightarrow> (\<forall>i. W i)"

text \<open>What was taken and what waits; and what the sink holds on to.\<close>

definition kept :: "nxlink \<Rightarrow> string list" where
  "kept nx = nk_sent nx @ nk_cache nx"

definition nx_ok :: "nxlink \<Rightarrow> bool" where
  "nx_ok nx \<longleftrightarrow> length (nk_cache nx) \<le> MAX_CACHE_SIZE + 1 \<and> nk_open nx = (case nk_sock nx of None \<Rightarrow> [] | Some fd \<Rightarrow> [fd])"

lemma close_sock_simps [simp]:
  "kept (close_sock nx) = kept nx" "nk_sock (close_sock nx) = None" "nx_ok nx \<Longrightarrow> nx_ok (close_sock nx)"
  "nk_cache (close_sock nx) = nk_cache nx" "nk_down (close_sock nx) = nk_down nx" "nk_sent (close_sock nx) = nk_sent nx"
  by (auto simp: close_sock_def kept_def nx_ok_def split: option.splits)

lemma sock_write_ok:
  assumes "sock_write W m nx = (ok, nx')"
  shows "nk_cache nx' = nk_cache nx" "nk_sent nx' = nk_sent nx @ (if ok then [m] else [])" "nk_sock nx' = nk_sock nx"
    "nk_open nx' = nk_open nx" "nk_down nx' = nk_down nx" "nk_sock nx \<noteq> None \<Longrightarrow> never_fails W \<Longrightarrow> ok"
  using assms by (auto simp: sock_write_def never_fails_def Let_def split: option.splits if_splits)

lemma flush_loop_keeps:
  assumes "nx_ok (nx\<lparr>nk_cache := ms\<rparr>)" "nk_sock nx \<noteq> None"
  shows "kept (flush_loop W ms nx) = nk_sent nx @ ms \<and> nx_ok (flush_loop W ms nx)
    \<and> (nk_sock (flush_loop W ms nx) \<noteq> None \<longrightarrow> nk_cache (flush_loop W ms nx) = [])
    \<and> (never_fails W \<longrightarrow> nk_sock (flush_loop W ms nx) \<noteq> None) \<and> nk_down (flush_loop W ms nx) = nk_down nx"
  using assms
proof (induction ms arbitrary: nx)
  case Nil
  then show ?case by (simp add: kept_def)
next
  case (Cons m ms)
  obtain ok nx1 where w: "sock_write W m nx = (ok, nx1)" by fastforce
  note s = sock_write_ok [OF w]
  show ?case
  proof (cases ok)
    case True
    have "nx_ok (nx1\<lparr>nk_cache := ms\<rparr>)" "nk_sock nx1 \<noteq> None" using Cons.prems s by (auto simp: nx_ok_def)
    from Cons.IH [OF this] show ?thesis using w True s by simp
  next
    case False
    then have "nx_ok (nx1\<lparr>nk_cache := m # ms\<rparr>)" using Cons.prems(1) s by (auto simp: nx_ok_def)
    then show ?thesis using w False s Cons.prems(2) by (auto simp: kept_def)
  qed
qed

text \<open>A step keeps what is kept, in order, and adds at most its message, or the note of the overflow.\<close>

lemma write_keeps:
  assumes "nx_ok nx"
  shows "nx_ok (nx_write W given m nx)
    \<and> kept (nx_write W given m nx) \<in> {kept nx, kept nx @ [m], kept nx @ [overflow_note]}
    \<and> (never_fails W \<and> \<not> nk_down nx \<and> length (kept nx) < MAX_CACHE_SIZE \<longrightarrow> kept (nx_write W given m nx) = kept nx @ [m])
    \<and> nk_down (nx_write W given m nx) = nk_down nx"
proof (cases "nk_down nx \<or> nk_sock nx = None \<or> \<not> isEnabled given nx")
  case True
  then show ?thesis
    using assms by (auto simp: nx_write_def nx_ok_def kept_def split: option.splits)
next
  case False
  then have off: "\<not> nk_down nx" "nk_sock nx \<noteq> None" "isEnabled given nx" by simp_all
  let ?f = "flushCache W nx"
  have "nx_ok (nx\<lparr>nk_cache := nk_cache nx\<rparr>)" using assms by simp
  note f = flush_loop_keeps [OF this off(2), of W, folded flushCache_def]
  obtain ok nx1 where w: "sock_write W m ?f = (ok, nx1)" by fastforce
  note s = sock_write_ok [OF w]
  have res: "nx_write W given m nx = (if ok then nx1 else close_sock nx1)"
    using off w by (auto simp: nx_write_def)
  have inv: "nx_ok nx1" using f s by (simp add: nx_ok_def)
  have live: "nk_sock ?f \<noteq> None" if ok using that w by (auto simp: sock_write_def split: option.splits)
  then have "kept nx1 = kept nx @ (if ok then [m] else [])"
    using f s by (auto simp: kept_def)
  then show ?thesis using f s inv res by auto
qed

lemma turn_keeps:
  assumes "nx_ok nx"
  shows "nx_ok (background_turn W given c nx) \<and> kept (background_turn W given c nx) = kept nx
    \<and> nk_down (background_turn W given c nx) = nk_down nx"
proof (cases "nk_down nx \<or> nk_sock nx \<noteq> None \<or> \<not> isEnabled given nx")
  case True
  then show ?thesis using assms by (auto simp: background_turn_def)
next
  case False
  show ?thesis
  proof (cases "fst (connectToHost given c nx)")
    case True
    then obtain fd where c: "connectToHost given c nx = (True, nx\<lparr>nk_sock := Some fd, nk_open := fd # nk_open nx\<rparr>)"
      by (auto simp: connectToHost_def split: option.splits if_splits)
    let ?n = "nx\<lparr>nk_sock := Some fd, nk_open := fd # nk_open nx\<rparr>"
    have "nx_ok (?n\<lparr>nk_cache := nk_cache nx\<rparr>)" "nk_sock ?n \<noteq> None" using assms False by (auto simp: nx_ok_def)
    from flush_loop_keeps [OF this, of W] show ?thesis
      using False c by (simp add: background_turn_def flushCache_def kept_def)
  next
    case False
    then have "connectToHost given c nx = (False, nx)"
      by (auto simp: connectToHost_def split: option.splits if_splits)
    then show ?thesis using assms by (simp add: background_turn_def)
  qed
qed

text \<open>
  Messages reach the developer in order, none twice; at most 101 wait; a connection that is given up is
  closed. While no write fails and fewer than a hundred messages were written none is lost.
\<close>

theorem nxlink_keeps_order:
  "let nx = nx_run W given es (new_nxlink\<lparr>nk_host := host\<rparr>); user = filter (\<lambda>m. m \<noteq> overflow_note)
   in subseq (user (kept nx)) (user (messages es)) \<and> length (nk_cache nx) \<le> 101 \<and> length (nk_open nx) \<le> 1
      \<and> (never_fails W \<and> length (messages es) \<le> 100 \<longrightarrow> kept nx = messages es)"
proof -
  let ?u = "filter (\<lambda>m. m \<noteq> overflow_note)"
  have run: "nx_ok (nx_run W given es nx) \<and> subseq (?u (kept (nx_run W given es nx))) (?u (before @ messages es))
      \<and> (never_fails W \<and> length (before @ messages es) \<le> 100 \<longrightarrow> kept (nx_run W given es nx) = before @ messages es)"
    if "nx_ok nx" "subseq (?u (kept nx)) (?u before)" "\<not> nk_down nx"
      "never_fails W \<and> length (before @ messages es) \<le> 100 \<longrightarrow> kept nx = before" for nx before
    using that
  proof (induction es arbitrary: nx before)
    case Nil
    then show ?case by (auto simp: nx_run_def messages_def List.map_filter_def)
  next
    case (Cons e es)
    have step: "nx_run W given (e # es) nx = nx_run W given es (nx_step W given e nx)" by (simp add: nx_run_def)
    show ?case
    proof (cases e)
      case (Turn c)
      then have "messages (e # es) = messages es" by (simp add: messages_def List.map_filter_def)
      then show ?thesis
        using Cons.IH [of "nx_step W given e nx" before] Cons.prems turn_keeps [OF Cons.prems(1), of W given c] step Turn by simp
    next
      case (Message m)
      then have ms: "messages (e # es) = m # messages es" by (simp add: messages_def List.map_filter_def)
      note w = write_keeps [OF Cons.prems(1), of W given m]
      have "subseq (?u (kept (nx_write W given m nx))) (?u (before @ [m]))"
        using w Cons.prems(2) by (auto intro: list_emb_append_mono [of "(=)" _ _ "[m]" "[m]"] list_emb_append2 subseq_rev_drop_many)
      then show ?thesis
        using Cons.IH [of "nx_step W given e nx" "before @ [m]"] Cons.prems w step Message ms
        by (simp add: MAX_CACHE_SIZE_def)
    qed
  qed
  have "nx_ok (new_nxlink\<lparr>nk_host := host\<rparr>)" by (simp add: new_nxlink_def nx_ok_def)
  from run [OF this, of "[]"] show ?thesis
    by (auto simp: new_nxlink_def kept_def nx_ok_def MAX_CACHE_SIZE_def Let_def split: option.splits)
qed

text \<open>A write that fails loses its message, although the cache has room for it.\<close>

lemma failed_write_loses:
  assumes "nk_sock nx = Some fd" "nk_cache nx = []" "\<not> nk_down nx" "isEnabled given nx" "\<not> W (nk_calls nx)"
  shows "kept (nx_write W given m nx) = kept nx \<and> nk_cache (nx_write W given m nx) = []"
  using assms by (simp add: nx_write_def flushCache_def sock_write_def kept_def Let_def)

text \<open>A connection opened while another is open leaves the first one's descriptor behind.\<close>

lemma second_connection_leaks:
  assumes "nk_sock nx = Some fd" "nk_open nx = [fd]" "fst (connectToHost given c nx)"
  shows "length (nk_open (close_sock (snd (connectToHost given c nx)))) = 1 \<or> cc_socket c = Some fd"
  using assms by (auto simp: connectToHost_def close_sock_def split: option.splits if_splits)

text \<open>The thread is waited for as often as the connection is shut down: a second time by the destructor.\<close>

lemma shutdown_twice: "nk_joined (nx_shutdown (nx_shutdown nx)) = nk_joined nx + 2"
  by (simp add: nx_shutdown_def close_sock_def split: option.splits)

end
