(* ===== verification/Mem_Tracker.thy ===== *)
theory Mem_Tracker
  imports Ipc_Wire
begin

text \<open>
  \<open>sysmodule/src/utils/mem_tracker.cpp\<close>, in a build that traces allocations: the histogram of the live
  blocks, the records of the trace file behind their buffer, the wrappers around the allocator; and the
  reader of \<open>tools/memtrace_dashboard.py\<close> for files of version 2, the one that is written. Writes to
  the card are complete. The allocator's functions are arguments over its state; memory is
  read for the return addresses only. The calls made inside of a tracker are not tracked again.
\<close>

section \<open>The histogram\<close>

definition kBuckets :: nat where "kBuckets = 9"
definition kLimits :: "nat list" where "kLimits = [16, 64, 256, 1024, 4096, 16384, 65536, 262144]"
definition kLabels :: "string list" where
  "kLabels = [''<=16B'', ''<=64B'', ''<=256B'', ''<=1KB'', ''<=4KB'', ''<=16KB'', ''<=64KB'', ''<=256KB'', ''>256KB'']"

definition bucket_for :: "u64 \<Rightarrow> nat" where
  "bucket_for sz = (case find_if (\<lambda>l. unat sz \<le> l) kLimits of Some i \<Rightarrow> i | None \<Rightarrow> kBuckets - 1)"

section \<open>The trace\<close>

record mem_tracker =
  mt_ready :: bool
  mt_open :: bool
  mt_wbuf :: string
  mt_file :: string
  mt_count :: "i32 list"
  mt_bytes :: "i64 list"
  mt_inside :: bool

definition new_tracker :: mem_tracker where
  "new_tracker =
     \<lparr>mt_ready = False, mt_open = False, mt_wbuf = [], mt_file = [], mt_count = replicate kBuckets 0,
      mt_bytes = replicate kBuckets 0, mt_inside = False\<rparr>"

definition kWBufSize :: nat where "kWBufSize = 32768"

definition flush_locked :: "mem_tracker \<Rightarrow> mem_tracker" where
  "flush_locked t = (if mt_wbuf t = [] \<or> \<not> mt_open t then t else t\<lparr>mt_file := mt_file t @ mt_wbuf t, mt_wbuf := []\<rparr>)"

definition mt_init :: "bool \<Rightarrow> bool \<Rightarrow> u64 \<Rightarrow> mem_tracker \<Rightarrow> mem_tracker" where
  "mt_init path opens anchor t =
     (if \<not> path then t
      else
        (let t = t\<lparr>mt_ready := True\<rparr>
         in if \<not> opens then t\<lparr>mt_open := False\<rparr>
            else t\<lparr>mt_open := True,
                   mt_file := [CHR ''K'', CHR ''D'', CHR ''M'', CHR ''T'', CHR 0x02, CHR 0x00, CHR 0x00, CHR 0x00] @ put_u64 anchor\<rparr>))"

definition close_trace :: "mem_tracker \<Rightarrow> mem_tracker" where
  "close_trace t = (if mt_open t then (flush_locked t)\<lparr>mt_open := False\<rparr> else t)"

text \<open>The frames of the stack: where the caller's frame is and where the call returns to.\<close>

definition kMaxFrames :: nat where "kMaxFrames = 12"

fun bt_loop :: "nat \<Rightarrow> (u64 \<Rightarrow> u64 \<times> u64) \<Rightarrow> u64 \<Rightarrow> u64 list" where
  "bt_loop 0 mem fp = []"
| "bt_loop (Suc n) mem fp =
     (if fp = 0 then []
      else case mem fp of
             (caller, lr) \<Rightarrow> lr # (if caller = 0 \<or> caller \<le> fp then [] else bt_loop n mem caller))"

definition capture_bt :: "(u64 \<Rightarrow> u64 \<times> u64) \<Rightarrow> u64 \<Rightarrow> u64 list" where
  "capture_bt mem fp = bt_loop kMaxFrames mem fp"

definition record_bytes :: "char \<Rightarrow> u64 \<Rightarrow> u64 \<Rightarrow> u64 \<Rightarrow> u64 list \<Rightarrow> string" where
  "record_bytes ty p sz ts frames =
     ty # put_u8 (of_nat (length frames)) @ put_u32 (ucast sz) @ put_u64 p @ put_u64 ts @ concat (map put_u64 frames)"

definition write_record :: "char \<Rightarrow> u64 \<Rightarrow> u64 \<Rightarrow> u64 \<Rightarrow> u64 list \<Rightarrow> mem_tracker \<Rightarrow> mem_tracker" where
  "write_record ty p sz ts frames t =
     (if \<not> mt_open t then t
      else
        (let buf = record_bytes ty p sz ts frames;
             t = (if kWBufSize < length (mt_wbuf t) + length buf then flush_locked t else t)
         in t\<lparr>mt_wbuf := mt_wbuf t @ buf\<rparr>))"

text \<open>The surroundings of one call: the counter, the stack, and what the allocator says a block holds.\<close>

record mt_env =
  me_tick :: u64
  me_mem :: "u64 \<Rightarrow> u64 \<times> u64"
  me_fp :: u64

definition track_alloc :: "mt_env \<Rightarrow> u64 \<Rightarrow> u64 \<Rightarrow> mem_tracker \<Rightarrow> mem_tracker" where
  "track_alloc e p usable t =
     (if p = 0 \<or> \<not> mt_open t \<or> mt_inside t \<or> \<not> mt_ready t then t
      else
        (let b = bucket_for usable;
             t = t\<lparr>mt_count := (mt_count t)[b := mt_count t ! b + 1], mt_bytes := (mt_bytes t)[b := mt_bytes t ! b + usable]\<rparr>
         in write_record (CHR ''A'') p usable (me_tick e) (capture_bt (me_mem e) (me_fp e)) t))"

definition track_free :: "mt_env \<Rightarrow> u64 \<Rightarrow> u64 \<Rightarrow> mem_tracker \<Rightarrow> mem_tracker" where
  "track_free e p usable t =
     (if p = 0 \<or> \<not> mt_open t \<or> mt_inside t \<or> \<not> mt_ready t then t
      else
        (let b = bucket_for usable;
             t = t\<lparr>mt_count := (mt_count t)[b := mt_count t ! b - 1], mt_bytes := (mt_bytes t)[b := mt_bytes t ! b - usable]\<rparr>
         in write_record (CHR ''F'') p usable (me_tick e) (capture_bt (me_mem e) (me_fp e)) t))"

text \<open>One line for each bucket that is not even; \<open>kb\<close> divides as C does.\<close>

definition hist_line :: "mem_tracker \<Rightarrow> nat \<Rightarrow> string list" where
  "hist_line t i =
     (let cnt = sint (mt_count t ! i)
      in if 0 < cnt then
           [''[MemTracker]  '' @ kLabels ! i @ '': '' @ int_str cnt @ '' live allocs, '' @ int_str (sint (mt_bytes t ! i) sdiv 1024) @ ''KB'']
         else if cnt < 0 then [''[MemTracker]  '' @ kLabels ! i @ '': '' @ int_str (- cnt) @ '' untracked frees (orphan)'']
         else [])"

text \<open>\<open>mallinfo\<close>: arena, used, free, chunks, top.\<close>

definition log_histogram :: "nat \<times> nat \<times> nat \<times> nat \<times> nat \<Rightarrow> mem_tracker \<Rightarrow> string list" where
  "log_histogram mi t =
     (case mi of (arena, uordblks, fordblks, ordblks, keepcost) \<Rightarrow>
        let fragmented = (if keepcost < fordblks then fordblks - keepcost else 0);
            kb = (\<lambda>n. nat_str (n div 1024) @ ''KB'')
        in (''[MemTracker] arena='' @ kb arena @ '' used='' @ kb uordblks @ '' free='' @ kb fordblks @ '' frag='' @ kb fragmented @
            '' top='' @ kb keepcost @ '' free_chunks='' @ nat_str ordblks) #
           concat (map (hist_line t) [0..<kBuckets]))"

section \<open>The wrappers\<close>

text \<open>
  The allocator: functions that give a block from a state (0: none left), that take one back, that move
  one, and the size a block can hold. \<open>calloc\<close>, \<open>memalign\<close> and the others that give a block differ in
  the function they call.
\<close>

record 'h allocator =
  al_give :: "u64 \<Rightarrow> 'h \<Rightarrow> 'h \<times> u64"
  al_free :: "u64 \<Rightarrow> 'h \<Rightarrow> 'h"
  al_realloc :: "u64 \<Rightarrow> u64 \<Rightarrow> 'h \<Rightarrow> 'h \<times> u64"
  al_usable :: "'h \<Rightarrow> u64 \<Rightarrow> u64"

definition wrap_malloc :: "'h allocator \<Rightarrow> mt_env \<Rightarrow> u64 \<Rightarrow> mem_tracker \<times> 'h \<Rightarrow> (mem_tracker \<times> 'h) \<times> u64" where
  "wrap_malloc A e sz s =
     (case s of (t, h) \<Rightarrow> case al_give A sz h of (h, p) \<Rightarrow> ((track_alloc e p (al_usable A h p) t, h), p))"

definition wrap_posix_memalign ::
    "'h allocator \<Rightarrow> mt_env \<Rightarrow> u64 \<Rightarrow> u64 \<Rightarrow> mem_tracker \<times> 'h \<Rightarrow> (mem_tracker \<times> 'h) \<times> u64 \<times> bool" where
  "wrap_posix_memalign A e old sz s =
     (case s of (t, h) \<Rightarrow>
        (case al_give A sz h of
           (h, p) \<Rightarrow> if p = 0 then ((t, h), old, False) else ((track_alloc e p (al_usable A h p) t, h), p, True)))"

definition wrap_free :: "'h allocator \<Rightarrow> mt_env \<Rightarrow> u64 \<Rightarrow> mem_tracker \<times> 'h \<Rightarrow> mem_tracker \<times> 'h" where
  "wrap_free A e p s = (case s of (t, h) \<Rightarrow> (track_free e p (al_usable A h p) t, al_free A p h))"

definition wrap_realloc ::
    "'h allocator \<Rightarrow> mt_env \<Rightarrow> u64 \<Rightarrow> u64 \<Rightarrow> mem_tracker \<times> 'h \<Rightarrow> (mem_tracker \<times> 'h) \<times> u64" where
  "wrap_realloc A e old sz s =
     (case s of (t, h) \<Rightarrow>
        (let t = track_free e old (al_usable A h old) t
         in case al_realloc A old sz h of (h, p) \<Rightarrow> ((track_alloc e p (al_usable A h p) t, h), p)))"

section \<open>Reading a trace\<close>

text \<open>A record as the tools read it: type, size, block, time, return addresses.\<close>

type_synonym mt_record = "char \<times> u32 \<times> u64 \<times> u64 \<times> u64 list"

function parse_records :: "string \<Rightarrow> mt_record list" where
  "parse_records bs =
     (if length bs < 22 then []
      else
        (let ty = hd bs; n = unat (get_u8 (drop 1 bs)); tail = drop 22 bs
         in if ty \<notin> {CHR ''A'', CHR ''F''} \<or> length tail < n * 8 then []
            else (ty, get_u32 (drop 2 bs), get_u64 (drop 6 bs), get_u64 (drop 14 bs),
                  map (\<lambda>i. get_u64 (drop (8 * i) tail)) [0..<n]) # parse_records (drop (n * 8) tail)))"
  by pat_completeness auto

termination by (relation "measure length") auto

definition parse_trace :: "string \<Rightarrow> (u64 \<times> mt_record list) option" where
  "parse_trace bs =
     (if length bs < 16 \<or> take 4 bs \<noteq> ''KDMT'' \<or> bs ! 4 \<noteq> CHR 0x02 then None
      else Some (get_u64 (drop 8 bs), parse_records (drop 16 bs)))"

section \<open>The tools read what was traced\<close>

datatype mt_event = Alloc mt_env u64 u64 | Free mt_env u64 u64

fun mt_step :: "mt_event \<Rightarrow> mem_tracker \<Rightarrow> mem_tracker" where
  "mt_step (Alloc e p usable) t = track_alloc e p usable t"
| "mt_step (Free e p usable) t = track_free e p usable t"

fun record_of :: "mt_event \<Rightarrow> mt_record" where
  "record_of (Alloc e p usable) = (CHR ''A'', ucast usable, p, me_tick e, capture_bt (me_mem e) (me_fp e))"
| "record_of (Free e p usable) = (CHR ''F'', ucast usable, p, me_tick e, capture_bt (me_mem e) (me_fp e))"

fun block_of :: "mt_event \<Rightarrow> u64" where
  "block_of (Alloc e p usable) = p"
| "block_of (Free e p usable) = p"

definition bytes_of :: "mt_record \<Rightarrow> string" where
  "bytes_of r =
     (case r of (ty, sz, p, ts, frames) \<Rightarrow>
        ty # put_u8 (of_nat (length frames)) @ put_u32 sz @ put_u64 p @ put_u64 ts @ concat (map put_u64 frames))"

definition mt_header :: "u64 \<Rightarrow> string" where
  "mt_header anchor = [CHR ''K'', CHR ''D'', CHR ''M'', CHR ''T'', CHR 0x02, CHR 0x00, CHR 0x00, CHR 0x00] @ put_u64 anchor"

lemma bt_frames: "length (capture_bt mem fp) \<le> kMaxFrames"
proof -
  have "length (bt_loop n mem fp) \<le> n" for n
    by (induction n arbitrary: fp) (auto split: prod.splits)
  then show ?thesis by (simp add: capture_bt_def)
qed

lemma length_frames: "length (concat (map put_u64 fs)) = 8 * length fs"
  by (induction fs) simp_all

lemma nth_frames: "i < length fs \<Longrightarrow> get_u64 (drop (8 * i) (concat (map put_u64 fs) @ rest)) = fs ! i"
proof (induction fs arbitrary: i)
  case (Cons f fs)
  then show ?case by (cases i) simp_all
qed simp

declare parse_records.simps [simp del]

lemma parse_one:
  assumes "ty \<in> {CHR ''A'', CHR ''F''}" "length frames \<le> kMaxFrames"
  shows "parse_records (bytes_of (ty, sz, p, ts, frames) @ rest) = (ty, sz, p, ts, frames) # parse_records rest"
proof -
  define fs bs where d: "fs = concat (map put_u64 frames) @ rest" "bs = bytes_of (ty, sz, p, ts, frames) @ rest"
  have bs: "bs = ty # put_u8 (of_nat (length frames)) @ put_u32 sz @ put_u64 p @ put_u64 ts @ fs"
    by (simp add: d bytes_of_def)
  have n: "unat (of_nat (length frames) :: u8) = length frames"
    using assms(2) by (simp add: kMaxFrames_def unsigned_of_nat take_bit_nat_eq_self)
  have at: "get_u8 (drop 1 bs) = of_nat (length frames)" "get_u32 (drop 2 bs) = sz" "get_u64 (drop 6 bs) = p"
    "get_u64 (drop 14 bs) = ts" "drop 22 bs = fs" "hd bs = ty" "\<not> length bs < 22"
    unfolding bs by (simp_all add: drop_Cons')
  have "map (\<lambda>i. get_u64 (drop (8 * i) fs)) [0..<length frames] = frames"
    unfolding d by (intro nth_equalityI) (simp_all add: nth_frames del: drop_append)
  moreover have "\<not> length fs < length frames * 8" "drop (length frames * 8) fs = rest"
    unfolding d by (simp_all add: length_frames)
  ultimately have "parse_records bs = (ty, sz, p, ts, frames) # parse_records rest"
    using assms(1) by (subst parse_records.simps) (simp only: at n Let_def if_False HOL.simp_thms not_True_eq_False not_False_eq_True)
  then show ?thesis by (simp add: d)
qed

lemma parse_all:
  assumes "\<forall>r \<in> set rs. fst r \<in> {CHR ''A'', CHR ''F''} \<and> length (snd (snd (snd (snd r)))) \<le> kMaxFrames"
  shows "parse_records (concat (map bytes_of rs)) = rs"
  using assms
proof (induction rs)
  case Nil
  then show ?case by (simp add: parse_records.simps)
next
  case (Cons r rs)
  obtain ty sz p ts frames where "r = (ty, sz, p, ts, frames)" by (metis prod.exhaust)
  then show ?case using Cons parse_one by simp
qed

text \<open>The tracker after some records: what it wrote and holds back is the header and the records.\<close>

definition traced :: "u64 \<Rightarrow> mt_record list \<Rightarrow> mem_tracker \<Rightarrow> bool" where
  "traced anchor rs t \<longleftrightarrow>
     mt_open t \<and> mt_ready t \<and> \<not> mt_inside t \<and> length (mt_wbuf t) \<le> kWBufSize \<and>
     mt_file t @ mt_wbuf t = mt_header anchor @ concat (map bytes_of rs)"

lemma record_traced:
  assumes "traced anchor rs t" "length frames \<le> kMaxFrames"
  shows "traced anchor (rs @ [(ty, ucast sz, p, ts, frames)]) (write_record ty p sz ts frames t)"
proof -
  have "length (record_bytes ty p sz ts frames) \<le> 118"
    using assms(2) by (simp add: record_bytes_def length_frames kMaxFrames_def)
  moreover have "record_bytes ty p sz ts frames = bytes_of (ty, ucast sz, p, ts, frames)"
    by (simp add: record_bytes_def bytes_of_def)
  ultimately show ?thesis
    using assms(1) by (auto simp: traced_def write_record_def flush_locked_def kWBufSize_def Let_def)
qed

lemma step_traced:
  assumes "traced anchor rs t"
  shows "traced anchor (rs @ (if block_of e = 0 then [] else [record_of e])) (mt_step e t)"
proof -
  have "traced anchor rs (t\<lparr>mt_count := c, mt_bytes := b\<rparr>)" for c b using assms by (simp add: traced_def)
  from record_traced [OF this bt_frames] show ?thesis
    using assms by (cases e) (auto simp: track_alloc_def track_free_def traced_def Let_def)
qed

text \<open>
  The reader of the tools gets back what was traced: the anchor and, in order, a record for every block
  that was given or taken back, with its size in 32 bits, the time and at most twelve return addresses;
  and the buffer in front of the file is never overrun.
\<close>

theorem trace_reads_back:
  "let t = fold mt_step es (mt_init True True anchor new_tracker)
   in length (mt_wbuf t) \<le> kWBufSize \<and>
      parse_trace (mt_file (close_trace t)) = Some (anchor, map record_of (filter (\<lambda>e. block_of e \<noteq> 0) es))"
proof -
  let ?rs = "map record_of (filter (\<lambda>e. block_of e \<noteq> 0) es)"
  let ?t = "fold mt_step es (mt_init True True anchor new_tracker)"
  have run: "traced anchor (rs @ map record_of (filter (\<lambda>e. block_of e \<noteq> 0) es)) (fold mt_step es t)"
    if "traced anchor rs t" for rs t
    using that
  proof (induction es arbitrary: rs t)
    case (Cons e es)
    from Cons.IH [OF step_traced [OF Cons.prems, of e]] show ?case by (simp split: if_splits)
  qed simp
  have "traced anchor [] (mt_init True True anchor new_tracker)"
    by (simp add: traced_def mt_init_def new_tracker_def mt_header_def kWBufSize_def Let_def)
  from run [OF this] have t: "traced anchor ?rs ?t" by simp
  have out: "mt_file (close_trace ?t) = mt_header anchor @ concat (map bytes_of ?rs)"
    using t by (auto simp: traced_def close_trace_def flush_locked_def)
  have "\<forall>r \<in> set ?rs. fst r \<in> {CHR ''A'', CHR ''F''} \<and> length (snd (snd (snd (snd r)))) \<le> kMaxFrames"
  proof
    fix r assume "r \<in> set ?rs"
    then obtain e where "r = record_of e" by auto
    then show "fst r \<in> {CHR ''A'', CHR ''F''} \<and> length (snd (snd (snd (snd r)))) \<le> kMaxFrames"
      by (cases e) (simp_all add: bt_frames)
  qed
  from parse_all [OF this] show ?thesis
    using t get_put_num(3) [of anchor "concat (map bytes_of ?rs)"]
    by (simp add: out parse_trace_def mt_header_def traced_def Let_def)
qed

section \<open>The histogram is that of the live blocks\<close>

text \<open>
  What an allocator does, by the list of its blocks with their sizes: a new block is none of the old
  ones, taking one back removes it, moving one does both or, when nothing is left, neither.
\<close>

definition allocator_ok :: "'h allocator \<Rightarrow> ('h \<Rightarrow> (u64 \<times> u64) list) \<Rightarrow> bool" where
  "allocator_ok A bl \<longleftrightarrow>
     (\<forall>h. um_wf (bl h) \<and> 0 \<notin> fst ` set (bl h) \<and> (\<forall>(p, n) \<in> set (bl h). al_usable A h p = n) \<and>
       (\<forall>sz h'. al_give A sz h = (h', 0) \<longrightarrow> bl h' = bl h) \<and>
       (\<forall>sz h' p. al_give A sz h = (h', p) \<and> p \<noteq> 0 \<longrightarrow> p \<notin> fst ` set (bl h) \<and> bl h' = (p, al_usable A h' p) # bl h) \<and>
       (\<forall>p. bl (al_free A p h) = AList.delete p (bl h)) \<and>
       (\<forall>old sz h'. al_realloc A old sz h = (h', 0) \<longrightarrow> bl h' = bl h) \<and>
       (\<forall>old sz h' p. al_realloc A old sz h = (h', p) \<and> p \<noteq> 0 \<longrightarrow>
          p \<notin> fst ` set (AList.delete old (bl h)) \<and> bl h' = (p, al_usable A h' p) # AList.delete old (bl h)))"

definition live_in :: "nat \<Rightarrow> (u64 \<times> u64) list \<Rightarrow> nat" where
  "live_in b bs = length (filter (\<lambda>(p, n). bucket_for n = b) bs)"

text \<open>What a program may do: ask for blocks, and give back or move those it has, or the null pointer.\<close>

datatype heap_op = OpMalloc mt_env u64 | OpPosix mt_env u64 u64 | OpFree mt_env u64 | OpRealloc mt_env u64 u64

fun heap_step :: "'h allocator \<Rightarrow> heap_op \<Rightarrow> mem_tracker \<times> 'h \<Rightarrow> mem_tracker \<times> 'h" where
  "heap_step A (OpMalloc e sz) s = fst (wrap_malloc A e sz s)"
| "heap_step A (OpPosix e old sz) s = fst (wrap_posix_memalign A e old sz s)"
| "heap_step A (OpFree e p) s = wrap_free A e p s"
| "heap_step A (OpRealloc e old sz) s = fst (wrap_realloc A e old sz s)"

fun op_allowed :: "'h allocator \<Rightarrow> ('h \<Rightarrow> (u64 \<times> u64) list) \<Rightarrow> heap_op \<Rightarrow> 'h \<Rightarrow> bool" where
  "op_allowed A bl (OpFree e p) h \<longleftrightarrow> p = 0 \<or> p \<in> fst ` set (bl h)"
| "op_allowed A bl (OpRealloc e p sz) h \<longleftrightarrow> (p = 0 \<or> p \<in> fst ` set (bl h)) \<and> snd (al_realloc A p sz h) \<noteq> 0"
| "op_allowed A bl _ h \<longleftrightarrow> True"

fun ops_allowed :: "'h allocator \<Rightarrow> ('h \<Rightarrow> (u64 \<times> u64) list) \<Rightarrow> heap_op list \<Rightarrow> mem_tracker \<times> 'h \<Rightarrow> bool" where
  "ops_allowed A bl [] s = True"
| "ops_allowed A bl (x # xs) s \<longleftrightarrow> op_allowed A bl x (snd s) \<and> ops_allowed A bl xs (heap_step A x s)"

definition counts :: "mem_tracker \<Rightarrow> (u64 \<times> u64) list \<Rightarrow> bool" where
  "counts t bs \<longleftrightarrow>
     mt_open t \<and> mt_ready t \<and> \<not> mt_inside t \<and> length (mt_count t) = kBuckets \<and>
     (\<forall>b < kBuckets. mt_count t ! b = of_nat (live_in b bs))"

lemma bucket_less: "bucket_for n < kBuckets"
proof -
  have "length kLimits = kBuckets - 1" "0 < kBuckets" by (simp_all add: kLimits_def kBuckets_def)
  then show ?thesis using find_if_Some [of "\<lambda>l. unat n \<le> l" kLimits]
    by (fastforce simp: bucket_for_def split: option.splits)
qed

lemma write_record_counts [simp]:
  "mt_count (write_record ty p sz ts fs t) = mt_count t" "mt_open (write_record ty p sz ts fs t) = mt_open t"
  "mt_ready (write_record ty p sz ts fs t) = mt_ready t" "mt_inside (write_record ty p sz ts fs t) = mt_inside t"
  by (simp_all add: write_record_def flush_locked_def Let_def)

lemma counts_alloc:
  assumes "counts t bs" "p \<noteq> 0"
  shows "counts (track_alloc e p n t) ((p, n) # bs)"
  using assms bucket_less [of n] by (auto simp: counts_def track_alloc_def live_in_def nth_list_update Let_def)

lemma live_in_delete:
  assumes "um_wf bs" "(p, n) \<in> set bs"
  shows "live_in b bs = live_in b (AList.delete p bs) + (if bucket_for n = b then 1 else 0)"
  using assms
proof (induction bs)
  case (Cons x bs)
  obtain q m where x: "x = (q, m)" by (cases x)
  show ?case
  proof (cases "q = p")
    case True
    then have "p \<notin> fst ` set bs" "(p, n) \<notin> set bs" using Cons.prems(1) x by (force simp: um_wf_def)+
    then have "AList.delete p bs = bs" "m = n" using Cons.prems(2) x True by (auto simp: delete_eq_filter filter_id_conv)
    then show ?thesis using x True by (simp add: live_in_def delete_eq_filter)
  next
    case False
    then have "um_wf bs" "(p, n) \<in> set bs" using Cons.prems x by (auto simp: um_wf_def)
    then show ?thesis using Cons.IH x False by (simp add: live_in_def delete_eq_filter)
  qed
qed simp

lemma counts_free:
  assumes "counts t bs" "um_wf bs" "(p, n) \<in> set bs" "p \<noteq> 0"
  shows "counts (track_free e p n t) (AList.delete p bs)"
  using assms(1,4) bucket_less [of n] live_in_delete [OF assms(2,3)]
  by (auto simp: counts_def track_free_def nth_list_update Let_def)

lemma counts_free_known:
  assumes "counts t (bl h)" "allocator_ok A bl" "p = 0 \<or> p \<in> fst ` set (bl h)"
  shows "counts (track_free e p (al_usable A h p) t) (AList.delete p (bl h))"
proof (cases "p = 0")
  case True
  have "0 \<notin> fst ` set (bl h)" using assms(2) by (simp add: allocator_ok_def)
  then have "AList.delete p (bl h) = bl h" using True by (auto simp: delete_eq_filter filter_id_conv)
  then show ?thesis using True assms(1) by (simp add: track_free_def)
next
  case False
  then obtain n where n: "(p, n) \<in> set (bl h)" using assms(3) by auto
  then have "al_usable A h p = n" "um_wf (bl h)" using assms(2) by (auto simp: allocator_ok_def)
  then show ?thesis using counts_free [OF assms(1)] n False by blast
qed

lemma allocator_facts:
  assumes "allocator_ok A bl"
  shows "um_wf (bl h)" "0 \<notin> fst ` set (bl h)" "(p, n) \<in> set (bl h) \<Longrightarrow> al_usable A h p = n"
    "al_give A sz h = (h', 0) \<Longrightarrow> bl h' = bl h"
    "al_give A sz h = (h', q) \<Longrightarrow> q \<noteq> 0 \<Longrightarrow> bl h' = (q, al_usable A h' q) # bl h"
    "bl (al_free A p h) = AList.delete p (bl h)"
    "al_realloc A p sz h = (h', 0) \<Longrightarrow> bl h' = bl h"
    "al_realloc A p sz h = (h', q) \<Longrightarrow> q \<noteq> 0 \<Longrightarrow> bl h' = (q, al_usable A h' q) # AList.delete p (bl h)"
proof -
  have all: "um_wf (bl h) \<and> 0 \<notin> fst ` set (bl h) \<and> (\<forall>(p, n) \<in> set (bl h). al_usable A h p = n) \<and>
       (\<forall>sz h'. al_give A sz h = (h', 0) \<longrightarrow> bl h' = bl h) \<and>
       (\<forall>sz h' p. al_give A sz h = (h', p) \<and> p \<noteq> 0 \<longrightarrow> p \<notin> fst ` set (bl h) \<and> bl h' = (p, al_usable A h' p) # bl h) \<and>
       (\<forall>p. bl (al_free A p h) = AList.delete p (bl h)) \<and>
       (\<forall>old sz h'. al_realloc A old sz h = (h', 0) \<longrightarrow> bl h' = bl h) \<and>
       (\<forall>old sz h' p. al_realloc A old sz h = (h', p) \<and> p \<noteq> 0 \<longrightarrow>
          p \<notin> fst ` set (AList.delete old (bl h)) \<and> bl h' = (p, al_usable A h' p) # AList.delete old (bl h))"
    using assms unfolding allocator_ok_def by (rule spec)
  note c = all [THEN conjunct1] all [THEN conjunct2]
  note rest1 = c(2) [THEN conjunct2]
  note rest2 = rest1 [THEN conjunct2]
  note rest3 = rest2 [THEN conjunct2]
  note rest4 = rest3 [THEN conjunct2]
  note rest5 = rest4 [THEN conjunct2]
  show "um_wf (bl h)" "0 \<notin> fst ` set (bl h)" "bl (al_free A p h) = AList.delete p (bl h)"
    by (rule c(1), rule c(2) [THEN conjunct1], rule rest4 [THEN conjunct1, rule_format])
  show "al_usable A h p = n" if "(p, n) \<in> set (bl h)" using bspec [OF rest1 [THEN conjunct1] that] by simp
  show "bl h' = bl h" if "al_give A sz h = (h', 0)" using that by (rule rest2 [THEN conjunct1, rule_format])
  show "bl h' = (q, al_usable A h' q) # bl h" if "al_give A sz h = (h', q)" "q \<noteq> 0"
    using rest3 [THEN conjunct1, rule_format, OF conjI [OF that]] by (rule conjunct2)
  show "bl h' = bl h" if "al_realloc A p sz h = (h', 0)" using that by (rule rest5 [THEN conjunct1, rule_format])
  show "bl h' = (q, al_usable A h' q) # AList.delete p (bl h)" if "al_realloc A p sz h = (h', q)" "q \<noteq> 0"
    using rest5 [THEN conjunct2, rule_format, OF conjI [OF that]] by (rule conjunct2)
qed

lemma given_counts:
  assumes "allocator_ok A bl" "counts t (bl h)" "al_give A sz h = (h', p)"
  shows "counts (track_alloc e p (al_usable A h' p) t) (bl h')"
proof (cases "p = 0")
  case True
  then show ?thesis using allocator_facts(4) [OF assms(1)] assms(2,3) by (simp add: track_alloc_def)
next
  case False
  then show ?thesis using counts_alloc [OF assms(2) False] allocator_facts(5) [OF assms(1,3) False] by simp
qed

lemma heap_step_counts:
  assumes "allocator_ok A bl" "counts (fst s) (bl (snd s))" "op_allowed A bl x (snd s)"
  shows "counts (fst (heap_step A x s)) (bl (snd (heap_step A x s)))"
proof -
  obtain t h where s: "s = (t, h)" by (cases s)
  then have c: "counts t (bl h)" using assms(2) by simp
  show ?thesis
  proof (cases x)
    case (OpMalloc e sz)
    obtain h' p where g: "al_give A sz h = (h', p)" by fastforce
    show ?thesis using given_counts [OF assms(1) c g] g OpMalloc s by (simp add: wrap_malloc_def)
  next
    case (OpPosix e old sz)
    obtain h' p where g: "al_give A sz h = (h', p)" by fastforce
    have "p = 0 \<Longrightarrow> counts t (bl h')" using given_counts [OF assms(1) c g] by (simp add: track_alloc_def)
    then show ?thesis using given_counts [OF assms(1) c g] g OpPosix s
      by (cases "p = 0") (simp_all add: wrap_posix_memalign_def)
  next
    case (OpFree e p)
    then show ?thesis using counts_free_known [OF c assms(1)] assms(3) s allocator_facts(6) [OF assms(1)]
      by (simp add: wrap_free_def)
  next
    case (OpRealloc e p sz)
    obtain h' q where r: "al_realloc A p sz h = (h', q)" by fastforce
    then have q: "q \<noteq> 0" "p = 0 \<or> p \<in> fst ` set (bl h)" using assms(3) OpRealloc s by simp_all
    have "counts (track_alloc e q (al_usable A h' q) (track_free e p (al_usable A h p) t)) (bl h')"
      unfolding allocator_facts(8) [OF assms(1) r q(1)]
      by (rule counts_alloc [OF counts_free_known [OF c assms(1) q(2)] q(1)])
    then show ?thesis using s OpRealloc r by (simp add: wrap_realloc_def)
  qed
qed

text \<open>
  The histogram counts the live blocks. Started while the allocator has no blocks, after any calls of
  the wrappers that give back or move only what was given, each bucket counts the blocks of its sizes
  (modulo 2^32), as long as no \<open>realloc\<close> fails.
\<close>

theorem histogram_is_live:
  assumes "allocator_ok A bl" "counts t (bl h)" "ops_allowed A bl xs (t, h)" "b < kBuckets"
  shows "case fold (heap_step A) xs (t, h) of (t', h') \<Rightarrow> mt_count t' ! b = of_nat (live_in b (bl h'))"
proof -
  have "counts (fst (fold (heap_step A) xs s)) (bl (snd (fold (heap_step A) xs s)))"
    if "counts (fst s) (bl (snd s))" "ops_allowed A bl xs s" for s
    using that heap_step_counts [OF assms(1)] by (induction xs arbitrary: s) auto
  from this [of "(t, h)"] show ?thesis using assms by (auto simp: counts_def split: prod.splits)
qed

text \<open>A \<open>realloc\<close> that fails has already been counted as giving the block back: the block is alive and not counted.\<close>

lemma failed_realloc_miscounts:
  assumes "allocator_ok A bl" "counts t (bl h)" "(p, n) \<in> set (bl h)" "al_realloc A p sz h = (h', 0)"
  shows "mt_count (fst (fst (wrap_realloc A e p sz (t, h)))) ! bucket_for n = of_nat (live_in (bucket_for n) (bl h')) - 1"
proof -
  have p: "p \<noteq> 0" "al_usable A h p = n" "um_wf (bl h)" "bl h' = bl h"
    using allocator_facts(1,2,3,7) [OF assms(1)] assms(3,4) by force+
  have "counts (track_free e p n t) (AList.delete p (bl h))" by (rule counts_free [OF assms(2) p(3) assms(3) p(1)])
  then show ?thesis
    using live_in_delete [OF p(3) assms(3), of "bucket_for n"] bucket_less [of n] assms(4) p
    by (simp add: wrap_realloc_def counts_def track_alloc_def)
qed

text \<open>An allocator with three addresses.\<close>

definition tidy :: "(u64 \<times> u64) list \<Rightarrow> (u64 \<times> u64) list" where
  "tidy h = (if um_wf h \<and> 0 \<notin> fst ` set h then h else [])"

definition small_give :: "u64 \<Rightarrow> (u64 \<times> u64) list \<Rightarrow> (u64 \<times> u64) list \<times> u64" where
  "small_give sz h =
     (case filter (\<lambda>p. p \<notin> fst ` set (tidy h)) [16, 32, 48] of [] \<Rightarrow> (tidy h, 0) | p # _ \<Rightarrow> ((p, sz) # tidy h, p))"

definition small_allocator :: "(u64 \<times> u64) list allocator" where
  "small_allocator =
     \<lparr>al_give = small_give, al_free = (\<lambda>p h. AList.delete p (tidy h)),
      al_realloc = (\<lambda>old sz h. case small_give sz (AList.delete old (tidy h)) of (h', p) \<Rightarrow> if p = 0 then (tidy h, 0) else (h', p)),
      al_usable = (\<lambda>h p. case map_of (tidy h) p of Some n \<Rightarrow> n | None \<Rightarrow> 0)\<rparr>"

lemma tidy_simps:
  "um_wf (tidy h)" "0 \<notin> fst ` set (tidy h)" "tidy (tidy h) = tidy h" "tidy (AList.delete p (tidy h)) = AList.delete p (tidy h)"
  "q \<noteq> 0 \<Longrightarrow> q \<notin> fst ` set (tidy h) \<Longrightarrow> tidy ((q, n) # tidy h) = (q, n) # tidy h"
  by (auto simp: tidy_def um_wf_def delete_eq_filter distinct_map_filter)

lemma small_give_cases:
  assumes "small_give sz h = (h', p)"
  shows "p = 0 \<and> h' = tidy h \<or> p \<noteq> 0 \<and> p \<notin> fst ` set (tidy h) \<and> h' = (p, sz) # tidy h"
proof -
  define F where "F = filter (\<lambda>p. p \<notin> fst ` set (tidy h)) [16, 32, 48 :: u64]"
  have give: "small_give sz h = (case F of [] \<Rightarrow> (tidy h, 0) | p # _ \<Rightarrow> ((p, sz) # tidy h, p))"
    by (simp only: small_give_def F_def)
  show ?thesis
  proof (cases F)
    case (Cons q qs)
    then have "q \<in> set F" by simp
    then have "q \<in> {16, 32, 48} \<and> q \<notin> fst ` set (tidy h)" by (simp only: F_def set_filter) auto
    then show ?thesis using assms give Cons by auto
  qed (use assms give in simp)
qed

lemma small_allocator_ok: "allocator_ok small_allocator tidy"
  unfolding allocator_ok_def
proof (intro allI conjI impI)
  fix h sz h' p old
  show "um_wf (tidy h)" "0 \<notin> fst ` set (tidy h)" by (rule tidy_simps)+
  show "\<forall>(p, n) \<in> set (tidy h). al_usable small_allocator h p = n"
    using tidy_simps(1) [of h] by (auto simp: small_allocator_def um_wf_def)
  show "tidy (al_free small_allocator p h) = AList.delete p (tidy h)" by (simp add: small_allocator_def tidy_simps)
  show "al_give small_allocator sz h = (h', 0) \<Longrightarrow> tidy h' = tidy h"
    by (auto simp: small_allocator_def tidy_simps dest!: small_give_cases)
  show "al_realloc small_allocator old sz h = (h', 0) \<Longrightarrow> tidy h' = tidy h"
    by (auto simp: small_allocator_def tidy_simps split: prod.splits if_splits)
  {
    assume g: "al_give small_allocator sz h = (h', p) \<and> p \<noteq> 0"
    then have h: "p \<noteq> 0" "p \<notin> fst ` set (tidy h)" "h' = (p, sz) # tidy h"
      using small_give_cases [of sz h h' p] by (auto simp: small_allocator_def)
    then have "tidy h' = h'" using tidy_simps(5) by simp
    with h show "p \<notin> fst ` set (tidy h)" "tidy h' = (p, al_usable small_allocator h' p) # tidy h"
      by (simp_all add: small_allocator_def)
  }
  {
    assume "al_realloc small_allocator old sz h = (h', p) \<and> p \<noteq> 0"
    then have "small_give sz (AList.delete old (tidy h)) = (h', p)" "p \<noteq> 0"
      by (auto simp: small_allocator_def split: prod.splits if_splits)
    then have h: "p \<noteq> 0" "p \<notin> fst ` set (AList.delete old (tidy h))" "h' = (p, sz) # AList.delete old (tidy h)"
      using small_give_cases [of sz "AList.delete old (tidy h)" h' p] by (auto simp: tidy_simps)
    then have "tidy h' = h'" using tidy_simps(4) [of old h] tidy_simps(5) [of p "AList.delete old (tidy h)"] by simp
    with h show "p \<notin> fst ` set (AList.delete old (tidy h))"
      "tidy h' = (p, al_usable small_allocator h' p) # AList.delete old (tidy h)"
      by (simp_all add: small_allocator_def)
  }
qed

definition demo_mt_env :: mt_env where
  "demo_mt_env = \<lparr>me_tick = 7, me_mem = (\<lambda>_. (0, 5)), me_fp = 64\<rparr>"

theorem histogram_is_live_witness:
  "case fold (heap_step small_allocator) [OpMalloc demo_mt_env 100, OpMalloc demo_mt_env 200, OpRealloc demo_mt_env 16 5000, OpFree demo_mt_env 32]
     (mt_init True True 0 new_tracker, []) of (t', h') \<Rightarrow> mt_count t' ! 5 = of_nat (live_in 5 (tidy h'))"
proof (rule histogram_is_live [OF small_allocator_ok])
  show "counts (mt_init True True 0 new_tracker) (tidy [])"
    by (simp add: counts_def mt_init_def new_tracker_def live_in_def tidy_def Let_def)
  show "5 < kBuckets" by (simp add: kBuckets_def)
  show "ops_allowed small_allocator tidy [OpMalloc demo_mt_env 100, OpMalloc demo_mt_env 200, OpRealloc demo_mt_env 16 5000, OpFree demo_mt_env 32]
     (mt_init True True 0 new_tracker, [])"
    by (simp add: wrap_malloc_def wrap_realloc_def wrap_free_def small_allocator_def small_give_def tidy_def um_wf_def)
qed

end
