(* ===== verification/Runtime.thy ===== *)
theory Runtime
  imports Mem_Tracker Application
begin

text \<open>
  What the program runs on: \<open>utils/stack_thread.h\<close> (threads with a stack of their own size),
  \<open>utils/scoped_fd.h\<close> (descriptors that close themselves), and \<open>main_sysmodule.cpp\<close> (the services opened
  at the start, the main loop).
\<close>

section \<open>Threads\<close>

text \<open>
  A payload is what a thread runs, on the heap; payload and thread bear the same number. \<open>m\<close> is the
  build with \<open>STACK_THREAD_MEASURE\<close>, in which the object, not the thread, frees the payload.
\<close>

record stack_thread =
  st_tid :: nat
  st_valid :: bool
  st_payload :: "nat option"

definition no_thread :: stack_thread where
  "no_thread = \<lparr>st_tid = 0, st_valid = False, st_payload = None\<rparr>"

record thread_world =
  tw_next :: nat
  tw_live :: "nat set"
  tw_run :: "nat set"
  tw_joinable :: "nat set"
  tw_objs :: "nat \<Rightarrow> stack_thread option"

definition new_world :: thread_world where
  "new_world = \<lparr>tw_next = 0, tw_live = {}, tw_run = {}, tw_joinable = {}, tw_objs = (\<lambda>_. None)\<rparr>"

text \<open>A failed assertion, a thread joined twice or memory used after it was freed is a fault; \<open>join\<close> may wait.\<close>

datatype 'a st_result = StFault | StWaits | StDone 'a

definition put_obj :: "nat \<Rightarrow> stack_thread \<Rightarrow> thread_world \<Rightarrow> thread_world" where
  "put_obj x t w = w\<lparr>tw_objs := (tw_objs w)(x \<mapsto> t)\<rparr>"

definition st_init :: "bool \<Rightarrow> bool \<Rightarrow> nat \<Rightarrow> thread_world \<Rightarrow> thread_world" where
  "st_init m created x w =
     (let p = tw_next w; w = w\<lparr>tw_next := p + 1, tw_live := insert p (tw_live w)\<rparr>
      in if created then
           put_obj x \<lparr>st_tid = p, st_valid = True, st_payload = (if m then Some p else None)\<rparr>
             (w\<lparr>tw_run := insert p (tw_run w), tw_joinable := insert p (tw_joinable w)\<rparr>)
         else put_obj x no_thread (w\<lparr>tw_live := tw_live w - {p}\<rparr>))"

text \<open>The function of the thread has returned: it is part of the payload, and so is the measured peak.\<close>

definition trampoline_end :: "bool \<Rightarrow> nat \<Rightarrow> thread_world \<Rightarrow> thread_world st_result" where
  "trampoline_end m tid w =
     (if tid \<notin> tw_live w then StFault
      else if m then StDone (w\<lparr>tw_run := tw_run w - {tid}\<rparr>)
      else StDone (w\<lparr>tw_run := tw_run w - {tid}, tw_live := tw_live w - {tid}\<rparr>))"

definition st_join :: "bool \<Rightarrow> nat \<Rightarrow> stack_thread \<Rightarrow> thread_world \<Rightarrow> thread_world st_result" where
  "st_join m x t w =
     (if st_tid t \<notin> tw_joinable w then StFault
      else if st_tid t \<in> tw_run w then StWaits
      else
        (let w = w\<lparr>tw_joinable := tw_joinable w - {st_tid t}\<rparr>; t = t\<lparr>st_valid := False\<rparr>
         in case (if m then st_payload t else None) of
              None \<Rightarrow> StDone (put_obj x t w)
            | Some p \<Rightarrow>
                if p \<notin> tw_live w then StFault
                else StDone (put_obj x (t\<lparr>st_payload := None\<rparr>) (w\<lparr>tw_live := tw_live w - {p}\<rparr>))))"

definition st_detach :: "bool \<Rightarrow> nat \<Rightarrow> stack_thread \<Rightarrow> thread_world \<Rightarrow> thread_world st_result" where
  "st_detach m x t w =
     (if st_tid t \<notin> tw_joinable w then StFault
      else
        (let w = w\<lparr>tw_joinable := tw_joinable w - {st_tid t}\<rparr>; t = t\<lparr>st_valid := False\<rparr>
         in case (if m then st_payload t else None) of
              None \<Rightarrow> StDone (put_obj x t w)
            | Some p \<Rightarrow>
                if p \<notin> tw_live w then StFault
                else StDone (put_obj x (t\<lparr>st_payload := None\<rparr>) (w\<lparr>tw_live := tw_live w - {p}\<rparr>))))"

text \<open>The move constructor leaves the source without its thread; assigning over a thread is a fault.\<close>

definition st_move :: "bool \<Rightarrow> nat \<Rightarrow> nat \<Rightarrow> stack_thread \<Rightarrow> thread_world \<Rightarrow> thread_world" where
  "st_move m x y t w =
     put_obj y t (put_obj x (if m then t\<lparr>st_valid := False, st_payload := None\<rparr> else t\<lparr>st_valid := False\<rparr>) w)"

definition st_assign :: "bool \<Rightarrow> nat \<Rightarrow> stack_thread \<Rightarrow> nat \<Rightarrow> stack_thread \<Rightarrow> thread_world \<Rightarrow> thread_world st_result" where
  "st_assign m x t y u w = (if st_valid u then StFault else StDone (st_move m x y t w))"

definition st_destroy :: "nat \<Rightarrow> stack_thread \<Rightarrow> thread_world \<Rightarrow> thread_world st_result" where
  "st_destroy x t w = (if st_valid t then StFault else StDone (w\<lparr>tw_objs := (tw_objs w)(x := None)\<rparr>))"

section \<open>Every thread has one owner\<close>

datatype st_event =
    StNew nat bool
  | StFinish nat
  | StJoin nat
  | StDetach nat
  | StMove nat nat
  | StAssign nat nat
  | StDestroy nat

fun st_step :: "bool \<Rightarrow> st_event \<Rightarrow> thread_world \<Rightarrow> thread_world st_result" where
  "st_step m (StNew x ok) w = StDone (st_init m ok x w)"
| "st_step m (StFinish tid) w = trampoline_end m tid w"
| "st_step m (StJoin x) w = (case tw_objs w x of None \<Rightarrow> StFault | Some t \<Rightarrow> st_join m x t w)"
| "st_step m (StDetach x) w = (case tw_objs w x of None \<Rightarrow> StFault | Some t \<Rightarrow> st_detach m x t w)"
| "st_step m (StMove x y) w = (case tw_objs w x of None \<Rightarrow> StFault | Some t \<Rightarrow> StDone (st_move m x y t w))"
| "st_step m (StAssign x y) w =
     (case (tw_objs w x, tw_objs w y) of (Some t, Some u) \<Rightarrow> st_assign m x t y u w | _ \<Rightarrow> StFault)"
| "st_step m (StDestroy x) w = (case tw_objs w x of None \<Rightarrow> StFault | Some t \<Rightarrow> st_destroy x t w)"

text \<open>The rules of the class, as its comment states them: join or detach what is joinable, once.\<close>

definition obj_valid :: "nat \<Rightarrow> thread_world \<Rightarrow> bool" where
  "obj_valid x w \<longleftrightarrow> (case tw_objs w x of None \<Rightarrow> False | Some t \<Rightarrow> st_valid t)"

definition obj_idle :: "nat \<Rightarrow> thread_world \<Rightarrow> bool" where
  "obj_idle x w \<longleftrightarrow> (case tw_objs w x of None \<Rightarrow> False | Some t \<Rightarrow> \<not> st_valid t)"

fun st_allowed :: "bool \<Rightarrow> st_event \<Rightarrow> thread_world \<Rightarrow> bool" where
  "st_allowed m (StNew x ok) w \<longleftrightarrow> tw_objs w x = None"
| "st_allowed m (StFinish tid) w \<longleftrightarrow> tid \<in> tw_run w"
| "st_allowed m (StJoin x) w \<longleftrightarrow> obj_valid x w"
| "st_allowed m (StDetach x) w \<longleftrightarrow> obj_valid x w \<and> \<not> m"
| "st_allowed m (StMove x y) w \<longleftrightarrow> tw_objs w x \<noteq> None \<and> tw_objs w y = None"
| "st_allowed m (StAssign x y) w \<longleftrightarrow> tw_objs w x \<noteq> None \<and> obj_idle y w \<and> x \<noteq> y"
| "st_allowed m (StDestroy x) w \<longleftrightarrow> obj_idle x w"

fun st_run :: "bool \<Rightarrow> st_event list \<Rightarrow> thread_world \<Rightarrow> thread_world st_result" where
  "st_run m [] w = StDone w"
| "st_run m (e # es) w =
     (case st_step m e w of StFault \<Rightarrow> StFault | StWaits \<Rightarrow> st_run m es w | StDone w' \<Rightarrow> st_run m es w')"

fun st_follows :: "bool \<Rightarrow> st_event list \<Rightarrow> thread_world \<Rightarrow> bool" where
  "st_follows m [] w = True"
| "st_follows m (e # es) w \<longleftrightarrow>
     st_allowed m e w \<and>
     (case st_step m e w of StFault \<Rightarrow> True | StWaits \<Rightarrow> st_follows m es w | StDone w' \<Rightarrow> st_follows m es w')"

text \<open>
  The joinable threads are those of the valid objects, one each; a payload lives while its thread runs,
  and in the measuring build until the thread is joined.
\<close>

definition owns :: "thread_world \<Rightarrow> nat \<Rightarrow> nat \<Rightarrow> bool" where
  "owns w x p \<longleftrightarrow> (\<exists>t. tw_objs w x = Some t \<and> st_valid t \<and> st_tid t = p)"

definition one_owner :: "nat set \<Rightarrow> (nat \<Rightarrow> nat \<Rightarrow> bool) \<Rightarrow> bool" where
  "one_owner J R \<longleftrightarrow> (\<forall>x p. R x p \<longrightarrow> p \<in> J) \<and> (\<forall>x y p. R x p \<and> R y p \<longrightarrow> x = y) \<and> (\<forall>p \<in> J. \<exists>x. R x p)"

definition owned_once :: "bool \<Rightarrow> thread_world \<Rightarrow> bool" where
  "owned_once m w \<longleftrightarrow>
     one_owner (tw_joinable w) (owns w) \<and>
     (\<forall>x t. tw_objs w x = Some t \<and> st_valid t \<longrightarrow> st_payload t = (if m then Some (st_tid t) else None)) \<and>
     tw_live w = (if m then tw_joinable w else tw_run w) \<and>
     (m \<longrightarrow> tw_run w \<subseteq> tw_joinable w) \<and>
     (\<forall>p \<in> tw_joinable w \<union> tw_run w. p < tw_next w)"

lemma one_owner_new:
  "one_owner J R \<Longrightarrow> p \<notin> J \<Longrightarrow> (\<And>q. \<not> R x q) \<Longrightarrow> one_owner (insert p J) (\<lambda>y q. R y q \<or> y = x \<and> q = p)"
  unfolding one_owner_def by blast

lemma one_owner_end: "one_owner J R \<Longrightarrow> R x p \<Longrightarrow> (\<And>q. R x q \<Longrightarrow> q = p) \<Longrightarrow> one_owner (J - {p}) (\<lambda>y q. R y q \<and> y \<noteq> x)"
  unfolding one_owner_def by blast

lemma one_owner_move:
  assumes "one_owner J R" "\<And>q. \<not> R y q"
  shows "one_owner J (\<lambda>z q. if z = y then R x q else z \<noteq> x \<and> R z q)" (is "one_owner J ?S")
proof -
  have r: "R z p \<Longrightarrow> p \<in> J" "R z p \<Longrightarrow> R z' p \<Longrightarrow> z = z'" "p \<in> J \<Longrightarrow> \<exists>z. R z p" for z z' p
    using assms(1) unfolding one_owner_def by blast+
  have "?S z p \<Longrightarrow> p \<in> J" for z p using r(1) by (cases "z = y") auto
  moreover have "?S z p \<Longrightarrow> ?S z' p \<Longrightarrow> z = z'" for z z' p
    using r(2) [of z p z'] r(2) [of x p z'] r(2) [of z p x] by (cases "z = y"; cases "z' = y") simp_all
  moreover have "\<exists>z. ?S z p" if p: "p \<in> J" for p
  proof -
    obtain z where "R z p" "z \<noteq> y" using r(3) [OF p] assms(2) by blast
    then show ?thesis by (cases "z = x") (auto intro: exI [of _ y] exI [of _ z])
  qed
  ultimately show ?thesis unfolding one_owner_def by blast
qed

lemma owns_put [simp]: "owns (put_obj x t w) = (\<lambda>y p. if y = x then st_valid t \<and> st_tid t = p else owns w y p)"
  by (auto simp: owns_def put_obj_def fun_eq_iff)

lemma owns_update [simp]: "owns (w\<lparr>tw_next := n\<rparr>) = owns w" "owns (w\<lparr>tw_live := l\<rparr>) = owns w"
  "owns (w\<lparr>tw_run := r\<rparr>) = owns w" "owns (w\<lparr>tw_joinable := j\<rparr>) = owns w"
  by (simp_all add: owns_def fun_eq_iff)

lemma put_simps [simp]:
  "tw_next (put_obj x t w) = tw_next w" "tw_live (put_obj x t w) = tw_live w" "tw_run (put_obj x t w) = tw_run w"
  "tw_joinable (put_obj x t w) = tw_joinable w" "tw_objs (put_obj x t w) = (tw_objs w)(x \<mapsto> t)"
  by (simp_all add: put_obj_def)

lemma owned_once_new:
  assumes "owned_once m w" "tw_objs w x = None"
  shows "owned_once m (st_init m ok x w)"
proof -
  have fresh: "tw_next w \<notin> tw_joinable w" "tw_next w \<notin> tw_run w" using assms(1) by (auto simp: owned_once_def)
  have none: "\<not> owns w x q" for q using assms(2) by (simp add: owns_def)
  have "one_owner (insert (tw_next w) (tw_joinable w)) (\<lambda>y q. owns w y q \<or> y = x \<and> q = tw_next w)"
    by (rule one_owner_new [where R = "owns w" and x = x, OF _ fresh(1) none]) (use assms(1) in \<open>simp add: owned_once_def\<close>)
  moreover have "owns (st_init m ok x w) = (if ok then (\<lambda>y q. owns w y q \<or> y = x \<and> q = tw_next w) else owns w)"
    using none by (auto simp: st_init_def no_thread_def fun_eq_iff Let_def)
  moreover have "tw_joinable (st_init m ok x w) = (if ok then insert (tw_next w) (tw_joinable w) else tw_joinable w)"
    by (simp add: st_init_def Let_def)
  ultimately have owner: "one_owner (tw_joinable (st_init m ok x w)) (owns (st_init m ok x w))"
    using assms(1) by (simp add: owned_once_def)
  have "tw_live w - {tw_next w} = tw_live w" using assms(1) fresh by (auto simp: owned_once_def)
  then have sets: "tw_live (st_init m ok x w) = (if m then tw_joinable (st_init m ok x w) else tw_run (st_init m ok x w))"
      "m \<longrightarrow> tw_run (st_init m ok x w) \<subseteq> tw_joinable (st_init m ok x w)"
      "\<forall>p \<in> tw_joinable (st_init m ok x w) \<union> tw_run (st_init m ok x w). p < tw_next (st_init m ok x w)"
    using assms(1) by (cases ok; auto simp: st_init_def owned_once_def Let_def insert_Diff_if less_Suc_eq)+
  have "\<forall>y t. tw_objs (st_init m ok x w) y = Some t \<and> st_valid t \<longrightarrow> st_payload t = (if m then Some (st_tid t) else None)"
    using assms(1) by (cases ok; cases m) (auto simp: st_init_def owned_once_def no_thread_def Let_def)
  then show ?thesis using owner sets unfolding owned_once_def by blast
qed

text \<open>Joining and detaching end the ownership in the same way.\<close>

lemma owned_once_end:
  assumes "owned_once m w" "tw_objs w x = Some t" "st_valid t" "m \<longrightarrow> st_tid t \<notin> tw_run w"
  shows "owned_once m (put_obj x (t\<lparr>st_valid := False, st_payload := None\<rparr>)
           (w\<lparr>tw_joinable := tw_joinable w - {st_tid t}, tw_live := if m then tw_live w - {st_tid t} else tw_live w\<rparr>))"
proof -
  have "owns w x (st_tid t)" "\<And>q. owns w x q \<Longrightarrow> q = st_tid t" using assms(2,3) by (auto simp: owns_def)
  from one_owner_end [where R = "owns w" and x = x, OF _ this] have "one_owner (tw_joinable w - {st_tid t}) (\<lambda>y q. owns w y q \<and> y \<noteq> x)"
    using assms(1) by (simp add: owned_once_def)
  then have "one_owner (tw_joinable w - {st_tid t}) (\<lambda>y q. y \<noteq> x \<and> owns w y q)" by (simp add: conj_commute)
  then show ?thesis using assms(1,4) by (cases m) (auto simp: owned_once_def cong: conj_cong)
qed

lemma valid_is_joinable:
  assumes "owned_once m w" "tw_objs w x = Some t" "st_valid t"
  shows "st_tid t \<in> tw_joinable w" "m \<Longrightarrow> st_tid t \<in> tw_live w" "st_payload t = (if m then Some (st_tid t) else None)"
proof -
  have "owns w x (st_tid t)" using assms(2,3) by (auto simp: owns_def)
  then show "st_tid t \<in> tw_joinable w" using assms(1) by (auto simp: owned_once_def one_owner_def)
  then show "m \<Longrightarrow> st_tid t \<in> tw_live w" "st_payload t = (if m then Some (st_tid t) else None)"
    using assms by (auto simp: owned_once_def)
qed

lemma owned_once_move:
  assumes "owned_once m w" "tw_objs w x = Some t" "x \<noteq> y" "\<And>q. \<not> owns w y q"
  shows "owned_once m (st_move m x y t w)"
proof -
  have "one_owner (tw_joinable w) (\<lambda>z q. if z = y then owns w x q else z \<noteq> x \<and> owns w z q)"
    by (rule one_owner_move [where R = "owns w" and y = y, OF _ assms(4)]) (use assms(1) in \<open>simp add: owned_once_def\<close>)
  moreover have "owns (st_move m x y t w) = (\<lambda>z q. if z = y then owns w x q else z \<noteq> x \<and> owns w z q)"
    using assms(2,3) by (auto simp: st_move_def fun_eq_iff) (auto simp: owns_def)
  ultimately show ?thesis using assms(1,2) by (auto simp: owned_once_def st_move_def)
qed

lemma owned_once_finish:
  assumes "owned_once m w" "p \<in> tw_run w"
  shows "\<exists>w'. trampoline_end m p w = StDone w' \<and> owned_once m w'"
  using assms by (cases m) (auto simp: owned_once_def trampoline_end_def)

lemma owned_once_join:
  assumes "owned_once m w" "tw_objs w x = Some t" "st_valid t"
  shows "st_join m x t w \<noteq> StFault \<and> (\<forall>w'. st_join m x t w = StDone w' \<longrightarrow> owned_once m w')"
    "\<not> m \<Longrightarrow> \<exists>w'. st_detach m x t w = StDone w' \<and> owned_once m w'"
proof -
  note t = valid_is_joinable [OF assms]
  have same: "\<not> m \<Longrightarrow> t\<lparr>st_valid := False, st_payload := None\<rparr> = t\<lparr>st_valid := False\<rparr>" using t(3) by simp
  show "st_join m x t w \<noteq> StFault \<and> (\<forall>w'. st_join m x t w = StDone w' \<longrightarrow> owned_once m w')"
    using t owned_once_end [OF assms] same by (cases m) (auto simp: st_join_def Let_def split: if_splits)
  show "\<exists>w'. st_detach m x t w = StDone w' \<and> owned_once m w'" if "\<not> m"
    using t(1) owned_once_end [OF assms] same that by (auto simp: st_detach_def Let_def)
qed

lemma owned_once_destroy:
  assumes "owned_once m w" "tw_objs w x = Some t" "\<not> st_valid t"
  shows "owned_once m (w\<lparr>tw_objs := (tw_objs w)(x := None)\<rparr>)"
proof -
  have "owns (w\<lparr>tw_objs := (tw_objs w)(x := None)\<rparr>) = owns w"
    using assms(2,3) by (auto simp: owns_def fun_eq_iff)
  then show ?thesis using assms(1) by (auto simp: owned_once_def)
qed

lemma step_owned:
  assumes "owned_once m w" "st_allowed m e w"
  shows "st_step m e w \<noteq> StFault \<and> (\<forall>w'. st_step m e w = StDone w' \<longrightarrow> owned_once m w')"
proof (cases e)
  case (StNew x ok)
  then show ?thesis using owned_once_new assms by simp
next
  case (StFinish p)
  then show ?thesis using owned_once_finish assms by fastforce
next
  case (StJoin x)
  then obtain t where "tw_objs w x = Some t" "st_valid t" using assms(2) by (auto simp: obj_valid_def split: option.splits)
  then show ?thesis using owned_once_join(1) [OF assms(1)] StJoin by simp
next
  case (StDetach x)
  then obtain t where "tw_objs w x = Some t" "st_valid t" "\<not> m" using assms(2) by (auto simp: obj_valid_def split: option.splits)
  then show ?thesis using owned_once_join(2) [OF assms(1)] StDetach by fastforce
next
  case (StMove x y)
  then obtain t where t: "tw_objs w x = Some t" "tw_objs w y = None" using assms(2) by auto
  then have "x \<noteq> y" "\<And>q. \<not> owns w y q" by (auto simp: owns_def)
  then show ?thesis using owned_once_move [OF assms(1) t(1)] t StMove by simp
next
  case (StAssign x y)
  then obtain t u where t: "tw_objs w x = Some t" "tw_objs w y = Some u" "\<not> st_valid u" "x \<noteq> y"
    using assms(2) by (auto simp: obj_idle_def split: option.splits)
  then have "\<And>q. \<not> owns w y q" by (auto simp: owns_def)
  then show ?thesis using owned_once_move [OF assms(1) t(1,4)] t StAssign by (simp add: st_assign_def)
next
  case (StDestroy x)
  then obtain t where "tw_objs w x = Some t" "\<not> st_valid t" using assms(2) by (auto simp: obj_idle_def split: option.splits)
  then show ?thesis using owned_once_destroy [OF assms(1)] StDestroy by (simp add: st_destroy_def)
qed

text \<open>
  Threads have one owner. A program that joins or detaches what is joinable, assigns only over objects
  without a thread and destroys only those never fails an assertion, waits for no thread twice and uses
  no payload after it was freed; a payload is alive exactly while its thread runs (or, in the measuring
  build, without detaching, until it is joined), and every joinable thread belongs to exactly one object.
\<close>

theorem threads_are_owned_once:
  assumes "st_follows m es new_world"
  shows "\<exists>w. st_run m es new_world = StDone w \<and> tw_live w = (if m then tw_joinable w else tw_run w) \<and>
    (\<forall>p \<in> tw_joinable w. \<exists>!x. owns w x p)"
proof -
  have run: "\<exists>w'. st_run m es w = StDone w' \<and> owned_once m w'" if "owned_once m w" "st_follows m es w" for w
    using that
  proof (induction es arbitrary: w)
    case (Cons e es)
    have "st_step m e w \<noteq> StFault" "\<And>w'. st_step m e w = StDone w' \<Longrightarrow> owned_once m w'"
      using step_owned [OF Cons.prems(1), of e] Cons.prems(2) by auto
    then show ?case using Cons by (cases "st_step m e w") auto
  qed simp
  have "owned_once m new_world" by (simp add: owned_once_def new_world_def one_owner_def owns_def)
  from run [OF this assms] obtain w where w: "st_run m es new_world = StDone w" "owned_once m w" by blast
  have "\<exists>!x. owns w x p" if "p \<in> tw_joinable w" for p
    using w(2) that unfolding owned_once_def one_owner_def by blast
  then show ?thesis using w by (auto simp: owned_once_def)
qed

theorem threads_are_owned_once_witness:
  "\<exists>w. st_run False [StNew 0 True, StMove 0 1, StJoin 1, StFinish 0, StJoin 1, StNew 2 True, StAssign 2 1, StDetach 1] new_world = StDone w \<and>
    tw_live w = {1} \<and> tw_joinable w = {}"
proof -
  define es where "es = [StNew 0 True, StMove 0 1, StJoin 1, StFinish 0, StJoin 1, StNew 2 True, StAssign 2 1, StDetach 1]"
  note defs = new_world_def put_obj_def st_init_def st_move_def st_join_def st_assign_def st_detach_def trampoline_end_def Let_def
  have "st_follows False es new_world" by (simp add: es_def defs obj_valid_def obj_idle_def)
  from threads_are_owned_once [OF this] obtain w where w: "st_run False es new_world = StDone w" "tw_live w = tw_run w" by auto
  have "tw_run w = {1}" "tw_joinable w = {}" using w(1) unfolding es_def by (simp add: defs, fastforce)+
  then show ?thesis using w unfolding es_def by blast
qed

text \<open>In the measuring build \<open>detach\<close> frees the payload of a thread that still runs it.\<close>

lemma detach_frees_running: "st_run True [StNew 0 True, StDetach 0, StFinish 0] new_world = StFault"
  by (simp add: new_world_def put_obj_def st_init_def st_detach_def trampoline_end_def Let_def)

section \<open>Descriptors\<close>

text \<open>\<open>raw\<close> of an object, and the descriptors that are open.\<close>

definition fd_valid :: "int \<Rightarrow> bool" where
  "fd_valid raw \<longleftrightarrow> 0 \<le> raw"

definition fd_destroy :: "int \<Rightarrow> int list \<Rightarrow> int list" where
  "fd_destroy raw opened = (if 0 \<le> raw then remove1 raw opened else opened)"

definition fd_move :: "int \<Rightarrow> int \<times> int" where
  "fd_move raw = (raw, -1)"

definition fd_release :: "int \<Rightarrow> int \<times> int" where
  "fd_release raw = (raw, -1)"

text \<open>A descriptor is closed once: by the object it was moved to, or by whom it was released to.\<close>

lemma fd_closed_once:
  "fd_move raw = (y, x) \<Longrightarrow> fd_destroy x (fd_destroy y opened) = fd_destroy raw opened"
  "fd_release raw = (r, x) \<Longrightarrow> r = raw \<and> fd_destroy x opened = opened"
  by (auto simp: fd_move_def fd_release_def fd_destroy_def)

section \<open>The system module's start\<close>

datatype os_service = Sm | Setsys | Time | Fs | Sdmc | Bsd | Nifm

record boot =
  bo_open :: "os_service list"
  bo_version_set :: bool
  bo_time_set :: bool

text \<open>Which services open, whether the version is known already and can be asked for; a fatal error ends the
process. The services for the version and the clock are closed again at once.\<close>

record boot_env =
  be_opens :: "os_service \<Rightarrow> bool"
  be_version_known :: bool
  be_firmware :: bool

definition app_init :: "boot_env \<Rightarrow> boot option" where
  "app_init e =
     (if \<not> be_opens e Sm then None
      else
        (let b = \<lparr>bo_open = [Sm], bo_version_set = be_version_known e, bo_time_set = False\<rparr>;
             b = (if \<not> be_version_known e \<and> be_opens e Setsys then b\<lparr>bo_version_set := be_firmware e\<rparr> else b);
             b = (if be_opens e Time then b\<lparr>bo_time_set := True\<rparr> else b)
         in if \<not> be_opens e Fs then None
            else if \<not> be_opens e Sdmc then None
            else if \<not> be_opens e Bsd then None
            else if \<not> be_opens e Nifm then None
            else Some (b\<lparr>bo_open := [Nifm, Bsd, Sdmc, Fs] @ bo_open b\<rparr>)))"

definition app_exit :: "boot \<Rightarrow> boot" where
  "app_exit b = b\<lparr>bo_open := fold removeAll [Nifm, Bsd, Sdmc, Fs, Sm] (bo_open b)\<rparr>"

lemma boot_is_balanced:
  "app_init e = Some b \<Longrightarrow> bo_open (app_exit b) = []"
  by (auto simp: app_init_def app_exit_def Let_def split: if_splits)

text \<open>The frames a terminating process logs.\<close>

definition log_backtrace :: "(u64 \<Rightarrow> u64 \<times> u64) \<Rightarrow> u64 \<Rightarrow> u64 list" where
  "log_backtrace mem fp = bt_loop 16 mem fp"

text \<open>The two lines that are logged when the clock could not be set, and the loop of \<open>main\<close>.\<close>

definition start_log :: "boot \<Rightarrow> string list" where
  "start_log b =
     (if bo_time_set b then []
      else [''Could not connect to time:u service. You likely have too many sysmodules active that connect to time services.'',
            ''No time set. Device pairing will not work due to clock skew!''])"

definition main_loop ::
    "yyjson \<Rightarrow> ('crt, 'key) mbedtls \<Rightarrow> 'fs nxfs \<Rightarrow> app_env list \<Rightarrow> ('fs, 'crt, 'key) nx_application \<Rightarrow> ('fs, 'crt, 'key) nx_application" where
  "main_loop Y M F es a = fold (process_events Y M F) es a"

end
