(* ===== verification/Strtod_Stub.thy ===== *)
theory Strtod_Stub
  imports Prelude Complex_Main
begin

text \<open>
  \<open>sysmodule/src/utils/strtod_stub.c\<close>: the replacement of \<open>strtod\<close> the JSON library reads its real numbers
  with. The machine's arithmetic of \<open>double\<close> is the argument \<open>F\<close>; \<open>exact\<close> is that of the rational
  numbers, without rounding. A text ends with its NUL byte, the end of the list. An overflow of the
  exponent, an \<open>int\<close>, is undefined (\<^const>\<open>None\<close>).
\<close>

section \<open>The function\<close>

record 'd fp =
  fp_digit :: "nat \<Rightarrow> 'd"
  fp_add :: "'d \<Rightarrow> 'd \<Rightarrow> 'd"
  fp_mul :: "'d \<Rightarrow> 'd \<Rightarrow> 'd"
  fp_div :: "'d \<Rightarrow> 'd \<Rightarrow> 'd"
  fp_tenth :: 'd
  fp_ten :: 'd
  fp_minus_one :: 'd

definition is_blank :: "char \<Rightarrow> bool" where
  "is_blank c \<longleftrightarrow> c = CHR '' '' \<or> c = CHR 0x09 \<or> c = CHR 0x0A \<or> c = CHR 0x0D"

text \<open>A sign in front: whether it is a minus, and what follows.\<close>

definition take_sign :: "string \<Rightarrow> bool \<times> string" where
  "take_sign s = (case s of c # t \<Rightarrow> if c = CHR ''-'' then (True, t) else if c = CHR ''+'' then (False, t) else (False, s) | [] \<Rightarrow> (False, s))"

fun int_digits :: "'d fp \<Rightarrow> 'd \<Rightarrow> string \<Rightarrow> 'd \<times> string" where
  "int_digits F val [] = (val, [])"
| "int_digits F val (c # p) =
     (if is_digit c then int_digits F (fp_add F (fp_mul F val (fp_ten F)) (fp_digit F (digit_val c))) p else (val, c # p))"

fun frac_digits :: "'d fp \<Rightarrow> 'd \<Rightarrow> 'd \<Rightarrow> string \<Rightarrow> 'd \<times> string" where
  "frac_digits F val place [] = (val, [])"
| "frac_digits F val place (c # p) =
     (if is_digit c
      then frac_digits F (fp_add F val (fp_mul F (fp_digit F (digit_val c)) place)) (fp_mul F place (fp_tenth F)) p
      else (val, c # p))"

fun exp_digits :: "int \<Rightarrow> string \<Rightarrow> (int \<times> string) option" where
  "exp_digits e [] = Some (e, [])"
| "exp_digits e (c # p) =
     (if is_digit c
      then (if e * 10 + int (digit_val c) < 2 ^ 31 then exp_digits (e * 10 + int (digit_val c)) p else None)
      else Some (e, c # p))"

definition fp_pow10 :: "'d fp \<Rightarrow> nat \<Rightarrow> 'd" where
  "fp_pow10 F n = ((\<lambda>x. fp_mul F x (fp_ten F)) ^^ n) (fp_digit F 1)"

definition scale_exp :: "'d fp \<Rightarrow> 'd \<Rightarrow> string \<Rightarrow> ('d \<times> string) option" where
  "scale_exp F val p =
     (case p of
        c # q \<Rightarrow>
          if c = CHR ''e'' \<or> c = CHR ''E'' then
            (case take_sign q of
               (neg, r) \<Rightarrow>
                 (case exp_digits 0 r of
                    None \<Rightarrow> None
                  | Some (e, rest) \<Rightarrow>
                      (let pow10 = fp_pow10 F (nat (if 308 < e then 308 else e))
                       in Some (if neg then fp_div F val pow10 else fp_mul F val pow10, rest))))
          else Some (val, p)
      | [] \<Rightarrow> Some (val, p))"

text \<open>The value, and how many bytes of the text were read.\<close>

definition strtod_stub :: "'d fp \<Rightarrow> string \<Rightarrow> ('d \<times> nat) option" where
  "strtod_stub F s =
     (case take_sign (dropWhile is_blank s) of
        (neg, p) \<Rightarrow>
          (case int_digits F (fp_digit F 0) p of
             (val, p) \<Rightarrow>
               (case (case p of c # q \<Rightarrow> if c = CHR ''.'' then frac_digits F val (fp_tenth F) q else (val, p) | [] \<Rightarrow> (val, p)) of
                  (val, p) \<Rightarrow>
                    (case scale_exp F val p of
                       None \<Rightarrow> None
                     | Some (val, rest) \<Rightarrow>
                         Some (fp_mul F (if neg then fp_minus_one F else fp_digit F 1) val, length s - length rest)))))"

section \<open>The numbers of JSON\<close>

definition exact :: "rat fp" where
  "exact = \<lparr>fp_digit = of_nat, fp_add = (+), fp_mul = (*), fp_div = (/), fp_tenth = 1 / 10, fp_ten = 10, fp_minus_one = -1\<rparr>"

text \<open>A numeral: a sign, digits, digits after a point if any, an exponent if any with its sign.\<close>

record numeral =
  nm_neg :: bool
  nm_int :: string
  nm_frac :: "string option"
  nm_exp :: "(string \<times> string) option"

definition numeral_text :: "numeral \<Rightarrow> string" where
  "numeral_text n =
     (if nm_neg n then ''-'' else []) @ nm_int n @ (case nm_frac n of None \<Rightarrow> [] | Some f \<Rightarrow> ''.'' @ f) @
     (case nm_exp n of None \<Rightarrow> [] | Some (s, e) \<Rightarrow> ''e'' @ s @ e)"

definition numeral_ok :: "numeral \<Rightarrow> bool" where
  "numeral_ok n \<longleftrightarrow>
     nm_int n \<noteq> [] \<and> list_all is_digit (nm_int n) \<and> (\<forall>f. nm_frac n = Some f \<longrightarrow> list_all is_digit f) \<and>
     (\<forall>s e. nm_exp n = Some (s, e) \<longrightarrow> s \<in> {[], ''+'', ''-''} \<and> e \<noteq> [] \<and> list_all is_digit e \<and> digits_val e < 2 ^ 31)"

definition mantissa :: "numeral \<Rightarrow> rat" where
  "mantissa n =
     of_nat (digits_val (nm_int n)) +
     (case nm_frac n of None \<Rightarrow> 0 | Some f \<Rightarrow> of_nat (digits_val f) / 10 ^ length f)"

definition decimal_exp :: "numeral \<Rightarrow> int" where
  "decimal_exp n = (case nm_exp n of None \<Rightarrow> 0 | Some (s, e) \<Rightarrow> if s = ''-'' then - int (digits_val e) else int (digits_val e))"

definition numeral_value :: "numeral \<Rightarrow> rat" where
  "numeral_value n = (if nm_neg n then -1 else 1) * mantissa n * 10 powi decimal_exp n"

text \<open>What may follow a numeral in a JSON text: nothing that a numeral could go on with.\<close>

definition ends_numeral :: "string \<Rightarrow> bool" where
  "ends_numeral r \<longleftrightarrow> (\<forall>c t. r = c # t \<longrightarrow> \<not> is_digit c \<and> c \<notin> {CHR ''.'', CHR ''e'', CHR ''E''})"

section \<open>Exact arithmetic reads the number\<close>

definition no_digit :: "string \<Rightarrow> bool" where
  "no_digit r \<longleftrightarrow> (\<forall>c t. r = c # t \<longrightarrow> \<not> is_digit c)"

lemma digits_from: "foldl (\<lambda>n c. n * 10 + digit_val c) k ds = k * 10 ^ length ds + digits_val ds"
proof (induction ds arbitrary: k)
  case (Cons d ds)
  show ?case
    using Cons.IH [of "k * 10 + digit_val d"] Cons.IH [of "digit_val d"] by (simp add: digits_val_def algebra_simps)
qed (simp add: digits_val_def)

lemma digits_val_Cons: "digits_val (d # ds) = digit_val d * 10 ^ length ds + digits_val ds"
  using digits_from [of "digit_val d" ds] by (simp add: digits_val_def)

lemma int_digits_exact:
  assumes "list_all is_digit ds" "no_digit r"
  shows "int_digits exact v (ds @ r) = (v * 10 ^ length ds + of_nat (digits_val ds), r)"
  using assms(1)
proof (induction ds arbitrary: v)
  case Nil
  then show ?case using assms(2) by (cases r) (auto simp: no_digit_def digits_val_def)
next
  case (Cons d ds)
  then show ?case by (simp add: digits_val_Cons exact_def algebra_simps)
qed

lemma frac_digits_exact:
  assumes "list_all is_digit ds" "no_digit r"
  shows "frac_digits exact v place (ds @ r) = (v + place * 10 * (of_nat (digits_val ds) / 10 ^ length ds), r)"
  using assms(1)
proof (induction ds arbitrary: v place)
  case Nil
  then show ?case using assms(2) by (cases r) (auto simp: no_digit_def digits_val_def)
next
  case (Cons d ds)
  then show ?case by (simp add: digits_val_Cons exact_def field_simps)
qed

text \<open>The exponent is read as long as it is an \<open>int\<close>.\<close>

lemma exp_digits_read:
  assumes "list_all is_digit ds" "no_digit r" "0 \<le> e"
  shows "exp_digits e (ds @ r) =
    (if e * 10 ^ length ds + int (digits_val ds) < 2 ^ 31 \<or> ds = [] then Some (e * 10 ^ length ds + int (digits_val ds), r) else None)"
  using assms(1,3)
proof (induction ds arbitrary: e)
  case Nil
  then show ?case using assms(2) by (cases r) (auto simp: no_digit_def digits_val_def)
next
  case (Cons d ds)
  let ?e = "e * 10 + int (digit_val d)"
  have all: "?e * 10 ^ length ds + int (digits_val ds) = e * 10 ^ length (d # ds) + int (digits_val (d # ds))"
    by (simp add: digits_val_Cons algebra_simps)
  have "1 \<le> (10 :: int) ^ length ds" by simp
  then have "?e \<le> ?e * 10 ^ length ds" using Cons.prems(2) mult_left_mono [of 1 "10 ^ length ds" ?e] by simp
  then have "?e \<le> ?e * 10 ^ length ds + int (digits_val ds)" by linarith
  moreover have "digits_val [] = 0" by (simp add: digits_val_def)
  ultimately show ?case
    using Cons.IH [of ?e] Cons.prems all by (cases ds) (auto simp: Let_def)
qed

lemma pow10_exact: "fp_pow10 exact n = 10 ^ n"
  by (induction n) (simp_all add: fp_pow10_def exact_def)

lemma digit_no_sign: "is_digit c \<Longrightarrow> c \<noteq> CHR ''-'' \<and> c \<noteq> CHR ''+'' \<and> \<not> is_blank c"
  by (auto simp: is_digit_def is_blank_def)

lemma take_sign_digits:
  assumes "list_all is_digit ds" "s \<in> {[], ''+'', ''-''}" "ds \<noteq> []"
  shows "take_sign (s @ ds @ r) = (s = ''-'', ds @ r)"
  using assms digit_no_sign by (cases ds) (auto simp: take_sign_def)

definition clipped :: "int \<Rightarrow> int" where
  "clipped e = max (- 308) (min 308 e)"

definition exp_text :: "(string \<times> string) option \<Rightarrow> string" where
  "exp_text x = (case x of None \<Rightarrow> [] | Some (s, e) \<Rightarrow> ''e'' @ s @ e)"

definition exp_value :: "(string \<times> string) option \<Rightarrow> int" where
  "exp_value x = (case x of None \<Rightarrow> 0 | Some (s, e) \<Rightarrow> if s = ''-'' then - int (digits_val e) else int (digits_val e))"

lemma scale_exp_exact:
  assumes "\<forall>s e. x = Some (s, e) \<longrightarrow> s \<in> {[], ''+'', ''-''} \<and> e \<noteq> [] \<and> list_all is_digit e \<and> digits_val e < 2 ^ 31"
    and "ends_numeral r"
  shows "scale_exp exact v (exp_text x @ r) = Some (v * 10 powi clipped (exp_value x), r)"
proof (cases x)
  case None
  then show ?thesis
    using assms(2) by (cases r) (auto simp: scale_exp_def exp_text_def exp_value_def clipped_def ends_numeral_def)
next
  case (Some p)
  obtain s e where p: "p = (s, e)" by (cases p)
  have ok: "s \<in> {[], ''+'', ''-''}" "e \<noteq> []" "list_all is_digit e" "digits_val e < 2 ^ 31"
    using assms(1) Some p by blast+
  have "no_digit r" using assms(2) by (auto simp: no_digit_def ends_numeral_def)
  from exp_digits_read [OF ok(3) this, of 0] have e: "exp_digits 0 (e @ r) = Some (int (digits_val e), r)"
    using ok(4) of_nat_less_iff [of "digits_val e" "2 ^ 31", where 'a = int] by simp
  have pow: "fp_pow10 exact (nat (if 308 < int (digits_val e) then 308 else int (digits_val e))) = 10 powi min 308 (int (digits_val e))"
    by (simp add: pow10_exact power_int_def min_def)
  have "scale_exp exact v (exp_text x @ r) =
      Some (if s = ''-'' then v / 10 powi min 308 (int (digits_val e)) else v * 10 powi min 308 (int (digits_val e)), r)"
    unfolding Some p exp_text_def scale_exp_def using take_sign_digits [OF ok(3,1,2), of r] e pow
    by (simp add: exact_def Let_def split: if_splits)
  moreover have "clipped (- int (digits_val e)) = - min 308 (int (digits_val e))"
      "clipped (int (digits_val e)) = min 308 (int (digits_val e))" by (simp_all add: clipped_def)
  ultimately show ?thesis by (simp add: Some p exp_value_def power_int_minus divide_inverse)
qed

text \<open>
  With exact arithmetic the stub reads the numbers of JSON: for a numeral with an exponent that is an
  \<open>int\<close>, followed by anything that does not go on with it, it returns the number, with the exponent
  limited to 308 on both sides, and has read exactly the numeral.
\<close>

theorem strtod_reads_numeral:
  assumes "numeral_ok n" "ends_numeral r"
  shows "strtod_stub exact (numeral_text n @ r) =
      Some ((if nm_neg n then -1 else 1) * mantissa n * 10 powi clipped (decimal_exp n), length (numeral_text n))
    \<and> (\<bar>decimal_exp n\<bar> \<le> 308 \<longrightarrow> (if nm_neg n then -1 else 1) * mantissa n * 10 powi clipped (decimal_exp n) = numeral_value n)"
proof -
  let ?x = "exp_text (nm_exp n) @ r"
  let ?f = "case nm_frac n of None \<Rightarrow> [] | Some f \<Rightarrow> ''.'' @ f"
  have ints: "nm_int n \<noteq> []" "list_all is_digit (nm_int n)" using assms(1) by (simp_all add: numeral_ok_def)
  have nd: "no_digit ?x" "no_digit (?f @ ?x)"
    using assms(2) by (auto simp: no_digit_def ends_numeral_def exp_text_def is_digit_def split: option.splits)
  have rest: "numeral_text n @ r = (if nm_neg n then ''-'' else []) @ nm_int n @ ?f @ ?x"
    by (simp add: numeral_text_def exp_text_def)
  have "take_sign ((if nm_neg n then ''-'' else []) @ nm_int n @ ?f @ ?x) = (nm_neg n, nm_int n @ ?f @ ?x)"
    using take_sign_digits [OF ints(2) _ ints(1), of "if nm_neg n then ''-'' else []"] by (simp split: if_splits)
  moreover have "dropWhile is_blank (numeral_text n @ r) = numeral_text n @ r"
    using ints digit_no_sign unfolding rest by (cases "nm_int n") (auto simp: is_blank_def)
  ultimately have sign: "take_sign (dropWhile is_blank (numeral_text n @ r)) = (nm_neg n, nm_int n @ ?f @ ?x)"
    using rest by simp
  have ints': "int_digits exact (fp_digit exact 0) (nm_int n @ ?f @ ?x) = (of_nat (digits_val (nm_int n)), ?f @ ?x)"
    using int_digits_exact [OF ints(2) nd(2), of 0] by (simp add: exact_def)
  have "exp_text (nm_exp n) @ r \<noteq> CHR ''.'' # q" for q
    using assms(2) by (auto simp: exp_text_def ends_numeral_def split: option.splits)
  then have frac: "(case ?f @ ?x of c # q \<Rightarrow> if c = CHR ''.'' then frac_digits exact (of_nat (digits_val (nm_int n))) (fp_tenth exact) q
        else (of_nat (digits_val (nm_int n)), ?f @ ?x) | [] \<Rightarrow> (of_nat (digits_val (nm_int n)), ?f @ ?x)) = (mantissa n, ?x)"
  proof (cases "nm_frac n")
    case None
    then show ?thesis using \<open>\<And>q. ?x \<noteq> CHR ''.'' # q\<close> by (auto simp: mantissa_def split: list.splits)
  next
    case (Some f)
    then have "list_all is_digit f" using assms(1) by (simp add: numeral_ok_def)
    from frac_digits_exact [OF this nd(1)] show ?thesis using Some by (simp add: mantissa_def exact_def)
  qed
  have "scale_exp exact (mantissa n) ?x = Some (mantissa n * 10 powi clipped (exp_value (nm_exp n)), r)"
    by (rule scale_exp_exact [OF _ assms(2)]) (use assms(1) in \<open>simp add: numeral_ok_def\<close>)
  moreover have "exp_value (nm_exp n) = decimal_exp n" by (simp add: exp_value_def decimal_exp_def)
  ultimately have "strtod_stub exact (numeral_text n @ r) =
      Some ((if nm_neg n then -1 else 1) * (mantissa n * 10 powi clipped (decimal_exp n)), length (numeral_text n))"
    unfolding strtod_stub_def sign prod.case ints' frac by (simp add: exact_def)
  then show ?thesis by (auto simp: numeral_value_def clipped_def)
qed

theorem strtod_reads_numeral_witness:
  "strtod_stub exact ''-12.50e3,'' = Some (- 12500, 8)"
proof -
  let ?n = "\<lparr>nm_neg = True, nm_int = ''12'', nm_frac = Some ''50'', nm_exp = Some ([], ''3'')\<rparr>"
  have "numeral_ok ?n" "ends_numeral '',''"
    by (auto simp: numeral_ok_def ends_numeral_def is_digit_def digits_val_def digit_val_def)
  from strtod_reads_numeral [OF this] show ?thesis
    by (simp add: numeral_text_def mantissa_def decimal_exp_def clipped_def digits_val_def digit_val_def)
qed

text \<open>An exponent that is no \<open>int\<close> overflows, whatever the arithmetic.\<close>

lemma long_exponent_overflows:
  assumes "list_all is_digit e" "2 ^ 31 \<le> digits_val e" "no_digit r"
  shows "scale_exp F v (''e'' @ e @ r) = None"
proof -
  have "e \<noteq> []" using assms(2) by (auto simp: digits_val_def)
  then have "take_sign ([] @ e @ r) = (False, e @ r)" using take_sign_digits [OF assms(1), of "[]"] by simp
  moreover have "\<not> int (digits_val e) < 2 ^ 31" using assms(2) of_nat_le_iff [of "2 ^ 31" "digits_val e", where 'a = int] by simp
  ultimately show ?thesis
    using exp_digits_read [OF assms(1,3), of 0] \<open>e \<noteq> []\<close> by (simp add: scale_exp_def)
qed

end
