(* ===== verification/Spec2Isabelle.thy ===== *)
theory Spec2Isabelle
  imports Json_Ownership Pairing_Protocol Mdns_Loop Mdns_Browse Plugin_Commands_Props Plugin_Safety Overlay_Main
    Logging Runtime Strtod_Stub
begin

text \<open>
  A model of kdeconnect-nx, the KDE Connect client for the Nintendo Switch: a system module
  (\<open>src/sysmodule\<close>) that pairs with phones and computers over TLS, exchanges JSON packets with them
  through plugins, and is driven by an overlay over the console's IPC. The Switch build is modelled
  (\<open>__SWITCH__\<close> defined, no debug switches).

  \<^bold>\<open>Parts and theories.\<close> Below \<open>net/\<close>, \<open>plugins/\<close>, \<open>utils/\<close>, \<open>ipc/\<close> are directories of
  \<open>src/sysmodule/src\<close>.

  \<^item> \<open>Prelude\<close>, \<open>Interfaces\<close>: library functions of C and C++ the sources use, hash maps as
    association lists in iteration order (\<open>umap\<close>), the locales (field store, paired store, bounded
    store, chunked transfer, reference count, fixed codec). Each locale is interpreted where its
    provider is.
  \<^item> \<open>Json_Value\<close>, \<open>Json_Body\<close>, \<open>Json_Reference\<close>: \<open>net/json_body.cpp\<close> on the value its root points to.
    yyjson is the record \<open>yyjson\<close>, its documented behaviour \<open>yyjson_ok\<close>, and \<open>yy_ref\<close> a verified
    printer and parser that shows the hypotheses can hold. \<open>Json_Ownership\<close>: which body owns which
    document, through construction, copies, moves, assignments and destruction.
  \<^item> \<open>Network_Packet\<close>, \<open>Network_Util\<close>: \<open>net/network_packet.cpp\<close>, \<open>utils/network_util.cpp\<close>; sockets are
    lists of call results.
  \<^item> \<open>Storage\<close>, \<open>Settings_Store\<close>: \<open>utils/storage.cpp\<close>, \<open>utils/settings_store.cpp\<close> over the record
    \<open>nxfs\<close> of libnx file services (\<open>nxfs_ok\<close>: what they do, \<open>nxfs_up\<close>: that they do not fail).
  \<^item> \<open>Tls\<close>: \<open>net/tls.cpp\<close>; mbedtls is the record \<open>mbedtls\<close>.
  \<^item> \<open>Session\<close>, \<open>Pairing\<close>, \<open>Connection\<close>, \<open>Payload\<close>, \<open>Discovery\<close>: \<open>net/kdeconnect_client.cpp\<close>. Sessions are
    a heap of records, \<open>sessions_\<close> a map into it; \<open>node\<close> adds the sockets and threads.
  \<^item> \<open>Mdns_Name\<close>, \<open>Mdns_Message\<close>: \<open>mdns/mdns.h\<close> over buffers that are lists of bytes, a read or write outside
    being a fault (\<open>None\<close>); \<open>Mdns_Discovery\<close>: \<open>mdns/mdns_discovery.cpp\<close>. \<open>Mdns_Safety\<close> shows that no
    operation faults (the locale \<open>mdns_reader\<close>: the parsers over any safe callback),
    \<open>Mdns_Roundtrip\<close>, \<open>Mdns_Records\<close> and \<open>Mdns_Exchange\<close> that what the builders of names, records and messages
    write is there to read (\<open>name_in\<close>, \<open>record_at\<close>, \<open>answer_at\<close>), \<open>Mdns_Peers\<close> that the parsers read it,
    \<open>Mdns_Loop\<close> the life of the service. \<open>Mdns_Browse\<close>: what \<open>mdns.h\<close> has and the program does not call.
  \<^item> \<open>Pairing_Moves\<close>, \<open>Pairing_Safety\<close>, \<open>Pairing_Protocol\<close>: the abstract pairing protocol, the proof that
    every operation refines guarded moves of it, and what follows.
  \<^item> \<open>Plugin_Base\<close> (ping, find my phone, battery, system volume), \<open>Plugin_Commands\<close> (run command,
    mousepad, \<open>utils/hiddbg_util.cpp\<close>), \<open>Plugin_Media\<close> (mpris, album art, share), \<open>Plugin_Notify\<close> and
    \<open>Icons\<close> (notifications): a handler maps its surroundings (\<open>plugin_env\<close>), the plugin's state and a
    packet to a result, a state and a list of effects (\<open>peffect\<close>) in call order.
  \<^item> \<open>Plugin_Registry\<close>: \<open>plugin_registry.cpp\<close> and \<open>plugin.h\<close>, all plugins as one type with the statics
    they share. \<open>Plugin_Safety\<close>, \<open>Plugin_Commands_Props\<close>: properties of plugins.
  \<^item> \<open>Application\<close>: \<open>nx_application.cpp\<close>, \<open>utils/psc_monitor.cpp\<close>.
  \<^item> \<open>Ipc_Wire\<close>, \<open>Ipc_Server\<close>, \<open>Ipc_Service\<close>, \<open>Ipc_Safety\<close>, \<open>Ipc_Client\<close>: \<open>common/src/kdec/ipc.h\<close>,
    \<open>ipc/ipc_server.c\<close>, \<open>ipc/ipc_service.cpp\<close>, and \<open>common/src/kdec/ipc_client.cpp\<close>, whose calls take
    \<open>serviceDispatch\<close> as an argument and are joined with the service by \<open>service_dispatch\<close>.
  \<^item> \<open>Overlay_Pages\<close> (main, device and commands page), \<open>Overlay_Settings\<close>, \<open>Overlay_Media\<close> (media page,
    seek bar, buttons, audio devices), \<open>Overlay_Art\<close> (title bar and album art), \<open>Overlay_Main\<close>
    (\<open>main.cpp\<close>): the overlay, \<open>src/overlay/src\<close>. A page is a list of items, a listener the list of its
    effects (\<open>gui_effect\<close>), which \<open>perform\<close> runs on the service. \<open>Overlay_Actions\<close> joins both sides.
  \<^item> \<open>Logging\<close> (\<open>common/src/utils\<close>: \<open>logger.cpp\<close>, \<open>nxlink_sink.cpp\<close>), \<open>Mem_Tracker\<close>
    (\<open>utils/mem_tracker.cpp\<close> and its reader), \<open>Strtod_Stub\<close> (\<open>utils/strtod_stub.c\<close>, over any arithmetic),
    \<open>Runtime\<close> (\<open>utils/stack_thread.h\<close>, \<open>utils/scoped_fd.h\<close>, \<open>main_sysmodule.cpp\<close>): what the program runs
    on. The log's network sink and the tracing are of builds that enable them.

  \<^bold>\<open>How they interact.\<close> A line read by \<open>io_iteration\<close> is parsed by \<open>parse_packet\<close> and handed to
  \<open>handle_packet\<close>: pair packets go to \<open>handle_pair_packet\<close>, others, for a paired session, to the
  plugins in turn (\<open>dispatch\<close>). Client operations are generic in the type of plugins (\<open>plugin_class\<close>);
  \<open>Plugin_Registry\<close> gives the nine plugins with their statics, which \<open>process_events\<close> polls and
  \<open>handle_command\<close> calls for the overlay, the effects running on the client through
  \<open>client_effects\<close>. \<open>restart_client\<close> stops one node and starts the next from the same file system.

  \<^bold>\<open>What the lemmas show.\<close> Round trips: packets over the wire (C1), identities over TLS (C2), the own
  identity (C3), payloads (C17), the mDNS exchange (C20), settings (C22) and the page that changes them
  (C37), an overlay request up to the peer's queue (C34), the device list back onto the screen (C35).
  Pairing: refinement (C5), no pairing without consent (C6), paired exactly when stored (C7), the session
  table (C8), pinning and where it is missing (C9, C10), the verification key (C11), acceptances (C12).
  Memory: JSON documents have one owner (C13), mDNS stays within its buffers (C21), album art is scaled
  within its buffer (C39), but for small covers (C40). Errors: C4, C12, C15. Transfers: C14, C16. Life
  cycle and discovery: C18, C19, C32. Plugins: C23 to C31. The IPC server: C33. Pages act as they say:
  C36, C38. Other theorems with a witness beside them: files are read back as written
  (\<open>write_then_read\<close>), what is offered runs (\<open>offered_commands_run\<close>), timeouts of the line readers
  (\<open>timeout_ends_only_plain_reads\<close>), the datagram that makes the listener read past its buffer
  (\<open>listener_reads_past_buffer\<close>), the throttle of probes (\<open>probes_are_throttled\<close>), one jump per drag of
  the seek bar (\<open>one_seek_per_drag\<close>), one session of the overlay (\<open>session_is_counted\<close>), complete logs (\<open>log_file_is_complete\<close>) and
  their messages in order (\<open>nxlink_keeps_order\<close>), traces that read back (\<open>trace_reads_back\<close>), the
  histogram of live blocks (\<open>histogram_is_live\<close>), numerals (\<open>strtod_reads_numeral\<close>), threads with one
  owner (\<open>threads_are_owned_once\<close>).

  \<^bold>\<open>Third-party code and hypotheses.\<close> yyjson, mbedtls, libnx, libpng and the kernel are arguments.
  What a property needs of them is a named predicate (\<open>yyjson_ok\<close>, \<open>mbedtls_ok\<close>, \<open>nxfs_ok\<close>,
  \<open>nxfs_up\<close>, \<open>carries\<close>), and every property with hypotheses is applied to a concrete instance
  (\<open>yy_ref\<close>, \<open>mbed_ref\<close>, \<open>nx_ref\<close>) by the theorem of the same name ending in \<open>_witness\<close>.

  \<^bold>\<open>Loops, threads, bounds.\<close> Loops over inputs are recursive functions over the list of results of
  the calls they make; a list that ends is a call that has not returned (\<open>Waiting\<close>, \<open>DlWaiting\<close>).
  Loops over counters and buffers are \<open>function\<close> with a termination measure. There is no fuel; the
  bounds of 20 and 40 polls in \<open>send_screenshot\<close> are the code's. Threads are tasks whose steps run
  one at a time under the client's locks. \<open>int\<close>, \<open>int64_t\<close>, \<open>uint8_t\<close> and the like are words of their
  width. The iteration order of a hash map, which C++ leaves open, is insertion order.

  \<^bold>\<open>Bounds of mDNS.\<close> Buffers hold 2048 bytes, names have at most 64 labels and 16 references in a row, a
  message remembers 16 names; the loops that count these terminate by measure.

  \<^bold>\<open>Not modelled.\<close> IPv6 sockets, which the console build leaves out; socket counters; the stubs that
  pass printf and assert on; painted stacks; the Linux and applet test programs; drawing, focus and
  scrolling in the overlay, which the toolkit does; other code behind \<open>DEBUG\<close> switches and of the Linux
  build. Data races between threads are outside the model, as are the locks that prevent them.
\<close>

end
